(* ===== verification/Prelude.thy ===== *)
theory Prelude
  imports Main "HOL-Library.AList"
begin

text \<open>
  Shared vocabulary of the development.

  \<^item> Results: a source function that may throw is a HOL function into \<open>'e + 'a\<close>; \<open>Inl\<close> is the
    thrown error. \<open>bindE\<close> sequences two such computations and stops at the first error.
  \<^item> Tables: the rows of a database table (or of a JavaScript \<open>Map\<close>) are an association list in
    insertion order with one row per key; \<open>findRow\<close> and \<open>putRow\<close> are the unique-key read and the
    upsert. The locale \<open>keyed_table\<close> states what a client may rely on.
  \<^item> Generic list facts that several components use.
\<close>

named_theorems result_simps "equations that evaluate sequenced computations"
named_theorems table_simps "reads after writes on tables"

section \<open>Computations that may throw\<close>

definition bindE :: "'e + 'a \<Rightarrow> ('a \<Rightarrow> 'e + 'b) \<Rightarrow> 'e + 'b" where
  "bindE m f = (case m of Inl e \<Rightarrow> Inl e | Inr x \<Rightarrow> f x)"

definition assertE :: "bool \<Rightarrow> 'e \<Rightarrow> 'e + unit" where
  "assertE b e = (if b then Inr () else Inl e)"

definition someE :: "'a option \<Rightarrow> 'e \<Rightarrow> 'e + 'a" where
  "someE o' e = (case o' of None \<Rightarrow> Inl e | Some x \<Rightarrow> Inr x)"

lemma bindE_Inl [simp, result_simps]: "bindE (Inl e) f = Inl e"
  by (simp add: bindE_def)

lemma bindE_Inr [simp, result_simps]: "bindE (Inr x) f = f x"
  by (simp add: bindE_def)

lemma assertE_simps [simp, result_simps]:
  "assertE True e = Inr ()" "assertE False e = Inl e"
  by (simp_all add: assertE_def)

lemma someE_simps [simp, result_simps]:
  "someE None e = Inl e" "someE (Some x) e = Inr x"
  by (simp_all add: someE_def)

lemma bindE_eq_Inr_iff: "bindE m f = Inr y \<longleftrightarrow> (\<exists>x. m = Inr x \<and> f x = Inr y)"
  by (cases m) auto

lemma bindE_InrE:
  assumes "bindE m f = Inr y"
  obtains x where "m = Inr x" "f x = Inr y"
  using assms by (cases m) auto

lemma assertE_eq_Inr_iff: "assertE b e = Inr u \<longleftrightarrow> b"
  by (simp add: assertE_def)

lemma someE_eq_Inr_iff: "someE o' e = Inr x \<longleftrightarrow> o' = Some x"
  by (cases o') auto

lemmas result_iffs = bindE_eq_Inr_iff assertE_eq_Inr_iff someE_eq_Inr_iff

lemma bindE_cong [fundef_cong]:
  "m = m' \<Longrightarrow> (\<And>x. m' = Inr x \<Longrightarrow> f x = f' x) \<Longrightarrow> bindE m f = bindE m' f'"
  by (cases m') auto

text \<open>A loop over a list that threads a state and stops at the first error.\<close>

fun foldE :: "('a \<Rightarrow> 's \<Rightarrow> 'e + 's) \<Rightarrow> 'a list \<Rightarrow> 's \<Rightarrow> 'e + 's" where
  "foldE f [] s = Inr s"
| "foldE f (x # xs) s = bindE (f x s) (foldE f xs)"

lemma foldE_invariant:
  assumes "foldE f xs s = Inr t" and "P s"
    and "\<And>x s s'. x \<in> set xs \<Longrightarrow> P s \<Longrightarrow> f x s = Inr s' \<Longrightarrow> P s'"
  shows "P t"
  using assms by (induction xs arbitrary: s) (auto simp: bindE_eq_Inr_iff)

section \<open>Tables\<close>

type_synonym ('k, 'v) rows = "('k \<times> 'v) list"

definition findRow :: "('k, 'v) rows \<Rightarrow> 'k \<Rightarrow> 'v option" where
  "findRow t k = map_of t k"

definition putRow :: "'k \<Rightarrow> 'v \<Rightarrow> ('k, 'v) rows \<Rightarrow> ('k, 'v) rows" where
  "putRow k v t = AList.update k v t"

definition dropRow :: "'k \<Rightarrow> ('k, 'v) rows \<Rightarrow> ('k, 'v) rows" where
  "dropRow k t = AList.delete k t"

definition uniqueKeys :: "('k, 'v) rows \<Rightarrow> bool" where
  "uniqueKeys t \<longleftrightarrow> distinct (map fst t)"

locale keyed_table =
  fixes look :: "'t \<Rightarrow> 'k \<Rightarrow> 'v option"
    and put :: "'k \<Rightarrow> 'v \<Rightarrow> 't \<Rightarrow> 't"
    and drop' :: "'k \<Rightarrow> 't \<Rightarrow> 't"
    and wf :: "'t \<Rightarrow> bool"
  assumes look_put: "look (put k v t) = (look t)(k \<mapsto> v)"
    and look_drop: "look (drop' k t) = (look t)(k := None)"
    and wf_put: "wf t \<Longrightarrow> wf (put k v t)"
    and wf_drop: "wf t \<Longrightarrow> wf (drop' k t)"
begin

lemma look_put_same: "look (put k v t) k = Some v"
  by (simp add: look_put)

lemma look_put_other: "k \<noteq> k' \<Longrightarrow> look (put k v t) k' = look t k'"
  by (simp add: look_put)

lemma look_put_iff:
  "look (put k v t) k' = Some w \<longleftrightarrow> (if k = k' then v = w else look t k' = Some w)"
  by (auto simp: look_put)

lemma look_drop_same: "look (drop' k t) k = None"
  by (simp add: look_drop)

lemma look_drop_other: "k \<noteq> k' \<Longrightarrow> look (drop' k t) k' = look t k'"
  by (simp add: look_drop)

end

interpretation rows: keyed_table findRow putRow dropRow uniqueKeys
  by unfold_locales
    (auto simp: findRow_def putRow_def dropRow_def uniqueKeys_def update_conv' delete_conv'
      intro: distinct_update distinct_delete)

lemmas rows_simps [simp, table_simps] =
  rows.look_put_same rows.look_put_other rows.look_drop_same rows.look_drop_other

lemma findRow_Nil [simp, table_simps]: "findRow [] k = None"
  by (simp add: findRow_def)

lemma findRow_Cons [table_simps]:
  "findRow ((k', v) # t) k = (if k' = k then Some v else findRow t k)"
  by (simp add: findRow_def)

lemma uniqueKeys_Nil [simp]: "uniqueKeys []"
  by (simp add: uniqueKeys_def)

lemma findRow_map: "findRow (map (\<lambda>(k, v). (k, f v)) t) k = map_option f (findRow t k)"
  by (simp add: findRow_def map_of_map)

lemma findRow_in_set: "findRow t k = Some v \<Longrightarrow> (k, v) \<in> set t"
  by (simp add: findRow_def map_of_SomeD)

lemma findRow_unique: "uniqueKeys t \<Longrightarrow> findRow t k = Some v \<longleftrightarrow> (k, v) \<in> set t"
  by (simp add: findRow_def uniqueKeys_def map_of_eq_Some_iff)

text \<open>
  The sum of a field over a table changes by exactly what one upsert changes (with the key's old
  row counted as 0 when there was none): the aggregate the source computes with \<open>_sum\<close>.
\<close>

lemma sum_putRow:
  fixes f :: "'k \<times> 'v \<Rightarrow> int"
  assumes "uniqueKeys t"
  shows "sum_list (map f (putRow k v t)) =
    sum_list (map f t) - (case findRow t k of None \<Rightarrow> 0 | Some w \<Rightarrow> f (k, w)) + f (k, v)"
  using assms
proof (induction t)
  case Nil
  then show ?case by (simp add: putRow_def)
next
  case (Cons r t)
  obtain k' w where r: "r = (k', w)" by (cases r)
  from Cons.prems r have t: "uniqueKeys t" and nk: "k' \<notin> fst ` set t"
    by (auto simp: uniqueKeys_def)
  show ?case
  proof (cases "k' = k")
    case True
    then show ?thesis using r by (simp add: putRow_def findRow_def)
  next
    case False
    then show ?thesis using r Cons.IH [OF t] by (simp add: putRow_def findRow_def)
  qed
qed

section \<open>Lists\<close>

lemma sum_list_nonneg_map:
  fixes f :: "'a \<Rightarrow> int"
  shows "(\<And>x. x \<in> set xs \<Longrightarrow> 0 \<le> f x) \<Longrightarrow> 0 \<le> sum_list (map f xs)"
  by (induction xs) auto

lemma member_le_sum_list_map:
  fixes f :: "'a \<Rightarrow> int"
  assumes "x \<in> set xs" and "\<And>y. y \<in> set xs \<Longrightarrow> 0 \<le> f y"
  shows "f x \<le> sum_list (map f xs)"
  using assms
proof (induction xs)
  case (Cons a xs)
  have "0 \<le> sum_list (map f xs)" using Cons.prems(2) by (intro sum_list_nonneg_map) auto
  with Cons show ?case by fastforce
qed simp

text \<open>JavaScript's \<open>new Set(xs)\<close> keeps the first occurrence of each value.\<close>

fun uniq :: "'a list \<Rightarrow> 'a list" where
  "uniq [] = []"
| "uniq (x # xs) = x # filter (\<lambda>y. y \<noteq> x) (uniq xs)"

lemma set_uniq [simp]: "set (uniq xs) = set xs"
  by (induction xs) auto

lemma distinct_uniq [simp]: "distinct (uniq xs)"
  by (induction xs) auto

end
