(* ===== verification/Js_Number.thy ===== *)
theory Js_Number
  imports Prelude Complex_Main "HOL-Library.Log_Nat"
begin

text \<open>
  The part of JavaScript's arithmetic the program relies on.

  \<^item> \<open>BigInt\<close> values and \<open>number\<close> values that stay safe integers are \<open>int\<close>; BigInt division
    truncates towards zero (\<open>bigdiv\<close>).
  \<^item> A \<open>number\<close> computation that leaves the integers is rounded after every operation to the nearest
    binary64 value, ties to even (\<open>fl\<close>), on rationals: 53 significant bits, the exponent range left
    out (no value of the program comes near its ends).
  \<^item> \<open>Math.floor\<close>, \<open>Math.ceil\<close> are \<open>floor\<close>, \<open>ceiling\<close>; \<open>Math.round\<close> is \<open>mathRound\<close>
    (halves go up).
\<close>

section \<open>BigInt division\<close>

definition bigdiv :: "int \<Rightarrow> int \<Rightarrow> int" where
  "bigdiv a b = sgn a * sgn b * (\<bar>a\<bar> div \<bar>b\<bar>)"

lemma bigdiv_nonneg: "0 \<le> a \<Longrightarrow> 0 < b \<Longrightarrow> bigdiv a b = a div b"
  by (cases "a = 0") (auto simp: bigdiv_def)

definition ceilDiv :: "int \<Rightarrow> int \<Rightarrow> int" where
  "ceilDiv a b = bigdiv (a + (b - 1)) b"

lemma ceilDiv_bounds:
  assumes "0 \<le> a" "0 < b"
  shows "a \<le> ceilDiv a b * b" and "ceilDiv a b * b < a + b" and "0 \<le> ceilDiv a b"
proof -
  have eq: "ceilDiv a b = (a + (b - 1)) div b"
    using assms by (simp add: ceilDiv_def bigdiv_nonneg)
  have m: "(a + (b - 1)) = b * ((a + (b - 1)) div b) + (a + (b - 1)) mod b" by simp
  have lo: "0 \<le> (a + (b - 1)) mod b" and hi: "(a + (b - 1)) mod b < b"
    using assms by simp_all
  from m lo hi show "a \<le> ceilDiv a b * b" and "ceilDiv a b * b < a + b"
    unfolding eq by (smt (verit) mult.commute)+
  show "0 \<le> ceilDiv a b" unfolding eq using assms by (simp add: pos_imp_zdiv_nonneg_iff)
qed

lemma ceilDiv_le_iff:
  assumes "0 \<le> a" "0 < b"
  shows "ceilDiv a b \<le> c \<longleftrightarrow> a \<le> c * b"
proof
  assume "ceilDiv a b \<le> c"
  then have "ceilDiv a b * b \<le> c * b" using assms by (simp add: mult_right_mono)
  with ceilDiv_bounds(1) [OF assms] show "a \<le> c * b" by linarith
next
  assume "a \<le> c * b"
  with ceilDiv_bounds(2) [OF assms] have "ceilDiv a b * b < (c + 1) * b"
    by (simp add: algebra_simps)
  with assms(2) have "ceilDiv a b < c + 1" by (simp add: mult_less_cancel_right)
  then show "ceilDiv a b \<le> c" by simp
qed

lemma ceilDiv_mono:
  assumes "0 \<le> a" "a \<le> a'" "0 < b"
  shows "ceilDiv a b \<le> ceilDiv a' b"
  using assms ceilDiv_bounds(1) [of a' b] by (simp add: ceilDiv_le_iff)

lemma ceilDiv_pos_iff: "0 \<le> a \<Longrightarrow> 0 < b \<Longrightarrow> 0 < ceilDiv a b \<longleftrightarrow> 0 < a"
  using ceilDiv_le_iff [of a b 0] ceilDiv_bounds(3) [of a b] by auto

section \<open>Rounding to binary64\<close>

definition roundHalfEven :: "rat \<Rightarrow> int" where
  "roundHalfEven y =
     (let f = \<lfloor>y\<rfloor>; d = y - of_int f in
      if d < 1 / 2 then f else if d > 1 / 2 then f + 1 else if even f then f else f + 1)"

lemma roundHalfEven_of_int [simp]: "roundHalfEven (of_int k) = k"
  by (simp add: roundHalfEven_def)

lemma roundHalfEven_error: "\<bar>of_int (roundHalfEven y) - y\<bar> \<le> 1 / 2"
proof -
  define d where "d = y - of_int \<lfloor>y\<rfloor>"
  have d: "0 \<le> d" "d < 1" unfolding d_def by linarith+
  have y: "y = of_int \<lfloor>y\<rfloor> + d" by (simp add: d_def)
  show ?thesis
    unfolding roundHalfEven_def Let_def d_def [symmetric]
    using d y by (auto simp: abs_if split: if_splits)
qed

text \<open>The exponent of a positive rational, from the bit lengths of numerator and denominator.\<close>

definition expOf :: "rat \<Rightarrow> int" where
  "expOf x = (case quotient_of x of (p, q) \<Rightarrow>
     let e = bitlen p - bitlen q in if x < 2 powi e then e - 1 else e)"

definition fl :: "rat \<Rightarrow> rat" where
  "fl x = (if x = 0 then 0 else
     let u = 2 powi (expOf \<bar>x\<bar> - 52) in of_int (roundHalfEven (x / u)) * u)"

lemma expOf_bounds:
  assumes "0 < x"
  shows "2 powi expOf x \<le> x" and "x < 2 powi (expOf x + 1)"
proof -
  obtain p q where pq: "quotient_of x = (p, q)" by (cases "quotient_of x")
  have q: "0 < q" using quotient_of_denom_pos [OF pq] .
  have x: "x = of_int p / of_int q" using quotient_of_div [OF pq] .
  with assms q have p: "0 < p" by (auto simp: zero_less_divide_iff)
  define a b where "a = bitlen p" and "b = bitlen q"
  have a1: "1 \<le> a" and b1: "1 \<le> b"
    using p q bitlen_nonneg [of p] bitlen_nonneg [of q] bitlen_eq_zero_iff [of p] bitlen_eq_zero_iff [of q]
    unfolding a_def b_def by linarith+
  have pb: "(2::int) ^ nat (a - 1) \<le> p" "p < 2 ^ nat a"
    using bitlen_bounds [OF p] by (auto simp: a_def)
  have qb: "(2::int) ^ nat (b - 1) \<le> q" "q < 2 ^ nat b"
    using bitlen_bounds [OF q] by (auto simp: b_def)
  have conv: "(2::rat) powi k = 2 ^ nat k" if "0 \<le> k" for k
    using that by (simp add: power_int_def)
  have lift_le: "(2::rat) ^ n \<le> of_int m" if "(2::int) ^ n \<le> m" for n m
  proof -
    have "of_int ((2::int) ^ n) \<le> (of_int m :: rat)" using that by (simp only: of_int_le_iff)
    then show ?thesis by simp
  qed
  have lift_less: "of_int m < (2::rat) ^ n" if "m < (2::int) ^ n" for n m
  proof -
    have "(of_int m :: rat) < of_int ((2::int) ^ n)" using that by (simp only: of_int_less_iff)
    then show ?thesis by simp
  qed
  have P: "(2::rat) powi (a - 1) \<le> of_int p" "of_int p < (2::rat) powi a"
    using lift_le [OF pb(1)] lift_less [OF pb(2)] a1 by (simp_all add: conv)
  have Q: "(2::rat) powi (b - 1) \<le> of_int q" "of_int q < (2::rat) powi b"
    using lift_le [OF qb(1)] lift_less [OF qb(2)] b1 by (simp_all add: conv)
  have qr: "(0::rat) < of_int q" using q by simp
  have hi: "x < 2 powi (a - b + 1)"
  proof -
    have "of_int p < (2::rat) powi (a - b + 1) * 2 powi (b - 1)"
      using P(2) by (simp add: flip: power_int_add)
    also have "\<dots> \<le> 2 powi (a - b + 1) * of_int q" using Q(1) by (intro mult_left_mono) auto
    finally show ?thesis using x qr by (simp add: divide_less_eq)
  qed
  have lo: "2 powi (a - b - 1) \<le> x"
  proof -
    have "(2::rat) powi (a - b - 1) * of_int q \<le> 2 powi (a - b - 1) * 2 powi b"
      using Q(2) by (intro mult_left_mono) auto
    also have "\<dots> = 2 powi (a - 1)" by (simp flip: power_int_add)
    also have "\<dots> \<le> of_int p" by (rule P(1))
    finally show ?thesis using x qr by (simp add: le_divide_eq)
  qed
  show "2 powi expOf x \<le> x" "x < 2 powi (expOf x + 1)"
    using lo hi unfolding expOf_def pq prod.case Let_def a_def [symmetric] b_def [symmetric]
    by (auto split: if_splits)
qed

lemma fl_0 [simp]: "fl 0 = 0"
  by (simp add: fl_def)

lemma fl_error: "\<bar>fl x - x\<bar> \<le> \<bar>x\<bar> / 2 ^ 53"
proof (cases "x = 0")
  case False
  define e where "e = expOf \<bar>x\<bar>"
  define u :: rat where "u = 2 powi (e - 52)"
  have u: "0 < u" by (simp add: u_def)
  have flx: "fl x = of_int (roundHalfEven (x / u)) * u"
    using False by (simp add: fl_def u_def e_def Let_def)
  have "fl x - x = (of_int (roundHalfEven (x / u)) - x / u) * u"
    using u by (simp add: flx algebra_simps)
  then have "\<bar>fl x - x\<bar> = \<bar>of_int (roundHalfEven (x / u)) - x / u\<bar> * u"
    using u by (simp add: abs_mult)
  also have "\<dots> \<le> 1 / 2 * u" using roundHalfEven_error u by (intro mult_right_mono) auto
  also have "\<dots> = 2 powi e / 2 ^ 53"
    by (simp add: u_def power_int_diff)
  also have "\<dots> \<le> \<bar>x\<bar> / 2 ^ 53"
    using expOf_bounds(1) [of "\<bar>x\<bar>"] False unfolding e_def by (intro divide_right_mono) auto
  finally show ?thesis .
qed simp

lemma mod_range_pos:
  assumes "(0::int) < b"
  shows "a mod b < b \<and> (b dvd a \<or> 1 \<le> a mod b)"
proof -
  have "0 \<le> a mod b" "a mod b < b" using assms by (rule pos_mod_sign, rule pos_mod_bound)
  then have "a mod b < b \<and> (a mod b = 0 \<or> 1 \<le> a mod b)" by linarith
  then show ?thesis unfolding dvd_eq_mod_eq_0 .
qed

text \<open>A dyadic rational with at most 53 significant bits is a binary64 value.\<close>

lemma fl_dyadic:
  assumes "\<bar>k\<bar> < 2 ^ 53"
  shows "fl (of_int k / 2 ^ j) = of_int k / 2 ^ j"
proof (cases "k = 0")
  case False
  define x :: rat where "x = of_int k / 2 ^ j"
  define e where "e = expOf \<bar>x\<bar>"
  have x0: "x \<noteq> 0" using False by (simp add: x_def)
  have "(2::rat) powi e \<le> \<bar>x\<bar>"
    using expOf_bounds(1) [of "\<bar>x\<bar>"] x0 by (simp add: e_def)
  also have "\<bar>x\<bar> < 2 ^ 53 / 2 ^ j"
  proof -
    have "(of_int \<bar>k\<bar> :: rat) < of_int (2 ^ 53)" using assms by (simp only: of_int_less_iff)
    then show ?thesis by (simp add: x_def abs_divide divide_strict_right_mono)
  qed
  also have "(2::rat) ^ 53 / 2 ^ j = 2 powi (53 - int j)"
    by (simp add: power_int_diff)
  finally have "(2::rat) powi e < 2 powi (53 - int j)" .
  then have e: "e < 53 - int j"
    using power_int_increasing [of "53 - int j" e "2::rat"] by (meson not_le one_le_numeral)
  define n where "n = nat (52 - e)"
  define m where "m = n - j"
  have n: "n = j + m" and en: "e - 52 = - int n" using e by (auto simp: n_def m_def)
  have u: "(2::rat) powi (e - 52) = 1 / 2 ^ n"
    unfolding en by (simp add: power_int_minus divide_inverse)
  have "fl x = of_int (roundHalfEven (x * 2 ^ n)) * (1 / 2 ^ n)"
    using x0 by (simp add: fl_def e_def [symmetric] u)
  also have "x * 2 ^ n = of_int (k * 2 ^ m)"
    by (simp add: x_def n power_add)
  also have "of_int (roundHalfEven (of_int (k * 2 ^ m))) * (1 / 2 ^ n :: rat) = x"
    by (subst roundHalfEven_of_int) (simp add: x_def n power_add)
  finally show ?thesis by (simp add: x_def)
qed simp

lemma fl_of_int: "\<bar>k\<bar> < 2 ^ 53 \<Longrightarrow> fl (of_int k) = of_int k"
  using fl_dyadic [of k 0] by simp

text \<open>Rounding is monotone.\<close>

lemma roundHalfEven_mono:
  assumes "x \<le> y"
  shows "roundHalfEven x \<le> roundHalfEven y"
proof (cases "\<lfloor>x\<rfloor> = \<lfloor>y\<rfloor>")
  case True
  then show ?thesis using assms by (auto simp: roundHalfEven_def Let_def)
next
  case False
  then have "\<lfloor>x\<rfloor> + 1 \<le> \<lfloor>y\<rfloor>" using floor_mono [OF assms] by linarith
  moreover have "roundHalfEven x \<le> \<lfloor>x\<rfloor> + 1" "\<lfloor>y\<rfloor> \<le> roundHalfEven y"
    by (auto simp: roundHalfEven_def Let_def)
  ultimately show ?thesis by linarith
qed

lemma fl_pos_eq: "0 < x \<Longrightarrow> fl x = of_int (roundHalfEven (x / 2 powi (expOf x - 52))) * 2 powi (expOf x - 52)"
  by (simp add: fl_def Let_def)

lemma fl_binade:
  assumes "0 < x"
  shows "2 powi expOf x \<le> fl x" and "fl x \<le> 2 powi (expOf x + 1)"
proof -
  define u :: rat where "u = 2 powi (expOf x - 52)"
  have u: "0 < u" by (simp add: u_def)
  have lo: "2 powi expOf x = of_int (2 ^ 52) * u" and hi: "2 powi (expOf x + 1) = of_int (2 ^ 53) * u"
    by (simp_all add: u_def power_int_diff power_int_add)
  have "of_int (2 ^ 52) \<le> x / u" "x / u \<le> of_int (2 ^ 53)"
    using expOf_bounds [OF assms] u unfolding lo hi by (simp_all add: le_divide_eq divide_le_eq)
  from roundHalfEven_mono [OF this(1)] roundHalfEven_mono [OF this(2)]
  have "(2 ^ 52 :: int) \<le> roundHalfEven (x / u)" "roundHalfEven (x / u) \<le> 2 ^ 53"
    by (simp_all only: roundHalfEven_of_int)
  then have "(of_int (2 ^ 52) :: rat) \<le> of_int (roundHalfEven (x / u))"
    "(of_int (roundHalfEven (x / u)) :: rat) \<le> of_int (2 ^ 53)"
    by (simp_all only: of_int_le_iff)
  then show "2 powi expOf x \<le> fl x" "fl x \<le> 2 powi (expOf x + 1)"
    unfolding lo hi fl_pos_eq [OF assms] u_def [symmetric] using u by (simp_all add: mult_right_mono)
qed

lemma fl_nonneg: "0 \<le> x \<Longrightarrow> 0 \<le> fl x"
  using fl_binade(1) [of x] by (cases "x = 0") (auto intro: order_trans [rotated])

lemma fl_mono:
  assumes "0 \<le> x" "x \<le> y"
  shows "fl x \<le> fl y"
proof (cases "x = 0")
  case True
  then show ?thesis using assms by (simp add: fl_nonneg)
next
  case False
  then have x: "0 < x" and y: "0 < y" using assms by auto
  have "(2::rat) powi expOf x < 2 powi (expOf y + 1)"
    using expOf_bounds(1) [OF x] expOf_bounds(2) [OF y] assms(2) by linarith
  then have e: "expOf x \<le> expOf y"
    using power_int_increasing [of "expOf y + 1" "expOf x" "2::rat"] by linarith
  show ?thesis
  proof (cases "expOf x = expOf y")
    case True
    have "x / 2 powi (expOf x - 52) \<le> y / 2 powi (expOf x - 52)"
      using assms(2) by (intro divide_right_mono) auto
    from roundHalfEven_mono [OF this] show ?thesis
      by (simp add: fl_pos_eq x y True [symmetric] mult_right_mono)
  next
    case False
    then have "(2::rat) powi (expOf x + 1) \<le> 2 powi expOf y" using e by (intro power_int_increasing) auto
    then show ?thesis using fl_binade(2) [OF x] fl_binade(1) [OF y] by linarith
  qed
qed

lemma fl_1 [simp]: "fl 1 = 1"
  using fl_of_int [of 1] by simp

text \<open>The operations of the source, rounded once each.\<close>

definition jsAdd :: "rat \<Rightarrow> rat \<Rightarrow> rat" where "jsAdd a b = fl (a + b)"
definition jsSub :: "rat \<Rightarrow> rat \<Rightarrow> rat" where "jsSub a b = fl (a - b)"
definition jsMul :: "rat \<Rightarrow> rat \<Rightarrow> rat" where "jsMul a b = fl (a * b)"
definition jsDiv :: "rat \<Rightarrow> rat \<Rightarrow> rat" where "jsDiv a b = fl (a / b)"

definition mathRound :: "rat \<Rightarrow> int" where
  "mathRound x = \<lfloor>x + 1 / 2\<rfloor>"

lemma mathRound_of_int [simp]: "mathRound (of_int k) = k"
  unfolding mathRound_def by (rule floor_unique) simp_all

text \<open>
  A value known to within \<open>\<delta>\<close>, when the exact one is at least \<open>\<delta>\<close> away from the integer
  above (or is that integer), has the exact floor or one less.
\<close>

lemma floor_near:
  fixes x y :: rat
  assumes "\<bar>y - x\<bar> < \<delta>" and "x + \<delta> \<le> of_int \<lfloor>x\<rfloor> + 1" and "\<delta> \<le> 1"
  shows "\<lfloor>y\<rfloor> \<le> \<lfloor>x\<rfloor>" and "\<lfloor>x\<rfloor> - 1 \<le> \<lfloor>y\<rfloor>"
proof -
  from assms(1) have "y < x + \<delta>" and "x - \<delta> < y" by (auto simp: abs_less_iff)
  with assms(2) have "y < of_int (\<lfloor>x\<rfloor> + 1)" by simp
  then show "\<lfloor>y\<rfloor> \<le> \<lfloor>x\<rfloor>" by (simp add: floor_less_iff flip: zle_add1_eq_le)
  have "of_int \<lfloor>x\<rfloor> - 1 \<le> y" using \<open>x - \<delta> < y\<close> assms(3) of_int_floor_le [of x] by linarith
  then have "of_int (\<lfloor>x\<rfloor> - 1) \<le> y" by simp
  then show "\<lfloor>x\<rfloor> - 1 \<le> \<lfloor>y\<rfloor>" by (simp add: le_floor_iff)
qed

section \<open>Rounded quotients of safe integers\<close>

text \<open>
  Dividing two safe integers rounds once, and the rounding never reaches the next integer: floor and
  ceiling of the rounded quotient are those of the exact one.
\<close>

definition floorQuot :: "int \<Rightarrow> int \<Rightarrow> int" where
  "floorQuot a b = \<lfloor>jsDiv (of_int a) (of_int b)\<rfloor>"

definition ceilQuot :: "int \<Rightarrow> int \<Rightarrow> int" where
  "ceilQuot a b = \<lceil>jsDiv (of_int a) (of_int b)\<rceil>"

definition roundQuot :: "int \<Rightarrow> int \<Rightarrow> int" where
  "roundQuot a b = mathRound (jsDiv (of_int a) (of_int b))"

lemma quot_near:
  assumes "0 \<le> a" "a < 2 ^ 53" "0 < b"
  shows "\<bar>fl (of_int a / of_int b) - of_int a / of_int b\<bar> * of_int b < 1"
proof -
  have "\<bar>fl (of_int a / of_int b) - of_int a / of_int b\<bar> * of_int b \<le> of_int a / of_int b / 2 ^ 53 * (of_int b :: rat)"
    using fl_error [of "of_int a / of_int b"] assms by (intro mult_right_mono) auto
  also have "\<dots> = of_int a / 2 ^ 53" using assms by simp
  also have "\<dots> < 1"
  proof -
    have "(of_int a :: rat) < of_int (2 ^ 53)" using assms(2) by (simp only: of_int_less_iff)
    then show ?thesis by simp
  qed
  finally show ?thesis .
qed

lemma quot_between:
  assumes "0 \<le> a" "a < 2 ^ 53" "0 < b" "\<not> b dvd a"
  shows "of_int (a div b) < fl (of_int a / of_int b)" and "fl (of_int a / of_int b) < of_int (a div b) + 1"
proof -
  let ?x = "of_int a / of_int b :: rat" and ?k = "a div b" and ?r = "a mod b"
  have b: "(0::rat) < of_int b" using assms by simp
  have r: "1 \<le> ?r" "?r \<le> b - 1"
    using assms mod_range_pos [of b a] by auto
  have xb: "?x * of_int b = of_int ?k * of_int b + of_int ?r"
  proof -
    have "of_int a = (of_int (?k * b + ?r) :: rat)" by (simp only: div_mult_mod_eq)
    then have "of_int a = (of_int ?k * of_int b + of_int ?r :: rat)" by (simp only: of_int_add of_int_mult)
    then show ?thesis using b by simp
  qed
  have near: "\<bar>fl ?x - ?x\<bar> * of_int b < 1" by (rule quot_near [OF assms(1-3)])
  have "(fl ?x - ?x) * of_int b \<le> \<bar>fl ?x - ?x\<bar> * of_int b" using b by (intro mult_right_mono) auto
  with near have up: "fl ?x * of_int b < ?x * of_int b + 1" by (simp add: left_diff_distrib)
  have "(?x - fl ?x) * of_int b \<le> \<bar>fl ?x - ?x\<bar> * of_int b" using b by (intro mult_right_mono) auto
  with near have lo: "?x * of_int b < fl ?x * of_int b + 1" by (simp add: left_diff_distrib)
  have "(of_int 1 :: rat) \<le> of_int ?r" "(of_int ?r :: rat) \<le> of_int (b - 1)"
    using r by (simp_all only: of_int_le_iff)
  then have r': "(1::rat) \<le> of_int ?r" "(of_int ?r :: rat) \<le> of_int b - 1" by simp_all
  have "of_int ?k * of_int b < fl ?x * of_int b" using lo xb r' by linarith
  then show "of_int ?k < fl ?x" using b by simp
  have "fl ?x * of_int b < (of_int ?k + 1) * of_int b" using up xb r' by (simp add: distrib_right)
  then show "fl ?x < of_int ?k + 1" using b by simp
qed

lemma quot_exact: "0 \<le> a \<Longrightarrow> a < 2 ^ 53 \<Longrightarrow> 0 < b \<Longrightarrow> b dvd a \<Longrightarrow> fl (of_int a / of_int b) = of_int (a div b)"
proof -
  assume a: "0 \<le> a" "a < 2 ^ 53" "0 < b" "b dvd a"
  then have "of_int a / of_int b = (of_int (a div b) :: rat)" by (auto simp: dvd_def)
  moreover have "\<bar>a div b\<bar> < 2 ^ 53"
  proof -
    have "a div b \<le> a" using a zdiv_mono2 [of a 1 b] by simp
    moreover have "0 \<le> a div b" using a by (simp add: pos_imp_zdiv_nonneg_iff)
    ultimately show ?thesis using a by simp
  qed
  ultimately show ?thesis by (metis fl_of_int)
qed

lemma floorQuot_eq: "0 \<le> a \<Longrightarrow> a < 2 ^ 53 \<Longrightarrow> 0 < b \<Longrightarrow> floorQuot a b = a div b"
  unfolding floorQuot_def jsDiv_def
  by (cases "b dvd a")
    (simp_all add: quot_exact floor_unique quot_between [THEN less_imp_le] quot_between(2))

lemma ceilQuot_eq: "0 \<le> a \<Longrightarrow> a < 2 ^ 53 \<Longrightarrow> 0 < b \<Longrightarrow> ceilQuot a b = ceilDiv a b"
proof -
  assume a: "0 \<le> a" "a < 2 ^ 53" "0 < b"
  have c: "ceilDiv a b = (a + (b - 1)) div b" using a by (simp add: ceilDiv_def bigdiv_nonneg)
  show ?thesis
  proof (cases "b dvd a")
    case True
    then obtain m where m: "a = b * m" by blast
    have "ceilDiv a b = m" unfolding c using a m by (simp add: div_mult_self4 div_pos_pos_trivial)
    moreover have "a div b = m" using a m by simp
    ultimately show ?thesis using quot_exact [OF a True] by (simp add: ceilQuot_def jsDiv_def)
  next
    case False
    have "ceilQuot a b = a div b + 1"
      unfolding ceilQuot_def jsDiv_def using quot_between [OF a False] by (intro ceiling_unique) auto
    moreover have "(a + (b - 1)) div b = a div b + 1"
    proof -
      have r: "1 \<le> a mod b" "a mod b < b"
        using a False mod_range_pos [of b a] by auto
      have "a + (b - 1) = (a mod b - 1) + (a div b + 1) * b"
        by (simp add: algebra_simps minus_mod_eq_mult_div [symmetric])
      then have "(a + (b - 1)) div b = (a mod b - 1) div b + (a div b + 1)"
        using a by (metis div_mult_self3 less_irrefl add.commute)
      then show ?thesis using r by (simp add: div_pos_pos_trivial)
    qed
    ultimately show ?thesis using c by simp
  qed
qed

text \<open>Rounding the rounded quotient to an integer gives the exact quotient rounded, halves up.\<close>

lemma roundQuot_eq:
  assumes "0 \<le> a" "a < 2 ^ 50" "0 < b"
  shows "roundQuot a b = (2 * a + b) div (2 * b)"
proof -
  let ?x = "of_int a / of_int b :: rat"
  define m where "m = (2 * a + b) div (2 * b)"
  have split: "2 * a + b = 2 * b * m + (2 * a + b) mod (2 * b)" by (simp add: m_def)
  have r: "0 \<le> (2 * a + b) mod (2 * b)" "(2 * a + b) mod (2 * b) < 2 * b" using assms by simp_all
  have bq: "(0::rat) < of_int b" using assms by simp
  have aq: "of_int a < (2 ^ 50 :: rat)"
  proof -
    have "(of_int a :: rat) < of_int (2 ^ 50)" using assms(2) by (simp only: of_int_less_iff)
    then show ?thesis by simp
  qed
  have err: "\<bar>fl ?x - ?x\<bar> * of_int b \<le> 1 / 8"
  proof -
    have "\<bar>fl ?x - ?x\<bar> * of_int b \<le> ?x / 2 ^ 53 * of_int b"
      using fl_error [of ?x] assms by (intro mult_right_mono) auto
    also have "\<dots> = of_int a / 2 ^ 53" using bq by simp
    also have "\<dots> \<le> 1 / 8" using aq by simp
    finally show ?thesis .
  qed
  have xb: "?x * of_int b = of_int a" using bq by simp
  have "(fl ?x - ?x) * of_int b \<le> \<bar>fl ?x - ?x\<bar> * of_int b"
    "(?x - fl ?x) * of_int b \<le> \<bar>fl ?x - ?x\<bar> * of_int b"
    using bq by (intro mult_right_mono; simp)+
  with err xb have near: "fl ?x * of_int b \<le> of_int a + 1 / 8" "of_int a - 1 / 8 \<le> fl ?x * of_int b"
    by (simp_all add: left_diff_distrib)
  have "2 * a + b \<le> 2 * (m * b) + 2 * b - 1" using split r(2) by (simp add: mult.commute mult.left_commute)
  then have "(of_int (2 * a + b) :: rat) \<le> of_int (2 * (m * b) + 2 * b - 1)" by (simp only: of_int_le_iff)
  then have "(fl ?x + 1 / 2) * of_int b < (of_int m + 1) * of_int b"
    using near(1) by (simp add: distrib_right)
  then have hi: "fl ?x + 1 / 2 < of_int m + 1" using bq by simp
  have lo: "of_int m \<le> fl ?x + 1 / 2"
  proof (cases "(2 * a + b) mod (2 * b) = 0")
    case True
    then have "2 * a = (2 * m - 1) * b" using split by (simp add: algebra_simps)
    then have "(of_int (2 * a) :: rat) = of_int ((2 * m - 1) * b)" by (simp only: of_int_eq_iff)
    then have x: "?x = of_int (2 * m - 1) / 2 ^ 1" using bq by (simp add: field_simps)
    have "\<bar>2 * m - 1\<bar> < 2 ^ 53"
    proof -
      have e: "(2 * m - 1) * b = 2 * a" using \<open>2 * a = (2 * m - 1) * b\<close> by simp
      have "2 * m - 1 \<noteq> 0" by presburger
      moreover have "\<not> 2 * m - 1 < 0" using e assms mult_neg_pos [of "2 * m - 1" b] by auto
      ultimately have p: "0 < 2 * m - 1" by linarith
      then have "(2 * m - 1) * 1 \<le> (2 * m - 1) * b" using assms by (intro mult_left_mono) auto
      then have "2 * m - 1 \<le> 2 * a" using e by simp
      with p assms(2) show ?thesis by simp
    qed
    then have "fl ?x = of_int (2 * m - 1) / 2 ^ 1" unfolding x by (rule fl_dyadic)
    then show ?thesis by (simp add: field_simps)
  next
    case False
    then have "2 * (m * b) + 1 \<le> 2 * a + b" using split r(1) by (simp add: mult.commute mult.left_commute)
    then have "(of_int (2 * (m * b) + 1) :: rat) \<le> of_int (2 * a + b)" by (simp only: of_int_le_iff)
    then have "of_int m * of_int b \<le> (fl ?x + 1 / 2) * of_int b"
      using near(2) by (simp add: distrib_right)
    then show ?thesis using bq by simp
  qed
  show ?thesis
    unfolding roundQuot_def mathRound_def jsDiv_def m_def [symmetric]
    using lo hi by (intro floor_unique) auto
qed

text \<open>JavaScript's \<open>%\<close> takes the sign of the dividend.\<close>

definition jsRem :: "int \<Rightarrow> int \<Rightarrow> int" where
  "jsRem a b = sgn a * (\<bar>a\<bar> mod \<bar>b\<bar>)"

lemma jsRem_nonneg: "0 \<le> a \<Longrightarrow> 0 < b \<Longrightarrow> jsRem a b = a mod b"
  by (cases "a = 0") (auto simp: jsRem_def)

end
