(* ===== verification/Exchange_Types.thy ===== *)
theory Exchange_Types
  imports Js_Number
begin

text \<open>
  The vocabulary of \<open>packages/shared/src/types.ts\<close> and \<open>events.ts\<close>: sides, order types, statuses,
  and the events that travel on the two Redis streams. Identifiers are strings; prices, quantities
  and epoch milliseconds are integers; a JSON \<open>null\<close> is \<open>None\<close>.
\<close>

datatype order_side = BUY | SELL

datatype order_type = LIMIT | MARKET

datatype order_status = OPEN | PARTIAL | FILLED | CANCELED | REJECTED

definition isActive :: "order_status \<Rightarrow> bool" where
  "isActive s \<longleftrightarrow> s = OPEN \<or> s = PARTIAL"

definition isTerminal :: "order_status \<Rightarrow> bool" where
  "isTerminal s \<longleftrightarrow> s = FILLED \<or> s = CANCELED \<or> s = REJECTED"

lemma isTerminal_iff [simp]: "isTerminal s \<longleftrightarrow> \<not> isActive s"
  by (cases s) (auto simp: isTerminal_def isActive_def)

lemma isActive_simps [simp]:
  "isActive OPEN" "isActive PARTIAL" "\<not> isActive FILLED" "\<not> isActive CANCELED" "\<not> isActive REJECTED"
  by (auto simp: isActive_def)

record order_placed =
  pl_eventId :: string
  pl_orderId :: string
  pl_accountId :: string
  pl_symbol :: string
  pl_side :: order_side
  pl_type :: order_type
  pl_price :: "int option"
  pl_qty :: int
  pl_ts :: int

record cancel_requested =
  cr_eventId :: string
  cr_orderId :: string
  cr_symbol :: string
  cr_ts :: int

text \<open>\<open>OrderStreamEvent\<close>: what the order stream carries to the matching engine.\<close>

datatype order_event = OrderPlaced order_placed | OrderCancelRequested cancel_requested

fun oe_eventId :: "order_event \<Rightarrow> string" where
  "oe_eventId (OrderPlaced e) = pl_eventId e"
| "oe_eventId (OrderCancelRequested e) = cr_eventId e"

fun oe_orderId :: "order_event \<Rightarrow> string" where
  "oe_orderId (OrderPlaced e) = pl_orderId e"
| "oe_orderId (OrderCancelRequested e) = cr_orderId e"

fun oe_symbol :: "order_event \<Rightarrow> string" where
  "oe_symbol (OrderPlaced e) = pl_symbol e"
| "oe_symbol (OrderCancelRequested e) = cr_symbol e"

record trade_executed =
  te_eventId :: string
  te_tradeId :: string
  te_symbol :: string
  te_price :: int
  te_qty :: int
  te_buyOrderId :: string
  te_sellOrderId :: string
  te_buyerAccountId :: string
  te_sellerAccountId :: string
  te_takerSide :: order_side
  te_ts :: int

record order_closed =
  oc_eventId :: string
  oc_orderId :: string
  oc_accountId :: string
  oc_symbol :: string
  oc_side :: order_side
  oc_filledQty :: int
  oc_status :: order_status
  oc_reason :: "string option"
  oc_ts :: int

text \<open>\<open>TradeStreamEvent\<close>: what the trade stream carries to settlement.\<close>

datatype trade_event = TradeExecuted trade_executed | OrderClosed order_closed

fun tv_eventId :: "trade_event \<Rightarrow> string" where
  "tv_eventId (TradeExecuted e) = te_eventId e"
| "tv_eventId (OrderClosed e) = oc_eventId e"

record orderbook_level =
  lv_price :: int
  lv_qty :: int

end
