(* ===== verification/Orderbook.thy ===== *)
theory Orderbook
  imports Exchange_Types
begin

text \<open>
  \<open>apps/matching-engine/src/orderbook.ts\<close>: the pure order book. \<open>applyOrder\<close> matches an incoming
  order by price-time priority, \<open>cancelOrder\<close> removes a resting order and \<open>levels\<close> aggregates
  the book into price levels. The code mutates the book in place; here each operation returns the
  new book.
\<close>

record incoming_order =
  in_orderId :: string
  in_accountId :: string
  in_side :: order_side
  in_type :: order_type
  in_price :: "int option"
  in_qty :: int
  in_ts :: int

record resting_order =
  r_orderId :: string
  r_accountId :: string
  r_side :: order_side
  r_price :: int
  r_qty :: int
  r_totalQty :: int
  r_seq :: int

record fill =
  f_price :: int
  f_qty :: int
  f_makerOrderId :: string
  f_makerAccountId :: string
  f_takerOrderId :: string
  f_takerAccountId :: string
  f_takerSide :: order_side

record closed_order =
  c_orderId :: string
  c_accountId :: string
  c_side :: order_side
  c_filledQty :: int
  c_status :: order_status

record match_result =
  mr_fills :: "fill list"
  mr_restingQty :: int
  mr_canceledQty :: int
  mr_closedOrders :: "closed_order list"

record orderbook =
  ob_symbol :: string
  ob_bids :: "resting_order list"
  ob_asks :: "resting_order list"
  ob_lastPrice :: "int option"
  ob_seq :: int

definition createBook :: "string \<Rightarrow> int option \<Rightarrow> orderbook" where
  "createBook symbol lastPrice =
     \<lparr>ob_symbol = symbol, ob_bids = [], ob_asks = [], ob_lastPrice = lastPrice, ob_seq = 0\<rparr>"

definition remainingRestingQty :: "int \<Rightarrow> int \<Rightarrow> int \<Rightarrow> int" where
  "remainingRestingQty totalQty persistedFilledQty recordedTradeQty =
     max 0 (totalQty - max persistedFilledQty recordedTradeQty)"

section \<open>Insertion\<close>

definition betterThan :: "order_side \<Rightarrow> int \<Rightarrow> int \<Rightarrow> bool" where
  "betterThan side p q = (case side of BUY \<Rightarrow> p > q | SELL \<Rightarrow> p < q)"

fun insertAt ::
  "(int \<Rightarrow> int \<Rightarrow> bool) \<Rightarrow> resting_order \<Rightarrow> resting_order list \<Rightarrow> resting_order list" where
  "insertAt better order [] = [order]"
| "insertAt better order (x # xs) =
     (if better (r_price x) (r_price order) \<or> r_price x = r_price order
      then x # insertAt better order xs else order # x # xs)"

definition insertResting :: "orderbook \<Rightarrow> resting_order \<Rightarrow> orderbook" where
  "insertResting book order =
     (case r_side order of
        BUY \<Rightarrow> book\<lparr>ob_bids := insertAt (betterThan BUY) order (ob_bids book)\<rparr>
      | SELL \<Rightarrow> book\<lparr>ob_asks := insertAt (betterThan SELL) order (ob_asks book)\<rparr>)"

section \<open>Matching\<close>

text \<open>A \<open>null\<close> price compares as 0, as JavaScript's relational operators convert it.\<close>

definition limitOf :: "incoming_order \<Rightarrow> int" where
  "limitOf inc = (case in_price inc of None \<Rightarrow> 0 | Some p \<Rightarrow> p)"

definition crosses :: "incoming_order \<Rightarrow> resting_order \<Rightarrow> bool" where
  "crosses inc maker =
     (if in_type inc = MARKET \<and> in_price inc = None then True
      else case in_side inc of
             BUY \<Rightarrow> r_price maker \<le> limitOf inc
           | SELL \<Rightarrow> r_price maker \<ge> limitOf inc)"

definition fillOf :: "incoming_order \<Rightarrow> resting_order \<Rightarrow> int \<Rightarrow> fill" where
  "fillOf inc maker qty =
     \<lparr>f_price = r_price maker, f_qty = qty,
      f_makerOrderId = r_orderId maker, f_makerAccountId = r_accountId maker,
      f_takerOrderId = in_orderId inc, f_takerAccountId = in_accountId inc,
      f_takerSide = in_side inc\<rparr>"

definition closedMaker :: "resting_order \<Rightarrow> closed_order" where
  "closedMaker maker =
     \<lparr>c_orderId = r_orderId maker, c_accountId = r_accountId maker, c_side = r_side maker,
      c_filledQty = r_totalQty maker, c_status = FILLED\<rparr>"

definition closedTaker :: "incoming_order \<Rightarrow> int \<Rightarrow> order_status \<Rightarrow> closed_order" where
  "closedTaker inc filled status =
     \<lparr>c_orderId = in_orderId inc, c_accountId = in_accountId inc, c_side = in_side inc,
      c_filledQty = filled, c_status = status\<rparr>"

text \<open>
  What the \<open>while\<close> loop leaves: the opposite side, the unfilled quantity, the last price, what was
  pushed, and whether it returned early because the best maker belongs to the taker's account.
\<close>

record loop_out =
  lo_opp :: "resting_order list"
  lo_remaining :: int
  lo_last :: "int option"
  lo_fills :: "fill list"
  lo_closed :: "closed_order list"
  lo_self :: bool

function matchLoop ::
  "incoming_order \<Rightarrow> resting_order list \<Rightarrow> int \<Rightarrow> int option \<Rightarrow> loop_out" where
  "matchLoop inc [] remaining lastPx =
     \<lparr>lo_opp = [], lo_remaining = remaining, lo_last = lastPx, lo_fills = [], lo_closed = [],
      lo_self = False\<rparr>"
| "matchLoop inc (maker # rest) remaining lastPx =
     (if remaining > 0 \<and> crosses inc maker then
        if r_accountId maker = in_accountId inc then
          \<lparr>lo_opp = maker # rest, lo_remaining = remaining, lo_last = lastPx, lo_fills = [],
           lo_closed = [], lo_self = True\<rparr>
        else
          let qty = min remaining (r_qty maker);
              maker' = maker\<lparr>r_qty := r_qty maker - qty\<rparr>;
              f = fillOf inc maker qty
          in if r_qty maker' = 0
             then let out = matchLoop inc rest (remaining - qty) (Some (r_price maker))
                  in out\<lparr>lo_fills := f # lo_fills out,
                         lo_closed := closedMaker maker' # lo_closed out\<rparr>
             else let out = matchLoop inc (maker' # rest) (remaining - qty) (Some (r_price maker))
                  in out\<lparr>lo_fills := f # lo_fills out\<rparr>
      else
        \<lparr>lo_opp = maker # rest, lo_remaining = remaining, lo_last = lastPx, lo_fills = [],
         lo_closed = [], lo_self = False\<rparr>)"
  by pat_completeness auto
termination
  by (relation "measure (\<lambda>(inc, opp, remaining, lastPx). length opp + (if remaining > 0 then 1 else 0))")
    auto

definition oppositeOf :: "order_side \<Rightarrow> orderbook \<Rightarrow> resting_order list" where
  "oppositeOf side book = (case side of BUY \<Rightarrow> ob_asks book | SELL \<Rightarrow> ob_bids book)"

definition setOpposite :: "order_side \<Rightarrow> resting_order list \<Rightarrow> orderbook \<Rightarrow> orderbook" where
  "setOpposite side xs book =
     (case side of BUY \<Rightarrow> book\<lparr>ob_asks := xs\<rparr> | SELL \<Rightarrow> book\<lparr>ob_bids := xs\<rparr>)"

definition applyOrder :: "orderbook \<Rightarrow> incoming_order \<Rightarrow> match_result \<times> orderbook" where
  "applyOrder book inc =
     (let out = matchLoop inc (oppositeOf (in_side inc) book) (in_qty inc) (ob_lastPrice book);
          book1 = setOpposite (in_side inc) (lo_opp out) (book\<lparr>ob_lastPrice := lo_last out\<rparr>);
          remaining = lo_remaining out;
          filledQty = in_qty inc - remaining
      in if lo_self out then
           (\<lparr>mr_fills = lo_fills out, mr_restingQty = 0, mr_canceledQty = remaining,
             mr_closedOrders = lo_closed out @ [closedTaker inc filledQty CANCELED]\<rparr>, book1)
         else if remaining = 0 then
           (\<lparr>mr_fills = lo_fills out, mr_restingQty = 0, mr_canceledQty = 0,
             mr_closedOrders = lo_closed out @ [closedTaker inc (in_qty inc) FILLED]\<rparr>, book1)
         else if in_type inc = MARKET then
           (\<lparr>mr_fills = lo_fills out, mr_restingQty = 0, mr_canceledQty = remaining,
             mr_closedOrders = lo_closed out @ [closedTaker inc filledQty CANCELED]\<rparr>, book1)
         else
           let book2 = book1\<lparr>ob_seq := ob_seq book1 + 1\<rparr>;
               order = \<lparr>r_orderId = in_orderId inc, r_accountId = in_accountId inc,
                        r_side = in_side inc, r_price = limitOf inc, r_qty = remaining,
                        r_totalQty = in_qty inc, r_seq = ob_seq book2\<rparr>
           in (\<lparr>mr_fills = lo_fills out, mr_restingQty = remaining, mr_canceledQty = 0,
                mr_closedOrders = lo_closed out\<rparr>, insertResting book2 order))"

section \<open>Cancelling\<close>

fun removeFirst :: "string \<Rightarrow> resting_order list \<Rightarrow> (resting_order \<times> resting_order list) option" where
  "removeFirst orderId [] = None"
| "removeFirst orderId (x # xs) =
     (if r_orderId x = orderId then Some (x, xs)
      else case removeFirst orderId xs of None \<Rightarrow> None | Some (y, ys) \<Rightarrow> Some (y, x # ys))"

definition cancelOrder :: "orderbook \<Rightarrow> string \<Rightarrow> resting_order option \<times> orderbook" where
  "cancelOrder book orderId =
     (case removeFirst orderId (ob_bids book) of
        Some (r, bids) \<Rightarrow> (Some r, book\<lparr>ob_bids := bids\<rparr>)
      | None \<Rightarrow> (case removeFirst orderId (ob_asks book) of
                   Some (r, asks) \<Rightarrow> (Some r, book\<lparr>ob_asks := asks\<rparr>)
                 | None \<Rightarrow> (None, book)))"

section \<open>Price levels\<close>

text \<open>\<open>out\<close> is kept newest first (the code pushes at the end), so the last level is its head.\<close>

fun aggregateLoop :: "nat \<Rightarrow> orderbook_level list \<Rightarrow> resting_order list \<Rightarrow> orderbook_level list" where
  "aggregateLoop depth out [] = rev out"
| "aggregateLoop depth out (o' # os) =
     (case out of
        l # ls \<Rightarrow>
          if lv_price l = r_price o'
          then aggregateLoop depth (l\<lparr>lv_qty := lv_qty l + r_qty o'\<rparr> # ls) os
          else if length out = depth then rev out
          else aggregateLoop depth (\<lparr>lv_price = r_price o', lv_qty = r_qty o'\<rparr> # out) os
      | [] \<Rightarrow>
          if length out = depth then rev out
          else aggregateLoop depth (\<lparr>lv_price = r_price o', lv_qty = r_qty o'\<rparr> # out) os)"

definition levels :: "orderbook \<Rightarrow> nat \<Rightarrow> orderbook_level list \<times> orderbook_level list" where
  "levels book depth = (aggregateLoop depth [] (ob_bids book), aggregateLoop depth [] (ob_asks book))"

section \<open>The book invariant\<close>

definition priorTo :: "(int \<Rightarrow> int \<Rightarrow> bool) \<Rightarrow> resting_order \<Rightarrow> resting_order \<Rightarrow> bool" where
  "priorTo better x y \<longleftrightarrow>
     better (r_price x) (r_price y) \<or> r_price x = r_price y \<and> r_seq x < r_seq y"

definition restingOk :: "order_side \<Rightarrow> int \<Rightarrow> resting_order \<Rightarrow> bool" where
  "restingOk side seq x \<longleftrightarrow>
     r_side x = side \<and> 0 < r_qty x \<and> r_qty x \<le> r_totalQty x \<and> r_seq x \<le> seq"

definition sideInv :: "order_side \<Rightarrow> int \<Rightarrow> resting_order list \<Rightarrow> bool" where
  "sideInv side seq xs \<longleftrightarrow>
     sorted_wrt (priorTo (betterThan side)) xs \<and> (\<forall>x \<in> set xs. restingOk side seq x)"

definition uncrossed :: "orderbook \<Rightarrow> bool" where
  "uncrossed book \<longleftrightarrow> (\<forall>b \<in> set (ob_bids book). \<forall>a \<in> set (ob_asks book). r_price b < r_price a)"

definition bookIds :: "orderbook \<Rightarrow> string list" where
  "bookIds book = map r_orderId (ob_bids book @ ob_asks book)"

definition bookInv :: "orderbook \<Rightarrow> bool" where
  "bookInv book \<longleftrightarrow>
     sideInv BUY (ob_seq book) (ob_bids book) \<and> sideInv SELL (ob_seq book) (ob_asks book) \<and>
     uncrossed book \<and> distinct (bookIds book)"

text \<open>
  What matching and insertion need of a price order: a strict linear order on prices. Both sides of
  the book provide it, bids with the larger price first and asks with the smaller one.
\<close>

locale price_priority =
  fixes better :: "int \<Rightarrow> int \<Rightarrow> bool"
  assumes irrefl: "\<not> better p p"
    and trans: "better p q \<Longrightarrow> better q r \<Longrightarrow> better p r"
    and total: "p \<noteq> q \<Longrightarrow> better p q \<or> better q p"
begin

lemma asym: "better p q \<Longrightarrow> \<not> better q p"
  using irrefl trans by blast

lemma insert_prior_all:
  assumes "sorted_wrt (priorTo better) (x # xs)"
    and "\<not> (better (r_price x) (r_price order) \<or> r_price x = r_price order)"
    and "y \<in> set (x # xs)"
  shows "priorTo better order y"
proof -
  have ox: "better (r_price order) (r_price x)" using assms(2) total by blast
  show ?thesis
  proof (cases "y = x")
    case True
    with ox show ?thesis by (simp add: priorTo_def)
  next
    case False
    with assms(1,3) have "priorTo better x y" by auto
    then show ?thesis using ox trans by (auto simp: priorTo_def)
  qed
qed

lemma insert_sorted:
  assumes "sorted_wrt (priorTo better) xs" and "\<forall>x \<in> set xs. r_seq x < r_seq order"
  shows "sorted_wrt (priorTo better) (insertAt better order xs)"
  using assms
proof (induction xs)
  case (Cons x xs)
  show ?case
  proof (cases "better (r_price x) (r_price order) \<or> r_price x = r_price order")
    case True
    then have "priorTo better x order" using Cons.prems(2) by (auto simp: priorTo_def)
    moreover have "set (insertAt better order xs) = insert order (set xs)"
      by (induction xs) auto
    ultimately show ?thesis using True Cons by auto
  next
    case False
    then show ?thesis using insert_prior_all [OF Cons.prems(1) False] Cons.prems(1) by simp
  qed
qed simp

lemma head_is_best:
  assumes "sorted_wrt (priorTo better) (x # xs)" and "y \<in> set xs"
  shows "\<not> better (r_price y) (r_price x)"
  using assms irrefl asym by (auto simp: priorTo_def)

end

interpretation bid: price_priority "betterThan BUY"
  by unfold_locales (auto simp: betterThan_def)

interpretation ask: price_priority "betterThan SELL"
  by unfold_locales (auto simp: betterThan_def)

lemma side_priority: "price_priority (betterThan side)"
  by (cases side) (simp_all add: bid.price_priority_axioms ask.price_priority_axioms)

lemma set_insertAt [simp]: "set (insertAt better order xs) = insert order (set xs)"
  by (induction xs) auto

lemma distinct_insertAt:
  "distinct (map r_orderId (insertAt better order xs)) \<longleftrightarrow>
     r_orderId order \<notin> r_orderId ` set xs \<and> distinct (map r_orderId xs)"
  by (induction xs) auto

lemma sum_insertAt:
  "sum_list (map r_qty (insertAt better order xs)) = r_qty order + sum_list (map r_qty xs)"
  by (induction xs) auto

lemma restingOk_mono: "restingOk side n x \<Longrightarrow> n \<le> m \<Longrightarrow> restingOk side m x"
  by (auto simp: restingOk_def)

lemma sideInv_mono: "sideInv side n xs \<Longrightarrow> n \<le> m \<Longrightarrow> sideInv side m xs"
  by (auto simp: sideInv_def intro: restingOk_mono)

lemma sideInv_tl: "sideInv side n (x # xs) \<Longrightarrow> sideInv side n xs"
  by (auto simp: sideInv_def)

lemma sideInv_reduce:
  "sideInv side n (x # xs) \<Longrightarrow> 0 < q \<Longrightarrow> q \<le> r_qty x \<Longrightarrow> sideInv side n (x\<lparr>r_qty := q\<rparr> # xs)"
  by (auto simp: sideInv_def restingOk_def priorTo_def)

lemma sideInv_insert:
  assumes "sideInv side n xs" and "restingOk side (n + 1) order" and "r_seq order = n + 1"
  shows "sideInv side (n + 1) (insertAt (betterThan side) order xs)"
proof -
  have "\<forall>x \<in> set xs. r_seq x < r_seq order" using assms by (auto simp: sideInv_def restingOk_def)
  then show ?thesis
    using assms price_priority.insert_sorted [OF side_priority, of side xs order]
    by (auto simp: sideInv_def intro: restingOk_mono)
qed

section \<open>The matching loop\<close>

text \<open>
  The loop's own invariant: everything a maker or the taker loses is in a fill, the surviving makers
  are the old ones with the head possibly reduced, and the loop stops for one of three reasons.
\<close>

definition makerOf :: "resting_order \<Rightarrow> resting_order \<Rightarrow> bool" where
  "makerOf y x \<longleftrightarrow>
     r_orderId x = r_orderId y \<and> r_accountId x = r_accountId y \<and> r_side x = r_side y \<and>
     r_price x = r_price y \<and> r_totalQty x = r_totalQty y \<and> r_seq x = r_seq y \<and> r_qty x \<le> r_qty y"

lemma makerOf_refl [simp]: "makerOf y y"
  by (simp add: makerOf_def)

text \<open>
  One equation per way through the body. A maker larger than what remains ends the loop at once, so
  the recursion is over the list of makers.
\<close>

lemma matchLoop_stop:
  "\<not> (rem > 0 \<and> crosses inc maker) \<Longrightarrow> matchLoop inc (maker # rest) rem px =
     \<lparr>lo_opp = maker # rest, lo_remaining = rem, lo_last = px, lo_fills = [], lo_closed = [],
      lo_self = False\<rparr>"
  by auto

lemma matchLoop_self:
  "rem > 0 \<Longrightarrow> crosses inc maker \<Longrightarrow> r_accountId maker = in_accountId inc \<Longrightarrow>
     matchLoop inc (maker # rest) rem px =
     \<lparr>lo_opp = maker # rest, lo_remaining = rem, lo_last = px, lo_fills = [], lo_closed = [],
      lo_self = True\<rparr>"
  by auto

lemma matchLoop_full:
  "rem > 0 \<Longrightarrow> crosses inc maker \<Longrightarrow> r_accountId maker \<noteq> in_accountId inc \<Longrightarrow> r_qty maker \<le> rem \<Longrightarrow>
     matchLoop inc (maker # rest) rem px =
     (let out = matchLoop inc rest (rem - r_qty maker) (Some (r_price maker))
      in out\<lparr>lo_fills := fillOf inc maker (r_qty maker) # lo_fills out,
             lo_closed := closedMaker (maker\<lparr>r_qty := 0\<rparr>) # lo_closed out\<rparr>)"
  by (simp add: Let_def min_def)

lemma matchLoop_done:
  "rem \<le> 0 \<Longrightarrow> matchLoop inc opp rem px =
     \<lparr>lo_opp = opp, lo_remaining = rem, lo_last = px, lo_fills = [], lo_closed = [], lo_self = False\<rparr>"
  by (cases opp) auto

lemma matchLoop_partial:
  "rem > 0 \<Longrightarrow> crosses inc maker \<Longrightarrow> r_accountId maker \<noteq> in_accountId inc \<Longrightarrow> rem < r_qty maker \<Longrightarrow>
     matchLoop inc (maker # rest) rem px =
     \<lparr>lo_opp = maker\<lparr>r_qty := r_qty maker - rem\<rparr> # rest, lo_remaining = 0,
      lo_last = Some (r_price maker), lo_fills = [fillOf inc maker rem], lo_closed = [],
      lo_self = False\<rparr>"
  by (simp add: Let_def min_def)

declare matchLoop.simps(2) [simp del]

lemmas matchLoop_eqs = matchLoop.simps(1) matchLoop_stop matchLoop_self matchLoop_full matchLoop_partial

lemma matchLoop_induct [case_names Nil Stop Self Full Partial]:
  assumes "\<And>rem px. P [] rem px"
    and "\<And>maker rest rem px. \<not> (rem > 0 \<and> crosses inc maker) \<Longrightarrow> P (maker # rest) rem px"
    and "\<And>maker rest rem px. rem > 0 \<Longrightarrow> crosses inc maker \<Longrightarrow>
      r_accountId maker = in_accountId inc \<Longrightarrow> P (maker # rest) rem px"
    and "\<And>maker rest rem px. rem > 0 \<Longrightarrow> crosses inc maker \<Longrightarrow>
      r_accountId maker \<noteq> in_accountId inc \<Longrightarrow> r_qty maker \<le> rem \<Longrightarrow>
      P rest (rem - r_qty maker) (Some (r_price maker)) \<Longrightarrow> P (maker # rest) rem px"
    and "\<And>maker rest rem px. rem > 0 \<Longrightarrow> crosses inc maker \<Longrightarrow>
      r_accountId maker \<noteq> in_accountId inc \<Longrightarrow> rem < r_qty maker \<Longrightarrow> P (maker # rest) rem px"
  shows "P opp rem px"
proof (induction opp arbitrary: rem px)
  case (Cons maker rest rem px)
  then show ?case using assms(2-5) [of rem maker rest px] by (meson not_le)
qed (rule assms(1))

lemma matchLoop_qty:
  "sum_list (map f_qty (lo_fills (matchLoop inc opp rem px))) + lo_remaining (matchLoop inc opp rem px) = rem"
  by (induction opp rem px rule: matchLoop_induct [where inc = inc])
    (simp_all add: matchLoop_eqs Let_def fillOf_def)

lemma matchLoop_makers_qty:
  "sum_list (map r_qty (lo_opp (matchLoop inc opp rem px))) +
     sum_list (map f_qty (lo_fills (matchLoop inc opp rem px))) = sum_list (map r_qty opp)"
  by (induction opp rem px rule: matchLoop_induct [where inc = inc])
    (simp_all add: matchLoop_eqs Let_def fillOf_def)

lemma matchLoop_remaining: "0 \<le> rem \<Longrightarrow> 0 \<le> lo_remaining (matchLoop inc opp rem px)"
  by (induction opp rem px rule: matchLoop_induct [where inc = inc])
    (simp_all add: matchLoop_eqs Let_def)

lemma matchLoop_sideInv:
  "sideInv side n opp \<Longrightarrow> sideInv side n (lo_opp (matchLoop inc opp rem px))"
proof (induction opp rem px rule: matchLoop_induct [where inc = inc])
  case (Partial maker rest rem px)
  then show ?case by (simp add: matchLoop_partial sideInv_reduce)
next
  case (Full maker rest rem px)
  then show ?case using sideInv_tl [OF Full.prems] by (simp add: matchLoop_full Let_def)
qed (simp_all add: matchLoop_eqs)

lemma matchLoop_origin:
  "0 \<le> rem \<Longrightarrow> x \<in> set (lo_opp (matchLoop inc opp rem px)) \<Longrightarrow> \<exists>y \<in> set opp. makerOf y x"
proof (induction opp rem px rule: matchLoop_induct [where inc = inc])
  case (Partial maker rest rem px)
  then show ?case by (auto simp: matchLoop_partial makerOf_def)
next
  case (Stop maker rest rem px)
  then show ?case by (auto simp: matchLoop_stop intro: bexI [of _ x])
next
  case (Self maker rest rem px)
  then show ?case by (auto simp: matchLoop_self intro: bexI [of _ x])
next
  case (Full maker rest rem px)
  then show ?case by (auto simp: matchLoop_full Let_def)
qed (simp add: matchLoop_eqs)

lemma matchLoop_ids_subset:
  "r_orderId ` set (lo_opp (matchLoop inc opp rem px)) \<subseteq> r_orderId ` set opp"
  by (induction opp rem px rule: matchLoop_induct [where inc = inc])
    (auto simp: matchLoop_eqs Let_def)

lemma matchLoop_ids_distinct:
  "distinct (map r_orderId opp) \<Longrightarrow> distinct (map r_orderId (lo_opp (matchLoop inc opp rem px)))"
  by (induction opp rem px rule: matchLoop_induct [where inc = inc])
    (auto simp: matchLoop_eqs Let_def)

lemma matchLoop_stops:
  "\<not> lo_self (matchLoop inc opp rem px) \<Longrightarrow> lo_remaining (matchLoop inc opp rem px) > 0 \<Longrightarrow>
     lo_opp (matchLoop inc opp rem px) = x # xs \<Longrightarrow> \<not> crosses inc x"
  by (induction opp rem px rule: matchLoop_induct [where inc = inc])
    (auto simp: matchLoop_eqs Let_def)

lemma matchLoop_self_head:
  "lo_self (matchLoop inc opp rem px) \<Longrightarrow> \<exists>x xs. lo_opp (matchLoop inc opp rem px) = x # xs \<and>
     crosses inc x \<and> r_accountId x = in_accountId inc"
  by (induction opp rem px rule: matchLoop_induct [where inc = inc])
    (auto simp: matchLoop_eqs Let_def)

text \<open>Every fill: positive, at a maker's own price, crossing, between two accounts.\<close>

definition fillOk :: "incoming_order \<Rightarrow> resting_order list \<Rightarrow> fill \<Rightarrow> bool" where
  "fillOk inc opp f \<longleftrightarrow>
     0 < f_qty f \<and> f_takerOrderId f = in_orderId inc \<and> f_takerAccountId f = in_accountId inc \<and>
     f_takerSide f = in_side inc \<and> f_makerAccountId f \<noteq> in_accountId inc \<and>
     (\<exists>m \<in> set opp. crosses inc m \<and> f_price f = r_price m \<and> f_makerOrderId f = r_orderId m \<and>
        f_makerAccountId f = r_accountId m \<and> f_qty f \<le> r_qty m)"

lemma matchLoop_fills:
  "\<forall>x \<in> set opp. 0 < r_qty x \<Longrightarrow> f \<in> set (lo_fills (matchLoop inc opp rem px)) \<Longrightarrow> fillOk inc opp f"
proof (induction opp rem px rule: matchLoop_induct [where inc = inc])
  case (Full maker rest rem px)
  show ?case
  proof (cases "f = fillOf inc maker (r_qty maker)")
    case True
    then show ?thesis using Full.hyps Full.prems by (auto simp: fillOk_def fillOf_def)
  next
    case False
    then have "fillOk inc rest f" using Full by (simp add: matchLoop_full Let_def)
    then show ?thesis by (auto simp: fillOk_def)
  qed
qed (auto simp: matchLoop_eqs fillOk_def fillOf_def)

text \<open>
  Price priority: the fills come best price first, and no order left on that side has a better price
  than any fill.
\<close>

lemma matchLoop_priority:
  assumes "sorted_wrt (priorTo (betterThan side)) opp"
  shows "sorted_wrt (\<lambda>f g. \<not> betterThan side (f_price g) (f_price f)) (lo_fills (matchLoop inc opp rem px)) \<and>
    (\<forall>f \<in> set (lo_fills (matchLoop inc opp rem px)). \<forall>x \<in> set (lo_opp (matchLoop inc opp rem px)).
       \<not> betterThan side (r_price x) (f_price f)) \<and>
    (\<forall>f \<in> set (lo_fills (matchLoop inc opp rem px)). f_price f \<in> r_price ` set opp) \<and>
    r_price ` set (lo_opp (matchLoop inc opp rem px)) \<subseteq> r_price ` set opp"
  using assms
proof (induction opp rem px rule: matchLoop_induct [where inc = inc])
  case (Full maker rest rem px)
  have "\<forall>y \<in> set rest. \<not> betterThan side (r_price y) (r_price maker)"
    using price_priority.head_is_best [OF side_priority Full.prems] by blast
  then show ?case
    using Full by (auto simp: matchLoop_full Let_def fillOf_def)
next
  case (Partial maker rest rem px)
  have "\<forall>y \<in> set rest. \<not> betterThan side (r_price y) (r_price maker)"
    using price_priority.head_is_best [OF side_priority Partial.prems] by blast
  then show ?case
    using Partial price_priority.irrefl [OF side_priority, of side]
    by (auto simp: matchLoop_partial fillOf_def)
qed (simp_all add: matchLoop_eqs)

end
