(* ===== verification/Orderbook_Props.thy ===== *)
theory Orderbook_Props
  imports Orderbook
begin

text \<open>
  What the order book promises, for \<open>apps/matching-engine/src/orderbook.ts\<close>: matching keeps the book
  sorted, positive and uncrossed, loses no quantity, respects price-time priority and the taker's
  limit, and closes exactly the orders that leave the book; cancelling removes one order; the depth
  snapshot is the per-price aggregation of the best levels.
\<close>

section \<open>Unfolding \<open>applyOrder\<close>\<close>

fun otherSide :: "order_side \<Rightarrow> order_side" where
  "otherSide BUY = SELL"
| "otherSide SELL = BUY"

lemma bookInv_side:
  "bookInv book \<Longrightarrow> sideInv (otherSide s) (ob_seq book) (oppositeOf s book)"
  by (cases s) (auto simp: bookInv_def oppositeOf_def)

lemma sideInv_positive: "sideInv s n xs \<Longrightarrow> \<forall>x \<in> set xs. 0 < r_qty x"
  by (auto simp: sideInv_def restingOk_def)

lemma sideInv_sorted: "sideInv s n xs \<Longrightarrow> sorted_wrt (priorTo (betterThan s)) xs"
  by (simp add: sideInv_def)

lemma bookInv_ids:
  "bookInv book \<Longrightarrow> distinct (map r_orderId (ob_bids book)) \<and> distinct (map r_orderId (ob_asks book)) \<and>
     r_orderId ` set (ob_bids book) \<inter> r_orderId ` set (ob_asks book) = {}"
  by (auto simp: bookInv_def bookIds_def)

text \<open>A limit order that is left unfilled does not cross any order that remains.\<close>

lemma crosses_mono:
  assumes "\<not> crosses inc x"
    and "\<not> betterThan (otherSide (in_side inc)) (r_price y) (r_price x)"
  shows "\<not> crosses inc y"
  using assms by (cases "in_side inc") (auto simp: crosses_def betterThan_def split: if_splits)

lemma leftover_not_crossing:
  assumes inv: "sideInv (otherSide (in_side inc)) n opp"
    and "\<not> lo_self (matchLoop inc opp rem px)" and "0 < lo_remaining (matchLoop inc opp rem px)"
    and y: "y \<in> set (lo_opp (matchLoop inc opp rem px))"
  shows "\<not> crosses inc y"
proof -
  let ?side = "otherSide (in_side inc)"
  obtain x xs where xs: "lo_opp (matchLoop inc opp rem px) = x # xs" using y by (cases "lo_opp (matchLoop inc opp rem px)") auto
  have x: "\<not> crosses inc x" using matchLoop_stops [OF assms(2,3) xs] .
  have "sideInv ?side n (x # xs)" using matchLoop_sideInv [OF inv] xs by metis
  then have "\<not> betterThan ?side (r_price y) (r_price x)"
    using y xs price_priority.head_is_best [OF side_priority sideInv_sorted]
      price_priority.irrefl [OF side_priority, of ?side] by auto
  with x show ?thesis by (rule crosses_mono)
qed

lemma matchLoop_bounds:
  assumes "\<forall>x \<in> set opp. 0 < r_qty x" and "0 \<le> rem"
  shows "0 \<le> lo_remaining (matchLoop inc opp rem px)" and "lo_remaining (matchLoop inc opp rem px) \<le> rem"
proof -
  have "0 \<le> sum_list (map f_qty (lo_fills (matchLoop inc opp rem px)))"
  proof (rule sum_list_nonneg_map)
    fix f assume "f \<in> set (lo_fills (matchLoop inc opp rem px))"
    then show "0 \<le> f_qty f" using matchLoop_fills [OF assms(1)] by (force simp: fillOk_def)
  qed
  then show "lo_remaining (matchLoop inc opp rem px) \<le> rem"
    using matchLoop_qty [of inc opp rem px] by linarith
qed (rule matchLoop_remaining [OF assms(2)])

definition incomingOk :: "orderbook \<Rightarrow> incoming_order \<Rightarrow> bool" where
  "incomingOk book inc \<longleftrightarrow> 0 < in_qty inc \<and> in_orderId inc \<notin> set (bookIds book)"

lemma uncrossed_matched:
  assumes "bookInv book"
    and "ob_bids b = ob_bids book" and "ob_asks b = ob_asks book"
  shows "uncrossed (setOpposite (in_side inc)
     (lo_opp (matchLoop inc (oppositeOf (in_side inc) book) (in_qty inc) px)) b)"
proof -
  have sub: "r_price ` set (lo_opp (matchLoop inc (oppositeOf (in_side inc) book) (in_qty inc) px))
    \<subseteq> r_price ` set (oppositeOf (in_side inc) book)"
    using matchLoop_priority [OF sideInv_sorted [OF bookInv_side [OF assms(1)]]] by blast
  show ?thesis
    using assms sub
    by (cases "in_side inc") (fastforce simp: bookInv_def uncrossed_def setOpposite_def oppositeOf_def)+
qed

lemma bookInv_matched:
  assumes "bookInv book" and "0 \<le> in_qty inc"
    and "ob_bids b = ob_bids book" "ob_asks b = ob_asks book" "ob_seq b = ob_seq book"
  shows "bookInv (setOpposite (in_side inc)
     (lo_opp (matchLoop inc (oppositeOf (in_side inc) book) (in_qty inc) px)) b)"
proof -
  let ?opp = "oppositeOf (in_side inc) book"
  let ?xs = "lo_opp (matchLoop inc ?opp (in_qty inc) px)"
  have ids: "distinct (map r_orderId ?opp)" using bookInv_ids [OF assms(1)] by (cases "in_side inc") (auto simp: oppositeOf_def)
  have "distinct (map r_orderId ?xs)" using matchLoop_ids_distinct [OF ids] .
  moreover have "r_orderId ` set ?xs \<subseteq> r_orderId ` set ?opp" by (rule matchLoop_ids_subset)
  moreover have "sideInv (otherSide (in_side inc)) (ob_seq book) ?xs"
    using matchLoop_sideInv [OF bookInv_side [OF assms(1)]] .
  moreover note uncrossed_matched [OF assms(1,3,4), of inc px]
  ultimately show ?thesis
    using assms bookInv_ids [OF assms(1)]
    by (cases "in_side inc")
      (auto simp: bookInv_def bookIds_def setOpposite_def oppositeOf_def)
qed

lemma bookInv_rest:
  assumes inv: "bookInv b" and fresh: "r_orderId order \<notin> set (bookIds b)"
    and ok: "restingOk (r_side order) (ob_seq b + 1) order" and seq: "r_seq order = ob_seq b + 1"
    and nc: "\<forall>y \<in> set (oppositeOf (r_side order) b).
      (case r_side order of BUY \<Rightarrow> r_price order < r_price y | SELL \<Rightarrow> r_price y < r_price order)"
  shows "bookInv (insertResting (b\<lparr>ob_seq := ob_seq b + 1\<rparr>) order)"
proof (cases "r_side order")
  case BUY
  have "sideInv BUY (ob_seq b + 1) (insertAt (betterThan BUY) order (ob_bids b))"
    using inv ok seq BUY by (intro sideInv_insert) (auto simp: bookInv_def)
  moreover have "sideInv SELL (ob_seq b + 1) (ob_asks b)"
    using inv by (auto simp: bookInv_def intro: sideInv_mono)
  ultimately show ?thesis
    using inv fresh nc BUY
    by (auto simp: bookInv_def insertResting_def uncrossed_def bookIds_def oppositeOf_def distinct_insertAt)
next
  case SELL
  have "sideInv SELL (ob_seq b + 1) (insertAt (betterThan SELL) order (ob_asks b))"
    using inv ok seq SELL by (intro sideInv_insert) (auto simp: bookInv_def)
  moreover have "sideInv BUY (ob_seq b + 1) (ob_bids b)"
    using inv by (auto simp: bookInv_def intro: sideInv_mono)
  ultimately show ?thesis
    using inv fresh nc SELL
    by (auto simp: bookInv_def insertResting_def uncrossed_def bookIds_def oppositeOf_def distinct_insertAt)
qed

lemma bookIds_matched:
  "set (bookIds (setOpposite (in_side inc)
     (lo_opp (matchLoop inc (oppositeOf (in_side inc) book) rem px)) (book\<lparr>ob_lastPrice := l\<rparr>))) \<subseteq> set (bookIds book)"
  using matchLoop_ids_subset [of inc "oppositeOf (in_side inc) book" rem px]
  by (cases "in_side inc") (auto simp: bookIds_def setOpposite_def oppositeOf_def)

section \<open>Properties\<close>

lemma bookInv_applyOrder:
  assumes "bookInv book" and "incomingOk book inc"
  shows "bookInv (snd (applyOrder book inc))"
proof -
  let ?opp = "oppositeOf (in_side inc) book"
  let ?out = "matchLoop inc ?opp (in_qty inc) (ob_lastPrice book)"
  let ?b1 = "setOpposite (in_side inc) (lo_opp ?out) (book\<lparr>ob_lastPrice := lo_last ?out\<rparr>)"
  have q: "0 < in_qty inc" using assms(2) by (simp add: incomingOk_def)
  have inv1: "bookInv ?b1" using bookInv_matched [OF assms(1)] q by simp
  have seq1: "ob_seq ?b1 = ob_seq book" by (cases "in_side inc") (auto simp: setOpposite_def)
  have opp1: "oppositeOf (in_side inc) ?b1 = lo_opp ?out"
    by (cases "in_side inc") (auto simp: setOpposite_def oppositeOf_def)
  have rem: "0 \<le> lo_remaining ?out" "lo_remaining ?out \<le> in_qty inc"
    using matchLoop_bounds [OF sideInv_positive [OF bookInv_side [OF assms(1)]], of "in_qty inc"] q by auto
  show ?thesis
  proof (cases "\<not> lo_self ?out \<and> lo_remaining ?out \<noteq> 0 \<and> in_type inc \<noteq> MARKET")
    case False
    then show ?thesis using inv1 by (auto simp: applyOrder_def Let_def)
  next
    case True
    let ?order = "\<lparr>r_orderId = in_orderId inc, r_accountId = in_accountId inc, r_side = in_side inc,
      r_price = limitOf inc, r_qty = lo_remaining ?out, r_totalQty = in_qty inc, r_seq = ob_seq ?b1 + 1\<rparr>"
    have "bookInv (insertResting (?b1\<lparr>ob_seq := ob_seq ?b1 + 1\<rparr>) ?order)"
    proof (rule bookInv_rest [OF inv1])
      show "r_orderId ?order \<notin> set (bookIds ?b1)"
        using assms(2) bookIds_matched by (fastforce simp: incomingOk_def)
      show "restingOk (r_side ?order) (ob_seq ?b1 + 1) ?order"
        using rem True by (auto simp: restingOk_def)
      have "\<not> crosses inc y" if "y \<in> set (lo_opp ?out)" for y
        using leftover_not_crossing [OF bookInv_side [OF assms(1)] _ _ that] True rem by auto
      then show "\<forall>y \<in> set (oppositeOf (r_side ?order) ?b1).
        (case r_side ?order of BUY \<Rightarrow> r_price ?order < r_price y | SELL \<Rightarrow> r_price y < r_price ?order)"
        using True opp1 by (cases "in_side inc") (auto simp: crosses_def not_le)
    qed simp
    then show ?thesis using True by (simp add: applyOrder_def Let_def)
  qed
qed

text \<open>
  C1. Matching keeps the book well formed: both sides stay in price-time order with positive
  remaining quantities and unique order ids, and no resting bid reaches a resting ask.
\<close>

theorem applyOrder_bookInv:
  assumes "bookInv book" and "incomingOk book inc"
  shows "bookInv (snd (applyOrder book inc))"
  using assms by (rule bookInv_applyOrder)

definition demoBook :: orderbook where
  "demoBook = \<lparr>ob_symbol = ''KABU'',
     ob_bids = [\<lparr>r_orderId = ''b1'', r_accountId = ''x'', r_side = BUY, r_price = 100, r_qty = 5, r_totalQty = 5, r_seq = 1\<rparr>],
     ob_asks = [\<lparr>r_orderId = ''a1'', r_accountId = ''y'', r_side = SELL, r_price = 110, r_qty = 3, r_totalQty = 4, r_seq = 2\<rparr>,
                \<lparr>r_orderId = ''a2'', r_accountId = ''z'', r_side = SELL, r_price = 110, r_qty = 4, r_totalQty = 4, r_seq = 3\<rparr>],
     ob_lastPrice = None, ob_seq = 3\<rparr>"

definition demoOrder :: incoming_order where
  "demoOrder = \<lparr>in_orderId = ''t1'', in_accountId = ''w'', in_side = BUY, in_type = LIMIT, in_price = Some 120,
     in_qty = 9, in_ts = 0\<rparr>"

lemma demo_ok: "bookInv demoBook" "incomingOk demoBook demoOrder"
  by (auto simp: bookInv_def sideInv_def restingOk_def uncrossed_def bookIds_def demoBook_def demoOrder_def
      priorTo_def betterThan_def incomingOk_def)

lemma applyOrder_bookInv_witness: "bookInv (snd (applyOrder demoBook demoOrder))"
  by (rule applyOrder_bookInv [OF demo_ok])

text \<open>
  C2. No quantity appears or disappears: what is filled, rested and canceled adds up to the incoming
  quantity, and the book's total resting quantity changes by exactly the rested and filled amounts.
\<close>

theorem applyOrder_conserves:
  "sum_list (map f_qty (mr_fills (fst (applyOrder book inc)))) + mr_restingQty (fst (applyOrder book inc)) +
     mr_canceledQty (fst (applyOrder book inc)) = in_qty inc \<and>
   sum_list (map r_qty (ob_bids (snd (applyOrder book inc)) @ ob_asks (snd (applyOrder book inc)))) =
     sum_list (map r_qty (ob_bids book @ ob_asks book)) + mr_restingQty (fst (applyOrder book inc)) -
     sum_list (map f_qty (mr_fills (fst (applyOrder book inc))))"
  using matchLoop_qty [of inc "oppositeOf (in_side inc) book" "in_qty inc" "ob_lastPrice book"]
    matchLoop_makers_qty [of inc "oppositeOf (in_side inc) book" "in_qty inc" "ob_lastPrice book"]
  by (cases "in_side inc")
    (auto simp: applyOrder_def Let_def setOpposite_def oppositeOf_def insertResting_def sum_insertAt)

lemma fills_applyOrder:
  assumes "bookInv book" and "incomingOk book inc"
  shows "(\<forall>f \<in> set (mr_fills (fst (applyOrder book inc))). fillOk inc (oppositeOf (in_side inc) book) f \<and>
      (\<forall>x \<in> set (oppositeOf (in_side inc) (snd (applyOrder book inc))).
         case in_side inc of BUY \<Rightarrow> f_price f \<le> r_price x | SELL \<Rightarrow> r_price x \<le> f_price f)) \<and>
    sorted_wrt (\<lambda>f g. case in_side inc of BUY \<Rightarrow> f_price f \<le> f_price g | SELL \<Rightarrow> f_price g \<le> f_price f)
      (mr_fills (fst (applyOrder book inc)))"
proof -
  let ?opp = "oppositeOf (in_side inc) book"
  let ?out = "matchLoop inc ?opp (in_qty inc) (ob_lastPrice book)"
  have fills: "mr_fills (fst (applyOrder book inc)) = lo_fills ?out"
    by (simp add: applyOrder_def Let_def)
  have opp: "oppositeOf (in_side inc) (snd (applyOrder book inc)) = lo_opp ?out"
    by (cases "in_side inc") (simp_all add: applyOrder_def Let_def setOpposite_def oppositeOf_def insertResting_def)
  show ?thesis
    using matchLoop_fills [OF sideInv_positive [OF bookInv_side [OF assms(1), of "in_side inc"]], where inc = inc and rem = "in_qty inc" and px = "ob_lastPrice book"]
      matchLoop_priority [OF sideInv_sorted [OF bookInv_side [OF assms(1), of "in_side inc"]], where inc = inc and rem = "in_qty inc" and px = "ob_lastPrice book"]
    unfolding fills opp
    by (cases "in_side inc") (simp_all add: betterThan_def not_less)
qed

text \<open>
  C3. Every fill is positive, at the resting order's own price, within the taker's limit, and between
  two different accounts; fills come best price first, and no order left on that side of the book
  has a better price than any fill (price priority).
\<close>

theorem applyOrder_fills:
  assumes "bookInv book" and "incomingOk book inc"
  shows "(\<forall>f \<in> set (mr_fills (fst (applyOrder book inc))). fillOk inc (oppositeOf (in_side inc) book) f \<and>
      (\<forall>x \<in> set (oppositeOf (in_side inc) (snd (applyOrder book inc))).
         case in_side inc of BUY \<Rightarrow> f_price f \<le> r_price x | SELL \<Rightarrow> r_price x \<le> f_price f)) \<and>
    sorted_wrt (\<lambda>f g. case in_side inc of BUY \<Rightarrow> f_price f \<le> f_price g | SELL \<Rightarrow> f_price g \<le> f_price f)
      (mr_fills (fst (applyOrder book inc)))"
  using assms by (rule fills_applyOrder)

lemma applyOrder_fills_witness:
  "\<exists>f g. mr_fills (fst (applyOrder demoBook demoOrder)) = [f, g] \<and>
     fillOk demoOrder (oppositeOf BUY demoBook) f \<and> fillOk demoOrder (oppositeOf BUY demoBook) g"
proof -
  have two: "\<exists>f g. mr_fills (fst (applyOrder demoBook demoOrder)) = [f, g]"
    by (simp add: applyOrder_def demoBook_def demoOrder_def oppositeOf_def matchLoop_eqs crosses_def limitOf_def Let_def)
  have "in_side demoOrder = BUY" by (simp add: demoOrder_def)
  then show ?thesis using two applyOrder_fills [OF demo_ok] by auto
qed

section \<open>Closed orders, cancellation and the depth snapshot\<close>

lemma matchLoop_self_remaining:
  "lo_self (matchLoop inc opp rem px) \<Longrightarrow> 0 < lo_remaining (matchLoop inc opp rem px)"
  by (induction opp rem px rule: matchLoop_induct [where inc = inc])
    (auto simp: matchLoop_eqs Let_def)

lemma matchLoop_closed:
  assumes "\<forall>x \<in> set opp. 0 < r_qty x" and "distinct (map r_orderId opp)" and "0 \<le> rem"
  shows "(\<forall>c \<in> set (lo_closed (matchLoop inc opp rem px)). c_status c = FILLED \<and>
      (\<exists>m \<in> set opp. c_orderId c = r_orderId m \<and> c_accountId c = r_accountId m \<and> c_side c = r_side m \<and>
         c_filledQty c = r_totalQty m)) \<and>
    map c_orderId (lo_closed (matchLoop inc opp rem px)) @ map r_orderId (lo_opp (matchLoop inc opp rem px)) =
      map r_orderId opp"
  using assms
proof (induction opp rem px rule: matchLoop_induct [where inc = inc])
  case (Full maker rest rem px)
  then show ?case by (auto simp: matchLoop_full Let_def closedMaker_def)
qed (simp_all add: matchLoop_eqs)

lemma closes_applyOrder:
  assumes "bookInv book" and "incomingOk book inc"
  shows "\<exists>makers. mr_closedOrders (fst (applyOrder book inc)) =
      makers @ (if 0 < mr_restingQty (fst (applyOrder book inc)) then []
        else [closedTaker inc (in_qty inc - mr_canceledQty (fst (applyOrder book inc)))
               (if mr_canceledQty (fst (applyOrder book inc)) = 0 then FILLED else CANCELED)]) \<and>
    (\<forall>c \<in> set makers. c_status c = FILLED \<and> c_orderId c \<notin> set (bookIds (snd (applyOrder book inc)))) \<and>
    set (bookIds book) \<subseteq> c_orderId ` set makers \<union> set (bookIds (snd (applyOrder book inc))) \<and>
    (in_orderId inc \<in> set (bookIds (snd (applyOrder book inc))) \<longleftrightarrow> 0 < mr_restingQty (fst (applyOrder book inc)))"
proof -
  let ?opp = "oppositeOf (in_side inc) book"
  let ?out = "matchLoop inc ?opp (in_qty inc) (ob_lastPrice book)"
  have q: "0 < in_qty inc" and fresh: "in_orderId inc \<notin> set (bookIds book)"
    using assms(2) by (auto simp: incomingOk_def)
  have pos: "\<forall>x \<in> set ?opp. 0 < r_qty x" using sideInv_positive [OF bookInv_side [OF assms(1)]] .
  have dist: "distinct (map r_orderId ?opp)"
    using bookInv_ids [OF assms(1)] by (cases "in_side inc") (auto simp: oppositeOf_def)
  have rem: "0 \<le> lo_remaining ?out" using matchLoop_bounds(1) [OF pos] q by simp
  have closed: "\<forall>c \<in> set (lo_closed ?out). c_status c = FILLED"
    and ids: "map c_orderId (lo_closed ?out) @ map r_orderId (lo_opp ?out) = map r_orderId ?opp"
    using matchLoop_closed [OF pos dist, where inc = inc and rem = "in_qty inc" and px = "ob_lastPrice book"] q
    by simp_all
  have self: "lo_self ?out \<Longrightarrow> 0 < lo_remaining ?out" by (rule matchLoop_self_remaining)
  have split: "set (map c_orderId (lo_closed ?out)) \<inter> r_orderId ` set (lo_opp ?out) = {}"
    using dist unfolding ids [symmetric] by auto
  have union: "c_orderId ` set (lo_closed ?out) \<union> r_orderId ` set (lo_opp ?out) = r_orderId ` set ?opp"
    using arg_cong [OF ids, of set] by simp
  let ?b1 = "setOpposite (in_side inc) (lo_opp ?out) (book\<lparr>ob_lastPrice := lo_last ?out\<rparr>)"
  define same where "same = r_orderId ` set (oppositeOf (otherSide (in_side inc)) book)"
  have ids0: "set (bookIds book) = r_orderId ` set ?opp \<union> same" "r_orderId ` set ?opp \<inter> same = {}"
    using bookInv_ids [OF assms(1)] by (cases "in_side inc"; auto simp: bookIds_def oppositeOf_def same_def)+
  have ids1: "set (bookIds ?b1) = r_orderId ` set (lo_opp ?out) \<union> same"
    by (cases "in_side inc") (auto simp: bookIds_def oppositeOf_def setOpposite_def same_def)
  have gone: "\<forall>c \<in> set (lo_closed ?out). c_orderId c \<notin> set (bookIds ?b1)"
    using split union ids0(2) unfolding ids1 set_map by blast
  have kept: "set (bookIds book) \<subseteq> c_orderId ` set (lo_closed ?out) \<union> set (bookIds ?b1)"
    using union unfolding ids0 ids1 by auto
  have fresh1: "in_orderId inc \<notin> set (bookIds ?b1)" "\<forall>c \<in> set (lo_closed ?out). c_orderId c \<noteq> in_orderId inc"
    using fresh union unfolding ids0 ids1 by (blast, metis UnCI imageI)
  show ?thesis
  proof (cases "\<not> lo_self ?out \<and> lo_remaining ?out \<noteq> 0 \<and> in_type inc \<noteq> MARKET")
    case False
    then have res: "snd (applyOrder book inc) = ?b1" "mr_restingQty (fst (applyOrder book inc)) = 0"
      "mr_canceledQty (fst (applyOrder book inc)) = lo_remaining ?out"
      "mr_closedOrders (fst (applyOrder book inc)) = lo_closed ?out @ [closedTaker inc (in_qty inc - lo_remaining ?out)
         (if lo_remaining ?out = 0 then FILLED else CANCELED)]"
      using self by (auto simp: applyOrder_def Let_def)
    show ?thesis
      unfolding res using closed gone kept fresh1 by (intro exI [of _ "lo_closed ?out"]) auto
  next
    case True
    then have res: "mr_restingQty (fst (applyOrder book inc)) = lo_remaining ?out"
      "mr_canceledQty (fst (applyOrder book inc)) = 0"
      "mr_closedOrders (fst (applyOrder book inc)) = lo_closed ?out"
      and book: "set (bookIds (snd (applyOrder book inc))) = insert (in_orderId inc) (set (bookIds ?b1))"
      by (cases "in_side inc"; auto simp: applyOrder_def Let_def insertResting_def bookIds_def setOpposite_def)+
    show ?thesis
      unfolding res book using closed gone kept fresh1 True rem by (intro exI [of _ "lo_closed ?out"]) auto
  qed
qed



lemma filter_absent: "i \<notin> r_orderId ` set xs \<Longrightarrow> filter (\<lambda>x. r_orderId x \<noteq> i) xs = xs"
  by (intro filter_True) auto

lemma removeFirst_None: "removeFirst i xs = None \<longleftrightarrow> i \<notin> r_orderId ` set xs"
  by (induction xs) (auto split: option.splits)

lemma removeFirst_Some:
  "removeFirst i xs = Some (r, ys) \<Longrightarrow> distinct (map r_orderId xs) \<Longrightarrow>
     r \<in> set xs \<and> r_orderId r = i \<and> ys = filter (\<lambda>x. r_orderId x \<noteq> i) xs"
proof (induction xs arbitrary: ys)
  case (Cons x xs)
  show ?case
  proof (cases "r_orderId x = i")
    case True
    then have "filter (\<lambda>x. r_orderId x \<noteq> i) xs = xs" using Cons.prems(2) by (intro filter_absent) auto
    then show ?thesis using True Cons.prems by auto
  next
    case False
    then show ?thesis using Cons by (auto split: option.splits)
  qed
qed simp

lemma sideInv_filter: "sideInv s n xs \<Longrightarrow> sideInv s n (filter P xs)"
  by (auto simp: sideInv_def sorted_wrt_filter)

lemma cancelOrder_facts:
  assumes "bookInv book"
  shows "(case fst (cancelOrder book i) of
      None \<Rightarrow> i \<notin> set (bookIds book) \<and> snd (cancelOrder book i) = book
    | Some r \<Rightarrow> r_orderId r = i \<and> r \<in> set (ob_bids book @ ob_asks book) \<and>
        snd (cancelOrder book i) =
          book\<lparr>ob_bids := filter (\<lambda>x. r_orderId x \<noteq> i) (ob_bids book),
               ob_asks := filter (\<lambda>x. r_orderId x \<noteq> i) (ob_asks book)\<rparr>) \<and>
    bookInv (snd (cancelOrder book i))"
proof -
  note ids = bookInv_ids [OF assms]
  consider (bid) r ys where "removeFirst i (ob_bids book) = Some (r, ys)"
    | (ask) r ys where "removeFirst i (ob_bids book) = None" "removeFirst i (ob_asks book) = Some (r, ys)"
    | (none) "removeFirst i (ob_bids book) = None" "removeFirst i (ob_asks book) = None"
    by (cases "removeFirst i (ob_bids book)"; cases "removeFirst i (ob_asks book)") auto
  then show ?thesis
  proof cases
    case bid
    then have r: "r \<in> set (ob_bids book)" "r_orderId r = i" "ys = filter (\<lambda>x. r_orderId x \<noteq> i) (ob_bids book)"
      using removeFirst_Some ids by blast+
    then have "i \<notin> r_orderId ` set (ob_asks book)" using ids by blast
    then show ?thesis using bid r assms ids
      by (auto simp: cancelOrder_def filter_absent bookInv_def uncrossed_def bookIds_def distinct_map_filter
          intro: sideInv_filter)
  next
    case ask
    then have r: "r \<in> set (ob_asks book)" "r_orderId r = i" "ys = filter (\<lambda>x. r_orderId x \<noteq> i) (ob_asks book)"
      using removeFirst_Some ids by blast+
    then have "i \<notin> r_orderId ` set (ob_bids book)" using ask(1) by (simp add: removeFirst_None)
    then show ?thesis using ask r assms ids
      by (auto simp: cancelOrder_def filter_absent bookInv_def uncrossed_def bookIds_def distinct_map_filter
          intro: sideInv_filter)
  next
    case none
    then have "i \<notin> set (bookIds book)" by (auto simp: removeFirst_None bookIds_def)
    then show ?thesis using assms by (simp add: cancelOrder_def none)
  qed
qed

text \<open>
  Cancelling removes exactly the named order and keeps everything else, in order, in a still
  well-formed book; an id that is not resting changes nothing and answers \<open>null\<close>.
\<close>

theorem cancelOrder_exact:
  assumes "bookInv book"
  shows "(case fst (cancelOrder book i) of
      None \<Rightarrow> i \<notin> set (bookIds book) \<and> snd (cancelOrder book i) = book
    | Some r \<Rightarrow> r_orderId r = i \<and> r \<in> set (ob_bids book @ ob_asks book) \<and>
        snd (cancelOrder book i) =
          book\<lparr>ob_bids := filter (\<lambda>x. r_orderId x \<noteq> i) (ob_bids book),
               ob_asks := filter (\<lambda>x. r_orderId x \<noteq> i) (ob_asks book)\<rparr>) \<and>
    bookInv (snd (cancelOrder book i))"
  using assms by (rule cancelOrder_facts)

lemma cancelOrder_exact_witness:
  "map_option r_qty (fst (cancelOrder demoBook ''a1'')) = Some 3 \<and> bookInv (snd (cancelOrder demoBook ''a1''))"
proof -
  have "map_option r_qty (fst (cancelOrder demoBook ''a1'')) = Some 3"
    by (simp add: cancelOrder_def demoBook_def)
  then show ?thesis using cancelOrder_exact [OF demo_ok(1), of "''a1''"] by blast
qed

text \<open>
  The reference for the snapshot: one level per distinct price, best first, each with the total
  quantity resting at that price.
\<close>

definition levelsSpec :: "resting_order list \<Rightarrow> orderbook_level list" where
  "levelsSpec xs = map (\<lambda>p. \<lparr>lv_price = p, lv_qty = sum_list (map r_qty (filter (\<lambda>x. r_price x = p) xs))\<rparr>)
     (remdups_adj (map r_price xs))"

fun grouped :: "resting_order list \<Rightarrow> orderbook_level list" where
  "grouped [] = []"
| "grouped (x # xs) =
     (case grouped xs of
        [] \<Rightarrow> [\<lparr>lv_price = r_price x, lv_qty = r_qty x\<rparr>]
      | l # ls \<Rightarrow> if lv_price l = r_price x then l\<lparr>lv_qty := r_qty x + lv_qty l\<rparr> # ls
                  else \<lparr>lv_price = r_price x, lv_qty = r_qty x\<rparr> # l # ls)"

definition mergeHead :: "orderbook_level \<Rightarrow> orderbook_level list \<Rightarrow> orderbook_level list" where
  "mergeHead l L = (case L of
      [] \<Rightarrow> [l]
    | m # ms \<Rightarrow> if lv_price m = lv_price l then l\<lparr>lv_qty := lv_qty l + lv_qty m\<rparr> # ms else l # m # ms)"

lemma grouped_Cons: "grouped (x # xs) = mergeHead \<lparr>lv_price = r_price x, lv_qty = r_qty x\<rparr> (grouped xs)"
  by (auto simp: mergeHead_def split: list.splits)

lemma mergeHead_merge:
  "lv_price l = r_price x \<Longrightarrow>
     mergeHead (l\<lparr>lv_qty := lv_qty l + r_qty x\<rparr>) L = mergeHead l (mergeHead \<lparr>lv_price = r_price x, lv_qty = r_qty x\<rparr> L)"
  by (auto simp: mergeHead_def split: list.splits)

lemma mergeHead_split:
  "lv_price l \<noteq> r_price x \<Longrightarrow>
     mergeHead l (mergeHead \<lparr>lv_price = r_price x, lv_qty = r_qty x\<rparr> L) =
     l # mergeHead \<lparr>lv_price = r_price x, lv_qty = r_qty x\<rparr> L"
  by (auto simp: mergeHead_def split: list.splits)

lemma aggregateLoop_grouped:
  "length ls < depth \<Longrightarrow> aggregateLoop depth (l # ls) xs = rev ls @ take (depth - length ls) (mergeHead l (grouped xs))"
proof (induction xs arbitrary: l ls)
  case Nil
  then show ?case by (simp add: mergeHead_def)
next
  case (Cons x xs)
  show ?case
  proof (cases "lv_price l = r_price x")
    case True
    then show ?thesis
      using Cons by (simp add: grouped_Cons mergeHead_merge add.commute del: grouped.simps)
  next
    case False
    have head: "mergeHead l (grouped (x # xs)) = l # grouped (x # xs)"
      unfolding grouped_Cons using False by (rule mergeHead_split)
    show ?thesis
    proof (cases "length (l # ls) = depth")
      case full: True
      then have d: "depth - length ls = Suc 0" by simp
      show ?thesis using False full by (simp only: head d) simp
    next
      case room: False
      with Cons.prems have "length (l # ls) < depth" by simp
      moreover from this have "depth - length ls = Suc (depth - length (l # ls))" by simp
      ultimately show ?thesis
        using False room Cons.IH [of "l # ls" "\<lparr>lv_price = r_price x, lv_qty = r_qty x\<rparr>"]
        by (simp only: head) (simp add: grouped_Cons del: grouped.simps)
    qed
  qed
qed

lemma aggregate_grouped: "aggregateLoop depth [] xs = take depth (grouped xs)"
proof (cases xs)
  case (Cons x xs')
  then show ?thesis
    by (cases "depth = 0") (simp_all add: aggregateLoop_grouped grouped_Cons del: grouped.simps)
qed simp

lemma distinct_remdups_adj_prices:
  "sorted_wrt (\<lambda>p q. p = q \<or> betterThan side p q) ps \<Longrightarrow> distinct (remdups_adj ps)"
  by (induction ps rule: remdups_adj.induct) (cases side; auto simp: betterThan_def)+

lemma levelsSpec_Cons:
  assumes "distinct (remdups_adj (map r_price (x # xs)))"
  shows "levelsSpec (x # xs) = mergeHead \<lparr>lv_price = r_price x, lv_qty = r_qty x\<rparr> (levelsSpec xs)"
proof (cases "remdups_adj (map r_price xs)")
  case Nil
  then show ?thesis by (simp add: levelsSpec_def mergeHead_def)
next
  case (Cons p ps)
  then obtain y ys where xs: "xs = y # ys" and p: "p = r_price y"
    by (cases xs) (auto simp: remdups_adj_Cons split: list.splits if_splits)
  have set: "set (p # ps) = r_price ` set xs" using arg_cong [OF Cons, of set] by simp
  show ?thesis
  proof (cases "p = r_price x")
    case True
    then have eq: "remdups_adj (map r_price (x # xs)) = r_price x # ps" using Cons xs p by simp
    with assms have "r_price x \<notin> set ps" by simp
    then have "map (\<lambda>q. \<lparr>lv_price = q, lv_qty = sum_list (map r_qty (filter (\<lambda>z. r_price z = q) (x # xs)))\<rparr>) ps
      = map (\<lambda>q. \<lparr>lv_price = q, lv_qty = sum_list (map r_qty (filter (\<lambda>z. r_price z = q) xs))\<rparr>) ps"
      by (intro map_cong) auto
    then show ?thesis unfolding levelsSpec_def eq using Cons True by (simp add: mergeHead_def)
  next
    case False
    then have eq: "remdups_adj (map r_price (x # xs)) = r_price x # p # ps" using Cons xs p by simp
    with assms have notin: "r_price x \<notin> set (p # ps)" by simp
    then have "map (\<lambda>q. \<lparr>lv_price = q, lv_qty = sum_list (map r_qty (filter (\<lambda>z. r_price z = q) (x # xs)))\<rparr>) (p # ps)
      = map (\<lambda>q. \<lparr>lv_price = q, lv_qty = sum_list (map r_qty (filter (\<lambda>z. r_price z = q) xs))\<rparr>) (p # ps)"
      by (intro map_cong) auto
    moreover have "filter (\<lambda>z. r_price z = r_price x) xs = []"
      using notin unfolding set by (intro filter_False ballI) (metis imageI)
    ultimately show ?thesis unfolding levelsSpec_def eq using Cons False by (simp add: mergeHead_def)
  qed
qed

lemma grouped_levelsSpec:
  assumes "sorted_wrt (priorTo (betterThan side)) xs"
  shows "grouped xs = levelsSpec xs"
  using assms
proof (induction xs)
  case Nil
  then show ?case by (simp add: levelsSpec_def)
next
  case (Cons x xs)
  have "sorted_wrt (\<lambda>p q. p = q \<or> betterThan side p q) (map r_price (x # xs))"
    unfolding sorted_wrt_map by (rule sorted_wrt_mono_rel [OF _ Cons.prems]) (auto simp: priorTo_def)
  then show ?case
    using Cons by (simp add: grouped_Cons levelsSpec_Cons distinct_remdups_adj_prices del: grouped.simps)
qed

text \<open>
  C38. The depth snapshot is the reference aggregation cut to \<open>depth\<close>: on each side the best
  \<open>depth\<close> prices, each once, with the whole quantity resting at that price.
\<close>

theorem levels_spec:
  assumes "bookInv book"
  shows "levels book depth = (take depth (levelsSpec (ob_bids book)), take depth (levelsSpec (ob_asks book)))"
proof -
  have "grouped (ob_bids book) = levelsSpec (ob_bids book)" "grouped (ob_asks book) = levelsSpec (ob_asks book)"
    using assms by (auto simp: bookInv_def sideInv_def intro: grouped_levelsSpec)
  then show ?thesis by (simp add: levels_def aggregate_grouped)
qed

lemma levels_spec_witness:
  "levels demoBook 10 = ([\<lparr>lv_price = 100, lv_qty = 5\<rparr>], [\<lparr>lv_price = 110, lv_qty = 7\<rparr>])"
  unfolding levels_spec [OF demo_ok(1)] by (simp add: levelsSpec_def demoBook_def)

end
