(* ===== verification/Futures_Rules.thy ===== *)
theory Futures_Rules
  imports Exchange_Types
begin

text \<open>
  \<open>packages/shared/src/futures.ts\<close>: the futures catalogue, margin rates, the position arithmetic that
  settlement applies to every fill, the cash effect of a realised result, the daily clock, the
  account risk assessment and the mark price. \<open>bigint\<close> amounts are \<open>int\<close>. The display name and the
  locale formatting of a contract are left out; the unit is a datatype.
\<close>

datatype price_unit = Pt | Won

record future_def =
  fd_symbol :: string
  fd_underlying :: string
  fd_priceScale :: int
  fd_decimals :: int
  fd_tickUnits :: int
  fd_unitValue :: int
  fd_initialMarginBps :: int
  fd_maintenanceMarginBps :: int
  fd_initialPrice :: int
  fd_unit :: price_unit

definition FUTURES :: "future_def list" where
  "FUTURES =
    [\<lparr>fd_symbol = ''KABUF'', fd_underlying = ''KABU_INDEX'', fd_priceScale = 100, fd_decimals = 2,
      fd_tickUnits = 5, fd_unitValue = 100, fd_initialMarginBps = 2175, fd_maintenanceMarginBps = 1450,
      fd_initialPrice = 88000, fd_unit = Pt\<rparr>,
     \<lparr>fd_symbol = ''USDF'', fd_underlying = ''USDKRW'', fd_priceScale = 10, fd_decimals = 1,
      fd_tickUnits = 1, fd_unitValue = 1000, fd_initialMarginBps = 500, fd_maintenanceMarginBps = 333,
      fd_initialPrice = 14000, fd_unit = Won\<rparr>,
     \<lparr>fd_symbol = ''OILF'', fd_underlying = ''OIL'', fd_priceScale = 100, fd_decimals = 2,
      fd_tickUnits = 1, fd_unitValue = 500, fd_initialMarginBps = 1650, fd_maintenanceMarginBps = 1100,
      fd_initialPrice = 10000, fd_unit = Pt\<rparr>,
     \<lparr>fd_symbol = ''GASF'', fd_underlying = ''GAS'', fd_priceScale = 100, fd_decimals = 2,
      fd_tickUnits = 1, fd_unitValue = 500, fd_initialMarginBps = 2250, fd_maintenanceMarginBps = 1500,
      fd_initialPrice = 10000, fd_unit = Pt\<rparr>,
     \<lparr>fd_symbol = ''CPRF'', fd_underlying = ''COPPER'', fd_priceScale = 100, fd_decimals = 2,
      fd_tickUnits = 1, fd_unitValue = 500, fd_initialMarginBps = 1350, fd_maintenanceMarginBps = 900,
      fd_initialPrice = 10000, fd_unit = Pt\<rparr>,
     \<lparr>fd_symbol = ''GOLDF'', fd_underlying = ''GOLD'', fd_priceScale = 100, fd_decimals = 2,
      fd_tickUnits = 1, fd_unitValue = 500, fd_initialMarginBps = 1000, fd_maintenanceMarginBps = 666,
      fd_initialPrice = 10000, fd_unit = Pt\<rparr>,
     \<lparr>fd_symbol = ''CORNF'', fd_underlying = ''CORN'', fd_priceScale = 100, fd_decimals = 2,
      fd_tickUnits = 1, fd_unitValue = 500, fd_initialMarginBps = 1500, fd_maintenanceMarginBps = 1000,
      fd_initialPrice = 10000, fd_unit = Pt\<rparr>]"

definition MAX_FUTURES_ORDER_QTY :: int where "MAX_FUTURES_ORDER_QTY = 100"

definition futureDef :: "string \<Rightarrow> future_def option" where
  "futureDef symbol = find (\<lambda>f. fd_symbol f = symbol) FUTURES"

definition isFuture :: "string \<Rightarrow> bool" where
  "isFuture symbol \<longleftrightarrow> symbol \<in> set (map fd_symbol FUTURES)"

lemma isFuture_iff: "isFuture s \<longleftrightarrow> futureDef s \<noteq> None"
  unfolding isFuture_def futureDef_def by (auto simp: find_None_iff)

section \<open>Margins\<close>

definition ceilBps :: "int \<Rightarrow> int \<Rightarrow> int" where
  "ceilBps value bps = (let numerator = value * bps in bigdiv (numerator + 9999) 10000)"

definition MAX_FUTURES_LEVERAGE :: int where "MAX_FUTURES_LEVERAGE = 20"

text \<open>\<open>None\<close> is \<open>null\<close>; a number is given by its value.\<close>

definition isValidLeverage :: "rat option \<Rightarrow> bool" where
  "isValidLeverage leverage \<longleftrightarrow>
     (case leverage of None \<Rightarrow> True
      | Some l \<Rightarrow> l = of_int \<lfloor>l\<rfloor> \<and> l \<ge> 1 \<and> l \<le> of_int MAX_FUTURES_LEVERAGE)"

definition futureMarginBps :: "future_def \<Rightarrow> int option \<Rightarrow> int \<times> int" where
  "futureMarginBps def' leverage =
     (case leverage of
        None \<Rightarrow> (fd_initialMarginBps def', fd_maintenanceMarginBps def')
      | Some l \<Rightarrow> let initial = ceilQuot 10000 l in (initial, floorQuot (initial * 2) 3))"

definition futureMarginPerContract :: "future_def \<Rightarrow> int \<Rightarrow> int option \<Rightarrow> int" where
  "futureMarginPerContract def' priceUnits leverage =
     ceilBps (priceUnits * fd_unitValue def') (fst (futureMarginBps def' leverage))"

definition futurePositionMargin :: "future_def \<Rightarrow> int \<Rightarrow> int option \<Rightarrow> int" where
  "futurePositionMargin def' entryValue leverage =
     ceilBps (entryValue * fd_unitValue def') (fst (futureMarginBps def' leverage))"

definition futureMaintenanceMargin :: "future_def \<Rightarrow> int \<Rightarrow> int \<Rightarrow> int option \<Rightarrow> int" where
  "futureMaintenanceMargin def' qty markUnits leverage =
     ceilBps (\<bar>qty\<bar> * markUnits * fd_unitValue def') (snd (futureMarginBps def' leverage))"

section \<open>Position sides\<close>

datatype position_side = LONG | SHORT

datatype row_side = LONG_ROW | SHORT_ROW | NET

definition isOpeningHedgeOrder :: "order_side \<Rightarrow> position_side \<Rightarrow> bool" where
  "isOpeningHedgeOrder side positionSide \<longleftrightarrow> (side = BUY) = (positionSide = LONG)"

definition hedgeCloseSide :: "position_side \<Rightarrow> order_side" where
  "hedgeCloseSide positionSide = (if positionSide = LONG then SELL else BUY)"

definition rowSideOf :: "position_side option \<Rightarrow> row_side" where
  "rowSideOf positionSide =
     (case positionSide of Some LONG \<Rightarrow> LONG_ROW | Some SHORT \<Rightarrow> SHORT_ROW | None \<Rightarrow> NET)"

definition futuresPositionKey :: "string \<Rightarrow> row_side \<Rightarrow> string" where
  "futuresPositionKey symbol positionSide =
     (case positionSide of NET \<Rightarrow> symbol | LONG_ROW \<Rightarrow> symbol @ '':LONG'' | SHORT_ROW \<Rightarrow> symbol @ '':SHORT'')"

section \<open>Applying a fill to a position\<close>

record future_position =
  fp_qty :: int
  fp_entryValue :: int

record future_fill = future_position +
  ff_closedQty :: int
  ff_realized :: int

text \<open>The code passes \<open>Pick<FutureDef, "unitValue">\<close>: only the multiplier is used.\<close>

definition applyFutureFill :: "int \<Rightarrow> future_position \<Rightarrow> order_side \<Rightarrow> int \<Rightarrow> int \<Rightarrow> future_fill" where
  "applyFutureFill unitValue position side price fillQty =
     (let delta = (if side = BUY then fillQty else - fillQty);
          qty = fp_qty position; entryValue = fp_entryValue position
      in if qty = 0 \<or> sgn qty = sgn delta then
           \<lparr>fp_qty = qty + delta, fp_entryValue = entryValue + price * fillQty,
            ff_closedQty = 0, ff_realized = 0\<rparr>
         else
           let closedQty = min fillQty \<bar>qty\<bar>;
               basis = bigdiv (entryValue * closedQty) \<bar>qty\<bar>;
               direction = (if qty > 0 then 1 else -1);
               realizedUnits = direction * (price * closedQty - basis);
               remainingOpen = fillQty - closedQty;
               nextQty = qty + sgn delta * closedQty;
               nextEntry = entryValue - basis
           in if remainingOpen = 0 then
                \<lparr>fp_qty = nextQty, fp_entryValue = (if nextQty = 0 then 0 else nextEntry),
                 ff_closedQty = closedQty, ff_realized = realizedUnits * unitValue\<rparr>
              else
                \<lparr>fp_qty = sgn delta * remainingOpen, fp_entryValue = price * remainingOpen,
                 ff_closedQty = closedQty, ff_realized = realizedUnits * unitValue\<rparr>)"

definition applyHedgeFill ::
  "int \<Rightarrow> future_position \<Rightarrow> position_side \<Rightarrow> order_side \<Rightarrow> int \<Rightarrow> int \<Rightarrow> future_fill \<times> int" where
  "applyHedgeFill unitValue position positionSide side price fillQty =
     (if isOpeningHedgeOrder side positionSide then
        (applyFutureFill unitValue position side price fillQty, 0)
      else
        let closeQty = min fillQty \<bar>fp_qty position\<bar>
        in if closeQty = 0 then
             (\<lparr>fp_qty = fp_qty position, fp_entryValue = fp_entryValue position,
               ff_closedQty = 0, ff_realized = 0\<rparr>, fillQty)
           else (applyFutureFill unitValue position side price closeQty, fillQty - closeQty))"

section \<open>Cash\<close>

record futures_cash_state =
  fc_balance :: int
  fc_holdAmount :: int
  fc_debt :: int

record futures_cash_result =
  fr_balance :: int
  fr_debt :: int
  fr_ledgerDelta :: int

definition applyFuturesCash :: "futures_cash_state \<Rightarrow> int \<Rightarrow> futures_cash_result" where
  "applyFuturesCash state realized =
     (if realized \<ge> 0 then
        let repay = (if realized < fc_debt state then realized else fc_debt state)
        in \<lparr>fr_balance = fc_balance state + realized - repay, fr_debt = fc_debt state - repay,
            fr_ledgerDelta = realized - repay\<rparr>
      else
        let loss = - realized;
            room = fc_balance state - fc_holdAmount state;
            paid = (if loss < room then loss else if room > 0 then room else 0)
        in \<lparr>fr_balance = fc_balance state - paid, fr_debt = fc_debt state + (loss - paid),
            fr_ledgerDelta = - paid\<rparr>)"

section \<open>The daily clock\<close>

definition KST_OFFSET_MS :: int where "KST_OFFSET_MS = 9 * 60 * 60 * 1000"

definition FUTURES_SETTLE_MINUTE_KST :: int where "FUTURES_SETTLE_MINUTE_KST = 4 * 60 + 11"

definition OPTIONS_RESTRIKE_MINUTE_KST :: int where "OPTIONS_RESTRIKE_MINUTE_KST = 4 * 60 + 20"

definition DAY_MS :: int where "DAY_MS = 86400000"

text \<open>
  The trading day is the KST calendar date as the text \<open>YYYY-MM-DD\<close>: \<open>toISOString\<close> gives the civil
  date of a day number (years 0 to 9999), counted here in eras of 400 years that begin on 1 March.
\<close>

definition civilDate :: "int \<Rightarrow> int \<times> int \<times> int" where
  "civilDate day =
     (let z = day + 719468;
          era = z div 146097;
          doe = z mod 146097;
          yoe = (doe - doe div 1460 + doe div 36524 - doe div 146096) div 365;
          doy = doe - (365 * yoe + yoe div 4 - yoe div 100);
          mp = (5 * doy + 2) div 153;
          m = (if mp < 10 then mp + 3 else mp - 9)
      in (yoe + era * 400 + (if m \<le> 2 then 1 else 0), m, doy - (153 * mp + 2) div 5 + 1))"

definition digitChar :: "int \<Rightarrow> char" where
  "digitChar n = ''0123456789'' ! nat (n mod 10)"

definition isoDate :: "int \<Rightarrow> string" where
  "isoDate day = (case civilDate day of (y, m, d) \<Rightarrow>
     [digitChar (y div 1000), digitChar (y div 100), digitChar (y div 10), digitChar y, CHR ''-'',
      digitChar (m div 10), digitChar m, CHR ''-'', digitChar (d div 10), digitChar d])"

definition kstDayNumber :: "int \<Rightarrow> int" where
  "kstDayNumber now = floorQuot (now + KST_OFFSET_MS) DAY_MS"

definition futuresTradingDay :: "int \<Rightarrow> string" where
  "futuresTradingDay now = isoDate (kstDayNumber now)"

definition nextKstMinuteAt :: "int \<Rightarrow> int \<Rightarrow> int" where
  "nextKstMinuteAt minute now =
     (let kst = now + KST_OFFSET_MS;
          dayStart = floorQuot kst DAY_MS * DAY_MS;
          due = dayStart + minute * 60000
      in (if due \<le> kst then due + DAY_MS else due) - KST_OFFSET_MS)"

definition nextFuturesSettlementAt :: "int \<Rightarrow> int" where
  "nextFuturesSettlementAt now = nextKstMinuteAt FUTURES_SETTLE_MINUTE_KST now"

definition futuresSettlementDue :: "int \<Rightarrow> bool" where
  "futuresSettlementDue now \<longleftrightarrow>
     (let kst = now + KST_OFFSET_MS; dayStart = floorQuot kst DAY_MS * DAY_MS
      in kst \<ge> dayStart + FUTURES_SETTLE_MINUTE_KST * 60000)"

definition nextOptionsRestrikeAt :: "int \<Rightarrow> int" where
  "nextOptionsRestrikeAt now = nextKstMinuteAt OPTIONS_RESTRIKE_MINUTE_KST now"

definition inOptionsRestrikeGap :: "int \<Rightarrow> bool" where
  "inOptionsRestrikeGap now \<longleftrightarrow>
     (let minute = floorQuot (jsRem (now + KST_OFFSET_MS) DAY_MS) 60000
      in minute \<ge> FUTURES_SETTLE_MINUTE_KST \<and> minute < OPTIONS_RESTRIKE_MINUTE_KST)"

section \<open>Risk\<close>

definition FUTURES_MARGIN_CALL_GRACE_MS :: int where "FUTURES_MARGIN_CALL_GRACE_MS = 30 * 60000"

definition FUTURES_EMERGENCY_LOSS_BPS :: int where "FUTURES_EMERGENCY_LOSS_BPS = 9000"

record risk_position =
  rp_def :: future_def
  rp_qty :: int
  rp_entryValue :: int
  rp_marginHeld :: int
  rp_mark :: int
  rp_leverage :: "int option"
  rp_positionSide :: row_side

record risk_assessment =
  ra_equity :: int
  ra_unrealized :: int
  ra_maintenance :: int
  ra_initial :: int
  ra_belowMaintenance :: bool
  ra_shortfall :: int
  ra_emergency :: "string list"

definition futureUnrealized :: "future_def \<Rightarrow> int \<Rightarrow> int \<Rightarrow> int \<Rightarrow> int" where
  "futureUnrealized def' qty entryValue mark =
     (if qty = 0 then 0
      else let markValue = \<bar>qty\<bar> * mark
           in (if qty > 0 then 1 else -1) * (markValue - entryValue) * fd_unitValue def')"

record risk_totals =
  rt_unrealized :: int
  rt_maintenance :: int
  rt_initial :: int
  rt_emergency :: "string list"

definition riskStep :: "risk_position \<Rightarrow> risk_totals \<Rightarrow> risk_totals" where
  "riskStep p t =
     (if rp_qty p = 0 then t
      else let pnl = futureUnrealized (rp_def p) (rp_qty p) (rp_entryValue p) (rp_mark p)
           in \<lparr>rt_unrealized = rt_unrealized t + pnl,
               rt_maintenance = rt_maintenance t +
                 futureMaintenanceMargin (rp_def p) (rp_qty p) (rp_mark p) (rp_leverage p),
               rt_initial = rt_initial t +
                 futureMarginPerContract (rp_def p) (rp_mark p) (rp_leverage p) * \<bar>rp_qty p\<bar>,
               rt_emergency = rt_emergency t @
                 (if rp_marginHeld p > 0 \<and> - pnl * 10000 \<ge> rp_marginHeld p * FUTURES_EMERGENCY_LOSS_BPS
                  then [futuresPositionKey (fd_symbol (rp_def p)) (rp_positionSide p)] else [])\<rparr>)"

definition assessFuturesRisk :: "risk_position list \<Rightarrow> int \<Rightarrow> int \<Rightarrow> risk_assessment" where
  "assessFuturesRisk positions balance debt =
     (let t = fold riskStep positions
            \<lparr>rt_unrealized = 0, rt_maintenance = 0, rt_initial = 0, rt_emergency = []\<rparr>;
          equity = balance + rt_unrealized t - debt;
          shortfall = (if rt_initial t > equity then rt_initial t - equity else 0)
      in \<lparr>ra_equity = equity, ra_unrealized = rt_unrealized t, ra_maintenance = rt_maintenance t,
          ra_initial = rt_initial t, ra_belowMaintenance = (equity < rt_maintenance t),
          ra_shortfall = shortfall, ra_emergency = rt_emergency t\<rparr>)"

definition marginCallLiquidationQty :: "int \<Rightarrow> int \<Rightarrow> int \<Rightarrow> int" where
  "marginCallLiquidationQty qty shortfall initial =
     (let size' = \<bar>qty\<bar>
      in if size' = 0 \<or> shortfall \<le> 0 then 0
         else if initial \<le> 0 \<or> shortfall \<ge> initial then size'
         else let n = bigdiv (size' * shortfall + initial - 1) initial
              in max 1 (min size' n))"

section \<open>Mark price\<close>

definition median :: "rat list \<Rightarrow> rat" where
  "median values =
     (let sorted' = sort values; mid = length sorted' div 2
      in if odd (length sorted') then sorted' ! mid
         else jsDiv (jsAdd (sorted' ! (mid - 1)) (sorted' ! mid)) 2)"

definition futureMarkPrice :: "rat option \<Rightarrow> rat list \<Rightarrow> rat \<Rightarrow> rat" where
  "futureMarkPrice underlying0 recent0 last' =
     (let recent = filter (\<lambda>price. price > 0) recent0;
          recentMedian = (if recent \<noteq> [] then Some (median recent) else None);
          underlying = (case underlying0 of Some u \<Rightarrow> if u > 0 then Some u else None | None \<Rightarrow> None)
      in case (underlying, recentMedian) of
           (Some u, Some m) \<Rightarrow> of_int (mathRound (median [u, m, last']))
         | (None, Some m) \<Rightarrow> of_int (mathRound m)
         | (Some u, None) \<Rightarrow> of_int (mathRound (median [u, last']))
         | (None, None) \<Rightarrow> last')"

end
