(* ===== verification/Futures_Props.thy ===== *)
theory Futures_Props
  imports Futures_Rules
begin

text \<open>
  What the futures arithmetic guarantees: the accounting identity of fills, one-way hedge rows, the
  cash rule, margins that cover the exposure, the size of a margin-call liquidation, the daily clock
  and the mark price.
\<close>

section \<open>The accounting identity\<close>

text \<open>The signed entry value of a position: what its open contracts cost, in price units.\<close>

definition signedEntry :: "future_position \<Rightarrow> int" where
  "signedEntry p = sgn (fp_qty p) * fp_entryValue p"

definition posOk :: "future_position \<Rightarrow> bool" where
  "posOk p \<longleftrightarrow> 0 \<le> fp_entryValue p \<and> (fp_qty p = 0 \<longrightarrow> fp_entryValue p = 0)"

definition signedQty :: "order_side \<Rightarrow> int \<Rightarrow> int" where
  "signedQty side qty = (if side = BUY then qty else - qty)"

definition positionOf :: "future_fill \<Rightarrow> future_position" where
  "positionOf r = \<lparr>fp_qty = fp_qty r, fp_entryValue = fp_entryValue r\<rparr>"

lemma positionOf_simps [simp]:
  "fp_qty (positionOf r) = fp_qty r" "fp_entryValue (positionOf r) = fp_entryValue r"
  by (simp_all add: positionOf_def)

text \<open>The cost taken out by closing \<open>k\<close> of \<open>n\<close> contracts stays within the entry value.\<close>

lemma basis_bounds:
  assumes "0 \<le> e" "0 \<le> k" "k \<le> n" "0 < n"
  shows "0 \<le> bigdiv (e * k) n" and "bigdiv (e * k) n \<le> e" and "k = n \<Longrightarrow> bigdiv (e * k) n = e"
proof -
  have ek: "0 \<le> e * k" using assms by simp
  have eq: "bigdiv (e * k) n = (e * k) div n" by (rule bigdiv_nonneg [OF ek assms(4)])
  show "0 \<le> bigdiv (e * k) n" unfolding eq using ek assms(4) by (simp add: pos_imp_zdiv_nonneg_iff)
  have "e * k \<le> e * n" using assms by (simp add: mult_left_mono)
  then have "(e * k) div n \<le> (e * n) div n" using assms(4) by (intro zdiv_mono1)
  then show "bigdiv (e * k) n \<le> e" unfolding eq using assms(4) by simp
  show "k = n \<Longrightarrow> bigdiv (e * k) n = e" unfolding eq using assms(4) by simp
qed

text \<open>The three outcomes of a fill.\<close>

lemma applyFutureFill_open:
  assumes "fp_qty p = 0 \<or> sgn (fp_qty p) = sgn (signedQty side n)"
  shows "applyFutureFill u p side price n =
    \<lparr>fp_qty = fp_qty p + signedQty side n, fp_entryValue = fp_entryValue p + price * n,
     ff_closedQty = 0, ff_realized = 0\<rparr>"
  using assms by (simp add: applyFutureFill_def signedQty_def Let_def)

lemma applyFutureFill_close:
  assumes "fp_qty p \<noteq> 0" "sgn (fp_qty p) \<noteq> sgn (signedQty side n)" "n \<le> \<bar>fp_qty p\<bar>"
  shows "applyFutureFill u p side price n =
    (let basis = bigdiv (fp_entryValue p * n) \<bar>fp_qty p\<bar>; q = fp_qty p + sgn (signedQty side n) * n
     in \<lparr>fp_qty = q, fp_entryValue = (if q = 0 then 0 else fp_entryValue p - basis),
         ff_closedQty = n, ff_realized = sgn (fp_qty p) * (price * n - basis) * u\<rparr>)"
  using assms by (auto simp: applyFutureFill_def signedQty_def Let_def sgn_if min_def)

lemma applyFutureFill_flip:
  assumes "fp_qty p \<noteq> 0" "sgn (fp_qty p) \<noteq> sgn (signedQty side n)" "\<bar>fp_qty p\<bar> < n" "0 \<le> fp_entryValue p"
  shows "applyFutureFill u p side price n =
    \<lparr>fp_qty = sgn (signedQty side n) * (n - \<bar>fp_qty p\<bar>), fp_entryValue = price * (n - \<bar>fp_qty p\<bar>),
     ff_closedQty = \<bar>fp_qty p\<bar>,
     ff_realized = sgn (fp_qty p) * (price * \<bar>fp_qty p\<bar> - fp_entryValue p) * u\<rparr>"
proof -
  have b: "bigdiv (fp_entryValue p * \<bar>fp_qty p\<bar>) \<bar>fp_qty p\<bar> = fp_entryValue p"
    using assms basis_bounds(3) [of "fp_entryValue p" "\<bar>fp_qty p\<bar>" "\<bar>fp_qty p\<bar>"] by simp
  show ?thesis
    using assms b by (auto simp: applyFutureFill_def signedQty_def Let_def sgn_if min_def)
qed

lemma fill_cases [case_names open' close flip]:
  fixes p :: future_position
  assumes "fp_qty p = 0 \<or> sgn (fp_qty p) = sgn (signedQty side n) \<Longrightarrow> P"
    and "fp_qty p \<noteq> 0 \<Longrightarrow> sgn (fp_qty p) \<noteq> sgn (signedQty side n) \<Longrightarrow> n \<le> \<bar>fp_qty p\<bar> \<Longrightarrow> P"
    and "fp_qty p \<noteq> 0 \<Longrightarrow> sgn (fp_qty p) \<noteq> sgn (signedQty side n) \<Longrightarrow> \<bar>fp_qty p\<bar> < n \<Longrightarrow> P"
  shows P
  using assms by (meson not_le)

lemma applyFutureFill_qty:
  assumes "0 < n" "posOk p"
  shows "fp_qty (applyFutureFill u p side price n) = fp_qty p + signedQty side n"
  using assms
  by (cases rule: fill_cases [of p side n])
    (auto simp: applyFutureFill_open applyFutureFill_close applyFutureFill_flip posOk_def Let_def
      signedQty_def sgn_if split: if_splits)

lemma applyFutureFill_posOk:
  assumes "0 < n" "0 \<le> price" "posOk p"
  shows "posOk (positionOf (applyFutureFill u p side price n))"
proof (cases rule: fill_cases [of p side n])
  case open'
  then show ?thesis using assms
    by (auto simp: applyFutureFill_open posOk_def signedQty_def sgn_if split: if_splits)
next
  case close
  then have "bigdiv (fp_entryValue p * n) \<bar>fp_qty p\<bar> \<le> fp_entryValue p"
    using assms basis_bounds(2) [of "fp_entryValue p" n "\<bar>fp_qty p\<bar>"] by (simp add: posOk_def)
  with close show ?thesis by (simp add: applyFutureFill_close Let_def posOk_def)
next
  case flip
  then show ?thesis using assms
    by (auto simp: applyFutureFill_flip posOk_def signedQty_def sgn_if split: if_splits)
qed

lemma applyFutureFill_identity:
  assumes "0 < n" "posOk p" and r_def: "r = applyFutureFill u p side price n"
  shows "ff_realized r =
    (signedEntry (positionOf r) - signedEntry p - signedQty side n * price) * u"
proof (cases rule: fill_cases [of p side n])
  case open'
  then show ?thesis using assms
    by (auto simp: applyFutureFill_open r_def posOk_def signedEntry_def signedQty_def sgn_if
        algebra_simps split: if_splits)
next
  case close
  let ?b = "bigdiv (fp_entryValue p * n) \<bar>fp_qty p\<bar>"
  show ?thesis
  proof (cases "n = \<bar>fp_qty p\<bar>")
    case True
    then have b: "?b = fp_entryValue p"
      using assms basis_bounds(3) [of "fp_entryValue p" n "\<bar>fp_qty p\<bar>"] by (simp add: posOk_def)
    show ?thesis
      unfolding r_def applyFutureFill_close [OF close] Let_def b
      using True close assms(1)
      by (cases side; cases "fp_qty p > 0")
        (auto simp: signedEntry_def signedQty_def sgn_if algebra_simps split: if_splits)
  next
    case False
    show ?thesis
      unfolding r_def applyFutureFill_close [OF close] Let_def
      using False close assms(1)
      by (cases side; cases "fp_qty p > 0")
        (auto simp: signedEntry_def signedQty_def sgn_if algebra_simps split: if_splits)
  qed
next
  case flip
  then show ?thesis using assms
    by (cases side; cases "fp_qty p > 0")
      (auto simp: applyFutureFill_flip r_def posOk_def signedEntry_def signedQty_def sgn_if
        algebra_simps split: if_splits)
qed

text \<open>A sequence of fills of one account in one contract: the realised results add up.\<close>

fun applyFills :: "int \<Rightarrow> future_position \<Rightarrow> (order_side \<times> int \<times> int) list \<Rightarrow> future_position \<times> int" where
  "applyFills u p [] = (p, 0)"
| "applyFills u p ((side, price, n) # fs) =
     (let r = applyFutureFill u p side price n; (q, total) = applyFills u (positionOf r) fs
      in (q, ff_realized r + total))"

definition fillsOk :: "(order_side \<times> int \<times> int) list \<Rightarrow> bool" where
  "fillsOk fs \<longleftrightarrow> (\<forall>(side, price, n) \<in> set fs. 0 \<le> price \<and> 0 < n)"

definition netQty :: "(order_side \<times> int \<times> int) list \<Rightarrow> int" where
  "netQty fs = sum_list (map (\<lambda>(side, price, n). signedQty side n) fs)"

definition netCost :: "(order_side \<times> int \<times> int) list \<Rightarrow> int" where
  "netCost fs = sum_list (map (\<lambda>(side, price, n). signedQty side n * price) fs)"

lemma applyFills_account:
  assumes "posOk p" "fillsOk fs"
  shows "posOk (fst (applyFills u p fs)) \<and> fp_qty (fst (applyFills u p fs)) = fp_qty p + netQty fs \<and>
    snd (applyFills u p fs) = (signedEntry (fst (applyFills u p fs)) - signedEntry p - netCost fs) * u"
  using assms
proof (induction fs arbitrary: p)
  case Nil
  then show ?case by (simp add: netQty_def netCost_def)
next
  case (Cons f fs)
  obtain side price n where f: "f = (side, price, n)" by (cases f)
  have ok: "0 \<le> price" "0 < n" "fillsOk fs" using Cons.prems f by (auto simp: fillsOk_def)
  let ?r = "applyFutureFill u p side price n"
  have p': "posOk (positionOf ?r)" by (rule applyFutureFill_posOk [OF ok(2,1) Cons.prems(1)])
  note IH = Cons.IH [OF p' ok(3)]
  have q: "fp_qty ?r = fp_qty p + signedQty side n"
    by (rule applyFutureFill_qty [OF ok(2) Cons.prems(1)])
  have d: "ff_realized ?r = (signedEntry (positionOf ?r) - signedEntry p - signedQty side n * price) * u"
    by (rule applyFutureFill_identity [OF ok(2) Cons.prems(1) refl])
  show ?case
    unfolding f using IH
    by (simp add: Let_def split_beta q d netQty_def netCost_def algebra_simps)
qed

text \<open>
  Any sequence of fills of one account in one contract, opening, adding, closing and flipping in
  any order, keeps an exact account: the position is the sum of the signed quantities, its entry value
  is never negative and is zero when the position is flat, and the realised results of the fills add
  up to exactly (signed entry value gained minus the signed cost of the fills) times the contract
  multiplier. No won is lost to the proportional rounding of the closing cost.
\<close>

theorem futures_fills_exact:
  assumes "posOk p" "fillsOk fs"
  shows "fp_qty (fst (applyFills u p fs)) = fp_qty p + netQty fs \<and>
    posOk (fst (applyFills u p fs)) \<and>
    snd (applyFills u p fs) =
      (signedEntry (fst (applyFills u p fs)) - signedEntry p - netCost fs) * u"
  using applyFills_account [OF assms] by blast

definition demoFills :: "(order_side \<times> int \<times> int) list" where
  "demoFills = [(BUY, 101, 3), (BUY, 100, 4), (SELL, 110, 2), (SELL, 90, 8), (BUY, 95, 3)]"

definition flatPosition :: future_position where
  "flatPosition = \<lparr>fp_qty = 0, fp_entryValue = 0\<rparr>"

lemma demoFills_ok: "posOk flatPosition" "fillsOk demoFills"
  by (simp_all add: posOk_def flatPosition_def fillsOk_def demoFills_def)

lemma futures_fills_exact_witness:
  "fp_qty (fst (applyFills 100 flatPosition demoFills)) = 0 \<and>
   snd (applyFills 100 flatPosition demoFills) = - 4800"
proof -
  note exact = futures_fills_exact [OF demoFills_ok, of 100]
  have q: "netQty demoFills = 0" and c: "netCost demoFills = 48" by code_simp+
  from exact q have "fp_qty (fst (applyFills 100 flatPosition demoFills)) = 0"
    by (simp add: flatPosition_def)
  with exact c show ?thesis by (simp add: signedEntry_def flatPosition_def)
qed

section \<open>Hedge rows\<close>

text \<open>A LONG row holds a long or no position, a SHORT row a short one or none.\<close>

definition rowOk :: "position_side \<Rightarrow> future_position \<Rightarrow> bool" where
  "rowOk side p \<longleftrightarrow> posOk p \<and> (case side of LONG \<Rightarrow> 0 \<le> fp_qty p | SHORT \<Rightarrow> fp_qty p \<le> 0)"

text \<open>
  A hedge row never changes direction: a fill that opens adds exactly its quantity, a fill that
  closes takes at most what the row holds, and the rest comes back as overflow, so that contracts
  before plus the opened ones equal contracts after plus those closed; the row stays on its side with
  a consistent entry value.
\<close>

theorem hedge_row_one_way:
  assumes "rowOk ps p" "0 < n" "0 \<le> price"
  shows "rowOk ps (positionOf (fst (applyHedgeFill u p ps side price n))) \<and>
    (if isOpeningHedgeOrder side ps
     then \<bar>fp_qty (fst (applyHedgeFill u p ps side price n))\<bar> = \<bar>fp_qty p\<bar> + n \<and>
       snd (applyHedgeFill u p ps side price n) = 0
     else \<bar>fp_qty (fst (applyHedgeFill u p ps side price n))\<bar> = \<bar>fp_qty p\<bar> - min n \<bar>fp_qty p\<bar> \<and>
       snd (applyHedgeFill u p ps side price n) = n - min n \<bar>fp_qty p\<bar>)"
proof -
  have ok: "posOk p" using assms by (simp add: rowOk_def)
  show ?thesis
  proof (cases "isOpeningHedgeOrder side ps")
    case True
    note q = applyFutureFill_qty [OF assms(2) ok] applyFutureFill_posOk [OF assms(2,3) ok]
    show ?thesis using True assms q
      by (cases side; cases ps)
        (auto simp: applyHedgeFill_def rowOk_def isOpeningHedgeOrder_def signedQty_def)
  next
    case False
    show ?thesis
    proof (cases "min n \<bar>fp_qty p\<bar> = 0")
      case True
      then show ?thesis using False assms
        by (cases side; cases ps)
          (auto simp: applyHedgeFill_def rowOk_def isOpeningHedgeOrder_def posOk_def Let_def)
    next
      case nz: False
      then have pos: "0 < min n \<bar>fp_qty p\<bar>" using assms by auto
      note q = applyFutureFill_qty [OF pos ok] applyFutureFill_posOk [OF pos assms(3) ok]
      show ?thesis using False assms q nz
        by (cases side; cases ps)
          (auto simp: applyHedgeFill_def rowOk_def isOpeningHedgeOrder_def signedQty_def Let_def)
    qed
  qed
qed

lemma hedge_row_one_way_witness:
  "snd (applyHedgeFill 100 \<lparr>fp_qty = -2, fp_entryValue = 210\<rparr> SHORT BUY 90 5) = 3"
  using hedge_row_one_way [of SHORT "\<lparr>fp_qty = -2, fp_entryValue = 210\<rparr>" 5 90 100 BUY]
  by (simp add: rowOk_def posOk_def isOpeningHedgeOrder_def)

section \<open>Cash\<close>

text \<open>
  Realising a futures result never breaks the account: with the order holds within the balance
  and a debt that is not negative, the balance still covers the holds and the debt is still not
  negative, balance minus debt moves by exactly the result, the ledger records exactly the change of
  the balance, a loss becomes debt only once the free balance is used up and a profit reaches the
  balance only once the debt is repaid.
\<close>

theorem futures_cash_exact:
  assumes "fc_holdAmount s \<le> fc_balance s" "0 \<le> fc_debt s"
  shows "fc_holdAmount s \<le> fr_balance (applyFuturesCash s x) \<and>
    0 \<le> fr_debt (applyFuturesCash s x) \<and>
    fr_balance (applyFuturesCash s x) - fr_debt (applyFuturesCash s x) = fc_balance s - fc_debt s + x \<and>
    fr_ledgerDelta (applyFuturesCash s x) = fr_balance (applyFuturesCash s x) - fc_balance s \<and>
    (fc_debt s < fr_debt (applyFuturesCash s x) \<longrightarrow> fr_balance (applyFuturesCash s x) = fc_holdAmount s) \<and>
    (fc_balance s < fr_balance (applyFuturesCash s x) \<longrightarrow> fr_debt (applyFuturesCash s x) = 0)"
  using assms by (auto simp: applyFuturesCash_def Let_def)

lemma futures_cash_exact_witness:
  "fr_balance (applyFuturesCash \<lparr>fc_balance = 1000, fc_holdAmount = 400, fc_debt = 5\<rparr> (-900)) -
   fr_debt (applyFuturesCash \<lparr>fc_balance = 1000, fc_holdAmount = 400, fc_debt = 5\<rparr> (-900)) = 95"
  using futures_cash_exact [of "\<lparr>fc_balance = 1000, fc_holdAmount = 400, fc_debt = 5\<rparr>" "-900"]
  by (auto simp: applyFuturesCash_def)

section \<open>Margins\<close>

lemma ceilBps_ceilDiv: "ceilBps v b = ceilDiv (v * b) 10000"
  by (simp add: ceilBps_def ceilDiv_def Let_def)

lemma futureDef_member: "futureDef s = Some d \<Longrightarrow> d \<in> set FUTURES \<and> fd_symbol d = s"
  by (auto simp: futureDef_def find_Some_iff)

definition leverageOk :: "int option \<Rightarrow> bool" where
  "leverageOk l \<longleftrightarrow> isValidLeverage (map_option of_int l)"

lemma leverageOk_iff: "leverageOk l \<longleftrightarrow> (case l of None \<Rightarrow> True | Some k \<Rightarrow> 1 \<le> k \<and> k \<le> 20)"
proof (cases l)
  case (Some k)
  have "((1::rat) \<le> of_int k) = (1 \<le> k)" "((of_int k::rat) \<le> 20) = (k \<le> 20)" by linarith+
  then show ?thesis using Some by (simp add: leverageOk_def isValidLeverage_def MAX_FUTURES_LEVERAGE_def)
qed (simp add: leverageOk_def isValidLeverage_def)

lemma leverage_bps:
  assumes "1 \<le> k" "k \<le> 20"
  shows "futureMarginBps d (Some k) = (ceilDiv 10000 k, ceilDiv 10000 k * 2 div 3)"
proof -
  have c: "ceilQuot 10000 k = ceilDiv 10000 k" using assms by (simp add: ceilQuot_eq)
  have b: "0 \<le> ceilDiv 10000 k" "ceilDiv 10000 k \<le> 10000"
    using assms ceilDiv_bounds(3) [of 10000 k] ceilDiv_le_iff [of 10000 k 10000] by auto
  show ?thesis using b by (simp add: futureMarginBps_def c floorQuot_eq Let_def)
qed

text \<open>The two rates of every contract and leverage: the maintenance rate is the smaller one.\<close>

lemma margin_rates:
  assumes "d \<in> set FUTURES" "leverageOk l"
  shows "0 \<le> snd (futureMarginBps d l)" and "snd (futureMarginBps d l) \<le> fst (futureMarginBps d l)"
    and "0 < fst (futureMarginBps d l)"
proof (atomize (full), cases l)
  case None
  then show "0 \<le> snd (futureMarginBps d l) \<and> snd (futureMarginBps d l) \<le> fst (futureMarginBps d l) \<and>
      0 < fst (futureMarginBps d l)"
    using assms(1) by (auto simp: FUTURES_def futureMarginBps_def)
next
  case (Some k)
  then have k: "1 \<le> k" "k \<le> 20" using assms(2) by (simp_all add: leverageOk_iff)
  have "0 < ceilDiv 10000 k" using k by (simp add: ceilDiv_pos_iff)
  then show "0 \<le> snd (futureMarginBps d l) \<and> snd (futureMarginBps d l) \<le> fst (futureMarginBps d l) \<and>
      0 < fst (futureMarginBps d l)"
    by (auto simp: Some leverage_bps [OF k])
qed

lemma catalogue_unit: "d \<in> set FUTURES \<Longrightarrow> 0 < fd_unitValue d"
  by (auto simp: FUTURES_def)

text \<open>Rounding up once for all contracts is at most rounding up for each.\<close>

lemma ceilBps_times:
  assumes "0 \<le> v" "0 \<le> b" "0 \<le> n"
  shows "ceilBps (n * v) b \<le> n * ceilBps v b"
proof -
  have vb: "0 \<le> v * b" using assms by simp
  have "n * (v * b) \<le> n * (ceilDiv (v * b) 10000 * 10000)"
    using ceilDiv_bounds(1) [OF vb, of 10000] assms(3) by (intro mult_left_mono) auto
  then show ?thesis
    using assms by (simp add: ceilBps_ceilDiv ceilDiv_le_iff mult.assoc)
qed

text \<open>
  C21. The per-contract margin an order holds covers the position it opens: for every contract of the
  catalogue and every admissible leverage, \<open>n\<close> times the margin per contract at a price is at least
  the margin of the position with that entry value; and at leverage \<open>k\<close> the margin times \<open>k\<close>
  covers the whole notional, so the exposure never exceeds the chosen leverage.
\<close>

theorem order_hold_covers_margin:
  assumes "d \<in> set FUTURES" "leverageOk l" "0 \<le> price" "0 \<le> n"
  shows "futurePositionMargin d (price * n) l \<le> n * futureMarginPerContract d price l \<and>
    (\<forall>k. l = Some k \<longrightarrow> price * n * fd_unitValue d \<le> k * futurePositionMargin d (price * n) l)"
proof (intro conjI allI impI)
  let ?v = "price * fd_unitValue d"
  have v: "0 \<le> ?v" using assms catalogue_unit [OF assms(1)] by simp
  have b: "0 \<le> fst (futureMarginBps d l)" using margin_rates [OF assms(1,2)] by simp
  show "futurePositionMargin d (price * n) l \<le> n * futureMarginPerContract d price l"
    using ceilBps_times [OF v b assms(4)]
    by (simp add: futurePositionMargin_def futureMarginPerContract_def mult.assoc mult.left_commute)
  fix k assume l: "l = Some k"
  then have k: "1 \<le> k" "k \<le> 20" using assms(2) by (simp_all add: leverageOk_iff)
  let ?N = "price * n * fd_unitValue d" and ?b = "ceilDiv 10000 k"
  have N: "0 \<le> ?N" using assms catalogue_unit [OF assms(1)] by simp
  have bk: "10000 \<le> k * ?b" using ceilDiv_bounds(1) [of 10000 k] k by (simp add: mult.commute)
  have nb: "0 \<le> ?N * ?b" using N ceilDiv_bounds(3) [of 10000 k] k by simp
  have "?N * 10000 \<le> ?N * (k * ?b)" using bk N by (intro mult_left_mono)
  also have "\<dots> = k * (?N * ?b)" by simp
  also have "\<dots> \<le> k * (ceilDiv (?N * ?b) 10000 * 10000)"
    using ceilDiv_bounds(1) [OF nb, of 10000] k by (intro mult_left_mono) auto
  finally have "?N \<le> k * ceilDiv (?N * ?b) 10000" by simp
  then show "?N \<le> k * futurePositionMargin d (price * n) l"
    by (simp add: futurePositionMargin_def l leverage_bps [OF k] ceilBps_ceilDiv)
qed

lemma order_hold_covers_margin_witness:
  "88000 * 3 * fd_unitValue (FUTURES ! 0) \<le> 7 * futurePositionMargin (FUTURES ! 0) (88000 * 3) (Some 7)"
  using order_hold_covers_margin [of "FUTURES ! 0" "Some 7" 88000 3]
  by (simp add: leverageOk_iff FUTURES_def)

end
