(* ===== verification/Futures_Risk_Props.thy ===== *)
theory Futures_Risk_Props
  imports Futures_Props
begin

text \<open>
  The account risk assessment, the size of a margin-call liquidation, the mark price and the daily
  clock of \<open>packages/shared/src/futures.ts\<close>.
\<close>

section \<open>Risk assessment\<close>

definition riskOk :: "risk_position \<Rightarrow> bool" where
  "riskOk p \<longleftrightarrow> rp_def p \<in> set FUTURES \<and> 0 \<le> rp_mark p \<and> leverageOk (rp_leverage p)"

definition pnlOf :: "risk_position \<Rightarrow> int" where
  "pnlOf p = futureUnrealized (rp_def p) (rp_qty p) (rp_entryValue p) (rp_mark p)"

definition maintenanceOf :: "risk_position \<Rightarrow> int" where
  "maintenanceOf p = futureMaintenanceMargin (rp_def p) (rp_qty p) (rp_mark p) (rp_leverage p)"

definition initialOf :: "risk_position \<Rightarrow> int" where
  "initialOf p = futureMarginPerContract (rp_def p) (rp_mark p) (rp_leverage p) * \<bar>rp_qty p\<bar>"

lemma maintenance_le_initial:
  assumes "riskOk p"
  shows "0 \<le> maintenanceOf p \<and> maintenanceOf p \<le> initialOf p"
proof -
  let ?d = "rp_def p" and ?l = "rp_leverage p"
  let ?v = "rp_mark p * fd_unitValue ?d"
  have d: "?d \<in> set FUTURES" "leverageOk ?l" and m: "0 \<le> rp_mark p"
    using assms by (simp_all add: riskOk_def)
  note r = margin_rates [OF d]
  have v: "0 \<le> ?v" using m catalogue_unit [OF d(1)] by simp
  have eq: "maintenanceOf p = ceilBps (\<bar>rp_qty p\<bar> * ?v) (snd (futureMarginBps ?d ?l))"
    by (simp add: maintenanceOf_def futureMaintenanceMargin_def mult.assoc)
  have "maintenanceOf p \<le> \<bar>rp_qty p\<bar> * ceilBps ?v (snd (futureMarginBps ?d ?l))"
    unfolding eq using ceilBps_times [OF v r(1)] by simp
  also have "\<dots> \<le> \<bar>rp_qty p\<bar> * ceilBps ?v (fst (futureMarginBps ?d ?l))"
    using v r by (intro mult_left_mono) (auto simp: ceilBps_ceilDiv intro!: ceilDiv_mono mult_left_mono)
  also have "\<dots> = initialOf p"
    by (simp add: initialOf_def futureMarginPerContract_def mult.commute)
  finally show ?thesis
    using v r by (simp add: eq ceilBps_ceilDiv ceilDiv_bounds(3))
qed

text \<open>The loop adds the three amounts of every open position; a flat one adds nothing.\<close>

lemma pnl_flat [simp]: "rp_qty p = 0 \<Longrightarrow> pnlOf p = 0"
  by (simp add: pnlOf_def futureUnrealized_def)

lemma margins_flat [simp]: "rp_qty p = 0 \<Longrightarrow> maintenanceOf p = 0" "rp_qty p = 0 \<Longrightarrow> initialOf p = 0"
  by (simp_all add: maintenanceOf_def futureMaintenanceMargin_def initialOf_def ceilBps_def bigdiv_def)

lemma riskStep_eq:
  "rt_unrealized (riskStep p t) = rt_unrealized t + pnlOf p"
  "rt_maintenance (riskStep p t) = rt_maintenance t + maintenanceOf p"
  "rt_initial (riskStep p t) = rt_initial t + initialOf p"
  by (cases "rp_qty p = 0"; simp add: riskStep_def Let_def pnlOf_def maintenanceOf_def initialOf_def
      futureUnrealized_def futureMaintenanceMargin_def ceilBps_def bigdiv_def)+

lemma fold_riskStep:
  "rt_unrealized (fold riskStep ps t) = rt_unrealized t + sum_list (map pnlOf ps)"
  "rt_maintenance (fold riskStep ps t) = rt_maintenance t + sum_list (map maintenanceOf ps)"
  "rt_initial (fold riskStep ps t) = rt_initial t + sum_list (map initialOf ps)"
  by (induction ps arbitrary: t) (simp_all add: riskStep_eq)

text \<open>
  C35. The risk assessment of an account: equity is balance plus the profit of every open position
  minus the debt, the margins are the sums over the positions, the shortfall is the least deposit
  that brings the equity to the initial margin, and an account below its maintenance margin always
  has a positive shortfall (so a margin call always asks for money).
\<close>

theorem risk_assessment_sound:
  assumes "\<forall>p \<in> set ps. riskOk p"
  shows "ra_equity (assessFuturesRisk ps bal debt) = bal + sum_list (map pnlOf ps) - debt \<and>
    ra_maintenance (assessFuturesRisk ps bal debt) = sum_list (map maintenanceOf ps) \<and>
    ra_initial (assessFuturesRisk ps bal debt) = sum_list (map initialOf ps) \<and>
    ra_maintenance (assessFuturesRisk ps bal debt) \<le> ra_initial (assessFuturesRisk ps bal debt) \<and>
    (\<forall>x \<ge> 0. ra_shortfall (assessFuturesRisk ps bal debt) \<le> x \<longleftrightarrow>
       ra_initial (assessFuturesRisk ps (bal + x) debt) \<le> ra_equity (assessFuturesRisk ps (bal + x) debt)) \<and>
    (ra_belowMaintenance (assessFuturesRisk ps bal debt) \<longrightarrow>
       0 < ra_shortfall (assessFuturesRisk ps bal debt))"
proof -
  have "sum_list (map maintenanceOf ps) \<le> sum_list (map initialOf ps)"
    using assms maintenance_le_initial by (intro sum_list_mono) auto
  then show ?thesis
    by (auto simp: assessFuturesRisk_def Let_def fold_riskStep)
qed

definition demoRisk :: risk_position where
  "demoRisk = \<lparr>rp_def = FUTURES ! 0, rp_qty = -3, rp_entryValue = 264000, rp_marginHeld = 5742000,
     rp_mark = 90000, rp_leverage = None, rp_positionSide = SHORT_ROW\<rparr>"

lemma risk_assessment_sound_witness:
  "ra_equity (assessFuturesRisk [demoRisk] 4000000 0) = 3400000 \<and>
   0 < ra_shortfall (assessFuturesRisk [demoRisk] 4000000 0)"
proof -
  have ok: "\<forall>p \<in> set [demoRisk]. riskOk p"
    by (simp add: riskOk_def demoRisk_def leverageOk_iff FUTURES_def)
  have p: "pnlOf demoRisk = - 600000" "maintenanceOf demoRisk = 3915000" by code_simp+
  note r = risk_assessment_sound [OF ok, of 4000000 0]
  have e: "ra_equity (assessFuturesRisk [demoRisk] 4000000 0) = 3400000"
    and m: "ra_maintenance (assessFuturesRisk [demoRisk] 4000000 0) = 3915000"
    using r p by simp_all
  have "ra_belowMaintenance (assessFuturesRisk [demoRisk] 4000000 0)"
    using e m by (simp add: assessFuturesRisk_def Let_def)
  with r e show ?thesis by blast
qed

section \<open>Margin-call liquidation\<close>

text \<open>
  C36. The liquidation of a margin call closes the least number of contracts that is enough: at most
  the position and at least one; closing them reduces the initial margin, pro rata to the contracts,
  by at least the shortfall, and one contract fewer would not; a shortfall that reaches the whole
  initial margin closes the position.
\<close>

theorem liquidation_qty_minimal:
  assumes "qty \<noteq> 0" "0 < shortfall"
  shows "1 \<le> marginCallLiquidationQty qty shortfall initial \<and>
    marginCallLiquidationQty qty shortfall initial \<le> \<bar>qty\<bar> \<and>
    (initial \<le> shortfall \<longrightarrow> marginCallLiquidationQty qty shortfall initial = \<bar>qty\<bar>) \<and>
    (shortfall < initial \<longrightarrow>
       \<bar>qty\<bar> * shortfall \<le> marginCallLiquidationQty qty shortfall initial * initial \<and>
       (marginCallLiquidationQty qty shortfall initial - 1) * initial < \<bar>qty\<bar> * shortfall)"
proof (cases "initial \<le> shortfall")
  case True
  then show ?thesis using assms
    by (cases "initial \<le> 0") (auto simp: marginCallLiquidationQty_def Let_def)
next
  case False
  let ?a = "\<bar>qty\<bar> * shortfall"
  have a: "0 < ?a" "0 < initial" using assms False by auto
  have n: "bigdiv (?a + initial - 1) initial = ceilDiv ?a initial"
    by (simp add: ceilDiv_def algebra_simps)
  have le: "ceilDiv ?a initial \<le> \<bar>qty\<bar>"
    using a False by (subst ceilDiv_le_iff) (auto intro: mult_left_mono)
  have ge: "1 \<le> ceilDiv ?a initial" using ceilDiv_pos_iff [of ?a initial] a by linarith
  have m: "marginCallLiquidationQty qty shortfall initial = ceilDiv ?a initial"
    using assms False le ge a by (simp add: marginCallLiquidationQty_def Let_def n)
  show ?thesis
    unfolding m using ceilDiv_bounds(1,2) [of ?a initial] a False le ge
    by (auto simp: algebra_simps)
qed

lemma liquidation_qty_minimal_witness:
  "10 * 301 \<le> marginCallLiquidationQty (-10) 301 1000 * 1000 \<and>
   (marginCallLiquidationQty (-10) 301 1000 - 1) * 1000 < 10 * 301"
  using liquidation_qty_minimal [of "-10" 301 1000] by simp

section \<open>Mark price\<close>

lemma median3:
  "median [a, b, c] = max (min a b) (min (max a b) c)"
  by (auto simp: median_def Let_def min_def max_def)

lemma mathRound_mono: "x \<le> y \<Longrightarrow> mathRound x \<le> mathRound y"
  by (simp add: mathRound_def floor_mono)

text \<open>
  A single trade cannot move the mark price far: with an underlying price and some recent
  trades, whatever the last price is, the mark lies between the (rounded) underlying price and the
  (rounded) median of the recent trades; and when all three agree to a price in between, it is that
  price, rounded.
\<close>

theorem mark_price_robust:
  assumes "0 < u" "filter (\<lambda>p. p > 0) recent \<noteq> []"
  shows "of_int (mathRound (min u (median (filter (\<lambda>p. p > 0) recent)))) \<le> futureMarkPrice (Some u) recent last' \<and>
    futureMarkPrice (Some u) recent last' \<le> of_int (mathRound (max u (median (filter (\<lambda>p. p > 0) recent)))) \<and>
    (min u (median (filter (\<lambda>p. p > 0) recent)) \<le> last' \<and> last' \<le> max u (median (filter (\<lambda>p. p > 0) recent))
      \<longrightarrow> futureMarkPrice (Some u) recent last' = of_int (mathRound last'))"
proof -
  let ?m = "median (filter (\<lambda>p. p > 0) recent)"
  have eq: "futureMarkPrice (Some u) recent last' = of_int (mathRound (max (min u ?m) (min (max u ?m) last')))"
    using assms by (simp add: futureMarkPrice_def Let_def median3)
  show ?thesis
    unfolding eq by (auto intro!: mathRound_mono simp: max_def min_def)
qed

lemma mark_price_robust_witness:
  "futureMarkPrice (Some 100) [103, 500, 101] 900 \<le> 103"
proof -
  have "filter (\<lambda>p. p > 0) [103, 500, 101 :: rat] = [103, 500, 101]" by simp
  moreover have "median [103, 500, 101] = 103" by (simp add: median3)
  moreover have "mathRound 103 = 103" using mathRound_of_int [of 103] by simp
  ultimately show ?thesis using mark_price_robust [of 100 "[103, 500, 101]" 900] by simp
qed

section \<open>The daily clock\<close>

text \<open>The KST day a moment belongs to and the millisecond within it.\<close>

definition kstDay :: "int \<Rightarrow> int" where
  "kstDay now = (now + KST_OFFSET_MS) div DAY_MS"

definition kstMs :: "int \<Rightarrow> int" where
  "kstMs now = (now + KST_OFFSET_MS) mod DAY_MS"

definition clockOk :: "int \<Rightarrow> bool" where
  "clockOk now \<longleftrightarrow> 0 \<le> now \<and> now < 2 ^ 52"

lemma clock_day:
  assumes "clockOk now"
  shows "floorQuot (now + KST_OFFSET_MS) DAY_MS = kstDay now"
  using assms by (simp add: clockOk_def kstDay_def KST_OFFSET_MS_def DAY_MS_def floorQuot_eq)

lemma kst_split: "now + KST_OFFSET_MS = kstDay now * DAY_MS + kstMs now"
  by (simp add: kstDay_def kstMs_def)

lemma kstMs_range: "0 \<le> kstMs now" "kstMs now < DAY_MS"
  by (simp_all add: kstMs_def DAY_MS_def)

lemma clock_day_split:
  "clockOk now \<Longrightarrow> floorQuot (kstDay now * DAY_MS + kstMs now) DAY_MS = kstDay now"
  using clock_day [of now] by (simp add: kst_split [of now])

lemma kst_unique:
  assumes "t + KST_OFFSET_MS = d * DAY_MS + r" "0 \<le> r" "r < DAY_MS"
  shows "kstDay t = d" and "kstMs t = r"
  using assms by (simp_all add: kstDay_def kstMs_def DAY_MS_def)

lemma nextKstMinuteAt_eq:
  assumes "clockOk now"
  shows "nextKstMinuteAt m now =
    (kstDay now + (if m * 60000 \<le> kstMs now then 1 else 0)) * DAY_MS + m * 60000 - KST_OFFSET_MS"
  by (simp add: nextKstMinuteAt_def Let_def kst_split [of now] clock_day_split [OF assms] distrib_right)

lemma nextKstMinuteAt_spec:
  assumes "clockOk now" "0 \<le> m" "m < 1440"
  shows "now < nextKstMinuteAt m now" and "nextKstMinuteAt m now \<le> now + DAY_MS"
    and "kstMs (nextKstMinuteAt m now) = m * 60000"
    and "kstDay (nextKstMinuteAt m now) = kstDay now + (if m * 60000 \<le> kstMs now then 1 else 0)"
proof -
  note eq = nextKstMinuteAt_eq [OF assms(1), of m]
  have m: "0 \<le> m * 60000" "m * 60000 < DAY_MS" using assms by (simp_all add: DAY_MS_def)
  note r = kstMs_range [of now]
  show "now < nextKstMinuteAt m now" "nextKstMinuteAt m now \<le> now + DAY_MS"
    using kst_split [of now] r m by (auto simp: eq algebra_simps split: if_splits)
  have "nextKstMinuteAt m now + KST_OFFSET_MS =
    (kstDay now + (if m * 60000 \<le> kstMs now then 1 else 0)) * DAY_MS + m * 60000"
    by (simp add: eq)
  from kst_unique [OF this m]
  show "kstDay (nextKstMinuteAt m now) = kstDay now + (if m * 60000 \<le> kstMs now then 1 else 0)"
    "kstMs (nextKstMinuteAt m now) = m * 60000" .
qed

text \<open>
  The daily clock: the next settlement is strictly later than now, at most 24 hours away and at
  04:11:00.000 KST; today's settlement is reported due exactly when the next one belongs to the next
  trading day; the trading day is the KST date; and the options restrike gap is exactly the time in which the settlement of the day is
  over and the restrike comes before the next settlement.
\<close>

theorem daily_clock:
  assumes "clockOk now"
  shows "now < nextFuturesSettlementAt now \<and> nextFuturesSettlementAt now \<le> now + DAY_MS \<and>
    kstMs (nextFuturesSettlementAt now) = (4 * 60 + 11) * 60000 \<and>
    (futuresSettlementDue now \<longleftrightarrow>
       kstDay (nextFuturesSettlementAt now) = kstDay now + 1) \<and>
    futuresTradingDay now = isoDate (kstDay now) \<and>
    (inOptionsRestrikeGap now \<longleftrightarrow>
       futuresSettlementDue now \<and> kstDay (nextOptionsRestrikeAt now) = kstDay now)"
proof -
  let ?s = FUTURES_SETTLE_MINUTE_KST and ?r = OPTIONS_RESTRIKE_MINUTE_KST
  have m: "0 \<le> ?s" "?s < 1440" "0 \<le> ?r" "?r < 1440"
    by (simp_all add: FUTURES_SETTLE_MINUTE_KST_def OPTIONS_RESTRIKE_MINUTE_KST_def)
  note s = nextKstMinuteAt_spec [OF assms m(1,2)] and r = nextKstMinuteAt_spec [OF assms m(3,4)]
  have due: "futuresSettlementDue now \<longleftrightarrow> ?s * 60000 \<le> kstMs now"
    by (simp add: futuresSettlementDue_def Let_def kst_split [of now] clock_day_split [OF assms])
  have td: "futuresTradingDay now = isoDate (kstDay now)"
    by (simp add: futuresTradingDay_def kstDayNumber_def clock_day [OF assms])
  have "jsRem (now + KST_OFFSET_MS) DAY_MS = kstMs now"
    using assms by (simp add: jsRem_nonneg clockOk_def kstMs_def KST_OFFSET_MS_def DAY_MS_def)
  moreover have "floorQuot (kstMs now) 60000 = kstMs now div 60000"
    using kstMs_range [of now] by (intro floorQuot_eq) (simp_all add: DAY_MS_def)
  ultimately have gap: "inOptionsRestrikeGap now \<longleftrightarrow> ?s * 60000 \<le> kstMs now \<and> kstMs now < ?r * 60000"
    by (auto simp: inOptionsRestrikeGap_def Let_def FUTURES_SETTLE_MINUTE_KST_def OPTIONS_RESTRIKE_MINUTE_KST_def)
  show ?thesis
    unfolding due td gap nextFuturesSettlementAt_def nextOptionsRestrikeAt_def
    using s r by (auto simp: FUTURES_SETTLE_MINUTE_KST_def)
qed

lemma daily_clock_witness:
  "futuresTradingDay 1790000000000 = isoDate (kstDay 1790000000000) \<and>
    isoDate (kstDay 1790000000000) = ''2026-09-21''"
proof -
  have "isoDate (kstDay 1790000000000) = ''2026-09-21''" by code_simp
  then show ?thesis using daily_clock [of 1790000000000] by (simp add: clockOk_def)
qed

end
