(* ===== verification/Option_Rules.thy ===== *)
theory Option_Rules
  imports Exchange_Types
begin

text \<open>
  \<open>packages/shared/src/options.ts\<close>: the one-day option families, their series, the strike ladder
  laid out each day and extended during the day, intrinsic value, premium rounding and writer
  margins. Display names are left out; the Black-Scholes price (\<open>normCdf\<close>, \<open>optionTheoretical\<close>)
  depends on \<open>Math.exp\<close>, \<open>Math.log\<close> and \<open>Math.sqrt\<close>, which ECMAScript leaves to the
  implementation, and is not modelled. Prices are integer units.
\<close>

datatype option_type = CALL | PUT

record option_family =
  of_code :: string
  of_futures :: "string list"
  of_priceScale :: int
  of_decimals :: int
  of_tickUnits :: int
  of_unitValue :: int
  of_strikeStepUnits :: int
  of_writerMarginBps :: int
  of_reserve :: string
  of_retired :: bool
  of_strikes :: int

definition KCOM_COMPONENT_FUTURES :: "string list" where
  "KCOM_COMPONENT_FUTURES = [''OILF'', ''GASF'', ''CPRF'', ''GOLDF'', ''CORNF'']"

definition OPTION_FAMILIES :: "option_family list" where
  "OPTION_FAMILIES =
    [\<lparr>of_code = ''K'', of_futures = [''KABUF''], of_priceScale = 100, of_decimals = 2,
      of_tickUnits = 5, of_unitValue = 100, of_strikeStepUnits = 500, of_writerMarginBps = 800,
      of_reserve = ''OPT_KABU'', of_retired = False, of_strikes = 21\<rparr>,
     \<lparr>of_code = ''U'', of_futures = [''USDF''], of_priceScale = 10, of_decimals = 1,
      of_tickUnits = 1, of_unitValue = 1000, of_strikeStepUnits = 50, of_writerMarginBps = 300,
      of_reserve = ''OPT_USD'', of_retired = False, of_strikes = 11\<rparr>]"

definition RETIRED_OPTION_FAMILIES :: "option_family list" where
  "RETIRED_OPTION_FAMILIES =
    [\<lparr>of_code = ''KCOM'', of_futures = KCOM_COMPONENT_FUTURES, of_priceScale = 100, of_decimals = 2,
      of_tickUnits = 1, of_unitValue = 1000, of_strikeStepUnits = 50, of_writerMarginBps = 400,
      of_reserve = ''OPT_KCOM'', of_retired = True, of_strikes = 11\<rparr>]"

definition ALL_OPTION_FAMILIES :: "option_family list" where
  "ALL_OPTION_FAMILIES = OPTION_FAMILIES @ RETIRED_OPTION_FAMILIES"

text \<open>The number of strikes is odd in every family, so the halving below is exact.\<close>

definition atmSlot :: "option_family \<Rightarrow> int" where
  "atmSlot family = (of_strikes family + 1) div 2"

definition familySlots :: "option_family \<Rightarrow> int list" where
  "familySlots family = map (\<lambda>index. int index + 1) [0..<nat (of_strikes family)]"

section \<open>Series\<close>

record option_def =
  od_symbol :: string
  od_family :: option_family
  od_type :: option_type
  od_slot :: int
  od_priceScale :: int
  od_decimals :: int
  od_tickUnits :: int
  od_unitValue :: int

text \<open>A template literal prints a number in decimal.\<close>

fun showNat :: "nat \<Rightarrow> string" where
  "showNat n = (if n < 10 then [char_of (48 + n)] else showNat (n div 10) @ [char_of (48 + n mod 10)])"

declare showNat.simps [simp del, code del]

lemma char_of_digit: "n < 10 \<Longrightarrow> char_of (48 + n :: nat) = ''0123456789'' ! n"
proof -
  have "\<forall>n \<in> set [0..<10]. char_of (48 + n :: nat) = ''0123456789'' ! n" by code_simp
  then show "n < 10 \<Longrightarrow> char_of (48 + n :: nat) = ''0123456789'' ! n" by simp
qed

lemma showNat_code [code]:
  "showNat n = (if n < 10 then [''0123456789'' ! n] else showNat (n div 10) @ [''0123456789'' ! (n mod 10)])"
  by (simp add: showNat.simps [of n] char_of_digit)

definition seriesOf :: "option_family \<Rightarrow> option_def list" where
  "seriesOf family = concat (map (\<lambda>type. map (\<lambda>slot.
      \<lparr>od_symbol = of_code family @ (if type = CALL then ''C'' else ''P'') @ showNat (nat slot),
       od_family = family, od_type = type, od_slot = slot,
       od_priceScale = of_priceScale family, od_decimals = of_decimals family,
       od_tickUnits = of_tickUnits family, od_unitValue = of_unitValue family\<rparr>) (familySlots family))
    [CALL, PUT])"

definition OPTIONS :: "option_def list" where
  "OPTIONS = concat (map seriesOf OPTION_FAMILIES)"

definition RETIRED_OPTIONS :: "option_def list" where
  "RETIRED_OPTIONS = concat (map seriesOf RETIRED_OPTION_FAMILIES)"

definition ALL_OPTIONS :: "option_def list" where
  "ALL_OPTIONS = OPTIONS @ RETIRED_OPTIONS"

definition optionDef :: "string \<Rightarrow> option_def option" where
  "optionDef symbol = find (\<lambda>o'. od_symbol o' = symbol) ALL_OPTIONS"

definition isOption :: "string \<Rightarrow> bool" where
  "isOption symbol \<longleftrightarrow> symbol \<in> set (map od_symbol ALL_OPTIONS)"

lemma isOption_iff: "isOption s \<longleftrightarrow> optionDef s \<noteq> None"
  unfolding isOption_def optionDef_def by (auto simp: find_None_iff)

text \<open>
  Evaluation: every option symbol ends with the digits of its slot, so other symbols need no search.
\<close>

definition endsWithDigit :: "string \<Rightarrow> bool" where
  "endsWithDigit s \<longleftrightarrow> s \<noteq> [] \<and> last s \<in> set ''0123456789''"

lemma option_symbols_end: "\<forall>o' \<in> set ALL_OPTIONS. endsWithDigit (od_symbol o')"
  by code_simp

fun searchOption :: "bool \<Rightarrow> string \<Rightarrow> option_def option" where
  "searchOption True s = find (\<lambda>o'. od_symbol o' = s) ALL_OPTIONS"
| "searchOption False s = None"

lemma optionDef_code [code]: "optionDef s = searchOption (endsWithDigit s) s"
  using option_symbols_end by (cases "endsWithDigit s") (auto simp: optionDef_def find_None_iff)

lemma isOption_code [code]: "isOption s \<longleftrightarrow> \<not> Option.is_none (optionDef s)"
  by (simp add: isOption_iff Option.is_none_def)

definition optionFamily :: "string \<Rightarrow> option_family option" where
  "optionFamily code = find (\<lambda>f. of_code f = code) ALL_OPTION_FAMILIES"

section \<open>Underlying and strikes\<close>

text \<open>The loop over the component futures: it stops with \<open>null\<close> at a price missing or not positive.\<close>

fun sumPrices :: "(string \<Rightarrow> int option) \<Rightarrow> string list \<Rightarrow> int \<Rightarrow> int option" where
  "sumPrices pricesByFuture [] acc = Some acc"
| "sumPrices pricesByFuture (symbol # rest) acc =
     (case pricesByFuture symbol of
        None \<Rightarrow> None
      | Some value \<Rightarrow> if value > 0 then sumPrices pricesByFuture rest (acc + value) else None)"

definition optionUnderlyingUnits :: "option_family \<Rightarrow> (string \<Rightarrow> int option) \<Rightarrow> int option" where
  "optionUnderlyingUnits family pricesByFuture =
     (case sumPrices pricesByFuture (of_futures family) 0 of
        None \<Rightarrow> None
      | Some acc \<Rightarrow>
          if 0 < length (of_futures family) then Some (roundQuot acc (int (length (of_futures family))))
          else None)"

definition atmStrike :: "option_family \<Rightarrow> int \<Rightarrow> int" where
  "atmStrike family underlyingUnits =
     max (of_strikeStepUnits family)
       (roundQuot underlyingUnits (of_strikeStepUnits family) * of_strikeStepUnits family)"

definition strikeForSlot :: "option_family \<Rightarrow> int \<Rightarrow> int \<Rightarrow> int" where
  "strikeForSlot family atm slot =
     max (of_strikeStepUnits family) (atm + (slot - atmSlot family) * of_strikeStepUnits family)"

text \<open>
  The loop of \<open>extendStrikeLadder\<close>. It does not end for a step of 0, so it is a partial function:
  \<open>None\<close> is the loop that never returns.
\<close>

partial_function (option) extendLoop ::
  "int \<Rightarrow> int \<Rightarrow> int \<Rightarrow> int \<Rightarrow> int list \<Rightarrow> int list \<Rightarrow> bool \<Rightarrow> int list option" where
  "extendLoop step count low high taken out below =
     (if int (length out) < count then
        let next = (if below then low - step else high + step)
        in if below \<and> next < step then extendLoop step count low high taken out False
           else let low' = (if below then next else low);
                    high' = (if below then high else next)
                in if next \<notin> set taken
                   then extendLoop step count low' high' (next # taken) (out @ [next]) (\<not> below)
                   else extendLoop step count low' high' taken out (\<not> below)
      else Some out)"

definition extendStrikeLadder :: "option_family \<Rightarrow> int list \<Rightarrow> int \<Rightarrow> int list option" where
  "extendStrikeLadder family existing count =
     (if existing = [] \<or> count \<le> 0 then Some []
      else extendLoop (of_strikeStepUnits family) count (Min (set existing)) (Max (set existing))
             existing [] True)"

section \<open>Value and margin\<close>

definition optionIntrinsic :: "option_type \<Rightarrow> int \<Rightarrow> int \<Rightarrow> int" where
  "optionIntrinsic type underlying strike =
     max 0 (if type = CALL then underlying - strike else strike - underlying)"

text \<open>\<open>value\<close> is a \<open>number\<close> that need not be an integer; the product of the rounded quotient with the
  tick is a product of integers.\<close>

definition roundPremium :: "int \<Rightarrow> rat \<Rightarrow> int" where
  "roundPremium tickUnits value = max tickUnits (mathRound (jsDiv value (of_int tickUnits)) * tickUnits)"

definition optionWriterMarginPerContract :: "option_def \<Rightarrow> int \<Rightarrow> int" where
  "optionWriterMarginPerContract def' strike =
     (let numerator = strike * od_unitValue def' * of_writerMarginBps (od_family def')
      in bigdiv (numerator + 9999) 10000)"

definition optionPositionMargin :: "option_def \<Rightarrow> int \<Rightarrow> int \<Rightarrow> int" where
  "optionPositionMargin def' qty strike =
     (if qty < 0 then optionWriterMarginPerContract def' strike * (- qty) else 0)"

section \<open>Properties\<close>

lemma families_odd: "\<forall>f \<in> set ALL_OPTION_FAMILIES. odd (of_strikes f) \<and> 0 < of_strikeStepUnits f"
  by (simp add: ALL_OPTION_FAMILIES_def OPTION_FAMILIES_def RETIRED_OPTION_FAMILIES_def)

text \<open>
  One round of the loop, on a ladder that lies between \<open>low\<close> and \<open>high\<close>: the next strike is outside
  it, so it is always new.
\<close>

definition ladderInv :: "int \<Rightarrow> int list \<Rightarrow> int \<Rightarrow> int \<Rightarrow> int list \<Rightarrow> int list \<Rightarrow> bool" where
  "ladderInv step existing low high taken out \<longleftrightarrow>
     set taken = set existing \<union> set out \<and> (\<forall>x \<in> set taken. low \<le> x \<and> x \<le> high) \<and>
     distinct out \<and> set out \<inter> set existing = {} \<and>
     (\<forall>x \<in> set out. step dvd (x - Min (set existing)) \<or> step dvd (x - Max (set existing))) \<and>
     step dvd (low - Min (set existing)) \<and> step dvd (high - Max (set existing)) \<and>
     low \<le> high \<and> step \<le> high \<and> (\<forall>x \<in> set out. step \<le> x)"

lemma ladder_push:
  assumes inv: "ladderInv step existing low high taken out" and "0 < step"
    and nx: "next = (if below then low - step else high + step)" and "below \<longrightarrow> step \<le> next"
  shows "next \<notin> set taken"
    and "ladderInv step existing (if below then next else low) (if below then high else next)
      (next # taken) (out @ [next])"
proof -
  have out': "next < low \<or> high < next" using assms(2) nx by auto
  have within: "\<forall>x \<in> set taken. low \<le> x \<and> x \<le> high" using inv by (simp add: ladderInv_def)
  show new: "next \<notin> set taken" using out' within by force
  have lo: "step dvd (low - Min (set existing))" and hi: "step dvd (high - Max (set existing))"
    using inv by (simp_all add: ladderInv_def)
  have d1: "step dvd (low - step - Min (set existing))"
    using dvd_diff [OF lo dvd_refl] by (simp add: algebra_simps)
  have d2: "step dvd (high + step - Max (set existing))"
    using dvd_add [OF hi dvd_refl] by (simp add: algebra_simps)
  show "ladderInv step existing (if below then next else low) (if below then high else next)
      (next # taken) (out @ [next])"
    unfolding ladderInv_def
  proof (intro conjI)
    show "\<forall>x \<in> set (next # taken). (if below then next else low) \<le> x \<and>
        x \<le> (if below then high else next)"
    proof
      fix x assume "x \<in> set (next # taken)"
      then have "x = next \<or> low \<le> x \<and> x \<le> high" using within by auto
      then show "(if below then next else low) \<le> x \<and> x \<le> (if below then high else next)"
        using assms(2) inv by (auto simp: nx ladderInv_def)
    qed
  qed (use inv new assms(2,4) nx d1 d2 in \<open>auto simp: ladderInv_def split: if_splits\<close>)
qed

definition ladderResult :: "int \<Rightarrow> int list \<Rightarrow> int \<Rightarrow> int list \<Rightarrow> bool" where
  "ladderResult step existing count out \<longleftrightarrow>
     int (length out) = count \<and> distinct out \<and> set out \<inter> set existing = {} \<and>
     (\<forall>x \<in> set out. step \<le> x \<and>
        (step dvd (x - Min (set existing)) \<or> step dvd (x - Max (set existing))))"

lemma extendLoop_done:
  "\<not> int (length out) < count \<Longrightarrow> extendLoop step count low high taken out below = Some out"
  by (subst extendLoop.simps) simp

lemma extendLoop_returns:
  assumes "ladderInv step existing low high taken out" "0 < step" "int (length out) \<le> count"
  shows "\<exists>out'. extendLoop step count low high taken out below = Some out' \<and>
    ladderResult step existing count out'"
  using assms
proof (induction "2 * nat (count - int (length out)) + (if below then 1 else 0)"
    arbitrary: low high taken out below rule: less_induct)
  case less
  show ?case
  proof (cases "int (length out) < count")
    case False
    then show ?thesis using less.prems by (auto simp: extendLoop_done ladderResult_def ladderInv_def)
  next
    case more: True
    define nx where "nx = (if below then low - step else high + step)"
    show ?thesis
    proof (cases "below \<and> nx < step")
      case True
      then have "extendLoop step count low high taken out below =
          extendLoop step count low high taken out False"
        using more True by (subst extendLoop.simps) (auto simp: nx_def Let_def)
      then show ?thesis using less.hyps [of out False] less.prems True by simp
    next
      case False
      then have b: "below \<longrightarrow> step \<le> nx" by auto
      note push = ladder_push [OF less.prems(1,2) nx_def b]
      have "extendLoop step count low high taken out below =
          extendLoop step count (if below then nx else low) (if below then high else nx)
            (nx # taken) (out @ [nx]) (\<not> below)"
        using more False push(1) by (subst extendLoop.simps) (auto simp: nx_def Let_def)
      moreover have "2 * nat (count - int (length (out @ [nx]))) + (if \<not> below then 1 else 0) <
          2 * nat (count - int (length out)) + (if below then 1 else 0)"
        using more by auto
      moreover have "int (length (out @ [nx])) \<le> count" using more by simp
      ultimately show ?thesis using less.hyps [OF _ push(2) less.prems(2)] by metis
    qed
  qed
qed

text \<open>
  C37. Widening the strike ladder during the day terminates and gives exactly the number of strikes
  asked for: all different, none of them already taken, none below one step, and each on the grid of
  the existing ladder's lowest or highest strike.
\<close>

theorem extend_ladder_total:
  assumes "0 < of_strikeStepUnits f" "existing \<noteq> []" "of_strikeStepUnits f \<le> Max (set existing)" "0 \<le> count"
  shows "\<exists>out. extendStrikeLadder f existing count = Some out \<and>
    ladderResult (of_strikeStepUnits f) existing count out"
proof (cases "count \<le> 0")
  case True
  then show ?thesis using assms by (simp add: extendStrikeLadder_def ladderResult_def)
next
  case False
  have "ladderInv (of_strikeStepUnits f) existing (Min (set existing)) (Max (set existing)) existing []"
    using assms by (auto simp: ladderInv_def)
  from extendLoop_returns [OF this assms(1)] False assms(2) show ?thesis
    by (simp add: extendStrikeLadder_def)
qed

lemma extend_ladder_total_witness:
  "\<exists>out. extendStrikeLadder (OPTION_FAMILIES ! 1) [100, 150, 200] 5 = Some out \<and> length out = 5"
  using extend_ladder_total [of "OPTION_FAMILIES ! 1" "[100, 150, 200]" 5]
  by (auto simp: OPTION_FAMILIES_def ladderResult_def)

text \<open>
  The strikes laid out around the at-the-money strike: the middle slot is that strike itself,
  which lies within half a step of the underlying (or is one whole step, for a smaller underlying);
  every strike is at least one step and a multiple of it; neighbouring strikes differ by exactly one
  step, or are both the lowest strike.
\<close>

theorem strike_layout:
  assumes "f \<in> set ALL_OPTION_FAMILIES" "0 \<le> u" "u < 2 ^ 50"
  shows "strikeForSlot f (atmStrike f u) (atmSlot f) = atmStrike f u \<and>
    (of_strikeStepUnits f \<le> atmStrike f u \<and> of_strikeStepUnits f dvd atmStrike f u) \<and>
    (of_strikeStepUnits f \<le> 2 * u \<longrightarrow> 2 * \<bar>atmStrike f u - u\<bar> \<le> of_strikeStepUnits f) \<and>
    (\<forall>slot. of_strikeStepUnits f \<le> strikeForSlot f (atmStrike f u) slot \<and>
       of_strikeStepUnits f dvd strikeForSlot f (atmStrike f u) slot \<and>
       (strikeForSlot f (atmStrike f u) (slot + 1) - strikeForSlot f (atmStrike f u) slot
          \<in> {0, of_strikeStepUnits f}) \<and>
       (of_strikeStepUnits f \<le> atmStrike f u + (slot - atmSlot f) * of_strikeStepUnits f \<longrightarrow>
          strikeForSlot f (atmStrike f u) (slot + 1) =
          strikeForSlot f (atmStrike f u) slot + of_strikeStepUnits f))"
proof -
  let ?s = "of_strikeStepUnits f" and ?c = "atmSlot f"
  have s: "0 < ?s" using families_odd assms(1) by auto
  define r where "r = (2 * u + ?s) div (2 * ?s)"
  have r: "roundQuot u ?s = r" using assms s by (simp add: r_def roundQuot_eq)
  have r0: "0 \<le> r" unfolding r_def using assms s by (simp add: pos_imp_zdiv_nonneg_iff)
  have m: "2 * u + ?s = 2 * ?s * r + (2 * u + ?s) mod (2 * ?s)" by (simp add: r_def)
  have mr: "0 \<le> (2 * u + ?s) mod (2 * ?s)" "(2 * u + ?s) mod (2 * ?s) < 2 * ?s" using s by simp_all
  have atm: "atmStrike f u = max ?s (r * ?s)" by (simp add: atmStrike_def r)
  have near: "2 * \<bar>atmStrike f u - u\<bar> \<le> ?s" if "?s \<le> 2 * u"
  proof -
    have "0 < r"
    proof (rule ccontr)
      assume "\<not> 0 < r"
      then have "r = 0" using r0 by simp
      then show False using m mr that by simp
    qed
    then have "1 * ?s \<le> r * ?s" using s by (intro mult_right_mono) auto
    then have "atmStrike f u = r * ?s" by (simp add: atm)
    moreover have "2 * (r * ?s) \<le> 2 * u + ?s" "2 * u + ?s < 2 * (r * ?s) + 2 * ?s"
      using m mr by (simp_all add: mult.commute mult.left_commute)
    ultimately show ?thesis
      by (cases "u \<le> atmStrike f u") (simp_all add: abs_if)
  qed
  have dv: "?s dvd atmStrike f u" by (simp add: atm max_def)
  have ge: "?s \<le> atmStrike f u" by (simp add: atm)
  have st: "strikeForSlot f (atmStrike f u) k = max ?s (atmStrike f u + (k - ?c) * ?s)" for k
    by (simp add: strikeForSlot_def)
  have dk: "?s dvd max ?s (atmStrike f u + (k - ?c) * ?s)" for k
    using dv by (simp add: max_def)
  obtain q where q: "atmStrike f u = ?s * q" using dv by blast
  have mult: "?s \<le> ?s * n \<longleftrightarrow> 1 \<le> n" for n
    using s by (metis mult.right_neutral mult_le_cancel_left_pos)
  have step: "max ?s (atmStrike f u + (k + 1 - ?c) * ?s) - max ?s (atmStrike f u + (k - ?c) * ?s) \<in> {0, ?s} \<and>
      (?s \<le> atmStrike f u + (k - ?c) * ?s \<longrightarrow>
        max ?s (atmStrike f u + (k + 1 - ?c) * ?s) = max ?s (atmStrike f u + (k - ?c) * ?s) + ?s)" for k
  proof -
    have e: "atmStrike f u + (k - ?c) * ?s = ?s * (q + k - ?c)"
      "atmStrike f u + (k + 1 - ?c) * ?s = ?s * (q + k - ?c) + ?s"
      by (simp_all add: q algebra_simps)
    show ?thesis
    proof (cases "1 \<le> q + k - ?c")
      case True
      then show ?thesis unfolding e using s mult by auto
    next
      case False
      then have "q + k - ?c \<le> 0" by simp
      then have "?s * (q + k - ?c) \<le> 0" using s by (simp add: mult_nonneg_nonpos)
      then show ?thesis unfolding e using s False mult [of "q + k - ?c"] by auto
    qed
  qed
  show ?thesis
    using near dv ge dk step unfolding st by (auto simp: max_def)
qed

lemma strike_layout_witness:
  "strikeForSlot (OPTION_FAMILIES ! 0) (atmStrike (OPTION_FAMILIES ! 0) 110140) 11 =
   atmStrike (OPTION_FAMILIES ! 0) 110140 \<and>
   2 * \<bar>atmStrike (OPTION_FAMILIES ! 0) 110140 - 110140\<bar> \<le> 500"
  using strike_layout [of "OPTION_FAMILIES ! 0" 110140]
  by (auto simp: OPTION_FAMILIES_def ALL_OPTION_FAMILIES_def atmSlot_def)

end
