(* ===== verification/Market_Constants.thy ===== *)
theory Market_Constants
  imports Futures_Rules Option_Rules
begin

text \<open>
  \<open>packages/shared/src/constants.ts\<close>: the listings, the tick sizes, the index and its epochs, the
  liquidity reserve accounts, the Redis names and their socket rooms, the candle intervals. Display
  names and the nickname rules (a Unicode regular expression) are left out.
\<close>

definition SIGNUP_BONUS :: int where "SIGNUP_BONUS = 10000000"

record symbol_def =
  sd_symbol :: string
  sd_initialPrice :: int
  sd_tickSize :: int
  sd_listedShares :: int

definition SYMBOLS :: "symbol_def list" where
  "SYMBOLS =
    [\<lparr>sd_symbol = ''KABU'', sd_initialPrice = 120000, sd_tickSize = 100, sd_listedShares = 10000000\<rparr>,
     \<lparr>sd_symbol = ''SAKU'', sd_initialPrice = 300000, sd_tickSize = 500, sd_listedShares = 4000000\<rparr>,
     \<lparr>sd_symbol = ''NEKO'', sd_initialPrice = 25000, sd_tickSize = 50, sd_listedShares = 48000000\<rparr>,
     \<lparr>sd_symbol = ''BORI'', sd_initialPrice = 4000, sd_tickSize = 5, sd_listedShares = 300000000\<rparr>,
     \<lparr>sd_symbol = ''BJAY'', sd_initialPrice = 20000, sd_tickSize = 50, sd_listedShares = 60000000\<rparr>,
     \<lparr>sd_symbol = ''SKYL'', sd_initialPrice = 40000, sd_tickSize = 50, sd_listedShares = 30000000\<rparr>,
     \<lparr>sd_symbol = ''DAON'', sd_initialPrice = 400000, sd_tickSize = 500, sd_listedShares = 3000000\<rparr>,
     \<lparr>sd_symbol = ''DDAM'', sd_initialPrice = 1500, sd_tickSize = 1, sd_listedShares = 800000000\<rparr>,
     \<lparr>sd_symbol = ''SAEM'', sd_initialPrice = 12000, sd_tickSize = 10, sd_listedShares = 100000000\<rparr>,
     \<lparr>sd_symbol = ''STEL'', sd_initialPrice = 30000, sd_tickSize = 50, sd_listedShares = 40000000\<rparr>,
     \<lparr>sd_symbol = ''SLVR'', sd_initialPrice = 80000, sd_tickSize = 100, sd_listedShares = 15000000\<rparr>,
     \<lparr>sd_symbol = ''NOVA'', sd_initialPrice = 600000, sd_tickSize = 1000, sd_listedShares = 2000000\<rparr>,
     \<lparr>sd_symbol = ''NRFD'', sd_initialPrice = 150000, sd_tickSize = 100, sd_listedShares = 8000000\<rparr>,
     \<lparr>sd_symbol = ''GARM'', sd_initialPrice = 6000, sd_tickSize = 10, sd_listedShares = 200000000\<rparr>,
     \<lparr>sd_symbol = ''HAVN'', sd_initialPrice = 5000, sd_tickSize = 10, sd_listedShares = 240000000\<rparr>]"

definition DELISTED_SYMBOLS :: "symbol_def list" where
  "DELISTED_SYMBOLS =
    [\<lparr>sd_symbol = ''MOCK'', sd_initialPrice = 50000, sd_tickSize = 50, sd_listedShares = 24000000\<rparr>,
     \<lparr>sd_symbol = ''TANU'', sd_initialPrice = 8000, sd_tickSize = 10, sd_listedShares = 150000000\<rparr>,
     \<lparr>sd_symbol = ''PIXL'', sd_initialPrice = 60000, sd_tickSize = 100, sd_listedShares = 20000000\<rparr>]"

section \<open>Index\<close>

definition INDEX_BASE_LEVEL :: int where "INDEX_BASE_LEVEL = 1000"

record index_epoch =
  ie_startsAt :: int
  ie_divisor :: rat
  ie_members :: "string list"

definition indexLevel :: "index_epoch \<Rightarrow> (string \<Rightarrow> rat) \<Rightarrow> (string \<Rightarrow> rat) \<Rightarrow> rat" where
  "indexLevel epoch priceOf sharesOf =
     (let cap = fold (\<lambda>symbol cap. jsAdd cap (jsMul (priceOf symbol) (sharesOf symbol))) (ie_members epoch) 0
      in jsDiv cap (ie_divisor epoch))"

definition continuingDivisor :: "rat \<Rightarrow> rat \<Rightarrow> rat" where
  "continuingDivisor capAfter levelBefore = jsDiv capAfter levelBefore"

text \<open>The loop of \<open>epochAt\<close>, with the epoch found so far; it breaks at the first later epoch.\<close>

fun epochLoop :: "int \<Rightarrow> index_epoch list \<Rightarrow> index_epoch option \<Rightarrow> index_epoch option" where
  "epochLoop ts [] found = found"
| "epochLoop ts (epoch # rest) found =
     (if ie_startsAt epoch \<le> ts then epochLoop ts rest (Some epoch) else found)"

definition epochAt :: "index_epoch list \<Rightarrow> int \<Rightarrow> index_epoch option" where
  "epochAt epochs ts = epochLoop ts epochs None"

section \<open>Orders\<close>

definition MAX_ORDER_QTY :: int where "MAX_ORDER_QTY = 10000000"

definition MAX_ORDER_PRICE :: int where "MAX_ORDER_PRICE = 1000000000"

text \<open>\<open>a ?? b\<close>\<close>

definition orElse :: "'a option \<Rightarrow> 'a option \<Rightarrow> 'a option" where
  "orElse a b = (case a of None \<Rightarrow> b | Some x \<Rightarrow> Some x)"

definition tickSizeOf :: "string \<Rightarrow> int option" where
  "tickSizeOf symbol =
     orElse (map_option sd_tickSize (find (\<lambda>d. sd_symbol d = symbol) SYMBOLS))
       (orElse (map_option fd_tickUnits (futureDef symbol)) (map_option od_tickUnits (optionDef symbol)))"

definition TRADABLE_SYMBOLS :: "string list" where
  "TRADABLE_SYMBOLS = map sd_symbol SYMBOLS @ map fd_symbol FUTURES @ map od_symbol ALL_OPTIONS"

text \<open>The same list spelled out, for evaluation.\<close>

lemma TRADABLE_SYMBOLS_code [code]:
  "TRADABLE_SYMBOLS =
    [''KABU'', ''SAKU'', ''NEKO'', ''BORI'', ''BJAY'', ''SKYL'', ''DAON'',
     ''DDAM'', ''SAEM'', ''STEL'', ''SLVR'', ''NOVA'', ''NRFD'', ''GARM'',
     ''HAVN'', ''KABUF'', ''USDF'', ''OILF'', ''GASF'', ''CPRF'', ''GOLDF'',
     ''CORNF'', ''KC1'', ''KC2'', ''KC3'', ''KC4'', ''KC5'', ''KC6'', ''KC7'',
     ''KC8'', ''KC9'', ''KC10'', ''KC11'', ''KC12'', ''KC13'', ''KC14'',
     ''KC15'', ''KC16'', ''KC17'', ''KC18'', ''KC19'', ''KC20'', ''KC21'',
     ''KP1'', ''KP2'', ''KP3'', ''KP4'', ''KP5'', ''KP6'', ''KP7'', ''KP8'',
     ''KP9'', ''KP10'', ''KP11'', ''KP12'', ''KP13'', ''KP14'', ''KP15'',
     ''KP16'', ''KP17'', ''KP18'', ''KP19'', ''KP20'', ''KP21'', ''UC1'',
     ''UC2'', ''UC3'', ''UC4'', ''UC5'', ''UC6'', ''UC7'', ''UC8'', ''UC9'',
     ''UC10'', ''UC11'', ''UP1'', ''UP2'', ''UP3'', ''UP4'', ''UP5'', ''UP6'',
     ''UP7'', ''UP8'', ''UP9'', ''UP10'', ''UP11'', ''KCOMC1'', ''KCOMC2'',
     ''KCOMC3'', ''KCOMC4'', ''KCOMC5'', ''KCOMC6'', ''KCOMC7'', ''KCOMC8'',
     ''KCOMC9'', ''KCOMC10'', ''KCOMC11'', ''KCOMP1'', ''KCOMP2'', ''KCOMP3'',
     ''KCOMP4'', ''KCOMP5'', ''KCOMP6'', ''KCOMP7'', ''KCOMP8'', ''KCOMP9'',
     ''KCOMP10'', ''KCOMP11'']"
  by code_simp

definition isOnTick :: "rat \<Rightarrow> int \<Rightarrow> bool" where
  "isOnTick price tickSize \<longleftrightarrow>
     price = of_int \<lfloor>price\<rfloor> \<and> tickSize > 0 \<and> jsRem \<lfloor>price\<rfloor> tickSize = 0"

section \<open>Liquidity reserve\<close>

definition LIQUIDITY_RESERVE_START_INDEX :: int where "LIQUIDITY_RESERVE_START_INDEX = 16"

definition LIQUIDITY_RESERVE_ORDER :: "string list" where
  "LIQUIDITY_RESERVE_ORDER =
    [''MOCK'', ''KABU'', ''TANU'', ''SAKU'', ''NEKO'', ''BORI'', ''BJAY'', ''SKYL'', ''PIXL'', ''DAON'',
     ''DDAM'', ''SAEM'', ''STEL'', ''SLVR'', ''NOVA'', ''NRFD'', ''GARM'', ''HAVN'',
     ''KABUF'', ''USDF'', ''OILF'', ''GASF'', ''CPRF'',
     ''GOLDF'', ''CORNF'',
     ''OPT_KABU'', ''OPT_USD'',
     ''OPT_KCOM'']"

fun indexOf :: "'a list \<Rightarrow> 'a \<Rightarrow> int" where
  "indexOf [] x = -1"
| "indexOf (y # ys) x = (if y = x then 0 else let i = indexOf ys x in if i < 0 then -1 else i + 1)"

definition liquidityReserveBotNumber :: "string \<Rightarrow> int option" where
  "liquidityReserveBotNumber symbol =
     (let index = indexOf LIQUIDITY_RESERVE_ORDER symbol
      in if index < 0 then None else Some (LIQUIDITY_RESERVE_START_INDEX + index))"

definition LIQUIDITY_TARGET_NOTIONAL_PER_SIDE :: int where
  "LIQUIDITY_TARGET_NOTIONAL_PER_SIDE = 120000000"

definition LIQUIDITY_MIN_TOTAL_QTY :: int where "LIQUIDITY_MIN_TOTAL_QTY = 120"

definition LIQUIDITY_MAX_TOTAL_QTY :: int where "LIQUIDITY_MAX_TOTAL_QTY = 2000000"

text \<open>A price that is not a finite positive number counts as 1; \<open>None\<close> is one that is not finite.\<close>

definition liquidityTotalQtyForPrice :: "rat option \<Rightarrow> int" where
  "liquidityTotalQtyForPrice referencePrice =
     (let price = (case referencePrice of Some p \<Rightarrow> if p > 0 then p else 1 | None \<Rightarrow> 1);
          raw = mathRound (jsDiv (of_int LIQUIDITY_TARGET_NOTIONAL_PER_SIDE) price)
      in min LIQUIDITY_MAX_TOTAL_QTY (max LIQUIDITY_MIN_TOTAL_QTY raw))"

section \<open>Redis names\<close>

definition REDIS_NAMESPACE :: string where "REDIS_NAMESPACE = ''mock-kabu2''"

definition redisKey :: "string \<Rightarrow> string" where
  "redisKey key = REDIS_NAMESPACE @ '':'' @ key"

definition SOCKET_CHANNEL_PREFIXES :: "string list" where
  "SOCKET_CHANNEL_PREFIXES = [''orderbook:'', ''trades:'', ''account:'', ''news:'', ''ref:'']"

definition STREAMS_ORDERS :: string where "STREAMS_ORDERS = redisKey ''streams:orders''"

definition STREAMS_TRADES :: string where "STREAMS_TRADES = redisKey ''streams:trades''"

text \<open>\<open>CHANNELS\<close> and \<open>KEYS\<close>: what a name stands for, and the name.\<close>

datatype channel =
    ChOrderbook string | ChTrades string | ChAccount string | ChNews string | ChReference string

fun CHANNELS :: "channel \<Rightarrow> string" where
  "CHANNELS (ChOrderbook symbol) = redisKey (''orderbook:'' @ symbol)"
| "CHANNELS (ChTrades symbol) = redisKey (''trades:'' @ symbol)"
| "CHANNELS (ChAccount accountId) = redisKey (''account:'' @ accountId)"
| "CHANNELS (ChNews scope) = redisKey (''news:'' @ scope)"
| "CHANNELS (ChReference code) = redisKey (''ref:'' @ code)"

datatype cache_key =
    OrderbookSnapshot string | ReferenceLatest string | Heartbeat string | WorkerHealth string
  | LeaderLease string | LoginAttempts string | OrderIdempotency string string
  | CancelRequested string | ManualMaintenance | NewsForceQueue

fun KEYS :: "cache_key \<Rightarrow> string" where
  "KEYS (OrderbookSnapshot symbol) = redisKey (''snapshot:orderbook:'' @ symbol)"
| "KEYS (ReferenceLatest code) = redisKey (''snapshot:ref:'' @ code)"
| "KEYS (Heartbeat worker) = redisKey (''heartbeat:'' @ worker)"
| "KEYS (WorkerHealth worker) = redisKey (''heartbeat-status:'' @ worker)"
| "KEYS (LeaderLease worker) = redisKey (''lease:'' @ worker)"
| "KEYS (LoginAttempts src) = redisKey (''ratelimit:login:'' @ src)"
| "KEYS (OrderIdempotency accountId key) = redisKey (''idempotency:order:'' @ accountId @ '':'' @ key)"
| "KEYS (CancelRequested orderId) = redisKey (''cancel-requested:'' @ orderId)"
| "KEYS ManualMaintenance = redisKey ''maintenance:manual''"
| "KEYS NewsForceQueue = redisKey ''news:force''"

definition startsWith :: "string \<Rightarrow> string \<Rightarrow> bool" where
  "startsWith s pre \<longleftrightarrow> take (length pre) s = pre"

definition toSocketChannel :: "string \<Rightarrow> string option" where
  "toSocketChannel redisChannel =
     (let pre = REDIS_NAMESPACE @ '':''
      in if \<not> startsWith redisChannel pre then None
         else let channel = drop (length pre) redisChannel
              in if (\<exists>candidate \<in> set SOCKET_CHANNEL_PREFIXES. startsWith channel candidate)
                 then Some channel else None)"

section \<open>Candles\<close>

record candle_interval =
  ci_id :: string
  ci_seconds :: int

definition CANDLE_INTERVALS :: "candle_interval list" where
  "CANDLE_INTERVALS =
    [\<lparr>ci_id = ''1m'', ci_seconds = 60\<rparr>, \<lparr>ci_id = ''5m'', ci_seconds = 300\<rparr>,
     \<lparr>ci_id = ''15m'', ci_seconds = 900\<rparr>, \<lparr>ci_id = ''1h'', ci_seconds = 3600\<rparr>,
     \<lparr>ci_id = ''4h'', ci_seconds = 14400\<rparr>, \<lparr>ci_id = ''1d'', ci_seconds = 86400\<rparr>]"

definition BASE_CANDLE_INTERVAL :: string where "BASE_CANDLE_INTERVAL = ''1m''"

definition ROLLUP_CANDLE_INTERVAL :: string where "ROLLUP_CANDLE_INTERVAL = ''1h''"

definition candleIntervalSeconds :: "string \<Rightarrow> int option" where
  "candleIntervalSeconds i = map_option ci_seconds (find (\<lambda>c. ci_id c = i) CANDLE_INTERVALS)"

end
