(* ===== verification/Market_Props.thy ===== *)
theory Market_Props
  imports Market_Constants
begin

text \<open>
  What the constants of the market promise: every tradable symbol has one kind and one tick size,
  reserve accounts are not shared, Redis names map to socket rooms as intended, an index epoch is the
  last one that started.
\<close>

section \<open>Listings\<close>

lemma find_symbol_iff: "(find (\<lambda>x. f x = s) xs \<noteq> None) = (s \<in> set (map f xs))"
  by (auto simp: find_None_iff)

lemma futureDef_iff: "futureDef s \<noteq> None \<longleftrightarrow> isFuture s"
  unfolding futureDef_def isFuture_def by (rule find_symbol_iff)

lemma optionDef_iff: "optionDef s \<noteq> None \<longleftrightarrow> isOption s"
  unfolding optionDef_def isOption_def by (rule find_symbol_iff)

lemma orElse_not_None: "orElse a b \<noteq> None \<longleftrightarrow> a \<noteq> None \<or> b \<noteq> None"
  by (cases a) (auto simp: orElse_def)

lemma tradable_distinct: "distinct TRADABLE_SYMBOLS"
  by code_simp

lemma ticks_positive:
  "(\<forall>d \<in> set SYMBOLS. 0 < sd_tickSize d) \<and> (\<forall>d \<in> set FUTURES. 0 < fd_tickUnits d) \<and>
   (\<forall>d \<in> set ALL_OPTIONS. 0 < od_tickUnits d)"
  by code_simp

lemma no_future_option: "set (map fd_symbol FUTURES) \<inter> set (map od_symbol ALL_OPTIONS) = {}"
  using tradable_distinct by (auto simp: TRADABLE_SYMBOLS_def)

text \<open>
  C39. The listings are consistent: no tradable symbol occurs twice (in particular none is both a
  stock, a future and an option), the symbols with a tick size are exactly the tradable ones, and
  every tick size is positive.
\<close>

theorem listings_consistent:
  "distinct TRADABLE_SYMBOLS \<and>
   (tickSizeOf s \<noteq> None) = (s \<in> set TRADABLE_SYMBOLS) \<and>
   (case tickSizeOf s of None \<Rightarrow> True | Some t \<Rightarrow> 0 < t) \<and>
   \<not> (isFuture s \<and> isOption s)"
proof -
  have tick: "(tickSizeOf s \<noteq> None) = (s \<in> set TRADABLE_SYMBOLS)"
    unfolding tickSizeOf_def orElse_not_None TRADABLE_SYMBOLS_def
    using futureDef_iff [of s] optionDef_iff [of s] find_symbol_iff [of sd_symbol s SYMBOLS]
    by (simp add: isFuture_def isOption_def del: set_map)
  have pos: "case tickSizeOf s of None \<Rightarrow> True | Some t \<Rightarrow> 0 < t"
    using ticks_positive
    by (auto simp: tickSizeOf_def orElse_def futureDef_def optionDef_def find_Some_iff split: option.splits)
  show ?thesis
    using tradable_distinct tick pos no_future_option by (auto simp: isFuture_def isOption_def)
qed

section \<open>Reserve accounts\<close>

lemma indexOf_nonneg: "0 \<le> indexOf xs x \<longleftrightarrow> x \<in> set xs"
  by (induction xs) (auto simp: Let_def)

lemma indexOf_nth: "x \<in> set xs \<Longrightarrow> 0 \<le> indexOf xs x \<and> nat (indexOf xs x) < length xs \<and> xs ! nat (indexOf xs x) = x"
proof (induction xs)
  case (Cons y ys)
  then show ?case using indexOf_nonneg [of ys x]
    by (cases "y = x") (auto simp: Let_def nat_add_distrib)
qed simp

text \<open>
  Liquidity reserve accounts are never shared: two names with the same reserve bot are the same
  name; and every listed stock, every future and every option family has one.
\<close>

theorem reserve_accounts_unique:
  "(liquidityReserveBotNumber a \<noteq> None \<and> liquidityReserveBotNumber a = liquidityReserveBotNumber b) =
   (liquidityReserveBotNumber a \<noteq> None \<and> a = b) \<and>
   list_all (\<lambda>s. liquidityReserveBotNumber s \<noteq> None)
     (map sd_symbol SYMBOLS @ map fd_symbol FUTURES @ map of_reserve ALL_OPTION_FAMILIES)"
proof
  have none: "liquidityReserveBotNumber s \<noteq> None \<longleftrightarrow> s \<in> set LIQUIDITY_RESERVE_ORDER" for s
    by (simp add: liquidityReserveBotNumber_def Let_def not_less indexOf_nonneg [symmetric])
  have "a = b" if "liquidityReserveBotNumber a \<noteq> None" "liquidityReserveBotNumber a = liquidityReserveBotNumber b"
  proof -
    have m: "a \<in> set LIQUIDITY_RESERVE_ORDER" "b \<in> set LIQUIDITY_RESERVE_ORDER"
      using that none [of a] none [of b] by auto
    then have "indexOf LIQUIDITY_RESERVE_ORDER a = indexOf LIQUIDITY_RESERVE_ORDER b"
      using that indexOf_nonneg [of LIQUIDITY_RESERVE_ORDER a] indexOf_nonneg [of LIQUIDITY_RESERVE_ORDER b]
      by (simp add: liquidityReserveBotNumber_def Let_def split: if_splits)
    then show ?thesis using indexOf_nth [OF m(1)] indexOf_nth [OF m(2)] by metis
  qed
  then show "(liquidityReserveBotNumber a \<noteq> None \<and> liquidityReserveBotNumber a = liquidityReserveBotNumber b) =
    (liquidityReserveBotNumber a \<noteq> None \<and> a = b)" by blast
  show "list_all (\<lambda>s. liquidityReserveBotNumber s \<noteq> None)
     (map sd_symbol SYMBOLS @ map fd_symbol FUTURES @ map of_reserve ALL_OPTION_FAMILIES)"
    by code_simp
qed

section \<open>Redis names\<close>

definition roomOf :: "channel \<Rightarrow> string" where
  "roomOf c = (case c of ChOrderbook s \<Rightarrow> ''orderbook:'' @ s | ChTrades s \<Rightarrow> ''trades:'' @ s
    | ChAccount s \<Rightarrow> ''account:'' @ s | ChNews s \<Rightarrow> ''news:'' @ s | ChReference s \<Rightarrow> ''ref:'' @ s)"

lemma startsWith_append [simp]: "startsWith (p @ s) p"
  by (simp add: startsWith_def)

lemma toSocketChannel_redisKey:
  "toSocketChannel (redisKey k) =
    (if (\<exists>candidate \<in> set SOCKET_CHANNEL_PREFIXES. startsWith k candidate) then Some k else None)"
proof -
  have "startsWith (redisKey k) (REDIS_NAMESPACE @ '':'')"
    "drop (length (REDIS_NAMESPACE @ '':'')) (redisKey k) = k"
    using startsWith_append [of "REDIS_NAMESPACE @ '':''" k] by (simp_all add: redisKey_def)
  then show ?thesis unfolding toSocketChannel_def Let_def by simp
qed

text \<open>
  The socket gateway forwards exactly what it should: every pub/sub channel becomes the public
  room of its kind and name, different channels become different rooms, and neither a stream nor any
  cache key is a room, with one exception: the key of the operators' news queue carries the prefix of
  the news channels.
\<close>

theorem socket_rooms:
  "toSocketChannel (CHANNELS c) = Some (roomOf c) \<and>
   (toSocketChannel (CHANNELS c) = toSocketChannel (CHANNELS d)) = (c = d) \<and>
   toSocketChannel STREAMS_ORDERS = None \<and> toSocketChannel STREAMS_TRADES = None \<and>
   (toSocketChannel (KEYS k) = None) = (k \<noteq> NewsForceQueue)"
proof -
  have ch: "CHANNELS c = redisKey (roomOf c)" for c by (cases c) (simp_all add: roomOf_def)
  have room: "toSocketChannel (CHANNELS c) = Some (roomOf c)" for c
    unfolding ch toSocketChannel_redisKey
    by (cases c) (simp_all add: roomOf_def SOCKET_CHANNEL_PREFIXES_def startsWith_def)
  have inj: "roomOf c = roomOf d \<longleftrightarrow> c = d"
    by (cases c; cases d) (auto simp: roomOf_def)
  have keys: "(toSocketChannel (KEYS k) = None) = (k \<noteq> NewsForceQueue)"
    by (cases k) (simp_all add: toSocketChannel_redisKey SOCKET_CHANNEL_PREFIXES_def startsWith_def)
  show ?thesis
    using room inj keys
    by (simp add: STREAMS_ORDERS_def STREAMS_TRADES_def toSocketChannel_redisKey
        SOCKET_CHANNEL_PREFIXES_def startsWith_def)
qed

section \<open>Epochs\<close>

lemma epochLoop_eq:
  assumes "sorted (map ie_startsAt es)"
  shows "epochLoop ts es found =
    (case filter (\<lambda>e. ie_startsAt e \<le> ts) es of [] \<Rightarrow> found | x # xs \<Rightarrow> Some (last (x # xs)))"
  using assms
proof (induction es arbitrary: found)
  case (Cons e es)
  show ?case
  proof (cases "ie_startsAt e \<le> ts")
    case True
    then show ?thesis using Cons by (auto split: list.splits)
  next
    case False
    then have "filter (\<lambda>e. ie_startsAt e \<le> ts) es = []"
      using Cons.prems by (fastforce simp: filter_empty_conv)
    then show ?thesis using False by simp
  qed
qed simp

text \<open>
  The epoch that applies at a time is the last one that has started; there is none exactly before the
  first.
\<close>

lemma epochAt_last:
  assumes "sorted (map ie_startsAt es)"
  shows "epochAt es ts = (let started = filter (\<lambda>e. ie_startsAt e \<le> ts) es
    in if started = [] then None else Some (last started))"
  using epochLoop_eq [OF assms, of ts None]
  by (simp add: epochAt_def Let_def split: list.splits)

end
