(* ===== verification/Settlement_Rules.thy ===== *)
theory Settlement_Rules
  imports Market_Constants
begin

text \<open>
  \<open>packages/shared/src/settlement.ts\<close>: how an order row advances by a trade and by a close event,
  and the profit of a sale; \<open>packages/shared/src/trading-fees.ts\<close>: the fee of a fill and the hold
  that funds it. An order status the code tests as a string is \<open>order_status\<close>; the texts of the two
  errors are constructors.
\<close>

datatype settle_error =
    LateTrade order_status
  | Overfill int int

record settlement_order_state =
  so_status :: order_status
  so_qty :: int
  so_filledQty :: int

definition closeMustWaitForTrades :: "settlement_order_state \<Rightarrow> int \<Rightarrow> bool" where
  "closeMustWaitForTrades order eventFilled \<longleftrightarrow>
     isActive (so_status order) \<and> eventFilled > so_filledQty order"

definition stateAfterTrade ::
  "settlement_order_state \<Rightarrow> int \<Rightarrow> settle_error + (int \<times> order_status)" where
  "stateAfterTrade order fillQty =
     (if \<not> isActive (so_status order) then Inl (LateTrade (so_status order))
      else let filledQty = so_filledQty order + fillQty
           in if filledQty > so_qty order then Inl (Overfill filledQty (so_qty order))
              else Inr (filledQty, if filledQty \<ge> so_qty order then FILLED else PARTIAL))"

record close_state =
  cs_filledQty :: int
  cs_status :: order_status
  cs_remainingQty :: int

definition stateAfterClose ::
  "settlement_order_state \<Rightarrow> int \<Rightarrow> order_status \<Rightarrow> close_state option" where
  "stateAfterClose order eventFilled eventStatus =
     (if isTerminal (so_status order) \<or> eventFilled < so_filledQty order then None
      else let filledQty = min (so_qty order) eventFilled
           in Some \<lparr>cs_filledQty = filledQty, cs_status = eventStatus,
                    cs_remainingQty = so_qty order - filledQty\<rparr>)"

record sale_realization =
  sr_basisReduction :: int
  sr_proceeds :: int
  sr_realized :: int

text \<open>The holding is given by its quantity and its cost basis.\<close>

definition realizedPnlForSale :: "int \<Rightarrow> int \<Rightarrow> int \<Rightarrow> int \<Rightarrow> sale_realization" where
  "realizedPnlForSale holdingQty costBasis sellQty price =
     (let proceeds = price * sellQty;
          basisReduction = (if holdingQty > 0 then bigdiv (costBasis * sellQty) holdingQty else 0)
      in \<lparr>sr_basisReduction = basisReduction, sr_proceeds = proceeds,
          sr_realized = proceeds - basisReduction\<rparr>)"

section \<open>Fees\<close>

text \<open>\<open>Date.parse("2026-09-27T19:20:00Z")\<close>\<close>

definition TRADING_FEES_EFFECTIVE_AT :: int where "TRADING_FEES_EFFECTIVE_AT = 1790536800000"

definition TRADING_FEE_BPS :: int where "TRADING_FEE_BPS = 1"

definition tradeNotional :: "string \<Rightarrow> int \<Rightarrow> int \<Rightarrow> int" where
  "tradeNotional symbol price qty =
     (let multiplier = (case orElse (map_option fd_unitValue (futureDef symbol))
                                    (map_option od_unitValue (optionDef symbol)) of
                          Some m \<Rightarrow> m | None \<Rightarrow> 1)
      in price * qty * multiplier)"

definition tradingFee :: "int \<Rightarrow> int \<Rightarrow> int" where
  "tradingFee notional time =
     (if time < TRADING_FEES_EFFECTIVE_AT \<or> notional \<le> 0 then 0
      else bigdiv (notional * TRADING_FEE_BPS + 9999) 10000)"

definition orderHoldWithFee :: "int \<Rightarrow> string \<Rightarrow> int \<Rightarrow> int \<Rightarrow> int" where
  "orderHoldWithFee principalAmt symbol price time =
     (if principalAmt > 0 then principalAmt + tradingFee (tradeNotional symbol price 1) time else 0)"

section \<open>Properties\<close>

lemma stateAfterTrade_Inr:
  "stateAfterTrade s q = Inr (f, st) \<longleftrightarrow>
    isActive (so_status s) \<and> f = so_filledQty s + q \<and> f \<le> so_qty s \<and>
    st = (if f \<ge> so_qty s then FILLED else PARTIAL)"
  by (auto simp: stateAfterTrade_def Let_def)

lemma stateAfterClose_Some:
  "stateAfterClose s q st = Some c \<longleftrightarrow>
    isActive (so_status s) \<and> so_filledQty s \<le> q \<and>
    c = \<lparr>cs_filledQty = min (so_qty s) q, cs_status = st, cs_remainingQty = so_qty s - min (so_qty s) q\<rparr>"
  by (auto simp: stateAfterClose_def Let_def)

lemma tradeNotional_linear: "tradeNotional s p q = tradeNotional s p 1 * q"
  by (simp add: tradeNotional_def Let_def mult.assoc mult.left_commute)

lemma tradingFee_ceil:
  "tradingFee n t = (if t < TRADING_FEES_EFFECTIVE_AT \<or> n \<le> 0 then 0 else ceilDiv n 10000)"
  by (simp add: tradingFee_def ceilDiv_def TRADING_FEE_BPS_def)

lemma tradingFee_nonneg: "0 \<le> tradingFee n t"
  by (simp add: tradingFee_ceil ceilDiv_bounds(3))

lemma tradingFee_mono: "m \<le> n \<Longrightarrow> tradingFee m t \<le> tradingFee n t"
  by (auto simp: tradingFee_ceil ceilDiv_mono ceilDiv_bounds(3))

lemma multiplier_pos: "0 \<le> p \<Longrightarrow> 0 \<le> tradeNotional s p 1"
proof -
  have "0 \<le> (case orElse (map_option fd_unitValue (futureDef s)) (map_option od_unitValue (optionDef s)) of
      Some m \<Rightarrow> m | None \<Rightarrow> (1::int))"
  proof -
    have f: "\<forall>d \<in> set FUTURES. 0 \<le> fd_unitValue d" by (simp add: FUTURES_def)
    have o': "\<forall>d \<in> set ALL_OPTIONS. 0 \<le> od_unitValue d"
      by code_simp
    show ?thesis using f o'
      by (auto simp: orElse_def futureDef_def optionDef_def find_Some_iff split: option.splits)
  qed
  then show "0 \<le> p \<Longrightarrow> 0 \<le> tradeNotional s p 1" by (simp add: tradeNotional_def Let_def)
qed

text \<open>The fee of a fill of \<open>q\<close> units is at most \<open>q\<close> times the fee of one unit.\<close>

lemma tradingFee_times:
  assumes "0 \<le> n" "0 \<le> q"
  shows "tradingFee (n * q) t \<le> q * tradingFee n t"
proof (cases "t < TRADING_FEES_EFFECTIVE_AT \<or> n * q \<le> 0")
  case True
  then show ?thesis using assms by (auto simp: tradingFee_ceil ceilDiv_bounds(3))
next
  case False
  then have n: "0 < n" using assms by (cases "n = 0") auto
  have "n * q \<le> ceilDiv n 10000 * 10000 * q"
    using ceilDiv_bounds(1) [of n 10000] n assms by (intro mult_right_mono) auto
  then have "ceilDiv (n * q) 10000 \<le> q * ceilDiv n 10000"
    using n assms by (subst ceilDiv_le_iff) (auto simp: algebra_simps)
  then show ?thesis using False n by (simp add: tradingFee_ceil)
qed

text \<open>A sequence of partial fills at prices not above the order's price.\<close>

definition fillsWithin :: "int \<Rightarrow> (int \<times> int) list \<Rightarrow> bool" where
  "fillsWithin price fs \<longleftrightarrow> list_all (\<lambda>(p, q). 0 \<le> p \<and> p \<le> price \<and> 0 < q) fs"



section \<open>Cost basis\<close>

text \<open>A sequence of sales of one holding: quantities and prices.\<close>

fun sellAll :: "int \<Rightarrow> int \<Rightarrow> (int \<times> int) list \<Rightarrow> int \<times> int \<times> int" where
  "sellAll qty basis [] = (qty, basis, 0)"
| "sellAll qty basis ((n, p) # rest) =
     (let r = realizedPnlForSale qty basis n p;
          (q, b, total) = sellAll (qty - n) (basis - sr_basisReduction r) rest
      in (q, b, sr_realized r + total))"

definition salesOk :: "int \<Rightarrow> (int \<times> int) list \<Rightarrow> bool" where
  "salesOk qty sales \<longleftrightarrow> list_all (\<lambda>(n, p). 0 < n) sales \<and> sum_list (map fst sales) \<le> qty"

lemma basisReduction_bounds:
  assumes "0 \<le> basis" "0 \<le> n" "n \<le> qty"
  shows "0 \<le> sr_basisReduction (realizedPnlForSale qty basis n p)"
    and "sr_basisReduction (realizedPnlForSale qty basis n p) \<le> basis"
    and "0 < qty \<Longrightarrow> n = qty \<Longrightarrow> sr_basisReduction (realizedPnlForSale qty basis n p) = basis"
proof -
  have bn: "0 \<le> basis * n" using assms by simp
  have le: "basis * n \<le> basis * qty" using assms by (intro mult_left_mono) auto
  have "bigdiv (basis * n) qty \<le> basis" if "0 < qty"
  proof -
    have "(basis * n) div qty \<le> (basis * qty) div qty" using le that by (intro zdiv_mono1)
    then show ?thesis using bn that by (simp add: bigdiv_nonneg)
  qed
  then show "sr_basisReduction (realizedPnlForSale qty basis n p) \<le> basis"
    using assms by (simp add: realizedPnlForSale_def Let_def)
  show "0 \<le> sr_basisReduction (realizedPnlForSale qty basis n p)"
    using bn by (simp add: realizedPnlForSale_def Let_def bigdiv_nonneg pos_imp_zdiv_nonneg_iff)
  show "0 < qty \<Longrightarrow> n = qty \<Longrightarrow> sr_basisReduction (realizedPnlForSale qty basis n p) = basis"
    using bn by (simp add: realizedPnlForSale_def Let_def bigdiv_nonneg)
qed

text \<open>
  The cost basis of a holding is never lost: over any sequence of sales within the holding, the
  realised profits plus the cost basis bought equal the proceeds plus the cost basis left; the basis
  left is never negative and is zero once everything is sold.
\<close>

theorem sales_conserve_basis:
  assumes "salesOk qty sales" "0 \<le> basis" "0 < qty"
  shows "fst (sellAll qty basis sales) = qty - sum_list (map fst sales) \<and>
    snd (snd (sellAll qty basis sales)) + basis =
      sum_list (map (\<lambda>(n, p). p * n) sales) + fst (snd (sellAll qty basis sales)) \<and>
    0 \<le> fst (snd (sellAll qty basis sales)) \<and>
    (sum_list (map fst sales) = qty \<longrightarrow> fst (snd (sellAll qty basis sales)) = 0)"
  using assms
proof (induction sales arbitrary: qty basis)
  case Nil
  then show ?case by simp
next
  case (Cons s sales)
  obtain n p where s: "s = (n, p)" by (cases s)
  let ?r = "realizedPnlForSale qty basis n p"
  have rest: "list_all (\<lambda>(n, p). 0 < n) sales" and n: "0 < n"
    and sum: "n + sum_list (map fst sales) \<le> qty"
    using Cons.prems s by (auto simp: salesOk_def)
  have nn: "0 \<le> sum_list (map fst sales)"
    using rest by (intro sum_list_nonneg_map) (auto simp: list_all_iff)
  then have nq: "n \<le> qty" using sum by simp
  note b = basisReduction_bounds [OF Cons.prems(2) less_imp_le [OF n] nq, of p]
  have pr: "sr_realized ?r = p * n - sr_basisReduction ?r"
    by (simp add: realizedPnlForSale_def Let_def)
  show ?case
  proof (cases "n = qty")
    case True
    then have "sum_list (map fst sales) = 0" using sum nn by simp
    then have "sales = []" using rest
    proof (cases sales)
      case (Cons t ts)
      then have "0 < fst t" "0 \<le> sum_list (map fst ts)"
        using rest by (auto simp: list_all_iff intro!: sum_list_nonneg_map)
      then show ?thesis using \<open>sum_list (map fst sales) = 0\<close> Cons by simp
    qed simp
    then show ?thesis using s b(3) True Cons.prems pr by (simp add: Let_def)
  next
    case False
    then have "salesOk (qty - n) sales" "0 < qty - n" using rest sum nq by (auto simp: salesOk_def)
    from Cons.IH [OF this(1) _ this(2), of "basis - sr_basisReduction ?r"] b
    show ?thesis by (simp add: s Let_def split_beta pr)
  qed
qed

lemma sales_conserve_basis_witness:
  "fst (snd (sellAll 7 1000 [(3, 200), (2, 90), (2, 150)])) = 0 \<and>
   snd (snd (sellAll 7 1000 [(3, 200), (2, 90), (2, 150)])) = 80"
  using sales_conserve_basis [of 7 "[(3, 200), (2, 90), (2, 150)]" 1000]
  by (simp add: salesOk_def)

end
