(* ===== verification/Conditional_Rules.thy ===== *)
theory Conditional_Rules
  imports Exchange_Types
begin

text \<open>
  \<open>packages/shared/src/conditional.ts\<close>: trigger conditions, the trailing trigger and its watermark.
  \<open>trailingTrigger\<close> computes with \<open>number\<close> and rounds after every operation. The texts shown to the
  user (\<open>describeCondition\<close>) and the DTOs are left out.
\<close>

datatype trigger_direction = AT_OR_ABOVE | AT_OR_BELOW

datatype conditional_status = WAITING | TRIGGERED | COND_CANCELED | FAILED

definition conditionMet :: "trigger_direction \<Rightarrow> int \<Rightarrow> int \<Rightarrow> bool" where
  "conditionMet direction triggerPrice price \<longleftrightarrow>
     (if direction = AT_OR_ABOVE then price \<ge> triggerPrice else price \<le> triggerPrice)"

definition inferTriggerDirection :: "int \<Rightarrow> int \<Rightarrow> order_side \<Rightarrow> trigger_direction" where
  "inferTriggerDirection triggerPrice referencePrice side =
     (if triggerPrice > referencePrice then AT_OR_ABOVE
      else if triggerPrice < referencePrice then AT_OR_BELOW
      else if side = SELL then AT_OR_BELOW else AT_OR_ABOVE)"

definition TRAIL_BPS_MIN :: int where "TRAIL_BPS_MIN = 10"

definition TRAIL_BPS_MAX :: int where "TRAIL_BPS_MAX = 5000"

definition trailingTrigger :: "order_side \<Rightarrow> int \<Rightarrow> int \<Rightarrow> int" where
  "trailingTrigger side watermark trailBps =
     (let ratio = jsDiv (of_int trailBps) 10000
      in if side = SELL then max 1 \<lfloor>jsMul (of_int watermark) (jsSub 1 ratio)\<rfloor>
         else max 1 \<lceil>jsMul (of_int watermark) (jsAdd 1 ratio)\<rceil>)"

definition advancesWatermark :: "order_side \<Rightarrow> int \<Rightarrow> int \<Rightarrow> bool" where
  "advancesWatermark side watermark price \<longleftrightarrow>
     (if side = SELL then price > watermark else price < watermark)"

section \<open>The trailing trigger and its exact value\<close>

text \<open>The exact trigger: floor respectively ceiling of the watermark moved by the trail.\<close>

definition exactTrigger :: "order_side \<Rightarrow> int \<Rightarrow> int \<Rightarrow> int" where
  "exactTrigger side w bps =
     (if side = SELL then max 1 ((w * (10000 - bps)) div 10000)
      else max 1 (ceilDiv (w * (10000 + bps)) 10000))"

text \<open>The three roundings move the product by at most five units in \<open>2 ^ 53\<close> of the watermark.\<close>

lemma trailing_error:
  fixes w r d :: rat
  assumes "0 \<le> w" "0 \<le> r" "r \<le> 1 / 2" and d: "d = 1 \<or> d = - 1"
  shows "\<bar>fl (w * fl (1 + d * fl r)) - w * (1 + d * r)\<bar> \<le> 5 * w / 2 ^ 53"
proof -
  let ?e = "1 / 2 ^ 53 :: rat"
  define q where "q = fl r"
  define s where "s = fl (1 + d * q)"
  define y where "y = fl (w * s)"
  have q: "\<bar>q - r\<bar> \<le> r * ?e" using fl_error [of r] assms(2) by (simp add: q_def)
  have re: "r * ?e \<le> 1 / 2 * ?e" using assms(3) by (intro mult_right_mono) auto
  have "\<bar>q - r\<bar> \<le> 1 / 4" using q re by (simp add: field_simps)
  then have q1: "\<bar>q\<bar> \<le> 3 / 4" using assms(2,3) by (simp add: abs_if split: if_splits)
  have dq: "\<bar>1 + d * q\<bar> \<le> 7 / 4" using q1 d by (auto simp: abs_le_iff)
  have s: "\<bar>s - (1 + d * q)\<bar> \<le> 7 / 4 * ?e"
  proof -
    have "\<bar>s - (1 + d * q)\<bar> \<le> \<bar>1 + d * q\<bar> * ?e" using fl_error [of "1 + d * q"] by (simp add: s_def)
    also have "\<dots> \<le> 7 / 4 * ?e" using dq by (intro mult_right_mono) auto
    finally show ?thesis .
  qed
  have s2: "\<bar>s\<bar> \<le> 2"
  proof -
    have "\<bar>s\<bar> \<le> \<bar>s - (1 + d * q)\<bar> + \<bar>1 + d * q\<bar>" by linarith
    also have "\<dots> \<le> 7 / 4 * ?e + 7 / 4" using s dq by (rule add_mono)
    also have "\<dots> \<le> 2" by simp
    finally show ?thesis .
  qed
  have y: "\<bar>y - w * s\<bar> \<le> 2 * w * ?e"
  proof -
    have "\<bar>y - w * s\<bar> \<le> \<bar>w * s\<bar> * ?e" using fl_error [of "w * s"] by (simp add: y_def)
    also have "\<bar>w * s\<bar> \<le> w * 2" using s2 assms(1) by (simp add: abs_mult mult_left_mono)
    finally show ?thesis by (simp add: mult.commute mult_right_mono)
  qed
  have "\<bar>s - (1 + d * r)\<bar> \<le> 7 / 4 * ?e + r * ?e"
  proof -
    have "\<bar>(1 + d * q) - (1 + d * r)\<bar> \<le> r * ?e" using q d by (auto simp: abs_minus_commute)
    moreover have "\<bar>s - (1 + d * r)\<bar> \<le> \<bar>s - (1 + d * q)\<bar> + \<bar>(1 + d * q) - (1 + d * r)\<bar>" by linarith
    ultimately show ?thesis using s by linarith
  qed
  also have "\<dots> \<le> 7 / 4 * ?e + 1 / 2 * ?e" using re by simp
  also have "\<dots> \<le> 3 * ?e" by simp
  finally have s3: "\<bar>s - (1 + d * r)\<bar> \<le> 3 * ?e" .
  have "\<bar>w * s - w * (1 + d * r)\<bar> = w * \<bar>s - (1 + d * r)\<bar>"
    using assms(1) by (simp add: right_diff_distrib [symmetric] abs_mult)
  also have "\<dots> \<le> w * (3 * ?e)" using s3 assms(1) by (rule mult_left_mono)
  finally have "\<bar>w * s - w * (1 + d * r)\<bar> \<le> 3 * w * ?e" by (simp add: mult.commute)
  with y have "\<bar>y - w * (1 + d * r)\<bar> \<le> 2 * w * ?e + 3 * w * ?e" by linarith
  then show ?thesis by (simp add: y_def s_def q_def)
qed

lemma small_error:
  assumes "0 \<le> w" "w < (2::int) ^ 31"
  shows "5 * (of_int w :: rat) / 2 ^ 53 < 1 / 10000"
proof -
  have "(of_int w :: rat) < of_int (2 ^ 31)" using assms(2) by (simp only: of_int_less_iff)
  then show ?thesis by simp
qed

lemma floor_tenthousandth:
  fixes A :: int
  shows "(of_int A / 10000 :: rat) + 1 / 10000 \<le> of_int \<lfloor>of_int A / 10000 :: rat\<rfloor> + 1"
    and "\<lfloor>of_int A / 10000 :: rat\<rfloor> = A div 10000"
proof -
  show f: "\<lfloor>of_int A / 10000 :: rat\<rfloor> = A div 10000"
    using floor_divide_of_int_eq [of A 10000, where 'a = rat] by simp
  have "A + 1 \<le> (A div 10000 + 1) * 10000" by presburger
  then have "(of_int (A + 1) :: rat) \<le> of_int ((A div 10000 + 1) * 10000)" by (simp only: of_int_le_iff)
  then show "(of_int A / 10000 :: rat) + 1 / 10000 \<le> of_int \<lfloor>of_int A / 10000 :: rat\<rfloor> + 1"
    unfolding f by simp
qed

text \<open>
  The trailing trigger, computed in binary floating point, is the exact trigger or one unit
  further from the watermark, never nearer: for a sell the exact floor or one less, for a buy the
  exact ceiling or one more. A position is therefore never closed at a price the exact rule would not
  have reached.
\<close>

theorem trailing_trigger_near_exact:
  assumes "0 \<le> w" "w < 2 ^ 31" "0 \<le> bps" "bps \<le> TRAIL_BPS_MAX"
  shows "trailingTrigger SELL w bps \<le> exactTrigger SELL w bps \<and>
    exactTrigger SELL w bps - 1 \<le> trailingTrigger SELL w bps \<and>
    exactTrigger BUY w bps \<le> trailingTrigger BUY w bps \<and>
    trailingTrigger BUY w bps \<le> exactTrigger BUY w bps + 1"
proof -
  define r :: rat where "r = of_int bps / 10000"
  have "(of_int bps :: rat) \<le> of_int 5000" using assms(4) by (simp only: of_int_le_iff TRAIL_BPS_MAX_def)
  then have r: "0 \<le> r" "r \<le> 1 / 2" using assms(3) by (simp_all add: r_def)
  have w: "(0::rat) \<le> of_int w" using assms(1) by simp
  note small = small_error [OF assms(1,2)]
  let ?ys = "fl (of_int w * fl (1 - fl r))" and ?yb = "fl (of_int w * fl (1 + fl r))"
  have xs: "of_int w * (1 - r) = of_int (w * (10000 - bps)) / 10000"
    and xb: "of_int w * (1 + r) = of_int (w * (10000 + bps)) / 10000"
    by (simp_all add: r_def field_simps)
  have es: "\<bar>?ys - of_int (w * (10000 - bps)) / 10000\<bar> < 1 / 10000"
    using trailing_error [OF w r, of "-1"] small unfolding xs [symmetric] by simp
  have eb: "\<bar>?yb - of_int (w * (10000 + bps)) / 10000\<bar> < 1 / 10000"
    using trailing_error [OF w r, of 1] small unfolding xb [symmetric] by simp
  note S = floor_near [OF es floor_tenthousandth(1)]
  have sell: "\<lfloor>?ys\<rfloor> \<le> w * (10000 - bps) div 10000" "w * (10000 - bps) div 10000 - 1 \<le> \<lfloor>?ys\<rfloor>"
    using S floor_tenthousandth(2) [of "w * (10000 - bps)"] by simp_all
  have eb': "\<bar>- ?yb - of_int (- (w * (10000 + bps))) / 10000\<bar> < 1 / 10000"
  proof -
    have "- ?yb - of_int (- (w * (10000 + bps))) / 10000 = - (?yb - of_int (w * (10000 + bps)) / 10000)"
      by simp
    then show ?thesis using eb by (simp only: abs_minus_cancel)
  qed
  note B = floor_near [OF eb' floor_tenthousandth(1)]
  have nn: "0 \<le> w * (10000 + bps)" using assms by simp
  have cd: "ceilDiv (w * (10000 + bps)) 10000 = - (- (w * (10000 + bps)) div 10000)"
    using nn by (simp add: ceilDiv_def bigdiv_nonneg)
  have buy: "ceilDiv (w * (10000 + bps)) 10000 \<le> \<lceil>?yb\<rceil>" "\<lceil>?yb\<rceil> \<le> ceilDiv (w * (10000 + bps)) 10000 + 1"
    using B floor_tenthousandth(2) [of "- (w * (10000 + bps))"] unfolding cd ceiling_def by simp_all
  have mx: "max 1 a \<le> max 1 b \<and> max 1 b - 1 \<le> max 1 a" if "a \<le> b" "b - 1 \<le> a" for a b :: int
    using that by auto
  have t: "trailingTrigger SELL w bps = max 1 \<lfloor>?ys\<rfloor>" "trailingTrigger BUY w bps = max 1 \<lceil>?yb\<rceil>"
    by (simp_all add: trailingTrigger_def Let_def jsDiv_def jsMul_def jsSub_def jsAdd_def r_def)
  have e: "exactTrigger SELL w bps = max 1 (w * (10000 - bps) div 10000)"
    "exactTrigger BUY w bps = max 1 (ceilDiv (w * (10000 + bps)) 10000)"
    by (simp_all add: exactTrigger_def)
  show ?thesis
    unfolding t e using mx [OF sell] mx [OF buy(1)] buy(2) by linarith
qed

lemma trailing_trigger_near_exact_witness:
  "929 \<le> trailingTrigger SELL 1000 700 \<and> trailingTrigger SELL 1000 700 \<le> 930 \<and>
   1070 \<le> trailingTrigger BUY 1000 700 \<and> trailingTrigger BUY 1000 700 \<le> 1071"
  using trailing_trigger_near_exact [of 1000 700]
  by (simp add: TRAIL_BPS_MAX_def exactTrigger_def ceilDiv_def bigdiv_def)

text \<open>
  Both values occur: a 7 percent trail below 1000 triggers at 929, not at 930, and a 0.11 percent
  trail above 10000 at 10012, not at 10011.
\<close>

lemma trailing_trigger_one_off:
  "trailingTrigger SELL 1000 700 = 929" "exactTrigger SELL 1000 700 = 930"
  "trailingTrigger BUY 10000 11 = 10012" "exactTrigger BUY 10000 11 = 10011"
  by code_simp+

section \<open>The ratchet\<close>

lemma trail_factor_nonneg:
  assumes "0 \<le> bps" "bps \<le> 10000"
  shows "0 \<le> jsSub 1 (jsDiv (of_int bps) 10000)" "0 \<le> jsAdd 1 (jsDiv (of_int bps) 10000)"
proof -
  have "(of_int bps :: rat) \<le> of_int 10000" using assms(2) by (simp only: of_int_le_iff)
  then have "fl (of_int bps / 10000) \<le> fl 1" using assms(1) by (intro fl_mono) auto
  moreover have "0 \<le> fl (of_int bps / 10000)" using assms(1) by (intro fl_nonneg) simp
  ultimately show "0 \<le> jsSub 1 (jsDiv (of_int bps) 10000)" "0 \<le> jsAdd 1 (jsDiv (of_int bps) 10000)"
    by (simp_all add: jsSub_def jsAdd_def jsDiv_def fl_nonneg)
qed

lemma trailingTrigger_mono:
  assumes "0 \<le> v" "v \<le> w" "0 \<le> bps" "bps \<le> 10000"
  shows "trailingTrigger side v bps \<le> trailingTrigger side w bps"
proof -
  note f = trail_factor_nonneg [OF assms(3,4)]
  have vw: "(of_int v :: rat) \<le> of_int w" "(0 :: rat) \<le> of_int v" using assms(1,2) by simp_all
  have "jsMul (of_int v) c \<le> jsMul (of_int w) c" if "0 \<le> c" for c
    using vw that by (auto simp: jsMul_def intro!: fl_mono mult_right_mono)
  from this [OF f(1)] this [OF f(2)] show ?thesis
    by (auto simp: trailingTrigger_def Let_def le_max_iff_disj intro: floor_mono ceiling_mono)
qed

text \<open>
  A trailing stop is a ratchet: when a price advances the watermark, the trigger (as computed in
  floating point) never moves back, for a sell never down, for a buy never up; and the price that
  advances a watermark is never one that the old watermark would have advanced from.
\<close>

theorem trailing_ratchet:
  assumes "advancesWatermark side w p" "0 \<le> w" "0 \<le> p" "0 \<le> bps" "bps \<le> TRAIL_BPS_MAX"
  shows "(if side = SELL then trailingTrigger side w bps \<le> trailingTrigger side p bps
      else trailingTrigger side p bps \<le> trailingTrigger side w bps) \<and>
    \<not> advancesWatermark side p w"
  using assms trailingTrigger_mono [of w p bps side] trailingTrigger_mono [of p w bps side]
  by (auto simp: advancesWatermark_def TRAIL_BPS_MAX_def)

lemma trailing_ratchet_witness:
  "trailingTrigger SELL 1000 700 \<le> trailingTrigger SELL 1010 700"
  using trailing_ratchet [of SELL 1000 1010 700] by (simp add: advancesWatermark_def TRAIL_BPS_MAX_def)

lemma inferred_direction:
  "conditionMet (inferTriggerDirection trigger reference side) trigger reference \<longleftrightarrow> trigger = reference"
  by (auto simp: conditionMet_def inferTriggerDirection_def)

end
