(* ===== verification/Database.thy ===== *)
theory Database
  imports Settlement_Rules Conditional_Rules "HOL-Library.Char_ord" "HOL-Library.List_Lexorder"
    "HOL-Library.Product_Lexorder"
begin

text \<open>
  The tables of \<open>packages/db/prisma/schema.prisma\<close> that the modelled services read and write, and
  the client calls they use. A table is an association list from the primary key; a call that violates
  a unique key or a CHECK constraint of the migrations, or that does not find its row, is an error,
  and an error inside a transaction rolls the transaction back (the caller keeps the state it began
  with). Text columns with a fixed set of values are datatypes. \<open>createdAt\<close> and \<open>updatedAt\<close> columns
  are kept where the code reads them.
\<close>

section \<open>Rows\<close>

record account_row =
  ac_userId :: string
  ac_balance :: int
  ac_holdAmount :: int
  ac_version :: int
  ac_fencingToken :: int

record holding_row =
  ho_qty :: int
  ho_holdQty :: int
  ho_costBasis :: int

record ledger_row =
  le_accountId :: string
  le_delta :: int
  le_balanceAfter :: int
  le_reason :: string
  le_refId :: "string option"

record pnl_row =
  pn_accountId :: string
  pn_symbol :: string
  pn_qty :: int
  pn_price :: int
  pn_costBasis :: int
  pn_realized :: int
  pn_tradedAt :: int

record order_row =
  or_accountId :: string
  or_symbol :: string
  or_side :: order_side
  or_type :: order_type
  or_price :: "int option"
  or_qty :: int
  or_filledQty :: int
  or_status :: order_status
  or_holdPerUnit :: int
  or_positionSide :: "position_side option"
  or_createdAt :: int

record trade_row =
  tr_symbol :: string
  tr_price :: int
  tr_qty :: int
  tr_buyOrderId :: string
  tr_sellOrderId :: string
  tr_buyerAccountId :: string
  tr_sellerAccountId :: string
  tr_takerSide :: order_side
  tr_createdAt :: int

text \<open>A row of \<open>matching.outbox_events\<close>; its id is the position in the table.\<close>

record outbox_row =
  ox_eventId :: string
  ox_payload :: trade_event
  ox_published :: bool

text \<open>A row of \<open>order.outbox\<close>: an event for the order stream.\<close>

record order_outbox_row =
  oo_payload :: order_event
  oo_createdAt :: int
  oo_published :: bool

text \<open>\<open>kind\<close> of a listed symbol.\<close>

datatype symbol_kind = STOCK | FUTURE | OPTION

record symbol_row =
  sy_initialPrice :: int
  sy_lastPrice :: int
  sy_listedAt :: "int option"
  sy_listedShares :: int
  sy_kind :: symbol_kind

record position_row =
  po_qty :: int
  po_entryValue :: int
  po_marginHeld :: int
  po_leverage :: "int option"

text \<open>The \<open>side\<close> column of \<open>futures_realized\<close>: the side of a closing fill, or the daily settlement.\<close>

datatype realized_side = FillSide order_side | SETTLE

record realized_row =
  fz_accountId :: string
  fz_symbol :: string
  fz_closedQty :: int
  fz_price :: int
  fz_realized :: int

record candle_row =
  cn_open :: int
  cn_high :: int
  cn_low :: int
  cn_close :: int
  cn_volume :: int

record series_row =
  se_strike :: int
  se_tradingDay :: string

record margin_call_row =
  mc_accountId :: string
  mc_startedAt :: int
  mc_deadline :: int
  mc_required :: int
  mc_resolvedAt :: "int option"
  mc_outcome :: "string option"

record liquidation_row =
  lq_accountId :: string
  lq_symbol :: string
  lq_side :: order_side
  lq_qty :: int
  lq_reason :: string
  lq_marginCallId :: "string option"

record settlement_row =
  fs_price :: int
  fs_positions :: int
  fs_realizedTotal :: int

record conditional_row =
  cd_accountId :: string
  cd_symbol :: string
  cd_side :: order_side
  cd_direction :: trigger_direction
  cd_triggerPrice :: int
  cd_qty :: int
  cd_orderType :: order_type
  cd_limitPrice :: "int option"
  cd_positionSide :: "position_side option"
  cd_ocoGroupId :: "string option"
  cd_trailBps :: "int option"
  cd_watermark :: "int option"
  cd_status :: conditional_status
  cd_triggeredOrderId :: "string option"
  cd_triggerTradePrice :: "int option"
  cd_failReason :: "string option"
  cd_createdAt :: int

datatype bracket_status = PENDING | ARMED | BRACKET_CANCELED

record bracket_row =
  br_accountId :: string
  br_orderId :: string
  br_symbol :: string
  br_stopBps :: "int option"
  br_takeBps :: "int option"
  br_status :: bracket_status
  br_armedQty :: int
  br_avgFillPrice :: "int option"
  br_note :: "string option"
  br_createdAt :: int

section \<open>The database\<close>

text \<open>
  \<open>db_users\<close> is \<open>auth.users\<close>; \<open>db_processed\<close> is
  \<open>account.processed_events\<close>, \<open>db_claimed\<close> is \<open>matching.processed_order_events\<close> and
  \<open>db_markers\<close> is \<open>matching.closed_order_markers\<close>.
\<close>

record user_row =
  us_isBot :: bool
  us_isAdmin :: bool
  us_email :: "string option"
  us_nickname :: string
  us_passwordHash :: string

record db =
  db_users :: "(string, user_row) rows"
  db_accounts :: "(string, account_row) rows"
  db_holdings :: "(string \<times> string, holding_row) rows"
  db_ledger :: "ledger_row list"
  db_pnl :: "(string, pnl_row) rows"
  db_processed :: "string list"
  db_orders :: "(string, order_row) rows"
  db_trades :: "(string, trade_row) rows"
  db_claimed :: "string list"
  db_outbox :: "outbox_row list"
  db_markers :: "(string, string) rows"
  db_orderOutbox :: "(string, order_outbox_row) rows"
  db_symbols :: "(string, symbol_row) rows"
  db_positions :: "(string \<times> string \<times> row_side, position_row) rows"
  db_debts :: "(string, int) rows"
  db_realized :: "(string \<times> realized_side, realized_row) rows"
  db_series :: "(string, series_row) rows"
  db_marginCalls :: "(string, margin_call_row) rows"
  db_liquidations :: "(string, liquidation_row) rows"
  db_settlements :: "(string \<times> string, settlement_row) rows"
  db_epochs :: "index_epoch list"
  db_references :: "(string \<times> string \<times> int, candle_row) rows"
  db_candles :: "(string \<times> string \<times> int, candle_row) rows"
  db_conditionals :: "(string, conditional_row) rows"
  db_brackets :: "(string, bracket_row) rows"

datatype error =
    RowNotFound string
  | UniqueViolation string
  | CheckViolation string
  | SettleError settle_error
  | Thrown string
  | BadRequest string
  | Forbidden string
  | NotFoundError string
  | ConflictError string
  | Unprocessable string
  | Unauthorized string

text \<open>A rule of the shared package that throws, inside a service.\<close>

definition liftSettle :: "settle_error + 'a \<Rightarrow> error + 'a" where
  "liftSettle m = (case m of Inl e \<Rightarrow> Inl (SettleError e) | Inr x \<Rightarrow> Inr x)"

lemma liftSettle_Inr [simp]: "liftSettle m = Inr x \<longleftrightarrow> m = Inr x"
  by (cases m) (auto simp: liftSettle_def)

section \<open>Constraints\<close>

definition accountCheck :: "account_row \<Rightarrow> bool" where
  "accountCheck a \<longleftrightarrow> 0 \<le> ac_balance a \<and> 0 \<le> ac_holdAmount a \<and> ac_holdAmount a \<le> ac_balance a"

definition holdingCheck :: "holding_row \<Rightarrow> bool" where
  "holdingCheck h \<longleftrightarrow> 0 \<le> ho_qty h \<and> 0 \<le> ho_holdQty h \<and> ho_holdQty h \<le> ho_qty h"

definition positionCheck :: "row_side \<Rightarrow> position_row \<Rightarrow> bool" where
  "positionCheck side p \<longleftrightarrow>
     0 \<le> po_entryValue p \<and> 0 \<le> po_marginHeld p \<and>
     (po_qty p = 0 \<longrightarrow> po_entryValue p = 0 \<and> po_marginHeld p = 0) \<and>
     (case side of NET \<Rightarrow> True | LONG_ROW \<Rightarrow> 0 \<le> po_qty p | SHORT_ROW \<Rightarrow> po_qty p \<le> 0) \<and>
     (case po_leverage p of None \<Rightarrow> True | Some l \<Rightarrow> 1 \<le> l \<and> l \<le> 20)"

section \<open>Writes\<close>

definition writeAccount :: "string \<Rightarrow> account_row \<Rightarrow> db \<Rightarrow> error + db" where
  "writeAccount i a d =
     (if accountCheck a then Inr (d\<lparr>db_accounts := putRow i a (db_accounts d)\<rparr>)
      else Inl (CheckViolation ''accounts''))"

definition writeHolding :: "string \<times> string \<Rightarrow> holding_row \<Rightarrow> db \<Rightarrow> error + db" where
  "writeHolding k h d =
     (if holdingCheck h then Inr (d\<lparr>db_holdings := putRow k h (db_holdings d)\<rparr>)
      else Inl (CheckViolation ''holdings''))"

definition writePosition :: "string \<times> string \<times> row_side \<Rightarrow> position_row \<Rightarrow> db \<Rightarrow> error + db" where
  "writePosition k p d =
     (if positionCheck (snd (snd k)) p then Inr (d\<lparr>db_positions := putRow k p (db_positions d)\<rparr>)
      else Inl (CheckViolation ''futures_positions''))"

definition writeDebt :: "string \<Rightarrow> int \<Rightarrow> db \<Rightarrow> error + db" where
  "writeDebt i amount d =
     (if 0 \<le> amount then Inr (d\<lparr>db_debts := putRow i amount (db_debts d)\<rparr>)
      else Inl (CheckViolation ''futures_debts''))"

definition createLedger :: "ledger_row \<Rightarrow> db \<Rightarrow> db" where
  "createLedger l d = d\<lparr>db_ledger := db_ledger d @ [l]\<rparr>"

definition createPnl :: "string \<Rightarrow> pnl_row \<Rightarrow> db \<Rightarrow> error + db" where
  "createPnl tradeId p d =
     (if findRow (db_pnl d) tradeId \<noteq> None then Inl (UniqueViolation ''realized_pnl'')
      else Inr (d\<lparr>db_pnl := putRow tradeId p (db_pnl d)\<rparr>))"

definition createRealized :: "string \<times> realized_side \<Rightarrow> realized_row \<Rightarrow> db \<Rightarrow> error + db" where
  "createRealized k r d =
     (if findRow (db_realized d) k \<noteq> None then Inl (UniqueViolation ''futures_realized'')
      else Inr (d\<lparr>db_realized := putRow k r (db_realized d)\<rparr>))"

definition createProcessed :: "string \<Rightarrow> db \<Rightarrow> error + db" where
  "createProcessed eventId d =
     (if eventId \<in> set (db_processed d) then Inl (UniqueViolation ''processed_events'')
      else Inr (d\<lparr>db_processed := db_processed d @ [eventId]\<rparr>))"

definition createTrade :: "string \<Rightarrow> trade_row \<Rightarrow> db \<Rightarrow> error + db" where
  "createTrade i t d =
     (if findRow (db_trades d) i \<noteq> None then Inl (UniqueViolation ''trades'')
      else Inr (d\<lparr>db_trades := db_trades d @ [(i, t)]\<rparr>))"

definition createOutbox :: "string \<Rightarrow> trade_event \<Rightarrow> db \<Rightarrow> error + db" where
  "createOutbox eventId ev d =
     (if eventId \<in> set (map ox_eventId (db_outbox d)) then Inl (UniqueViolation ''outbox_events'')
      else Inr (d\<lparr>db_outbox := db_outbox d @
                    [\<lparr>ox_eventId = eventId, ox_payload = ev, ox_published = False\<rparr>]\<rparr>))"

definition createOrderOutbox :: "string \<Rightarrow> order_event \<Rightarrow> int \<Rightarrow> db \<Rightarrow> error + db" where
  "createOrderOutbox eventId ev now d =
     (if findRow (db_orderOutbox d) eventId \<noteq> None then Inl (UniqueViolation ''outbox'')
      else Inr (d\<lparr>db_orderOutbox := db_orderOutbox d @
                    [(eventId, \<lparr>oo_payload = ev, oo_createdAt = now, oo_published = False\<rparr>)]\<rparr>))"

definition createOrder :: "string \<Rightarrow> order_row \<Rightarrow> db \<Rightarrow> error + db" where
  "createOrder i o' d =
     (if findRow (db_orders d) i \<noteq> None then Inl (UniqueViolation ''orders'')
      else Inr (d\<lparr>db_orders := db_orders d @ [(i, o')]\<rparr>))"

text \<open>\<open>order.update\<close> with the fields the caller gives; the row must exist.\<close>

definition updateOrder :: "string \<Rightarrow> (order_row \<Rightarrow> order_row) \<Rightarrow> db \<Rightarrow> error + db" where
  "updateOrder i f d =
     (case findRow (db_orders d) i of
        None \<Rightarrow> Inl (RowNotFound ''orders'')
      | Some o' \<Rightarrow> Inr (d\<lparr>db_orders := putRow i (f o') (db_orders d)\<rparr>))"

section \<open>What the writes keep\<close>

text \<open>The constraints the database enforces on every row of the money tables, and unique keys.\<close>

definition dbOk :: "db \<Rightarrow> bool" where
  "dbOk d \<longleftrightarrow>
     (\<forall>i a. findRow (db_accounts d) i = Some a \<longrightarrow> accountCheck a) \<and>
     (\<forall>k h. findRow (db_holdings d) k = Some h \<longrightarrow> holdingCheck h) \<and>
     (\<forall>k p. findRow (db_positions d) k = Some p \<longrightarrow> positionCheck (snd (snd k)) p) \<and>
     (\<forall>i x. findRow (db_debts d) i = Some x \<longrightarrow> 0 \<le> x)"

named_theorems write_iffs "when a write succeeds and what it leaves"

lemma writeAccount_Inr [write_iffs]:
  "writeAccount i a d = Inr d' \<longleftrightarrow> accountCheck a \<and> d' = d\<lparr>db_accounts := putRow i a (db_accounts d)\<rparr>"
  by (auto simp: writeAccount_def)

lemma writeHolding_Inr [write_iffs]:
  "writeHolding k h d = Inr d' \<longleftrightarrow> holdingCheck h \<and> d' = d\<lparr>db_holdings := putRow k h (db_holdings d)\<rparr>"
  by (auto simp: writeHolding_def)

lemma writePosition_Inr [write_iffs]:
  "writePosition k p d = Inr d' \<longleftrightarrow>
     positionCheck (snd (snd k)) p \<and> d' = d\<lparr>db_positions := putRow k p (db_positions d)\<rparr>"
  by (auto simp: writePosition_def)

lemma writeDebt_Inr [write_iffs]:
  "writeDebt i x d = Inr d' \<longleftrightarrow> 0 \<le> x \<and> d' = d\<lparr>db_debts := putRow i x (db_debts d)\<rparr>"
  by (auto simp: writeDebt_def)

lemma createPnl_Inr [write_iffs]:
  "createPnl i p d = Inr d' \<longleftrightarrow>
     findRow (db_pnl d) i = None \<and> d' = d\<lparr>db_pnl := putRow i p (db_pnl d)\<rparr>"
  by (auto simp: createPnl_def)

lemma createRealized_Inr [write_iffs]:
  "createRealized k r d = Inr d' \<longleftrightarrow>
     findRow (db_realized d) k = None \<and> d' = d\<lparr>db_realized := putRow k r (db_realized d)\<rparr>"
  by (auto simp: createRealized_def)

lemma createProcessed_Inr [write_iffs]:
  "createProcessed e d = Inr d' \<longleftrightarrow>
     e \<notin> set (db_processed d) \<and> d' = d\<lparr>db_processed := db_processed d @ [e]\<rparr>"
  by (auto simp: createProcessed_def)

lemma createTrade_Inr [write_iffs]:
  "createTrade i t d = Inr d' \<longleftrightarrow>
     findRow (db_trades d) i = None \<and> d' = d\<lparr>db_trades := db_trades d @ [(i, t)]\<rparr>"
  by (auto simp: createTrade_def)

lemma createOutbox_Inr [write_iffs]:
  "createOutbox i ev d = Inr d' \<longleftrightarrow>
     i \<notin> set (map ox_eventId (db_outbox d)) \<and>
     d' = d\<lparr>db_outbox := db_outbox d @ [\<lparr>ox_eventId = i, ox_payload = ev, ox_published = False\<rparr>]\<rparr>"
  by (auto simp: createOutbox_def)

lemma createOrderOutbox_Inr [write_iffs]:
  "createOrderOutbox i ev now d = Inr d' \<longleftrightarrow>
     findRow (db_orderOutbox d) i = None \<and>
     d' = d\<lparr>db_orderOutbox := db_orderOutbox d @
            [(i, \<lparr>oo_payload = ev, oo_createdAt = now, oo_published = False\<rparr>)]\<rparr>"
  by (auto simp: createOrderOutbox_def)

lemma createOrder_Inr [write_iffs]:
  "createOrder i o' d = Inr d' \<longleftrightarrow>
     findRow (db_orders d) i = None \<and> d' = d\<lparr>db_orders := db_orders d @ [(i, o')]\<rparr>"
  by (auto simp: createOrder_def)

lemma updateOrder_Inr [write_iffs]:
  "updateOrder i f d = Inr d' \<longleftrightarrow>
     (\<exists>o'. findRow (db_orders d) i = Some o' \<and> d' = d\<lparr>db_orders := putRow i (f o') (db_orders d)\<rparr>)"
  by (auto simp: updateOrder_def split: option.splits)

lemma dbOk_writes:
  "dbOk d \<Longrightarrow> writeAccount i a d = Inr d' \<Longrightarrow> dbOk d'"
  "dbOk d \<Longrightarrow> writeHolding k h d = Inr d' \<Longrightarrow> dbOk d'"
  "dbOk d \<Longrightarrow> writePosition kp p d = Inr d' \<Longrightarrow> dbOk d'"
  "dbOk d \<Longrightarrow> writeDebt i x d = Inr d' \<Longrightarrow> dbOk d'"
  "dbOk d \<Longrightarrow> createPnl i pn d = Inr d' \<Longrightarrow> dbOk d'"
  "dbOk d \<Longrightarrow> createRealized kr r d = Inr d' \<Longrightarrow> dbOk d'"
  "dbOk d \<Longrightarrow> createProcessed i d = Inr d' \<Longrightarrow> dbOk d'"
  "dbOk d \<Longrightarrow> updateOrder i f d = Inr d' \<Longrightarrow> dbOk d'"
  "dbOk d \<Longrightarrow> createOrder i ro d = Inr d' \<Longrightarrow> dbOk d'"
  "dbOk d \<Longrightarrow> createOrderOutbox i ev now d = Inr d' \<Longrightarrow> dbOk d'"
  "dbOk d \<Longrightarrow> dbOk (createLedger l d)"
  by (auto simp: dbOk_def write_iffs createLedger_def rows.look_put_iff split: if_splits)

text \<open>Every order that exists, in creation order: \<open>orderBy: [{ createdAt }, { id }]\<close>.\<close>

definition byCreation :: "(string, order_row) rows \<Rightarrow> (string, order_row) rows" where
  "byCreation os = sort_key (\<lambda>(i, o'). (or_createdAt o', i)) os"

end
