(* ===== verification/Engine.thy ===== *)
theory Engine
  imports Orderbook Database
begin

text \<open>
  \<open>apps/matching-engine/src/engine.ts\<close>: the single writer of the books. It restores the books from
  the database (\<open>bootstrap\<close>), handles the events of the order stream (\<open>handleEvent\<close>) with one
  database transaction per event, and relays the settlement outbox to the trade stream.

  The memory of the engine, the database and what Redis received are one \<open>world\<close>. What the code
  takes from outside (\<open>randomUUID\<close>, \<open>Date.now\<close>, whether a commit, an \<open>XADD\<close>, the update that
  follows it and a snapshot publication succeed) is the argument \<open>io\<close>; an operation that throws
  keeps the changes made before the throw, so it returns the error beside the world. Queries do not
  fail; log lines, the guards for test doubles without some delegates and best-effort browser ticks
  that fail are left out.
\<close>

definition DEPTH :: nat where "DEPTH = 10"

definition SETTLEMENT_OUTBOX_BATCH :: nat where "SETTLEMENT_OUTBOX_BATCH = 500"

definition SEEN_CAP :: nat where "SEEN_CAP = 10000"

definition reserveSymbolByEmail :: "(string, string) rows" where
  "reserveSymbolByEmail = concat (map (\<lambda>symbol.
     case liquidityReserveBotNumber symbol of
       None \<Rightarrow> []
     | Some number \<Rightarrow> [(''bot'' @ showNat (nat number) @ ''@bots.local'', symbol)]) TRADABLE_SYMBOLS)"

definition nextTradeMs :: "int \<Rightarrow> int \<Rightarrow> int" where
  "nextTradeMs previous now = max now (previous + 1)"

text \<open>The copy of a book is the book: values are immutable here.\<close>

definition cloneBook :: "orderbook \<Rightarrow> orderbook" where
  "cloneBook book = book\<lparr>ob_bids := map id (ob_bids book), ob_asks := map id (ob_asks book)\<rparr>"

definition crossesRestoredBook :: "orderbook \<Rightarrow> order_side \<Rightarrow> int \<Rightarrow> bool" where
  "crossesRestoredBook book side price =
     (if side = BUY then
        let bestAsk = foldl (\<lambda>best order. case best of
              None \<Rightarrow> Some (r_price order)
            | Some b \<Rightarrow> if r_price order < b then Some (r_price order) else Some b) None (ob_asks book)
        in (case bestAsk of None \<Rightarrow> False | Some b \<Rightarrow> price \<ge> b)
      else
        let bestBid = foldl (\<lambda>best order. case best of
              None \<Rightarrow> Some (r_price order)
            | Some b \<Rightarrow> if r_price order > b then Some (r_price order) else Some b) None (ob_bids book)
        in (case bestBid of None \<Rightarrow> False | Some b \<Rightarrow> price \<le> b))"

section \<open>State\<close>

record engine =
  en_lastTradeMs :: int
  en_books :: "(string, orderbook) rows"
  en_seen :: "string list"

record snapshot =
  sn_symbol :: string
  sn_bids :: "orderbook_level list"
  sn_asks :: "orderbook_level list"
  sn_lastPrice :: "int option"
  sn_seq :: int

record tick =
  tk_tradeId :: string
  tk_symbol :: string
  tk_price :: int
  tk_qty :: int
  tk_takerSide :: order_side
  tk_ts :: int

record world =
  wo_db :: db
  wo_engine :: engine
  wo_stream :: "trade_event list"
  wo_ticks :: "tick list"
  wo_snapshots :: "snapshot list"

record io =
  io_uuid :: "nat \<Rightarrow> string"
  io_now :: "nat \<Rightarrow> int"
  io_commit :: bool
  io_xadd :: "nat \<Rightarrow> bool"
  io_mark :: "nat \<Rightarrow> bool"
  io_publish :: "nat \<Rightarrow> bool"

definition setBook :: "string \<Rightarrow> orderbook \<Rightarrow> world \<Rightarrow> world" where
  "setBook symbol book w =
     w\<lparr>wo_engine := (wo_engine w)\<lparr>en_books := putRow symbol book (en_books (wo_engine w))\<rparr>\<rparr>"

definition setDb :: "db \<Rightarrow> world \<Rightarrow> world" where
  "setDb d w = w\<lparr>wo_db := d\<rparr>"

section \<open>Reserve accounts and close markers\<close>

definition dedicatedReserveAccountSymbols :: "db \<Rightarrow> (string, string) rows" where
  "dedicatedReserveAccountSymbols d =
     (let users = filter (\<lambda>(i, u). us_isBot u \<and>
            (case us_email u of None \<Rightarrow> False | Some e \<Rightarrow> e \<in> set (map fst reserveSymbolByEmail))) (db_users d);
          symbolByUserId = fold (\<lambda>(i, u) m.
            case us_email u of
              None \<Rightarrow> m
            | Some e \<Rightarrow> (case findRow reserveSymbolByEmail e of None \<Rightarrow> m | Some s \<Rightarrow> putRow i s m)) users []
      in fold (\<lambda>(i, a) m.
           case findRow symbolByUserId (ac_userId a) of None \<Rightarrow> m | Some s \<Rightarrow> putRow i s m)
           (db_accounts d) [])"

definition durableCloseMarkerIds :: "db \<Rightarrow> string list \<Rightarrow> string list" where
  "durableCloseMarkerIds d orderIds = filter (\<lambda>i. i \<in> set (uniq orderIds)) (map fst (db_markers d))"

text \<open>The book without its durably closed orders, and whether one was removed.\<close>

definition pruneDurablyClosedOrders :: "db \<Rightarrow> orderbook \<Rightarrow> bool \<times> orderbook" where
  "pruneDurablyClosedOrders d book =
     fold (\<lambda>orderId (changed, b). case cancelOrder b orderId of
             (Some r, b') \<Rightarrow> (True, b')
           | (None, b') \<Rightarrow> (changed, b'))
       (durableCloseMarkerIds d (map r_orderId (ob_bids book @ ob_asks book))) (False, book)"

definition bookContainsOrder :: "orderbook \<Rightarrow> string \<Rightarrow> bool" where
  "bookContainsOrder book orderId \<longleftrightarrow> list_ex (\<lambda>order. r_orderId order = orderId) (ob_bids book @ ob_asks book)"

definition hasDurableCloseMarker :: "db \<Rightarrow> string \<Rightarrow> bool" where
  "hasDurableCloseMarker d orderId \<longleftrightarrow> orderId \<in> set (durableCloseMarkerIds d [orderId])"

section \<open>Bootstrap\<close>

definition latestTrade :: "db \<Rightarrow> string \<Rightarrow> int option \<Rightarrow> trade_row option" where
  "latestTrade d symbol listedAt =
     (let ts = filter (\<lambda>(i, t). tr_symbol t = symbol \<and>
            (case listedAt of None \<Rightarrow> True | Some l \<Rightarrow> tr_createdAt t \<ge> l)) (db_trades d)
      in case rev (sort_key (\<lambda>(i, t). (tr_createdAt t, i)) ts) of
           [] \<Rightarrow> None
         | (i, t) # _ \<Rightarrow> Some t)"

definition restoredPrice :: "db \<Rightarrow> string \<Rightarrow> symbol_row \<Rightarrow> int" where
  "restoredPrice d symbol row =
     (case latestTrade d symbol (sy_listedAt row) of None \<Rightarrow> sy_lastPrice row | Some t \<Rightarrow> tr_price t)"

text \<open>\<open>trade.groupBy(... _sum qty)\<close> for one order on one side.\<close>

definition tradedQty :: "db \<Rightarrow> order_side \<Rightarrow> string \<Rightarrow> int" where
  "tradedQty d side orderId = sum_list (map (\<lambda>(i, t). tr_qty t)
     (filter (\<lambda>(i, t). (case side of BUY \<Rightarrow> tr_buyOrderId t | SELL \<Rightarrow> tr_sellOrderId t) = orderId)
       (db_trades d)))"

definition isReserveOrder :: "(string, string) rows \<Rightarrow> order_row \<Rightarrow> bool" where
  "isReserveOrder reserve o' \<longleftrightarrow> findRow reserve (or_accountId o') = Some (or_symbol o')"

definition replayableOrders :: "db \<Rightarrow> (string, order_row) rows" where
  "replayableOrders d =
     (let open' = byCreation (filter (\<lambda>(i, o'). or_symbol o' \<in> set TRADABLE_SYMBOLS \<and>
            isActive (or_status o') \<and> or_type o' = LIMIT) (db_orders d));
          closePending = durableCloseMarkerIds d (map fst open')
      in filter (\<lambda>(i, o'). i \<notin> set closePending) open')"

text \<open>One order of the replay: it is listed without matching, unless it is done or would cross.\<close>

definition replayOrder :: "db \<Rightarrow> string \<times> order_row \<Rightarrow> (string, orderbook) rows \<Rightarrow> (string, orderbook) rows" where
  "replayOrder d io' books =
     (case io' of (i, o') \<Rightarrow>
        case (findRow books (or_symbol o'), or_price o') of
          (Some book, Some price) \<Rightarrow>
            (let remaining = remainingRestingQty (or_qty o') (or_filledQty o') (tradedQty d (or_side o') i)
             in if remaining = 0 then books
                else if crossesRestoredBook book (or_side o') price then books
                else
                  let seq = ob_seq book + 1;
                      resting = \<lparr>r_orderId = i, r_accountId = or_accountId o', r_side = or_side o',
                        r_price = price, r_qty = remaining, r_totalQty = or_qty o', r_seq = seq\<rparr>;
                      book' = (case or_side o' of
                        BUY \<Rightarrow> book\<lparr>ob_seq := seq, ob_bids := ob_bids book @ [resting]\<rparr>
                      | SELL \<Rightarrow> book\<lparr>ob_seq := seq, ob_asks := ob_asks book @ [resting]\<rparr>)
                  in putRow (or_symbol o') book' books)
        | _ \<Rightarrow> books)"

definition sortBook :: "orderbook \<Rightarrow> orderbook" where
  "sortBook book = book\<lparr>ob_bids := sort_key (\<lambda>r. (- r_price r, r_seq r)) (ob_bids book),
                        ob_asks := sort_key (\<lambda>r. (r_price r, r_seq r)) (ob_asks book)\<rparr>"

definition bootstrap :: "world \<Rightarrow> world" where
  "bootstrap w =
     (let d = wo_db w;
          symbols = filter (\<lambda>(s, row). s \<in> set TRADABLE_SYMBOLS) (db_symbols d);
          restored = map (\<lambda>(s, row). (s, row, restoredPrice d s row)) symbols;
          books = fold (\<lambda>(s, row, price) m. putRow s (createBook s (Some price)) m) restored
                    (en_books (wo_engine w));
          stale = filter (\<lambda>(s, row, price). sy_lastPrice row \<noteq> price) restored;
          d' = d\<lparr>db_symbols := fold (\<lambda>(s, row, price) m. putRow s (row\<lparr>sy_lastPrice := price\<rparr>) m)
                   stale (db_symbols d)\<rparr>;
          replayable = replayableOrders d;
          reserve = dedicatedReserveAccountSymbols d;
          order = filter (\<lambda>(i, o'). isReserveOrder reserve o') replayable @
                  filter (\<lambda>(i, o'). \<not> isReserveOrder reserve o') replayable;
          books' = fold (replayOrder d) order books
      in w\<lparr>wo_db := d', wo_engine := (wo_engine w)\<lparr>en_books := map (\<lambda>(s, b). (s, sortBook b)) books'\<rparr>\<rparr>)"

section \<open>Deduplication\<close>

definition alreadyApplied :: "world \<Rightarrow> order_event \<Rightarrow> bool" where
  "alreadyApplied w ev =
     (let d = wo_db w; i = oe_orderId ev in
      if i \<in> set (durableCloseMarkerIds d [i]) then True
      else case ev of
        OrderCancelRequested e \<Rightarrow>
          (case findRow (db_orders d) i of None \<Rightarrow> True | Some o' \<Rightarrow> \<not> isActive (or_status o'))
      | OrderPlaced e \<Rightarrow>
          (case findRow (en_books (wo_engine w)) (pl_symbol e) of
             Some book \<Rightarrow> bookContainsOrder book i | None \<Rightarrow> False) \<or>
          (case findRow (db_orders d) i of Some o' \<Rightarrow> or_status o' \<noteq> OPEN | None \<Rightarrow> False) \<or>
          list_ex (\<lambda>(k, t). tr_buyOrderId t = i \<or> tr_sellOrderId t = i) (db_trades d))"

text \<open>The set keeps insertion order; beyond its cap the oldest entry is dropped.\<close>

definition rememberEvent :: "string \<Rightarrow> world \<Rightarrow> world" where
  "rememberEvent eventId w =
     (let en = wo_engine w;
          seen = (if eventId \<in> set (en_seen en) then en_seen en else en_seen en @ [eventId]);
          seen' = (if length seen > SEEN_CAP then tl seen else seen)
      in w\<lparr>wo_engine := en\<lparr>en_seen := seen'\<rparr>\<rparr>)"

definition claimEvent :: "string \<Rightarrow> db \<Rightarrow> bool \<times> db" where
  "claimEvent eventId d =
     (if eventId \<in> set (db_claimed d) then (False, d)
      else (True, d\<lparr>db_claimed := db_claimed d @ [eventId]\<rparr>))"

definition commitTx :: "io \<Rightarrow> (db \<Rightarrow> error + 'a \<times> db) \<Rightarrow> world \<Rightarrow> error + 'a \<times> world" where
  "commitTx x body w =
     bindE (body (wo_db w)) (\<lambda>(r, d).
       if io_commit x then Inr (r, setDb d w) else Inl (Thrown ''transaction''))"

definition claimAlreadyRestingPlacedEvent :: "io \<Rightarrow> string \<Rightarrow> world \<Rightarrow> error + unit \<times> world" where
  "claimAlreadyRestingPlacedEvent x eventId w =
     commitTx x (\<lambda>d. Inr ((), snd (claimEvent eventId d))) w"

section \<open>Settlement events\<close>

text \<open>A fill with the id and the time the engine gives it.\<close>

record persisted_trade =
  pt_id :: string
  pt_createdAt :: int
  pt_fill :: fill

fun stampTrades :: "io \<Rightarrow> nat \<Rightarrow> int \<Rightarrow> fill list \<Rightarrow> persisted_trade list \<times> int" where
  "stampTrades x k lastMs [] = ([], lastMs)"
| "stampTrades x k lastMs (f # fs) =
     (let t = nextTradeMs lastMs (io_now x k); (ts, l) = stampTrades x (Suc k) t fs
      in (\<lparr>pt_id = io_uuid x k, pt_createdAt = t, pt_fill = f\<rparr> # ts, l))"

definition buyOrderOf :: "fill \<Rightarrow> string" where
  "buyOrderOf f = (if f_takerSide f = BUY then f_takerOrderId f else f_makerOrderId f)"

definition sellOrderOf :: "fill \<Rightarrow> string" where
  "sellOrderOf f = (if f_takerSide f = SELL then f_takerOrderId f else f_makerOrderId f)"

definition buyerOf :: "fill \<Rightarrow> string" where
  "buyerOf f = (if f_takerSide f = BUY then f_takerAccountId f else f_makerAccountId f)"

definition sellerOf :: "fill \<Rightarrow> string" where
  "sellerOf f = (if f_takerSide f = SELL then f_takerAccountId f else f_makerAccountId f)"

definition tradeEventOf :: "string \<Rightarrow> persisted_trade \<Rightarrow> trade_executed" where
  "tradeEventOf symbol t =
     \<lparr>te_eventId = pt_id t, te_tradeId = pt_id t, te_symbol = symbol,
      te_price = f_price (pt_fill t), te_qty = f_qty (pt_fill t),
      te_buyOrderId = buyOrderOf (pt_fill t), te_sellOrderId = sellOrderOf (pt_fill t),
      te_buyerAccountId = buyerOf (pt_fill t), te_sellerAccountId = sellerOf (pt_fill t),
      te_takerSide = f_takerSide (pt_fill t), te_ts = pt_createdAt t\<rparr>"

definition tradeRowOf :: "string \<Rightarrow> persisted_trade \<Rightarrow> trade_row" where
  "tradeRowOf symbol t =
     \<lparr>tr_symbol = symbol, tr_price = f_price (pt_fill t), tr_qty = f_qty (pt_fill t),
      tr_buyOrderId = buyOrderOf (pt_fill t), tr_sellOrderId = sellOrderOf (pt_fill t),
      tr_buyerAccountId = buyerOf (pt_fill t), tr_sellerAccountId = sellerOf (pt_fill t),
      tr_takerSide = f_takerSide (pt_fill t), tr_createdAt = pt_createdAt t\<rparr>"

fun closeEvents :: "io \<Rightarrow> nat \<Rightarrow> string \<Rightarrow> closed_order list \<Rightarrow> trade_event list" where
  "closeEvents x k symbol [] = []"
| "closeEvents x k symbol (c # cs) =
     OrderClosed \<lparr>oc_eventId = io_uuid x k, oc_orderId = c_orderId c, oc_accountId = c_accountId c,
       oc_symbol = symbol, oc_side = c_side c, oc_filledQty = c_filledQty c, oc_status = c_status c,
       oc_reason = None, oc_ts = io_now x k\<rparr> # closeEvents x (Suc k) symbol cs"

definition settlementEventsForResult ::
  "io \<Rightarrow> string \<Rightarrow> match_result \<Rightarrow> persisted_trade list \<Rightarrow> trade_event list" where
  "settlementEventsForResult x symbol result trades =
     map (\<lambda>t. TradeExecuted (tradeEventOf symbol t)) trades @
     closeEvents x (length trades) symbol (mr_closedOrders result)"

definition upsertMarker :: "string \<Rightarrow> string \<Rightarrow> db \<Rightarrow> error + db" where
  "upsertMarker orderId eventId d =
     (if findRow (db_markers d) orderId \<noteq> None then Inr d
      else if eventId \<in> snd ` set (db_markers d) then Inl (UniqueViolation ''closed_order_markers'')
      else Inr (d\<lparr>db_markers := db_markers d @ [(orderId, eventId)]\<rparr>))"

definition persistSettlementEvents :: "trade_event list \<Rightarrow> db \<Rightarrow> error + db" where
  "persistSettlementEvents events =
     foldE (\<lambda>event d. bindE (case event of
         OrderClosed e \<Rightarrow> upsertMarker (oc_orderId e) (oc_eventId e) d
       | TradeExecuted e \<Rightarrow> Inr d) (createOutbox (tv_eventId event) event)) events"

definition placedTx ::
  "string \<Rightarrow> string \<Rightarrow> persisted_trade list \<Rightarrow> trade_event list \<Rightarrow> db \<Rightarrow> error + bool \<times> db" where
  "placedTx eventId symbol trades events d0 =
     (case claimEvent eventId d0 of
        (False, d) \<Rightarrow> Inr (False, d)
      | (True, d) \<Rightarrow>
          bindE (foldE (\<lambda>t. createTrade (pt_id t) (tradeRowOf symbol t)) trades d) (\<lambda>d.
          bindE (if trades = [] then Inr d
                 else case findRow (db_symbols d) symbol of
                   None \<Rightarrow> Inl (RowNotFound ''symbols'')
                 | Some row \<Rightarrow> Inr (d\<lparr>db_symbols := putRow symbol
                     (row\<lparr>sy_lastPrice := f_price (pt_fill (last trades))\<rparr>) (db_symbols d)\<rparr>)) (\<lambda>d.
          bindE (persistSettlementEvents events d) (\<lambda>d. Inr (True, d)))))"

text \<open>
  \<open>persistPlacedEvent\<close>: the trade clock advances before the transaction, whatever becomes of it.
  The result is whether the event was applied and whether there are settlement events.
\<close>

definition persistPlacedEvent ::
  "io \<Rightarrow> order_placed \<Rightarrow> orderbook \<Rightarrow> match_result \<Rightarrow> world \<Rightarrow> (error + bool \<times> bool) \<times> world" where
  "persistPlacedEvent x ev book result w =
     (case stampTrades x 0 (en_lastTradeMs (wo_engine w)) (mr_fills result) of
        (trades, lastMs) \<Rightarrow>
          let w1 = w\<lparr>wo_engine := (wo_engine w)\<lparr>en_lastTradeMs := lastMs\<rparr>\<rparr>;
              events = settlementEventsForResult x (ob_symbol book) result trades
          in case commitTx x (placedTx (pl_eventId ev) (ob_symbol book) trades events) w1 of
               Inl e \<Rightarrow> (Inl e, w1)
             | Inr (applied, w2) \<Rightarrow> (Inr (applied, events \<noteq> []), w2))"

definition persistCancelEvent ::
  "io \<Rightarrow> cancel_requested \<Rightarrow> order_closed option \<Rightarrow> world \<Rightarrow> error + bool \<times> world" where
  "persistCancelEvent x ev closing w =
     commitTx x (\<lambda>d0. case claimEvent (cr_eventId ev) d0 of
         (False, d) \<Rightarrow> Inr (False, d)
       | (True, d) \<Rightarrow>
           (case closing of
              None \<Rightarrow> Inr (True, d)
            | Some c \<Rightarrow> bindE (persistSettlementEvents [OrderClosed c] d) (\<lambda>d. Inr (True, d)))) w"

section \<open>Relay\<close>

definition parseSettlementOutboxPayload :: "trade_event \<Rightarrow> error + trade_event" where
  "parseSettlementOutboxPayload ev =
     (if tv_eventId ev = [] then Inl (Thrown ''matching outbox payload has an invalid event identity'')
      else Inr ev)"

definition tickOf :: "trade_executed \<Rightarrow> tick" where
  "tickOf e = \<lparr>tk_tradeId = te_tradeId e, tk_symbol = te_symbol e, tk_price = te_price e,
     tk_qty = te_qty e, tk_takerSide = te_takerSide e, tk_ts = te_ts e\<rparr>"

text \<open>The unpublished rows in id order, at most one batch, as positions in the table.\<close>

definition unpublished :: "db \<Rightarrow> nat list" where
  "unpublished d = take SETTLEMENT_OUTBOX_BATCH
     (filter (\<lambda>i. \<not> ox_published (db_outbox d ! i)) [0..<length (db_outbox d)])"

definition markPublished :: "nat \<Rightarrow> db \<Rightarrow> db" where
  "markPublished i d = d\<lparr>db_outbox := (db_outbox d)[i := (db_outbox d ! i)\<lparr>ox_published := True\<rparr>]\<rparr>"

fun flushRows :: "io \<Rightarrow> nat \<Rightarrow> nat list \<Rightarrow> world \<Rightarrow> error option \<times> world" where
  "flushRows x k [] w = (None, w)"
| "flushRows x k (i # is) w =
     (case parseSettlementOutboxPayload (ox_payload (db_outbox (wo_db w) ! i)) of
        Inl e \<Rightarrow> (Some e, w)
      | Inr event \<Rightarrow>
          if \<not> io_xadd x k then (Some (Thrown ''xadd''), w)
          else let w1 = w\<lparr>wo_stream := wo_stream w @ [event]\<rparr>
               in if \<not> io_mark x k then (Some (Thrown ''outbox update''), w1)
                  else let w2 = setDb (markPublished i (wo_db w1)) w1;
                           w3 = (case event of
                             TradeExecuted e \<Rightarrow> w2\<lparr>wo_ticks := wo_ticks w2 @ [tickOf e]\<rparr>
                           | OrderClosed e \<Rightarrow> w2)
                       in flushRows x (Suc k) is w3)"

definition flushSettlementOutbox :: "io \<Rightarrow> world \<Rightarrow> error option \<times> world" where
  "flushSettlementOutbox x w = flushRows x 0 (unpublished (wo_db w)) w"

definition flushSettlementOutboxSafely :: "io \<Rightarrow> world \<Rightarrow> world" where
  "flushSettlementOutboxSafely x w = snd (flushSettlementOutbox x w)"

text \<open>\<open>k\<close> numbers the snapshot publications of one call; the book's sequence advances in any case.\<close>

definition publishSnapshot :: "io \<Rightarrow> nat \<Rightarrow> string \<Rightarrow> world \<Rightarrow> error option \<times> world" where
  "publishSnapshot x k symbol w =
     (case findRow (en_books (wo_engine w)) symbol of
        None \<Rightarrow> (None, w)
      | Some book0 \<Rightarrow>
          let book = book0\<lparr>ob_seq := ob_seq book0 + 1\<rparr>;
              w1 = setBook symbol book w
          in if io_publish x k
             then (None, w1\<lparr>wo_snapshots := wo_snapshots w1 @
                    [\<lparr>sn_symbol = ob_symbol book, sn_bids = fst (levels book DEPTH),
                      sn_asks = snd (levels book DEPTH), sn_lastPrice = ob_lastPrice book,
                      sn_seq = ob_seq book\<rparr>]\<rparr>)
             else (Some (Thrown ''snapshot''), w1))"

fun publishAll :: "io \<Rightarrow> nat \<Rightarrow> string list \<Rightarrow> world \<Rightarrow> error option \<times> world" where
  "publishAll x k [] w = (None, w)"
| "publishAll x k (s # ss) w =
     (case publishSnapshot x k s w of
        (Some e, w') \<Rightarrow> (Some e, w')
      | (None, w') \<Rightarrow> publishAll x (Suc k) ss w')"

definition publishAllSnapshots :: "io \<Rightarrow> world \<Rightarrow> error option \<times> world" where
  "publishAllSnapshots x w = publishAll x 0 (map fst (en_books (wo_engine w))) w"

section \<open>Handling an event\<close>

text \<open>
  \<open>closeMissingBookOrder\<close>: the close event of an active order that is in no book, when its recorded
  trades agree with the order row.
\<close>

definition closeMissingBookOrder :: "io \<Rightarrow> cancel_requested \<Rightarrow> db \<Rightarrow> order_closed option" where
  "closeMissingBookOrder x ev d =
     (case findRow (db_orders d) (cr_orderId ev) of
        None \<Rightarrow> None
      | Some o' \<Rightarrow>
          if \<not> isActive (or_status o') then None
          else if or_symbol o' \<noteq> cr_symbol ev then None
          else let recordedQty = tradedQty d (or_side o') (cr_orderId ev);
                   isValidQty = (or_qty o' > 0 \<and> or_filledQty o' \<ge> 0 \<and> or_filledQty o' \<le> or_qty o')
               in if \<not> isValidQty \<or> recordedQty \<noteq> or_filledQty o' then None
                  else Some \<lparr>oc_eventId = io_uuid x 0, oc_orderId = cr_orderId ev,
                    oc_accountId = or_accountId o', oc_symbol = or_symbol o', oc_side = or_side o',
                    oc_filledQty = or_filledQty o',
                    oc_status = (if or_filledQty o' = or_qty o' then FILLED else CANCELED),
                    oc_reason = Some ''orphaned_book_cancel'', oc_ts = io_now x 0\<rparr>)"

definition closeOfRemoved :: "io \<Rightarrow> cancel_requested \<Rightarrow> resting_order \<Rightarrow> order_closed" where
  "closeOfRemoved x ev removed =
     \<lparr>oc_eventId = io_uuid x 0, oc_orderId = r_orderId removed, oc_accountId = r_accountId removed,
      oc_symbol = cr_symbol ev, oc_side = r_side removed,
      oc_filledQty = r_totalQty removed - r_qty removed, oc_status = CANCELED,
      oc_reason = Some ''user_cancel'', oc_ts = io_now x 0\<rparr>"

definition incomingOf :: "order_placed \<Rightarrow> incoming_order" where
  "incomingOf ev =
     \<lparr>in_orderId = pl_orderId ev, in_accountId = pl_accountId ev, in_side = pl_side ev,
      in_type = pl_type ev, in_price = pl_price ev, in_qty = pl_qty ev, in_ts = pl_ts ev\<rparr>"

definition handlePlaced :: "io \<Rightarrow> order_placed \<Rightarrow> orderbook \<Rightarrow> world \<Rightarrow> error option \<times> world" where
  "handlePlaced x ev book w =
     (case applyOrder (cloneBook book) (incomingOf ev) of
        (result, staged) \<Rightarrow>
          (case persistPlacedEvent x ev staged result w of
             (Inl e, w1) \<Rightarrow> (Some e, w1)
           | (Inr (applied, hasEvents), w1) \<Rightarrow>
               if \<not> applied
               then (None, flushSettlementOutboxSafely x (rememberEvent (pl_eventId ev) w1))
               else let w2 = rememberEvent (pl_eventId ev) (setBook (pl_symbol ev) staged w1);
                        w3 = (if hasEvents then flushSettlementOutboxSafely x w2 else w2)
                    in publishSnapshot x 1 (pl_symbol ev) w3))"

definition handleCancel :: "io \<Rightarrow> cancel_requested \<Rightarrow> orderbook \<Rightarrow> world \<Rightarrow> error option \<times> world" where
  "handleCancel x ev book w =
     (case cancelOrder (cloneBook book) (cr_orderId ev) of
        (removed, staged) \<Rightarrow>
          let closing = (case removed of
                Some r \<Rightarrow> Some (closeOfRemoved x ev r)
              | None \<Rightarrow> closeMissingBookOrder x ev (wo_db w))
          in case persistCancelEvent x ev closing w of
               Inl e \<Rightarrow> (Some e, w)
             | Inr (applied, w1) \<Rightarrow>
                 if \<not> applied
                 then (None, flushSettlementOutboxSafely x (rememberEvent (cr_eventId ev) w1))
                 else let w2 = rememberEvent (cr_eventId ev) (setBook (cr_symbol ev) staged w1);
                          w3 = (if closing \<noteq> None then flushSettlementOutboxSafely x w2 else w2)
                      in publishSnapshot x 1 (cr_symbol ev) w3)"

text \<open>
  The choice of the duplicate test: what the event-id claim does not decide. The world changes only
  when an order already resting in the book claims its event.
\<close>

definition duplicateTest :: "io \<Rightarrow> bool \<Rightarrow> order_event \<Rightarrow> orderbook \<Rightarrow> world \<Rightarrow> error + bool \<times> world" where
  "duplicateTest x recovery ev book w =
     (case ev of
        OrderPlaced e \<Rightarrow>
          if bookContainsOrder book (pl_orderId e) then
            bindE (claimAlreadyRestingPlacedEvent x (pl_eventId e) w) (\<lambda>(u, w'). Inr (True, w'))
          else if hasDurableCloseMarker (wo_db w) (pl_orderId e) then Inr (True, w)
          else if recovery then Inr (alreadyApplied w ev, w)
          else Inr (False, w)
      | OrderCancelRequested e \<Rightarrow>
          if \<not> recovery then Inr (hasDurableCloseMarker (wo_db w) (cr_orderId e), w)
          else Inr (alreadyApplied w ev, w))"

definition handleKnown :: "io \<Rightarrow> bool \<Rightarrow> order_event \<Rightarrow> orderbook \<Rightarrow> world \<Rightarrow> error option \<times> world" where
  "handleKnown x recovery ev book w =
     (if oe_eventId ev \<in> set (en_seen (wo_engine w)) then (None, flushSettlementOutboxSafely x w)
      else case duplicateTest x recovery ev book w of
        Inl e \<Rightarrow> (Some e, w)
      | Inr (True, w1) \<Rightarrow> (None, flushSettlementOutboxSafely x (rememberEvent (oe_eventId ev) w1))
      | Inr (False, w1) \<Rightarrow>
          (case ev of
             OrderPlaced e \<Rightarrow> handlePlaced x e book w1
           | OrderCancelRequested e \<Rightarrow> handleCancel x e book w1))"

definition handleEvent :: "io \<Rightarrow> bool \<Rightarrow> order_event \<Rightarrow> world \<Rightarrow> error option \<times> world" where
  "handleEvent x recovery ev w =
     (case findRow (en_books (wo_engine w)) (oe_symbol ev) of
        None \<Rightarrow>
          (case findRow (db_orders (wo_db w)) (oe_orderId ev) of
             Some o' \<Rightarrow>
               if or_symbol o' = oe_symbol ev \<and> isActive (or_status o')
               then (Some (Thrown ''active order for unconfigured symbol''), w) else (None, w)
           | None \<Rightarrow> (None, w))
      | Some book0 \<Rightarrow>
          (case pruneDurablyClosedOrders (wo_db w) book0 of
             (changed, book) \<Rightarrow>
               let w1 = setBook (oe_symbol ev) book w
               in if changed then
                    (case publishSnapshot x 0 (oe_symbol ev) w1 of
                       (Some e, w2) \<Rightarrow> (Some e, w2)
                     | (None, w2) \<Rightarrow> handleKnown x recovery ev (book\<lparr>ob_seq := ob_seq book + 1\<rparr>) w2)
                  else handleKnown x recovery ev book w1))"

end
