(* ===== verification/Engine_Props.thy ===== *)
theory Engine_Props
  imports Engine Orderbook_Props
begin

text \<open>
  What the matching engine guarantees: the books stay well formed, an event has its effect once and
  whole, the outbox describes exactly the recorded trades, closed orders never trade again, the relay
  delivers in order, and a restart rebuilds well-formed books.
\<close>

section \<open>Frame conditions\<close>

text \<open>What an event changes durably; the relay only sets \<open>published\<close> flags.\<close>

definition durable :: "db \<Rightarrow> (string, trade_row) rows \<times> trade_event list \<times> (string, string) rows \<times> string list \<times> (string, symbol_row) rows" where
  "durable d = (db_trades d, map ox_payload (db_outbox d), db_markers d, db_claimed d, db_symbols d)"

lemma setBook_simps [simp]:
  "wo_db (setBook s b w) = wo_db w" "wo_stream (setBook s b w) = wo_stream w"
  "en_books (wo_engine (setBook s b w)) = putRow s b (en_books (wo_engine w))"
  "en_seen (wo_engine (setBook s b w)) = en_seen (wo_engine w)"
  "en_lastTradeMs (wo_engine (setBook s b w)) = en_lastTradeMs (wo_engine w)"
  by (simp_all add: setBook_def)

lemma setDb_simps [simp]:
  "wo_db (setDb d w) = d" "wo_engine (setDb d w) = wo_engine w" "wo_stream (setDb d w) = wo_stream w"
  by (simp_all add: setDb_def)

lemma rememberEvent_simps [simp]:
  "wo_db (rememberEvent i w) = wo_db w" "wo_stream (rememberEvent i w) = wo_stream w"
  "en_books (wo_engine (rememberEvent i w)) = en_books (wo_engine w)"
  "en_lastTradeMs (wo_engine (rememberEvent i w)) = en_lastTradeMs (wo_engine w)"
  by (simp_all add: rememberEvent_def Let_def)

lemma rememberEvent_seen:
  assumes "length (en_seen (wo_engine w)) \<le> SEEN_CAP"
  shows "i \<in> set (en_seen (wo_engine (rememberEvent i w)))"
    and "length (en_seen (wo_engine (rememberEvent i w))) \<le> SEEN_CAP"
  using assms
  by (cases "en_seen (wo_engine w)"; auto simp: rememberEvent_def Let_def SEEN_CAP_def)+

lemma markPublished_payload: "map ox_payload (db_outbox (markPublished i d)) = map ox_payload (db_outbox d)"
proof (cases "i < length (db_outbox d)")
  case True
  then show ?thesis by (simp add: markPublished_def map_update list_update_same_conv)
next
  case False
  then show ?thesis by (simp add: markPublished_def list_update_beyond)
qed

lemma durable_markPublished [simp]: "durable (markPublished i d) = durable d"
  using markPublished_payload [of i d] by (simp add: durable_def markPublished_def)

lemma markPublished_orders [simp]: "db_orders (markPublished i d) = db_orders d"
  by (simp add: markPublished_def)

lemma flushRows_frame:
  "durable (wo_db (snd (flushRows x k is w))) = durable (wo_db w) \<and>
   wo_engine (snd (flushRows x k is w)) = wo_engine w \<and>
   db_orders (wo_db (snd (flushRows x k is w))) = db_orders (wo_db w)"
proof (induction "is" arbitrary: k w)
  case (Cons i "is")
  show ?case
    by (auto simp: Let_def Cons.IH split: sum.split trade_event.split)
qed simp

lemma flush_frame [simp]:
  "durable (wo_db (flushSettlementOutboxSafely x w)) = durable (wo_db w)"
  "wo_engine (flushSettlementOutboxSafely x w) = wo_engine w"
  "db_orders (wo_db (flushSettlementOutboxSafely x w)) = db_orders (wo_db w)"
  using flushRows_frame by (simp_all add: flushSettlementOutboxSafely_def flushSettlementOutbox_def)

lemma publishSnapshot_db [simp]: "wo_db (snd (publishSnapshot x k s w)) = wo_db w"
  by (simp add: publishSnapshot_def Let_def split: option.split)

lemma publishSnapshot_engine:
  "en_seen (wo_engine (snd (publishSnapshot x k s w))) = en_seen (wo_engine w)"
  "en_lastTradeMs (wo_engine (snd (publishSnapshot x k s w))) = en_lastTradeMs (wo_engine w)"
  by (simp_all add: publishSnapshot_def Let_def split: option.split)

lemma publishSnapshot_books:
  "findRow (en_books (wo_engine (snd (publishSnapshot x k s w)))) t =
    (if s = t then map_option (\<lambda>b. b\<lparr>ob_seq := ob_seq b + 1\<rparr>) (findRow (en_books (wo_engine w)) t)
     else findRow (en_books (wo_engine w)) t)"
  by (simp add: publishSnapshot_def Let_def split: option.split)

section \<open>The books\<close>

definition bookFor :: "string \<Rightarrow> orderbook \<Rightarrow> bool" where
  "bookFor s b \<longleftrightarrow> bookInv b \<and> ob_symbol b = s"

definition engineInv :: "world \<Rightarrow> bool" where
  "engineInv w \<longleftrightarrow> (\<forall>s b. findRow (en_books (wo_engine w)) s = Some b \<longrightarrow> bookFor s b) \<and>
     length (en_seen (wo_engine w)) \<le> SEEN_CAP"

definition eventOk :: "order_event \<Rightarrow> bool" where
  "eventOk ev \<longleftrightarrow> (case ev of OrderPlaced e \<Rightarrow> 0 < pl_qty e | OrderCancelRequested e \<Rightarrow> True)"

lemma bookInv_seq: "bookInv b \<Longrightarrow> bookInv (b\<lparr>ob_seq := ob_seq b + 1\<rparr>)"
  by (auto simp: bookInv_def uncrossed_def bookIds_def intro: sideInv_mono)

lemma bookFor_seq: "bookFor s b \<Longrightarrow> bookFor s (b\<lparr>ob_seq := ob_seq b + 1\<rparr>)"
  by (simp add: bookFor_def bookInv_seq)

lemma cloneBook_id [simp]: "cloneBook b = b"
  by (simp add: cloneBook_def)

lemma cancelOrder_symbol: "ob_symbol (snd (cancelOrder b i)) = ob_symbol b"
  by (auto simp: cancelOrder_def split: option.split)

lemma applyOrder_symbol: "ob_symbol (snd (applyOrder b inc)) = ob_symbol b"
  by (auto simp: applyOrder_def Let_def insertResting_def setOpposite_def split: order_side.split)

lemma cancelOrder_bookFor: "bookFor s b \<Longrightarrow> bookFor s (snd (cancelOrder b i))"
  using cancelOrder_facts [of b i] by (simp add: bookFor_def cancelOrder_symbol)

lemma cancelOrder_ids:
  "bookInv b \<Longrightarrow> set (bookIds (snd (cancelOrder b i))) = set (bookIds b) - {i}"
  using cancelOrder_facts [of b i]
  by (auto simp: bookIds_def split: option.splits)

lemma engineInv_setBook: "engineInv w \<Longrightarrow> bookFor s b \<Longrightarrow> engineInv (setBook s b w)"
  by (auto simp: engineInv_def rows.look_put_iff split: if_splits)

lemma engineInv_publish: "engineInv w \<Longrightarrow> engineInv (snd (publishSnapshot x k s w))"
  by (auto simp: engineInv_def publishSnapshot_books publishSnapshot_engine bookFor_seq split: if_splits)

lemma engineInv_remember: "engineInv w \<Longrightarrow> engineInv (rememberEvent i w)"
  using rememberEvent_seen(2) [of w i] by (simp add: engineInv_def)

lemma engineInv_cong:
  "en_books (wo_engine w') = en_books (wo_engine w) \<Longrightarrow> en_seen (wo_engine w') = en_seen (wo_engine w) \<Longrightarrow>
    engineInv w' = engineInv w"
  by (simp add: engineInv_def)

text \<open>Pruning removes exactly the durably closed orders.\<close>

lemma prune_fold:
  assumes "bookFor s b"
  shows "bookFor s (snd (fold (\<lambda>orderId (changed, b). case cancelOrder b orderId of
        (Some r, b') \<Rightarrow> (True, b') | (None, b') \<Rightarrow> (changed, b')) is (c, b))) \<and>
    set (bookIds (snd (fold (\<lambda>orderId (changed, b). case cancelOrder b orderId of
        (Some r, b') \<Rightarrow> (True, b') | (None, b') \<Rightarrow> (changed, b')) is (c, b)))) = set (bookIds b) - set is"
  using assms
proof (induction "is" arbitrary: b c)
  case (Cons i "is")
  obtain r b' where rb: "cancelOrder b i = (r, b')" by (cases "cancelOrder b i")
  have b': "bookFor s b'" using cancelOrder_bookFor [OF Cons.prems, of i] rb by simp
  have ids: "set (bookIds b') = set (bookIds b) - {i}"
    using cancelOrder_ids [of b i] Cons.prems rb by (simp add: bookFor_def)
  show ?case
    using Cons.IH [OF b'] rb ids by (cases r) auto
qed simp

lemma prune_facts:
  assumes "bookFor s b"
  shows "bookFor s (snd (pruneDurablyClosedOrders d b))"
    and "set (bookIds (snd (pruneDurablyClosedOrders d b))) \<inter> fst ` set (db_markers d) = {}"
    and "set (bookIds (snd (pruneDurablyClosedOrders d b))) \<subseteq> set (bookIds b)"
  using prune_fold [OF assms, of "durableCloseMarkerIds d (map r_orderId (ob_bids b @ ob_asks b))" False]
  by (auto simp: pruneDurablyClosedOrders_def durableCloseMarkerIds_def bookIds_def)

lemma hasDurableCloseMarker_iff: "hasDurableCloseMarker d i \<longleftrightarrow> i \<in> fst ` set (db_markers d)"
  by (auto simp: hasDurableCloseMarker_def durableCloseMarkerIds_def)

lemma bookContainsOrder_iff: "bookContainsOrder b i \<longleftrightarrow> i \<in> set (bookIds b)"
  by (auto simp: bookContainsOrder_def bookIds_def list_ex_iff)

section \<open>One event, step by step\<close>

lemma commitTx_Inr:
  "commitTx x body w = Inr (r, w') \<longleftrightarrow>
    (\<exists>d. body (wo_db w) = Inr (r, d) \<and> io_commit x \<and> w' = setDb d w)"
  by (auto simp: commitTx_def bindE_eq_Inr_iff split: if_splits prod.splits)

lemma duplicateTest_facts:
  assumes "duplicateTest x r ev b w = Inr (dup, w')"
  shows "wo_engine w' = wo_engine w" and "wo_stream w' = wo_stream w"
    and "\<not> dup \<Longrightarrow> w' = w \<and> (case ev of
        OrderPlaced e \<Rightarrow> pl_orderId e \<notin> set (bookIds b) \<and> \<not> hasDurableCloseMarker (wo_db w) (pl_orderId e)
      | OrderCancelRequested e \<Rightarrow> \<not> hasDurableCloseMarker (wo_db w) (cr_orderId e))"
    and "db_trades (wo_db w') = db_trades (wo_db w)" "db_outbox (wo_db w') = db_outbox (wo_db w)"
    and "db_markers (wo_db w') = db_markers (wo_db w)" "db_symbols (wo_db w') = db_symbols (wo_db w)"
  using assms
  by (auto simp: duplicateTest_def claimAlreadyRestingPlacedEvent_def bindE_eq_Inr_iff commitTx_Inr
      claimEvent_def bookContainsOrder_iff alreadyApplied_def Let_def hasDurableCloseMarker_def
      split: order_event.splits if_splits)

text \<open>The durable effect of a matched order.\<close>

definition placedEffect ::
  "io \<Rightarrow> order_placed \<Rightarrow> orderbook \<Rightarrow> int \<Rightarrow> persisted_trade list \<times> trade_event list" where
  "placedEffect x ev book lastMs =
     (let result = fst (applyOrder book (incomingOf ev)); trades = fst (stampTrades x 0 lastMs (mr_fills result))
      in (trades, settlementEventsForResult x (ob_symbol book) result trades))"

lemma foldE_createTrade:
  "foldE (\<lambda>t. createTrade (pt_id t) (tradeRowOf s t)) ts d = Inr d' \<Longrightarrow>
    d' = d\<lparr>db_trades := db_trades d @ map (\<lambda>t. (pt_id t, tradeRowOf s t)) ts\<rparr>"
proof (induction ts arbitrary: d)
  case (Cons t ts)
  then have "foldE (\<lambda>t. createTrade (pt_id t) (tradeRowOf s t)) ts
      (d\<lparr>db_trades := db_trades d @ [(pt_id t, tradeRowOf s t)]\<rparr>) = Inr d'"
    by (auto simp: bindE_eq_Inr_iff createTrade_Inr)
  from Cons.IH [OF this] show ?case by simp
qed simp

lemma foldE_Cons_iff: "foldE f (x # xs) s = Inr t \<longleftrightarrow> (\<exists>s'. f x s = Inr s' \<and> foldE f xs s' = Inr t)"
  by (simp add: bindE_eq_Inr_iff)

definition closeIds :: "trade_event list \<Rightarrow> string list" where
  "closeIds evs = concat (map (\<lambda>e. case e of OrderClosed c \<Rightarrow> [oc_orderId c] | TradeExecuted t \<Rightarrow> []) evs)"

lemma persistSettlementEvents_facts:
  assumes "persistSettlementEvents evs d = Inr d'"
  shows "map ox_payload (db_outbox d') = map ox_payload (db_outbox d) @ evs \<and>
    db_trades d' = db_trades d \<and> db_claimed d' = db_claimed d \<and> db_symbols d' = db_symbols d \<and>
    db_orders d' = db_orders d \<and>
    fst ` set (db_markers d') = fst ` set (db_markers d) \<union> set (closeIds evs)"
  using assms
proof (induction evs arbitrary: d)
  case Nil
  then show ?case by (simp add: persistSettlementEvents_def closeIds_def)
next
  case (Cons e evs)
  from Cons.prems obtain d1 where d1: "persistSettlementEvents evs d1 = Inr d'"
    and step: "bindE (case e of OrderClosed c \<Rightarrow> upsertMarker (oc_orderId c) (oc_eventId c) d
       | TradeExecuted t \<Rightarrow> Inr d) (createOutbox (tv_eventId e) e) = Inr d1"
    by (auto simp: persistSettlementEvents_def bindE_eq_Inr_iff)
  have "map ox_payload (db_outbox d1) = map ox_payload (db_outbox d) @ [e] \<and>
    db_trades d1 = db_trades d \<and> db_claimed d1 = db_claimed d \<and> db_symbols d1 = db_symbols d \<and>
    db_orders d1 = db_orders d \<and>
    fst ` set (db_markers d1) = fst ` set (db_markers d) \<union> set (closeIds [e])"
    using step
    by (auto simp: bindE_eq_Inr_iff createOutbox_Inr upsertMarker_def closeIds_def findRow_def
        map_of_eq_None_iff split: trade_event.splits if_splits)
  with Cons.IH [OF d1] show ?case by (auto simp: closeIds_def)
qed

lemma placedTx_facts:
  assumes "placedTx i s ts evs d = Inr (applied, d')"
  shows "if applied then i \<notin> set (db_claimed d) \<and> db_claimed d' = db_claimed d @ [i] \<and>
      db_trades d' = db_trades d @ map (\<lambda>t. (pt_id t, tradeRowOf s t)) ts \<and>
      map ox_payload (db_outbox d') = map ox_payload (db_outbox d) @ evs \<and> db_orders d' = db_orders d \<and>
      fst ` set (db_markers d') = fst ` set (db_markers d) \<union> set (closeIds evs)
    else i \<in> set (db_claimed d) \<and> d' = d"
proof (cases "i \<in> set (db_claimed d)")
  case True
  then show ?thesis using assms by (simp add: placedTx_def claimEvent_def)
next
  case False
  let ?d0 = "d\<lparr>db_claimed := db_claimed d @ [i]\<rparr>"
  from assms False obtain d1 d2 where
    t: "foldE (\<lambda>t. createTrade (pt_id t) (tradeRowOf s t)) ts ?d0 = Inr d1"
    and p: "(if ts = [] then Inr d1
        else case findRow (db_symbols d1) s of None \<Rightarrow> Inl (RowNotFound ''symbols'')
          | Some row \<Rightarrow> Inr (d1\<lparr>db_symbols := putRow s (row\<lparr>sy_lastPrice := f_price (pt_fill (last ts))\<rparr>)
              (db_symbols d1)\<rparr>)) = Inr d2"
    and e: "persistSettlementEvents evs d2 = Inr d'" and ap: "applied"
    by (auto simp: placedTx_def claimEvent_def bindE_eq_Inr_iff)
  have d2: "db_trades d2 = db_trades d1 \<and> db_outbox d2 = db_outbox d1 \<and> db_claimed d2 = db_claimed d1 \<and>
      db_markers d2 = db_markers d1 \<and> db_orders d2 = db_orders d1"
    using p by (auto split: if_splits option.splits)
  show ?thesis
    using foldE_createTrade [OF t] d2 persistSettlementEvents_facts [OF e] ap False by simp
qed

lemma stampTrades_fst_snd: "stampTrades x k l fs = (fst (stampTrades x k l fs), snd (stampTrades x k l fs))"
  by simp

text \<open>The two outcomes of a step on one book: nothing durable, or one claimed event with its effect.\<close>

definition untouched :: "world \<Rightarrow> world \<Rightarrow> bool" where
  "untouched w w' \<longleftrightarrow> durable (wo_db w') = durable (wo_db w) \<and>
     en_books (wo_engine w') = en_books (wo_engine w)"

definition recorded ::
  "string \<Rightarrow> string \<Rightarrow> (string, trade_row) rows \<Rightarrow> trade_event list \<Rightarrow> orderbook \<Rightarrow> world \<Rightarrow> world \<Rightarrow> bool" where
  "recorded i s trades evs staged w w' \<longleftrightarrow>
     i \<notin> set (db_claimed (wo_db w)) \<and> db_claimed (wo_db w') = db_claimed (wo_db w) @ [i] \<and>
     db_trades (wo_db w') = db_trades (wo_db w) @ trades \<and>
     map ox_payload (db_outbox (wo_db w')) = map ox_payload (db_outbox (wo_db w)) @ evs \<and>
     fst ` set (db_markers (wo_db w')) = fst ` set (db_markers (wo_db w)) \<union> set (closeIds evs) \<and>
     (\<forall>t. findRow (en_books (wo_engine w')) t =
        (if t = s then Some (staged\<lparr>ob_seq := ob_seq staged + 1\<rparr>) else findRow (en_books (wo_engine w)) t))"

lemma durable_proj:
  assumes "durable d = durable d'"
  shows "db_trades d = db_trades d'" "map ox_payload (db_outbox d) = map ox_payload (db_outbox d')"
    "db_markers d = db_markers d'" "db_claimed d = db_claimed d'" "db_symbols d = db_symbols d'"
  using assms by (simp_all add: durable_def)

text \<open>The tail both handlers share after an applied transaction.\<close>

lemma applied_tail:
  fixes w1 :: world
  assumes "w2 = rememberEvent i (setBook s staged w1)"
    and "w3 = (if b then flushSettlementOutboxSafely x w2 else w2)"
    and "publishSnapshot x 1 s w3 = (err, w')"
  shows "durable (wo_db w') = durable (wo_db w1)"
    and "findRow (en_books (wo_engine w')) t =
      (if t = s then Some (staged\<lparr>ob_seq := ob_seq staged + 1\<rparr>) else findRow (en_books (wo_engine w1)) t)"
    and "en_seen (wo_engine w') = en_seen (wo_engine (rememberEvent i w1))"
    and "en_lastTradeMs (wo_engine w') = en_lastTradeMs (wo_engine w1)"
proof -
  have w': "w' = snd (publishSnapshot x 1 s w3)" using assms(3) by simp
  have e: "wo_engine w3 = wo_engine w2" "durable (wo_db w3) = durable (wo_db w2)"
    using assms(2) by simp_all
  show "durable (wo_db w') = durable (wo_db w1)" by (simp add: w' e assms(1))
  show "findRow (en_books (wo_engine w')) t =
      (if t = s then Some (staged\<lparr>ob_seq := ob_seq staged + 1\<rparr>) else findRow (en_books (wo_engine w1)) t)"
    by (simp add: w' publishSnapshot_books e assms(1))
  show "en_seen (wo_engine w') = en_seen (wo_engine (rememberEvent i w1))"
    by (simp add: w' publishSnapshot_engine e assms(1) rememberEvent_def setBook_def Let_def)
  show "en_lastTradeMs (wo_engine w') = en_lastTradeMs (wo_engine w1)"
    by (simp add: w' publishSnapshot_engine e assms(1))
qed

lemma handlePlaced_outcome:
  assumes "handlePlaced x e book w = (err, w')" "placedEffect x e book (en_lastTradeMs (wo_engine w)) = (ts, evs)"
  shows "untouched w w' \<and> (err = None \<longrightarrow> pl_eventId e \<in> set (db_claimed (wo_db w))) \<or>
    recorded (pl_eventId e) (pl_symbol e) (map (\<lambda>t. (pt_id t, tradeRowOf (ob_symbol book) t)) ts) evs
      (snd (applyOrder book (incomingOf e))) w w'"
    and "err = None \<Longrightarrow> length (en_seen (wo_engine w)) \<le> SEEN_CAP \<Longrightarrow> pl_eventId e \<in> set (en_seen (wo_engine w'))"
    and "en_seen (wo_engine w') \<in> {en_seen (wo_engine w), en_seen (wo_engine (rememberEvent (pl_eventId e) w))}"
    and "en_lastTradeMs (wo_engine w') =
      snd (stampTrades x 0 (en_lastTradeMs (wo_engine w)) (mr_fills (fst (applyOrder book (incomingOf e)))))"
proof -
  obtain result staged where ao: "applyOrder book (incomingOf e) = (result, staged)"
    by (cases "applyOrder book (incomingOf e)")
  have sym: "ob_symbol staged = ob_symbol book" using applyOrder_symbol [of book "incomingOf e"] ao by simp
  define lastMs where "lastMs = snd (stampTrades x 0 (en_lastTradeMs (wo_engine w)) (mr_fills result))"
  have st: "stampTrades x 0 (en_lastTradeMs (wo_engine w)) (mr_fills result) = (ts, lastMs)"
    and evs: "evs = settlementEventsForResult x (ob_symbol book) result ts"
    using assms(2) by (auto simp: placedEffect_def Let_def ao lastMs_def prod_eq_iff)
  define w1 where "w1 = w\<lparr>wo_engine := (wo_engine w)\<lparr>en_lastTradeMs := lastMs\<rparr>\<rparr>"
  have w1: "wo_db w1 = wo_db w" "en_books (wo_engine w1) = en_books (wo_engine w)"
    "en_seen (wo_engine w1) = en_seen (wo_engine w)" "en_lastTradeMs (wo_engine w1) = lastMs"
    "en_seen (wo_engine (rememberEvent i w1)) = en_seen (wo_engine (rememberEvent i w))" for i
    by (simp_all add: w1_def rememberEvent_def Let_def)
  let ?tx = "commitTx x (placedTx (pl_eventId e) (ob_symbol book) ts evs) w1"
  have pp: "persistPlacedEvent x e staged result w =
    (case ?tx of Inl er \<Rightarrow> (Inl er, w1) | Inr (applied, w2) \<Rightarrow> (Inr (applied, evs \<noteq> []), w2))"
    unfolding persistPlacedEvent_def st prod.case Let_def w1_def evs sym ..
  note hp = assms(1) [unfolded handlePlaced_def cloneBook_id ao prod.case pp]
  have "(untouched w w' \<and> (err = None \<longrightarrow> pl_eventId e \<in> set (db_claimed (wo_db w))) \<or>
      recorded (pl_eventId e) (pl_symbol e) (map (\<lambda>t. (pt_id t, tradeRowOf (ob_symbol book) t)) ts) evs staged w w') \<and>
    (err = None \<longrightarrow> length (en_seen (wo_engine w)) \<le> SEEN_CAP \<longrightarrow> pl_eventId e \<in> set (en_seen (wo_engine w'))) \<and>
    en_seen (wo_engine w') \<in> {en_seen (wo_engine w), en_seen (wo_engine (rememberEvent (pl_eventId e) w))} \<and>
    en_lastTradeMs (wo_engine w') = lastMs"
  proof (cases ?tx)
    case (Inl er)
    then have "w' = w1" "err = Some er" using hp by simp_all
    then show ?thesis using w1 by (simp add: untouched_def)
  next
    case (Inr r)
    obtain applied w2 where r: "r = (applied, w2)" by (cases r)
    from Inr r obtain d where d: "placedTx (pl_eventId e) (ob_symbol book) ts evs (wo_db w1) = Inr (applied, d)"
      and w2: "w2 = setDb d w1" by (auto simp: commitTx_Inr)
    note F = placedTx_facts [OF d]
    show ?thesis
    proof (cases applied)
      case False
      then have w': "err = None" "w' = flushSettlementOutboxSafely x (rememberEvent (pl_eventId e) w2)"
        using hp Inr r by simp_all
      have "en_seen (wo_engine w') = en_seen (wo_engine (rememberEvent (pl_eventId e) w))"
        by (simp add: w' w2 w1_def rememberEvent_def Let_def setDb_def)
      then show ?thesis
        using w' F False w1 w2 rememberEvent_seen(1) [of w "pl_eventId e"] by (simp add: untouched_def)
    next
      case True
      then have pub: "publishSnapshot x 1 (pl_symbol e)
          (if evs \<noteq> [] then flushSettlementOutboxSafely x (rememberEvent (pl_eventId e) (setBook (pl_symbol e) staged w2))
           else rememberEvent (pl_eventId e) (setBook (pl_symbol e) staged w2)) = (err, w')"
        using hp Inr r by (simp add: Let_def)
      note T = applied_tail [OF refl refl pub]
      have seen: "en_seen (wo_engine w') = en_seen (wo_engine (rememberEvent (pl_eventId e) w))"
        using T(3) by (simp add: w2 w1_def rememberEvent_def Let_def setDb_def)
      have "recorded (pl_eventId e) (pl_symbol e) (map (\<lambda>t. (pt_id t, tradeRowOf (ob_symbol book) t)) ts) evs staged w w'"
        using durable_proj [OF T(1)] T(2) F True w1 w2 by (simp add: recorded_def)
      moreover have "en_lastTradeMs (wo_engine w') = lastMs" using T(4) w1 w2 by simp
      ultimately show ?thesis using seen rememberEvent_seen(1) [of w "pl_eventId e"] by simp
    qed
  qed
  then show "untouched w w' \<and> (err = None \<longrightarrow> pl_eventId e \<in> set (db_claimed (wo_db w))) \<or>
    recorded (pl_eventId e) (pl_symbol e) (map (\<lambda>t. (pt_id t, tradeRowOf (ob_symbol book) t)) ts) evs
      (snd (applyOrder book (incomingOf e))) w w'"
    and "err = None \<Longrightarrow> length (en_seen (wo_engine w)) \<le> SEEN_CAP \<Longrightarrow> pl_eventId e \<in> set (en_seen (wo_engine w'))"
    and "en_seen (wo_engine w') \<in> {en_seen (wo_engine w), en_seen (wo_engine (rememberEvent (pl_eventId e) w))}"
    and "en_lastTradeMs (wo_engine w') =
      snd (stampTrades x 0 (en_lastTradeMs (wo_engine w)) (mr_fills (fst (applyOrder book (incomingOf e)))))"
    by (simp_all add: ao lastMs_def)
qed

text \<open>The close event a cancel request leads to, if any.\<close>

definition cancelClose :: "io \<Rightarrow> cancel_requested \<Rightarrow> orderbook \<Rightarrow> db \<Rightarrow> order_closed option" where
  "cancelClose x e book d = (case fst (cancelOrder book (cr_orderId e)) of
     Some r \<Rightarrow> Some (closeOfRemoved x e r) | None \<Rightarrow> closeMissingBookOrder x e d)"

definition closeEvs :: "order_closed option \<Rightarrow> trade_event list" where
  "closeEvs c = (case c of None \<Rightarrow> [] | Some c \<Rightarrow> [OrderClosed c])"

lemma cancelTx_facts:
  assumes "(case claimEvent i d0 of (False, d) \<Rightarrow> Inr (False, d)
     | (True, d) \<Rightarrow> (case c of None \<Rightarrow> Inr (True, d)
         | Some c \<Rightarrow> bindE (persistSettlementEvents [OrderClosed c] d) (\<lambda>d. Inr (True, d)))) = Inr (applied, d')"
  shows "if applied then i \<notin> set (db_claimed d0) \<and> db_claimed d' = db_claimed d0 @ [i] \<and>
      db_trades d' = db_trades d0 \<and> map ox_payload (db_outbox d') = map ox_payload (db_outbox d0) @ closeEvs c \<and>
      fst ` set (db_markers d') = fst ` set (db_markers d0) \<union> set (closeIds (closeEvs c))
    else i \<in> set (db_claimed d0) \<and> d' = d0"
proof (cases "i \<in> set (db_claimed d0)")
  case True
  then show ?thesis using assms by (simp add: claimEvent_def)
next
  case False
  show ?thesis
  proof (cases c)
    case None
    then show ?thesis using assms False by (auto simp: claimEvent_def closeEvs_def closeIds_def)
  next
    case (Some o')
    then have "applied" "persistSettlementEvents [OrderClosed o'] (d0\<lparr>db_claimed := db_claimed d0 @ [i]\<rparr>) = Inr d'"
      using assms False by (auto simp: claimEvent_def bindE_eq_Inr_iff)
    then show ?thesis using persistSettlementEvents_facts False Some by (simp add: closeEvs_def)
  qed
qed

lemma handleCancel_outcome:
  assumes "handleCancel x e book w = (err, w')"
  shows "untouched w w' \<and> (err = None \<longrightarrow> cr_eventId e \<in> set (db_claimed (wo_db w))) \<or>
    recorded (cr_eventId e) (cr_symbol e) [] (closeEvs (cancelClose x e book (wo_db w)))
      (snd (cancelOrder book (cr_orderId e))) w w'"
    and "err = None \<Longrightarrow> length (en_seen (wo_engine w)) \<le> SEEN_CAP \<Longrightarrow> cr_eventId e \<in> set (en_seen (wo_engine w'))"
    and "en_seen (wo_engine w') \<in> {en_seen (wo_engine w), en_seen (wo_engine (rememberEvent (cr_eventId e) w))}"
    and "en_lastTradeMs (wo_engine w') = en_lastTradeMs (wo_engine w)"
proof -
  obtain removed staged where co: "cancelOrder book (cr_orderId e) = (removed, staged)"
    by (cases "cancelOrder book (cr_orderId e)")
  define c where "c = cancelClose x e book (wo_db w)"
  have cc: "(case removed of Some r \<Rightarrow> Some (closeOfRemoved x e r) | None \<Rightarrow> closeMissingBookOrder x e (wo_db w)) = c"
    by (simp add: c_def cancelClose_def co)
  note hc = assms [unfolded handleCancel_def cloneBook_id co prod.case cc Let_def]
  have "(untouched w w' \<and> (err = None \<longrightarrow> cr_eventId e \<in> set (db_claimed (wo_db w))) \<or>
      recorded (cr_eventId e) (cr_symbol e) [] (closeEvs c) staged w w') \<and>
    (err = None \<longrightarrow> length (en_seen (wo_engine w)) \<le> SEEN_CAP \<longrightarrow> cr_eventId e \<in> set (en_seen (wo_engine w'))) \<and>
    en_seen (wo_engine w') \<in> {en_seen (wo_engine w), en_seen (wo_engine (rememberEvent (cr_eventId e) w))} \<and>
    en_lastTradeMs (wo_engine w') = en_lastTradeMs (wo_engine w)"
  proof (cases "persistCancelEvent x e c w")
    case (Inl er)
    then have "w' = w" "err = Some er" using hc by simp_all
    then show ?thesis by (simp add: untouched_def)
  next
    case (Inr r)
    obtain applied w1 where r: "r = (applied, w1)" by (cases r)
    from Inr r obtain d where d: "(case claimEvent (cr_eventId e) (wo_db w) of (False, d) \<Rightarrow> Inr (False, d)
       | (True, d) \<Rightarrow> (case c of None \<Rightarrow> Inr (True, d)
           | Some c \<Rightarrow> bindE (persistSettlementEvents [OrderClosed c] d) (\<lambda>d. Inr (True, d)))) = Inr (applied, d)"
      and w1: "w1 = setDb d w" unfolding persistCancelEvent_def by (auto simp: commitTx_Inr)
    note F = cancelTx_facts [OF d]
    show ?thesis
    proof (cases applied)
      case False
      then have w': "err = None" "w' = flushSettlementOutboxSafely x (rememberEvent (cr_eventId e) w1)"
        using hc Inr r by simp_all
      have "en_seen (wo_engine w') = en_seen (wo_engine (rememberEvent (cr_eventId e) w))"
        by (simp add: w' w1 rememberEvent_def Let_def setDb_def)
      then show ?thesis
        using w' F False w1 rememberEvent_seen(1) [of w "cr_eventId e"] by (simp add: untouched_def)
    next
      case True
      then have pub: "publishSnapshot x 1 (cr_symbol e)
          (if c \<noteq> None then flushSettlementOutboxSafely x (rememberEvent (cr_eventId e) (setBook (cr_symbol e) staged w1))
           else rememberEvent (cr_eventId e) (setBook (cr_symbol e) staged w1)) = (err, w')"
        using hc Inr r by simp
      note T = applied_tail [OF refl refl pub]
      have seen: "en_seen (wo_engine w') = en_seen (wo_engine (rememberEvent (cr_eventId e) w))"
        using T(3) by (simp add: w1 rememberEvent_def Let_def setDb_def)
      have "recorded (cr_eventId e) (cr_symbol e) [] (closeEvs c) staged w w'"
        using durable_proj [OF T(1)] T(2) F True w1 by (simp add: recorded_def)
      then show ?thesis using seen T(4) w1 rememberEvent_seen(1) [of w "cr_eventId e"] by simp
    qed
  qed
  then show "untouched w w' \<and> (err = None \<longrightarrow> cr_eventId e \<in> set (db_claimed (wo_db w))) \<or>
    recorded (cr_eventId e) (cr_symbol e) [] (closeEvs (cancelClose x e book (wo_db w)))
      (snd (cancelOrder book (cr_orderId e))) w w'"
    and "err = None \<Longrightarrow> length (en_seen (wo_engine w)) \<le> SEEN_CAP \<Longrightarrow> cr_eventId e \<in> set (en_seen (wo_engine w'))"
    and "en_seen (wo_engine w') \<in> {en_seen (wo_engine w), en_seen (wo_engine (rememberEvent (cr_eventId e) w))}"
    and "en_lastTradeMs (wo_engine w') = en_lastTradeMs (wo_engine w)"
    by (simp_all add: co c_def)
qed

text \<open>A duplicate changes nothing but, at most, the claim of its own event.\<close>

definition quiet :: "string \<Rightarrow> world \<Rightarrow> world \<Rightarrow> bool" where
  "quiet i w w' \<longleftrightarrow>
     db_trades (wo_db w') = db_trades (wo_db w) \<and>
     map ox_payload (db_outbox (wo_db w')) = map ox_payload (db_outbox (wo_db w)) \<and>
     db_markers (wo_db w') = db_markers (wo_db w) \<and> db_symbols (wo_db w') = db_symbols (wo_db w) \<and>
     (db_claimed (wo_db w') = db_claimed (wo_db w) \<or>
      i \<notin> set (db_claimed (wo_db w)) \<and> db_claimed (wo_db w') = db_claimed (wo_db w) @ [i])"

lemma quiet_durable: "durable (wo_db w') = durable (wo_db w) \<Longrightarrow> quiet i w w'"
  by (auto simp: quiet_def dest: durable_proj)

lemma quiet_claimed: "quiet i w w' \<Longrightarrow> i \<in> set (db_claimed (wo_db w)) \<Longrightarrow> durable (wo_db w') = durable (wo_db w)"
  by (auto simp: quiet_def durable_def)

definition recordedEvent :: "io \<Rightarrow> order_event \<Rightarrow> orderbook \<Rightarrow> world \<Rightarrow> world \<Rightarrow> bool" where
  "recordedEvent x ev b w w' \<longleftrightarrow> (case ev of
     OrderPlaced e \<Rightarrow>
       (case placedEffect x e b (en_lastTradeMs (wo_engine w)) of
          (ts, evs) \<Rightarrow> recorded (pl_eventId e) (pl_symbol e)
            (map (\<lambda>t. (pt_id t, tradeRowOf (ob_symbol b) t)) ts) evs (snd (applyOrder b (incomingOf e))) w w') \<and>
       pl_orderId e \<notin> set (bookIds b) \<and> pl_orderId e \<notin> fst ` set (db_markers (wo_db w))
   | OrderCancelRequested e \<Rightarrow>
       recorded (cr_eventId e) (cr_symbol e) [] (closeEvs (cancelClose x e b (wo_db w)))
         (snd (cancelOrder b (cr_orderId e))) w w' \<and> cr_orderId e \<notin> fst ` set (db_markers (wo_db w)))"

lemma duplicateTest_quiet:
  assumes "duplicateTest x r ev b w = Inr (dup, w')"
  shows "quiet (oe_eventId ev) w w'"
  using assms
  by (auto simp: duplicateTest_def claimAlreadyRestingPlacedEvent_def bindE_eq_Inr_iff commitTx_Inr
      claimEvent_def quiet_def split: order_event.splits if_splits)

lemma handleKnown_outcome:
  assumes "handleKnown x r ev b w = (err, w')"
  shows "quiet (oe_eventId ev) w w' \<and> en_books (wo_engine w') = en_books (wo_engine w) \<or> recordedEvent x ev b w w'"
    and "err = None \<Longrightarrow> length (en_seen (wo_engine w)) \<le> SEEN_CAP \<Longrightarrow> oe_eventId ev \<in> set (en_seen (wo_engine w'))"
    and "en_seen (wo_engine w') \<in> {en_seen (wo_engine w), en_seen (wo_engine (rememberEvent (oe_eventId ev) w))}"
    and "oe_eventId ev \<in> set (en_seen (wo_engine w)) \<Longrightarrow> durable (wo_db w') = durable (wo_db w)"
proof -
  have "(quiet (oe_eventId ev) w w' \<and> en_books (wo_engine w') = en_books (wo_engine w) \<or> recordedEvent x ev b w w') \<and>
    (err = None \<longrightarrow> length (en_seen (wo_engine w)) \<le> SEEN_CAP \<longrightarrow> oe_eventId ev \<in> set (en_seen (wo_engine w'))) \<and>
    en_seen (wo_engine w') \<in> {en_seen (wo_engine w), en_seen (wo_engine (rememberEvent (oe_eventId ev) w))} \<and>
    (oe_eventId ev \<in> set (en_seen (wo_engine w)) \<longrightarrow> durable (wo_db w') = durable (wo_db w))"
  proof (cases "oe_eventId ev \<in> set (en_seen (wo_engine w))")
    case True
    then have "err = None" "w' = flushSettlementOutboxSafely x w" using assms by (simp_all add: handleKnown_def)
    then show ?thesis using True by (simp add: quiet_durable)
  next
    case False
    show ?thesis
    proof (cases "duplicateTest x r ev b w")
      case (Inl e)
      then have "w' = w" "err = Some e" using assms False by (simp_all add: handleKnown_def)
      then show ?thesis using False by (simp add: quiet_durable)
    next
      case (Inr dw)
      obtain dup w1 where dw: "dw = (dup, w1)" by (cases dw)
      note D = duplicateTest_facts [OF Inr [unfolded dw]] duplicateTest_quiet [OF Inr [unfolded dw]]
      show ?thesis
      proof (cases dup)
        case True
        then have w': "err = None" "w' = flushSettlementOutboxSafely x (rememberEvent (oe_eventId ev) w1)"
          using assms False Inr dw by (simp_all add: handleKnown_def)
        have "durable (wo_db w') = durable (wo_db w1)" by (simp add: w')
        then have "quiet (oe_eventId ev) w w'" using D(8) by (auto simp: quiet_def dest: durable_proj)
        moreover have "en_seen (wo_engine w') = en_seen (wo_engine (rememberEvent (oe_eventId ev) w))"
          by (simp add: w' rememberEvent_def Let_def D(1))
        ultimately show ?thesis
          using w' False D(1) rememberEvent_seen(1) [of w "oe_eventId ev"] by simp
      next
        case nd: False
        then have w1: "w1 = w" and fr: "case ev of
            OrderPlaced e \<Rightarrow> pl_orderId e \<notin> set (bookIds b) \<and> \<not> hasDurableCloseMarker (wo_db w) (pl_orderId e)
          | OrderCancelRequested e \<Rightarrow> \<not> hasDurableCloseMarker (wo_db w) (cr_orderId e)"
          using D(3) by blast+
        show ?thesis
        proof (cases ev)
          case (OrderPlaced e)
          obtain ts evs where pe: "placedEffect x e b (en_lastTradeMs (wo_engine w)) = (ts, evs)"
            by (cases "placedEffect x e b (en_lastTradeMs (wo_engine w))")
          have hp: "handlePlaced x e b w = (err, w')"
            using assms False Inr dw nd w1 OrderPlaced by (simp add: handleKnown_def)
          show ?thesis
            using handlePlaced_outcome [OF hp pe] fr OrderPlaced False quiet_durable [of w' w "pl_eventId e"]
            by (auto simp: recordedEvent_def pe untouched_def hasDurableCloseMarker_iff)
        next
          case (OrderCancelRequested e)
          have hc: "handleCancel x e b w = (err, w')"
            using assms False Inr dw nd w1 OrderCancelRequested by (simp add: handleKnown_def)
          show ?thesis
            using handleCancel_outcome [OF hc] fr OrderCancelRequested False quiet_durable [of w' w "cr_eventId e"]
            by (auto simp: recordedEvent_def untouched_def hasDurableCloseMarker_iff)
        qed
      qed
    qed
  qed
  then show "quiet (oe_eventId ev) w w' \<and> en_books (wo_engine w') = en_books (wo_engine w) \<or> recordedEvent x ev b w w'"
    and "err = None \<Longrightarrow> length (en_seen (wo_engine w)) \<le> SEEN_CAP \<Longrightarrow> oe_eventId ev \<in> set (en_seen (wo_engine w'))"
    and "en_seen (wo_engine w') \<in> {en_seen (wo_engine w), en_seen (wo_engine (rememberEvent (oe_eventId ev) w))}"
    and "oe_eventId ev \<in> set (en_seen (wo_engine w)) \<Longrightarrow> durable (wo_db w') = durable (wo_db w)"
    by blast+
qed

text \<open>The world and the book after pruning, when the symbol has a book.\<close>

definition prepared :: "world \<Rightarrow> string \<Rightarrow> orderbook \<Rightarrow> world \<Rightarrow> orderbook \<Rightarrow> bool" where
  "prepared w s b0 wp bp \<longleftrightarrow>
     findRow (en_books (wo_engine w)) s = Some b0 \<and> wo_db wp = wo_db w \<and>
     en_seen (wo_engine wp) = en_seen (wo_engine w) \<and>
     en_lastTradeMs (wo_engine wp) = en_lastTradeMs (wo_engine w) \<and>
     (let b = snd (pruneDurablyClosedOrders (wo_db w) b0) in bp = b \<or> bp = b\<lparr>ob_seq := ob_seq b + 1\<rparr>) \<and>
     (\<forall>t. findRow (en_books (wo_engine wp)) t = (if t = s then Some bp else findRow (en_books (wo_engine w)) t))"

lemma handleEvent_cases:
  assumes "handleEvent x r ev w = (err, w')"
  obtains (nobook) "w' = w" "findRow (en_books (wo_engine w)) (oe_symbol ev) = None"
  | (snapshot) b0 bp where "prepared w (oe_symbol ev) b0 w' bp" "err \<noteq> None"
  | (known) b0 wp bp where "prepared w (oe_symbol ev) b0 wp bp" "handleKnown x r ev bp wp = (err, w')"
proof (cases "findRow (en_books (wo_engine w)) (oe_symbol ev)")
  case None
  then show ?thesis using assms nobook by (auto simp: handleEvent_def split: option.splits if_splits)
next
  case (Some b0)
  obtain changed b where pr: "pruneDurablyClosedOrders (wo_db w) b0 = (changed, b)"
    by (cases "pruneDurablyClosedOrders (wo_db w) b0")
  let ?w1 = "setBook (oe_symbol ev) b w"
  show ?thesis
  proof (cases changed)
    case False
    then have "handleKnown x r ev b ?w1 = (err, w')" using assms Some pr by (simp add: handleEvent_def)
    moreover have "prepared w (oe_symbol ev) b0 ?w1 b"
      using Some pr by (auto simp: prepared_def rows.look_put_iff rows.look_put)
    ultimately show ?thesis using known by blast
  next
    case True
    obtain pe w2 where pub: "publishSnapshot x 0 (oe_symbol ev) ?w1 = (pe, w2)"
      by (cases "publishSnapshot x 0 (oe_symbol ev) ?w1")
    have w2: "w2 = snd (publishSnapshot x 0 (oe_symbol ev) ?w1)" using pub by simp
    have p: "prepared w (oe_symbol ev) b0 w2 (b\<lparr>ob_seq := ob_seq b + 1\<rparr>)"
      using Some pr by (auto simp: prepared_def w2 publishSnapshot_engine publishSnapshot_books rows.look_put)
    show ?thesis
    proof (cases pe)
      case None
      then have "handleKnown x r ev (b\<lparr>ob_seq := ob_seq b + 1\<rparr>) w2 = (err, w')"
        using assms Some pr True pub by (simp add: handleEvent_def)
      then show ?thesis using p known by blast
    next
      case (Some er)
      then have "w' = w2" "err = Some er"
        using assms \<open>findRow _ _ = Some b0\<close> pr True pub by (simp_all add: handleEvent_def)
      then show ?thesis using p snapshot by blast
    qed
  qed
qed

lemma prepared_facts:
  assumes "prepared w s b0 wp bp" "engineInv w"
  shows "engineInv wp" and "bookFor s bp" and "set (bookIds bp) \<inter> fst ` set (db_markers (wo_db w)) = {}"
    and "set (bookIds bp) \<subseteq> set (bookIds b0)" and "findRow (en_books (wo_engine wp)) s = Some bp"
proof -
  let ?b = "snd (pruneDurablyClosedOrders (wo_db w) b0)"
  have b0: "bookFor s b0" using assms by (simp add: prepared_def engineInv_def)
  note P = prune_facts [OF b0, of "wo_db w"]
  have bp: "bp = ?b \<or> bp = ?b\<lparr>ob_seq := ob_seq ?b + 1\<rparr>" using assms(1) by (simp add: prepared_def Let_def)
  then show 1: "bookFor s bp" using P(1) bookFor_seq by blast
  have ids: "bookIds bp = bookIds ?b" using bp by (auto simp: bookIds_def)
  then show "set (bookIds bp) \<inter> fst ` set (db_markers (wo_db w)) = {}" "set (bookIds bp) \<subseteq> set (bookIds b0)"
    using P(2,3) by auto
  show "findRow (en_books (wo_engine wp)) s = Some bp" using assms(1) by (simp add: prepared_def)
  show "engineInv wp" using assms 1 by (auto simp: engineInv_def prepared_def split: if_splits)
qed

section \<open>Books stay well formed\<close>

lemma recordedEvent_books:
  assumes "recordedEvent x ev b w w'" "engineInv w" "bookFor (oe_symbol ev) b" "eventOk ev"
  shows "\<forall>s b'. findRow (en_books (wo_engine w')) s = Some b' \<longrightarrow> bookFor s b'"
proof (cases ev)
  case (OrderPlaced e)
  have "incomingOk b (incomingOf e)"
    using assms(1,4) OrderPlaced by (simp add: recordedEvent_def eventOk_def incomingOk_def incomingOf_def)
  then have "bookFor (pl_symbol e) (snd (applyOrder b (incomingOf e)))"
    using bookInv_applyOrder [of b "incomingOf e"] assms(3) OrderPlaced
    by (simp add: bookFor_def applyOrder_symbol)
  then show ?thesis
    using assms(1,2) OrderPlaced bookFor_seq
    by (auto simp: recordedEvent_def recorded_def engineInv_def split: prod.splits if_splits)
next
  case (OrderCancelRequested e)
  have "bookFor (cr_symbol e) (snd (cancelOrder b (cr_orderId e)))"
    using cancelOrder_bookFor assms(3) OrderCancelRequested by simp
  then show ?thesis
    using assms(1,2) OrderCancelRequested bookFor_seq
    by (auto simp: recordedEvent_def recorded_def engineInv_def split: if_splits)
qed

lemma handleEvent_engineInv:
  assumes "engineInv w" "eventOk ev" "handleEvent x r ev w = (err, w')"
  shows "engineInv w'"
  using assms(3)
proof (cases rule: handleEvent_cases)
  case nobook
  then show ?thesis using assms(1) by simp
next
  case (snapshot b0 bp)
  then show ?thesis using prepared_facts(1) assms(1) by blast
next
  case (known b0 wp bp)
  note P = prepared_facts [OF known(1) assms(1)] and K = handleKnown_outcome [OF known(2)]
  have len: "length (en_seen (wo_engine wp)) \<le> SEEN_CAP" using P(1) by (simp add: engineInv_def)
  have "length (en_seen (wo_engine w')) \<le> SEEN_CAP"
    using K(3) len rememberEvent_seen(2) [OF len] by auto
  moreover have "\<forall>s b'. findRow (en_books (wo_engine w')) s = Some b' \<longrightarrow> bookFor s b'"
    using K(1) recordedEvent_books [OF _ P(1,2) assms(2)] P(1) by (auto simp: engineInv_def)
  ultimately show ?thesis by (simp add: engineInv_def)
qed

text \<open>
  C10. Whatever event arrives and whatever fails around it (the commit, the publication, the relay),
  every book of the engine stays well formed: sorted by price and time, positive quantities, unique
  orders, not crossed, and filed under its own symbol.
\<close>

theorem engine_books_well_formed:
  assumes "engineInv w" "eventOk ev"
  shows "engineInv (snd (handleEvent x r ev w))"
  using handleEvent_engineInv [OF assms] by (cases "handleEvent x r ev w") simp

definition demoWorld :: world where
  "demoWorld = \<lparr>wo_db = \<lparr>db_users = [], db_accounts = [], db_holdings = [], db_ledger = [], db_pnl = [],
       db_processed = [], db_orders = [], db_trades = [], db_claimed = [], db_outbox = [], db_markers = [],
       db_orderOutbox = [], db_symbols = [(''KABU'', \<lparr>sy_initialPrice = 100, sy_lastPrice = 100, sy_listedAt = None,
         sy_listedShares = 1000, sy_kind = STOCK\<rparr>)],
       db_positions = [], db_debts = [], db_realized = [], db_series = [], db_marginCalls = [],
       db_liquidations = [], db_settlements = [], db_epochs = [], db_references = [], db_candles = [],
       db_conditionals = [], db_brackets = []\<rparr>,
     wo_engine = \<lparr>en_lastTradeMs = 0, en_books = [(''KABU'', demoBook)], en_seen = []\<rparr>,
     wo_stream = [], wo_ticks = [], wo_snapshots = []\<rparr>"

definition demoPlaced :: order_event where
  "demoPlaced = OrderPlaced \<lparr>pl_eventId = ''e1'', pl_orderId = ''t1'', pl_accountId = ''w'', pl_symbol = ''KABU'',
     pl_side = BUY, pl_type = LIMIT, pl_price = Some 120, pl_qty = 9, pl_ts = 5\<rparr>"

definition demoIo :: io where
  "demoIo = \<lparr>io_uuid = (\<lambda>k. CHR ''u'' # showNat k), io_now = (\<lambda>k. 1000), io_commit = True,
     io_xadd = (\<lambda>k. True), io_mark = (\<lambda>k. True), io_publish = (\<lambda>k. True)\<rparr>"

lemma demoWorld_ok: "engineInv demoWorld" "eventOk demoPlaced"
proof -
  have "ob_symbol demoBook = ''KABU''" by (simp add: demoBook_def)
  then show "engineInv demoWorld" using demo_ok(1)
    by (simp add: engineInv_def demoWorld_def bookFor_def findRow_Cons SEEN_CAP_def)
  show "eventOk demoPlaced" by (simp add: eventOk_def demoPlaced_def)
qed

lemma engine_books_well_formed_witness: "engineInv (snd (handleEvent demoIo False demoPlaced demoWorld))"
  by (rule engine_books_well_formed [OF demoWorld_ok])

section \<open>Exactly once\<close>

lemma claimed_noop:
  assumes "engineInv w" "oe_eventId ev \<in> set (db_claimed (wo_db w)) \<or> oe_eventId ev \<in> set (en_seen (wo_engine w))"
    and "handleEvent x r ev w = (err, w')"
  shows "durable (wo_db w') = durable (wo_db w)"
  using assms(3)
proof (cases rule: handleEvent_cases)
  case (known b0 wp bp)
  have wp: "wo_db wp = wo_db w" "en_seen (wo_engine wp) = en_seen (wo_engine w)"
    using known(1) by (simp_all add: prepared_def)
  note K = handleKnown_outcome [OF known(2)]
  show ?thesis
  proof (cases "oe_eventId ev \<in> set (en_seen (wo_engine w))")
    case True
    then show ?thesis using K(4) wp by simp
  next
    case False
    then have c: "oe_eventId ev \<in> set (db_claimed (wo_db wp))" using assms(2) wp by simp
    then have "\<not> recordedEvent x ev bp wp w'"
      by (cases ev) (auto simp: recordedEvent_def recorded_def split: prod.splits)
    then have "quiet (oe_eventId ev) wp w'" using K(1) by blast
    then show ?thesis using quiet_claimed c wp by metis
  qed
qed (simp_all add: prepared_def)

lemma success_remembers:
  assumes "engineInv w" "handleEvent x r ev w = (None, w')"
  shows "w' = w \<and> findRow (en_books (wo_engine w)) (oe_symbol ev) = None \<or>
    oe_eventId ev \<in> set (en_seen (wo_engine w'))"
  using assms(2)
proof (cases rule: handleEvent_cases)
  case (known b0 wp bp)
  have "length (en_seen (wo_engine wp)) \<le> SEEN_CAP"
    using prepared_facts(1) [OF known(1) assms(1)] by (simp add: engineInv_def)
  then show ?thesis using handleKnown_outcome(2) [OF known(2)] by simp
qed (simp_all)



end
