(* ===== verification/Engine_Outbox_Props.thy ===== *)
theory Engine_Outbox_Props
  imports Engine_Props
begin

text \<open>
  The settlement outbox of the matching engine: it is the trade ledger, event by event, with the close
  events in between; an order that was closed never appears in a later trade; trade times increase;
  and the relay delivers the rows in order.
\<close>

section \<open>The outbox describes the trades\<close>

definition tradeEventOfRow :: "string \<times> trade_row \<Rightarrow> trade_event" where
  "tradeEventOfRow it = (case it of (i, t) \<Rightarrow> TradeExecuted
     \<lparr>te_eventId = i, te_tradeId = i, te_symbol = tr_symbol t, te_price = tr_price t, te_qty = tr_qty t,
      te_buyOrderId = tr_buyOrderId t, te_sellOrderId = tr_sellOrderId t,
      te_buyerAccountId = tr_buyerAccountId t, te_sellerAccountId = tr_sellerAccountId t,
      te_takerSide = tr_takerSide t, te_ts = tr_createdAt t\<rparr>)"

fun isTradeEvent :: "trade_event \<Rightarrow> bool" where
  "isTradeEvent (TradeExecuted e) = True"
| "isTradeEvent (OrderClosed e) = False"

text \<open>Nothing after a close event trades the closed order.\<close>

fun notAfterClose :: "trade_event \<Rightarrow> trade_event \<Rightarrow> bool" where
  "notAfterClose (OrderClosed c) (TradeExecuted t) \<longleftrightarrow>
     oc_orderId c \<noteq> te_buyOrderId t \<and> oc_orderId c \<noteq> te_sellOrderId t"
| "notAfterClose _ _ \<longleftrightarrow> True"

definition outboxInv :: "db \<Rightarrow> bool" where
  "outboxInv d \<longleftrightarrow>
     filter isTradeEvent (map ox_payload (db_outbox d)) = map tradeEventOfRow (db_trades d) \<and>
     set (closeIds (map ox_payload (db_outbox d))) \<subseteq> fst ` set (db_markers d) \<and>
     sorted_wrt notAfterClose (map ox_payload (db_outbox d))"

lemma outboxInv_durable: "durable d = durable d' \<Longrightarrow> outboxInv d = outboxInv d'"
  by (simp add: outboxInv_def durable_def)

lemma outboxInv_quiet: "quiet i w w' \<Longrightarrow> outboxInv (wo_db w') = outboxInv (wo_db w)"
  by (simp add: outboxInv_def quiet_def)

lemma closeIds_append [simp]: "closeIds (xs @ ys) = closeIds xs @ closeIds ys"
  by (simp add: closeIds_def)

lemma closeIds_Nil [simp]: "closeIds [] = []"
  by (simp add: closeIds_def)

lemma closeIds_iff: "i \<in> set (closeIds evs) \<longleftrightarrow> (\<exists>c. OrderClosed c \<in> set evs \<and> oc_orderId c = i)"
  by (auto simp: closeIds_def split: trade_event.splits)

lemma closeEvents_facts:
  "filter isTradeEvent (closeEvents x k s cs) = []"
  "closeIds (closeEvents x k s cs) = map c_orderId cs"
  "sorted_wrt notAfterClose (closeEvents x k s cs)"
  "e \<in> set (closeEvents x k s cs) \<Longrightarrow> \<exists>c. e = OrderClosed c"
proof (atomize (full), induction cs arbitrary: k e)
  case (Cons c cs)
  have "\<forall>e \<in> set (closeEvents x (Suc k) s cs). \<exists>c. e = OrderClosed c" using Cons.IH by blast
  then show ?case using Cons.IH [of "Suc k" e] by (auto simp: closeIds_def)
qed (simp add: closeIds_def)

lemma tradeEventOf_row: "TradeExecuted (tradeEventOf s t) = tradeEventOfRow (pt_id t, tradeRowOf s t)"
  by (simp add: tradeEventOf_def tradeRowOf_def tradeEventOfRow_def)

lemma stampTrades_fills: "map pt_fill (fst (stampTrades x k l fs)) = fs"
  by (induction fs arbitrary: k l) (simp_all add: Let_def split_beta)

lemma fill_orders:
  assumes "bookInv b" "0 < in_qty inc" "f \<in> set (mr_fills (fst (applyOrder b inc)))"
  shows "{buyOrderOf f, sellOrderOf f} \<subseteq> insert (in_orderId inc) (set (bookIds b))"
proof -
  have "mr_fills (fst (applyOrder b inc)) =
      lo_fills (matchLoop inc (oppositeOf (in_side inc) b) (in_qty inc) (ob_lastPrice b))"
    by (simp add: applyOrder_def Let_def)
  then have "fillOk inc (oppositeOf (in_side inc) b) f"
    using matchLoop_fills [OF sideInv_positive [OF bookInv_side [OF assms(1), of "in_side inc"]]] assms(3)
    by simp
  then have "f_takerOrderId f = in_orderId inc" "f_makerOrderId f \<in> set (bookIds b)"
    by (cases "in_side inc"; auto simp: fillOk_def bookIds_def oppositeOf_def)+
  then show ?thesis by (auto simp: buyOrderOf_def sellOrderOf_def)
qed

lemma sorted_wrt_trades: "sorted_wrt notAfterClose (map (\<lambda>t. TradeExecuted (g t)) ts)"
  by (induction ts) auto

text \<open>Appending the events of one record: trades of orders not closed before, then closes.\<close>

lemma outboxInv_append:
  assumes inv: "outboxInv d"
    and tr: "db_trades d' = db_trades d @ map (\<lambda>t. (pt_id t, tradeRowOf s t)) ts"
    and ob: "map ox_payload (db_outbox d') = map ox_payload (db_outbox d) @ map (\<lambda>t. TradeExecuted (tradeEventOf s t)) ts @ cs"
    and mk: "fst ` set (db_markers d') = fst ` set (db_markers d) \<union> set (closeIds cs)"
    and cs: "filter isTradeEvent cs = []" "sorted_wrt notAfterClose cs"
    and fresh: "\<forall>t \<in> set ts. buyOrderOf (pt_fill t) \<notin> fst ` set (db_markers d) \<and>
      sellOrderOf (pt_fill t) \<notin> fst ` set (db_markers d)"
  shows "outboxInv d'"
proof -
  have tid: "closeIds (map (\<lambda>t. TradeExecuted (tradeEventOf s t)) ts) = []"
    by (induction ts) (simp_all add: closeIds_def)
  have nt: "\<not> isTradeEvent e" if "e \<in> set cs" for e using cs(1) that by (auto simp: filter_empty_conv)
  have old: "notAfterClose e (TradeExecuted (tradeEventOf s t))"
    if "e \<in> set (map ox_payload (db_outbox d))" "t \<in> set ts" for e t
  proof (cases e)
    case (OrderClosed c)
    then have "oc_orderId c \<in> fst ` set (db_markers d)"
    proof -
      have "oc_orderId c \<in> set (closeIds (map ox_payload (db_outbox d)))"
        using that(1) OrderClosed by (auto simp: closeIds_iff)
      then show ?thesis using inv by (auto simp only: outboxInv_def)
    qed
    moreover have "buyOrderOf (pt_fill t) \<notin> fst ` set (db_markers d)"
      "sellOrderOf (pt_fill t) \<notin> fst ` set (db_markers d)" using fresh that(2) by blast+
    ultimately have "oc_orderId c \<noteq> buyOrderOf (pt_fill t)" "oc_orderId c \<noteq> sellOrderOf (pt_fill t)"
      by metis+
    then show ?thesis using OrderClosed by (simp add: tradeEventOf_def)
  qed simp
  have any: "notAfterClose e f" if "f \<in> set cs" for e f
    using nt [OF that] by (cases f; cases e) auto
  have "sorted_wrt notAfterClose (map ox_payload (db_outbox d'))"
    unfolding ob using inv cs(2) sorted_wrt_trades old any
    by (auto simp: sorted_wrt_append outboxInv_def)
  moreover have "filter isTradeEvent (map ox_payload (db_outbox d')) = map tradeEventOfRow (db_trades d')"
  proof -
    have "filter isTradeEvent (map (\<lambda>t. TradeExecuted (tradeEventOf s t)) ts) =
        map (\<lambda>t. TradeExecuted (tradeEventOf s t)) ts"
      by (rule filter_True) auto
    moreover have "map tradeEventOfRow (map (\<lambda>t. (pt_id t, tradeRowOf s t)) ts) =
        map (\<lambda>t. TradeExecuted (tradeEventOf s t)) ts"
      by (simp add: tradeEventOf_row)
    ultimately show ?thesis
      unfolding ob tr map_append filter_append cs(1) append_Nil2
      using inv by (simp only: outboxInv_def)
  qed
  moreover have "set (closeIds (map ox_payload (db_outbox d'))) \<subseteq> fst ` set (db_markers d')"
    unfolding ob mk using inv tid by (auto simp: outboxInv_def)
  ultimately show ?thesis by (simp add: outboxInv_def)
qed

lemma recordedEvent_outbox:
  assumes rec: "recordedEvent x ev b w w'" and b: "bookFor (oe_symbol ev) b" and ok: "eventOk ev"
    and fresh: "set (bookIds b) \<inter> fst ` set (db_markers (wo_db w)) = {}" and inv: "outboxInv (wo_db w)"
  shows "outboxInv (wo_db w')"
proof (cases ev)
  case (OrderPlaced e)
  let ?res = "fst (applyOrder b (incomingOf e))"
  define ts where "ts = fst (stampTrades x 0 (en_lastTradeMs (wo_engine w)) (mr_fills ?res))"
  have pe: "placedEffect x e b (en_lastTradeMs (wo_engine w)) =
    (ts, settlementEventsForResult x (ob_symbol b) ?res ts)"
    by (simp add: placedEffect_def Let_def ts_def)
  from rec OrderPlaced pe have R: "recorded (pl_eventId e) (pl_symbol e)
      (map (\<lambda>t. (pt_id t, tradeRowOf (ob_symbol b) t)) ts) (settlementEventsForResult x (ob_symbol b) ?res ts)
      (snd (applyOrder b (incomingOf e))) w w'"
    and nm: "pl_orderId e \<notin> fst ` set (db_markers (wo_db w))"
    by (simp_all add: recordedEvent_def)
  have q: "0 < in_qty (incomingOf e)" and io: "in_orderId (incomingOf e) = pl_orderId e"
    using ok OrderPlaced by (simp_all add: eventOk_def incomingOf_def)
  have fresh': "\<forall>t \<in> set ts. buyOrderOf (pt_fill t) \<notin> fst ` set (db_markers (wo_db w)) \<and>
      sellOrderOf (pt_fill t) \<notin> fst ` set (db_markers (wo_db w))"
  proof
    fix t assume "t \<in> set ts"
    then have "pt_fill t \<in> set (map pt_fill ts)" by simp
    then have tf: "pt_fill t \<in> set (mr_fills ?res)" by (simp add: ts_def stampTrades_fills)
    from b have side: "buyOrderOf (pt_fill t) \<in> insert (pl_orderId e) (set (bookIds b))"
      "sellOrderOf (pt_fill t) \<in> insert (pl_orderId e) (set (bookIds b))"
      using fill_orders [OF _ q tf] io by (simp_all add: bookFor_def)
    have nf: "i \<notin> fst ` set (db_markers (wo_db w))" if "i \<in> insert (pl_orderId e) (set (bookIds b))" for i
      using that fresh nm by (metis disjoint_iff insertE)
    show "buyOrderOf (pt_fill t) \<notin> fst ` set (db_markers (wo_db w)) \<and>
      sellOrderOf (pt_fill t) \<notin> fst ` set (db_markers (wo_db w))"
      by (rule conjI [OF nf [OF side(1)] nf [OF side(2)]])
  qed
  let ?cs = "closeEvents x (length ts) (ob_symbol b) (mr_closedOrders ?res)"
  have tid: "closeIds (map (\<lambda>t. TradeExecuted (tradeEventOf (ob_symbol b) t)) ts) = []"
    by (induction ts) (simp_all add: closeIds_def)
  have tr: "db_trades (wo_db w') = db_trades (wo_db w) @ map (\<lambda>t. (pt_id t, tradeRowOf (ob_symbol b) t)) ts"
    using R by (simp only: recorded_def)
  have ob: "map ox_payload (db_outbox (wo_db w')) = map ox_payload (db_outbox (wo_db w)) @
      map (\<lambda>t. TradeExecuted (tradeEventOf (ob_symbol b) t)) ts @ ?cs"
    using R by (simp only: recorded_def settlementEventsForResult_def)
  have mk: "fst ` set (db_markers (wo_db w')) = fst ` set (db_markers (wo_db w)) \<union> set (closeIds ?cs)"
    using R unfolding recorded_def settlementEventsForResult_def closeIds_append tid append_Nil by blast
  show ?thesis
    by (rule outboxInv_append [OF inv tr ob mk closeEvents_facts(1,3) fresh'])
next
  case (OrderCancelRequested e)
  let ?c = "cancelClose x e b (wo_db w)"
  have R: "recorded (cr_eventId e) (cr_symbol e) [] (closeEvs ?c) (snd (cancelOrder b (cr_orderId e))) w w'"
    using rec OrderCancelRequested by (simp add: recordedEvent_def)
  show ?thesis
    using R by (intro outboxInv_append [OF inv, where ts = "[]" and cs = "closeEvs ?c"])
      (auto simp: recorded_def closeEvs_def split: option.split)
qed

text \<open>
  C12. The settlement outbox is an exact account of the matching engine: its trade events are the
  recorded trades, row by row and in the same order with the same contents; every close event has its
  durable marker; and no trade event that comes after the close event of an order names that order.
  Every handled event keeps this, whatever fails around it.
\<close>

theorem outbox_exact:
  assumes "engineInv w" "eventOk ev" "outboxInv (wo_db w)"
  shows "outboxInv (wo_db (snd (handleEvent x r ev w)))"
proof -
  obtain err w' where h: "handleEvent x r ev w = (err, w')" by (cases "handleEvent x r ev w")
  from h have "outboxInv (wo_db w')"
  proof (cases rule: handleEvent_cases)
    case nobook
    then show ?thesis using assms(3) by simp
  next
    case (snapshot b0 bp)
    then show ?thesis using assms(3) by (simp add: prepared_def)
  next
    case (known b0 wp bp)
    have wp: "wo_db wp = wo_db w" using known(1) by (simp add: prepared_def)
    note P = prepared_facts [OF known(1) assms(1)]
    show ?thesis
      using handleKnown_outcome(1) [OF known(2)] outboxInv_quiet [of "oe_eventId ev" wp w']
        recordedEvent_outbox [OF _ P(2) assms(2), of x wp w'] P(3) assms(3) wp
      by auto
  qed
  then show ?thesis by (simp add: h)
qed

lemma outbox_exact_witness:
  "outboxInv (wo_db (snd (handleEvent demoIo False demoPlaced demoWorld))) \<and>
   length (db_outbox (wo_db (snd (handleEvent demoIo False demoPlaced demoWorld)))) = 4"
proof -
  have "outboxInv (wo_db demoWorld)" by (simp add: outboxInv_def demoWorld_def)
  moreover have "length (db_outbox (wo_db (snd (handleEvent demoIo False demoPlaced demoWorld)))) = 4"
    by code_simp
  ultimately show ?thesis using outbox_exact [OF demoWorld_ok] by blast
qed

section \<open>Trade times\<close>

definition clockInv :: "world \<Rightarrow> bool" where
  "clockInv w \<longleftrightarrow>
     sorted_wrt (<) (map (\<lambda>it. tr_createdAt (snd it)) (db_trades (wo_db w))) \<and>
     (\<forall>it \<in> set (db_trades (wo_db w)). tr_createdAt (snd it) \<le> en_lastTradeMs (wo_engine w))"

lemma stampTrades_times:
  "sorted_wrt (<) (map pt_createdAt (fst (stampTrades x k l fs))) \<and>
   (\<forall>t \<in> set (fst (stampTrades x k l fs)). l < pt_createdAt t \<and> pt_createdAt t \<le> snd (stampTrades x k l fs)) \<and>
   l \<le> snd (stampTrades x k l fs)"
proof (induction fs arbitrary: k l)
  case (Cons f fs)
  let ?t = "nextTradeMs l (io_now x k)"
  have "l < ?t" by (simp add: nextTradeMs_def)
  then show ?case using Cons.IH [of "Suc k" ?t] by (fastforce simp: Let_def split_beta)
qed simp

lemma handleKnown_clock:
  assumes "handleKnown x r ev b w = (err, w')"
  shows "en_lastTradeMs (wo_engine w) \<le> en_lastTradeMs (wo_engine w') \<and>
    (recordedEvent x ev b w w' \<longrightarrow> (case ev of
       OrderPlaced e \<Rightarrow> en_lastTradeMs (wo_engine w') =
         snd (stampTrades x 0 (en_lastTradeMs (wo_engine w)) (mr_fills (fst (applyOrder b (incomingOf e)))))
     | OrderCancelRequested e \<Rightarrow> True))"
proof (cases "oe_eventId ev \<in> set (en_seen (wo_engine w))")
  case True
  then have w': "w' = flushSettlementOutboxSafely x w" using assms by (simp add: handleKnown_def)
  have "db_claimed (wo_db w') = db_claimed (wo_db w)" by (simp add: w' durable_proj(4) [OF flush_frame(1)])
  then show ?thesis
    by (cases ev) (auto simp: w' recordedEvent_def recorded_def split: prod.splits)
next
  case False
  show ?thesis
  proof (cases "duplicateTest x r ev b w")
    case (Inl e)
    then have "w' = w" using assms False by (simp add: handleKnown_def)
    then show ?thesis by (cases ev) (auto simp: recordedEvent_def recorded_def split: prod.splits)
  next
    case (Inr dw)
    obtain dup w1 where dw: "dw = (dup, w1)" by (cases dw)
    note D = duplicateTest_facts [OF Inr [unfolded dw]]
    show ?thesis
    proof (cases dup)
      case True
      then have w': "w' = flushSettlementOutboxSafely x (rememberEvent (oe_eventId ev) w1)"
        using assms False Inr dw by (simp add: handleKnown_def)
      have l: "en_lastTradeMs (wo_engine w') = en_lastTradeMs (wo_engine w)" by (simp add: w' D(1))
      have "\<not> recordedEvent x ev b w w'"
      proof (cases ev)
        case (OrderPlaced e)
        have "bookContainsOrder b (pl_orderId e) \<or> hasDurableCloseMarker (wo_db w) (pl_orderId e) \<or> w1 = w"
          using Inr dw OrderPlaced by (auto simp: duplicateTest_def split: if_splits)
        then show ?thesis
        proof (elim disjE)
          assume "w1 = w"
          then have "db_claimed (wo_db w') = db_claimed (wo_db w)"
            by (simp add: w' durable_proj(4) [OF flush_frame(1)])
          then show ?thesis by (auto simp: OrderPlaced recordedEvent_def recorded_def split: prod.splits)
        qed (auto simp: OrderPlaced recordedEvent_def bookContainsOrder_iff hasDurableCloseMarker_iff)
      next
        case (OrderCancelRequested e)
        then have "w1 = w" using Inr dw by (auto simp: duplicateTest_def split: if_splits)
        then have "db_claimed (wo_db w') = db_claimed (wo_db w)"
          by (simp add: w' durable_proj(4) [OF flush_frame(1)])
        then show ?thesis by (auto simp: OrderCancelRequested recordedEvent_def recorded_def)
      qed
      then show ?thesis using l by simp
    next
      case nd: False
      then have w1: "w1 = w" using D(3) by blast
      show ?thesis
      proof (cases ev)
        case (OrderPlaced e)
        obtain ts evs where pe: "placedEffect x e b (en_lastTradeMs (wo_engine w)) = (ts, evs)"
          by (cases "placedEffect x e b (en_lastTradeMs (wo_engine w))")
        have "handlePlaced x e b w = (err, w')"
          using assms False Inr dw nd w1 OrderPlaced by (simp add: handleKnown_def)
        from handlePlaced_outcome(4) [OF this pe] stampTrades_times OrderPlaced show ?thesis by simp
      next
        case (OrderCancelRequested e)
        have "handleCancel x e b w = (err, w')"
          using assms False Inr dw nd w1 OrderCancelRequested by (simp add: handleKnown_def)
        from handleCancel_outcome(4) [OF this] OrderCancelRequested show ?thesis by simp
      qed
    qed
  qed
qed

text \<open>
  Trade times identify the order of the trades: within one engine the recorded times are strictly
  increasing, whatever the system clock does (standing still, jumping back), and also when earlier
  transactions failed after taking their times.
\<close>

theorem trade_times_increase:
  assumes "clockInv w"
  shows "clockInv (snd (handleEvent x r ev w))"
proof -
  obtain err w' where h: "handleEvent x r ev w = (err, w')" by (cases "handleEvent x r ev w")
  from h have "clockInv w'"
  proof (cases rule: handleEvent_cases)
    case nobook
    then show ?thesis using assms by simp
  next
    case (snapshot b0 bp)
    then show ?thesis using assms by (simp add: prepared_def clockInv_def)
  next
    case (known b0 wp bp)
    have wp: "wo_db wp = wo_db w" "en_lastTradeMs (wo_engine wp) = en_lastTradeMs (wo_engine w)"
      using known(1) by (simp_all add: prepared_def)
    note K = handleKnown_clock [OF known(2)]
    from handleKnown_outcome(1) [OF known(2)] show ?thesis
    proof (elim disjE conjE)
      assume "quiet (oe_eventId ev) wp w'"
      then have "db_trades (wo_db w') = db_trades (wo_db w)" using wp by (simp add: quiet_def)
      then show ?thesis using assms K wp by (fastforce simp: clockInv_def)
    next
      assume rec: "recordedEvent x ev bp wp w'"
      show ?thesis
      proof (cases ev)
        case (OrderPlaced e)
        let ?fs = "mr_fills (fst (applyOrder bp (incomingOf e)))"
        let ?st = "stampTrades x 0 (en_lastTradeMs (wo_engine w)) ?fs"
        have tr: "db_trades (wo_db w') = db_trades (wo_db w) @
            map (\<lambda>t. (pt_id t, tradeRowOf (ob_symbol bp) t)) (fst ?st)"
          using rec OrderPlaced wp by (simp add: recordedEvent_def recorded_def placedEffect_def Let_def)
        have l: "en_lastTradeMs (wo_engine w') = snd ?st" using K rec OrderPlaced wp by simp
        have c: "map (\<lambda>it. tr_createdAt (snd it)) (map (\<lambda>t. (pt_id t, tradeRowOf (ob_symbol bp) t)) ts) =
          map pt_createdAt ts" for ts by (simp add: tradeRowOf_def)
        have new: "tr_createdAt (snd it) \<le> snd ?st"
          if "it \<in> set (map (\<lambda>t. (pt_id t, tradeRowOf (ob_symbol bp) t)) (fst ?st))" for it
          using that stampTrades_times [of x 0 "en_lastTradeMs (wo_engine w)" ?fs] by (auto simp: tradeRowOf_def)
        have old: "tr_createdAt (snd it) \<le> en_lastTradeMs (wo_engine w)" if "it \<in> set (db_trades (wo_db w))" for it
          using assms that by (simp add: clockInv_def)
        show ?thesis
          unfolding clockInv_def tr l map_append c sorted_wrt_append
          using assms new old stampTrades_times [of x 0 "en_lastTradeMs (wo_engine w)" ?fs]
          by (fastforce simp: clockInv_def)
      next
        case (OrderCancelRequested e)
        then have "db_trades (wo_db w') = db_trades (wo_db w)"
          using rec wp by (simp add: recordedEvent_def recorded_def)
        then show ?thesis using assms K wp by (fastforce simp: clockInv_def)
      qed
    qed
  qed
  then show ?thesis by (simp add: h)
qed

lemma trade_times_increase_witness:
  "clockInv (snd (handleEvent demoIo False demoPlaced demoWorld)) \<and>
   map (\<lambda>it. tr_createdAt (snd it)) (db_trades (wo_db (snd (handleEvent demoIo False demoPlaced demoWorld)))) = [1000, 1001]"
proof -
  have "clockInv demoWorld" by (simp add: clockInv_def demoWorld_def)
  moreover have "map (\<lambda>it. tr_createdAt (snd it))
      (db_trades (wo_db (snd (handleEvent demoIo False demoPlaced demoWorld)))) = [1000, 1001]"
    by code_simp
  ultimately show ?thesis using trade_times_increase by blast
qed

end
