(* ===== verification/Engine_Recovery_Props.thy ===== *)
theory Engine_Recovery_Props
  imports Engine_Outbox_Props
begin

text \<open>
  Relay and restart of the matching engine: what reaches the trade stream is a prefix of the outbox
  once redeliveries are dropped, and \<open>bootstrap\<close> builds well-formed books from the database.
\<close>

section \<open>The relay\<close>

text \<open>
  The first \<open>m\<close> rows are marked published, the first \<open>n\<close> have reached the stream, where a row may
  have been sent without being marked yet.
\<close>

definition relayAt :: "nat \<Rightarrow> nat \<Rightarrow> world \<Rightarrow> bool" where
  "relayAt m n w \<longleftrightarrow>
     (let rows = db_outbox (wo_db w) in
      m \<le> n \<and> n \<le> Suc m \<and> n \<le> length rows \<and> (\<forall>i < length rows. ox_published (rows ! i) \<longleftrightarrow> i < m) \<and>
      uniq (wo_stream w) = map ox_payload (take n rows) \<and>
      distinct (map ox_payload rows) \<and> (\<forall>r \<in> set rows. tv_eventId (ox_payload r) \<noteq> []))"

definition relayInv :: "world \<Rightarrow> bool" where
  "relayInv w \<longleftrightarrow> (\<exists>m n. relayAt m n w)"

lemma filter_upt_ge: "filter (\<lambda>i. \<not> i < m) [0..<n] = [m..<n]"
  by (induction n) auto

lemma relayAt_unpublished:
  assumes "relayAt m n w"
  shows "unpublished (wo_db w) = [m..<min (m + SETTLEMENT_OUTBOX_BATCH) (length (db_outbox (wo_db w)))]"
proof -
  let ?rows = "db_outbox (wo_db w)"
  have m: "m \<le> length ?rows" using assms by (simp add: relayAt_def Let_def)
  have "filter (\<lambda>i. \<not> ox_published (?rows ! i)) [0..<length ?rows] = filter (\<lambda>i. \<not> i < m) [0..<length ?rows]"
    using assms by (intro filter_cong) (auto simp: relayAt_def Let_def)
  then show ?thesis using m by (simp add: unpublished_def filter_upt_ge take_upt min_def)
qed

lemma uniq_snoc: "uniq (xs @ [y]) = (if y \<in> set xs then uniq xs else uniq xs @ [y])"
  by (induction xs) auto

lemma relayAt_send:
  assumes "relayAt m n w" "m < length (db_outbox (wo_db w))"
  shows "relayAt m (Suc m) (w\<lparr>wo_stream := wo_stream w @ [ox_payload (db_outbox (wo_db w) ! m)]\<rparr>)"
proof -
  let ?rows = "db_outbox (wo_db w)" and ?y = "ox_payload (db_outbox (wo_db w) ! m)"
  have st: "uniq (wo_stream w) = map ox_payload (take n ?rows)" and nm: "n = m \<or> n = Suc m"
    and d: "distinct (map ox_payload ?rows)"
    using assms by (auto simp: relayAt_def Let_def)
  have mem: "?y \<in> set (wo_stream w) \<longleftrightarrow> n = Suc m"
  proof -
    have "?y \<in> set (wo_stream w) \<longleftrightarrow> ?y \<in> set (map ox_payload (take n ?rows))" using st set_uniq by metis
    also have "\<dots> \<longleftrightarrow> m < n"
    proof
      assume "?y \<in> set (map ox_payload (take n ?rows))"
      then obtain i where i: "i < n" "i < length ?rows" "map ox_payload ?rows ! i = map ox_payload ?rows ! m"
        using assms(2) by (auto simp: in_set_conv_nth)
      then have "i = m" using nth_eq_iff_index_eq [OF d] assms(2) by simp
      then show "m < n" using i by simp
    next
      assume "m < n"
      then have "take n ?rows ! m \<in> set (take n ?rows)" using assms(2) by (intro nth_mem) simp
      then show "?y \<in> set (map ox_payload (take n ?rows))" using \<open>m < n\<close> by auto
    qed
    finally show ?thesis using nm by auto
  qed
  have "uniq (wo_stream w @ [?y]) = map ox_payload (take (Suc m) ?rows)"
    using nm st mem assms(2) by (auto simp: uniq_snoc take_Suc_conv_app_nth)
  then show ?thesis using assms by (simp add: relayAt_def Let_def)
qed

lemma relayAt_mark:
  assumes "relayAt m (Suc m) w" "m < length (db_outbox (wo_db w))"
  shows "relayAt (Suc m) (Suc m) (setDb (markPublished m (wo_db w)) w)"
proof -
  have p: "map ox_payload (db_outbox (markPublished m (wo_db w))) = map ox_payload (db_outbox (wo_db w))"
    by (rule markPublished_payload)
  have l: "length (db_outbox (markPublished m (wo_db w))) = length (db_outbox (wo_db w))"
    by (simp add: markPublished_def)
  have ids: "\<forall>r \<in> set (db_outbox (markPublished m (wo_db w))). tv_eventId (ox_payload r) \<noteq> []"
  proof
    fix r assume "r \<in> set (db_outbox (markPublished m (wo_db w)))"
    then have "ox_payload r \<in> set (map ox_payload (db_outbox (markPublished m (wo_db w))))" by simp
    then have "ox_payload r \<in> set (map ox_payload (db_outbox (wo_db w)))" unfolding p .
    then show "tv_eventId (ox_payload r) \<noteq> []" using assms(1) by (auto simp: relayAt_def Let_def)
  qed
  have fl: "\<forall>i < length (db_outbox (wo_db w)). ox_published (db_outbox (markPublished m (wo_db w)) ! i) \<longleftrightarrow> i < Suc m"
    using assms by (auto simp: relayAt_def Let_def markPublished_def nth_list_update)
  show ?thesis
    using assms ids fl l p by (simp add: relayAt_def Let_def take_map [symmetric])
qed

lemma relayAt_ticks: "relayAt m n (w\<lparr>wo_ticks := ts\<rparr>) = relayAt m n w"
  by (simp add: relayAt_def)

lemma flushRows_relay:
  assumes "relayAt m n w" "e \<le> length (db_outbox (wo_db w))" "flushRows x k [m..<e] w = (err, w')"
  shows "\<exists>m' n'. relayAt m' n' w' \<and> length (db_outbox (wo_db w')) = length (db_outbox (wo_db w)) \<and> m \<le> m' \<and>
    (err = None \<longrightarrow> m' = max m e)"
  using assms
proof (induction "e - m" arbitrary: m n k w)
  case 0
  then show ?case by (auto intro!: exI [of _ m] exI [of _ n])
next
  case (Suc l)
  then have me: "m < e" by simp
  then have up: "[m..<e] = m # [Suc m..<e]" by (simp add: upt_conv_Cons)
  have ml: "m < length (db_outbox (wo_db w))" using me Suc.prems(2) by simp
  let ?y = "ox_payload (db_outbox (wo_db w) ! m)"
  let ?w1 = "w\<lparr>wo_stream := wo_stream w @ [?y]\<rparr>"
  have parse: "parseSettlementOutboxPayload ?y = Inr ?y"
    using Suc.prems(1) ml by (auto simp: parseSettlementOutboxPayload_def relayAt_def Let_def)
  note run = Suc.prems(3) [unfolded up flushRows.simps parse sum.case Let_def]
  note send = relayAt_send [OF Suc.prems(1) ml]
  show ?case
  proof (cases "io_xadd x k \<and> io_mark x k")
    case False
    then have "(w' = w \<or> w' = ?w1) \<and> err \<noteq> None" using run by (auto split: if_splits)
    then show ?thesis using Suc.prems(1) send by auto
  next
    case True
    let ?w2 = "setDb (markPublished m (wo_db ?w1)) ?w1"
    let ?w3 = "case ?y of TradeExecuted t \<Rightarrow> ?w2\<lparr>wo_ticks := wo_ticks ?w2 @ [tickOf t]\<rparr> | OrderClosed c \<Rightarrow> ?w2"
    have mark: "relayAt (Suc m) (Suc m) ?w2" using relayAt_mark [OF send] ml by simp
    have w3: "relayAt (Suc m) (Suc m) ?w3" using mark by (auto simp: relayAt_ticks split: trade_event.split)
    have l3: "length (db_outbox (wo_db ?w3)) = length (db_outbox (wo_db w))"
      by (auto simp: markPublished_def split: trade_event.split)
    have rest: "flushRows x (Suc k) [Suc m..<e] ?w3 = (err, w')" using run True by simp
    have e3: "e \<le> length (db_outbox (wo_db ?w3))" unfolding l3 by (rule Suc.prems(2))
    have le: "l = e - Suc m" using Suc.hyps(2) by simp
    from Suc.hyps(1) [OF le w3 e3 rest] obtain m' n' where r: "relayAt m' n' w'"
      "length (db_outbox (wo_db w')) = length (db_outbox (wo_db w))" "Suc m \<le> m'" "err = None \<longrightarrow> m' = max (Suc m) e"
      unfolding l3 by blast
    show ?thesis
      using r me by (intro exI [of _ m'] exI [of _ n']) auto
  qed
qed

text \<open>
  C13. The relay delivers the outbox in order: at any time the trade stream, with redeliveries dropped,
  is the outbox up to some row; the rows marked published are a prefix of those, at most one row
  behind; every pass keeps this whichever of its calls fails, never unmarks a row, and a pass without
  a failure publishes everything (up to one batch).
\<close>

theorem relay_in_order:
  assumes "relayAt m n w"
  shows "\<exists>m' n'. relayAt m' n' (snd (flushSettlementOutbox x w)) \<and> m \<le> m' \<and>
    (fst (flushSettlementOutbox x w) = None \<longrightarrow>
       m' = min (m + SETTLEMENT_OUTBOX_BATCH) (length (db_outbox (wo_db w))))"
proof -
  let ?e = "min (m + SETTLEMENT_OUTBOX_BATCH) (length (db_outbox (wo_db w)))"
  obtain err w' where f: "flushRows x 0 [m..<?e] w = (err, w')" by (cases "flushRows x 0 [m..<?e] w")
  have fl: "flushSettlementOutbox x w = (err, w')"
    unfolding flushSettlementOutbox_def relayAt_unpublished [OF assms] by (rule f)
  have "m \<le> length (db_outbox (wo_db w))" using assms by (simp add: relayAt_def Let_def)
  then have mx: "max m ?e = ?e" by simp
  have "?e \<le> length (db_outbox (wo_db w))" by simp
  from flushRows_relay [OF assms this f] show ?thesis unfolding fl mx by auto
qed

definition relayWorld :: world where
  "relayWorld = snd (handleEvent (demoIo\<lparr>io_xadd := (\<lambda>k. k < 2), io_mark := (\<lambda>k. k < 1)\<rparr>) False demoPlaced demoWorld)"

lemma relay_in_order_witness:
  "relayAt 1 2 relayWorld \<and>
   (\<exists>m' n'. relayAt m' n' (snd (flushSettlementOutbox demoIo relayWorld)) \<and> 1 \<le> m')"
proof -
  have "relayAt 1 2 relayWorld"
    unfolding relayAt_def by code_simp
  then show ?thesis using relay_in_order by blast
qed

end
