(* ===== verification/Engine_Bootstrap_Props.thy ===== *)
theory Engine_Bootstrap_Props
  imports Engine_Recovery_Props
begin

text \<open>
  The restart of the matching engine: \<open>bootstrap\<close> builds well-formed books that hold exactly orders
  the database still has open, with their remaining quantities.
\<close>

section \<open>Quarantine of crossing orders\<close>

lemma best_ask:
  "(case foldl (\<lambda>best order. case best of None \<Rightarrow> Some (r_price order)
      | Some b \<Rightarrow> if r_price order < b then Some (r_price order) else Some b) acc xs of
     None \<Rightarrow> acc = None \<and> xs = []
   | Some b \<Rightarrow> (\<forall>x \<in> set xs. b \<le> r_price x) \<and> (case acc of None \<Rightarrow> True | Some a \<Rightarrow> b \<le> a) \<and>
       (acc = Some b \<or> b \<in> r_price ` set xs))"
proof (induction xs arbitrary: acc)
  case (Cons x xs)
  let ?acc = "case acc of None \<Rightarrow> Some (r_price x) | Some b \<Rightarrow> if r_price x < b then Some (r_price x) else Some b"
  show ?case using Cons.IH [of ?acc] by (fastforce split: option.splits if_splits)
qed (auto split: option.split)

lemma best_bid:
  "(case foldl (\<lambda>best order. case best of None \<Rightarrow> Some (r_price order)
      | Some b \<Rightarrow> if r_price order > b then Some (r_price order) else Some b) acc xs of
     None \<Rightarrow> acc = None \<and> xs = []
   | Some b \<Rightarrow> (\<forall>x \<in> set xs. r_price x \<le> b) \<and> (case acc of None \<Rightarrow> True | Some a \<Rightarrow> a \<le> b) \<and>
       (acc = Some b \<or> b \<in> r_price ` set xs))"
proof (induction xs arbitrary: acc)
  case (Cons x xs)
  let ?acc = "case acc of None \<Rightarrow> Some (r_price x) | Some b \<Rightarrow> if r_price x > b then Some (r_price x) else Some b"
  show ?case using Cons.IH [of ?acc] by (fastforce split: option.splits if_splits)
qed (auto split: option.split)

lemma crossesRestoredBook_BUY:
  "\<not> crossesRestoredBook book BUY p \<longleftrightarrow> (\<forall>a \<in> set (ob_asks book). p < r_price a)"
  using best_ask [of None "ob_asks book"]
  by (force simp: crossesRestoredBook_def Let_def split: option.splits)

lemma crossesRestoredBook_SELL:
  "\<not> crossesRestoredBook book SELL p \<longleftrightarrow> (\<forall>b \<in> set (ob_bids book). r_price b < p)"
  using best_bid [of None "ob_bids book"]
  by (force simp: crossesRestoredBook_def Let_def split: option.splits)

section \<open>Replaying the open orders\<close>

text \<open>A resting order stands for an open order row with its remaining quantity.\<close>

definition restingFor :: "db \<Rightarrow> resting_order \<Rightarrow> bool" where
  "restingFor d r \<longleftrightarrow> (\<exists>o'. (r_orderId r, o') \<in> set (db_orders d) \<and> isActive (or_status o') \<and> or_type o' = LIMIT \<and>
     or_accountId o' = r_accountId r \<and> or_side o' = r_side r \<and> or_price o' = Some (r_price r) \<and>
     r_qty r = remainingRestingQty (or_qty o') (or_filledQty o') (tradedQty d (or_side o') (r_orderId r)) \<and>
     r_totalQty r = or_qty o') \<and> r_orderId r \<notin> fst ` set (db_markers d)"

definition bookOrders :: "orderbook \<Rightarrow> resting_order list" where
  "bookOrders b = ob_bids b @ ob_asks b"

text \<open>The book under construction: not sorted yet, but with different sequence numbers.\<close>

definition draftInv :: "db \<Rightarrow> string set \<Rightarrow> string \<Rightarrow> orderbook \<Rightarrow> bool" where
  "draftInv d done s b \<longleftrightarrow>
     ob_symbol b = s \<and> (\<forall>x \<in> set (ob_bids b). restingOk BUY (ob_seq b) x) \<and>
     (\<forall>x \<in> set (ob_asks b). restingOk SELL (ob_seq b) x) \<and> uncrossed b \<and>
     distinct (bookIds b) \<and> set (bookIds b) \<subseteq> done \<and>
     distinct (map r_seq (ob_bids b)) \<and> distinct (map r_seq (ob_asks b)) \<and>
     (\<forall>x \<in> set (bookOrders b). restingFor d x)"

definition draftsInv :: "db \<Rightarrow> string set \<Rightarrow> (string, orderbook) rows \<Rightarrow> bool" where
  "draftsInv d done books \<longleftrightarrow> (\<forall>s b. findRow books s = Some b \<longrightarrow> draftInv d done s b)"

lemma draftInv_mono: "draftInv d A s b \<Longrightarrow> A \<subseteq> B \<Longrightarrow> draftInv d B s b"
  by (auto simp: draftInv_def)

definition replayable :: "db \<Rightarrow> string \<times> order_row \<Rightarrow> bool" where
  "replayable d io' \<longleftrightarrow> io' \<in> set (db_orders d) \<and> isActive (or_status (snd io')) \<and> or_type (snd io') = LIMIT \<and>
     fst io' \<notin> fst ` set (db_markers d) \<and> 0 \<le> or_filledQty (snd io')"

lemma replayOrder_draft:
  assumes inv: "draftsInv d A books" and r: "replayable d (i, o')" and fresh: "i \<notin> A"
  shows "draftsInv d (insert i A) (replayOrder d (i, o') books)"
proof (cases "\<exists>book price. findRow books (or_symbol o') = Some book \<and> or_price o' = Some price \<and>
    remainingRestingQty (or_qty o') (or_filledQty o') (tradedQty d (or_side o') i) \<noteq> 0 \<and>
    \<not> crossesRestoredBook book (or_side o') price")
  case False
  then have "replayOrder d (i, o') books = books"
    by (auto simp: replayOrder_def Let_def split: option.split)
  then show ?thesis using inv draftInv_mono [of d A _ _ "insert i A"] by (auto simp: draftsInv_def)
next
  case True
  then obtain book price where bk: "findRow books (or_symbol o') = Some book" "or_price o' = Some price"
    and rem: "remainingRestingQty (or_qty o') (or_filledQty o') (tradedQty d (or_side o') i) \<noteq> 0"
    and nc: "\<not> crossesRestoredBook book (or_side o') price" by blast
  let ?rem = "remainingRestingQty (or_qty o') (or_filledQty o') (tradedQty d (or_side o') i)"
  let ?r = "\<lparr>r_orderId = i, r_accountId = or_accountId o', r_side = or_side o', r_price = price, r_qty = ?rem,
    r_totalQty = or_qty o', r_seq = ob_seq book + 1\<rparr>"
  let ?b = "case or_side o' of BUY \<Rightarrow> book\<lparr>ob_seq := ob_seq book + 1, ob_bids := ob_bids book @ [?r]\<rparr>
    | SELL \<Rightarrow> book\<lparr>ob_seq := ob_seq book + 1, ob_asks := ob_asks book @ [?r]\<rparr>"
  have rep: "replayOrder d (i, o') books = putRow (or_symbol o') ?b books"
    using bk rem nc by (simp add: replayOrder_def Let_def)
  have D: "draftInv d A (or_symbol o') book" using inv bk by (simp add: draftsInv_def)
  have ok: "restingOk (or_side o') (ob_seq book + 1) ?r"
    using rem r by (auto simp: restingOk_def remainingRestingQty_def replayable_def)
  have rf: "restingFor d ?r" using r bk by (auto simp: restingFor_def replayable_def)
  have ids: "i \<notin> set (bookIds book)" using D fresh by (auto simp: draftInv_def)
  have sq: "ob_seq book + 1 \<notin> r_seq ` set (ob_bids book)" "ob_seq book + 1 \<notin> r_seq ` set (ob_asks book)"
    using D by (force simp: draftInv_def restingOk_def)+
  have "draftInv d (insert i A) (or_symbol o') ?b"
  proof (cases "or_side o'")
    case BUY
    have "\<forall>a \<in> set (ob_asks book). price < r_price a" using nc by (simp add: BUY crossesRestoredBook_BUY)
    then show ?thesis
      using D ok rf ids sq BUY
      by (auto simp: draftInv_def bookOrders_def uncrossed_def bookIds_def intro: restingOk_mono)
  next
    case SELL
    have "\<forall>b \<in> set (ob_bids book). r_price b < price" using nc by (simp add: SELL crossesRestoredBook_SELL)
    then show ?thesis
      using D ok rf ids sq SELL
      by (auto simp: draftInv_def bookOrders_def uncrossed_def bookIds_def intro: restingOk_mono)
  qed
  then have new: "draftInv d (insert i A) (or_symbol o') ?b" .
  show ?thesis
    unfolding draftsInv_def rep
  proof (intro allI impI)
    fix s b assume "findRow (putRow (or_symbol o') ?b books) s = Some b"
    then consider "s = or_symbol o'" "b = ?b" | "findRow books s = Some b"
      unfolding rows.look_put_iff by (metis)
    then show "draftInv d (insert i A) s b"
    proof cases
      case 1
      then show ?thesis using new by simp
    next
      case 2
      then have "draftInv d A s b" using inv by (simp add: draftsInv_def)
      then show ?thesis by (rule draftInv_mono) auto
    qed
  qed
qed

lemma fold_replayOrder_draft:
  assumes "draftsInv d A books" "\<forall>x \<in> set os. replayable d x" "distinct (map fst os)" "fst ` set os \<inter> A = {}"
  shows "draftsInv d (A \<union> fst ` set os) (fold (replayOrder d) os books)"
  using assms
proof (induction os arbitrary: books A)
  case (Cons x os)
  obtain i o' where x: "x = (i, o')" by (cases x)
  have "draftsInv d (insert i A) (replayOrder d (i, o') books)"
    using Cons.prems x by (intro replayOrder_draft) auto
  from Cons.IH [OF this] Cons.prems x show ?case by auto
qed simp

section \<open>Sorting\<close>

lemma sort_seq_strict:
  assumes "distinct (map r_seq xs)"
  shows "sorted_wrt (priorTo (betterThan BUY)) (sort_key (\<lambda>r. (- r_price r, r_seq r)) xs)"
    and "sorted_wrt (priorTo (betterThan SELL)) (sort_key (\<lambda>r. (r_price r, r_seq r)) xs)"
proof -
  have strict: "sorted_wrt P (sort_key f xs)"
    if P: "\<And>x y. f x \<le> f y \<Longrightarrow> r_seq x \<noteq> r_seq y \<Longrightarrow> P x y" for P and f :: "resting_order \<Rightarrow> int \<times> int"
  proof -
    have s: "sorted (map f (sort_key f xs))" by (rule sorted_sort_key)
    have d: "distinct (map r_seq (sort_key f xs))" using assms by (simp add: distinct_map)
    have "sorted (map f ys) \<Longrightarrow> distinct (map r_seq ys) \<Longrightarrow> sorted_wrt P ys" for ys
    proof (induction ys)
      case (Cons a ys)
      have "P a y" if "y \<in> set ys" for y
        using Cons.prems that by (intro P) auto
      then show ?case using Cons by simp
    qed simp
    from this [OF s d] show ?thesis .
  qed
  show "sorted_wrt (priorTo (betterThan BUY)) (sort_key (\<lambda>r. (- r_price r, r_seq r)) xs)"
    by (rule strict) (auto simp: priorTo_def betterThan_def less_eq_prod_def)
  show "sorted_wrt (priorTo (betterThan SELL)) (sort_key (\<lambda>r. (r_price r, r_seq r)) xs)"
    by (rule strict) (auto simp: priorTo_def betterThan_def less_eq_prod_def)
qed

lemma sortBook_bookInv:
  assumes "draftInv d A s b"
  shows "bookFor s (sortBook b)" and "set (bookOrders (sortBook b)) = set (bookOrders b)"
proof -
  have "distinct (bookIds (sortBook b))"
    using assms by (auto simp: draftInv_def bookIds_def sortBook_def distinct_map)
  then show "bookFor s (sortBook b)"
    using assms sort_seq_strict(1) [of "ob_bids b"] sort_seq_strict(2) [of "ob_asks b"]
    by (auto simp: bookFor_def draftInv_def bookInv_def sideInv_def uncrossed_def sortBook_def)
  show "set (bookOrders (sortBook b)) = set (bookOrders b)"
    by (simp add: bookOrders_def sortBook_def)
qed

section \<open>The whole restart\<close>

lemma draftInv_createBook: "draftInv d A s (createBook s p)"
  by (simp add: draftInv_def createBook_def uncrossed_def bookIds_def bookOrders_def)

lemma created_drafts:
  "draftsInv d A books \<Longrightarrow> draftsInv d A (fold (\<lambda>(s, row, price) m. putRow s (createBook s (Some price)) m) rs books)"
proof (induction rs arbitrary: books)
  case (Cons r rs)
  obtain s row price where r: "r = (s, row, price)" by (cases r) auto
  have "draftsInv d A (putRow s (createBook s (Some price)) books)"
    using Cons.prems draftInv_createBook by (auto simp: draftsInv_def rows.look_put_iff split: if_splits)
  from Cons.IH [OF this] show ?case by (simp add: r)
qed simp

lemma replayableOrders_facts:
  assumes "uniqueKeys (db_orders d)" "\<forall>x \<in> set (db_orders d). 0 \<le> or_filledQty (snd x)"
  shows "distinct (map fst (replayableOrders d))" and "\<forall>x \<in> set (replayableOrders d). replayable d x"
proof -
  have m: "distinct (map fst (byCreation (filter P (db_orders d))))" for P
    using assms(1) by (auto simp: byCreation_def uniqueKeys_def distinct_map inj_on_def)
  show "distinct (map fst (replayableOrders d))"
    unfolding replayableOrders_def Let_def by (rule distinct_map_filter [OF m])
  show "\<forall>x \<in> set (replayableOrders d). replayable d x"
    using assms(2)
    by (auto simp: replayableOrders_def Let_def byCreation_def replayable_def durableCloseMarkerIds_def)
      (force)+
qed

lemma distinct_fst_partition:
  "distinct (map fst rs) \<Longrightarrow> distinct (map fst (filter P rs @ filter (\<lambda>x. \<not> P x) rs))"
  by (induction rs) (auto dest: in_set_zipE)

text \<open>
  C14. A restart rebuilds well-formed books from the database alone: every book is sorted, positive,
  unique and not crossed (orders that would cross are kept out), and every order in a book is an
  active limit order of the database without a durable close, at its own price and with exactly the
  quantity that neither the order row nor the recorded trades have filled.
\<close>

theorem bootstrap_restores:
  assumes "uniqueKeys (db_orders (wo_db w))" "\<forall>x \<in> set (db_orders (wo_db w)). 0 \<le> or_filledQty (snd x)"
    and "en_books (wo_engine w) = []" "en_seen (wo_engine w) = []"
  shows "engineInv (bootstrap w) \<and>
    (\<forall>s b. findRow (en_books (wo_engine (bootstrap w))) s = Some b \<longrightarrow>
       (\<forall>r \<in> set (bookOrders b). restingFor (wo_db w) r))"
proof -
  let ?d = "wo_db w"
  define rs where "rs = map (\<lambda>(s, row). (s, row, restoredPrice ?d s row))
    (filter (\<lambda>(s, row). s \<in> set TRADABLE_SYMBOLS) (db_symbols ?d))"
  define books where "books = fold (\<lambda>(s, row, price) m. putRow s (createBook s (Some price)) m) rs []"
  define P where "P = (\<lambda>(i :: string, o'). isReserveOrder (dedicatedReserveAccountSymbols ?d) o')"
  define os where "os = filter P (replayableOrders ?d) @ filter (\<lambda>x. \<not> P x) (replayableOrders ?d)"
  note R = replayableOrders_facts [OF assms(1,2)]
  have "draftsInv ?d {} []" by (simp add: draftsInv_def)
  then have "draftsInv ?d {} books" unfolding books_def by (rule created_drafts)
  moreover have "\<forall>x \<in> set os. replayable ?d x" using R(2) by (auto simp: os_def)
  moreover have "distinct (map fst os)" unfolding os_def by (rule distinct_fst_partition [OF R(1)])
  ultimately have F: "draftsInv ?d (fst ` set os) (fold (replayOrder ?d) os books)"
    using fold_replayOrder_draft [of ?d "{}" books os] by simp
  have np: "(\<lambda>x. \<not> P x) = (\<lambda>(i, o'). \<not> isReserveOrder (dedicatedReserveAccountSymbols ?d) o')"
    by (auto simp: P_def)
  have eq: "en_books (wo_engine (bootstrap w)) =
      map (\<lambda>(s, b). (s, sortBook b)) (fold (replayOrder ?d) os books)"
    unfolding bootstrap_def Let_def os_def np by (simp add: P_def books_def rs_def assms(3))
  have seen: "en_seen (wo_engine (bootstrap w)) = []" by (simp add: bootstrap_def Let_def assms(4))
  have each: "\<exists>b'. draftInv ?d (fst ` set os) s b' \<and> b = sortBook b'"
    if "findRow (en_books (wo_engine (bootstrap w))) s = Some b" for s b
    using that F unfolding eq findRow_map by (auto simp: draftsInv_def)
  have "restingFor ?d r" if book: "findRow (en_books (wo_engine (bootstrap w))) s = Some b" and mem: "r \<in> set (bookOrders b)" for s b r
  proof -
    obtain b' where b': "draftInv ?d (fst ` set os) s b'" "b = sortBook b'" using each [OF book] by blast
    then show ?thesis using mem sortBook_bookInv(2) [OF b'(1)] by (simp add: draftInv_def)
  qed
  moreover have "bookFor s b" if "findRow (en_books (wo_engine (bootstrap w))) s = Some b" for s b
    using each [OF that] sortBook_bookInv(1) by blast
  ultimately show ?thesis by (simp add: engineInv_def seen)
qed

definition restartWorld :: world where
  "restartWorld = demoWorld\<lparr>wo_engine := \<lparr>en_lastTradeMs = 0, en_books = [], en_seen = []\<rparr>,
     wo_db := (wo_db demoWorld)\<lparr>db_orders :=
       [(''o1'', \<lparr>or_accountId = ''x'', or_symbol = ''KABU'', or_side = BUY, or_type = LIMIT, or_price = Some 100,
          or_qty = 5, or_filledQty = 2, or_status = PARTIAL, or_holdPerUnit = 101, or_positionSide = None, or_createdAt = 2\<rparr>),
        (''o2'', \<lparr>or_accountId = ''y'', or_symbol = ''KABU'', or_side = SELL, or_type = LIMIT, or_price = Some 99,
          or_qty = 4, or_filledQty = 0, or_status = OPEN, or_holdPerUnit = 0, or_positionSide = None, or_createdAt = 3\<rparr>)]\<rparr>\<rparr>"

lemma bootstrap_restores_witness:
  "engineInv (bootstrap restartWorld)"
  using bootstrap_restores [of restartWorld]
  by (simp add: restartWorld_def demoWorld_def uniqueKeys_def)

end
