(* ===== verification/Lock_Strategies.thy ===== *)
theory Lock_Strategies
  imports Database
begin

text \<open>
  \<open>packages/concurrency\<close>: how a service reads accounts, runs its body and writes them back, under one
  of three strategies. A transaction reads its accounts, other transactions may then commit (the
  argument \<open>others\<close>), and the body runs against the database as it is after that; a row lock
  (pessimistic) excludes others in between. The counters, the back-off delays, the statement timeouts
  and the fairness of waiting are left out.
\<close>

datatype lock_strategy = Optimistic | Pessimistic | Distributed

record account_state =
  as_balance :: int
  as_holdAmount :: int
  as_version :: int

text \<open>The context a body receives: the snapshot and the guarded update.\<close>

record lock_ctx =
  cx_accounts :: "(string, account_state) rows"
  cx_update :: "string \<Rightarrow> int \<Rightarrow> int \<Rightarrow> db \<Rightarrow> error + db"

definition stateOf :: "account_row \<Rightarrow> account_state" where
  "stateOf a = \<lparr>as_balance = ac_balance a, as_holdAmount = ac_holdAmount a, as_version = ac_version a\<rparr>"

text \<open>\<open>[...new Set(accountIds)].sort()\<close>\<close>

definition lockOrder :: "string list \<Rightarrow> string list" where
  "lockOrder accountIds = sort (uniq accountIds)"

fun readAccounts :: "string list \<Rightarrow> db \<Rightarrow> error + (string, account_state) rows" where
  "readAccounts [] d = Inr []"
| "readAccounts (i # is) d =
     (case findRow (db_accounts d) i of
        None \<Rightarrow> Inl (Thrown ''account not found'')
      | Some a \<Rightarrow> bindE (readAccounts is d) (\<lambda>rest. Inr ((i, stateOf a) # rest)))"

section \<open>Guarded updates\<close>

text \<open>
  \<open>updateMany\<close> under the guard of each strategy; a guard that matches no row raises the strategy's
  conflict. The new version is the row's version plus one.
\<close>

definition conflict :: error where "conflict = ConflictError ''version''"

definition fencingLost :: error where "fencingLost = ConflictError ''fencing''"

definition updateOptimistic :: "(string, account_state) rows \<Rightarrow> string \<Rightarrow> int \<Rightarrow> int \<Rightarrow> db \<Rightarrow> error + db" where
  "updateOptimistic accounts i balance hold d =
     (case findRow accounts i of
        None \<Rightarrow> Inl (Thrown ''account not locked'')
      | Some acc \<Rightarrow>
          (case findRow (db_accounts d) i of
             None \<Rightarrow> Inl conflict
           | Some a \<Rightarrow>
               if ac_version a = as_version acc
               then writeAccount i (a\<lparr>ac_balance := balance, ac_holdAmount := hold,
                      ac_version := ac_version a + 1\<rparr>) d
               else Inl conflict))"

definition updatePessimistic :: "(string, account_state) rows \<Rightarrow> string \<Rightarrow> int \<Rightarrow> int \<Rightarrow> db \<Rightarrow> error + db" where
  "updatePessimistic accounts i balance hold d =
     (case findRow accounts i of
        None \<Rightarrow> Inl (Thrown ''account not locked'')
      | Some acc \<Rightarrow>
          (case findRow (db_accounts d) i of
             None \<Rightarrow> Inr d
           | Some a \<Rightarrow> writeAccount i (a\<lparr>ac_balance := balance, ac_holdAmount := hold,
                        ac_version := ac_version a + 1\<rparr>) d))"

definition updateDistributed ::
  "(string, int) rows \<Rightarrow> (string, account_state) rows \<Rightarrow> string \<Rightarrow> int \<Rightarrow> int \<Rightarrow> db \<Rightarrow> error + db" where
  "updateDistributed fences accounts i balance hold d =
     (case findRow accounts i of
        None \<Rightarrow> Inl (Thrown ''account not locked'')
      | Some acc \<Rightarrow>
          (case (findRow fences i, findRow (db_accounts d) i) of
             (Some fence, Some a) \<Rightarrow>
               if ac_fencingToken a \<le> fence
               then writeAccount i (a\<lparr>ac_balance := balance, ac_holdAmount := hold,
                      ac_version := ac_version a + 1, ac_fencingToken := fence\<rparr>) d
               else Inl fencingLost
           | _ \<Rightarrow> Inl fencingLost))"

section \<open>The three strategies\<close>

type_synonym 'a body = "lock_ctx \<Rightarrow> db \<Rightarrow> error + 'a \<times> db"

definition pessimisticLock :: "string list \<Rightarrow> 'a body \<Rightarrow> db \<Rightarrow> error + 'a \<times> db" where
  "pessimisticLock accountIds body d =
     bindE (readAccounts (lockOrder accountIds) d) (\<lambda>accounts.
       body \<lparr>cx_accounts = accounts, cx_update = updatePessimistic accounts\<rparr> d)"

text \<open>
  The touch after the body: an account the body did not update gets its version raised under the same
  guard. \<open>d0\<close> is the database the body began with; an update is recognised by the version it raised.
\<close>

fun touchAll :: "(string, account_state) rows \<Rightarrow> db \<Rightarrow> db \<Rightarrow> error + db" where
  "touchAll [] d0 d = Inr d"
| "touchAll ((i, acc) # rest) d0 d =
     (case (findRow (db_accounts d0) i, findRow (db_accounts d) i) of
        (Some a0, Some a) \<Rightarrow>
          if ac_version a \<noteq> ac_version a0 then touchAll rest d0 d
          else if ac_version a = as_version acc
          then touchAll rest d0 (d\<lparr>db_accounts := putRow i (a\<lparr>ac_version := ac_version a + 1\<rparr>) (db_accounts d)\<rparr>)
          else Inl conflict
      | _ \<Rightarrow> Inl conflict)"

definition optimisticAttempt :: "(db \<Rightarrow> db) \<Rightarrow> string list \<Rightarrow> 'a body \<Rightarrow> db \<Rightarrow> error + 'a \<times> db" where
  "optimisticAttempt others ids body d =
     bindE (readAccounts ids d) (\<lambda>accounts.
       let d0 = others d in
       bindE (body \<lparr>cx_accounts = accounts, cx_update = updateOptimistic accounts\<rparr> d0) (\<lambda>(r, d1).
       bindE (touchAll accounts d0 d1) (\<lambda>d2. Inr (r, d2))))"

text \<open>
  The retry loop: \<open>others\<close> gives what the others commit during each attempt; a failed attempt leaves
  only that. The result says what the caller gets, the database what is committed in the end.
\<close>

function optimisticLoop ::
  "(nat \<Rightarrow> db \<Rightarrow> db) \<Rightarrow> nat \<Rightarrow> nat \<Rightarrow> string list \<Rightarrow> 'a body \<Rightarrow> db \<Rightarrow> (error + 'a) \<times> db" where
  "optimisticLoop others maxRetries attempt ids body d =
     (case optimisticAttempt (others attempt) ids body d of
        Inr (r, d') \<Rightarrow> (Inr r, d')
      | Inl e \<Rightarrow>
          if e \<noteq> conflict then (Inl e, others attempt d)
          else if attempt \<ge> maxRetries then (Inl (ConflictError ''max retries exceeded''), others attempt d)
          else optimisticLoop others maxRetries (Suc attempt) ids body (others attempt d))"
  by pat_completeness auto
termination
  by (relation "measure (\<lambda>(others, m, a, ids, body, d). m - a)") auto

definition optimisticLock ::
  "(nat \<Rightarrow> db \<Rightarrow> db) \<Rightarrow> nat option \<Rightarrow> string list \<Rightarrow> 'a body \<Rightarrow> db \<Rightarrow> (error + 'a) \<times> db" where
  "optimisticLock others maxRetries accountIds body d =
     optimisticLoop others (case maxRetries of None \<Rightarrow> 5 | Some m \<Rightarrow> m) 1 (lockOrder accountIds) body d"

text \<open>
  The Redis side of the distributed strategy: who holds each lock, and the fence counters. \<open>SET NX\<close>
  fails on a held lock (the caller then waits until its deadline), \<open>INCR\<close> gives the next fence, the
  release script deletes only its own token, and a time to live may expire at any moment.
\<close>

record redis_locks =
  rl_holders :: "(string, string) rows"
  rl_fences :: "(string, int) rows"

definition tryAcquire :: "string \<Rightarrow> string \<Rightarrow> redis_locks \<Rightarrow> (int \<times> redis_locks) option" where
  "tryAcquire i token rl =
     (case findRow (rl_holders rl) i of
        Some t \<Rightarrow> None
      | None \<Rightarrow>
          let fence = (case findRow (rl_fences rl) i of None \<Rightarrow> 1 | Some f \<Rightarrow> f + 1)
          in Some (fence, \<lparr>rl_holders = putRow i token (rl_holders rl),
                           rl_fences = putRow i fence (rl_fences rl)\<rparr>))"

definition releaseLock :: "string \<Rightarrow> string \<Rightarrow> redis_locks \<Rightarrow> redis_locks" where
  "releaseLock i token rl =
     (if findRow (rl_holders rl) i = Some token
      then rl\<lparr>rl_holders := dropRow i (rl_holders rl)\<rparr> else rl)"

fun acquireAll ::
  "string \<Rightarrow> string list \<Rightarrow> (string, int) rows \<Rightarrow> redis_locks \<Rightarrow> (error + (string, int) rows) \<times> string list \<times> redis_locks" where
  "acquireAll token [] fences rl = (Inr fences, [], rl)"
| "acquireAll token (i # is) fences rl =
     (case tryAcquire i token rl of
        None \<Rightarrow> (Inl (ConflictError ''lock timeout''), [], rl)
      | Some (fence, rl') \<Rightarrow>
          (case acquireAll token is (putRow i fence fences) rl' of
             (r, held, rl'') \<Rightarrow> (r, i # held, rl'')))"

definition distributedLock ::
  "(db \<Rightarrow> db) \<Rightarrow> string \<Rightarrow> string list \<Rightarrow> 'a body \<Rightarrow> redis_locks \<Rightarrow> db \<Rightarrow> (error + 'a) \<times> redis_locks \<times> db" where
  "distributedLock others token accountIds body rl d =
     (case acquireAll token (lockOrder accountIds) [] rl of
        (Inl e, held, rl1) \<Rightarrow> (Inl e, fold (\<lambda>i. releaseLock i token) held rl1, d)
      | (Inr fences, held, rl1) \<Rightarrow>
          (case bindE (readAccounts (lockOrder accountIds) d) (\<lambda>accounts.
                  body \<lparr>cx_accounts = accounts, cx_update = updateDistributed fences accounts\<rparr> (others d)) of
             Inl e \<Rightarrow> (Inl e, fold (\<lambda>i. releaseLock i token) held rl1, others d)
           | Inr (r, d') \<Rightarrow> (Inr r, fold (\<lambda>i. releaseLock i token) held rl1, d')))"

section \<open>What a body may rely on\<close>

text \<open>
  The contract of \<open>updateAccount\<close>: when it succeeds on an existing account it stores the two amounts,
  keeps the owner, obeys the CHECK constraints and changes nothing else.
\<close>

definition storedAccount :: "string \<Rightarrow> int \<Rightarrow> int \<Rightarrow> db \<Rightarrow> db \<Rightarrow> bool" where
  "storedAccount i balance hold d d' \<longleftrightarrow>
     (\<exists>a a'. findRow (db_accounts d) i = Some a \<and> ac_balance a' = balance \<and> ac_holdAmount a' = hold \<and>
        ac_userId a' = ac_userId a \<and> accountCheck a' \<and> d' = d\<lparr>db_accounts := putRow i a' (db_accounts d)\<rparr>)"

lemma writeAccount_stored:
  assumes "writeAccount i a' d = Inr d'" "findRow (db_accounts d) i = Some a" "ac_userId a' = ac_userId a"
    and "ac_balance a' = b" "ac_holdAmount a' = h"
  shows "storedAccount i b h d d'"
  using assms unfolding storedAccount_def writeAccount_Inr by blast

lemma storedAccount_dbOk: "storedAccount i b h d d' \<Longrightarrow> dbOk d \<Longrightarrow> dbOk d'"
  unfolding storedAccount_def dbOk_def by (auto simp: rows.look_put_iff split: if_splits)

lemma storedAccount_find:
  "storedAccount i b h d d' \<Longrightarrow> findRow (db_accounts d') j \<noteq> None \<longleftrightarrow> findRow (db_accounts d) j \<noteq> None"
  unfolding storedAccount_def by (cases "j = i") auto

locale account_lock =
  fixes upd :: "string \<Rightarrow> int \<Rightarrow> int \<Rightarrow> db \<Rightarrow> error + db"
  assumes upd_stores: "upd i b h d = Inr d' \<Longrightarrow> findRow (db_accounts d) i \<noteq> None \<Longrightarrow> storedAccount i b h d d'"
begin

lemma upd_check: "upd i b h d = Inr d' \<Longrightarrow> findRow (db_accounts d) i \<noteq> None \<Longrightarrow> 0 \<le> h \<and> h \<le> b"
  using upd_stores [of i b h d d'] by (auto simp: storedAccount_def accountCheck_def)

lemma upd_dbOk: "upd i b h d = Inr d' \<Longrightarrow> findRow (db_accounts d) i \<noteq> None \<Longrightarrow> dbOk d \<Longrightarrow> dbOk d'"
  using upd_stores storedAccount_dbOk by blast

lemma upd_other:
  "upd i b h d = Inr d' \<Longrightarrow> findRow (db_accounts d) i \<noteq> None \<Longrightarrow> j \<noteq> i \<Longrightarrow>
    findRow (db_accounts d') j = findRow (db_accounts d) j"
  using upd_stores [of i b h d d'] by (auto simp: storedAccount_def)

lemma upd_accounts_exist:
  "upd i b h d = Inr d' \<Longrightarrow> findRow (db_accounts d) i \<noteq> None \<Longrightarrow>
    findRow (db_accounts d') j \<noteq> None \<longleftrightarrow> findRow (db_accounts d) j \<noteq> None"
  using upd_stores storedAccount_find by blast

end

interpretation optimistic: account_lock "updateOptimistic accounts"
  by unfold_locales
    (auto simp: updateOptimistic_def split: option.splits if_splits elim!: writeAccount_stored)

interpretation pessimistic: account_lock "updatePessimistic accounts"
  by unfold_locales (auto simp: updatePessimistic_def split: option.splits elim!: writeAccount_stored)

interpretation distributed: account_lock "updateDistributed fences accounts"
  by unfold_locales
    (auto simp: updateDistributed_def split: option.splits if_splits elim!: writeAccount_stored)

end
