(* ===== verification/Lock_Props.thy ===== *)
theory Lock_Props
  imports Lock_Strategies
begin

text \<open>
  What the lock strategies guarantee under interference: an optimistic commit is a serial execution,
  locks are taken in one global order, a fenced write never follows a newer one; and what the fence
  does not prevent.
\<close>

section \<open>Bodies\<close>

text \<open>A body writes accounts only through its context; other tables are its own business.\<close>

inductive runsWith :: "(string \<Rightarrow> int \<Rightarrow> int \<Rightarrow> db \<Rightarrow> error + db) \<Rightarrow> db \<Rightarrow> db \<Rightarrow> bool" for upd where
  start: "runsWith upd d d"
| account: "runsWith upd d d1 \<Longrightarrow> upd i b h d1 = Inr d2 \<Longrightarrow> runsWith upd d d2"
| others: "runsWith upd d d1 \<Longrightarrow> db_accounts d2 = db_accounts d1 \<Longrightarrow> runsWith upd d d2"

inductive_cases runsWithE: "runsWith upd d d'"

definition properBody :: "'a body \<Rightarrow> bool" where
  "properBody body \<longleftrightarrow> (\<forall>ctx d r d'. body ctx d = Inr (r, d') \<longrightarrow> runsWith (cx_update ctx) d d')"

text \<open>In this strategy a committed change of an account raises its version; accounts are not deleted.\<close>

definition raisesVersions :: "db \<Rightarrow> db \<Rightarrow> bool" where
  "raisesVersions d d' \<longleftrightarrow> (\<forall>i. case findRow (db_accounts d) i of
     None \<Rightarrow> True
   | Some a \<Rightarrow> (case findRow (db_accounts d') i of None \<Rightarrow> False
       | Some a' \<Rightarrow> a' = a \<or> ac_version a < ac_version a'))"

lemma updateOptimistic_Inr:
  "updateOptimistic accounts i b h d = Inr d' \<longleftrightarrow>
    (\<exists>acc a. findRow accounts i = Some acc \<and> findRow (db_accounts d) i = Some a \<and> ac_version a = as_version acc \<and>
      accountCheck (a\<lparr>ac_balance := b, ac_holdAmount := h, ac_version := ac_version a + 1\<rparr>) \<and>
      d' = d\<lparr>db_accounts := putRow i (a\<lparr>ac_balance := b, ac_holdAmount := h, ac_version := ac_version a + 1\<rparr>)
             (db_accounts d)\<rparr>)"
  by (auto simp: updateOptimistic_def writeAccount_Inr split: option.splits if_splits)

text \<open>A row the body has changed was at the snapshot's version when the body began.\<close>

lemma runsWith_optimistic:
  assumes "runsWith (updateOptimistic accounts) d d'" "findRow (db_accounts d) i = Some a"
  shows "\<exists>a'. findRow (db_accounts d') i = Some a' \<and>
    (a' = a \<or> ac_version a' = ac_version a + 1 \<and>
      (\<exists>acc. findRow accounts i = Some acc \<and> as_version acc = ac_version a))"
  using assms
proof (induction rule: runsWith.induct)
  case (account d d1 j b h d2)
  then obtain a1 where a1: "findRow (db_accounts d1) i = Some a1" "a1 = a \<or> ac_version a1 = ac_version a + 1 \<and>
      (\<exists>acc. findRow accounts i = Some acc \<and> as_version acc = ac_version a)" by blast
  show ?case
  proof (cases "j = i")
    case False
    then have "findRow (db_accounts d2) i = findRow (db_accounts d1) i"
      using account.hyps(2) by (auto simp: updateOptimistic_Inr)
    then show ?thesis using a1 by simp
  next
    case True
    then obtain acc where acc: "findRow accounts i = Some acc" "ac_version a1 = as_version acc"
      "findRow (db_accounts d2) i = Some (a1\<lparr>ac_balance := b, ac_holdAmount := h, ac_version := ac_version a1 + 1\<rparr>)"
      using account.hyps(2) a1(1) by (auto simp: updateOptimistic_Inr)
    have "a1 = a" using a1(2) acc by auto
    then show ?thesis using acc by simp
  qed
qed auto

section \<open>Reading and touching\<close>

lemma readAccounts_Inr:
  "readAccounts is d = Inr accounts \<longleftrightarrow>
    (\<forall>i \<in> set is. findRow (db_accounts d) i \<noteq> None) \<and>
    accounts = map (\<lambda>i. (i, stateOf (the (findRow (db_accounts d) i)))) is"
  by (induction "is" arbitrary: accounts) (auto simp: bindE_eq_Inr_iff split: option.splits)

lemma findRow_map_self: "findRow (map (\<lambda>i. (i, f i)) is) j = (if j \<in> set is then Some (f j) else None)"
  by (induction "is") (auto simp: findRow_Cons)

lemma touchAll_versions:
  assumes "touchAll accounts d0 d = Inr d'" "distinct (map fst accounts)"
  shows "\<forall>(i, acc) \<in> set accounts. \<exists>a0 a. findRow (db_accounts d0) i = Some a0 \<and> findRow (db_accounts d) i = Some a \<and>
    (ac_version a \<noteq> ac_version a0 \<or> ac_version a = as_version acc)"
  using assms
proof (induction accounts arbitrary: d)
  case (Cons ia rest)
  obtain i acc where ia: "ia = (i, acc)" by (cases ia)
  from Cons.prems(1) ia obtain a0 a where a: "findRow (db_accounts d0) i = Some a0" "findRow (db_accounts d) i = Some a"
    by (auto split: option.splits)
  show ?case
  proof (cases "ac_version a = ac_version a0")
    case False
    then show ?thesis using Cons a ia by auto
  next
    case True
    then have v: "ac_version a = as_version acc" using Cons.prems(1) a ia by (auto split: if_splits)
    let ?d1 = "d\<lparr>db_accounts := putRow i (a\<lparr>ac_version := ac_version a + 1\<rparr>) (db_accounts d)\<rparr>"
    have "touchAll rest d0 ?d1 = Inr d'" using Cons.prems(1) a True v ia by simp
    from Cons.IH [OF this] Cons.prems(2) ia
    have IH: "\<forall>(j, acc) \<in> set rest. \<exists>b0 b. findRow (db_accounts d0) j = Some b0 \<and> findRow (db_accounts ?d1) j = Some b \<and>
        (ac_version b \<noteq> ac_version b0 \<or> ac_version b = as_version acc)" by simp
    have "j \<noteq> i" if "(j, acc') \<in> set rest" for j acc' using Cons.prems(2) that ia by force
    then show ?thesis using IH a v ia by fastforce
  qed
qed simp

section \<open>Serial execution\<close>

lemma distinct_lockOrder: "distinct (lockOrder is)"
  by (simp add: lockOrder_def)

lemma attempt_serial:
  assumes "optimisticAttempt others ids body d = Inr (r, d')" "distinct ids" "properBody body"
    and "raisesVersions d (others d)"
  shows "optimisticAttempt id ids body (others d) = Inr (r, d')"
proof -
  from assms(1) obtain accounts d1 where
    acc: "readAccounts ids d = Inr accounts"
    and b: "body \<lparr>cx_accounts = accounts, cx_update = updateOptimistic accounts\<rparr> (others d) = Inr (r, d1)"
    and t: "touchAll accounts (others d) d1 = Inr d'"
    by (auto simp: optimisticAttempt_def bindE_eq_Inr_iff Let_def)
  have run: "runsWith (updateOptimistic accounts) (others d) d1"
    using assms(3) b unfolding properBody_def by fastforce
  have accs: "accounts = map (\<lambda>i. (i, stateOf (the (findRow (db_accounts d) i)))) ids"
    and ex: "\<forall>i \<in> set ids. findRow (db_accounts d) i \<noteq> None"
    using acc by (simp_all add: readAccounts_Inr)
  have "distinct (map fst accounts)" using assms(2) by (simp add: accs o_def)
  note T = touchAll_versions [OF t this]
  have same: "findRow (db_accounts (others d)) i = findRow (db_accounts d) i" if i: "i \<in> set ids" for i
  proof -
    obtain a where a: "findRow (db_accounts d) i = Some a" using ex i by auto
    have mem: "(i, stateOf a) \<in> set accounts" using a i by (force simp: accs)
    obtain a0 a1 where r: "findRow (db_accounts (others d)) i = Some a0" "findRow (db_accounts d1) i = Some a1"
      "ac_version a1 \<noteq> ac_version a0 \<or> ac_version a1 = ac_version a"
      using T mem by (fastforce simp: stateOf_def)
    have look: "findRow accounts i = Some (stateOf a)" using i a by (simp add: accs findRow_map_self)
    have v: "ac_version a0 = ac_version a"
      using runsWith_optimistic [OF run r(1)] r look by (auto simp: stateOf_def)
    have "a0 = a \<or> ac_version a < ac_version a0"
      using assms(4) [unfolded raisesVersions_def, rule_format, of i] a r(1) by simp
    then show ?thesis using v a r(1) by simp
  qed
  have "readAccounts ids (others d) = Inr accounts"
    using ex same by (simp add: readAccounts_Inr accs)
  then show ?thesis using b t by (simp add: optimisticAttempt_def Let_def)
qed


text \<open>A debit of 10, and another transaction that deposits 5 during the first attempt.\<close>

definition debitBody :: "unit body" where
  "debitBody ctx d = (case findRow (cx_accounts ctx) ''a'' of
     None \<Rightarrow> Inl (Thrown ''no account'')
   | Some s \<Rightarrow> bindE (cx_update ctx ''a'' (as_balance s - 10) (as_holdAmount s) d) (\<lambda>d. Inr ((), d)))"

definition depositOnce :: "nat \<Rightarrow> db \<Rightarrow> db" where
  "depositOnce k d = (case findRow (db_accounts d) ''a'' of
     Some a \<Rightarrow> if k = 1 then d\<lparr>db_accounts := putRow ''a''
       (a\<lparr>ac_balance := ac_balance a + 5, ac_version := ac_version a + 1\<rparr>) (db_accounts d)\<rparr> else d
   | None \<Rightarrow> d)"

definition bankDb :: db where
  "bankDb = \<lparr>db_users = [], db_accounts = [(''a'', \<lparr>ac_userId = ''u'', ac_balance = 100, ac_holdAmount = 0,
       ac_version = 7, ac_fencingToken = 0\<rparr>)], db_holdings = [], db_ledger = [], db_pnl = [],
     db_processed = [], db_orders = [], db_trades = [], db_claimed = [], db_outbox = [], db_markers = [],
     db_orderOutbox = [], db_symbols = [], db_positions = [], db_debts = [], db_realized = [], db_series = [], db_marginCalls = [],
       db_liquidations = [], db_settlements = [], db_epochs = [], db_references = [],
     db_candles = [], db_conditionals = [], db_brackets = []\<rparr>"

lemma debitBody_proper: "properBody debitBody"
  unfolding properBody_def debitBody_def
  by (auto split: option.splits simp: bindE_eq_Inr_iff intro: runsWith.intros)

lemma depositOnce_raises: "raisesVersions e (depositOnce k e)"
  by (auto simp: raisesVersions_def depositOnce_def rows.look_put split: option.splits)


section \<open>Lock order and fences\<close>

lemma updateDistributed_Inr:
  "updateDistributed fences accounts i b h d = Inr d' \<longleftrightarrow>
    (\<exists>acc f a. findRow accounts i = Some acc \<and> findRow fences i = Some f \<and> findRow (db_accounts d) i = Some a \<and>
      ac_fencingToken a \<le> f \<and>
      accountCheck (a\<lparr>ac_balance := b, ac_holdAmount := h, ac_version := ac_version a + 1, ac_fencingToken := f\<rparr>) \<and>
      d' = d\<lparr>db_accounts := putRow i (a\<lparr>ac_balance := b, ac_holdAmount := h, ac_version := ac_version a + 1,
             ac_fencingToken := f\<rparr>) (db_accounts d)\<rparr>)"
  by (auto simp: updateDistributed_def writeAccount_Inr split: option.splits if_splits)

text \<open>
  The fence of the distributed strategy: a successful write leaves the writer's fence on the row
  and never lowers it, and from then on a write with a smaller fence on that account is refused,
  whatever is written in between by holders of this strategy. Locks are taken in ascending order of
  account ids, so two calls can never wait for each other.
\<close>

theorem fence_monotone:
  assumes "updateDistributed fences accounts i b h d = Inr d1"
    and "updateDistributed fences' accounts' i b' h' d1 = Inr d2"
  shows "(\<exists>f f'. findRow fences i = Some f \<and> findRow fences' i = Some f' \<and> f \<le> f' \<and>
      map_option ac_fencingToken (findRow (db_accounts d1) i) = Some f \<and>
      map_option ac_fencingToken (findRow (db_accounts d2) i) = Some f') \<and>
    (\<forall>fences'' accounts'' b'' h''. (case (findRow fences'' i, findRow fences' i) of
        (Some g, Some f') \<Rightarrow> g < f' | _ \<Rightarrow> False) \<longrightarrow>
       (\<forall>d3. updateDistributed fences'' accounts'' i b'' h'' d2 \<noteq> Inr d3)) \<and>
    sorted (lockOrder ids) \<and> distinct (lockOrder ids)"
proof -
  have "sorted (lockOrder ids) \<and> distinct (lockOrder ids)" by (simp add: lockOrder_def)
  then show ?thesis using assms by (auto simp: updateDistributed_Inr split: option.splits)
qed

lemma fence_monotone_witness:
  "\<exists>d1 d2. updateDistributed [(''a'', 3)] [(''a'', \<lparr>as_balance = 100, as_holdAmount = 0, as_version = 7\<rparr>)] ''a'' 90 0 bankDb = Inr d1 \<and>
     updateDistributed [(''a'', 5)] [(''a'', \<lparr>as_balance = 90, as_holdAmount = 0, as_version = 8\<rparr>)] ''a'' 80 0 d1 = Inr d2 \<and>
     map_option ac_fencingToken (findRow (db_accounts d2) ''a'') = Some 5"
proof -
  let ?A = "[(''a'', \<lparr>as_balance = 100, as_holdAmount = 0, as_version = 7\<rparr>)]"
  let ?B = "[(''a'', \<lparr>as_balance = 90, as_holdAmount = 0, as_version = 8\<rparr>)]"
  obtain d1 where d1: "updateDistributed [(''a'', 3)] ?A ''a'' 90 0 bankDb = Inr d1"
    unfolding updateDistributed_Inr by (auto simp: findRow_Cons bankDb_def accountCheck_def)
  then obtain d2 where d2: "updateDistributed [(''a'', 5)] ?B ''a'' 80 0 d1 = Inr d2"
    by (auto simp: updateDistributed_Inr findRow_Cons bankDb_def accountCheck_def)
  from fence_monotone [OF d1 d2] d1 d2 show ?thesis by (auto simp: findRow_Cons)
qed

text \<open>
  What the fence does not prevent: a holder whose lock expired (fence 1) writes after its successor
  (fence 2) has read but before the successor writes. Both writes succeed and the first is lost: 100
  becomes 90 and then 80, although both debits of 10 and 20 were confirmed. The optimistic strategy
  reports the conflict in the same situation.
\<close>

definition staleWrite :: "db \<Rightarrow> db" where
  "staleWrite d = (case updateDistributed [(''a'', 1)]
       [(''a'', \<lparr>as_balance = 100, as_holdAmount = 0, as_version = 7\<rparr>)] ''a'' 90 0 d of
     Inr d' \<Rightarrow> d' | Inl e \<Rightarrow> d)"

definition debit20 :: "unit body" where
  "debit20 ctx d = (case findRow (cx_accounts ctx) ''a'' of
     None \<Rightarrow> Inl (Thrown ''no account'')
   | Some s \<Rightarrow> bindE (cx_update ctx ''a'' (as_balance s - 20) (as_holdAmount s) d) (\<lambda>d. Inr ((), d)))"

lemma fencing_loses_update:
  "(case distributedLock staleWrite ''t2'' [''a''] debit20
       \<lparr>rl_holders = [], rl_fences = [(''a'', 1)]\<rparr> bankDb of
     (r, rl, d) \<Rightarrow> r = Inr () \<and> map_option ac_balance (findRow (db_accounts (staleWrite bankDb)) ''a'') = Some 90 \<and>
       map_option ac_balance (findRow (db_accounts d) ''a'') = Some 80) \<and>
   optimisticAttempt staleWrite [''a''] debit20 bankDb = Inl conflict"
  by code_simp

end
