(* ===== verification/Settlement_Worker.thy ===== *)
theory Settlement_Worker
  imports Lock_Strategies
begin

text \<open>
  \<open>apps/settlement\<close>: the consumer of the trade stream. Each event runs in one transaction under the
  locks of the accounts it concerns: \<open>settleTrade\<close> (spot in \<open>main.ts\<close>, futures in \<open>futures.ts\<close>,
  options in \<open>options.ts\<close>, fees in \<open>trading-fees.ts\<close>) and \<open>closeOrder\<close>; \<open>processMessages\<close> acknowledges
  what succeeded and keeps the rest. A body gets the snapshot of its accounts and the guarded update
  of its lock strategy (\<open>lock_ctx\<close>); a \<open>Map\<close> is an association list in insertion order. Account
  notifications, heartbeats and log lines are left out.
\<close>

section \<open>Payload validation\<close>

definition isNonEmptyString :: "string \<Rightarrow> bool" where
  "isNonEmptyString s \<longleftrightarrow> s \<noteq> []"

text \<open>What the type of a trade event does not already say.\<close>

definition isTradeStreamEvent :: "trade_event \<Rightarrow> bool" where
  "isTradeStreamEvent ev \<longleftrightarrow> (case ev of
     TradeExecuted e \<Rightarrow>
       isNonEmptyString (te_eventId e) \<and> isNonEmptyString (te_symbol e) \<and>
       isNonEmptyString (te_tradeId e) \<and> isNonEmptyString (te_buyOrderId e) \<and>
       isNonEmptyString (te_sellOrderId e) \<and> isNonEmptyString (te_buyerAccountId e) \<and>
       isNonEmptyString (te_sellerAccountId e) \<and>
       te_price e > 0 \<and> te_price e < 2 ^ 53 \<and> te_qty e > 0 \<and> te_qty e < 2 ^ 53
   | OrderClosed e \<Rightarrow>
       isNonEmptyString (oc_eventId e) \<and> isNonEmptyString (oc_symbol e) \<and>
       isNonEmptyString (oc_orderId e) \<and> isNonEmptyString (oc_accountId e) \<and>
       isTerminal (oc_status e) \<and> oc_filledQty e \<ge> 0 \<and> oc_filledQty e < 2 ^ 53)"

section \<open>Fees\<close>

text \<open>\<open>packages/db/src/trading-fees.ts\<close>: the join of the account with its user.\<close>

definition isTradingFeeExempt :: "db \<Rightarrow> string \<Rightarrow> error + bool" where
  "isTradingFeeExempt d accountId =
     (case findRow (db_accounts d) accountId of
        None \<Rightarrow> Inl (Thrown ''Fee account not found'')
      | Some a \<Rightarrow>
          (case findRow (db_users d) (ac_userId a) of
             None \<Rightarrow> Inl (Thrown ''Fee account not found'')
           | Some u \<Rightarrow> Inr (us_isBot u)))"

definition debtOf :: "db \<Rightarrow> string \<Rightarrow> int" where
  "debtOf d accountId = (case findRow (db_debts d) accountId of None \<Rightarrow> 0 | Some x \<Rightarrow> x)"

definition ledgerRow :: "string \<Rightarrow> int \<Rightarrow> int \<Rightarrow> string \<Rightarrow> string \<Rightarrow> ledger_row" where
  "ledgerRow accountId delta balanceAfter reason refId =
     \<lparr>le_accountId = accountId, le_delta = delta, le_balanceAfter = balanceAfter, le_reason = reason,
      le_refId = Some refId\<rparr>"

text \<open>One fee row per side the account has in the trade.\<close>

fun chargeSides :: "string \<Rightarrow> string \<Rightarrow> int \<Rightarrow> order_side list \<Rightarrow> int \<Rightarrow> db \<Rightarrow> int \<times> db" where
  "chargeSides accountId tradeId fee [] balance d = (balance, d)"
| "chargeSides accountId tradeId fee (side # sides) balance d =
     chargeSides accountId tradeId fee sides (balance - fee)
       (createLedger (ledgerRow accountId (- fee) (balance - fee)
          (case side of BUY \<Rightarrow> ''TRADE_FEE_BUY'' | SELL \<Rightarrow> ''TRADE_FEE_SELL'') tradeId) d)"

definition settleTradingFees ::
  "trade_executed \<Rightarrow> string \<Rightarrow> int \<Rightarrow> int \<Rightarrow> db \<Rightarrow> error + int \<times> db" where
  "settleTradingFees event accountId balance0 holdAmount d =
     (let fee = tradingFee (tradeNotional (te_symbol event) (te_price event) (te_qty event)) (te_ts event) in
      if fee = 0 then Inr (balance0, d)
      else bindE (isTradingFeeExempt d accountId) (\<lambda>exempt.
        if exempt then Inr (balance0, d)
        else
          let sides = map fst (filter (\<lambda>(side, party). party = accountId)
                [(BUY, te_buyerAccountId event), (SELL, te_sellerAccountId event)]);
              shortfall = holdAmount + fee * int (length sides) - balance0
          in if shortfall > 0
             then bindE (writeDebt accountId (debtOf d accountId + shortfall) d) (\<lambda>d1.
                    Inr (chargeSides accountId (te_tradeId event) fee sides (balance0 + shortfall)
                      (createLedger (ledgerRow accountId shortfall (balance0 + shortfall)
                         ''TRADE_FEE_DEBT'' (te_tradeId event)) d1)))
             else Inr (chargeSides accountId (te_tradeId event) fee sides balance0 d)))"

section \<open>Futures\<close>

record leg =
  lg_accountId :: string
  lg_side :: order_side
  lg_orderId :: string
  lg_order :: order_row

definition tradeLegs :: "trade_executed \<Rightarrow> order_row \<Rightarrow> order_row \<Rightarrow> leg list" where
  "tradeLegs event buyOrder sellOrder =
     [\<lparr>lg_accountId = te_buyerAccountId event, lg_side = BUY, lg_orderId = te_buyOrderId event, lg_order = buyOrder\<rparr>,
      \<lparr>lg_accountId = te_sellerAccountId event, lg_side = SELL, lg_orderId = te_sellOrderId event, lg_order = sellOrder\<rparr>]"

text \<open>\<open>m.set(k, (m.get(k) ?? 0) + x)\<close>\<close>

definition addTo :: "string \<Rightarrow> int \<Rightarrow> (string, int) rows \<Rightarrow> (string, int) rows" where
  "addTo k x m = putRow k ((case findRow m k of None \<Rightarrow> 0 | Some y \<Rightarrow> y) + x) m"

definition getOr0 :: "(string, int) rows \<Rightarrow> string \<Rightarrow> int" where
  "getOr0 m k = (case findRow m k of None \<Rightarrow> 0 | Some y \<Rightarrow> y)"

definition positionBefore :: "position_row option \<Rightarrow> future_position" where
  "positionBefore existing = (case existing of
     None \<Rightarrow> \<lparr>fp_qty = 0, fp_entryValue = 0\<rparr>
   | Some p \<Rightarrow> \<lparr>fp_qty = po_qty p, fp_entryValue = po_entryValue p\<rparr>)"

text \<open>The upsert of a position: an update keeps the leverage, a created row has none.\<close>

definition positionAfter :: "position_row option \<Rightarrow> future_fill \<Rightarrow> int \<Rightarrow> position_row" where
  "positionAfter existing fill marginHeld =
     \<lparr>po_qty = fp_qty fill, po_entryValue = fp_entryValue fill, po_marginHeld = marginHeld,
      po_leverage = (case existing of None \<Rightarrow> None | Some p \<Rightarrow> po_leverage p)\<rparr>"

definition recordRealized :: "trade_executed \<Rightarrow> leg \<Rightarrow> future_fill \<Rightarrow> db \<Rightarrow> error + db" where
  "recordRealized event l fill d =
     (if ff_closedQty fill > 0
      then createRealized (te_tradeId event, FillSide (lg_side l))
             \<lparr>fz_accountId = lg_accountId l, fz_symbol = te_symbol event, fz_closedQty = ff_closedQty fill,
              fz_price = te_price event, fz_realized = ff_realized fill\<rparr> d
      else Inr d)"

text \<open>The row a leg settles against, what its fill makes of it, and the row written.\<close>

definition legKey :: "trade_executed \<Rightarrow> leg \<Rightarrow> string \<times> string \<times> row_side" where
  "legKey event l = (lg_accountId l, te_symbol event, rowSideOf (or_positionSide (lg_order l)))"

definition legFill ::
  "future_def \<Rightarrow> trade_executed \<Rightarrow> leg \<Rightarrow> (string \<times> string \<times> row_side, position_row) rows \<Rightarrow> future_fill" where
  "legFill def' event l positions =
     (let before = positionBefore (findRow positions (legKey event l))
      in case or_positionSide (lg_order l) of
           None \<Rightarrow> applyFutureFill (fd_unitValue def') before (lg_side l) (te_price event) (te_qty event)
         | Some ps \<Rightarrow> fst (applyHedgeFill (fd_unitValue def') before ps (lg_side l) (te_price event) (te_qty event)))"

definition legPosition ::
  "future_def \<Rightarrow> trade_executed \<Rightarrow> leg \<Rightarrow> (string \<times> string \<times> row_side, position_row) rows \<Rightarrow> position_row" where
  "legPosition def' event l positions =
     (let existing = findRow positions (legKey event l);
          fill = legFill def' event l positions;
          leverage = (case existing of None \<Rightarrow> None | Some p \<Rightarrow> po_leverage p)
      in positionAfter existing fill
           (if fp_qty fill = 0 then 0 else futurePositionMargin def' (fp_entryValue fill) leverage))"

text \<open>One leg: position, margin, realised record; the amounts to release and to realise add up.\<close>

definition futuresLeg ::
  "future_def \<Rightarrow> trade_executed \<Rightarrow> leg \<Rightarrow> (string, int) rows \<times> (string, int) rows \<times> db \<Rightarrow>
     error + (string, int) rows \<times> (string, int) rows \<times> db" where
  "futuresLeg def' event l st = (case st of (release, realized, d) \<Rightarrow>
     let fill = legFill def' event l (db_positions d)
     in bindE (writePosition (legKey event l) (legPosition def' event l (db_positions d)) d) (\<lambda>d.
        bindE (recordRealized event l fill d) (\<lambda>d.
        Inr (addTo (lg_accountId l) (or_holdPerUnit (lg_order l) * te_qty event) release,
             addTo (lg_accountId l) (ff_realized fill) realized, d))))"

definition snapshotOf :: "lock_ctx \<Rightarrow> string \<Rightarrow> account_state" where
  "snapshotOf ctx accountId = (case findRow (cx_accounts ctx) accountId of
     Some s \<Rightarrow> s | None \<Rightarrow> \<lparr>as_balance = 0, as_holdAmount = 0, as_version = 0\<rparr>)"

definition futuresCash ::
  "lock_ctx \<Rightarrow> trade_executed \<Rightarrow> (string, int) rows \<Rightarrow> string \<times> int \<Rightarrow> db \<Rightarrow> error + db" where
  "futuresCash ctx event realized rel d = (case rel of (accountId, released) \<Rightarrow>
     let account = snapshotOf ctx accountId;
         holdAmount = as_holdAmount account - released;
         debt = debtOf d accountId;
         cash = applyFuturesCash \<lparr>fc_balance = as_balance account, fc_holdAmount = holdAmount, fc_debt = debt\<rparr>
                  (getOr0 realized accountId);
         d1 = (if fr_ledgerDelta cash \<noteq> 0
               then createLedger (ledgerRow accountId (fr_ledgerDelta cash) (fr_balance cash) ''FUTURES_PNL''
                      (te_tradeId event)) d
               else d)
     in bindE (if fr_debt cash \<noteq> debt then writeDebt accountId (fr_debt cash) d1 else Inr d1) (\<lambda>d2.
        bindE (settleTradingFees event accountId (fr_balance cash) holdAmount d2) (\<lambda>(balance, d3).
        cx_update ctx accountId balance holdAmount d3)))"

definition advanceOrder :: "trade_executed \<Rightarrow> string \<times> order_row \<Rightarrow> db \<Rightarrow> error + db" where
  "advanceOrder event io' d = (case io' of (i, o') \<Rightarrow>
     bindE (liftSettle (stateAfterTrade \<lparr>so_status = or_status o', so_qty = or_qty o',
                so_filledQty = or_filledQty o'\<rparr> (te_qty event))) (\<lambda>(filledQty, status).
     updateOrder i (\<lambda>o'. o'\<lparr>or_filledQty := filledQty, or_status := status\<rparr>) d))"

definition settleFuturesTrade ::
  "lock_ctx \<Rightarrow> future_def \<Rightarrow> trade_executed \<Rightarrow> order_row \<Rightarrow> order_row \<Rightarrow> db \<Rightarrow> error + db" where
  "settleFuturesTrade ctx def' event buyOrder sellOrder d =
     bindE (foldE (futuresLeg def' event) (tradeLegs event buyOrder sellOrder) ([], [], d)) (\<lambda>(release, realized, d).
     bindE (foldE (futuresCash ctx event realized) release d) (\<lambda>d.
     foldE (advanceOrder event) [(te_buyOrderId event, buyOrder), (te_sellOrderId event, sellOrder)] d))"

section \<open>Options\<close>

definition optionKey :: "trade_executed \<Rightarrow> leg \<Rightarrow> string \<times> string \<times> row_side" where
  "optionKey event l = (lg_accountId l, te_symbol event, NET)"

definition optionFill ::
  "option_def \<Rightarrow> trade_executed \<Rightarrow> leg \<Rightarrow> (string \<times> string \<times> row_side, position_row) rows \<Rightarrow> future_fill" where
  "optionFill def' event l positions =
     applyFutureFill (od_unitValue def') (positionBefore (findRow positions (optionKey event l))) (lg_side l)
       (te_price event) (te_qty event)"

definition optionPosition ::
  "option_def \<Rightarrow> int \<Rightarrow> trade_executed \<Rightarrow> leg \<Rightarrow> (string \<times> string \<times> row_side, position_row) rows \<Rightarrow> position_row" where
  "optionPosition def' strike event l positions =
     (let fill = optionFill def' event l positions
      in positionAfter (findRow positions (optionKey event l)) fill (optionPositionMargin def' (fp_qty fill) strike))"

text \<open>A leg's cash: the change of the balance and the hold to release.\<close>

definition optionLeg ::
  "option_def \<Rightarrow> int \<Rightarrow> trade_executed \<Rightarrow> leg \<Rightarrow> (string, int) rows \<times> (string, int) rows \<times> db \<Rightarrow>
     error + (string, int) rows \<times> (string, int) rows \<times> db" where
  "optionLeg def' strike event l st = (case st of (cash, release, d) \<Rightarrow>
     let premium = te_price event * te_qty event * od_unitValue def'
     in bindE (writePosition (optionKey event l) (optionPosition def' strike event l (db_positions d)) d) (\<lambda>d'.
        bindE (recordRealized event l (optionFill def' event l (db_positions d)) d') (\<lambda>d'.
        Inr (addTo (lg_accountId l) (if lg_side l = BUY then - premium else premium) cash,
             addTo (lg_accountId l) (or_holdPerUnit (lg_order l) * te_qty event) release, d'))))"

definition optionCash ::
  "lock_ctx \<Rightarrow> trade_executed \<Rightarrow> (string, int) rows \<Rightarrow> string \<times> int \<Rightarrow> db \<Rightarrow> error + db" where
  "optionCash ctx event release cash d = (case cash of (accountId, delta) \<Rightarrow>
     let account = snapshotOf ctx accountId;
         balance = as_balance account + delta;
         d1 = (if delta \<noteq> 0
               then createLedger (ledgerRow accountId delta balance ''OPTION_PREMIUM'' (te_tradeId event)) d
               else d);
         holdAmount = as_holdAmount account - getOr0 release accountId
     in bindE (settleTradingFees event accountId balance holdAmount d1) (\<lambda>(afterFees, d2).
        cx_update ctx accountId afterFees holdAmount d2))"

definition settleOptionTrade ::
  "lock_ctx \<Rightarrow> option_def \<Rightarrow> trade_executed \<Rightarrow> order_row \<Rightarrow> order_row \<Rightarrow> db \<Rightarrow> error + db" where
  "settleOptionTrade ctx def' event buyOrder sellOrder d =
     (case findRow (db_series d) (te_symbol event) of
        None \<Rightarrow> Inl (Thrown ''no option series'')
      | Some series \<Rightarrow>
          bindE (foldE (optionLeg def' (se_strike series) event) (tradeLegs event buyOrder sellOrder) ([], [], d)) (\<lambda>(cash, release, d).
          bindE (foldE (optionCash ctx event release) cash d) (\<lambda>d.
          foldE (advanceOrder event) [(te_buyOrderId event, buyOrder), (te_sellOrderId event, sellOrder)] d)))"

section \<open>Spot\<close>

definition holdingAfterBuy :: "holding_row option \<Rightarrow> int \<Rightarrow> int \<Rightarrow> holding_row" where
  "holdingAfterBuy existing qty cost = (case existing of
     None \<Rightarrow> \<lparr>ho_qty = qty, ho_holdQty = 0, ho_costBasis = cost\<rparr>
   | Some h \<Rightarrow> h\<lparr>ho_qty := ho_qty h + qty, ho_costBasis := ho_costBasis h + cost\<rparr>)"

definition spotCash ::
  "lock_ctx \<Rightarrow> trade_executed \<Rightarrow> (string, int) rows \<Rightarrow> string \<times> int \<Rightarrow> db \<Rightarrow> error + db" where
  "spotCash ctx event holds delta d = (case delta of (accountId, balanceDelta) \<Rightarrow>
     let account = snapshotOf ctx accountId;
         holdAmount = as_holdAmount account + getOr0 holds accountId
     in bindE (settleTradingFees event accountId (as_balance account + balanceDelta) holdAmount d) (\<lambda>(balance, d).
        cx_update ctx accountId balance holdAmount d))"

text \<open>The two ledger rows carry the running balance of their account.\<close>

definition spotLedger :: "lock_ctx \<Rightarrow> trade_executed \<Rightarrow> int \<Rightarrow> db \<Rightarrow> db" where
  "spotLedger ctx event cost d =
     (let buyer = te_buyerAccountId event; seller = te_sellerAccountId event;
          buyerAfter = as_balance (snapshotOf ctx buyer) + (- cost);
          sellerBefore = (if seller = buyer then buyerAfter else as_balance (snapshotOf ctx seller))
      in createLedger (ledgerRow seller cost (sellerBefore + cost) ''TRADE_SELL'' (te_tradeId event))
           (createLedger (ledgerRow buyer (- cost) buyerAfter ''TRADE_BUY'' (te_tradeId event)) d))"

definition spotHoldings :: "trade_executed \<Rightarrow> int \<Rightarrow> db \<Rightarrow> error + db" where
  "spotHoldings event cost d =
     (let buyerKey = (te_buyerAccountId event, te_symbol event);
          sellerKey = (te_sellerAccountId event, te_symbol event)
      in bindE (writeHolding buyerKey (holdingAfterBuy (findRow (db_holdings d) buyerKey) (te_qty event) cost) d) (\<lambda>d.
         case findRow (db_holdings d) sellerKey of
           None \<Rightarrow> Inl (RowNotFound ''holdings'')
         | Some h \<Rightarrow>
             let sale = realizedPnlForSale (ho_qty h) (ho_costBasis h) (te_qty event) (te_price event)
             in bindE (writeHolding sellerKey
                  \<lparr>ho_qty = ho_qty h - te_qty event, ho_holdQty = ho_holdQty h - te_qty event,
                   ho_costBasis = ho_costBasis h - sr_basisReduction sale\<rparr> d) (\<lambda>d.
                createPnl (te_tradeId event)
                  \<lparr>pn_accountId = te_sellerAccountId event, pn_symbol = te_symbol event, pn_qty = te_qty event,
                   pn_price = te_price event, pn_costBasis = sr_basisReduction sale,
                   pn_realized = sr_realized sale, pn_tradedAt = te_ts event\<rparr> d)))"

definition settleSpotTrade :: "lock_ctx \<Rightarrow> trade_executed \<Rightarrow> order_row \<Rightarrow> order_row \<Rightarrow> db \<Rightarrow> error + db" where
  "settleSpotTrade ctx event buyOrder sellOrder d =
     (let cost = te_price event * te_qty event;
          holdConsumed = or_holdPerUnit buyOrder * te_qty event;
          deltas = addTo (te_sellerAccountId event) cost (addTo (te_buyerAccountId event) (- cost) []);
          holds = addTo (te_sellerAccountId event) 0 (addTo (te_buyerAccountId event) (- holdConsumed) [])
      in bindE (foldE (spotCash ctx event holds) deltas (spotLedger ctx event cost d)) (\<lambda>d.
         bindE (spotHoldings event cost d) (\<lambda>d.
         foldE (advanceOrder event) [(te_buyOrderId event, buyOrder), (te_sellOrderId event, sellOrder)] d)))"

section \<open>One event\<close>

text \<open>The body of \<open>settleTrade\<close>: whether it settled.\<close>

definition settleTradeBody :: "trade_executed \<Rightarrow> bool body" where
  "settleTradeBody event ctx d =
     (if te_eventId event \<in> set (db_processed d) then Inr (False, d)
      else bindE (createProcessed (te_eventId event) d) (\<lambda>d.
        bindE (someE (findRow (db_orders d) (te_buyOrderId event)) (RowNotFound ''orders'')) (\<lambda>buyOrder.
        bindE (someE (findRow (db_orders d) (te_sellOrderId event)) (RowNotFound ''orders'')) (\<lambda>sellOrder.
        bindE (case (futureDef (te_symbol event), optionDef (te_symbol event)) of
                 (Some f, _) \<Rightarrow> settleFuturesTrade ctx f event buyOrder sellOrder d
               | (None, Some o') \<Rightarrow> settleOptionTrade ctx o' event buyOrder sellOrder d
               | (None, None) \<Rightarrow> settleSpotTrade ctx event buyOrder sellOrder d) (\<lambda>d. Inr (True, d))))))"

text \<open>The minute candle, rebuilt from the recorded trades of its minute; it is not part of the transaction.\<close>

definition bucketOf :: "trade_executed \<Rightarrow> int" where
  "bucketOf event = floorQuot (te_ts event) 60000 * 60000"

definition candleOf :: "trade_executed \<Rightarrow> (string, trade_row) rows \<Rightarrow> candle_row option" where
  "candleOf event trades =
     (let bucket = bucketOf event;
          ts = map snd (sort_key (\<lambda>(i, t). (tr_createdAt t, i)) (filter (\<lambda>(i, t). tr_symbol t = te_symbol event \<and>
                 tr_createdAt t \<ge> bucket \<and> tr_createdAt t < bucket + 60000) trades))
      in if ts = [] then None
         else Some \<lparr>cn_open = tr_price (hd ts), cn_high = Max (set (map tr_price ts)),
                cn_low = Min (set (map tr_price ts)), cn_close = tr_price (last ts),
                cn_volume = sum_list (map tr_qty ts)\<rparr>)"

definition updateMarket :: "trade_executed \<Rightarrow> db \<Rightarrow> db" where
  "updateMarket event d =
     (case candleOf event (db_trades d) of
        None \<Rightarrow> d
      | Some c \<Rightarrow> d\<lparr>db_candles := putRow (te_symbol event, BASE_CANDLE_INTERVAL, bucketOf event) c (db_candles d)\<rparr>)"

definition settleTrade :: "trade_executed \<Rightarrow> db \<Rightarrow> error + db" where
  "settleTrade event d =
     bindE (pessimisticLock (uniq [te_buyerAccountId event, te_sellerAccountId event]) (settleTradeBody event) d)
       (\<lambda>(settled, d). Inr (updateMarket event d))"

text \<open>Release of what a closed order still held: cash for a buy and for derivatives, shares for a sale.\<close>

definition releaseLeftover :: "lock_ctx \<Rightarrow> order_closed \<Rightarrow> order_row \<Rightarrow> int \<Rightarrow> db \<Rightarrow> error + db" where
  "releaseLeftover ctx event o' remainingQty d =
     (if oc_side event = BUY \<or> isFuture (oc_symbol event) \<or> isOption (oc_symbol event) then
        let leftover = or_holdPerUnit o' * remainingQty
        in if leftover > 0
           then cx_update ctx (oc_accountId event) (as_balance (snapshotOf ctx (oc_accountId event)))
                  (as_holdAmount (snapshotOf ctx (oc_accountId event)) - leftover) d
           else Inr d
      else case findRow (db_holdings d) (oc_accountId event, oc_symbol event) of
             None \<Rightarrow> Inl (RowNotFound ''holdings'')
           | Some h \<Rightarrow> writeHolding (oc_accountId event, oc_symbol event)
                         (h\<lparr>ho_holdQty := ho_holdQty h - remainingQty\<rparr>) d)"

definition closeOrderBody :: "order_closed \<Rightarrow> unit body" where
  "closeOrderBody event ctx d =
     (if oc_eventId event \<in> set (db_processed d) then Inr ((), d)
      else case findRow (db_orders d) (oc_orderId event) of
        None \<Rightarrow> bindE (createProcessed (oc_eventId event) d) (\<lambda>d. Inr ((), d))
      | Some o' \<Rightarrow>
          let st = \<lparr>so_status = or_status o', so_qty = or_qty o', so_filledQty = or_filledQty o'\<rparr>
          in if closeMustWaitForTrades st (oc_filledQty event)
             then Inl (Thrown ''order.closed is ahead of settled fills'')
             else bindE (createProcessed (oc_eventId event) d) (\<lambda>d.
               case stateAfterClose st (oc_filledQty event) (oc_status event) of
                 None \<Rightarrow> Inr ((), d)
               | Some next' \<Rightarrow>
                   bindE (updateOrder (oc_orderId event) (\<lambda>o'. o'\<lparr>or_status := cs_status next',
                       or_filledQty := cs_filledQty next'\<rparr>) d) (\<lambda>d.
                   if cs_remainingQty next' \<le> 0 then Inr ((), d)
                   else bindE (releaseLeftover ctx event o' (cs_remainingQty next') d) (\<lambda>d. Inr ((), d)))))"

definition closeOrder :: "order_closed \<Rightarrow> db \<Rightarrow> error + db" where
  "closeOrder event d =
     bindE (pessimisticLock [oc_accountId event] (closeOrderBody event) d) (\<lambda>(u, d). Inr d)"

section \<open>The consumer\<close>

text \<open>
  The consumer's view of its group: what is still pending (not acknowledged), and the ids of events
  that failed and are retained. A message is its stream id with its payload; \<open>None\<close> is one that has no
  payload or does not parse.
\<close>

record consumer =
  cn_pending :: "string list"
  cn_retained :: "string list"

definition applyTradeEvent :: "trade_event \<Rightarrow> db \<Rightarrow> error + db" where
  "applyTradeEvent ev d = (case ev of TradeExecuted e \<Rightarrow> settleTrade e d | OrderClosed e \<Rightarrow> closeOrder e d)"

definition processMessage :: "string \<times> trade_event option \<Rightarrow> consumer \<times> db \<Rightarrow> consumer \<times> db" where
  "processMessage m st = (case (m, st) of ((i, payload), (c, d)) \<Rightarrow>
     (case payload of
        None \<Rightarrow> (c\<lparr>cn_retained := uniq (cn_retained c @ [i])\<rparr>, d)
      | Some ev \<Rightarrow>
          if \<not> isTradeStreamEvent ev then (c\<lparr>cn_retained := uniq (cn_retained c @ [i])\<rparr>, d)
          else case applyTradeEvent ev d of
            Inl e \<Rightarrow> (c\<lparr>cn_retained := uniq (cn_retained c @ [tv_eventId ev])\<rparr>, d)
          | Inr d' \<Rightarrow> (c\<lparr>cn_pending := removeAll i (cn_pending c),
                         cn_retained := removeAll (tv_eventId ev) (cn_retained c)\<rparr>, d')))"

definition processMessages :: "(string \<times> trade_event option) list \<Rightarrow> consumer \<times> db \<Rightarrow> consumer \<times> db" where
  "processMessages ms st = fold processMessage ms st"

end
