(* ===== verification/Settlement_Props.thy ===== *)
theory Settlement_Props
  imports Settlement_Worker
begin

text \<open>
  The settlement consumer is correct: every account's cash, debt, hold and ledger move by exactly what
  the trade says, shares are conserved, an event settles once however often it is delivered, a closed
  order releases what it still held, and the consumer acknowledges only what it settled.
\<close>

section \<open>The ledger as a running balance\<close>

fun ledgerChain :: "int \<Rightarrow> ledger_row list \<Rightarrow> int option" where
  "ledgerChain b [] = Some b"
| "ledgerChain b (l # ls) =
     (if le_balanceAfter l = b + le_delta l then ledgerChain (le_balanceAfter l) ls else None)"

definition ledgerOf :: "string \<Rightarrow> ledger_row list \<Rightarrow> ledger_row list" where
  "ledgerOf i ls = filter (\<lambda>l. le_accountId l = i) ls"

lemma ledgerChain_append:
  "ledgerChain b xs = Some c \<Longrightarrow> ledgerChain b (xs @ ys) = ledgerChain c ys"
  by (induction xs arbitrary: b) (auto split: if_splits)

lemma ledgerOf_append [simp]: "ledgerOf i (xs @ ys) = ledgerOf i xs @ ledgerOf i ys"
  by (simp add: ledgerOf_def)

lemma ledgerOf_own [simp]: "\<forall>l\<in>set ls. le_accountId l = i \<Longrightarrow> ledgerOf i ls = ls"
  by (simp add: ledgerOf_def)

lemma ledgerOf_other: "\<forall>l\<in>set ls. le_accountId l = i \<Longrightarrow> i \<noteq> j \<Longrightarrow> ledgerOf j ls = []"
  by (auto simp: ledgerOf_def filter_empty_conv)

lemma ledgerRow_simps [simp]:
  "le_accountId (ledgerRow i x b r t) = i" "le_delta (ledgerRow i x b r t) = x"
  "le_balanceAfter (ledgerRow i x b r t) = b"
  by (simp_all add: ledgerRow_def)

section \<open>Fees\<close>

text \<open>What a side of the trade owes in fees, and the sum over the sides an account has.\<close>

definition feeOf :: "trade_executed \<Rightarrow> int" where
  "feeOf e = tradingFee (tradeNotional (te_symbol e) (te_price e) (te_qty e)) (te_ts e)"

definition partySum :: "trade_executed \<Rightarrow> string \<Rightarrow> int \<Rightarrow> int \<Rightarrow> int" where
  "partySum e i buy sell =
     (if i = te_buyerAccountId e then buy else 0) + (if i = te_sellerAccountId e then sell else 0)"

definition feesDue :: "trade_executed \<Rightarrow> db \<Rightarrow> string \<Rightarrow> int" where
  "feesDue e d i = (if isTradingFeeExempt d i = Inr True then 0 else partySum e i (feeOf e) (feeOf e))"

lemma debtOf_getOr0: "debtOf d i = getOr0 (db_debts d) i"
  by (simp add: debtOf_def getOr0_def)

lemma getOr0_put [simp]: "getOr0 (putRow k v t) k' = (if k' = k then v else getOr0 t k')"
  by (simp add: getOr0_def)

lemma chargeSides_spec:
  "chargeSides i t fee sides b d = (b', d') \<Longrightarrow>
     \<exists>rows. d' = d\<lparr>db_ledger := db_ledger d @ rows\<rparr> \<and> (\<forall>l\<in>set rows. le_accountId l = i) \<and>
       ledgerChain b rows = Some b' \<and> b' = b - fee * int (length sides)"
proof (induction sides arbitrary: b d)
  case Nil
  then show ?case by (intro exI [of _ "[]"]) simp
next
  case (Cons s sides)
  let ?l = "ledgerRow i (- fee) (b - fee) (case s of BUY \<Rightarrow> ''TRADE_FEE_BUY'' | SELL \<Rightarrow> ''TRADE_FEE_SELL'') t"
  from Cons.prems have "chargeSides i t fee sides (b - fee) (createLedger ?l d) = (b', d')" by simp
  from Cons.IH [OF this] obtain rows where
    "d' = (createLedger ?l d)\<lparr>db_ledger := db_ledger (createLedger ?l d) @ rows\<rparr>"
    "\<forall>l\<in>set rows. le_accountId l = i" "ledgerChain (b - fee) rows = Some b'"
    "b' = b - fee - fee * int (length sides)"
    by auto
  then show ?case
    by (intro exI [of _ "?l # rows"]) (auto simp: createLedger_def algebra_simps)
qed

lemma partySides:
  "fee * int (length (map fst (filter (\<lambda>(side, party). party = i)
      [(BUY, te_buyerAccountId e), (SELL, te_sellerAccountId e)]))) = partySum e i fee fee"
  by (simp add: partySum_def)

lemma settleTradingFees_spec:
  assumes "settleTradingFees e i b h d = Inr (b', d')"
  shows "\<exists>rows debts. d' = d\<lparr>db_ledger := db_ledger d @ rows, db_debts := debts\<rparr> \<and>
    (\<forall>l\<in>set rows. le_accountId l = i) \<and> ledgerChain b rows = Some b' \<and>
    (\<forall>j. j \<noteq> i \<longrightarrow> findRow debts j = findRow (db_debts d) j) \<and>
    b' - getOr0 debts i = b - getOr0 (db_debts d) i - feesDue e d i"
proof (cases "feeOf e = 0 \<or> isTradingFeeExempt d i = Inr True")
  case True
  then have "b' = b" "d' = d" "feesDue e d i = 0"
    using assms by (auto simp: settleTradingFees_def feeOf_def feesDue_def partySum_def Let_def bindE_eq_Inr_iff split: if_splits)
  then show ?thesis by (intro exI [of _ "[]"] exI [of _ "db_debts d"]) simp
next
  case False
  let ?sides = "map fst (filter (\<lambda>(side, party). party = i)
      [(BUY, te_buyerAccountId e), (SELL, te_sellerAccountId e)])"
  let ?short = "h + feeOf e * int (length ?sides) - b"
  from False have due: "feesDue e d i = feeOf e * int (length ?sides)"
    unfolding partySides by (simp add: feesDue_def)
  show ?thesis
  proof (cases "?short > 0")
    case True
    let ?l = "ledgerRow i ?short (b + ?short) ''TRADE_FEE_DEBT'' (te_tradeId e)"
    let ?debts = "putRow i (debtOf d i + ?short) (db_debts d)"
    from assms False True have
      "chargeSides i (te_tradeId e) (feeOf e) ?sides (b + ?short)
         (createLedger ?l (d\<lparr>db_debts := ?debts\<rparr>)) = (b', d')"
      unfolding settleTradingFees_def feeOf_def [symmetric] Let_def
      by (auto simp: bindE_eq_Inr_iff writeDebt_Inr simp del: filter.simps list.map split: if_splits)
    from chargeSides_spec [OF this] obtain rows where
      "d' = d\<lparr>db_debts := ?debts, db_ledger := db_ledger d @ [?l] @ rows\<rparr>" and
      r: "\<forall>l\<in>set rows. le_accountId l = i" "ledgerChain (b + ?short) rows = Some b'"
      "b' = b + ?short - feeOf e * int (length ?sides)"
      by (auto simp: createLedger_def)
    then have "d' = d\<lparr>db_ledger := db_ledger d @ (?l # rows), db_debts := ?debts\<rparr>" by simp
    then show ?thesis
      using r due by (intro exI [of _ "?l # rows"] exI [of _ ?debts]) (auto simp: debtOf_getOr0)
  next
    case short: False
    with assms False have
      "chargeSides i (te_tradeId e) (feeOf e) ?sides b d = (b', d')"
      unfolding settleTradingFees_def feeOf_def [symmetric] Let_def
      by (auto simp: bindE_eq_Inr_iff simp del: filter.simps list.map split: if_splits)
    from chargeSides_spec [OF this] obtain rows where
      "d' = d\<lparr>db_ledger := db_ledger d @ rows\<rparr>" and
      r: "\<forall>l\<in>set rows. le_accountId l = i" "ledgerChain b rows = Some b'"
      "b' = b - feeOf e * int (length ?sides)"
      by auto
    then show ?thesis
      using due by (intro exI [of _ rows] exI [of _ "db_debts d"]) auto
  qed
qed

section \<open>One account's cash\<close>

text \<open>
  Account \<open>i\<close> and nothing else moves: its ledger rows lead from \<open>b0\<close> to the new balance, its equity
  (balance less debt) changes by \<open>x\<close>, its hold becomes \<open>h\<close>.
\<close>

definition moved :: "string \<Rightarrow> int \<Rightarrow> int \<Rightarrow> int \<Rightarrow> db \<Rightarrow> db \<Rightarrow> bool" where
  "moved i b0 x h d d' \<longleftrightarrow> (\<exists>rows debts a a'.
     d' = d\<lparr>db_accounts := putRow i a' (db_accounts d), db_ledger := db_ledger d @ rows, db_debts := debts\<rparr> \<and>
     findRow (db_accounts d) i = Some a \<and> ac_userId a' = ac_userId a \<and> ac_holdAmount a' = h \<and>
     (\<forall>l\<in>set rows. le_accountId l = i) \<and> ledgerChain b0 rows = Some (ac_balance a') \<and>
     (\<forall>j. j \<noteq> i \<longrightarrow> findRow debts j = findRow (db_debts d) j) \<and>
     ac_balance a' - getOr0 debts i = b0 + x - getOr0 (db_debts d) i)"

definition sameOwners :: "db \<Rightarrow> db \<Rightarrow> bool" where
  "sameOwners d d' \<longleftrightarrow> db_users d' = db_users d \<and>
     (\<forall>i. map_option ac_userId (findRow (db_accounts d') i) = map_option ac_userId (findRow (db_accounts d) i))"

lemma sameOwners_refl [simp]: "sameOwners d d"
  by (simp add: sameOwners_def)

lemma sameOwners_trans: "sameOwners d d' \<Longrightarrow> sameOwners d' d'' \<Longrightarrow> sameOwners d d''"
  by (simp add: sameOwners_def)

lemma sameOwners_exempt: "sameOwners d d' \<Longrightarrow> isTradingFeeExempt d' i = isTradingFeeExempt d i"
proof -
  assume o': "sameOwners d d'"
  then have "map_option ac_userId (findRow (db_accounts d') i) = map_option ac_userId (findRow (db_accounts d) i)"
    and "db_users d' = db_users d"
    by (simp_all add: sameOwners_def)
  then show ?thesis
    by (cases "findRow (db_accounts d') i"; cases "findRow (db_accounts d) i")
      (simp_all add: isTradingFeeExempt_def)
qed

lemma sameOwners_feesDue: "sameOwners d d' \<Longrightarrow> feesDue e d' i = feesDue e d i"
  by (simp add: feesDue_def sameOwners_exempt)

lemma moved_owners: "moved i b0 x h d d' \<Longrightarrow> sameOwners d d'"
  by (auto simp: moved_def sameOwners_def findRow_def putRow_def update_conv')

text \<open>What a sequence of such steps, one per account, does to each account.\<close>

definition settledAccount :: "string \<Rightarrow> int \<Rightarrow> int \<Rightarrow> int \<Rightarrow> db \<Rightarrow> (string, account_row) rows \<Rightarrow> ledger_row list \<Rightarrow>
    (string, int) rows \<Rightarrow> bool" where
  "settledAccount i b0 x h d accounts rows debts \<longleftrightarrow>
     (case (findRow (db_accounts d) i, findRow accounts i) of
        (Some a, Some a') \<Rightarrow>
          ac_userId a' = ac_userId a \<and> ac_holdAmount a' = h \<and>
          ledgerChain b0 (ledgerOf i rows) = Some (ac_balance a') \<and>
          ac_balance a' - getOr0 debts i = b0 + x - getOr0 (db_debts d) i
      | _ \<Rightarrow> False)"

definition untouchedAccount :: "string \<Rightarrow> db \<Rightarrow> (string, account_row) rows \<Rightarrow> ledger_row list \<Rightarrow>
    (string, int) rows \<Rightarrow> bool" where
  "untouchedAccount i d accounts rows debts \<longleftrightarrow>
     findRow accounts i = findRow (db_accounts d) i \<and> ledgerOf i rows = [] \<and>
     findRow debts i = findRow (db_debts d) i"

lemma cash_fold:
  assumes "foldE step xs d = Inr d'" and "distinct (map fst xs)"
    and "\<And>x s s'. x \<in> set xs \<Longrightarrow> sameOwners d s \<Longrightarrow>
      findRow (db_accounts s) (fst x) = findRow (db_accounts d) (fst x) \<Longrightarrow>
      getOr0 (db_debts s) (fst x) = getOr0 (db_debts d) (fst x) \<Longrightarrow> step x s = Inr s' \<Longrightarrow>
      moved (fst x) (b0 (fst x)) (y (fst x)) (h (fst x)) s s'"
  shows "\<exists>accounts rows debts.
    d' = d\<lparr>db_accounts := accounts, db_ledger := db_ledger d @ rows, db_debts := debts\<rparr> \<and>
    (\<forall>i. if i \<in> fst ` set xs then settledAccount i (b0 i) (y i) (h i) d accounts rows debts
         else untouchedAccount i d accounts rows debts)"
  using assms
proof (induction xs arbitrary: d)
  case Nil
  then have "d' = d\<lparr>db_accounts := db_accounts d, db_ledger := db_ledger d @ [], db_debts := db_debts d\<rparr>" by simp
  moreover have "\<forall>i. untouchedAccount i d (db_accounts d) [] (db_debts d)"
    by (simp add: untouchedAccount_def ledgerOf_def)
  ultimately show ?case by (metis empty_iff image_empty list.set(1))
next
  case (Cons x xs)
  let ?i = "fst x"
  from Cons.prems(1) obtain s where s: "step x d = Inr s" and rest: "foldE step xs s = Inr d'"
    by (auto simp: bindE_eq_Inr_iff)
  from Cons.prems(2) have nd: "?i \<notin> fst ` set xs" "distinct (map fst xs)" by auto
  have mv: "moved ?i (b0 ?i) (y ?i) (h ?i) d s"
    using s by (intro Cons.prems(3)) auto
  have own: "sameOwners d s" by (rule moved_owners [OF mv])
  from mv obtain rows debts a a' where
    m: "s = d\<lparr>db_accounts := putRow ?i a' (db_accounts d), db_ledger := db_ledger d @ rows, db_debts := debts\<rparr>"
      "findRow (db_accounts d) ?i = Some a" "ac_userId a' = ac_userId a" "ac_holdAmount a' = h ?i"
      "\<forall>l\<in>set rows. le_accountId l = ?i" "ledgerChain (b0 ?i) rows = Some (ac_balance a')"
      "\<forall>j. j \<noteq> ?i \<longrightarrow> findRow debts j = findRow (db_debts d) j"
      "ac_balance a' - getOr0 debts ?i = b0 ?i + y ?i - getOr0 (db_debts d) ?i"
    unfolding moved_def by (elim exE conjE) (rule that)
  have other: "findRow (db_accounts s) j = findRow (db_accounts d) j" "findRow (db_debts s) j = findRow (db_debts d) j"
      "getOr0 (db_debts s) j = getOr0 (db_debts d) j"
    if "j \<noteq> ?i" for j
    using m(1) m(7) that unfolding getOr0_def by simp_all
  have "\<exists>accounts rows debts.
      d' = s\<lparr>db_accounts := accounts, db_ledger := db_ledger s @ rows, db_debts := debts\<rparr> \<and>
      (\<forall>i. if i \<in> fst ` set xs then settledAccount i (b0 i) (y i) (h i) s accounts rows debts
           else untouchedAccount i s accounts rows debts)"
  proof (rule Cons.IH [OF rest nd(2)])
    fix z t t'
    assume z: "z \<in> set xs" "sameOwners s t" "findRow (db_accounts t) (fst z) = findRow (db_accounts s) (fst z)"
      "getOr0 (db_debts t) (fst z) = getOr0 (db_debts s) (fst z)" "step z t = Inr t'"
    then have "fst z \<noteq> ?i" using nd(1) by (metis image_eqI)
    with z other own show "moved (fst z) (b0 (fst z)) (y (fst z)) (h (fst z)) t t'"
      by (intro Cons.prems(3)) (auto dest: sameOwners_trans)
  qed
  then obtain accounts rows2 debts2 where
    r: "d' = s\<lparr>db_accounts := accounts, db_ledger := db_ledger s @ rows2, db_debts := debts2\<rparr>"
      "\<And>i. if i \<in> fst ` set xs then settledAccount i (b0 i) (y i) (h i) s accounts rows2 debts2
           else untouchedAccount i s accounts rows2 debts2"
    by blast
  have "if i \<in> fst ` set (x # xs) then settledAccount i (b0 i) (y i) (h i) d accounts (rows @ rows2) debts2
      else untouchedAccount i d accounts (rows @ rows2) debts2" for i
  proof (cases "i = ?i")
    case True
    with r(2) [of i] nd have "untouchedAccount ?i s accounts rows2 debts2" by auto
    with m show ?thesis using True
      by (auto simp: settledAccount_def untouchedAccount_def getOr0_def)
  next
    case False
    have "ledgerOf i rows = []" using m(5) False by (auto intro: ledgerOf_other)
    with False r(2) [of i] other [OF False] show ?thesis
      by (auto simp: settledAccount_def untouchedAccount_def split: option.splits if_splits)
  qed
  moreover from r(1) m(1) have
    "d' = d\<lparr>db_accounts := accounts, db_ledger := db_ledger d @ (rows @ rows2), db_debts := debts2\<rparr>" by simp
  ultimately show ?case by blast
qed

section \<open>The three products\<close>

text \<open>The context \<open>pessimisticLock\<close> gives its body.\<close>

lemma readAccounts_find:
  "readAccounts ids d = Inr acc \<Longrightarrow>
     findRow acc i = (if i \<in> set ids then map_option stateOf (findRow (db_accounts d) i) else None) \<and>
     (i \<in> set ids \<longrightarrow> findRow (db_accounts d) i \<noteq> None)"
  by (induction ids arbitrary: acc) (auto simp: bindE_eq_Inr_iff findRow_Cons split: option.splits if_splits)

definition lockedCtx :: "string list \<Rightarrow> db \<Rightarrow> lock_ctx \<Rightarrow> bool" where
  "lockedCtx ids d ctx \<longleftrightarrow>
     readAccounts (lockOrder ids) d = Inr (cx_accounts ctx) \<and> cx_update ctx = updatePessimistic (cx_accounts ctx)"

lemma pessimisticLock_Inr:
  "pessimisticLock ids body d = Inr r \<longleftrightarrow> (\<exists>ctx. lockedCtx ids d ctx \<and> body ctx d = Inr r)"
proof
  assume "pessimisticLock ids body d = Inr r"
  then obtain acc where "readAccounts (lockOrder ids) d = Inr acc"
    "body \<lparr>cx_accounts = acc, cx_update = updatePessimistic acc\<rparr> d = Inr r"
    by (auto simp: pessimisticLock_def bindE_eq_Inr_iff)
  then show "\<exists>ctx. lockedCtx ids d ctx \<and> body ctx d = Inr r"
    by (intro exI [of _ "\<lparr>cx_accounts = acc, cx_update = updatePessimistic acc\<rparr>"]) (simp add: lockedCtx_def)
next
  assume "\<exists>ctx. lockedCtx ids d ctx \<and> body ctx d = Inr r"
  then obtain ctx where c: "readAccounts (lockOrder ids) d = Inr (cx_accounts ctx)"
    "cx_update ctx = updatePessimistic (cx_accounts ctx)" "body ctx d = Inr r"
    by (auto simp: lockedCtx_def)
  obtain acc u where "ctx = \<lparr>cx_accounts = acc, cx_update = u\<rparr>" by (cases ctx)
  with c show "pessimisticLock ids body d = Inr r"
    by (simp add: pessimisticLock_def)
qed

lemma set_lockOrder [simp]: "set (lockOrder ids) = set ids"
  by (simp add: lockOrder_def)

lemma readAccounts_total:
  "\<forall>i \<in> set ids. findRow (db_accounts d) i \<noteq> None \<Longrightarrow> \<exists>acc. readAccounts ids d = Inr acc"
  by (induction ids) (auto split: option.splits)

lemma lockedCtx_exists:
  assumes "\<forall>i \<in> set ids. findRow (db_accounts d) i \<noteq> None"
  obtains ctx where "lockedCtx ids d ctx"
proof -
  from assms obtain acc where "readAccounts (lockOrder ids) d = Inr acc"
    using readAccounts_total [of "lockOrder ids" d] by auto
  then have "lockedCtx ids d \<lparr>cx_accounts = acc, cx_update = updatePessimistic acc\<rparr>"
    by (simp add: lockedCtx_def)
  then show thesis by (rule that)
qed

lemma lockedCtx_snapshot:
  assumes "lockedCtx ids d ctx" and "i \<in> set ids"
  obtains a where "findRow (db_accounts d) i = Some a" "snapshotOf ctx i = stateOf a"
  using assms readAccounts_find [of "lockOrder ids" d "cx_accounts ctx" i]
  unfolding lockedCtx_def snapshotOf_def by auto

lemma stateOf_simps [simp]:
  "as_balance (stateOf a) = ac_balance a" "as_holdAmount (stateOf a) = ac_holdAmount a"
  by (simp_all add: stateOf_def)

lemma update_moved:
  assumes "lockedCtx ids d0 ctx" and "cx_update ctx i b h s = Inr s'"
    and "s = d\<lparr>db_ledger := db_ledger d @ rows, db_debts := debts\<rparr>"
    and "findRow (db_accounts d) i = Some a"
    and "\<forall>l\<in>set rows. le_accountId l = i" "ledgerChain b0 rows = Some b"
    and "\<forall>j. j \<noteq> i \<longrightarrow> findRow debts j = findRow (db_debts d) j"
    and "b - getOr0 debts i = b0 + x - getOr0 (db_debts d) i"
  shows "moved i b0 x h d s'"
proof -
  from assms(1,2) have "updatePessimistic (cx_accounts ctx) i b h s = Inr s'" by (simp add: lockedCtx_def)
  from pessimistic.upd_stores [OF this] assms(3,4) have "storedAccount i b h s s'" by simp
  then obtain a' where "ac_balance a' = b" "ac_holdAmount a' = h" "ac_userId a' = ac_userId a"
    "s' = s\<lparr>db_accounts := putRow i a' (db_accounts s)\<rparr>"
    using assms(3,4) by (auto simp: storedAccount_def)
  then show ?thesis
    unfolding moved_def using assms(3-)
    by (intro exI [of _ rows] exI [of _ debts] exI [of _ a] exI [of _ a']) auto
qed

lemma applyFuturesCash_equity:
  "fr_balance (applyFuturesCash s r) = fc_balance s + fr_ledgerDelta (applyFuturesCash s r) \<and>
   fr_balance (applyFuturesCash s r) - fr_debt (applyFuturesCash s r) = fc_balance s - fc_debt s + r"
  by (auto simp: applyFuturesCash_def Let_def)

text \<open>
  The legs' amounts, summed by account: with one account on both sides there is one entry.
\<close>

lemma addTo_legs:
  "fst ` set (addTo s y (addTo b x [])) = {b, s} \<and> distinct (map fst (addTo s y (addTo b x []))) \<and>
   (\<forall>i. getOr0 (addTo s y (addTo b x [])) i = (if i = b then x else 0) + (if i = s then y else 0)) \<and>
   (\<forall>r\<in>set (addTo s y (addTo b x [])). snd r = (if fst r = b then x else 0) + (if fst r = s then y else 0))"
  by (auto simp: addTo_def putRow_def findRow_Cons getOr0_def)

text \<open>One account's step in each product.\<close>

lemma spotCash_moved:
  assumes "lockedCtx ids d0 ctx" "i \<in> set ids" "findRow (db_accounts s) i = findRow (db_accounts d0) i"
    and "spotCash ctx e holds (i, x) s = Inr s'"
  shows "moved i (as_balance (snapshotOf ctx i) + x) (- feesDue e s i)
    (as_holdAmount (snapshotOf ctx i) + getOr0 holds i) s s'"
proof -
  from lockedCtx_snapshot [OF assms(1,2)] obtain a where a: "findRow (db_accounts s) i = Some a"
    using assms(3) by auto
  from assms(4) obtain b' d' where
    f: "settleTradingFees e i (as_balance (snapshotOf ctx i) + x) (as_holdAmount (snapshotOf ctx i) + getOr0 holds i) s
      = Inr (b', d')"
    and u: "cx_update ctx i b' (as_holdAmount (snapshotOf ctx i) + getOr0 holds i) d' = Inr s'"
    by (auto simp: spotCash_def Let_def bindE_eq_Inr_iff)
  from settleTradingFees_spec [OF f] obtain rows debts where
    "d' = s\<lparr>db_ledger := db_ledger s @ rows, db_debts := debts\<rparr>" "\<forall>l\<in>set rows. le_accountId l = i"
    "ledgerChain (as_balance (snapshotOf ctx i) + x) rows = Some b'"
    "\<forall>j. j \<noteq> i \<longrightarrow> findRow debts j = findRow (db_debts s) j"
    "b' - getOr0 debts i = as_balance (snapshotOf ctx i) + x - getOr0 (db_debts s) i - feesDue e s i"
    by blast
  then show ?thesis
    by (intro update_moved [OF assms(1) u _ a]) auto
qed

lemma optionCash_moved:
  assumes "lockedCtx ids d0 ctx" "i \<in> set ids" "findRow (db_accounts s) i = findRow (db_accounts d0) i"
    and "optionCash ctx e release (i, x) s = Inr s'"
  shows "moved i (as_balance (snapshotOf ctx i)) (x - feesDue e s i)
    (as_holdAmount (snapshotOf ctx i) - getOr0 release i) s s'"
proof -
  let ?b = "as_balance (snapshotOf ctx i)" and ?h = "as_holdAmount (snapshotOf ctx i) - getOr0 release i"
  let ?rows0 = "if x \<noteq> 0 then [ledgerRow i x (?b + x) ''OPTION_PREMIUM'' (te_tradeId e)] else []"
  let ?s1 = "s\<lparr>db_ledger := db_ledger s @ ?rows0\<rparr>"
  from lockedCtx_snapshot [OF assms(1,2)] obtain a where a: "findRow (db_accounts s) i = Some a"
    using assms(3) by auto
  have own: "sameOwners s ?s1" by (simp add: sameOwners_def)
  from assms(4) obtain b' d' where
    f: "settleTradingFees e i (?b + x) ?h ?s1 = Inr (b', d')" and u: "cx_update ctx i b' ?h d' = Inr s'"
    by (auto simp: optionCash_def Let_def bindE_eq_Inr_iff createLedger_def split: if_splits)
  from settleTradingFees_spec [OF f] obtain rows debts where
    "d' = ?s1\<lparr>db_ledger := db_ledger ?s1 @ rows, db_debts := debts\<rparr>" "\<forall>l\<in>set rows. le_accountId l = i"
    "ledgerChain (?b + x) rows = Some b'"
    "\<forall>j. j \<noteq> i \<longrightarrow> findRow debts j = findRow (db_debts s) j"
    "b' - getOr0 debts i = ?b + x - getOr0 (db_debts s) i - feesDue e s i"
    using sameOwners_feesDue [OF own] by auto
  then show ?thesis
    by (intro update_moved [OF assms(1) u _ a, where rows = "?rows0 @ rows" and debts = debts]) auto
qed

lemma futuresCash_moved:
  assumes "lockedCtx ids d0 ctx" "i \<in> set ids" "findRow (db_accounts s) i = findRow (db_accounts d0) i"
    and "futuresCash ctx e realized (i, x) s = Inr s'"
  shows "moved i (as_balance (snapshotOf ctx i)) (getOr0 realized i - feesDue e s i)
    (as_holdAmount (snapshotOf ctx i) - x) s s'"
proof -
  let ?b = "as_balance (snapshotOf ctx i)" and ?h = "as_holdAmount (snapshotOf ctx i) - x"
  define cash where "cash = applyFuturesCash \<lparr>fc_balance = ?b, fc_holdAmount = ?h, fc_debt = debtOf s i\<rparr> (getOr0 realized i)"
  have eq: "fr_balance cash = ?b + fr_ledgerDelta cash"
    "fr_balance cash - fr_debt cash = ?b - debtOf s i + getOr0 realized i"
    unfolding cash_def
    using applyFuturesCash_equity [of "\<lparr>fc_balance = ?b, fc_holdAmount = ?h, fc_debt = debtOf s i\<rparr>" "getOr0 realized i"]
    by simp_all
  let ?rows0 = "if fr_ledgerDelta cash \<noteq> 0
    then [ledgerRow i (fr_ledgerDelta cash) (fr_balance cash) ''FUTURES_PNL'' (te_tradeId e)] else []"
  let ?debts0 = "if fr_debt cash \<noteq> debtOf s i then putRow i (fr_debt cash) (db_debts s) else db_debts s"
  let ?s1 = "s\<lparr>db_ledger := db_ledger s @ ?rows0, db_debts := ?debts0\<rparr>"
  from lockedCtx_snapshot [OF assms(1,2)] obtain a where a: "findRow (db_accounts s) i = Some a"
    using assms(3) by auto
  have own: "sameOwners s ?s1" by (simp add: sameOwners_def)
  have debts0: "getOr0 ?debts0 i = fr_debt cash" "\<forall>j. j \<noteq> i \<longrightarrow> findRow ?debts0 j = findRow (db_debts s) j"
    by (auto simp: debtOf_getOr0)
  from assms(4) obtain b' d' where
    f: "settleTradingFees e i (fr_balance cash) ?h ?s1 = Inr (b', d')" and u: "cx_update ctx i b' ?h d' = Inr s'"
    unfolding futuresCash_def Let_def prod.case cash_def [symmetric]
    by (auto simp: bindE_eq_Inr_iff createLedger_def writeDebt_Inr split: if_splits)
  from settleTradingFees_spec [OF f] obtain rows debts where
    r: "d' = ?s1\<lparr>db_ledger := db_ledger ?s1 @ rows, db_debts := debts\<rparr>" "\<forall>l\<in>set rows. le_accountId l = i"
    "ledgerChain (fr_balance cash) rows = Some b'"
    "\<forall>j. j \<noteq> i \<longrightarrow> findRow debts j = findRow ?debts0 j"
    "b' - getOr0 debts i = fr_balance cash - fr_debt cash - feesDue e s i"
    using sameOwners_feesDue [OF own] debts0(1) by auto
  show ?thesis
  proof (rule update_moved [OF assms(1) u _ a, where rows = "?rows0 @ rows" and debts = debts])
    show "d' = s\<lparr>db_ledger := db_ledger s @ ?rows0 @ rows, db_debts := debts\<rparr>" using r(1) by simp
    show "\<forall>l\<in>set (?rows0 @ rows). le_accountId l = i" using r(2) by auto
    show "ledgerChain ?b (?rows0 @ rows) = Some b'" using r(3) eq(1) by (cases "fr_ledgerDelta cash = 0") simp_all
    show "\<forall>j. j \<noteq> i \<longrightarrow> findRow debts j = findRow (db_debts s) j" using r(4) debts0(2) by simp
    show "b' - getOr0 debts i = ?b + (getOr0 realized i - feesDue e s i) - getOr0 (db_debts s) i"
      using r(5) eq(2) by (simp add: debtOf_getOr0)
  qed
qed

section \<open>Cash of a trade\<close>

definition balanceOf :: "db \<Rightarrow> string \<Rightarrow> int" where
  "balanceOf d i = (case findRow (db_accounts d) i of None \<Rightarrow> 0 | Some a \<Rightarrow> ac_balance a)"

definition holdOf :: "db \<Rightarrow> string \<Rightarrow> int" where
  "holdOf d i = (case findRow (db_accounts d) i of None \<Rightarrow> 0 | Some a \<Rightarrow> ac_holdAmount a)"

text \<open>
  What the trade means for a side's equity before fees: the price for shares, the premium for an
  option, the realised profit for a future (the seller's leg sees the buyer's, for an account that is
  both); and the hold its order gives up.
\<close>

definition sideCash :: "trade_executed \<Rightarrow> order_row \<Rightarrow> order_row \<Rightarrow> db \<Rightarrow> order_side \<Rightarrow> int" where
  "sideCash e buyOrder sellOrder d side =
     (let value = tradeNotional (te_symbol e) (te_price e) (te_qty e) in
      case futureDef (te_symbol e) of
        None \<Rightarrow> (case side of BUY \<Rightarrow> - value | SELL \<Rightarrow> value)
      | Some f \<Rightarrow>
          let buyLeg = tradeLegs e buyOrder sellOrder ! 0; sellLeg = tradeLegs e buyOrder sellOrder ! 1;
              afterBuy = putRow (legKey e buyLeg) (legPosition f e buyLeg (db_positions d)) (db_positions d)
          in ff_realized (case side of BUY \<Rightarrow> legFill f e buyLeg (db_positions d)
                                     | SELL \<Rightarrow> legFill f e sellLeg afterBuy))"

definition sideHold :: "trade_executed \<Rightarrow> order_row \<Rightarrow> order_row \<Rightarrow> order_side \<Rightarrow> int" where
  "sideHold e buyOrder sellOrder side = (case side of
     BUY \<Rightarrow> or_holdPerUnit buyOrder * te_qty e
   | SELL \<Rightarrow> if isFuture (te_symbol e) \<or> isOption (te_symbol e) then or_holdPerUnit sellOrder * te_qty e else 0)"

definition cashSettled :: "trade_executed \<Rightarrow> (order_side \<Rightarrow> int) \<Rightarrow> (order_side \<Rightarrow> int) \<Rightarrow> db \<Rightarrow> db \<Rightarrow> bool" where
  "cashSettled e cash hold d d' \<longleftrightarrow> (\<exists>rows. db_ledger d' = db_ledger d @ rows \<and>
     (\<forall>i. if i = te_buyerAccountId e \<or> i = te_sellerAccountId e
          then settledAccount i (balanceOf d i) (partySum e i (cash BUY) (cash SELL) - feesDue e d i)
                 (holdOf d i - partySum e i (hold BUY) (hold SELL)) d (db_accounts d') rows (db_debts d')
          else untouchedAccount i d (db_accounts d') rows (db_debts d')))"

lemma settledAccount_cong:
  "db_accounts s = db_accounts d \<Longrightarrow> db_debts s = db_debts d \<Longrightarrow>
    settledAccount i b0 x h s = settledAccount i b0 x h d"
  by (intro ext) (simp add: settledAccount_def cong: option.case_cong)

lemma untouchedAccount_cong:
  "db_accounts s = db_accounts d \<Longrightarrow> db_debts s = db_debts d \<Longrightarrow> untouchedAccount i s = untouchedAccount i d"
  by (intro ext) (simp add: untouchedAccount_def)

lemma advance_frame:
  assumes "foldE (advanceOrder e) xs d = Inr d'"
  shows "\<exists>orders. d' = d\<lparr>db_orders := orders\<rparr>"
  using assms
proof (induction xs arbitrary: d)
  case Nil
  then show ?case by (intro exI [of _ "db_orders d"]) simp
next
  case (Cons x xs)
  then obtain s where "advanceOrder e x d = Inr s" "foldE (advanceOrder e) xs s = Inr d'"
    by (auto simp: bindE_eq_Inr_iff)
  moreover from this(1) obtain os where "s = d\<lparr>db_orders := os\<rparr>"
    by (auto simp: advanceOrder_def bindE_eq_Inr_iff updateOrder_Inr split: prod.splits)
  ultimately show ?case using Cons.IH by fastforce
qed

lemma recordRealized_frame:
  assumes "recordRealized e l f d = Inr d'"
  obtains rz where "d' = d\<lparr>db_realized := rz\<rparr>"
proof (cases "ff_closedQty f > 0")
  case True
  with assms have "\<exists>r. createRealized (te_tradeId e, FillSide (lg_side l)) r d = Inr d'" by (auto simp: recordRealized_def)
  then show ?thesis by (auto simp: createRealized_Inr intro: that)
next
  case False
  with assms have "d' = d\<lparr>db_realized := db_realized d\<rparr>" by (simp add: recordRealized_def)
  then show ?thesis by (rule that)
qed

text \<open>The legs of a derivative leave every table but the positions and the realised records.\<close>

lemma futuresLeg_frame:
  assumes "futuresLeg f e l (r, z, d) = Inr (r', z', d')"
  shows "r' = addTo (lg_accountId l) (or_holdPerUnit (lg_order l) * te_qty e) r \<and>
    z' = addTo (lg_accountId l) (ff_realized (legFill f e l (db_positions d))) z \<and>
    (\<exists>rz. d' = d\<lparr>db_positions := putRow (legKey e l) (legPosition f e l (db_positions d)) (db_positions d),
                 db_realized := rz\<rparr>)"
proof -
  let ?fill = "legFill f e l (db_positions d)"
  from assms obtain s where w: "writePosition (legKey e l) (legPosition f e l (db_positions d)) d = Inr s"
    and rr: "recordRealized e l ?fill s = Inr d'"
    and rz: "r' = addTo (lg_accountId l) (or_holdPerUnit (lg_order l) * te_qty e) r"
      "z' = addTo (lg_accountId l) (ff_realized ?fill) z"
    unfolding futuresLeg_def Let_def prod.case by (auto simp: bindE_eq_Inr_iff)
  from recordRealized_frame [OF rr] obtain z where "d' = s\<lparr>db_realized := z\<rparr>" .
  with w rz show ?thesis unfolding writePosition_Inr by auto
qed

lemma optionLeg_frame:
  assumes "optionLeg f k e l (c, r, d) = Inr (c', r', d')"
  shows "c' = addTo (lg_accountId l) (if lg_side l = BUY then - (te_price e * te_qty e * od_unitValue f)
      else te_price e * te_qty e * od_unitValue f) c \<and>
    r' = addTo (lg_accountId l) (or_holdPerUnit (lg_order l) * te_qty e) r \<and>
    (\<exists>rz. d' = d\<lparr>db_positions := putRow (optionKey e l) (optionPosition f k e l (db_positions d)) (db_positions d),
                 db_realized := rz\<rparr>)"
proof -
  let ?fill = "optionFill f e l (db_positions d)"
  from assms obtain s where w: "writePosition (optionKey e l) (optionPosition f k e l (db_positions d)) d = Inr s"
    and rr: "recordRealized e l ?fill s = Inr d'"
    and rz: "c' = addTo (lg_accountId l) (if lg_side l = BUY then - (te_price e * te_qty e * od_unitValue f)
      else te_price e * te_qty e * od_unitValue f) c"
      "r' = addTo (lg_accountId l) (or_holdPerUnit (lg_order l) * te_qty e) r"
    unfolding optionLeg_def Let_def prod.case by (auto simp: bindE_eq_Inr_iff)
  from recordRealized_frame [OF rr] obtain z where "d' = s\<lparr>db_realized := z\<rparr>" .
  with w rz show ?thesis unfolding writePosition_Inr by auto
qed

lemma snapshot_values:
  assumes "lockedCtx ids d ctx" "i \<in> set ids"
  shows "as_balance (snapshotOf ctx i) = balanceOf d i" "as_holdAmount (snapshotOf ctx i) = holdOf d i"
proof -
  obtain a where "findRow (db_accounts d) i = Some a" "snapshotOf ctx i = stateOf a"
    by (rule lockedCtx_snapshot [OF assms])
  then show "as_balance (snapshotOf ctx i) = balanceOf d i" "as_holdAmount (snapshotOf ctx i) = holdOf d i"
    by (simp_all add: balanceOf_def holdOf_def)
qed

text \<open>The three products settle their cash as \<open>sideCash\<close> and \<open>sideHold\<close> say.\<close>

definition parties :: "trade_executed \<Rightarrow> string list" where
  "parties e = uniq [te_buyerAccountId e, te_sellerAccountId e]"

lemma set_parties [simp]: "set (parties e) = {te_buyerAccountId e, te_sellerAccountId e}"
  by (auto simp: parties_def)

definition moneyEq :: "db \<Rightarrow> db \<Rightarrow> bool" where
  "moneyEq d d' \<longleftrightarrow> db_accounts d' = db_accounts d \<and> db_debts d' = db_debts d \<and> db_ledger d' = db_ledger d \<and>
     db_users d' = db_users d"

lemma moneyEq_owners: "moneyEq d d' \<Longrightarrow> sameOwners d d'"
  by (simp add: moneyEq_def sameOwners_def)

lemma moneyEq_trans: "moneyEq a b \<Longrightarrow> moneyEq b c \<Longrightarrow> moneyEq a c"
  by (simp add: moneyEq_def)

lemma advance_moneyEq: "foldE (advanceOrder e) xs d = Inr d' \<Longrightarrow> moneyEq d d'"
  using advance_frame [of e xs d d'] by (auto simp: moneyEq_def)

lemma cashSettled_cong:
  assumes "moneyEq d0 d" "moneyEq d' d1" "cashSettled e cash hold d d'"
  shows "cashSettled e cash hold d0 d1"
proof -
  have "balanceOf d0 = balanceOf d" "holdOf d0 = holdOf d" "feesDue e d0 = feesDue e d"
    using assms(1) sameOwners_feesDue [OF moneyEq_owners [OF assms(1)]]
    by (auto simp: moneyEq_def balanceOf_def holdOf_def)
  moreover have "settledAccount i b x h d0 = settledAccount i b x h d" for i b x h
    using assms(1) by (intro settledAccount_cong) (simp_all add: moneyEq_def)
  moreover have "untouchedAccount i d0 = untouchedAccount i d" for i
    using assms(1) by (intro untouchedAccount_cong) (simp_all add: moneyEq_def)
  moreover have "db_accounts d1 = db_accounts d'" "db_debts d1 = db_debts d'" "db_ledger d1 = db_ledger d'"
    "db_ledger d0 = db_ledger d"
    using assms(1,2) by (simp_all add: moneyEq_def)
  ultimately have "cashSettled e cash hold d0 d1 = cashSettled e cash hold d d'"
    unfolding cashSettled_def by (simp only:)
  with assms(3) show ?thesis by (simp only:)
qed

lemma cash_of_fold:
  assumes f: "foldE step xs d = Inr d'" and ctx: "lockedCtx (parties e) d0 ctx" and m: "moneyEq d0 d"
    and xs: "fst ` set xs = {te_buyerAccountId e, te_sellerAccountId e}" "distinct (map fst xs)"
    and step: "\<And>x s s'. x \<in> set xs \<Longrightarrow> fst x \<in> set (parties e) \<Longrightarrow>
      findRow (db_accounts s) (fst x) = findRow (db_accounts d0) (fst x) \<Longrightarrow> step x s = Inr s' \<Longrightarrow>
      moved (fst x) (as_balance (snapshotOf ctx (fst x)))
        (partySum e (fst x) (cash BUY) (cash SELL) - feesDue e s (fst x))
        (as_holdAmount (snapshotOf ctx (fst x)) - partySum e (fst x) (hold BUY) (hold SELL)) s s'"
  shows "cashSettled e cash hold d d'"
proof -
  have bal: "balanceOf d i = balanceOf d0 i" "holdOf d i = holdOf d0 i" for i
    using m by (simp_all add: moneyEq_def balanceOf_def holdOf_def)
  have "\<exists>accounts rows debts.
    d' = d\<lparr>db_accounts := accounts, db_ledger := db_ledger d @ rows, db_debts := debts\<rparr> \<and>
    (\<forall>i. if i \<in> fst ` set xs then settledAccount i (balanceOf d i)
             (partySum e i (cash BUY) (cash SELL) - feesDue e d i)
             (holdOf d i - partySum e i (hold BUY) (hold SELL)) d accounts rows debts
         else untouchedAccount i d accounts rows debts)"
  proof (rule cash_fold [OF f xs(2)])
    fix x s s'
    assume a: "x \<in> set xs" "sameOwners d s" "findRow (db_accounts s) (fst x) = findRow (db_accounts d) (fst x)"
      "step x s = Inr s'"
    then have p: "fst x \<in> set (parties e)" using xs(1) by (metis imageI set_parties)
    from a m have "findRow (db_accounts s) (fst x) = findRow (db_accounts d0) (fst x)" by (simp add: moneyEq_def)
    from step [OF a(1) p this a(4)]
    show "moved (fst x) (balanceOf d (fst x)) (partySum e (fst x) (cash BUY) (cash SELL) - feesDue e d (fst x))
        (holdOf d (fst x) - partySum e (fst x) (hold BUY) (hold SELL)) s s'"
      using snapshot_values [OF ctx p] sameOwners_feesDue [OF a(2)] bal by simp
  qed
  then show ?thesis unfolding cashSettled_def xs(1) by fastforce
qed

lemma tradeLegs_simps [simp]:
  "lg_accountId (tradeLegs e b s ! 0) = te_buyerAccountId e" "lg_side (tradeLegs e b s ! 0) = BUY"
  "lg_order (tradeLegs e b s ! 0) = b"
  "lg_accountId (tradeLegs e b s ! Suc 0) = te_sellerAccountId e" "lg_side (tradeLegs e b s ! Suc 0) = SELL"
  "lg_order (tradeLegs e b s ! Suc 0) = s"
  by (simp_all add: tradeLegs_def)

lemma partySum_addTo:
  "fst ` set (addTo (te_sellerAccountId e) y (addTo (te_buyerAccountId e) x [])) = {te_buyerAccountId e, te_sellerAccountId e}"
  "distinct (map fst (addTo (te_sellerAccountId e) y (addTo (te_buyerAccountId e) x [])))"
  "getOr0 (addTo (te_sellerAccountId e) y (addTo (te_buyerAccountId e) x [])) i = partySum e i x y"
  "r \<in> set (addTo (te_sellerAccountId e) y (addTo (te_buyerAccountId e) x [])) \<Longrightarrow> snd r = partySum e (fst r) x y"
  using addTo_legs [of "te_sellerAccountId e" y "te_buyerAccountId e" x] by (auto simp: partySum_def)

lemma partySum_minus: "partySum e i (- x) 0 = - partySum e i x 0"
  by (simp add: partySum_def)

lemma tradeLegs_two: "foldE F (tradeLegs e b s) = foldE F [tradeLegs e b s ! 0, tradeLegs e b s ! Suc 0]"
  by (simp add: tradeLegs_def)

lemma futures_cash:
  assumes ctx: "lockedCtx (parties e) d0 ctx" and m: "moneyEq d0 d" "db_positions d = db_positions d0"
    and f: "futureDef (te_symbol e) = Some f"
    and run: "settleFuturesTrade ctx f e b s d = Inr d'"
  shows "cashSettled e (sideCash e b s d0) (sideHold e b s) d0 d'"
proof -
  let ?bl = "tradeLegs e b s ! 0" and ?sl = "tradeLegs e b s ! Suc 0"
  from run obtain release realized d1 d2 where
    legs: "foldE (futuresLeg f e) [?bl, ?sl] ([], [], d) = Inr (release, realized, d1)"
    and fold: "foldE (futuresCash ctx e realized) release d1 = Inr d2"
    and adv: "foldE (advanceOrder e) [(te_buyOrderId e, b), (te_sellOrderId e, s)] d2 = Inr d'"
    unfolding settleFuturesTrade_def tradeLegs_two
    by (elim bindE_InrE) (auto elim: bindE_InrE)
  from legs obtain r1 z1 t where l1: "futuresLeg f e ?bl ([], [], d) = Inr (r1, z1, t)"
    and l2: "futuresLeg f e ?sl (r1, z1, t) = Inr (release, realized, d1)"
    by (auto simp: bindE_eq_Inr_iff)
  note f1 = futuresLeg_frame [OF l1] and f2 = futuresLeg_frame [OF l2]
  have pos: "db_positions t = putRow (legKey e ?bl) (legPosition f e ?bl (db_positions d)) (db_positions d)"
    using f1 by auto
  have rel: "release = addTo (te_sellerAccountId e) (or_holdPerUnit s * te_qty e)
      (addTo (te_buyerAccountId e) (or_holdPerUnit b * te_qty e) [])"
    using f1 f2 by simp
  have rea: "realized = addTo (te_sellerAccountId e) (sideCash e b s d0 SELL) (addTo (te_buyerAccountId e) (sideCash e b s d0 BUY) [])"
    using f1 f2 pos m(2) f by (simp add: sideCash_def Let_def)
  have m1: "moneyEq d d1" using f1 f2 by (auto simp: moneyEq_def)
  have hold: "sideHold e b s BUY = or_holdPerUnit b * te_qty e" "sideHold e b s SELL = or_holdPerUnit s * te_qty e"
    using f by (simp_all add: sideHold_def isFuture_iff)
  have "cashSettled e (sideCash e b s d0) (sideHold e b s) d1 d2"
  proof (rule cash_of_fold [OF fold ctx moneyEq_trans [OF m(1) m1]])
    show "fst ` set release = {te_buyerAccountId e, te_sellerAccountId e}" "distinct (map fst release)"
      unfolding rel by (rule partySum_addTo)+
    fix x st st'
    assume x: "x \<in> set release" "fst x \<in> set (parties e)"
      "findRow (db_accounts st) (fst x) = findRow (db_accounts d0) (fst x)" "futuresCash ctx e realized x st = Inr st'"
    have "snd x = partySum e (fst x) (sideHold e b s BUY) (sideHold e b s SELL)"
      using x(1) unfolding rel hold by (rule partySum_addTo)
    moreover have "getOr0 realized (fst x) = partySum e (fst x) (sideCash e b s d0 BUY) (sideCash e b s d0 SELL)"
      unfolding rea by (rule partySum_addTo)
    moreover have "futuresCash ctx e realized (fst x, snd x) st = Inr st'" using x(4) by simp
    from futuresCash_moved [OF ctx x(2,3) this]
    have "moved (fst x) (as_balance (snapshotOf ctx (fst x))) (getOr0 realized (fst x) - feesDue e st (fst x))
      (as_holdAmount (snapshotOf ctx (fst x)) - snd x) st st'" .
    ultimately show "moved (fst x) (as_balance (snapshotOf ctx (fst x)))
        (partySum e (fst x) (sideCash e b s d0 BUY) (sideCash e b s d0 SELL) - feesDue e st (fst x))
        (as_holdAmount (snapshotOf ctx (fst x)) - partySum e (fst x) (sideHold e b s BUY) (sideHold e b s SELL)) st st'"
      by (simp only:)
  qed
  then show ?thesis
    by (rule cashSettled_cong [OF moneyEq_trans [OF m(1) m1] advance_moneyEq [OF adv]])
qed

lemma option_cash:
  assumes ctx: "lockedCtx (parties e) d0 ctx" and m: "moneyEq d0 d"
    and f: "futureDef (te_symbol e) = None" "optionDef (te_symbol e) = Some f"
    and run: "settleOptionTrade ctx f e b s d = Inr d'"
  shows "cashSettled e (sideCash e b s d0) (sideHold e b s) d0 d'"
proof -
  let ?bl = "tradeLegs e b s ! 0" and ?sl = "tradeLegs e b s ! Suc 0"
  from run obtain k cash release d1 d2 where
    legs: "foldE (optionLeg f k e) [?bl, ?sl] ([], [], d) = Inr (cash, release, d1)"
    and fold: "foldE (optionCash ctx e release) cash d1 = Inr d2"
    and adv: "foldE (advanceOrder e) [(te_buyOrderId e, b), (te_sellOrderId e, s)] d2 = Inr d'"
    unfolding settleOptionTrade_def tradeLegs_two
    by (auto split: option.splits elim!: bindE_InrE simp del: foldE.simps)
  from legs obtain c1 r1 t where l1: "optionLeg f k e ?bl ([], [], d) = Inr (c1, r1, t)"
    and l2: "optionLeg f k e ?sl (c1, r1, t) = Inr (cash, release, d1)"
    by (auto simp: bindE_eq_Inr_iff)
  note f1 = optionLeg_frame [OF l1] and f2 = optionLeg_frame [OF l2]
  have hold: "sideHold e b s BUY = or_holdPerUnit b * te_qty e" "sideHold e b s SELL = or_holdPerUnit s * te_qty e"
    using f by (simp_all add: sideHold_def isOption_iff)
  have rel: "release = addTo (te_sellerAccountId e) (sideHold e b s SELL) (addTo (te_buyerAccountId e) (sideHold e b s BUY) [])"
    using f1 f2 hold by simp
  have cash: "cash = addTo (te_sellerAccountId e) (sideCash e b s d0 SELL) (addTo (te_buyerAccountId e) (sideCash e b s d0 BUY) [])"
    using f1 f2 f by (simp add: sideCash_def tradeNotional_def orElse_def)
  have m1: "moneyEq d d1" using f1 f2 by (auto simp: moneyEq_def)
  have "cashSettled e (sideCash e b s d0) (sideHold e b s) d1 d2"
  proof (rule cash_of_fold [OF fold ctx moneyEq_trans [OF m m1]])
    show "fst ` set cash = {te_buyerAccountId e, te_sellerAccountId e}" "distinct (map fst cash)"
      unfolding cash by (rule partySum_addTo)+
    fix x st st'
    assume x: "x \<in> set cash" "fst x \<in> set (parties e)"
      "findRow (db_accounts st) (fst x) = findRow (db_accounts d0) (fst x)" "optionCash ctx e release x st = Inr st'"
    have "snd x = partySum e (fst x) (sideCash e b s d0 BUY) (sideCash e b s d0 SELL)"
      using x(1) unfolding cash by (rule partySum_addTo)
    moreover have "getOr0 release (fst x) = partySum e (fst x) (sideHold e b s BUY) (sideHold e b s SELL)"
      unfolding rel by (rule partySum_addTo)
    moreover have "optionCash ctx e release (fst x, snd x) st = Inr st'" using x(4) by simp
    from optionCash_moved [OF ctx x(2,3) this]
    have "moved (fst x) (as_balance (snapshotOf ctx (fst x))) (snd x - feesDue e st (fst x))
      (as_holdAmount (snapshotOf ctx (fst x)) - getOr0 release (fst x)) st st'" .
    ultimately show "moved (fst x) (as_balance (snapshotOf ctx (fst x)))
        (partySum e (fst x) (sideCash e b s d0 BUY) (sideCash e b s d0 SELL) - feesDue e st (fst x))
        (as_holdAmount (snapshotOf ctx (fst x)) - partySum e (fst x) (sideHold e b s BUY) (sideHold e b s SELL)) st st'"
      by (simp only:)
  qed
  then show ?thesis
    by (rule cashSettled_cong [OF moneyEq_trans [OF m m1] advance_moneyEq [OF adv]])
qed

lemma spotLedger_rows:
  assumes "lockedCtx (parties e) d0 ctx"
  shows "\<exists>rows. spotLedger ctx e cost d = d\<lparr>db_ledger := db_ledger d @ rows\<rparr> \<and>
    (\<forall>i. if i = te_buyerAccountId e \<or> i = te_sellerAccountId e
         then ledgerChain (balanceOf d0 i) (ledgerOf i rows) = Some (balanceOf d0 i + partySum e i (- cost) cost)
         else ledgerOf i rows = [])"
proof -
  let ?b = "te_buyerAccountId e" and ?s = "te_sellerAccountId e"
  let ?before = "if ?s = ?b then balanceOf d0 ?b + (- cost) else balanceOf d0 ?s"
  have v: "as_balance (snapshotOf ctx ?b) = balanceOf d0 ?b" "as_balance (snapshotOf ctx ?s) = balanceOf d0 ?s"
    using snapshot_values(1) [OF assms] by simp_all
  let ?rows = "[ledgerRow ?b (- cost) (balanceOf d0 ?b + (- cost)) ''TRADE_BUY'' (te_tradeId e),
     ledgerRow ?s cost (?before + cost) ''TRADE_SELL'' (te_tradeId e)]"
  have "spotLedger ctx e cost d = d\<lparr>db_ledger := db_ledger d @ ?rows\<rparr>"
    by (simp add: spotLedger_def v createLedger_def Let_def)
  moreover have "if i = ?b \<or> i = ?s
      then ledgerChain (balanceOf d0 i) (ledgerOf i ?rows) = Some (balanceOf d0 i + partySum e i (- cost) cost)
      else ledgerOf i ?rows = []" for i
    by (auto simp: ledgerOf_def partySum_def)
  ultimately show ?thesis by blast
qed

lemma spotHoldings_moneyEq: "spotHoldings e cost d = Inr d' \<Longrightarrow> moneyEq d d'"
  by (auto simp: spotHoldings_def Let_def bindE_eq_Inr_iff writeHolding_Inr createPnl_Inr moneyEq_def split: option.splits)

lemma spot_cash:
  assumes ctx: "lockedCtx (parties e) d0 ctx" and m: "moneyEq d0 d"
    and f: "futureDef (te_symbol e) = None" "optionDef (te_symbol e) = None"
    and run: "settleSpotTrade ctx e b s d = Inr d'"
  shows "cashSettled e (sideCash e b s d0) (sideHold e b s) d0 d'"
proof -
  define cost where "cost = te_price e * te_qty e"
  let ?deltas = "addTo (te_sellerAccountId e) cost (addTo (te_buyerAccountId e) (- cost) [])"
  let ?holds = "addTo (te_sellerAccountId e) 0 (addTo (te_buyerAccountId e) (- (or_holdPerUnit b * te_qty e)) [])"
  have side: "sideCash e b s d0 BUY = - cost" "sideCash e b s d0 SELL = cost"
      "sideHold e b s BUY = or_holdPerUnit b * te_qty e" "sideHold e b s SELL = 0"
    using f by (simp_all add: sideCash_def sideHold_def tradeNotional_def cost_def isFuture_iff isOption_iff orElse_def)
  from run obtain d1 d2 where
    fold: "foldE (spotCash ctx e ?holds) ?deltas (spotLedger ctx e cost d) = Inr d1"
    and h: "spotHoldings e cost d1 = Inr d2"
    and adv: "foldE (advanceOrder e) [(te_buyOrderId e, b), (te_sellOrderId e, s)] d2 = Inr d'"
    unfolding settleSpotTrade_def Let_def cost_def [symmetric] by (elim bindE_InrE)
  from spotLedger_rows [OF ctx, of cost d] obtain rows0 where
    r0: "spotLedger ctx e cost d = d\<lparr>db_ledger := db_ledger d @ rows0\<rparr>"
    "\<And>i. if i = te_buyerAccountId e \<or> i = te_sellerAccountId e
         then ledgerChain (balanceOf d0 i) (ledgerOf i rows0) = Some (balanceOf d0 i + partySum e i (- cost) cost)
         else ledgerOf i rows0 = []"
    by blast
  let ?t = "d\<lparr>db_ledger := db_ledger d @ rows0\<rparr>"
  have own: "sameOwners d0 ?t" and acc: "db_accounts ?t = db_accounts d0" "db_debts ?t = db_debts d0"
    using m by (simp_all add: moneyEq_def sameOwners_def)
  have "\<exists>accounts rows debts.
    d1 = ?t\<lparr>db_accounts := accounts, db_ledger := db_ledger ?t @ rows, db_debts := debts\<rparr> \<and>
    (\<forall>i. if i \<in> fst ` set ?deltas then settledAccount i (balanceOf d0 i + partySum e i (- cost) cost)
             (- feesDue e d0 i) (holdOf d0 i - partySum e i (sideHold e b s BUY) (sideHold e b s SELL)) ?t accounts rows debts
         else untouchedAccount i ?t accounts rows debts)"
  proof (rule cash_fold [OF fold [unfolded r0(1)]])
    show "distinct (map fst ?deltas)" by (rule partySum_addTo)
    fix x st st'
    assume a: "x \<in> set ?deltas" "sameOwners ?t st" "findRow (db_accounts st) (fst x) = findRow (db_accounts ?t) (fst x)"
      "spotCash ctx e ?holds x st = Inr st'"
    then have p: "fst x \<in> set (parties e)" using partySum_addTo(1) by (metis imageI set_parties)
    have "snd x = partySum e (fst x) (- cost) cost" using a(1) by (rule partySum_addTo)
    moreover have "getOr0 ?holds (fst x) = partySum e (fst x) (- (or_holdPerUnit b * te_qty e)) 0"
      by (rule partySum_addTo)
    moreover have "spotCash ctx e ?holds (fst x, snd x) st = Inr st'" using a(4) by simp
    from spotCash_moved [OF ctx p a(3) [unfolded acc(1)] this] have
      "moved (fst x) (as_balance (snapshotOf ctx (fst x)) + snd x) (- feesDue e st (fst x))
        (as_holdAmount (snapshotOf ctx (fst x)) + getOr0 ?holds (fst x)) st st'" .
    ultimately show "moved (fst x) (balanceOf d0 (fst x) + partySum e (fst x) (- cost) cost) (- feesDue e d0 (fst x))
        (holdOf d0 (fst x) - partySum e (fst x) (sideHold e b s BUY) (sideHold e b s SELL)) st st'"
      using snapshot_values [OF ctx p] sameOwners_feesDue [OF sameOwners_trans [OF own a(2)]]
      by (simp add: side partySum_minus)
  qed
  then obtain accounts rows debts where
    r: "d1 = ?t\<lparr>db_accounts := accounts, db_ledger := db_ledger ?t @ rows, db_debts := debts\<rparr>"
    "\<And>i. if i = te_buyerAccountId e \<or> i = te_sellerAccountId e
         then settledAccount i (balanceOf d0 i + partySum e i (- cost) cost)
             (- feesDue e d0 i) (holdOf d0 i - partySum e i (sideHold e b s BUY) (sideHold e b s SELL)) ?t accounts rows debts
         else untouchedAccount i ?t accounts rows debts"
    unfolding partySum_addTo(1) by auto
  have "cashSettled e (sideCash e b s d0) (sideHold e b s) d0 d1"
    unfolding cashSettled_def
  proof (intro exI [of _ "rows0 @ rows"] conjI allI)
    show "db_ledger d1 = db_ledger d0 @ rows0 @ rows" using r(1) m by (simp add: moneyEq_def)
    fix i
    show "if i = te_buyerAccountId e \<or> i = te_sellerAccountId e
      then settledAccount i (balanceOf d0 i) (partySum e i (sideCash e b s d0 BUY) (sideCash e b s d0 SELL) - feesDue e d0 i)
             (holdOf d0 i - partySum e i (sideHold e b s BUY) (sideHold e b s SELL)) d0 (db_accounts d1) (rows0 @ rows) (db_debts d1)
      else untouchedAccount i d0 (db_accounts d1) (rows0 @ rows) (db_debts d1)"
      using r(2) [of i] r0(2) [of i] acc r(1) unfolding side(1,2)
      by (auto simp: settledAccount_def untouchedAccount_def ledgerChain_append split: if_splits option.splits)
  qed
  then show ?thesis
    by (rule cashSettled_cong [OF _ moneyEq_trans [OF spotHoldings_moneyEq [OF h] advance_moneyEq [OF adv]], rotated])
      (simp add: moneyEq_def)
qed

section \<open>One trade event\<close>

definition settleProduct :: "lock_ctx \<Rightarrow> trade_executed \<Rightarrow> order_row \<Rightarrow> order_row \<Rightarrow> db \<Rightarrow> error + db" where
  "settleProduct ctx e b s d = (case (futureDef (te_symbol e), optionDef (te_symbol e)) of
     (Some f, _) \<Rightarrow> settleFuturesTrade ctx f e b s d
   | (None, Some o') \<Rightarrow> settleOptionTrade ctx o' e b s d
   | (None, None) \<Rightarrow> settleSpotTrade ctx e b s d)"

lemma settleTrade_Inr:
  assumes "settleTrade e d = Inr d'"
  obtains (duplicate) ctx where "te_eventId e \<in> set (db_processed d)" "lockedCtx (parties e) d ctx"
      "d' = updateMarket e d"
  | (settled) ctx b s d1 where "te_eventId e \<notin> set (db_processed d)" "lockedCtx (parties e) d ctx"
      "findRow (db_orders d) (te_buyOrderId e) = Some b" "findRow (db_orders d) (te_sellOrderId e) = Some s"
      "settleProduct ctx e b s (d\<lparr>db_processed := db_processed d @ [te_eventId e]\<rparr>) = Inr d1"
      "d' = updateMarket e d1"
proof -
  from assms obtain r d1 where "pessimisticLock (parties e) (settleTradeBody e) d = Inr (r, d1)"
    and d': "d' = updateMarket e d1"
    unfolding settleTrade_def parties_def by (auto elim!: bindE_InrE)
  then obtain ctx where ctx: "lockedCtx (parties e) d ctx" and body: "settleTradeBody e ctx d = Inr (r, d1)"
    by (auto simp: pessimisticLock_Inr)
  show ?thesis
  proof (cases "te_eventId e \<in> set (db_processed d)")
    case True
    with body d' ctx show ?thesis by (intro duplicate) (auto simp: settleTradeBody_def)
  next
    case False
    with body obtain b s where "findRow (db_orders d) (te_buyOrderId e) = Some b"
      "findRow (db_orders d) (te_sellOrderId e) = Some s"
      "settleProduct ctx e b s (d\<lparr>db_processed := db_processed d @ [te_eventId e]\<rparr>) = Inr d1"
      unfolding settleTradeBody_def settleProduct_def
      by (auto simp: createProcessed_Inr bindE_eq_Inr_iff someE_eq_Inr_iff simp del: bindE_Inr)
    with False ctx d' show ?thesis by (intro settled)
  qed
qed

lemma updateMarket_frame: "\<exists>c. updateMarket e d = d\<lparr>db_candles := c\<rparr>"
proof (cases "candleOf e (db_trades d)")
  case None
  then have "updateMarket e d = d\<lparr>db_candles := db_candles d\<rparr>" by (simp add: updateMarket_def)
  then show ?thesis by (rule exI)
next
  case (Some c)
  then show ?thesis by (simp only: updateMarket_def option.case) (rule exI, rule refl)
qed

lemma product_cash:
  assumes ctx: "lockedCtx (parties e) d ctx"
    and run: "settleProduct ctx e b s (d\<lparr>db_processed := db_processed d @ [te_eventId e]\<rparr>) = Inr d1"
  shows "cashSettled e (sideCash e b s d) (sideHold e b s) d d1"
proof -
  let ?d = "d\<lparr>db_processed := db_processed d @ [te_eventId e]\<rparr>"
  have m: "moneyEq d ?d" and p: "db_positions ?d = db_positions d" by (simp_all add: moneyEq_def)
  consider f where "futureDef (te_symbol e) = Some f" | o' where "futureDef (te_symbol e) = None" "optionDef (te_symbol e) = Some o'"
    | "futureDef (te_symbol e) = None" "optionDef (te_symbol e) = None" by (metis option.exhaust)
  then show ?thesis
  proof cases
    case (1 f)
    with run show ?thesis by (intro futures_cash [OF ctx m p 1]) (simp add: settleProduct_def)
  next
    case (2 o')
    with run show ?thesis by (intro option_cash [OF ctx m 2]) (simp add: settleProduct_def)
  next
    case 3
    with run show ?thesis by (intro spot_cash [OF ctx m 3]) (simp add: settleProduct_def)
  qed
qed

lemma settleTrade_cash:
  assumes "settleTrade e d = Inr d'" and "te_eventId e \<notin> set (db_processed d)"
  shows "\<exists>b s. findRow (db_orders d) (te_buyOrderId e) = Some b \<and>
    findRow (db_orders d) (te_sellOrderId e) = Some s \<and> cashSettled e (sideCash e b s d) (sideHold e b s) d d'"
proof (rule settleTrade_Inr [OF assms(1)])
  fix ctx b s d1
  assume a: "lockedCtx (parties e) d ctx" "findRow (db_orders d) (te_buyOrderId e) = Some b"
    "findRow (db_orders d) (te_sellOrderId e) = Some s"
    "settleProduct ctx e b s (d\<lparr>db_processed := db_processed d @ [te_eventId e]\<rparr>) = Inr d1" "d' = updateMarket e d1"
  from updateMarket_frame obtain c where "updateMarket e d1 = d1\<lparr>db_candles := c\<rparr>" by blast
  with a(5) have "moneyEq d1 d'" by (simp add: moneyEq_def)
  moreover have "moneyEq d d" by (simp add: moneyEq_def)
  ultimately have "cashSettled e (sideCash e b s d) (sideHold e b s) d d'"
    using cashSettled_cong product_cash [OF a(1,4)] by blast
  with a show ?thesis by blast
qed (use assms(2) in blast)

text \<open>
  C5. A trade moves exactly the money it should. When a trade event that was not settled before is
  settled, for each party: the new ledger rows lead step by step from its old balance to its new one;
  its equity (balance less debt) changes by the price of the shares, the option premium or the realised
  future profit of its sides, less one fee per side unless it is a bot; its hold falls by what its
  orders had reserved for this quantity. No other account changes and no other account gets a row.
\<close>

theorem settle_cash_exact:
  assumes "settleTrade e d = Inr d'" and "te_eventId e \<notin> set (db_processed d)"
  shows "\<exists>b s. findRow (db_orders d) (te_buyOrderId e) = Some b \<and>
    findRow (db_orders d) (te_sellOrderId e) = Some s \<and> cashSettled e (sideCash e b s d) (sideHold e b s) d d'"
  by (rule settleTrade_cash [OF assms])

definition demoOrderRow :: "string \<Rightarrow> order_side \<Rightarrow> int \<Rightarrow> order_row" where
  "demoOrderRow account side hold = \<lparr>or_accountId = account, or_symbol = ''KABU'', or_side = side, or_type = LIMIT,
     or_price = Some 100, or_qty = 10, or_filledQty = 0, or_status = OPEN, or_holdPerUnit = hold,
     or_positionSide = None, or_createdAt = 1\<rparr>"

definition demoUser :: "bool \<Rightarrow> string \<Rightarrow> user_row" where
  "demoUser isBot nickname = \<lparr>us_isBot = isBot, us_isAdmin = False, us_email = None, us_nickname = nickname, us_passwordHash = ''x''\<rparr>"

text \<open>A buys 4 of the 10 shares B offers at 100.\<close>

definition demoBank :: db where
  "demoBank = \<lparr>db_users = [(''ua'', demoUser False ''ua''), (''ub'', demoUser True ''ub'')],
     db_accounts = [(''A'', \<lparr>ac_userId = ''ua'', ac_balance = 5000, ac_holdAmount = 1010, ac_version = 1, ac_fencingToken = 0\<rparr>),
       (''B'', \<lparr>ac_userId = ''ub'', ac_balance = 200, ac_holdAmount = 0, ac_version = 1, ac_fencingToken = 0\<rparr>)],
     db_holdings = [((''B'', ''KABU''), \<lparr>ho_qty = 12, ho_holdQty = 10, ho_costBasis = 1100\<rparr>)],
     db_ledger = [], db_pnl = [], db_processed = [],
     db_orders = [(''o1'', demoOrderRow ''A'' BUY 101), (''o2'', demoOrderRow ''B'' SELL 0)],
     db_trades = [(''t1'', \<lparr>tr_symbol = ''KABU'', tr_price = 100, tr_qty = 4, tr_buyOrderId = ''o1'', tr_sellOrderId = ''o2'',
       tr_buyerAccountId = ''A'', tr_sellerAccountId = ''B'', tr_takerSide = BUY, tr_createdAt = 1800000000123\<rparr>)],
     db_claimed = [], db_outbox = [], db_markers = [], db_orderOutbox = [], db_symbols = [], db_positions = [],
     db_debts = [], db_realized = [], db_series = [], db_marginCalls = [],
       db_liquidations = [], db_settlements = [], db_epochs = [], db_references = [], db_candles = [], db_conditionals = [], db_brackets = []\<rparr>"

definition demoTrade :: trade_executed where
  "demoTrade = \<lparr>te_eventId = ''t1'', te_tradeId = ''t1'', te_symbol = ''KABU'', te_price = 100, te_qty = 4,
     te_buyOrderId = ''o1'', te_sellOrderId = ''o2'', te_buyerAccountId = ''A'', te_sellerAccountId = ''B'',
     te_takerSide = BUY, te_ts = 1800000000123\<rparr>"

definition isInr :: "'a + 'b \<Rightarrow> bool" where
  "isInr r = (case r of Inl e \<Rightarrow> False | Inr x \<Rightarrow> True)"

lemma isInr_iff: "isInr r \<longleftrightarrow> (\<exists>x. r = Inr x)"
  by (cases r) (auto simp: isInr_def)

lemma demo_settles: "\<exists>d'. settleTrade demoTrade demoBank = Inr d'"
  unfolding isInr_iff [symmetric] by code_simp

theorem settle_cash_exact_witness:
  "\<exists>d'. settleTrade demoTrade demoBank = Inr d' \<and>
     (\<exists>b s. findRow (db_orders demoBank) ''o1'' = Some b \<and> findRow (db_orders demoBank) ''o2'' = Some s \<and>
       cashSettled demoTrade (sideCash demoTrade b s demoBank) (sideHold demoTrade b s) demoBank d')"
proof -
  obtain d' where d': "settleTrade demoTrade demoBank = Inr d'" using demo_settles by blast
  have "te_eventId demoTrade \<notin> set (db_processed demoBank)" by (simp add: demoTrade_def demoBank_def)
  from settle_cash_exact [OF d' this] show ?thesis using d' by (auto simp: demoTrade_def)
qed

end
