(* ===== verification/Settlement_Flow_Props.thy ===== *)
theory Settlement_Flow_Props
  imports Settlement_Props Futures_Props
begin

text \<open>
  Settlement beyond the cash: shares and open positions are conserved, an event settles exactly once,
  a closed order gives back what it still held, and the consumer acknowledges only settled events.
\<close>

section \<open>What each step leaves alone\<close>

definition cashOnly :: "db \<Rightarrow> db \<Rightarrow> bool" where
  "cashOnly d d' \<longleftrightarrow>
     d' = d\<lparr>db_accounts := db_accounts d', db_ledger := db_ledger d', db_debts := db_debts d'\<rparr>"

lemma cashOnly_refl [simp]: "cashOnly d d"
  by (simp add: cashOnly_def)

lemma cashOnly_trans: "cashOnly a b \<Longrightarrow> cashOnly b c \<Longrightarrow> cashOnly a c"
  by (cases a; cases b; cases c) (simp add: cashOnly_def)

lemma cashOnly_upd: "cashOnly d (d\<lparr>db_accounts := a, db_ledger := l, db_debts := b\<rparr>)"
  by (cases d) (simp add: cashOnly_def)

lemma cashOnly_fields:
  assumes "cashOnly d d'"
  shows "db_holdings d' = db_holdings d" "db_positions d' = db_positions d" "db_orders d' = db_orders d"
    "db_processed d' = db_processed d" "db_trades d' = db_trades d" "db_pnl d' = db_pnl d"
    "db_realized d' = db_realized d" "db_users d' = db_users d"
  by (subst assms [unfolded cashOnly_def], simp)+

lemma moved_cashOnly: "moved i b x h d d' \<Longrightarrow> cashOnly d d'"
  unfolding moved_def using cashOnly_upd by fast

lemma cash_of_fold_cashOnly:
  assumes "foldE step xs d = Inr d'" and "\<And>x s s'. x \<in> set xs \<Longrightarrow> step x s = Inr s' \<Longrightarrow> cashOnly s s'"
  shows "cashOnly d d'"
  using assms
proof (induction xs arbitrary: d)
  case (Cons x xs)
  then obtain s where s: "step x d = Inr s" "foldE step xs s = Inr d'" by (auto simp: bindE_eq_Inr_iff)
  from Cons.prems(2) [OF _ s(1)] have "cashOnly d s" by simp
  moreover from Cons.IH [OF s(2)] Cons.prems(2) have "cashOnly s d'" by (meson list.set_intros(2))
  ultimately show ?case by (rule cashOnly_trans)
qed simp

lemma update_cashOnly:
  assumes "lockedCtx ids d0 ctx" "cx_update ctx i b h d = Inr d'"
  shows "cashOnly d d'"
proof -
  from assms have "updatePessimistic (cx_accounts ctx) i b h d = Inr d'" by (simp add: lockedCtx_def)
  then have "d' = d \<or> (\<exists>a. d' = d\<lparr>db_accounts := a\<rparr>)"
    by (auto simp: updatePessimistic_def writeAccount_Inr split: option.splits)
  moreover have "cashOnly d (d\<lparr>db_accounts := a\<rparr>)" for a by (cases d) (simp add: cashOnly_def)
  ultimately show ?thesis by auto
qed

lemma fees_cashOnly: "settleTradingFees e i b h d = Inr (b', d') \<Longrightarrow> cashOnly d d'"
  using settleTradingFees_spec [of e i b h d b' d'] by (cases d) (auto simp: cashOnly_def)

lemma createLedger_cashOnly: "cashOnly d (createLedger l d)"
  by (cases d) (simp add: cashOnly_def createLedger_def)

lemma writeDebt_cashOnly: "writeDebt i x d = Inr d' \<Longrightarrow> cashOnly d d'"
  by (cases d) (simp add: cashOnly_def writeDebt_Inr)

lemmas cashOnly_steps = fees_cashOnly createLedger_cashOnly writeDebt_cashOnly

lemma spotCash_cashOnly:
  assumes "lockedCtx ids d0 ctx" "spotCash ctx e holds (i, x) d = Inr d'"
  shows "cashOnly d d'"
proof -
  from assms(2) obtain b s where "settleTradingFees e i (as_balance (snapshotOf ctx i) + x)
      (as_holdAmount (snapshotOf ctx i) + getOr0 holds i) d = Inr (b, s)"
    and u: "cx_update ctx i b (as_holdAmount (snapshotOf ctx i) + getOr0 holds i) s = Inr d'"
    unfolding spotCash_def Let_def prod.case by (auto elim!: bindE_InrE)
  with update_cashOnly [OF assms(1) u] show ?thesis by (blast intro: cashOnly_trans fees_cashOnly)
qed

lemma optionCash_cashOnly:
  assumes "lockedCtx ids d0 ctx" "optionCash ctx e rel (i, x) d = Inr d'"
  shows "cashOnly d d'"
proof -
  let ?b = "as_balance (snapshotOf ctx i) + x"
  let ?h = "as_holdAmount (snapshotOf ctx i) - getOr0 rel i"
  define d1 where "d1 = (if x \<noteq> 0
    then createLedger (ledgerRow i (x) ?b ''OPTION_PREMIUM'' (te_tradeId e)) d else d)"
  from assms(2) obtain b s where f: "settleTradingFees e i ?b ?h d1 = Inr (b, s)"
    and u: "cx_update ctx i b ?h s = Inr d'"
    unfolding optionCash_def Let_def prod.case d1_def by (auto elim!: bindE_InrE)
  have "cashOnly d d1" by (simp add: d1_def createLedger_cashOnly)
  then show ?thesis using fees_cashOnly [OF f] update_cashOnly [OF assms(1) u] cashOnly_trans by blast
qed

lemma futuresCash_cashOnly:
  assumes "lockedCtx ids d0 ctx" "futuresCash ctx e realized (i, x) d = Inr d'"
  shows "cashOnly d d'"
proof -
  let ?h = "as_holdAmount (snapshotOf ctx i) - x"
  define cash where "cash = applyFuturesCash \<lparr>fc_balance = as_balance (snapshotOf ctx i),
    fc_holdAmount = ?h, fc_debt = debtOf d i\<rparr> (getOr0 realized i)"
  define d1 where "d1 = (if fr_ledgerDelta cash \<noteq> 0
    then createLedger (ledgerRow i (fr_ledgerDelta cash) (fr_balance cash) ''FUTURES_PNL'' (te_tradeId e)) d else d)"
  from assms(2) obtain b s d2 where
    w: "(if fr_debt cash \<noteq> debtOf d i then writeDebt i (fr_debt cash) d1 else Inr d1) = Inr d2"
    and f: "settleTradingFees e i (fr_balance cash) ?h d2 = Inr (b, s)"
    and u: "cx_update ctx i b ?h s = Inr d'"
    unfolding futuresCash_def Let_def prod.case d1_def cash_def by (auto elim!: bindE_InrE)
  have "cashOnly d d1" by (simp add: d1_def createLedger_cashOnly)
  moreover have "cashOnly d1 d2" using w writeDebt_cashOnly by (auto split: if_splits)
  ultimately show ?thesis using fees_cashOnly [OF f] update_cashOnly [OF assms(1) u] cashOnly_trans by blast
qed

section \<open>The products as sequences of steps\<close>

lemma advance_fields:
  assumes "foldE (advanceOrder e) xs d = Inr d'"
  shows "db_holdings d' = db_holdings d" "db_positions d' = db_positions d"
    "db_processed d' = db_processed d" "db_trades d' = db_trades d" "db_pnl d' = db_pnl d"
    "db_accounts d' = db_accounts d" "db_realized d' = db_realized d"
proof -
  from advance_frame [OF assms] obtain os where "d' = d\<lparr>db_orders := os\<rparr>" by blast
  then show "db_holdings d' = db_holdings d" "db_positions d' = db_positions d"
    "db_processed d' = db_processed d" "db_trades d' = db_trades d" "db_pnl d' = db_pnl d"
    "db_accounts d' = db_accounts d" "db_realized d' = db_realized d" by simp_all
qed

abbreviation orderSteps :: "trade_executed \<Rightarrow> order_row \<Rightarrow> order_row \<Rightarrow> (string \<times> order_row) list" where
  "orderSteps e b s \<equiv> [(te_buyOrderId e, b), (te_sellOrderId e, s)]"

lemma spot_flow:
  assumes "lockedCtx ids d0 ctx" "settleSpotTrade ctx e b s d = Inr d'"
  obtains d1 d2 where "cashOnly d d1" "spotHoldings e (te_price e * te_qty e) d1 = Inr d2"
    "foldE (advanceOrder e) (orderSteps e b s) d2 = Inr d'"
proof -
  let ?cost = "te_price e * te_qty e"
  let ?deltas = "addTo (te_sellerAccountId e) ?cost (addTo (te_buyerAccountId e) (- ?cost) [])"
  let ?holds = "addTo (te_sellerAccountId e) 0 (addTo (te_buyerAccountId e) (- (or_holdPerUnit b * te_qty e)) [])"
  from assms(2) obtain d1 d2 where
    c: "foldE (spotCash ctx e ?holds) ?deltas (spotLedger ctx e ?cost d) = Inr d1"
    and h: "spotHoldings e ?cost d1 = Inr d2" and a: "foldE (advanceOrder e) (orderSteps e b s) d2 = Inr d'"
    unfolding settleSpotTrade_def Let_def by (elim bindE_InrE)
  have "cashOnly d (spotLedger ctx e ?cost d)"
    unfolding spotLedger_def Let_def by (blast intro: cashOnly_trans createLedger_cashOnly)
  moreover have "cashOnly (spotLedger ctx e ?cost d) d1"
    by (rule cash_of_fold_cashOnly [OF c]) (metis prod.exhaust spotCash_cashOnly [OF assms(1)])
  ultimately have "cashOnly d d1" by (rule cashOnly_trans)
  then show ?thesis by (rule that [OF _ h a])
qed

lemma futures_flow:
  assumes "lockedCtx ids d0 ctx" "settleFuturesTrade ctx f e b s d = Inr d'"
  obtains r z t r' z' d1 d2 where
    "futuresLeg f e (tradeLegs e b s ! 0) ([], [], d) = Inr (r, z, t)"
    "futuresLeg f e (tradeLegs e b s ! Suc 0) (r, z, t) = Inr (r', z', d1)"
    "cashOnly d1 d2" "foldE (advanceOrder e) (orderSteps e b s) d2 = Inr d'"
proof -
  from assms(2) obtain release realized d1 d2 where
    legs: "foldE (futuresLeg f e) [tradeLegs e b s ! 0, tradeLegs e b s ! Suc 0] ([], [], d) = Inr (release, realized, d1)"
    and c: "foldE (futuresCash ctx e realized) release d1 = Inr d2"
    and a: "foldE (advanceOrder e) (orderSteps e b s) d2 = Inr d'"
    unfolding settleFuturesTrade_def tradeLegs_two
    by (elim bindE_InrE) (auto elim: bindE_InrE)
  have "cashOnly d1 d2"
    by (rule cash_of_fold_cashOnly [OF c]) (metis prod.exhaust futuresCash_cashOnly [OF assms(1)])
  then show ?thesis using legs a that by (auto simp: bindE_eq_Inr_iff)
qed

lemma option_flow:
  assumes "lockedCtx ids d0 ctx" "settleOptionTrade ctx f e b s d = Inr d'"
  obtains k r z t r' z' d1 d2 where
    "optionLeg f k e (tradeLegs e b s ! 0) ([], [], d) = Inr (r, z, t)"
    "optionLeg f k e (tradeLegs e b s ! Suc 0) (r, z, t) = Inr (r', z', d1)"
    "cashOnly d1 d2" "foldE (advanceOrder e) (orderSteps e b s) d2 = Inr d'"
proof -
  from assms(2) obtain k cash release d1 d2 where
    legs: "foldE (optionLeg f k e) [tradeLegs e b s ! 0, tradeLegs e b s ! Suc 0] ([], [], d) = Inr (cash, release, d1)"
    and c: "foldE (optionCash ctx e release) cash d1 = Inr d2"
    and a: "foldE (advanceOrder e) (orderSteps e b s) d2 = Inr d'"
    unfolding settleOptionTrade_def tradeLegs_two
    by (auto split: option.splits elim!: bindE_InrE simp del: foldE.simps)
  have "cashOnly d1 d2"
    by (rule cash_of_fold_cashOnly [OF c]) (metis prod.exhaust optionCash_cashOnly [OF assms(1)])
  then show ?thesis using legs a that by (auto simp: bindE_eq_Inr_iff)
qed

section \<open>Shares and open positions\<close>

definition sharesOf :: "string \<Rightarrow> db \<Rightarrow> int" where
  "sharesOf s d = sum_list (map (\<lambda>r. if snd (fst r) = s then ho_qty (snd r) else 0) (db_holdings d))"

definition basisOf :: "db \<Rightarrow> int" where
  "basisOf d = sum_list (map (\<lambda>r. ho_costBasis (snd r)) (db_holdings d))"

definition netOpen :: "string \<Rightarrow> (string \<times> string \<times> row_side, position_row) rows \<Rightarrow> int" where
  "netOpen s ps = sum_list (map (\<lambda>r. if fst (snd (fst r)) = s then po_qty (snd r) else 0) ps)"

lemma spotHoldings_result:
  assumes "spotHoldings e cost d = Inr d'"
  obtains h where
    "findRow (putRow (te_buyerAccountId e, te_symbol e)
        (holdingAfterBuy (findRow (db_holdings d) (te_buyerAccountId e, te_symbol e)) (te_qty e) cost) (db_holdings d))
        (te_sellerAccountId e, te_symbol e) = Some h"
    "db_holdings d' = putRow (te_sellerAccountId e, te_symbol e)
       \<lparr>ho_qty = ho_qty h - te_qty e, ho_holdQty = ho_holdQty h - te_qty e,
        ho_costBasis = ho_costBasis h - sr_basisReduction (realizedPnlForSale (ho_qty h) (ho_costBasis h) (te_qty e) (te_price e))\<rparr>
       (putRow (te_buyerAccountId e, te_symbol e)
        (holdingAfterBuy (findRow (db_holdings d) (te_buyerAccountId e, te_symbol e)) (te_qty e) cost) (db_holdings d))"
    "db_pnl d' = putRow (te_tradeId e)
       \<lparr>pn_accountId = te_sellerAccountId e, pn_symbol = te_symbol e, pn_qty = te_qty e, pn_price = te_price e,
        pn_costBasis = sr_basisReduction (realizedPnlForSale (ho_qty h) (ho_costBasis h) (te_qty e) (te_price e)),
        pn_realized = sr_realized (realizedPnlForSale (ho_qty h) (ho_costBasis h) (te_qty e) (te_price e)),
        pn_tradedAt = te_ts e\<rparr> (db_pnl d)"
  using assms unfolding spotHoldings_def Let_def
  by (auto simp: writeHolding_Inr createPnl_Inr elim!: bindE_InrE split: option.splits)

lemma holdingAfterBuy_amounts:
  "ho_qty (holdingAfterBuy h q c) = (case h of None \<Rightarrow> 0 | Some x \<Rightarrow> ho_qty x) + q"
  "ho_costBasis (holdingAfterBuy h q c) = (case h of None \<Rightarrow> 0 | Some x \<Rightarrow> ho_costBasis x) + c"
  by (simp_all add: holdingAfterBuy_def split: option.splits)

lemma spot_shares:
  assumes h: "spotHoldings e (te_price e * te_qty e) d = Inr d'" and u: "uniqueKeys (db_holdings d)"
  shows "sharesOf s d' = sharesOf s d" and "uniqueKeys (db_holdings d')"
    and "\<exists>p. findRow (db_pnl d') (te_tradeId e) = Some p \<and>
      pn_realized p = te_price e * te_qty e - pn_costBasis p \<and> basisOf d' = basisOf d + pn_realized p"
proof -
  define t where "t = putRow (te_buyerAccountId e, te_symbol e) (holdingAfterBuy (findRow (db_holdings d)
        (te_buyerAccountId e, te_symbol e)) (te_qty e) (te_price e * te_qty e)) (db_holdings d)"
  from h obtain x where x: "findRow t (te_sellerAccountId e, te_symbol e) = Some x"
    and d': "db_holdings d' = putRow (te_sellerAccountId e, te_symbol e)
       \<lparr>ho_qty = ho_qty x - te_qty e, ho_holdQty = ho_holdQty x - te_qty e,
        ho_costBasis = ho_costBasis x - sr_basisReduction (realizedPnlForSale (ho_qty x) (ho_costBasis x) (te_qty e) (te_price e))\<rparr> t"
    and p: "db_pnl d' = putRow (te_tradeId e)
       \<lparr>pn_accountId = te_sellerAccountId e, pn_symbol = te_symbol e, pn_qty = te_qty e, pn_price = te_price e,
        pn_costBasis = sr_basisReduction (realizedPnlForSale (ho_qty x) (ho_costBasis x) (te_qty e) (te_price e)),
        pn_realized = sr_realized (realizedPnlForSale (ho_qty x) (ho_costBasis x) (te_qty e) (te_price e)),
        pn_tradedAt = te_ts e\<rparr> (db_pnl d)"
    unfolding t_def by (rule spotHoldings_result)
  have ut: "uniqueKeys t" unfolding t_def using u by (rule rows.wf_put)
  show "uniqueKeys (db_holdings d')" unfolding d' by (rule rows.wf_put [OF ut])
  have qt: "sharesOf s (d\<lparr>db_holdings := t\<rparr>) = sharesOf s d + (if te_symbol e = s then te_qty e else 0)"
    and bt: "basisOf (d\<lparr>db_holdings := t\<rparr>) = basisOf d + te_price e * te_qty e"
    unfolding sharesOf_def basisOf_def t_def
    by (simp_all add: sum_putRow [OF u] holdingAfterBuy_amounts split: option.splits)
  have real: "sr_realized r = te_price e * te_qty e - sr_basisReduction r"
    if "r = realizedPnlForSale (ho_qty x) (ho_costBasis x) (te_qty e) (te_price e)" for r
    unfolding that realizedPnlForSale_def Let_def by simp
  have "sharesOf s d' = sharesOf s (d\<lparr>db_holdings := t\<rparr>) - (if te_symbol e = s then te_qty e else 0)"
    unfolding sharesOf_def d' sum_putRow [OF ut] by (simp add: x)
  then show "sharesOf s d' = sharesOf s d" by (simp add: qt)
  have "basisOf d' = basisOf (d\<lparr>db_holdings := t\<rparr>)
      - sr_basisReduction (realizedPnlForSale (ho_qty x) (ho_costBasis x) (te_qty e) (te_price e))"
    unfolding basisOf_def d' sum_putRow [OF ut] by (simp add: x)
  then have "basisOf d' = basisOf d + sr_realized (realizedPnlForSale (ho_qty x) (ho_costBasis x) (te_qty e) (te_price e))"
    by (simp add: bt real)
  then show "\<exists>p. findRow (db_pnl d') (te_tradeId e) = Some p \<and>
      pn_realized p = te_price e * te_qty e - pn_costBasis p \<and> basisOf d' = basisOf d + pn_realized p"
    unfolding p by (simp add: real)
qed

text \<open>A leg on a net row moves the row by its signed quantity.\<close>

definition positionsOk :: "(string \<times> string \<times> row_side, position_row) rows \<Rightarrow> bool" where
  "positionsOk ps \<longleftrightarrow> uniqueKeys ps \<and> (\<forall>k p. findRow ps k = Some p \<longrightarrow> positionCheck (snd (snd k)) p)"

lemma positionBefore_ok: "positionsOk ps \<Longrightarrow> posOk (positionBefore (findRow ps k))"
proof (cases "findRow ps k")
  case (Some p)
  assume "positionsOk ps"
  with Some have "positionCheck (snd (snd k)) p" unfolding positionsOk_def by blast
  with Some show ?thesis by (simp add: positionBefore_def posOk_def positionCheck_def)
qed (simp add: positionBefore_def posOk_def)

lemma netOpen_put:
  assumes "uniqueKeys ps"
  shows "netOpen s (putRow k p ps) = netOpen s ps +
    (if fst (snd k) = s then po_qty p - fp_qty (positionBefore (findRow ps k)) else 0)"
  unfolding netOpen_def sum_putRow [OF assms]
  by (cases "findRow ps k") (auto simp: positionBefore_def)

lemma leg_moves:
  assumes "positionsOk ps" "0 < te_qty e" "or_positionSide (lg_order l) = None"
  shows "po_qty (legPosition f e l ps) - fp_qty (positionBefore (findRow ps (legKey e l))) = signedQty (lg_side l) (te_qty e)"
  using applyFutureFill_qty [OF assms(2) positionBefore_ok [OF assms(1)]] assms(3)
  by (simp add: legPosition_def legFill_def positionAfter_def Let_def)

lemma option_moves:
  assumes "positionsOk ps" "0 < te_qty e"
  shows "po_qty (optionPosition f k e l ps) - fp_qty (positionBefore (findRow ps (optionKey e l))) =
    signedQty (lg_side l) (te_qty e)"
  using applyFutureFill_qty [OF assms(2) positionBefore_ok [OF assms(1)]]
  by (simp add: optionPosition_def optionFill_def positionAfter_def Let_def)

lemma positionsOk_put: "positionsOk ps \<Longrightarrow> positionCheck (snd (snd k)) p \<Longrightarrow> positionsOk (putRow k p ps)"
  unfolding positionsOk_def by (auto simp: rows.look_put_iff rows.wf_put split: if_splits)

lemma futuresLeg_check:
  "futuresLeg f e l (r, z, d) = Inr (r', z', d') \<Longrightarrow>
    positionCheck (snd (snd (legKey e l))) (legPosition f e l (db_positions d))"
  unfolding futuresLeg_def Let_def prod.case by (auto simp: writePosition_Inr elim!: bindE_InrE)

lemma optionLeg_check:
  "optionLeg f k e l (r, z, d) = Inr (r', z', d') \<Longrightarrow>
    positionCheck (snd (snd (optionKey e l))) (optionPosition f k e l (db_positions d))"
  unfolding optionLeg_def Let_def prod.case by (auto simp: writePosition_Inr elim!: bindE_InrE)

lemma futuresLeg_net:
  assumes l: "futuresLeg f e l (r, z, d) = Inr (r', z', d')" and ok: "positionsOk (db_positions d)" "0 < te_qty e"
    and n: "or_positionSide (lg_order l) = None"
  shows "positionsOk (db_positions d') \<and> netOpen s (db_positions d') =
    netOpen s (db_positions d) + (if te_symbol e = s then signedQty (lg_side l) (te_qty e) else 0)"
proof -
  from futuresLeg_frame [OF l] obtain rz where
    "d' = d\<lparr>db_positions := putRow (legKey e l) (legPosition f e l (db_positions d)) (db_positions d), db_realized := rz\<rparr>"
    by blast
  then have "db_positions d' = putRow (legKey e l) (legPosition f e l (db_positions d)) (db_positions d)" by simp
  moreover have "fst (snd (legKey e l)) = te_symbol e" by (simp add: legKey_def)
  ultimately show ?thesis
    using positionsOk_put [OF ok(1) futuresLeg_check [OF l]] leg_moves [OF ok n] ok(1)
    by (simp add: netOpen_put positionsOk_def)
qed

lemma optionLeg_net:
  assumes l: "optionLeg f k e l (r, z, d) = Inr (r', z', d')" and ok: "positionsOk (db_positions d)" "0 < te_qty e"
  shows "positionsOk (db_positions d') \<and> netOpen s (db_positions d') =
    netOpen s (db_positions d) + (if te_symbol e = s then signedQty (lg_side l) (te_qty e) else 0)"
proof -
  from optionLeg_frame [OF l] obtain rz where
    "d' = d\<lparr>db_positions := putRow (optionKey e l) (optionPosition f k e l (db_positions d)) (db_positions d), db_realized := rz\<rparr>"
    by blast
  then have "db_positions d' = putRow (optionKey e l) (optionPosition f k e l (db_positions d)) (db_positions d)" by simp
  moreover have "fst (snd (optionKey e l)) = te_symbol e" by (simp add: optionKey_def)
  ultimately show ?thesis
    using positionsOk_put [OF ok(1) optionLeg_check [OF l]] option_moves [OF ok] ok(1)
    by (simp add: netOpen_put positionsOk_def)
qed

lemma futuresLeg_fields:
  assumes "futuresLeg f e l (r, z, d) = Inr (r', z', d')"
  shows "db_holdings d' = db_holdings d" "db_processed d' = db_processed d" "db_trades d' = db_trades d"
    "db_orders d' = db_orders d"
  using futuresLeg_frame [OF assms] by auto

lemma optionLeg_fields:
  assumes "optionLeg f k e l (r, z, d) = Inr (r', z', d')"
  shows "db_holdings d' = db_holdings d" "db_processed d' = db_processed d" "db_trades d' = db_trades d"
    "db_orders d' = db_orders d"
  using optionLeg_frame [OF assms] by auto

lemma spotHoldings_fields:
  assumes "spotHoldings e c d = Inr d'"
  shows "db_positions d' = db_positions d" "db_processed d' = db_processed d" "db_trades d' = db_trades d"
    "db_orders d' = db_orders d"
  using assms unfolding spotHoldings_def Let_def
  by (auto simp: writeHolding_Inr createPnl_Inr elim!: bindE_InrE split: option.splits)

text \<open>Which product the event is for.\<close>

lemma product_cases:
  assumes "settleProduct ctx e b s d = Inr d'"
  obtains (future) f where "isFuture (te_symbol e)" "settleFuturesTrade ctx f e b s d = Inr d'"
  | (option) f where "\<not> isFuture (te_symbol e)" "isOption (te_symbol e)" "settleOptionTrade ctx f e b s d = Inr d'"
  | (spot) "\<not> isFuture (te_symbol e)" "\<not> isOption (te_symbol e)" "settleSpotTrade ctx e b s d = Inr d'"
  using assms unfolding settleProduct_def isFuture_iff isOption_iff by (auto split: option.splits)

lemma product_flow:
  assumes ctx: "lockedCtx ids d0 ctx" and run: "settleProduct ctx e b s d = Inr d'"
  obtains d2 where "db_processed d2 = db_processed d" "db_trades d2 = db_trades d" "db_orders d2 = db_orders d"
    "foldE (advanceOrder e) (orderSteps e b s) d2 = Inr d'"
  using run
proof (cases rule: product_cases)
  case (future f)
  then obtain r z t r' z' d1 d2 where l: "futuresLeg f e (tradeLegs e b s ! 0) ([], [], d) = Inr (r, z, t)"
    "futuresLeg f e (tradeLegs e b s ! Suc 0) (r, z, t) = Inr (r', z', d1)"
    and c: "cashOnly d1 d2" and a: "foldE (advanceOrder e) (orderSteps e b s) d2 = Inr d'"
    by (elim futures_flow [OF ctx])
  show ?thesis
    by (rule that [OF _ _ _ a]) (simp_all add: cashOnly_fields [OF c] futuresLeg_fields [OF l(2)] futuresLeg_fields [OF l(1)])
next
  case (option f)
  then obtain k r z t r' z' d1 d2 where l: "optionLeg f k e (tradeLegs e b s ! 0) ([], [], d) = Inr (r, z, t)"
    "optionLeg f k e (tradeLegs e b s ! Suc 0) (r, z, t) = Inr (r', z', d1)"
    and c: "cashOnly d1 d2" and a: "foldE (advanceOrder e) (orderSteps e b s) d2 = Inr d'"
    by (elim option_flow [OF ctx])
  show ?thesis
    by (rule that [OF _ _ _ a]) (simp_all add: cashOnly_fields [OF c] optionLeg_fields [OF l(2)] optionLeg_fields [OF l(1)])
next
  case spot
  then obtain d1 d2 where c: "cashOnly d d1" and h: "spotHoldings e (te_price e * te_qty e) d1 = Inr d2"
    and a: "foldE (advanceOrder e) (orderSteps e b s) d2 = Inr d'"
    by (elim spot_flow [OF ctx])
  show ?thesis
    by (rule that [OF _ _ _ a]) (simp_all add: cashOnly_fields [OF c] spotHoldings_fields [OF h])
qed

section \<open>What a trade does to the assets and the orders\<close>

definition advanced :: "int \<Rightarrow> order_row \<Rightarrow> order_row" where
  "advanced q o' = o'\<lparr>or_filledQty := or_filledQty o' + q,
     or_status := (if or_filledQty o' + q \<ge> or_qty o' then FILLED else PARTIAL)\<rparr>"

lemma advanceOrder_Inr:
  "advanceOrder e (i, o') d = Inr d' \<Longrightarrow> findRow (db_orders d) i = Some o' \<Longrightarrow>
    isActive (or_status o') \<and> or_filledQty o' + te_qty e \<le> or_qty o' \<and>
    d' = d\<lparr>db_orders := putRow i (advanced (te_qty e) o') (db_orders d)\<rparr>"
  by (auto simp: advanceOrder_def advanced_def bindE_eq_Inr_iff updateOrder_Inr stateAfterTrade_Inr)

lemma orders_advance:
  assumes a: "foldE (advanceOrder e) (orderSteps e b s) d = Inr d'"
    and o': "findRow (db_orders d) (te_buyOrderId e) = Some b" "findRow (db_orders d) (te_sellOrderId e) = Some s"
    and ne: "te_buyOrderId e \<noteq> te_sellOrderId e"
  shows "isActive (or_status b) \<and> isActive (or_status s) \<and> or_filledQty b + te_qty e \<le> or_qty b \<and>
    or_filledQty s + te_qty e \<le> or_qty s \<and>
    db_orders d' = putRow (te_sellOrderId e) (advanced (te_qty e) s)
      (putRow (te_buyOrderId e) (advanced (te_qty e) b) (db_orders d))"
proof -
  from a obtain t where t: "advanceOrder e (te_buyOrderId e, b) d = Inr t"
    "advanceOrder e (te_sellOrderId e, s) t = Inr d'"
    by (auto simp: bindE_eq_Inr_iff)
  note 1 = advanceOrder_Inr [OF t(1) o'(1)]
  with o'(2) ne have "findRow (db_orders t) (te_sellOrderId e) = Some s" by simp
  from advanceOrder_Inr [OF t(2) this] 1 show ?thesis by simp
qed

definition assetsMoved :: "trade_executed \<Rightarrow> order_row \<Rightarrow> order_row \<Rightarrow> db \<Rightarrow> db \<Rightarrow> bool" where
  "assetsMoved e b s d d' \<longleftrightarrow>
     (if isFuture (te_symbol e) \<or> isOption (te_symbol e)
      then db_holdings d' = db_holdings d \<and>
        ((isFuture (te_symbol e) \<and> (or_positionSide b \<noteq> None \<or> or_positionSide s \<noteq> None)) \<or>
         (\<forall>x. netOpen x (db_positions d') = netOpen x (db_positions d)))
      else db_positions d' = db_positions d \<and> (\<forall>x. sharesOf x d' = sharesOf x d) \<and>
        (\<exists>p. findRow (db_pnl d') (te_tradeId e) = Some p \<and>
           pn_realized p = te_price e * te_qty e - pn_costBasis p \<and> basisOf d' = basisOf d + pn_realized p))"

lemma product_assets:
  assumes ctx: "lockedCtx ids d0 ctx" and run: "settleProduct ctx e b s d = Inr d'"
    and ok: "uniqueKeys (db_holdings d)" "positionsOk (db_positions d)" "0 < te_qty e"
  shows "assetsMoved e b s d d'"
  using run
proof (cases rule: product_cases)
  case (future f)
  then obtain r z t r' z' d1 d2 where l: "futuresLeg f e (tradeLegs e b s ! 0) ([], [], d) = Inr (r, z, t)"
    "futuresLeg f e (tradeLegs e b s ! Suc 0) (r, z, t) = Inr (r', z', d1)"
    and c: "cashOnly d1 d2" and a: "foldE (advanceOrder e) (orderSteps e b s) d2 = Inr d'"
    by (elim futures_flow [OF ctx])
  have "db_holdings d' = db_holdings d" and ps: "db_positions d' = db_positions d1"
    by (simp_all add: advance_fields [OF a] cashOnly_fields [OF c] futuresLeg_fields [OF l(2)] futuresLeg_fields [OF l(1)])
  moreover have "netOpen x (db_positions d') = netOpen x (db_positions d)"
    if "or_positionSide b = None" "or_positionSide s = None" for x
    using futuresLeg_net [OF l(1) ok(2,3), of x] futuresLeg_net [OF l(2) _ ok(3), of x] that ps
    by (simp add: signedQty_def)
  ultimately show ?thesis using future(1) by (auto simp: assetsMoved_def)
next
  case (option f)
  then obtain k r z t r' z' d1 d2 where l: "optionLeg f k e (tradeLegs e b s ! 0) ([], [], d) = Inr (r, z, t)"
    "optionLeg f k e (tradeLegs e b s ! Suc 0) (r, z, t) = Inr (r', z', d1)"
    and c: "cashOnly d1 d2" and a: "foldE (advanceOrder e) (orderSteps e b s) d2 = Inr d'"
    by (elim option_flow [OF ctx])
  have "db_holdings d' = db_holdings d" and ps: "db_positions d' = db_positions d1"
    by (simp_all add: advance_fields [OF a] cashOnly_fields [OF c] optionLeg_fields [OF l(2)] optionLeg_fields [OF l(1)])
  moreover have "netOpen x (db_positions d') = netOpen x (db_positions d)" for x
    using optionLeg_net [OF l(1) ok(2,3), of x] optionLeg_net [OF l(2) _ ok(3), of x] ps
    by (simp add: signedQty_def)
  ultimately show ?thesis using option(1,2) by (auto simp: assetsMoved_def)
next
  case spot
  then obtain d1 d2 where c: "cashOnly d d1" and h: "spotHoldings e (te_price e * te_qty e) d1 = Inr d2"
    and a: "foldE (advanceOrder e) (orderSteps e b s) d2 = Inr d'"
    by (elim spot_flow [OF ctx])
  have u: "uniqueKeys (db_holdings d1)" using ok(1) cashOnly_fields [OF c] by simp
  have same: "db_holdings d' = db_holdings d2" "db_pnl d' = db_pnl d2" "db_positions d' = db_positions d"
    "db_holdings d1 = db_holdings d"
    by (simp_all add: advance_fields [OF a] cashOnly_fields [OF c] spotHoldings_fields [OF h])
  have "sharesOf x d' = sharesOf x d" for x
    using spot_shares(1) [OF h u, of x] same by (simp add: sharesOf_def)
  moreover have "\<exists>p. findRow (db_pnl d') (te_tradeId e) = Some p \<and>
      pn_realized p = te_price e * te_qty e - pn_costBasis p \<and> basisOf d' = basisOf d + pn_realized p"
    using spot_shares(3) [OF h u] same by (simp add: basisOf_def)
  ultimately show ?thesis using spot(1,2) same(3) by (simp add: assetsMoved_def)
qed

lemma updateMarket_fields:
  "db_holdings (updateMarket e d) = db_holdings d" "db_positions (updateMarket e d) = db_positions d"
  "db_processed (updateMarket e d) = db_processed d" "db_trades (updateMarket e d) = db_trades d"
  "db_pnl (updateMarket e d) = db_pnl d" "db_orders (updateMarket e d) = db_orders d"
  "db_accounts (updateMarket e d) = db_accounts d"
  by (simp_all add: updateMarket_def split: option.splits)

lemma assetsMoved_cong:
  assumes "db_holdings d1 = db_holdings d2" "db_positions d1 = db_positions d2"
    and "db_holdings d1' = db_holdings d2'" "db_positions d1' = db_positions d2'" "db_pnl d1' = db_pnl d2'"
  shows "assetsMoved e b s d1 d1' = assetsMoved e b s d2 d2'"
  using assms by (simp add: assetsMoved_def sharesOf_def basisOf_def)

text \<open>
  C6. A trade moves assets without creating or losing any. When a new trade event is settled both of
  its orders were active and advance by exactly the traded quantity, never past their size, and no
  other order changes; a spot trade conserves the shares of every symbol, and the cost basis held in
  the system grows by exactly the realised profit it records; an option trade, and a future traded
  between net positions, conserves the open interest of every contract (bought less sold is constant).
\<close>

theorem settle_assets_conserved:
  assumes "settleTrade e d = Inr d'" "te_eventId e \<notin> set (db_processed d)"
    and "uniqueKeys (db_holdings d)" "positionsOk (db_positions d)" "0 < te_qty e"
    and "te_buyOrderId e \<noteq> te_sellOrderId e"
  shows "\<exists>b s. findRow (db_orders d) (te_buyOrderId e) = Some b \<and> findRow (db_orders d) (te_sellOrderId e) = Some s \<and>
    isActive (or_status b) \<and> isActive (or_status s) \<and>
    or_filledQty b + te_qty e \<le> or_qty b \<and> or_filledQty s + te_qty e \<le> or_qty s \<and>
    db_orders d' = putRow (te_sellOrderId e) (advanced (te_qty e) s)
      (putRow (te_buyOrderId e) (advanced (te_qty e) b) (db_orders d)) \<and>
    assetsMoved e b s d d'"
proof (rule settleTrade_Inr [OF assms(1)])
  let ?d = "d\<lparr>db_processed := db_processed d @ [te_eventId e]\<rparr>"
  fix ctx b s d1
  assume ctx: "lockedCtx (parties e) d ctx" and o': "findRow (db_orders d) (te_buyOrderId e) = Some b"
    "findRow (db_orders d) (te_sellOrderId e) = Some s"
    and run: "settleProduct ctx e b s ?d = Inr d1" and d': "d' = updateMarket e d1"
  from run obtain d2 where d2: "db_orders d2 = db_orders d" and a: "foldE (advanceOrder e) (orderSteps e b s) d2 = Inr d1"
    by (elim product_flow [OF ctx]) simp
  have "assetsMoved e b s ?d d1" using assms(3-5) by (intro product_assets [OF ctx run]) simp_all
  then have "assetsMoved e b s d d'"
    unfolding d' by (subst assetsMoved_cong [of d ?d _ d1]) (simp_all add: updateMarket_fields)
  moreover note orders_advance [OF a, unfolded d2, OF o' assms(6)]
  ultimately show ?thesis using o' by (simp add: d' updateMarket_fields)
qed (use assms(2) in blast)

theorem settle_assets_conserved_witness:
  "\<exists>d' b s. settleTrade demoTrade demoBank = Inr d' \<and> findRow (db_orders demoBank) ''o1'' = Some b \<and>
     findRow (db_orders demoBank) ''o2'' = Some s \<and> assetsMoved demoTrade b s demoBank d'"
proof -
  obtain d' where d': "settleTrade demoTrade demoBank = Inr d'" using demo_settles by blast
  have "te_eventId demoTrade \<notin> set (db_processed demoBank)" "uniqueKeys (db_holdings demoBank)"
    "positionsOk (db_positions demoBank)" "0 < te_qty demoTrade" "te_buyOrderId demoTrade \<noteq> te_sellOrderId demoTrade"
    by (simp_all add: demoTrade_def demoBank_def uniqueKeys_def positionsOk_def)
  from settle_assets_conserved [OF d' this] show ?thesis using d' by (auto simp: demoTrade_def)
qed

section \<open>Exactly once\<close>

lemma lockedCtx_found: "lockedCtx ids d ctx \<Longrightarrow> i \<in> set ids \<Longrightarrow> findRow (db_accounts d) i \<noteq> None"
  using lockedCtx_snapshot by blast

lemma putRow_again: "putRow k v (putRow k v t) = putRow k v t"
  unfolding putRow_def by (induction t) auto

lemma updateMarket_again: "updateMarket e (updateMarket e d) = updateMarket e d"
  by (simp add: updateMarket_def putRow_again split: option.splits)

lemma settleTrade_processed:
  assumes "settleTrade e d = Inr d'"
  shows "te_eventId e \<in> set (db_processed d') \<and> (\<forall>i\<in>set (parties e). findRow (db_accounts d') i \<noteq> None) \<and>
    updateMarket e d' = d'"
  using assms
proof (cases rule: settleTrade_Inr)
  case (duplicate ctx)
  then show ?thesis using lockedCtx_found [OF duplicate(2)]
    by (auto simp: updateMarket_fields updateMarket_again)
next
  case (settled ctx b s d1)
  let ?d = "d\<lparr>db_processed := db_processed d @ [te_eventId e]\<rparr>"
  from settled(5) obtain d2 where "db_processed d2 = db_processed ?d"
    and a: "foldE (advanceOrder e) (orderSteps e b s) d2 = Inr d1"
    by (elim product_flow [OF settled(2)])
  then have "te_eventId e \<in> set (db_processed d1)" by (simp add: advance_fields [OF a])
  moreover have "findRow (db_accounts d1) i \<noteq> None" if "i \<in> set (parties e)" for i
    using product_cash [OF settled(2,5)] that
    by (auto simp: cashSettled_def settledAccount_def split: option.splits if_splits)
  ultimately show ?thesis by (simp add: settled(6) updateMarket_fields updateMarket_again)
qed

lemma settleTrade_again: "settleTrade e d = Inr d' \<Longrightarrow> settleTrade e d' = Inr d'"
proof -
  assume "settleTrade e d = Inr d'"
  note p = settleTrade_processed [OF this]
  obtain ctx where "lockedCtx (parties e) d' ctx" using lockedCtx_exists p by blast
  moreover have "settleTradeBody e ctx d' = Inr (False, d')" using p by (simp add: settleTradeBody_def)
  ultimately have "pessimisticLock (parties e) (settleTradeBody e) d' = Inr (False, d')"
    by (auto simp: pessimisticLock_Inr)
  then show ?thesis using p by (simp add: settleTrade_def parties_def)
qed

section \<open>Closing an order\<close>

lemma closeOrder_Inr:
  "closeOrder c d = Inr d' \<longleftrightarrow> (\<exists>ctx. lockedCtx [oc_accountId c] d ctx \<and> closeOrderBody c ctx d = Inr ((), d'))"
  by (auto simp: closeOrder_def bindE_eq_Inr_iff pessimisticLock_Inr)

text \<open>What the close of an order that is still active leaves: its final state, and its hold given back.\<close>

definition leftoverCash :: "order_closed \<Rightarrow> order_row \<Rightarrow> int" where
  "leftoverCash c o' = (if oc_side c = BUY \<or> isFuture (oc_symbol c) \<or> isOption (oc_symbol c)
     then max 0 (or_holdPerUnit o' * (or_qty o' - or_filledQty o')) else 0)"

definition leftoverShares :: "order_closed \<Rightarrow> order_row \<Rightarrow> int" where
  "leftoverShares c o' = (if oc_side c = BUY \<or> isFuture (oc_symbol c) \<or> isOption (oc_symbol c)
     then 0 else or_qty o' - or_filledQty o')"

definition closedExactly :: "order_closed \<Rightarrow> order_row \<Rightarrow> db \<Rightarrow> db \<Rightarrow> bool" where
  "closedExactly c o' d d' \<longleftrightarrow>
     oc_filledQty c = or_filledQty o' \<and>
     db_orders d' = putRow (oc_orderId c) (o'\<lparr>or_status := oc_status c\<rparr>) (db_orders d) \<and>
     db_ledger d' = db_ledger d \<and> db_debts d' = db_debts d \<and> db_positions d' = db_positions d \<and>
     (\<forall>i. balanceOf d' i = balanceOf d i \<and>
        holdOf d' i = holdOf d i - (if i = oc_accountId c then leftoverCash c o' else 0)) \<and>
     (\<forall>k. map_option (\<lambda>h. (ho_qty h, ho_costBasis h, ho_holdQty h)) (findRow (db_holdings d') k) =
        map_option (\<lambda>h. (ho_qty h, ho_costBasis h, ho_holdQty h -
          (if k = (oc_accountId c, oc_symbol c) then leftoverShares c o' else 0))) (findRow (db_holdings d) k))"

lemma release_exact:
  assumes ctx: "lockedCtx [oc_accountId c] d0 ctx" "db_accounts d = db_accounts d0"
    and run: "releaseLeftover ctx c o' (or_qty o' - or_filledQty o') d = Inr d'"
  shows "(\<exists>as hs. d' = d\<lparr>db_accounts := as, db_holdings := hs\<rparr>) \<and>
    findRow (db_accounts d') (oc_accountId c) \<noteq> None \<and>
    (\<forall>i. balanceOf d' i = balanceOf d i \<and>
        holdOf d' i = holdOf d i - (if i = oc_accountId c then leftoverCash c o' else 0)) \<and>
    (\<forall>k. map_option (\<lambda>h. (ho_qty h, ho_costBasis h, ho_holdQty h)) (findRow (db_holdings d') k) =
        map_option (\<lambda>h. (ho_qty h, ho_costBasis h, ho_holdQty h -
          (if k = (oc_accountId c, oc_symbol c) then leftoverShares c o' else 0))) (findRow (db_holdings d) k))"
proof -
  let ?i = "oc_accountId c" and ?rem = "or_qty o' - or_filledQty o'"
  obtain a where a: "findRow (db_accounts d) ?i = Some a" "snapshotOf ctx ?i = stateOf a"
    using lockedCtx_snapshot [OF ctx(1), of ?i] ctx(2) by auto
  have keep: "\<exists>as hs. d = d\<lparr>db_accounts := as, db_holdings := hs\<rparr>"
    by (rule exI [of _ "db_accounts d"], rule exI [of _ "db_holdings d"]) simp
  consider (cash) "oc_side c = BUY \<or> isFuture (oc_symbol c) \<or> isOption (oc_symbol c)" "or_holdPerUnit o' * ?rem > 0"
    | (norelease) "oc_side c = BUY \<or> isFuture (oc_symbol c) \<or> isOption (oc_symbol c)" "\<not> or_holdPerUnit o' * ?rem > 0"
    | (shares) "\<not> (oc_side c = BUY \<or> isFuture (oc_symbol c) \<or> isOption (oc_symbol c))" by blast
  then show ?thesis
  proof cases
    case cash
    with run a have "cx_update ctx ?i (ac_balance a) (ac_holdAmount a - or_holdPerUnit o' * ?rem) d = Inr d'"
      unfolding releaseLeftover_def Let_def by simp
    then have "updatePessimistic (cx_accounts ctx) ?i (ac_balance a) (ac_holdAmount a - or_holdPerUnit o' * ?rem) d = Inr d'"
      using ctx(1) by (simp add: lockedCtx_def)
    from pessimistic.upd_stores [OF this] a obtain a' where "d' = d\<lparr>db_accounts := putRow ?i a' (db_accounts d)\<rparr>"
      and a': "ac_balance a' = ac_balance a" "ac_holdAmount a' = ac_holdAmount a - or_holdPerUnit o' * ?rem"
      by (auto simp: storedAccount_def)
    then have d': "d' = d\<lparr>db_accounts := putRow ?i a' (db_accounts d), db_holdings := db_holdings d\<rparr>" by simp
    have "balanceOf d' i = balanceOf d i \<and>
        holdOf d' i = holdOf d i - (if i = ?i then leftoverCash c o' else 0)" for i
      using a a' cash by (simp add: d' balanceOf_def holdOf_def leftoverCash_def)
    moreover have "leftoverShares c o' = 0" using cash(1) by (simp add: leftoverShares_def)
    moreover have "\<exists>as hs. d' = d\<lparr>db_accounts := as, db_holdings := hs\<rparr>" by (rule exI, rule exI, rule d')
    ultimately show ?thesis by (simp add: d')
  next
    case norelease
    with run have d': "d' = d" unfolding releaseLeftover_def Let_def by simp
    have "max 0 (or_holdPerUnit o' * ?rem) = 0" using norelease(2) by (intro max_absorb1) linarith
    then have "leftoverShares c o' = 0" "leftoverCash c o' = 0"
      using norelease(1) by (simp_all only: leftoverShares_def leftoverCash_def if_True if_P)
    then show ?thesis using a keep by (simp add: d')
  next
    case shares
    with run obtain h where h: "findRow (db_holdings d) (?i, oc_symbol c) = Some h"
      and "d' = d\<lparr>db_holdings := putRow (?i, oc_symbol c) (h\<lparr>ho_holdQty := ho_holdQty h - ?rem\<rparr>) (db_holdings d)\<rparr>"
      unfolding releaseLeftover_def Let_def by (auto simp: writeHolding_Inr split: option.splits)
    then have d': "d' = d\<lparr>db_accounts := db_accounts d,
        db_holdings := putRow (?i, oc_symbol c) (h\<lparr>ho_holdQty := ho_holdQty h - ?rem\<rparr>) (db_holdings d)\<rparr>" by simp
    have "leftoverCash c o' = 0" "leftoverShares c o' = ?rem" using shares by (simp_all add: leftoverShares_def leftoverCash_def)
    moreover have "\<exists>as hs. d' = d\<lparr>db_accounts := as, db_holdings := hs\<rparr>" by (rule exI, rule exI, rule d')
    moreover have "map_option (\<lambda>h. (ho_qty h, ho_costBasis h, ho_holdQty h)) (findRow (db_holdings d') k) =
        map_option (\<lambda>h. (ho_qty h, ho_costBasis h, ho_holdQty h -
          (if k = (?i, oc_symbol c) then ?rem else 0))) (findRow (db_holdings d) k)" for k
      using h by (cases "k = (?i, oc_symbol c)") (simp_all add: d')
    ultimately show ?thesis using a by (simp add: d' balanceOf_def holdOf_def)
  qed
qed

lemma closeOrder_cases:
  assumes run: "closeOrder c d = Inr d'" and new: "oc_eventId c \<notin> set (db_processed d)"
    and o': "findRow (db_orders d) (oc_orderId c) = Some o'" and le: "or_filledQty o' \<le> or_qty o'"
  shows "oc_eventId c \<in> set (db_processed d') \<and>
    (if isActive (or_status o') \<and> or_filledQty o' \<le> oc_filledQty c then closedExactly c o' d d'
     else d' = d\<lparr>db_processed := db_processed d @ [oc_eventId c]\<rparr>)"
proof -
  let ?st = "\<lparr>so_status = or_status o', so_qty = or_qty o', so_filledQty = or_filledQty o'\<rparr>"
  let ?d = "d\<lparr>db_processed := db_processed d @ [oc_eventId c]\<rparr>"
  from run obtain ctx where ctx: "lockedCtx [oc_accountId c] d ctx" and body: "closeOrderBody c ctx d = Inr ((), d')"
    by (auto simp: closeOrder_Inr)
  from body new o' have wait: "\<not> closeMustWaitForTrades ?st (oc_filledQty c)"
    by (auto simp: closeOrderBody_def Let_def split: if_splits)
  have create: "createProcessed (oc_eventId c) d = Inr ?d" using new by (simp add: createProcessed_def)
  show ?thesis
  proof (cases "stateAfterClose ?st (oc_filledQty c) (oc_status c)")
    case None
    with body new o' wait create have "d' = ?d" by (simp add: closeOrderBody_def Let_def)
    moreover from None have "\<not> (isActive (or_status o') \<and> or_filledQty o' \<le> oc_filledQty c)"
      by (cases "or_status o'") (auto simp: stateAfterClose_def isTerminal_def isActive_def Let_def split: if_splits)
    ultimately show ?thesis by auto
  next
    case (Some n)
    then have active: "isActive (or_status o')" "or_filledQty o' \<le> oc_filledQty c"
      and n: "cs_filledQty n = min (or_qty o') (oc_filledQty c)" "cs_status n = oc_status c"
        "cs_remainingQty n = or_qty o' - min (or_qty o') (oc_filledQty c)"
      by (auto simp: stateAfterClose_Some)
    with wait have eq: "oc_filledQty c = or_filledQty o'" by (simp add: closeMustWaitForTrades_def)
    let ?t = "?d\<lparr>db_orders := putRow (oc_orderId c) (o'\<lparr>or_status := oc_status c\<rparr>) (db_orders d)\<rparr>"
    have upd: "updateOrder (oc_orderId c) (\<lambda>o'. o'\<lparr>or_status := cs_status n, or_filledQty := cs_filledQty n\<rparr>) ?d = Inr ?t"
      using o' le by (simp add: updateOrder_def n eq)
    have rem: "cs_remainingQty n = or_qty o' - or_filledQty o'" using le by (simp add: n eq)
    show ?thesis
    proof (cases "cs_remainingQty n \<le> 0")
      case True
      with body new o' wait create Some upd have d': "d' = ?t" by (simp add: closeOrderBody_def Let_def)
      have z: "or_qty o' - or_filledQty o' = 0" using True rem le by simp
      have "leftoverCash c o' = 0" "leftoverShares c o' = 0"
        unfolding leftoverCash_def leftoverShares_def z by simp_all
      then have "closedExactly c o' d d'" by (simp add: closedExactly_def eq d' balanceOf_def holdOf_def)
      with active show ?thesis by (simp add: d')
    next
      case False
      with body new o' wait create Some upd have r: "releaseLeftover ctx c o' (or_qty o' - or_filledQty o') ?t = Inr d'"
        by (simp add: closeOrderBody_def Let_def rem bindE_eq_Inr_iff)
      note e = release_exact [OF ctx _ r]
      from e obtain as hs where d': "d' = ?t\<lparr>db_accounts := as, db_holdings := hs\<rparr>" by auto
      have "closedExactly c o' d d'"
        using e unfolding closedExactly_def by (simp add: eq d' balanceOf_def holdOf_def)
      with active show ?thesis by (simp add: d')
    qed
  qed
qed

text \<open>
  C7. A close releases exactly what is left and only once. When the close of an order is applied to an
  active order, the order had been filled exactly as far as the close says (an earlier close waits for
  its trades), it gets the terminal status of the event, and its account gets back the cash hold of the
  unfilled rest, or the share hold for a spot sale; balances, share counts, cost basis, ledger, debts and
  positions do not move, and no other account or holding is touched. Applied to an order that is already
  terminal, or further filled, it only marks the event processed.
\<close>

theorem close_releases_once:
  assumes "closeOrder c d = Inr d'" "oc_eventId c \<notin> set (db_processed d)"
    and "findRow (db_orders d) (oc_orderId c) = Some o'" "or_filledQty o' \<le> or_qty o'"
  shows "oc_eventId c \<in> set (db_processed d') \<and>
    (if isActive (or_status o') \<and> or_filledQty o' \<le> oc_filledQty c then closedExactly c o' d d'
     else d' = d\<lparr>db_processed := db_processed d @ [oc_eventId c]\<rparr>)"
  by (rule closeOrder_cases [OF assms])

definition demoClose :: order_closed where
  "demoClose = \<lparr>oc_eventId = ''c1'', oc_orderId = ''o1'', oc_accountId = ''A'', oc_symbol = ''KABU'', oc_side = BUY,
     oc_filledQty = 0, oc_status = CANCELED, oc_reason = None, oc_ts = 1\<rparr>"

lemma demo_closes: "\<exists>d'. closeOrder demoClose demoBank = Inr d'"
  unfolding isInr_iff [symmetric] by code_simp

theorem close_releases_once_witness:
  "\<exists>d'. closeOrder demoClose demoBank = Inr d' \<and> ''c1'' \<in> set (db_processed d') \<and>
     closedExactly demoClose (demoOrderRow ''A'' BUY 101) demoBank d'"
proof -
  obtain d' where d': "closeOrder demoClose demoBank = Inr d'" using demo_closes by blast
  have h: "oc_eventId demoClose \<notin> set (db_processed demoBank)"
    "findRow (db_orders demoBank) (oc_orderId demoClose) = Some (demoOrderRow ''A'' BUY 101)"
    "or_filledQty (demoOrderRow ''A'' BUY 101) \<le> or_qty (demoOrderRow ''A'' BUY 101)"
    by (simp_all add: demoClose_def demoBank_def demoOrderRow_def findRow_Cons)
  have "isActive (or_status (demoOrderRow ''A'' BUY 101)) \<and>
      or_filledQty (demoOrderRow ''A'' BUY 101) \<le> oc_filledQty demoClose"
    by (simp add: demoClose_def demoOrderRow_def isActive_def)
  with close_releases_once [OF d' h] d' show ?thesis by (auto simp: demoClose_def)
qed

lemma release_frame:
  assumes ctx: "lockedCtx [oc_accountId c] d ctx" and run: "releaseLeftover ctx c o' n t = Inr t'"
    and t: "db_accounts t = db_accounts d"
  shows "db_processed t' = db_processed t \<and> findRow (db_accounts t') (oc_accountId c) \<noteq> None"
proof -
  let ?o = "o'\<lparr>or_qty := n, or_filledQty := 0\<rparr>"
  have "releaseLeftover ctx c ?o (or_qty ?o - or_filledQty ?o) t = releaseLeftover ctx c o' n t"
    by (simp add: releaseLeftover_def)
  with run have "releaseLeftover ctx c ?o (or_qty ?o - or_filledQty ?o) t = Inr t'" by (simp only:)
  from release_exact [OF ctx t this] show ?thesis by auto
qed

lemma closeOrder_processed:
  assumes "closeOrder c d = Inr d'"
  shows "oc_eventId c \<in> set (db_processed d') \<and> findRow (db_accounts d') (oc_accountId c) \<noteq> None"
proof -
  from assms obtain ctx where ctx: "lockedCtx [oc_accountId c] d ctx" and body: "closeOrderBody c ctx d = Inr ((), d')"
    by (auto simp: closeOrder_Inr)
  from lockedCtx_found [OF ctx] have ex: "findRow (db_accounts d) (oc_accountId c) \<noteq> None" by simp
  note rel = release_frame [OF ctx]
  show ?thesis
    using body ex unfolding closeOrderBody_def Let_def
    by (auto simp: createProcessed_Inr updateOrder_Inr elim!: bindE_InrE split: if_splits option.splits dest!: rel)
qed

lemma closeOrder_again: "closeOrder c d = Inr d' \<Longrightarrow> closeOrder c d' = Inr d'"
proof -
  assume "closeOrder c d = Inr d'"
  note p = closeOrder_processed [OF this]
  obtain ctx where "lockedCtx [oc_accountId c] d' ctx" using lockedCtx_exists [of "[oc_accountId c]" d'] p by auto
  then show ?thesis using p by (auto simp: closeOrder_Inr closeOrderBody_def)
qed

lemma applyTradeEvent_again:
  assumes "applyTradeEvent ev d = Inr d'"
  shows "tv_eventId ev \<in> set (db_processed d') \<and> applyTradeEvent ev d' = Inr d'"
  using assms settleTrade_processed settleTrade_again closeOrder_processed closeOrder_again
  by (cases ev) (auto simp: applyTradeEvent_def)

text \<open>
  C8. An event is settled exactly once however often the stream delivers it: after a trade or a close
  has been applied its id is recorded with the change, and applying it again, at once, succeeds and
  changes nothing at all (the candle it rebuilds is the same).
\<close>

theorem settles_exactly_once:
  assumes "applyTradeEvent ev d = Inr d'"
  shows "tv_eventId ev \<in> set (db_processed d') \<and> applyTradeEvent ev d' = Inr d'"
  by (rule applyTradeEvent_again [OF assms])

theorem settles_exactly_once_witness:
  "\<exists>d'. applyTradeEvent (TradeExecuted demoTrade) demoBank = Inr d' \<and>
     applyTradeEvent (TradeExecuted demoTrade) d' = Inr d'"
proof -
  obtain d' where d': "settleTrade demoTrade demoBank = Inr d'" using demo_settles by blast
  then have "applyTradeEvent (TradeExecuted demoTrade) demoBank = Inr d'" by (simp add: applyTradeEvent_def)
  with settles_exactly_once [OF this] show ?thesis by blast
qed

section \<open>The consumer\<close>

text \<open>Processed events stay processed.\<close>

lemma processed_grows:
  assumes "applyTradeEvent ev d = Inr d'"
  shows "set (db_processed d) \<subseteq> set (db_processed d')"
proof (cases ev)
  case (TradeExecuted e)
  with assms have "settleTrade e d = Inr d'" by (simp add: applyTradeEvent_def)
  then show ?thesis
  proof (cases rule: settleTrade_Inr)
    case (duplicate ctx)
    then show ?thesis by (simp add: updateMarket_fields)
  next
    case (settled ctx b s d1)
    from settled(5) obtain d2 where "db_processed d2 = db_processed d @ [te_eventId e]"
      and a: "foldE (advanceOrder e) (orderSteps e b s) d2 = Inr d1"
      by (elim product_flow [OF settled(2)]) simp
    then show ?thesis by (auto simp: settled(6) updateMarket_fields advance_fields [OF a])
  qed
next
  case (OrderClosed c)
  with assms obtain ctx where ctx: "lockedCtx [oc_accountId c] d ctx" and body: "closeOrderBody c ctx d = Inr ((), d')"
    by (auto simp: applyTradeEvent_def closeOrder_Inr)
  note rel = release_frame [OF ctx]
  show ?thesis
    using body unfolding closeOrderBody_def Let_def
    by (auto simp: createProcessed_Inr updateOrder_Inr elim!: bindE_InrE split: if_splits option.splits dest!: rel)
qed

lemma processMessage_spec:
  assumes "processMessage (i, payload) (c, d) = (c', d')"
  shows "set (db_processed d) \<subseteq> set (db_processed d') \<and> set (cn_pending c') \<subseteq> set (cn_pending c) \<and>
    (\<forall>j. j \<in> set (cn_pending c) \<and> j \<notin> set (cn_pending c') \<longrightarrow>
       j = i \<and> (\<exists>ev. payload = Some ev \<and> isTradeStreamEvent ev \<and> tv_eventId ev \<in> set (db_processed d'))) \<and>
    (i \<in> set (cn_pending c) \<longrightarrow> i \<notin> set (cn_pending c') \<or>
       (\<exists>k. k \<in> set (cn_retained c') \<and> (k = i \<or> (\<exists>ev. payload = Some ev \<and> k = tv_eventId ev)) \<and> d' = d))"
proof (cases "payload = None \<or> (\<exists>ev. payload = Some ev \<and> \<not> isTradeStreamEvent ev)")
  case True
  with assms have "c' = c\<lparr>cn_retained := uniq (cn_retained c @ [i])\<rparr>" "d' = d"
    by (auto simp: processMessage_def)
  then show ?thesis by auto
next
  case False
  then obtain ev where ev: "payload = Some ev" "isTradeStreamEvent ev" by auto
  show ?thesis
  proof (cases "applyTradeEvent ev d")
    case (Inl er)
    with assms ev have "c' = c\<lparr>cn_retained := uniq (cn_retained c @ [tv_eventId ev])\<rparr>" "d' = d"
      by (auto simp: processMessage_def)
    then show ?thesis using ev by auto
  next
    case (Inr t)
    with assms ev have "c' = c\<lparr>cn_pending := removeAll i (cn_pending c),
        cn_retained := removeAll (tv_eventId ev) (cn_retained c)\<rparr>" "d' = t"
      by (auto simp: processMessage_def)
    then show ?thesis using ev applyTradeEvent_again [OF Inr] processed_grows [OF Inr] by auto
  qed
qed

lemma processMessages_acks:
  assumes "processMessages ms (c, d) = (c', d')"
  shows "set (db_processed d) \<subseteq> set (db_processed d') \<and> set (cn_pending c') \<subseteq> set (cn_pending c) \<and>
    (\<forall>j. j \<in> set (cn_pending c) \<and> j \<notin> set (cn_pending c') \<longrightarrow>
      (\<exists>ev. (j, Some ev) \<in> set ms \<and> isTradeStreamEvent ev \<and> tv_eventId ev \<in> set (db_processed d')))"
  using assms
proof (induction ms arbitrary: c d)
  case Nil
  then show ?case by (simp add: processMessages_def)
next
  case (Cons m ms)
  obtain i payload where m: "m = (i, payload)" by (cases m)
  obtain c1 d1 where s: "processMessage (i, payload) (c, d) = (c1, d1)" by force
  with Cons.prems m have "processMessages ms (c1, d1) = (c', d')" by (simp add: processMessages_def)
  note ih = Cons.IH [OF this] and st = processMessage_spec [OF s]
  show ?case
  proof (intro conjI allI impI)
    show "set (db_processed d) \<subseteq> set (db_processed d')" "set (cn_pending c') \<subseteq> set (cn_pending c)"
      using ih st by blast+
    fix j assume j: "j \<in> set (cn_pending c) \<and> j \<notin> set (cn_pending c')"
    show "\<exists>ev. (j, Some ev) \<in> set (m # ms) \<and> isTradeStreamEvent ev \<and> tv_eventId ev \<in> set (db_processed d')"
    proof (cases "j \<in> set (cn_pending c1)")
      case True
      with j ih have "\<exists>ev. (j, Some ev) \<in> set ms \<and> isTradeStreamEvent ev \<and> tv_eventId ev \<in> set (db_processed d')"
        by blast
      then show ?thesis by auto
    next
      case False
      with j st obtain ev where "payload = Some ev" "j = i" "isTradeStreamEvent ev" "tv_eventId ev \<in> set (db_processed d1)"
        by blast
      then show ?thesis using m ih by auto
    qed
  qed
qed

text \<open>
  C9. The consumer acknowledges only what it settled. Over any batch of messages, well formed or not, a
  message leaves the pending list only if its payload is a valid event whose id is recorded as processed
  in the database; a message that does not parse or whose transaction fails stays pending, and no event
  that was processed is ever forgotten.
\<close>

theorem acks_only_settled:
  assumes "processMessages ms (c, d) = (c', d')"
  shows "set (db_processed d) \<subseteq> set (db_processed d') \<and> set (cn_pending c') \<subseteq> set (cn_pending c) \<and>
    (\<forall>j. j \<in> set (cn_pending c) \<and> j \<notin> set (cn_pending c') \<longrightarrow>
      (\<exists>ev. (j, Some ev) \<in> set ms \<and> isTradeStreamEvent ev \<and> tv_eventId ev \<in> set (db_processed d')))"
  by (rule processMessages_acks [OF assms])

text \<open>A close before its trade, the trade, a broken message: only the trade is acknowledged.\<close>

definition demoBatch :: "(string \<times> trade_event option) list" where
  "demoBatch = [(''1-0'', Some (OrderClosed (demoClose\<lparr>oc_filledQty := 10\<rparr>))),
     (''2-0'', Some (TradeExecuted demoTrade)), (''3-0'', None)]"

definition demoConsumer :: consumer where
  "demoConsumer = \<lparr>cn_pending = [''1-0'', ''2-0'', ''3-0''], cn_retained = []\<rparr>"

lemma demo_batch: "cn_pending (fst (processMessages demoBatch (demoConsumer, demoBank))) = [''1-0'', ''3-0'']"
  by code_simp

theorem acks_only_settled_witness:
  "cn_pending (fst (processMessages demoBatch (demoConsumer, demoBank))) = [''1-0'', ''3-0''] \<and>
   (\<exists>ev. (''2-0'', Some ev) \<in> set demoBatch \<and>
      tv_eventId ev \<in> set (db_processed (snd (processMessages demoBatch (demoConsumer, demoBank)))))"
proof -
  obtain c' d' where r: "processMessages demoBatch (demoConsumer, demoBank) = (c', d')" by force
  then have "cn_pending c' = [''1-0'', ''3-0'']" using demo_batch by simp
  with acks_only_settled [OF r] r show ?thesis by (auto simp: demoConsumer_def)
qed

end
