(* ===== verification/Maintenance.thy ===== *)
theory Maintenance
  imports Futures_Rules
begin

text \<open>
  \<open>apps/api/src/common/maintenance-window.ts\<close>: the daily trading pause and an operator's own pause. The
  texts shown to users and the JSON parsing of the operator's value are left out; times are epoch
  milliseconds.
\<close>

record manual_pause =
  mp_startAt :: int
  mp_endAt :: int

definition MAINTENANCE_START_MINUTE_KST :: int where "MAINTENANCE_START_MINUTE_KST = 4 * 60 + 10"

definition MAINTENANCE_DURATION_MS :: int where "MAINTENANCE_DURATION_MS = 10 * 60 * 1000"

definition upcomingManualMaintenance :: "manual_pause option \<Rightarrow> int \<Rightarrow> manual_pause option" where
  "upcomingManualMaintenance manual now =
     (case manual of Some m \<Rightarrow> if now < mp_startAt m then Some m else None | None \<Rightarrow> None)"

definition activeManual :: "manual_pause option \<Rightarrow> int \<Rightarrow> manual_pause option" where
  "activeManual manual now =
     (case manual of Some m \<Rightarrow> if now \<ge> mp_startAt m \<and> now < mp_endAt m then Some m else None | None \<Rightarrow> None)"

record pause_window =
  pw_active :: bool
  pw_startAt :: int
  pw_endAt :: int
  pw_manual :: bool

definition maintenanceWindow :: "manual_pause option \<Rightarrow> int \<Rightarrow> pause_window" where
  "maintenanceWindow manual now =
     (case activeManual manual now of
        Some current \<Rightarrow> \<lparr>pw_active = True, pw_startAt = mp_startAt current, pw_endAt = mp_endAt current, pw_manual = True\<rparr>
      | None \<Rightarrow>
          let kstDay = floorQuot (now + KST_OFFSET_MS) DAY_MS;
              start = kstDay * DAY_MS + MAINTENANCE_START_MINUTE_KST * 60000 - KST_OFFSET_MS;
              end' = start + MAINTENANCE_DURATION_MS;
              active = (now \<ge> start \<and> now < end')
          in \<lparr>pw_active = active,
              pw_startAt = (if active then start else if now < start then start else start + DAY_MS),
              pw_endAt = (if active then end' else if now < start then end' else end' + DAY_MS),
              pw_manual = False\<rparr>)"

text \<open>The check of a value an operator stored: its two times, when both parse.\<close>

definition checkManual :: "int option \<Rightarrow> int option \<Rightarrow> manual_pause option" where
  "checkManual startAt endAt = (case (startAt, endAt) of
     (Some s, Some e) \<Rightarrow> if e \<le> s then None else Some \<lparr>mp_startAt = s, mp_endAt = e\<rparr>
   | _ \<Rightarrow> None)"

definition assertTradingOpen :: "manual_pause option \<Rightarrow> int \<Rightarrow> bool" where
  "assertTradingOpen manual now \<longleftrightarrow> activeManual manual now = None \<and> \<not> pw_active (maintenanceWindow manual now)"

end
