(* ===== verification/Api_Service.thy ===== *)
theory Api_Service
  imports Settlement_Worker Maintenance
begin

text \<open>
  The setting of the API services (\<open>apps/api/src\<close>): a service call reads and writes the database and
  Redis step by step, and what it has committed stays when a later step throws. A call is therefore a
  function from the state to the outcome and the state it leaves; only a transaction undoes its writes.
  Fresh identifiers come from a supply, the clock is fixed during a call, notifications are left out.
\<close>

record api =
  ap_db :: db
  ap_redis :: "(string, string) rows"
  ap_redisUp :: bool
  ap_ids :: "nat \<Rightarrow> string"
  ap_next :: nat
  ap_now :: int
  ap_manual :: "manual_pause option"

type_synonym ('s, 'a) prog = "'s \<Rightarrow> (error + 'a) \<times> 's"

type_synonym 'a service = "(api, 'a) prog"

section \<open>Steps\<close>

definition returnS :: "'a \<Rightarrow> ('s, 'a) prog" where
  "returnS x s = (Inr x, s)"

definition throwS :: "error \<Rightarrow> ('s, 'a) prog" where
  "throwS e s = (Inl e, s)"

definition bindS :: "('s, 'a) prog \<Rightarrow> ('a \<Rightarrow> ('s, 'b) prog) \<Rightarrow> ('s, 'b) prog" where
  "bindS m f s = (case m s of (Inl e, s') \<Rightarrow> (Inl e, s') | (Inr x, s') \<Rightarrow> f x s')"

text \<open>\<open>try m catch h\<close>\<close>

definition catchS :: "('s, 'a) prog \<Rightarrow> (error \<Rightarrow> ('s, 'a) prog) \<Rightarrow> ('s, 'a) prog" where
  "catchS m h s = (case m s of (Inl e, s') \<Rightarrow> h e s' | (Inr x, s') \<Rightarrow> (Inr x, s'))"

text \<open>A computation that only decides: it throws or returns, and changes nothing.\<close>

definition liftS :: "error + 'a \<Rightarrow> ('s, 'a) prog" where
  "liftS r s = (r, s)"

definition readDb :: "(db \<Rightarrow> 'a) \<Rightarrow> 'a service" where
  "readDb f s = (Inr (f (ap_db s)), s)"

definition writeDb :: "(db \<Rightarrow> db) \<Rightarrow> unit service" where
  "writeDb f s = (Inr (), s\<lparr>ap_db := f (ap_db s)\<rparr>)"

text \<open>One transaction (or one statement): all its writes or none.\<close>

definition txS :: "(db \<Rightarrow> error + 'a \<times> db) \<Rightarrow> 'a service" where
  "txS f s = (case f (ap_db s) of Inl e \<Rightarrow> (Inl e, s) | Inr (x, d) \<Rightarrow> (Inr x, s\<lparr>ap_db := d\<rparr>))"

definition freshId :: "string service" where
  "freshId s = (Inr (ap_ids s (ap_next s)), s\<lparr>ap_next := Suc (ap_next s)\<rparr>)"

definition clockS :: "int service" where
  "clockS s = (Inr (ap_now s), s)"

text \<open>A loop over a list; it stops at the first error and keeps what the earlier rounds did.\<close>

fun eachS :: "('a \<Rightarrow> 'b \<Rightarrow> ('s, 'b) prog) \<Rightarrow> 'a list \<Rightarrow> 'b \<Rightarrow> ('s, 'b) prog" where
  "eachS f [] acc = returnS acc"
| "eachS f (x # xs) acc = bindS (f x acc) (eachS f xs)"

section \<open>Redis\<close>

definition redisDown :: error where "redisDown = Thrown ''redis''"

definition redisGet :: "string \<Rightarrow> string option service" where
  "redisGet key s = (if ap_redisUp s then (Inr (findRow (ap_redis s) key), s) else (Inl redisDown, s))"

definition redisSet :: "string \<Rightarrow> string \<Rightarrow> unit service" where
  "redisSet key v s =
     (if ap_redisUp s then (Inr (), s\<lparr>ap_redis := putRow key v (ap_redis s)\<rparr>) else (Inl redisDown, s))"

text \<open>\<open>SET key v EX ttl NX\<close>: whether it set the key. Expiry removes a key between calls.\<close>

definition redisSetNx :: "string \<Rightarrow> string \<Rightarrow> bool service" where
  "redisSetNx key v s =
     (if \<not> ap_redisUp s then (Inl redisDown, s)
      else case findRow (ap_redis s) key of
        Some x \<Rightarrow> (Inr False, s)
      | None \<Rightarrow> (Inr True, s\<lparr>ap_redis := putRow key v (ap_redis s)\<rparr>))"

definition redisDel :: "string \<Rightarrow> unit service" where
  "redisDel key s =
     (if ap_redisUp s then (Inr (), s\<lparr>ap_redis := dropRow key (ap_redis s)\<rparr>) else (Inl redisDown, s))"

section \<open>Rules\<close>

named_theorems service_simps "how a service step computes"

lemma step_simps [simp, service_simps]:
  "returnS x t = (Inr x, t)" "throwS e t = (Inl e, t)" "liftS r t = (r, t)"
  "readDb g s = (Inr (g (ap_db s)), s)" "writeDb f s = (Inr (), s\<lparr>ap_db := f (ap_db s)\<rparr>)"
  "clockS s = (Inr (ap_now s), s)"
  by (simp_all add: returnS_def throwS_def liftS_def readDb_def writeDb_def clockS_def)

lemma bindS_Inr_iff:
  "bindS m f s = (Inr y, t) \<longleftrightarrow> (\<exists>x s'. m s = (Inr x, s') \<and> f x s' = (Inr y, t))"
  by (auto simp: bindS_def split: prod.splits sum.splits)

lemma bindS_InrE:
  assumes "bindS m f s = (Inr y, t)"
  obtains x s' where "m s = (Inr x, s')" "f x s' = (Inr y, t)"
  using assms by (auto simp: bindS_Inr_iff)

lemma bindS_cases:
  assumes "bindS m f s = (r, t)"
  obtains (failed) e where "m s = (Inl e, t)" "r = Inl e"
    | (went_on) x s' where "m s = (Inr x, s')" "f x s' = (r, t)"
  using assms by (auto simp: bindS_def split: prod.splits sum.splits)

lemma bindS_simps [service_simps]:
  "m s = (Inl e, s') \<Longrightarrow> bindS m f s = (Inl e, s')"
  "m s = (Inr x, s') \<Longrightarrow> bindS m f s = f x s'"
  by (simp_all add: bindS_def)

lemma bindS_pure [simp, service_simps]:
  "bindS (returnS x) f t = f x t" "bindS (throwS e) f t = (Inl e, t)"
  "bindS (liftS (Inl e)) f t = (Inl e, t)" "bindS (liftS (Inr x)) f t = f x t"
  "bindS (readDb r) g s = g (r (ap_db s)) s" "bindS (writeDb w) h s = h () (s\<lparr>ap_db := w (ap_db s)\<rparr>)"
  "bindS clockS k s = k (ap_now s) s"
  "bindS freshId l s = l (ap_ids s (ap_next s)) (s\<lparr>ap_next := Suc (ap_next s)\<rparr>)"
  by (simp_all add: bindS_def freshId_def)

lemma txS_cases:
  assumes "txS f s = (r, t)"
  obtains (rolled_back) e where "f (ap_db s) = Inl e" "r = Inl e" "t = s"
    | (committed) x d where "f (ap_db s) = Inr (x, d)" "r = Inr x" "t = s\<lparr>ap_db := d\<rparr>"
  using assms by (auto simp: txS_def split: sum.splits prod.splits)

lemma txS_Inr_iff:
  "txS f s = (Inr x, t) \<longleftrightarrow> (\<exists>d. f (ap_db s) = Inr (x, d) \<and> t = s\<lparr>ap_db := d\<rparr>)"
  by (auto simp: txS_def split: sum.splits prod.splits)

lemma eachS_invariant:
  assumes "eachS f xs acc s = (r, t)" and "P s"
    and "\<And>x a s r t. x \<in> set xs \<Longrightarrow> P s \<Longrightarrow> f x a s = (r, t) \<Longrightarrow> P t"
  shows "P t"
  using assms
proof (induction xs arbitrary: acc s)
  case (Cons x xs)
  from Cons.prems(1) have "bindS (f x acc) (eachS f xs) s = (r, t)" by simp
  then show ?case
  proof (cases rule: bindS_cases)
    case (failed e)
    then show ?thesis using Cons.prems(2,3) by (metis list.set_intros(1))
  next
    case (went_on y s')
    then show ?thesis using Cons.IH [of y s'] Cons.prems(2,3) by (metis list.set_intros)
  qed
qed simp

text \<open>
  A relation between states that every step keeps, when it is reflexive and transitive, is respected
  by what is composed of them. A client gives the relation and its primitive steps.
\<close>

definition keeps :: "('s \<Rightarrow> 's \<Rightarrow> bool) \<Rightarrow> ('s, 'a) prog \<Rightarrow> bool" where
  "keeps rel m \<longleftrightarrow> (\<forall>s. rel s (snd (m s)))"

lemma keepsD: "keeps rel m \<Longrightarrow> m s = (r, s') \<Longrightarrow> rel s s'"
  unfolding keeps_def by (metis snd_conv)

locale step_relation =
  fixes rel :: "'s \<Rightarrow> 's \<Rightarrow> bool"
  assumes rel_refl: "rel s s"
    and rel_trans: "rel s t \<Longrightarrow> rel t u \<Longrightarrow> rel s u"
begin

lemma keeps_pure:
  "keeps rel (returnS x)" "keeps rel (throwS e)" "keeps rel (liftS r)"
  by (simp_all add: keeps_def rel_refl)

lemma keeps_bindS:
  assumes "keeps rel m" "\<And>x. keeps rel (f x)"
  shows "keeps rel (bindS m f)"
  unfolding keeps_def
proof
  fix s
  obtain r s' where m: "m s = (r, s')" by (cases "m s")
  have "rel s s'" using keepsD [OF assms(1) m] .
  then show "rel s (snd (bindS m f s))"
    using assms(2) rel_trans m by (cases r) (auto simp: bindS_def keeps_def)
qed

lemma keeps_catchS:
  assumes "keeps rel m" "\<And>e. keeps rel (h e)"
  shows "keeps rel (catchS m h)"
  unfolding keeps_def
proof
  fix s
  obtain r s' where m: "m s = (r, s')" by (cases "m s")
  have "rel s s'" using keepsD [OF assms(1) m] .
  then show "rel s (snd (catchS m h s))"
    using assms(2) rel_trans m by (cases r) (auto simp: catchS_def keeps_def)
qed

lemma keeps_eachS:
  assumes "\<And>x acc. keeps rel (f x acc)"
  shows "keeps rel (eachS f xs acc)"
  by (induction xs arbitrary: acc) (auto simp: keeps_pure intro!: keeps_bindS assms)

lemmas keeps_rules = keeps_pure keeps_bindS keeps_catchS keeps_eachS

end

end
