(* ===== verification/Order_Margin.thy ===== *)
theory Order_Margin
  imports Api_Service
begin

text \<open>
  \<open>apps/api/src/order/futures-margin.ts\<close>: the cash derivatives tie up, and what one unit of a futures
  or option order must reserve. The functions run inside the account's transaction; messages are left
  out of the errors.
\<close>

section \<open>Encumbrance\<close>

definition positionsOf :: "string \<Rightarrow> db \<Rightarrow> (string \<times> string \<times> row_side, position_row) rows" where
  "positionsOf accountId d = filter (\<lambda>(k, p). fst k = accountId) (db_positions d)"

record encumbrance =
  en_margin :: int
  en_debt :: int
  en_total :: int

definition futuresEncumbrance :: "db \<Rightarrow> string \<Rightarrow> encumbrance" where
  "futuresEncumbrance d accountId =
     (let marginHeld = sum_list (map (po_marginHeld \<circ> snd) (positionsOf accountId d));
          owed = debtOf d accountId
      in \<lparr>en_margin = marginHeld, en_debt = owed, en_total = marginHeld + owed\<rparr>)"

definition futuresMarginHeld :: "db \<Rightarrow> string \<Rightarrow> int" where
  "futuresMarginHeld d accountId = en_total (futuresEncumbrance d accountId)"

definition isBotAccount :: "db \<Rightarrow> string \<Rightarrow> bool" where
  "isBotAccount d accountId =
     (case findRow (db_accounts d) accountId of
        None \<Rightarrow> False
      | Some a \<Rightarrow> (case findRow (db_users d) (ac_userId a) of None \<Rightarrow> False | Some u \<Rightarrow> us_isBot u))"

section \<open>Futures\<close>

text \<open>\<open>position?.qty ?? 0\<close>\<close>

definition heldQty :: "db \<Rightarrow> string \<Rightarrow> string \<Rightarrow> row_side \<Rightarrow> int" where
  "heldQty d accountId symbol side =
     (case findRow (db_positions d) (accountId, symbol, side) of None \<Rightarrow> 0 | Some p \<Rightarrow> po_qty p)"

text \<open>What live orders of the account on one side of a symbol have not filled yet.\<close>

definition reservedQty :: "db \<Rightarrow> string \<Rightarrow> string \<Rightarrow> order_side \<Rightarrow> (order_row \<Rightarrow> bool) \<Rightarrow> int" where
  "reservedQty d accountId symbol side wanted =
     sum_list (map (\<lambda>(i, o'). or_qty o' - or_filledQty o')
       (filter (\<lambda>(i, o'). or_accountId o' = accountId \<and> or_symbol o' = symbol \<and> or_side o' = side \<and>
                 isActive (or_status o') \<and> wanted o') (db_orders d)))"

definition futuresOrderHoldPerUnit ::
  "db \<Rightarrow> string \<Rightarrow> future_def \<Rightarrow> order_side \<Rightarrow> int \<Rightarrow> int \<Rightarrow> position_side option \<Rightarrow> error + int" where
  "futuresOrderHoldPerUnit d accountId def' side qty priceUnits positionSide =
     (let position = findRow (db_positions d) (accountId, fd_symbol def', rowSideOf positionSide);
          held = heldQty d accountId (fd_symbol def') (rowSideOf positionSide);
          leverage = (case position of None \<Rightarrow> None | Some p \<Rightarrow> po_leverage p);
          margin = futureMarginPerContract def' priceUnits leverage
      in case positionSide of
           Some ps \<Rightarrow>
             if isOpeningHedgeOrder side ps then Inr margin
             else let reserved = reservedQty d accountId (fd_symbol def') side (\<lambda>o'. or_positionSide o' = Some ps)
                  in if qty > \<bar>held\<bar> - reserved then Inl (Unprocessable ''closable quantity'') else Inr 0
         | None \<Rightarrow>
             if (side = SELL \<and> held > 0) \<or> (side = BUY \<and> held < 0)
             then let reserved = reservedQty d accountId (fd_symbol def') side (\<lambda>o'. or_holdPerUnit o' = 0)
                  in if qty \<le> \<bar>held\<bar> - reserved then Inr 0 else Inr margin
             else Inr margin)"

section \<open>Options\<close>

text \<open>\<open>retiredExpired\<close>: the last expiry of a retired option is behind its next settlement.\<close>

definition retiredExpired :: "db \<Rightarrow> option_def \<Rightarrow> int \<Rightarrow> bool" where
  "retiredExpired d def' now \<longleftrightarrow>
     (case findRow (db_series d) (od_symbol def') of
        None \<Rightarrow> True
      | Some series \<Rightarrow> se_tradingDay series < futuresTradingDay (nextFuturesSettlementAt now))"

definition optionOrderHoldPerUnit ::
  "db \<Rightarrow> int \<Rightarrow> string \<Rightarrow> option_def \<Rightarrow> order_side \<Rightarrow> int \<Rightarrow> int \<Rightarrow> error + int" where
  "optionOrderHoldPerUnit d now accountId def' side qty priceUnits =
     (let retired = of_retired (od_family def') in
      if retired \<and> retiredExpired d def' now then Inl (Unprocessable ''expired option'')
      else if retired \<and> side = BUY \<and> \<not> isBotAccount d accountId then Inl (Unprocessable ''retired option'')
      else if side = BUY then Inr (priceUnits * od_unitValue def')
      else
        let held = max 0 (heldQty d accountId (od_symbol def') NET);
            reserved = reservedQty d accountId (od_symbol def') SELL (\<lambda>o'. or_holdPerUnit o' = 0)
        in if held > 0 \<and> qty \<le> held - reserved then Inr 0
           else if \<not> isBotAccount d accountId then Inl (Unprocessable ''options are sold only when held'')
           else if retired then Inl (Unprocessable ''retired option'')
           else case findRow (db_series d) (od_symbol def') of
                  None \<Rightarrow> Inl (Unprocessable ''no strike yet'')
                | Some series \<Rightarrow> Inr (optionWriterMarginPerContract def' (se_strike series)))"

end
