(* ===== verification/Order_Service.thy ===== *)
theory Order_Service
  imports Order_Margin
begin

text \<open>
  \<open>apps/api/src/order/order.service.ts\<close> and \<open>outbox.relayer.ts\<close>: placing, cancelling and amending
  orders, and the relay of the order outbox. A request is typed: its numbers are integers and its
  side, type and direction are values of the enumerations. The account lock is the row lock of
  \<open>Lock_Strategies\<close>. The theoretical price of an option comes from another service and is the
  argument \<open>theo\<close> (\<open>None\<close> when that service has none or fails). Polling loops take what other
  processes do between two polls as the argument \<open>others\<close>.
\<close>

section \<open>Requests\<close>

record place_dto =
  pd_symbol :: string
  pd_side :: order_side
  pd_type :: order_type
  pd_price :: "int option"
  pd_qty :: int
  pd_positionSide :: "position_side option"

definition MARKET_BUY_HOLD_FACTOR :: rat where "MARKET_BUY_HOLD_FACTOR = fl (11 / 10)"

definition CANCEL_DEDUPE_SECONDS :: int where "CANCEL_DEDUPE_SECONDS = 30"

text \<open>The checks of \<open>place\<close> that look at nothing but the request, in the order of the code.\<close>

definition validateOrder :: "place_dto \<Rightarrow> error + unit" where
  "validateOrder dto =
     (let qty = pd_qty dto; isLimit = (pd_type dto = LIMIT);
          future = futureDef (pd_symbol dto); option' = optionDef (pd_symbol dto);
          price = (case pd_price dto of None \<Rightarrow> 0 | Some p \<Rightarrow> p)
      in bindE (assertE (qty > 0) (BadRequest ''qty'')) (\<lambda>_.
         bindE (assertE (qty \<le> MAX_ORDER_QTY) (BadRequest ''max qty'')) (\<lambda>_.
         bindE (assertE (isLimit \<longrightarrow> price > 0) (BadRequest ''price'')) (\<lambda>_.
         bindE (assertE (isLimit \<longrightarrow> price \<le> MAX_ORDER_PRICE) (BadRequest ''max price'')) (\<lambda>_.
         bindE (assertE (pd_symbol dto \<in> set TRADABLE_SYMBOLS) (NotFoundError ''symbol'')) (\<lambda>_.
         bindE (assertE ((future \<noteq> None \<or> option' \<noteq> None) \<longrightarrow> qty \<le> MAX_FUTURES_ORDER_QTY)
                  (BadRequest ''max contracts'')) (\<lambda>_.
         bindE (assertE (pd_positionSide dto \<noteq> None \<longrightarrow> future \<noteq> None) (BadRequest ''position side'')) (\<lambda>_.
         assertE (case tickSizeOf (pd_symbol dto) of
                    None \<Rightarrow> True | Some tickSize \<Rightarrow> isLimit \<longrightarrow> isOnTick (of_int price) tickSize)
           (BadRequest ''tick'')))))))))"

section \<open>Prices\<close>

text \<open>Reference of an option's market order; everything else uses the last price.\<close>

definition optionReference :: "(string \<Rightarrow> int option) \<Rightarrow> symbol_row \<Rightarrow> place_dto \<Rightarrow> int" where
  "optionReference theo m dto =
     (if optionDef (pd_symbol dto) \<noteq> None \<and> pd_type dto = MARKET
      then case theo (pd_symbol dto) of None \<Rightarrow> sy_lastPrice m | Some x \<Rightarrow> x
      else sy_lastPrice m)"

definition marketCap :: "(string \<Rightarrow> int option) \<Rightarrow> symbol_row \<Rightarrow> place_dto \<Rightarrow> int" where
  "marketCap theo m dto =
     (case optionDef (pd_symbol dto) of
        Some o' \<Rightarrow> \<lceil>jsMul (of_int (optionReference theo m dto)) (3 / 2)\<rceil> + od_tickUnits o' * 10
      | None \<Rightarrow> \<lceil>jsMul (of_int (sy_lastPrice m)) MARKET_BUY_HOLD_FACTOR\<rceil>)"

text \<open>\<open>type === "LIMIT" ? price! : marketCap\<close>\<close>

definition priceOrCap :: "place_dto \<Rightarrow> int \<Rightarrow> int" where
  "priceOrCap dto cap =
     (if pd_type dto = LIMIT then (case pd_price dto of None \<Rightarrow> 0 | Some p \<Rightarrow> p) else cap)"

text \<open>The price the event carries to the matching engine.\<close>

definition eventPrice :: "(string \<Rightarrow> int option) \<Rightarrow> symbol_row \<Rightarrow> place_dto \<Rightarrow> int option" where
  "eventPrice theo m dto =
     (if pd_type dto = LIMIT then pd_price dto
      else if pd_side dto = BUY then Some (marketCap theo m dto)
      else case optionDef (pd_symbol dto) of
        Some o' \<Rightarrow> Some (max (od_tickUnits o') \<lfloor>jsDiv (of_int (optionReference theo m dto)) 2\<rfloor>)
      | None \<Rightarrow>
          (case futureDef (pd_symbol dto) of
             Some f \<Rightarrow> Some (max (fd_tickUnits f) \<lfloor>jsDiv (of_int (sy_lastPrice m)) MARKET_BUY_HOLD_FACTOR\<rfloor>)
           | None \<Rightarrow> None))"

section \<open>Placing\<close>

text \<open>The hold per unit of the order's product, before fees.\<close>

definition principalHold :: "int \<Rightarrow> string \<Rightarrow> place_dto \<Rightarrow> int \<Rightarrow> db \<Rightarrow> error + int" where
  "principalHold now accountId dto cap d =
     (case futureDef (pd_symbol dto) of
        Some f \<Rightarrow>
          let bot = isBotAccount d accountId in
          if \<not> bot \<and> pd_positionSide dto = None then Inl (BadRequest ''futures orders need a direction'')
          else if bot \<and> pd_positionSide dto \<noteq> None then Inl (BadRequest ''bots trade without a direction'')
          else futuresOrderHoldPerUnit d accountId f (pd_side dto) (pd_qty dto) (priceOrCap dto cap) (pd_positionSide dto)
      | None \<Rightarrow>
          (case optionDef (pd_symbol dto) of
             Some o' \<Rightarrow> optionOrderHoldPerUnit d now accountId o' (pd_side dto) (pd_qty dto) (priceOrCap dto cap)
           | None \<Rightarrow> Inr (if pd_side dto = BUY then priceOrCap dto cap else 0)))"

definition holdPerUnitOf :: "int \<Rightarrow> string \<Rightarrow> place_dto \<Rightarrow> int \<Rightarrow> db \<Rightarrow> error + int" where
  "holdPerUnitOf now accountId dto cap d =
     bindE (principalHold now accountId dto cap d) (\<lambda>hold.
       if hold > 0 \<and> now \<ge> TRADING_FEES_EFFECTIVE_AT
       then bindE (isTradingFeeExempt d accountId) (\<lambda>exempt.
              Inr (if exempt then hold else orderHoldWithFee hold (pd_symbol dto) (priceOrCap dto cap) now))
       else Inr hold)"

text \<open>Whether the order ties up cash (a spot sale ties up shares instead).\<close>

definition holdsCash :: "place_dto \<Rightarrow> bool" where
  "holdsCash dto \<longleftrightarrow> futureDef (pd_symbol dto) \<noteq> None \<or> optionDef (pd_symbol dto) \<noteq> None \<or> pd_side dto = BUY"

definition reserve :: "lock_ctx \<Rightarrow> string \<Rightarrow> place_dto \<Rightarrow> int \<Rightarrow> db \<Rightarrow> error + db" where
  "reserve ctx accountId dto holdPerUnit d =
     (if holdsCash dto then
        let acc = snapshotOf ctx accountId;
            holdTotal = holdPerUnit * pd_qty dto;
            available = as_balance acc - as_holdAmount acc - futuresMarginHeld d accountId
        in if holdTotal > 0 \<and> available < holdTotal then Inl (Unprocessable ''available cash'')
           else cx_update ctx accountId (as_balance acc) (as_holdAmount acc + holdTotal) d
      else
        let key = (accountId, pd_symbol dto); holding = findRow (db_holdings d) key;
            availableQty = (case holding of None \<Rightarrow> 0 | Some h \<Rightarrow> ho_qty h - ho_holdQty h)
        in if availableQty < pd_qty dto then Inl (Unprocessable ''sellable quantity'')
           else case holding of
                  None \<Rightarrow> Inl (RowNotFound ''holdings'')
                | Some h \<Rightarrow> writeHolding key (h\<lparr>ho_holdQty := ho_holdQty h + pd_qty dto\<rparr>) d)"

definition newOrder :: "int \<Rightarrow> string \<Rightarrow> place_dto \<Rightarrow> int \<Rightarrow> order_row" where
  "newOrder now accountId dto holdPerUnit =
     \<lparr>or_accountId = accountId, or_symbol = pd_symbol dto, or_side = pd_side dto, or_type = pd_type dto,
      or_price = pd_price dto, or_qty = pd_qty dto, or_filledQty = 0, or_status = OPEN,
      or_holdPerUnit = holdPerUnit, or_positionSide = pd_positionSide dto, or_createdAt = now\<rparr>"

definition placedEvent :: "int \<Rightarrow> string \<Rightarrow> string \<Rightarrow> string \<Rightarrow> place_dto \<Rightarrow> int option \<Rightarrow> order_placed" where
  "placedEvent now eventId orderId accountId dto price =
     \<lparr>pl_eventId = eventId, pl_orderId = orderId, pl_accountId = accountId, pl_symbol = pd_symbol dto,
      pl_side = pd_side dto, pl_type = pd_type dto, pl_price = price, pl_qty = pd_qty dto, pl_ts = now\<rparr>"

text \<open>The transaction of \<open>place\<close>: the reservation, the order and the event, all or nothing.\<close>

definition placeBody ::
  "int \<Rightarrow> string \<Rightarrow> string \<Rightarrow> string \<Rightarrow> place_dto \<Rightarrow> int \<Rightarrow> int option \<Rightarrow> (string \<times> order_row) body" where
  "placeBody now orderId eventId accountId dto cap price ctx d =
     bindE (holdPerUnitOf now accountId dto cap d) (\<lambda>hold.
     bindE (reserve ctx accountId dto hold d) (\<lambda>d1.
     bindE (createOrder orderId (newOrder now accountId dto hold) d1) (\<lambda>d2.
     bindE (createOrderOutbox eventId (OrderPlaced (placedEvent now eventId orderId accountId dto price)) now d2) (\<lambda>d3.
     Inr ((orderId, newOrder now accountId dto hold), d3)))))"

definition place :: "(string \<Rightarrow> int option) \<Rightarrow> string \<Rightarrow> place_dto \<Rightarrow> (string \<times> order_row) service" where
  "place theo accountId dto =
     bindS (liftS (validateOrder dto)) (\<lambda>_.
     bindS (readDb (\<lambda>d. findRow (db_symbols d) (pd_symbol dto))) (\<lambda>row.
     case row of
       None \<Rightarrow> throwS (NotFoundError ''symbol'')
     | Some m \<Rightarrow>
         bindS freshId (\<lambda>orderId. bindS freshId (\<lambda>eventId. bindS clockS (\<lambda>now.
         txS (pessimisticLock [accountId]
                (placeBody now orderId eventId accountId dto (marketCap theo m dto) (eventPrice theo m dto))))))))"

section \<open>Idempotent placing\<close>

definition orderById :: "string \<Rightarrow> (string \<times> order_row) option service" where
  "orderById i = readDb (\<lambda>d. map_option (Pair i) (findRow (db_orders d) i))"

text \<open>At most 20 reads of the key; \<open>others\<close> acts while the request sleeps.\<close>

fun waitForIdempotentOrder ::
  "(nat \<Rightarrow> api \<Rightarrow> api) \<Rightarrow> nat \<Rightarrow> string \<Rightarrow> (string \<times> order_row) option service" where
  "waitForIdempotentOrder others 0 key = returnS None"
| "waitForIdempotentOrder others (Suc n) key =
     bindS (redisGet key) (\<lambda>v. case v of
       None \<Rightarrow> returnS None
     | Some i \<Rightarrow>
         if i \<noteq> ''pending'' \<and> i \<noteq> [] then orderById i
         else (\<lambda>s. waitForIdempotentOrder others n key (others n s)))"

text \<open>The order, and whether it is a replay of an earlier request.\<close>

definition placeIdempotent ::
  "(nat \<Rightarrow> api \<Rightarrow> api) \<Rightarrow> (string \<Rightarrow> int option) \<Rightarrow> string \<Rightarrow> place_dto \<Rightarrow> string \<Rightarrow>
     ((string \<times> order_row) \<times> bool) service" where
  "placeIdempotent others theo accountId dto idempotencyKey =
     (let key = KEYS (OrderIdempotency accountId idempotencyKey) in
      bindS (redisSetNx key ''pending'') (\<lambda>claimed.
      if \<not> claimed then
        bindS (waitForIdempotentOrder others 20 key) (\<lambda>existing. case existing of
          Some o' \<Rightarrow> returnS (o', True)
        | None \<Rightarrow> throwS (Unprocessable ''same key still in progress''))
      else catchS
        (bindS (place theo accountId dto) (\<lambda>o'.
         bindS (redisSet key (fst o')) (\<lambda>_. returnS (o', False))))
        (\<lambda>e. bindS (catchS (redisDel key) (\<lambda>_. returnS ())) (\<lambda>_. throwS e))))"

section \<open>Cancelling\<close>

definition cancelEvent :: "int \<Rightarrow> string \<Rightarrow> string \<Rightarrow> string \<Rightarrow> cancel_requested" where
  "cancelEvent now eventId orderId symbol =
     \<lparr>cr_eventId = eventId, cr_orderId = orderId, cr_symbol = symbol, cr_ts = now\<rparr>"

text \<open>\<open>outbox.create\<close> with a fresh event id.\<close>

definition requestCancel :: "string \<Rightarrow> string \<Rightarrow> unit service" where
  "requestCancel orderId symbol =
     bindS freshId (\<lambda>eventId. bindS clockS (\<lambda>now.
       txS (\<lambda>d. bindE (createOrderOutbox eventId (OrderCancelRequested (cancelEvent now eventId orderId symbol)) now d)
              (\<lambda>d. Inr ((), d)))))"

definition ownLiveOrder :: "string \<Rightarrow> order_row option \<Rightarrow> error + order_row" where
  "ownLiveOrder accountId row = (case row of
     None \<Rightarrow> Inl (NotFoundError ''order'')
   | Some o' \<Rightarrow>
       if or_accountId o' \<noteq> accountId then Inl (Forbidden ''order'')
       else if \<not> isActive (or_status o') then Inl (Unprocessable ''order is closed'')
       else Inr o')"

text \<open>The result says whether the request was a duplicate.\<close>

definition cancel :: "string \<Rightarrow> string \<Rightarrow> bool service" where
  "cancel accountId orderId =
     bindS (readDb (\<lambda>d. findRow (db_orders d) orderId)) (\<lambda>row.
     bindS (liftS (ownLiveOrder accountId row)) (\<lambda>o'.
     bindS (catchS (redisSetNx (KEYS (CancelRequested orderId)) ''1'') (\<lambda>_. returnS True)) (\<lambda>fresh.
     if \<not> fresh then returnS True
     else bindS
       (catchS (requestCancel orderId (or_symbol o'))
          (\<lambda>e. bindS (catchS (redisDel (KEYS (CancelRequested orderId))) (\<lambda>_. returnS ())) (\<lambda>_. throwS e)))
       (\<lambda>_. returnS False))))"

section \<open>Amending\<close>

record amendment =
  am_canceled :: order_row
  am_order :: "(string \<times> order_row) option"

text \<open>
  \<open>waitUntilClosed\<close> reads the order every 100 ms for 4 seconds: at most 40 reads.
\<close>

fun waitUntilClosed :: "(nat \<Rightarrow> api \<Rightarrow> api) \<Rightarrow> nat \<Rightarrow> string \<Rightarrow> order_row option service" where
  "waitUntilClosed others 0 orderId = returnS None"
| "waitUntilClosed others (Suc n) orderId =
     bindS (readDb (\<lambda>d. findRow (db_orders d) orderId)) (\<lambda>row.
       if (case row of Some o' \<Rightarrow> \<not> isActive (or_status o') | None \<Rightarrow> False) then returnS row
       else (\<lambda>s. waitUntilClosed others n orderId (others n s)))"

definition validateAmend :: "order_row \<Rightarrow> int \<Rightarrow> int \<Rightarrow> error + unit" where
  "validateAmend o' price qty =
     bindE (assertE (price > 0) (BadRequest ''price'')) (\<lambda>_.
     bindE (assertE (qty > 0) (BadRequest ''qty'')) (\<lambda>_.
     bindE (assertE (case tickSizeOf (or_symbol o') of
              None \<Rightarrow> True | Some tickSize \<Rightarrow> isOnTick (of_int price) tickSize) (BadRequest ''tick'')) (\<lambda>_.
     assertE (\<not> (Some price = or_price o' \<and> qty = or_qty o' - or_filledQty o')) (BadRequest ''no change''))))"

text \<open>A missing price or quantity stands for the order's own; a quantity defaults to what is unfilled.\<close>

definition amend ::
  "(nat \<Rightarrow> api \<Rightarrow> api) \<Rightarrow> (string \<Rightarrow> int option) \<Rightarrow> string \<Rightarrow> string \<Rightarrow> int option \<Rightarrow> int option \<Rightarrow> amendment service" where
  "amend others theo accountId orderId newPrice newQty =
     bindS (readDb (\<lambda>d. findRow (db_orders d) orderId)) (\<lambda>row.
     bindS (liftS (ownLiveOrder accountId row)) (\<lambda>o'.
     case (or_type o', or_price o') of
       (LIMIT, Some oldPrice) \<Rightarrow>
         (let price = (case newPrice of None \<Rightarrow> oldPrice | Some p \<Rightarrow> p);
              qty = (case newQty of None \<Rightarrow> or_qty o' - or_filledQty o' | Some q \<Rightarrow> q)
          in bindS (liftS (validateAmend o' price qty)) (\<lambda>_.
             bindS (cancel accountId orderId) (\<lambda>_.
             bindS (waitUntilClosed others 40 orderId) (\<lambda>r. case r of
               None \<Rightarrow> throwS (Unprocessable ''cancel not confirmed'')
             | Some c \<Rightarrow>
                 if or_status c = FILLED \<or> or_qty c - or_filledQty c \<le> 0
                 then returnS \<lparr>am_canceled = c, am_order = None\<rparr>
                 else bindS (place theo accountId
                        \<lparr>pd_symbol = or_symbol o', pd_side = or_side o', pd_type = LIMIT, pd_price = Some price,
                         pd_qty = min qty (or_qty c - or_filledQty c), pd_positionSide = or_positionSide o'\<rparr>)
                        (\<lambda>p. returnS \<lparr>am_canceled = c, am_order = Some p\<rparr>)))))
     | _ \<Rightarrow> throwS (BadRequest ''only limit orders'')))"

section \<open>Reading\<close>

text \<open>Newest first; rows of one instant keep their order.\<close>

definition myOrders :: "db \<Rightarrow> string \<Rightarrow> int \<Rightarrow> string option \<Rightarrow> bool \<Rightarrow> (string \<times> order_row) list" where
  "myOrders d accountId limit symbol liveOnly =
     take (nat (min limit (if liveOnly then 500 else 200)))
       (sort_key (\<lambda>(i, o'). - or_createdAt o')
          (filter (\<lambda>(i, o'). or_accountId o' = accountId \<and>
             (case symbol of None \<Rightarrow> True | Some x \<Rightarrow> or_symbol o' = x) \<and>
             (liveOnly \<longrightarrow> isActive (or_status o'))) (db_orders d)))"

text \<open>The cached snapshot as text, or an empty book at the last price while there is none.\<close>

definition liveQuoteState :: "string \<Rightarrow> string \<Rightarrow> ((string \<times> order_row) list \<times> (string + int)) service" where
  "liveQuoteState accountId symbol =
     (if symbol \<notin> set TRADABLE_SYMBOLS then throwS (NotFoundError ''symbol'')
      else bindS (readDb (\<lambda>d. myOrders d accountId 200 (Some symbol) True)) (\<lambda>orders.
           bindS (redisGet (KEYS (OrderbookSnapshot symbol))) (\<lambda>cached. case cached of
             Some book \<Rightarrow> returnS (orders, Inl book)
           | None \<Rightarrow>
               bindS (readDb (\<lambda>d. findRow (db_symbols d) symbol)) (\<lambda>m. case m of
                 None \<Rightarrow> throwS (NotFoundError ''symbol'')
               | Some row \<Rightarrow> returnS (orders, Inr (sy_lastPrice row))))))"

section \<open>The relay of the order outbox\<close>

text \<open>
  One pass: the oldest hundred unpublished rows are appended to the order stream and marked. The
  argument \<open>budget\<close> is how many of the pass's effects succeed before one fails (or the process dies);
  a pass that is still running keeps a second one out.
\<close>

record order_relay =
  re_db :: db
  re_stream :: "order_event list"

definition unpublishedOrders :: "db \<Rightarrow> (string \<times> order_outbox_row) list" where
  "unpublishedOrders d =
     take 100 (sort_key (\<lambda>(i, r). oo_createdAt r) (filter (\<lambda>(i, r). \<not> oo_published r) (db_orderOutbox d)))"

definition markOrderPublished :: "string \<Rightarrow> db \<Rightarrow> db" where
  "markOrderPublished eventId d =
     (case findRow (db_orderOutbox d) eventId of
        None \<Rightarrow> d
      | Some r \<Rightarrow> d\<lparr>db_orderOutbox := putRow eventId (r\<lparr>oo_published := True\<rparr>) (db_orderOutbox d)\<rparr>)"

fun relayOrders :: "nat \<Rightarrow> (string \<times> order_outbox_row) list \<Rightarrow> order_relay \<Rightarrow> bool \<times> order_relay" where
  "relayOrders budget [] w = (True, w)"
| "relayOrders 0 (row # rows) w = (False, w)"
| "relayOrders (Suc 0) ((i, r) # rows) w = (False, w\<lparr>re_stream := re_stream w @ [oo_payload r]\<rparr>)"
| "relayOrders (Suc (Suc budget)) ((i, r) # rows) w =
     relayOrders budget rows
       (w\<lparr>re_stream := re_stream w @ [oo_payload r], re_db := markOrderPublished i (re_db w)\<rparr>)"

definition flushOrders :: "nat \<Rightarrow> order_relay \<Rightarrow> bool \<times> order_relay" where
  "flushOrders budget w = relayOrders budget (unpublishedOrders (re_db w)) w"

end
