(* ===== verification/Order_Props.thy ===== *)
theory Order_Props
  imports Order_Service Settlement_Flow_Props Market_Props
begin

text \<open>
  Properties of the order service: what an accepted order reserves and writes, that closing orders
  never promise more than the position, the idempotency key, amendments, and the order relay.
\<close>

section \<open>Placing\<close>

text \<open>
  Spot, futures and option orders that tie up cash: the balance stays, the hold grows by the order's
  total, and what was free before (the balance less holds, position margins and debts) covers it.
\<close>

definition cashReserved :: "string \<Rightarrow> int \<Rightarrow> db \<Rightarrow> (string, account_row) rows \<Rightarrow> bool" where
  "cashReserved accountId amount d accounts \<longleftrightarrow>
     (\<exists>a a'. findRow (db_accounts d) accountId = Some a \<and> accounts = putRow accountId a' (db_accounts d) \<and>
        ac_userId a' = ac_userId a \<and> ac_balance a' = ac_balance a \<and> ac_holdAmount a' = ac_holdAmount a + amount \<and>
        accountCheck a' \<and> (amount > 0 \<longrightarrow> ac_holdAmount a' + futuresMarginHeld d accountId \<le> ac_balance a'))"

text \<open>A spot sale: no account changes, and the shares were there.\<close>

definition sharesReserved :: "string \<times> string \<Rightarrow> int \<Rightarrow> db \<Rightarrow> (string \<times> string, holding_row) rows \<Rightarrow> bool" where
  "sharesReserved key qty d holdings \<longleftrightarrow>
     (\<exists>h. findRow (db_holdings d) key = Some h \<and>
        holdings = putRow key (h\<lparr>ho_holdQty := ho_holdQty h + qty\<rparr>) (db_holdings d) \<and>
        ho_holdQty h + qty \<le> ho_qty h)"

definition reserved :: "string \<Rightarrow> place_dto \<Rightarrow> int \<Rightarrow> db \<Rightarrow> db \<Rightarrow> bool" where
  "reserved accountId dto hold d d' \<longleftrightarrow>
     (if holdsCash dto
      then \<exists>accounts. d' = d\<lparr>db_accounts := accounts\<rparr> \<and> cashReserved accountId (hold * pd_qty dto) d accounts
      else \<exists>holdings. d' = d\<lparr>db_holdings := holdings\<rparr> \<and>
             sharesReserved (accountId, pd_symbol dto) (pd_qty dto) d holdings)"

context account_lock
begin

lemma reserve_exact:
  assumes "cx_update ctx = upd" "findRow (db_accounts d) i = Some a" "snapshotOf ctx i = stateOf a"
    and "reserve ctx i dto hold d = Inr d'"
  shows "reserved i dto hold d d'"
proof (cases "holdsCash dto")
  case True
  let ?t = "hold * pd_qty dto"
  have ok: "\<not> (?t > 0 \<and> ac_balance a - ac_holdAmount a - futuresMarginHeld d i < ?t)"
    and u: "upd i (ac_balance a) (ac_holdAmount a + ?t) d = Inr d'"
    using assms True by (auto simp: reserve_def Let_def split: if_splits)
  from upd_stores [OF u] assms(2) obtain a' where
    "ac_balance a' = ac_balance a" "ac_holdAmount a' = ac_holdAmount a + ?t" "ac_userId a' = ac_userId a"
    "accountCheck a'" "d' = d\<lparr>db_accounts := putRow i a' (db_accounts d)\<rparr>"
    by (auto simp: storedAccount_def)
  then show ?thesis using True ok assms(2)
    by (auto simp: reserved_def cashReserved_def intro!: exI [of _ a'])
next
  case False
  then show ?thesis using assms(4)
    by (auto simp: reserve_def reserved_def sharesReserved_def writeHolding_Inr Let_def split: option.splits if_splits)
qed

end

text \<open>What an accepted order leaves in the database.\<close>

definition placedDb ::
  "string \<Rightarrow> place_dto \<Rightarrow> int \<Rightarrow> string \<times> order_row \<Rightarrow> string \<times> order_event \<Rightarrow> int \<Rightarrow> db \<Rightarrow> db \<Rightarrow> bool" where
  "placedDb accountId dto hold io' event now d d' \<longleftrightarrow>
     (\<exists>d1. reserved accountId dto hold d d1 \<and>
        d' = d1\<lparr>db_orders := db_orders d @ [io'],
               db_orderOutbox := db_orderOutbox d @
                 [(fst event, \<lparr>oo_payload = snd event, oo_createdAt = now, oo_published = False\<rparr>)]\<rparr> \<and>
        findRow (db_orders d) (fst io') = None \<and> findRow (db_orderOutbox d) (fst event) = None)"

lemma reserved_fields:
  assumes "reserved i dto hold d d1"
  shows "db_orders d1 = db_orders d" "db_orderOutbox d1 = db_orderOutbox d" "db_positions d1 = db_positions d"
    "db_users d1 = db_users d" "db_debts d1 = db_debts d" "db_symbols d1 = db_symbols d"
  using assms by (auto simp: reserved_def split: if_splits)

lemma placeBody_Inr:
  assumes "lockedCtx [i] d ctx" and "placeBody now orderId eventId i dto cap price ctx d = Inr (r, d')"
  obtains hold where "holdPerUnitOf now i dto cap d = Inr hold" "r = (orderId, newOrder now i dto hold)"
    "placedDb i dto hold r (eventId, OrderPlaced (placedEvent now eventId orderId i dto price)) now d d'"
proof -
  from lockedCtx_snapshot [OF assms(1), of i] obtain a where
    a: "findRow (db_accounts d) i = Some a" "snapshotOf ctx i = stateOf a" by auto
  from assms(1) have up: "cx_update ctx = updatePessimistic (cx_accounts ctx)" by (simp add: lockedCtx_def)
  from assms(2) obtain hold where h: "holdPerUnitOf now i dto cap d = Inr hold"
    and "bindE (reserve ctx i dto hold d) (\<lambda>d1.
      bindE (createOrder orderId (newOrder now i dto hold) d1) (\<lambda>d2.
      bindE (createOrderOutbox eventId (OrderPlaced (placedEvent now eventId orderId i dto price)) now d2) (\<lambda>d3.
      Inr ((orderId, newOrder now i dto hold), d3)))) = Inr (r, d')"
    unfolding placeBody_def by (rule bindE_InrE)
  then obtain d1 where d1: "reserve ctx i dto hold d = Inr d1"
    and rest: "bindE (createOrder orderId (newOrder now i dto hold) d1) (\<lambda>d2.
      bindE (createOrderOutbox eventId (OrderPlaced (placedEvent now eventId orderId i dto price)) now d2) (\<lambda>d3.
      Inr ((orderId, newOrder now i dto hold), d3))) = Inr (r, d')"
    by (blast elim: bindE_InrE)
  have res: "reserved i dto hold d d1" by (rule pessimistic.reserve_exact [OF up a d1])
  note f = reserved_fields [OF res]
  show ?thesis
  proof (rule that [OF h])
    show "r = (orderId, newOrder now i dto hold)" using rest by (auto elim!: bindE_InrE)
    show "placedDb i dto hold r (eventId, OrderPlaced (placedEvent now eventId orderId i dto price)) now d d'"
      unfolding placedDb_def using res rest f
      by (intro exI [of _ d1]) (auto elim!: bindE_InrE simp: createOrder_Inr createOrderOutbox_Inr)
  qed
qed

lemma place_cases:
  assumes "place theo i dto s = (r, s')"
  obtains (refused) e where "r = Inl e" "ap_db s' = ap_db s" "ap_redis s' = ap_redis s" "ap_redisUp s' = ap_redisUp s"
        "ap_ids s' = ap_ids s" "ap_next s \<le> ap_next s'"
    | (accepted) m hold where "findRow (db_symbols (ap_db s)) (pd_symbol dto) = Some m" "validateOrder dto = Inr ()"
        "holdPerUnitOf (ap_now s) i dto (marketCap theo m dto) (ap_db s) = Inr hold"
        "r = Inr (ap_ids s (ap_next s), newOrder (ap_now s) i dto hold)"
        "s' = s\<lparr>ap_db := ap_db s', ap_next := Suc (Suc (ap_next s))\<rparr>"
        "placedDb i dto hold (ap_ids s (ap_next s), newOrder (ap_now s) i dto hold)
           (ap_ids s (Suc (ap_next s)), OrderPlaced (placedEvent (ap_now s) (ap_ids s (Suc (ap_next s)))
              (ap_ids s (ap_next s)) i dto (eventPrice theo m dto))) (ap_now s) (ap_db s) (ap_db s')"
proof (cases "validateOrder dto")
  case (Inl e)
  then show ?thesis using assms refused by (auto simp: place_def)
next
  case (Inr u)
  show ?thesis
  proof (cases "findRow (db_symbols (ap_db s)) (pd_symbol dto)")
    case None
    then show ?thesis using assms Inr refused by (auto simp: place_def)
  next
    case (Some m)
    let ?body = "placeBody (ap_now s) (ap_ids s (ap_next s)) (ap_ids s (Suc (ap_next s))) i dto
      (marketCap theo m dto) (eventPrice theo m dto)"
    let ?s = "s\<lparr>ap_next := Suc (Suc (ap_next s))\<rparr>"
    have tx: "txS (pessimisticLock [i] ?body) ?s = (r, s')"
      using assms Inr Some by (simp add: place_def)
    then show ?thesis
    proof (cases rule: txS_cases)
      case (rolled_back e)
      then show ?thesis by (intro refused [of e]) simp_all
    next
      case (committed x d)
      then obtain ctx where ctx: "lockedCtx [i] (ap_db s) ctx" "?body ctx (ap_db s) = Inr (x, d)"
        by (auto simp: pessimisticLock_Inr)
      from placeBody_Inr [OF ctx] obtain hold where
        h: "holdPerUnitOf (ap_now s) i dto (marketCap theo m dto) (ap_db s) = Inr hold"
          "x = (ap_ids s (ap_next s), newOrder (ap_now s) i dto hold)"
          "placedDb i dto hold x (ap_ids s (Suc (ap_next s)), OrderPlaced (placedEvent (ap_now s)
             (ap_ids s (Suc (ap_next s))) (ap_ids s (ap_next s)) i dto (eventPrice theo m dto))) (ap_now s) (ap_db s) d" .
      show ?thesis using accepted [OF Some _ h(1)] Inr committed h by simp
    qed
  qed
qed

text \<open>
  C15. Placing an order is all or nothing: a refused order leaves the database as it was; an accepted one
  writes exactly one open order, one unpublished event for the matching engine that carries the same
  order, and its reservation. The reservation is the hold per unit times the quantity; for cash it
  leaves the balance alone and stays within what is not held, tied up as margin or owed, for a spot
  sale it stays within the shares not yet promised.
\<close>

theorem place_all_or_nothing:
  "case place theo accountId dto s of
     (Inl e, s') \<Rightarrow> ap_db s' = ap_db s
   | (Inr (i, o'), s') \<Rightarrow>
       \<exists>m hold eventId ev. findRow (db_symbols (ap_db s)) (pd_symbol dto) = Some m \<and>
         holdPerUnitOf (ap_now s) accountId dto (marketCap theo m dto) (ap_db s) = Inr hold \<and>
         or_holdPerUnit o' = hold \<and> or_qty o' = pd_qty dto \<and> or_filledQty o' = 0 \<and> or_status o' = OPEN \<and>
         pl_orderId ev = i \<and> pl_qty ev = or_qty o' \<and> pl_side ev = or_side o' \<and> pl_symbol ev = or_symbol o' \<and>
         pl_accountId ev = or_accountId o' \<and> pl_price ev = eventPrice theo m dto \<and>
         placedDb accountId dto hold (i, o') (eventId, OrderPlaced ev) (ap_now s) (ap_db s) (ap_db s')"
proof -
  obtain r s' where p: "place theo accountId dto s = (r, s')" by (cases "place theo accountId dto s")
  show ?thesis
    unfolding p using p
    by (cases rule: place_cases) (auto simp: newOrder_def placedEvent_def intro!: exI)
qed

section \<open>Closing orders\<close>

text \<open>The live orders that close one direction of a future promise no more than that position.\<close>

definition closingCovered :: "db \<Rightarrow> string \<Rightarrow> string \<Rightarrow> position_side \<Rightarrow> bool" where
  "closingCovered d accountId symbol ps \<longleftrightarrow>
     reservedQty d accountId symbol (hedgeCloseSide ps) (\<lambda>o'. or_positionSide o' = Some ps)
       \<le> \<bar>heldQty d accountId symbol (rowSideOf (Some ps))\<bar>"

text \<open>A person's live option sales without margin promise no more than the options held.\<close>

definition optionSalesCovered :: "db \<Rightarrow> string \<Rightarrow> string \<Rightarrow> bool" where
  "optionSalesCovered d accountId symbol \<longleftrightarrow>
     (isOption symbol \<and> \<not> isBotAccount d accountId \<longrightarrow>
        reservedQty d accountId symbol SELL (\<lambda>o'. or_holdPerUnit o' = 0) \<le> max 0 (heldQty d accountId symbol NET))"

definition promisesCovered :: "db \<Rightarrow> bool" where
  "promisesCovered d \<longleftrightarrow>
     (\<forall>accountId symbol. (\<forall>ps. closingCovered d accountId symbol ps) \<and> optionSalesCovered d accountId symbol)"

lemma reservedQty_snoc:
  assumes "db_orders d' = db_orders d @ [(i, o')]"
  shows "reservedQty d' a sym' side w = reservedQty d a sym' side w +
    (if or_accountId o' = a \<and> or_symbol o' = sym' \<and> or_side o' = side \<and> isActive (or_status o') \<and> w o'
     then or_qty o' - or_filledQty o' else 0)"
  using assms by (simp add: reservedQty_def)

lemma isBotAccount_owner:
  "isBotAccount d a = (case map_option ac_userId (findRow (db_accounts d) a) of None \<Rightarrow> False
     | Some u \<Rightarrow> (case findRow (db_users d) u of None \<Rightarrow> False | Some r \<Rightarrow> us_isBot r))"
  by (simp add: isBotAccount_def split: option.split)

lemma reserved_owner:
  assumes "reserved i dto hold d d1"
  shows "map_option ac_userId (findRow (db_accounts d1) a) = map_option ac_userId (findRow (db_accounts d) a)"
  using assms by (auto simp: reserved_def cashReserved_def rows.look_put split: if_splits)

lemma placedDb_facts:
  assumes "placedDb i dto hold io' event now d d'"
  shows "db_orders d' = db_orders d @ [io']" "heldQty d' a sym' side = heldQty d a sym' side"
    "isBotAccount d' a = isBotAccount d a"
proof -
  from assms obtain d1 where r: "reserved i dto hold d d1" and d': "db_orders d' = db_orders d @ [io']"
    "db_positions d' = db_positions d1" "db_users d' = db_users d1" "db_accounts d' = db_accounts d1"
    by (auto simp: placedDb_def)
  then show "db_orders d' = db_orders d @ [io']" by simp
  show "heldQty d' a sym' side = heldQty d a sym' side" using reserved_fields [OF r] d' by (simp add: heldQty_def)
  show "isBotAccount d' a = isBotAccount d a"
    unfolding isBotAccount_owner d' reserved_owner [OF r] reserved_fields [OF r] ..
qed

lemma hold_zero_iff:
  assumes "holdPerUnitOf now i dto cap d = Inr hold" and "principalHold now i dto cap d = Inr x"
  shows "x = 0 \<Longrightarrow> hold = 0"
  using assms by (auto simp: holdPerUnitOf_def)

lemma closing_order_room:
  assumes "holdPerUnitOf now i dto cap d = Inr hold" "pd_positionSide dto = Some ps" "pd_side dto = hedgeCloseSide ps"
    and "validateOrder dto = Inr ()"
  shows "pd_qty dto + reservedQty d i (pd_symbol dto) (pd_side dto) (\<lambda>o'. or_positionSide o' = Some ps)
    \<le> \<bar>heldQty d i (pd_symbol dto) (rowSideOf (Some ps))\<bar>"
proof -
  from assms(4) have "futureDef (pd_symbol dto) \<noteq> None"
    unfolding validateOrder_def Let_def by (auto elim!: bindE_InrE simp: assertE_eq_Inr_iff assms(2))
  then obtain f where f: "futureDef (pd_symbol dto) = Some f" by blast
  then have fs: "fd_symbol f = pd_symbol dto" by (auto simp: futureDef_def find_Some_iff)
  from assms(3) have "\<not> isOpeningHedgeOrder (pd_side dto) ps"
    by (cases ps) (simp_all add: isOpeningHedgeOrder_def hedgeCloseSide_def)
  then show ?thesis using assms(1,2) f fs
    by (auto simp: holdPerUnitOf_def principalHold_def futuresOrderHoldPerUnit_def heldQty_def Let_def
        bindE_eq_Inr_iff split: if_splits option.splits)
qed

lemma option_sale_room:
  assumes "holdPerUnitOf now i dto cap d = Inr hold" "isOption (pd_symbol dto)" "pd_side dto = SELL"
    and "\<not> isBotAccount d i"
  shows "pd_qty dto + reservedQty d i (pd_symbol dto) SELL (\<lambda>o'. or_holdPerUnit o' = 0)
    \<le> max 0 (heldQty d i (pd_symbol dto) NET)"
proof -
  from assms(2) obtain o' where o': "optionDef (pd_symbol dto) = Some o'" unfolding isOption_iff by blast
  then have os: "od_symbol o' = pd_symbol dto" by (auto simp: optionDef_def find_Some_iff)
  have "pd_symbol dto \<notin> set (map fd_symbol FUTURES)" using assms(2) no_future_option
    unfolding isOption_def by blast
  then have "futureDef (pd_symbol dto) = None" using isFuture_iff unfolding isFuture_def by blast
  then show ?thesis using assms(1,3,4) o' os
    by (auto simp: holdPerUnitOf_def principalHold_def optionOrderHoldPerUnit_def heldQty_def Let_def
        bindE_eq_Inr_iff split: if_splits option.splits)
qed

text \<open>
  C16. Placing an order never promises more than there is to close: when the live closing orders of every
  futures direction stay within its position, and the margin-free option sales of every person within
  the options held, this is still so after any request, accepted or refused.
\<close>

theorem place_keeps_promises_covered:
  assumes "promisesCovered (ap_db s)"
  shows "promisesCovered (ap_db (snd (place theo i dto s)))"
proof -
  obtain r s' where p: "place theo i dto s = (r, s')" by (cases "place theo i dto s")
  from p show ?thesis
  proof (cases rule: place_cases)
    case (refused e)
    then show ?thesis using assms p by simp
  next
    case (accepted m hold)
    let ?d = "ap_db s" and ?d' = "ap_db s'" and ?o = "newOrder (ap_now s) i dto hold"
    note f = placedDb_facts [OF accepted(6)]
    note snoc = reservedQty_snoc [OF f(1)]
    have "closingCovered ?d' a symbol ps" for a symbol ps
      using assms closing_order_room [OF accepted(3) _ _ accepted(2), of ps]
      by (auto simp: promisesCovered_def closingCovered_def snoc f(2) newOrder_def)
    moreover have "optionSalesCovered ?d' a symbol" for a symbol
      using assms option_sale_room [OF accepted(3)]
      by (auto simp: promisesCovered_def optionSalesCovered_def snoc f(2,3) newOrder_def)
    ultimately show ?thesis by (simp add: promisesCovered_def p)
  qed
qed

section \<open>The idempotency key\<close>

lemma waitForIdempotentOrder_key:
  assumes "waitForIdempotentOrder others n key s = (Inr (Some (i, o')), s')"
  shows "findRow (ap_redis s') key = Some i"
  using assms
  by (induction n arbitrary: s)
    (auto simp: bindS_Inr_iff redisGet_def orderById_def split: option.splits if_splits)

lemma placeIdempotent_replay:
  assumes "ap_redisUp s" "findRow (ap_redis s) (KEYS (OrderIdempotency accountId key)) = Some i"
    and "i \<noteq> []" "i \<noteq> ''pending''" "findRow (db_orders (ap_db s)) i = Some row"
  shows "placeIdempotent others theo accountId dto key s = (Inr ((i, row), True), s)"
  using assms
  by (simp add: placeIdempotent_def Let_def bindS_def redisSetNx_def redisGet_def orderById_def
      eval_nat_numeral)

lemma placeIdempotent_fresh:
  fixes s :: api
  assumes "ap_redisUp s" "findRow (ap_redis s) (KEYS (OrderIdempotency accountId key)) = None"
  shows "placeIdempotent others theo accountId dto key s =
    catchS
      (bindS (place theo accountId dto) (\<lambda>o'.
       bindS (redisSet (KEYS (OrderIdempotency accountId key)) (fst o')) (\<lambda>_. returnS (o', False))))
      (\<lambda>e. bindS (catchS (redisDel (KEYS (OrderIdempotency accountId key))) (\<lambda>_. returnS ())) (\<lambda>_. throwS e))
      (s\<lparr>ap_redis := putRow (KEYS (OrderIdempotency accountId key)) ''pending'' (ap_redis s)\<rparr>)"
  using assms unfolding placeIdempotent_def Let_def
  by (subst bindS_simps(2) [where x = True]) (auto simp: redisSetNx_def simp del: KEYS.simps)


section \<open>Amending\<close>

lemma waitUntilClosed_Some:
  "waitUntilClosed others n i s = (Inr (Some c), s') \<Longrightarrow>
    \<not> isActive (or_status c) \<and> findRow (db_orders (ap_db s')) i = Some c"
  by (induction n arbitrary: s) (auto split: if_splits option.splits)

definition amendDto :: "order_row \<Rightarrow> int \<Rightarrow> int \<Rightarrow> order_row \<Rightarrow> place_dto" where
  "amendDto o' price qty c =
     \<lparr>pd_symbol = or_symbol o', pd_side = or_side o', pd_type = LIMIT, pd_price = Some price,
      pd_qty = min qty (or_qty c - or_filledQty c), pd_positionSide = or_positionSide o'\<rparr>"

lemma ownLiveOrder_Inr:
  "ownLiveOrder accountId row = Inr o' \<longleftrightarrow> row = Some o' \<and> or_accountId o' = accountId \<and> isActive (or_status o')"
  by (auto simp: ownLiveOrder_def split: option.splits)

lemma amend_Inr:
  assumes "amend others theo accountId orderId newPrice newQty s = (Inr a, s')"
  obtains o' c s1 s2 b price qty where "findRow (db_orders (ap_db s)) orderId = Some o'" "or_accountId o' = accountId"
    "waitUntilClosed others 40 orderId s1 = (Inr (Some c), s2)"
    "(if or_status c = FILLED \<or> or_qty c - or_filledQty c \<le> 0 then returnS \<lparr>am_canceled = c, am_order = None\<rparr>
      else bindS (place theo accountId (amendDto o' price qty c))
             (\<lambda>p. returnS \<lparr>am_canceled = c, am_order = Some p\<rparr>)) s2 = (Inr a, s')"
proof -
  from assms obtain o' s0 where o': "ownLiveOrder accountId (findRow (db_orders (ap_db s)) orderId) = Inr o'"
    and run: "(case (or_type o', or_price o') of
       (LIMIT, Some oldPrice) \<Rightarrow>
         (let price = (case newPrice of None \<Rightarrow> oldPrice | Some p \<Rightarrow> p);
              qty = (case newQty of None \<Rightarrow> or_qty o' - or_filledQty o' | Some q \<Rightarrow> q)
          in bindS (liftS (validateAmend o' price qty)) (\<lambda>_.
             bindS (cancel accountId orderId) (\<lambda>_.
             bindS (waitUntilClosed others 40 orderId) (\<lambda>r. case r of
               None \<Rightarrow> throwS (Unprocessable ''cancel not confirmed'')
             | Some c \<Rightarrow>
                 if or_status c = FILLED \<or> or_qty c - or_filledQty c \<le> 0
                 then returnS \<lparr>am_canceled = c, am_order = None\<rparr>
                 else bindS (place theo accountId (amendDto o' price qty c))
                        (\<lambda>p. returnS \<lparr>am_canceled = c, am_order = Some p\<rparr>)))))
     | _ \<Rightarrow> throwS (BadRequest ''only limit orders'')) s0 = (Inr a, s')"
    unfolding amend_def amendDto_def by (auto simp: bindS_Inr_iff)
  from run obtain oldPrice where "or_type o' = LIMIT" "or_price o' = Some oldPrice"
    by (auto split: order_type.splits option.splits)
  with run obtain price qty s1 c s2 where "waitUntilClosed others 40 orderId s1 = (Inr (Some c), s2)"
    "(if or_status c = FILLED \<or> or_qty c - or_filledQty c \<le> 0 then returnS \<lparr>am_canceled = c, am_order = None\<rparr>
      else bindS (place theo accountId (amendDto o' price qty c))
             (\<lambda>p. returnS \<lparr>am_canceled = c, am_order = Some p\<rparr>)) s2 = (Inr a, s')"
    by (auto simp: Let_def bindS_Inr_iff split: option.splits)
  then show ?thesis using that o' by (simp add: ownLiveOrder_Inr)
qed


section \<open>The order relay\<close>

text \<open>Everything marked published has reached the stream.\<close>

definition publishedSent :: "order_relay \<Rightarrow> bool" where
  "publishedSent w \<longleftrightarrow>
     (\<forall>i r. findRow (db_orderOutbox (re_db w)) i = Some r \<and> oo_published r \<longrightarrow> oo_payload r \<in> set (re_stream w))"

text \<open>What a mark keeps: the events themselves.\<close>

definition eventOf :: "db \<Rightarrow> string \<Rightarrow> order_event option" where
  "eventOf d i = map_option oo_payload (findRow (db_orderOutbox d) i)"

lemma markOrderPublished_facts:
  "eventOf (markOrderPublished i d) = eventOf d"
  "findRow (db_orderOutbox (markOrderPublished i d)) j =
     (if i = j then map_option (\<lambda>r. r\<lparr>oo_published := True\<rparr>) (findRow (db_orderOutbox d) j)
      else findRow (db_orderOutbox d) j)"
  by (auto simp: eventOf_def fun_eq_iff markOrderPublished_def rows.look_put split: option.split)

lemma relayOrders_spec:
  assumes "relayOrders budget rows w = (finished, w')" and "publishedSent w"
    and "\<forall>(i, r) \<in> set rows. eventOf (re_db w) i = Some (oo_payload r)"
  shows "publishedSent w' \<and> eventOf (re_db w') = eventOf (re_db w) \<and>
    (\<exists>n. re_stream w' = re_stream w @ map (oo_payload \<circ> snd) (take n rows) \<and> (finished \<longrightarrow> n = length rows)) \<and>
    (\<forall>i r. findRow (db_orderOutbox (re_db w)) i = Some r \<and> oo_published r \<longrightarrow>
       findRow (db_orderOutbox (re_db w')) i = Some r) \<and>
    (finished \<longrightarrow> (\<forall>(i, r) \<in> set rows. \<exists>r'. findRow (db_orderOutbox (re_db w')) i = Some r' \<and> oo_published r'))"
  using assms
proof (induction budget rows w rule: relayOrders.induct)
  case (1 budget w)
  then show ?case by (auto intro!: exI [of _ 0])
next
  case (2 row rows w)
  then show ?case by (auto intro!: exI [of _ 0])
next
  case (3 i r rows w)
  then show ?case by (auto simp: publishedSent_def intro!: exI [of _ 1])
next
  case (4 budget i r rows w)
  let ?w = "w\<lparr>re_stream := re_stream w @ [oo_payload r], re_db := markOrderPublished i (re_db w)\<rparr>"
  note f = markOrderPublished_facts
  from 4(4) have i: "eventOf (re_db w) i = Some (oo_payload r)" by simp
  have sent: "publishedSent ?w"
    using 4(3) i by (auto simp: publishedSent_def f(2) eventOf_def split: if_splits)
  have ev: "\<forall>(j, x) \<in> set rows. eventOf (re_db ?w) j = Some (oo_payload x)" using 4(4) by (auto simp: f(1))
  have run: "relayOrders budget rows ?w = (finished, w')" using 4(2) by simp
  from 4(1) [OF run sent ev] obtain n where ih: "publishedSent w'" "eventOf (re_db w') = eventOf (re_db w)"
    "re_stream w' = re_stream w @ oo_payload r # map (oo_payload \<circ> snd) (take n rows)" "finished \<longrightarrow> n = length rows"
    "\<forall>j x. findRow (db_orderOutbox (re_db ?w)) j = Some x \<and> oo_published x \<longrightarrow>
       findRow (db_orderOutbox (re_db w')) j = Some x"
    "finished \<longrightarrow> (\<forall>(j, x) \<in> set rows. \<exists>r'. findRow (db_orderOutbox (re_db w')) j = Some r' \<and> oo_published r')"
    by (auto simp: f(1) comp_def)
  from i obtain x where x: "findRow (db_orderOutbox (re_db w)) i = Some x" by (auto simp: eventOf_def)
  have marked: "findRow (db_orderOutbox (re_db w')) i = Some (x\<lparr>oo_published := True\<rparr>)"
    using ih(5) x by (simp add: f(2))
  have keep: "findRow (db_orderOutbox (re_db w')) j = Some y"
    if "findRow (db_orderOutbox (re_db w)) j = Some y" "oo_published y" for j y
  proof (cases "j = i")
    case True
    then have "y\<lparr>oo_published := True\<rparr> = y" using that by (cases y) simp
    then show ?thesis using marked x that True by simp
  next
    case False
    then show ?thesis using ih(5) that by (simp add: f(2))
  qed
  show ?case
    using ih(1-4,6) marked keep by (auto simp: comp_def intro!: exI [of _ "Suc n"])
qed

text \<open>
  C19. The relay of the order outbox delivers every order event at least once: whatever call of a pass
  fails, the stream grows by the pass's oldest unpublished events in order of creation, nothing that
  is marked published is missing from the stream or unmarked again, no event changes, and a pass
  without a failure publishes the whole batch.
\<close>

theorem order_relay_at_least_once:
  assumes "publishedSent w" and "uniqueKeys (db_orderOutbox (re_db w))" and "flushOrders budget w = (finished, w')"
  shows "publishedSent w' \<and> eventOf (re_db w') = eventOf (re_db w) \<and>
    (\<exists>n. re_stream w' = re_stream w @ map (oo_payload \<circ> snd) (take n (unpublishedOrders (re_db w)))) \<and>
    (\<forall>i r. findRow (db_orderOutbox (re_db w)) i = Some r \<and> oo_published r \<longrightarrow>
       findRow (db_orderOutbox (re_db w')) i = Some r) \<and>
    (finished \<longrightarrow> (\<forall>(i, r) \<in> set (unpublishedOrders (re_db w)).
       \<exists>r'. findRow (db_orderOutbox (re_db w')) i = Some r' \<and> oo_published r'))"
proof -
  have "set (unpublishedOrders (re_db w)) \<subseteq> set (db_orderOutbox (re_db w))"
    unfolding unpublishedOrders_def by (rule order_trans [OF set_take_subset]) auto
  then have "\<forall>(i, r) \<in> set (unpublishedOrders (re_db w)). eventOf (re_db w) i = Some (oo_payload r)"
    using assms(2) by (auto simp: eventOf_def findRow_unique [symmetric] dest!: subsetD)
  from relayOrders_spec [OF assms(3) [unfolded flushOrders_def] assms(1) this] show ?thesis by blast
qed

section \<open>Examples\<close>

text \<open>A owns 3 long contracts of KABUF and 5000000 won; B's shares are on sale.\<close>

definition demoDesk :: db where
  "demoDesk = demoBank\<lparr>
     db_accounts := [(''A'', \<lparr>ac_userId = ''ua'', ac_balance = 5000000, ac_holdAmount = 1010, ac_version = 1, ac_fencingToken = 0\<rparr>)],
     db_symbols := [(''KABU'', \<lparr>sy_initialPrice = 100, sy_lastPrice = 100, sy_listedAt = None, sy_listedShares = 1000, sy_kind = STOCK\<rparr>),
       (''KABUF'', \<lparr>sy_initialPrice = 88000, sy_lastPrice = 88000, sy_listedAt = None, sy_listedShares = 0, sy_kind = FUTURE\<rparr>)],
     db_positions := [((''A'', ''KABUF'', LONG_ROW),
       \<lparr>po_qty = 3, po_entryValue = 264000, po_marginHeld = 100000, po_leverage = None\<rparr>)]\<rparr>"

definition demoApi :: api where
  "demoApi = \<lparr>ap_db = demoDesk, ap_redis = [], ap_redisUp = True,
     ap_ids = (\<lambda>n. ''id'' @ replicate n (CHR ''x'')), ap_next = 0, ap_now = 1800000000000, ap_manual = None\<rparr>"

definition demoClose :: place_dto where
  "demoClose = \<lparr>pd_symbol = ''KABUF'', pd_side = SELL, pd_type = MARKET, pd_price = None, pd_qty = 3,
     pd_positionSide = Some LONG\<rparr>"

lemma promisesCovered_spot:
  assumes "\<forall>(i, o') \<in> set (db_orders d). or_positionSide o' = None \<and> \<not> isOption (or_symbol o')"
  shows "promisesCovered d"
proof -
  have "filter (\<lambda>(i, o'). or_accountId o' = a \<and> or_symbol o' = x \<and> or_side o' = side \<and>
    isActive (or_status o') \<and> or_positionSide o' = Some ps) (db_orders d) = []" for a x side ps
    using assms by (auto simp: filter_empty_conv)
  moreover have "filter (\<lambda>(i, o'). or_accountId o' = a \<and> or_symbol o' = x \<and> or_side o' = side \<and>
    isActive (or_status o') \<and> or_holdPerUnit o' = 0) (db_orders d) = []" if "isOption x" for a x side
    using assms that by (auto simp: filter_empty_conv)
  ultimately show ?thesis
    by (simp add: promisesCovered_def closingCovered_def optionSalesCovered_def reservedQty_def)
qed

lemma place_keeps_promises_covered_witness:
  "isInr (fst (place (\<lambda>_. None) ''A'' demoClose demoApi)) \<and>
   promisesCovered (ap_db (snd (place (\<lambda>_. None) ''A'' demoClose demoApi)))"
proof
  show "isInr (fst (place (\<lambda>_. None) ''A'' demoClose demoApi))" by code_simp
  have "promisesCovered (ap_db demoApi)" by (rule promisesCovered_spot) code_simp
  then show "promisesCovered (ap_db (snd (place (\<lambda>_. None) ''A'' demoClose demoApi)))"
    by (rule place_keeps_promises_covered)
qed


text \<open>A buys 10 shares at 100 and amends the price; the engine cancels the old order while A waits.\<close>

definition demoEngine :: "nat \<Rightarrow> api \<Rightarrow> api" where
  "demoEngine n s = s\<lparr>ap_db := (ap_db s)\<lparr>db_orders :=
     putRow ''o1'' ((demoOrderRow ''A'' BUY 101)\<lparr>or_status := CANCELED, or_filledQty := 4\<rparr>) (db_orders (ap_db s))\<rparr>\<rparr>"


definition demoRelay :: order_relay where
  "demoRelay = \<lparr>re_db = ap_db (snd (cancel ''A'' ''o1'' (snd (place (\<lambda>_. None) ''A'' demoClose demoApi)))), re_stream = []\<rparr>"

lemma order_relay_at_least_once_witness:
  "length (re_stream (snd (flushOrders 3 demoRelay))) = 2 \<and> publishedSent (snd (flushOrders 3 demoRelay))"
proof
  show "length (re_stream (snd (flushOrders 3 demoRelay))) = 2" by code_simp
  have none: "\<forall>(i, r) \<in> set (db_orderOutbox (re_db demoRelay)). \<not> oo_published r" by code_simp
  then have "publishedSent demoRelay" by (auto simp: publishedSent_def dest!: findRow_in_set)
  moreover have "uniqueKeys (db_orderOutbox (re_db demoRelay))" by code_simp
  ultimately show "publishedSent (snd (flushOrders 3 demoRelay))"
    using order_relay_at_least_once [of demoRelay 3] by (cases "flushOrders 3 demoRelay") auto
qed

text \<open>
  A futures sale is reserved at its limit price, but it fills at the bid when that is higher: an order
  to open a KABUF short at one tick reserves 109 won per contract, and the position it opens against a
  bid of 88000 needs 1914000 won of margin.
\<close>

lemma short_sale_hold_below_margin:
  "principalHold 0 ''A'' \<lparr>pd_symbol = ''KABUF'', pd_side = SELL, pd_type = LIMIT, pd_price = Some 5, pd_qty = 1,
       pd_positionSide = Some SHORT\<rparr> 0 demoDesk = Inr 109 \<and>
   map_option (\<lambda>f. futurePositionMargin f 88000 None) (futureDef ''KABUF'') = Some 1914000"
  by code_simp

lemma optionDef_DDAM: "optionDef ''DDAM'' = None"
  by code_simp

lemma jsMul_cap: "\<lceil>jsMul 100 MARKET_BUY_HOLD_FACTOR\<rceil> = 111"
  by code_simp

text \<open>A market buy is capped at the last price times 1.1 in floating point: at 100 that is 111.\<close>

lemma market_cap_one_above:
  "marketCap theo \<lparr>sy_initialPrice = 100, sy_lastPrice = 100, sy_listedAt = None, sy_listedShares = 1, sy_kind = STOCK\<rparr>
     \<lparr>pd_symbol = ''DDAM'', pd_side = BUY, pd_type = MARKET, pd_price = None, pd_qty = 1, pd_positionSide = None\<rparr> = 111"
  by (simp add: marketCap_def optionDef_DDAM jsMul_cap)

end
