(* ===== verification/Conditional_Service.thy ===== *)
theory Conditional_Service
  imports Order_Service
begin

text \<open>
  \<open>apps/api/src/order/conditional-order.service.ts\<close>: reserved orders that wait for a price. The waiting
  orders are rows of the database and an index in the memory of each API process; a trade price goes
  through \<open>onTick\<close>, which removes what it fires from the index and hands it to \<open>trigger\<close>. \<open>trigger\<close> is
  asynchronous in the code: here \<open>onTick\<close> returns what it fired and \<open>trigger\<close> is a step of its own.
  Notifications, counters and texts for users are left out.
\<close>

section \<open>State\<close>

record waiting_row =
  wr_id :: string
  wr_accountId :: string
  wr_symbol :: string
  wr_side :: order_side
  wr_direction :: trigger_direction
  wr_triggerPrice :: int
  wr_qty :: int
  wr_orderType :: order_type
  wr_limitPrice :: "int option"
  wr_positionSide :: "position_side option"
  wr_ocoGroupId :: "string option"
  wr_trailBps :: "int option"
  wr_watermark :: "int option"

record watch =
  wt_api :: api
  wt_waiting :: "(string, (string, waiting_row) rows) rows"

type_synonym 'a watching = "(watch, 'a) prog"

definition onApi :: "'a service \<Rightarrow> 'a watching" where
  "onApi m w = (case m (wt_api w) of (r, a) \<Rightarrow> (r, w\<lparr>wt_api := a\<rparr>))"

definition watchDb :: "watch \<Rightarrow> db" where
  "watchDb w = ap_db (wt_api w)"

definition toWaiting :: "string \<Rightarrow> conditional_row \<Rightarrow> waiting_row" where
  "toWaiting i c =
     \<lparr>wr_id = i, wr_accountId = cd_accountId c, wr_symbol = cd_symbol c, wr_side = cd_side c,
      wr_direction = cd_direction c, wr_triggerPrice = cd_triggerPrice c, wr_qty = cd_qty c,
      wr_orderType = cd_orderType c, wr_limitPrice = cd_limitPrice c, wr_positionSide = cd_positionSide c,
      wr_ocoGroupId = cd_ocoGroupId c, wr_trailBps = cd_trailBps c, wr_watermark = cd_watermark c\<rparr>"

definition bucketFor :: "string \<Rightarrow> (string, (string, waiting_row) rows) rows \<Rightarrow> (string, waiting_row) rows" where
  "bucketFor symbol waiting = (case findRow waiting symbol of None \<Rightarrow> [] | Some b \<Rightarrow> b)"

definition indexRow :: "string \<Rightarrow> conditional_row \<Rightarrow> unit watching" where
  "indexRow i c w =
     (Inr (), w\<lparr>wt_waiting := putRow (cd_symbol c)
        (putRow i (toWaiting i c) (bucketFor (cd_symbol c) (wt_waiting w))) (wt_waiting w)\<rparr>)"

definition unindex :: "string \<Rightarrow> string \<Rightarrow> unit watching" where
  "unindex symbol i w =
     (Inr (), case findRow (wt_waiting w) symbol of
        None \<Rightarrow> w
      | Some b \<Rightarrow> w\<lparr>wt_waiting := putRow symbol (dropRow i b) (wt_waiting w)\<rparr>)"

section \<open>Requests\<close>

definition MAX_WAITING_PER_ACCOUNT :: int where "MAX_WAITING_PER_ACCOUNT = 50"

text \<open>\<open>ACTIVE_SYMBOLS.has(symbol)\<close>\<close>

definition activeSymbol :: "string \<Rightarrow> bool" where
  "activeSymbol symbol \<longleftrightarrow> symbol \<in> set TRADABLE_SYMBOLS \<and> \<not> isOption symbol"

definition assertSymbolSideQty :: "string \<Rightarrow> int \<Rightarrow> error + unit" where
  "assertSymbolSideQty symbol qty =
     bindE (assertE (activeSymbol symbol) (NotFoundError ''symbol'')) (\<lambda>_.
     assertE (qty > 0) (BadRequest ''qty''))"

definition hedgeSideFor :: "db \<Rightarrow> string \<Rightarrow> string \<Rightarrow> order_side \<Rightarrow> position_side option" where
  "hedgeSideFor d accountId symbol side =
     (if futureDef symbol = None then None
      else if isBotAccount d accountId then None
      else Some (if side = SELL then LONG else SHORT))"

text \<open>The contracts held and those that can be closed now; \<open>None\<close> for anything but a future.\<close>

definition futuresClosable ::
  "db \<Rightarrow> string \<Rightarrow> string \<Rightarrow> order_side \<Rightarrow> position_side option \<Rightarrow> (int \<times> int) option" where
  "futuresClosable d accountId symbol side positionSide =
     (if futureDef symbol = None then None
      else let qty = heldQty d accountId symbol (rowSideOf positionSide) in
        case positionSide of
          Some ps \<Rightarrow>
            let held = \<bar>qty\<bar>
            in if held = 0 then Some (held, 0)
               else Some (held, max 0 (held - reservedQty d accountId symbol side (\<lambda>o'. or_positionSide o' = Some ps)))
        | None \<Rightarrow>
            let held = (if side = SELL then max 0 qty else max 0 (- qty)) in Some (held, held))"

definition assertFuturesClosing ::
  "db \<Rightarrow> string \<Rightarrow> string \<Rightarrow> order_side \<Rightarrow> int \<Rightarrow> position_side option \<Rightarrow> error + unit" where
  "assertFuturesClosing d accountId symbol side qty positionSide =
     (case futuresClosable d accountId symbol side positionSide of
        None \<Rightarrow> Inr ()
      | Some (held, closable) \<Rightarrow>
          if held = 0 then Inl (Unprocessable ''closing only'')
          else if qty > closable then Inl (Unprocessable ''closable quantity'') else Inr ())"

definition lastPriceOf :: "db \<Rightarrow> string \<Rightarrow> error + int" where
  "lastPriceOf d symbol =
     (case findRow (db_symbols d) symbol of None \<Rightarrow> Inl (NotFoundError ''symbol'') | Some m \<Rightarrow> Inr (sy_lastPrice m))"

definition assertNotAlreadyMet :: "trigger_direction \<Rightarrow> int \<Rightarrow> int \<Rightarrow> error + unit" where
  "assertNotAlreadyMet direction triggerPrice lastPrice =
     (if conditionMet direction triggerPrice lastPrice then Inl (BadRequest ''already met'') else Inr ())"

definition waitingCount :: "db \<Rightarrow> string \<Rightarrow> int" where
  "waitingCount d accountId =
     int (length (filter (\<lambda>(i, c). cd_accountId c = accountId \<and> cd_status c = WAITING) (db_conditionals d)))"

definition assertWaitingCapacity :: "db \<Rightarrow> string \<Rightarrow> int \<Rightarrow> error + unit" where
  "assertWaitingCapacity d accountId adding =
     (if waitingCount d accountId + adding > MAX_WAITING_PER_ACCOUNT then Inl (BadRequest ''too many'') else Inr ())"

definition createConditional :: "string \<Rightarrow> conditional_row \<Rightarrow> db \<Rightarrow> error + db" where
  "createConditional i c d =
     (if findRow (db_conditionals d) i \<noteq> None then Inl (UniqueViolation ''conditional_orders'')
      else Inr (d\<lparr>db_conditionals := db_conditionals d @ [(i, c)]\<rparr>))"

record conditional_dto =
  cq_symbol :: string
  cq_side :: order_side
  cq_direction :: "trigger_direction option"
  cq_triggerPrice :: "int option"
  cq_qty :: int
  cq_orderType :: order_type
  cq_limitPrice :: "int option"
  cq_trailBps :: "int option"

text \<open>The checks of \<open>place\<close> on the limit price and the trailing distance.\<close>

definition validateConditional :: "conditional_dto \<Rightarrow> error + unit" where
  "validateConditional dto =
     (let isLimit = (cq_orderType dto = LIMIT);
          limit = (case cq_limitPrice dto of None \<Rightarrow> 0 | Some p \<Rightarrow> p)
      in bindE (assertE (isLimit \<longrightarrow> limit > 0) (BadRequest ''limit price'')) (\<lambda>_.
         bindE (assertE (case tickSizeOf (cq_symbol dto) of
                  None \<Rightarrow> True | Some tickSize \<Rightarrow> isLimit \<longrightarrow> isOnTick (of_int limit) tickSize) (BadRequest ''tick'')) (\<lambda>_.
         assertE (case cq_trailBps dto of
                  None \<Rightarrow> True | Some bps \<Rightarrow> TRAIL_BPS_MIN \<le> bps \<and> bps \<le> TRAIL_BPS_MAX) (BadRequest ''trail''))))"

text \<open>Direction, trigger price and watermark of the new order at the current price.\<close>

definition conditionOf :: "conditional_dto \<Rightarrow> int \<Rightarrow> error + trigger_direction \<times> int \<times> int option" where
  "conditionOf dto lastPrice =
     (case cq_trailBps dto of
        Some bps \<Rightarrow>
          let direction = (if cq_side dto = SELL then AT_OR_BELOW else AT_OR_ABOVE);
              triggerPrice = trailingTrigger (cq_side dto) lastPrice bps
          in if conditionMet direction triggerPrice lastPrice then Inl (BadRequest ''trail too narrow'')
             else Inr (direction, triggerPrice, Some lastPrice)
      | None \<Rightarrow>
          (case (cq_direction dto, cq_triggerPrice dto) of
             (None, _) \<Rightarrow> Inl (BadRequest ''direction'')
           | (Some direction, None) \<Rightarrow> Inl (BadRequest ''trigger price'')
           | (Some direction, Some triggerPrice) \<Rightarrow>
               if triggerPrice \<le> 0 then Inl (BadRequest ''trigger price'')
               else bindE (assertNotAlreadyMet direction triggerPrice lastPrice) (\<lambda>_.
                 Inr (direction, triggerPrice, None))))"

definition newConditional ::
  "int \<Rightarrow> string \<Rightarrow> conditional_dto \<Rightarrow> position_side option \<Rightarrow> trigger_direction \<times> int \<times> int option \<Rightarrow> conditional_row" where
  "newConditional now accountId dto positionSide cond =
     \<lparr>cd_accountId = accountId, cd_symbol = cq_symbol dto, cd_side = cq_side dto, cd_direction = fst cond,
      cd_triggerPrice = fst (snd cond), cd_qty = cq_qty dto, cd_orderType = cq_orderType dto,
      cd_limitPrice = (if cq_orderType dto = LIMIT then cq_limitPrice dto else None),
      cd_positionSide = positionSide, cd_ocoGroupId = None, cd_trailBps = cq_trailBps dto,
      cd_watermark = snd (snd cond), cd_status = WAITING, cd_triggeredOrderId = None,
      cd_triggerTradePrice = None, cd_failReason = None, cd_createdAt = now\<rparr>"

definition placeConditional :: "string \<Rightarrow> conditional_dto \<Rightarrow> (string \<times> conditional_row) watching" where
  "placeConditional accountId dto =
     bindS (liftS (assertSymbolSideQty (cq_symbol dto) (cq_qty dto))) (\<lambda>_.
     bindS (onApi (readDb (\<lambda>d. d))) (\<lambda>d.
     let positionSide = hedgeSideFor d accountId (cq_symbol dto) (cq_side dto) in
     bindS (liftS (assertFuturesClosing d accountId (cq_symbol dto) (cq_side dto) (cq_qty dto) positionSide)) (\<lambda>_.
     bindS (liftS (validateConditional dto)) (\<lambda>_.
     bindS (liftS (lastPriceOf d (cq_symbol dto))) (\<lambda>lastPrice.
     bindS (liftS (conditionOf dto lastPrice)) (\<lambda>cond.
     bindS (liftS (assertWaitingCapacity d accountId 1)) (\<lambda>_.
     bindS (onApi freshId) (\<lambda>i. bindS (onApi clockS) (\<lambda>now.
     let c = newConditional now accountId dto positionSide cond in
     bindS (onApi (txS (\<lambda>d. bindE (createConditional i c d) (\<lambda>d. Inr ((), d))))) (\<lambda>_.
     bindS (indexRow i c) (\<lambda>_. returnS (i, c))))))))))))"

text \<open>A pair of orders around the current price; one transaction creates both.\<close>

definition ocoLeg ::
  "int \<Rightarrow> string \<Rightarrow> string \<Rightarrow> order_side \<Rightarrow> int \<Rightarrow> position_side option \<Rightarrow> string \<Rightarrow> trigger_direction \<Rightarrow> int \<Rightarrow> conditional_row" where
  "ocoLeg now accountId symbol side qty positionSide ocoGroupId direction triggerPrice =
     \<lparr>cd_accountId = accountId, cd_symbol = symbol, cd_side = side, cd_direction = direction,
      cd_triggerPrice = triggerPrice, cd_qty = qty, cd_orderType = MARKET, cd_limitPrice = None,
      cd_positionSide = positionSide, cd_ocoGroupId = Some ocoGroupId, cd_trailBps = None, cd_watermark = None,
      cd_status = WAITING, cd_triggeredOrderId = None, cd_triggerTradePrice = None, cd_failReason = None,
      cd_createdAt = now\<rparr>"

definition placeOco :: "string \<Rightarrow> string \<Rightarrow> order_side \<Rightarrow> int \<Rightarrow> int \<Rightarrow> int \<Rightarrow> (string \<times> conditional_row) list watching" where
  "placeOco accountId symbol side qty lowerPrice upperPrice =
     bindS (liftS (assertSymbolSideQty symbol qty)) (\<lambda>_.
     bindS (onApi (readDb (\<lambda>d. d))) (\<lambda>d.
     let positionSide = hedgeSideFor d accountId symbol side in
     bindS (liftS (assertFuturesClosing d accountId symbol side qty positionSide)) (\<lambda>_.
     bindS (liftS (assertE (lowerPrice > 0 \<and> upperPrice > 0) (BadRequest ''trigger price''))) (\<lambda>_.
     bindS (liftS (assertE (lowerPrice < upperPrice) (BadRequest ''trigger order''))) (\<lambda>_.
     bindS (liftS (lastPriceOf d symbol)) (\<lambda>lastPrice.
     bindS (liftS (assertNotAlreadyMet AT_OR_BELOW lowerPrice lastPrice)) (\<lambda>_.
     bindS (liftS (assertNotAlreadyMet AT_OR_ABOVE upperPrice lastPrice)) (\<lambda>_.
     bindS (liftS (assertWaitingCapacity d accountId 2)) (\<lambda>_.
     bindS (onApi freshId) (\<lambda>ocoGroupId. bindS (onApi freshId) (\<lambda>i. bindS (onApi freshId) (\<lambda>j.
     bindS (onApi clockS) (\<lambda>now.
     let lower = ocoLeg now accountId symbol side qty positionSide ocoGroupId AT_OR_BELOW lowerPrice;
         upper = ocoLeg now accountId symbol side qty positionSide ocoGroupId AT_OR_ABOVE upperPrice in
     bindS (onApi (txS (\<lambda>d. bindE (createConditional i lower d) (\<lambda>d.
                              bindE (createConditional j upper d) (\<lambda>d. Inr ((), d)))))) (\<lambda>_.
     bindS (indexRow i lower) (\<lambda>_. bindS (indexRow j upper) (\<lambda>_.
     returnS [(i, lower), (j, upper)]))))))))))))))))"

section \<open>Claims\<close>

text \<open>\<open>updateMany\<close> of one row while it is still waiting: whether it was.\<close>

definition claimConditional :: "string \<Rightarrow> (conditional_row \<Rightarrow> conditional_row) \<Rightarrow> db \<Rightarrow> bool \<times> db" where
  "claimConditional i f d =
     (case findRow (db_conditionals d) i of
        None \<Rightarrow> (False, d)
      | Some c \<Rightarrow>
          if cd_status c = WAITING
          then (True, d\<lparr>db_conditionals := putRow i (f c) (db_conditionals d)\<rparr>) else (False, d))"

definition claimS :: "string \<Rightarrow> (conditional_row \<Rightarrow> conditional_row) \<Rightarrow> bool watching" where
  "claimS i f = onApi (txS (\<lambda>d. Inr (claimConditional i f d)))"

text \<open>\<open>update\<close> of one row; it must exist.\<close>

definition updateConditional :: "string \<Rightarrow> (conditional_row \<Rightarrow> conditional_row) \<Rightarrow> unit watching" where
  "updateConditional i f = onApi (txS (\<lambda>d.
     case findRow (db_conditionals d) i of
       None \<Rightarrow> Inl (RowNotFound ''conditional_orders'')
     | Some c \<Rightarrow> Inr ((), d\<lparr>db_conditionals := putRow i (f c) (db_conditionals d)\<rparr>)))"

definition ocoSiblings :: "db \<Rightarrow> string \<Rightarrow> string \<Rightarrow> (string \<times> conditional_row) list" where
  "ocoSiblings d ocoGroupId exceptId =
     filter (\<lambda>(i, c). cd_ocoGroupId c = Some ocoGroupId \<and> cd_status c = WAITING \<and> i \<noteq> exceptId) (db_conditionals d)"

text \<open>\<open>updateMany\<close> of the given rows that still wait: cancelled with a note.\<close>

definition cancelWaiting :: "string list \<Rightarrow> string \<Rightarrow> db \<Rightarrow> db" where
  "cancelWaiting is note d = d\<lparr>db_conditionals := map (\<lambda>(i, c).
     (i, if i \<in> set is \<and> cd_status c = WAITING then c\<lparr>cd_status := COND_CANCELED, cd_failReason := Some note\<rparr> else c))
     (db_conditionals d)\<rparr>"

definition cancelOcoSiblings :: "string \<Rightarrow> string \<Rightarrow> string \<Rightarrow> unit watching" where
  "cancelOcoSiblings ocoGroupId exceptId note =
     bindS (onApi (readDb (\<lambda>d. ocoSiblings d ocoGroupId exceptId))) (\<lambda>siblings.
     if siblings = [] then returnS ()
     else bindS (onApi (writeDb (cancelWaiting (map fst siblings) note))) (\<lambda>_.
          eachS (\<lambda>(i, c) _. unindex (cd_symbol c) i) siblings ()))"

definition cancelConditional :: "string \<Rightarrow> string \<Rightarrow> conditional_row watching" where
  "cancelConditional accountId i =
     bindS (onApi (readDb (\<lambda>d. findRow (db_conditionals d) i))) (\<lambda>existing.
     case existing of
       None \<Rightarrow> throwS (NotFoundError ''conditional order'')
     | Some c \<Rightarrow>
         if cd_accountId c \<noteq> accountId then throwS (NotFoundError ''conditional order'')
         else if cd_status c \<noteq> WAITING then throwS (BadRequest ''already done'')
         else bindS (claimS i (\<lambda>c. c\<lparr>cd_status := COND_CANCELED\<rparr>)) (\<lambda>claimed.
           bindS (unindex (cd_symbol c) i) (\<lambda>_.
           if \<not> claimed then throwS (BadRequest ''already triggered'')
           else bindS (case cd_ocoGroupId c of
                         None \<Rightarrow> returnS ()
                       | Some g \<Rightarrow> cancelOcoSiblings g i ''OCO sibling canceled'') (\<lambda>_.
             bindS (onApi (readDb (\<lambda>d. findRow (db_conditionals d) i))) (\<lambda>row. case row of
               None \<Rightarrow> throwS (RowNotFound ''conditional_orders'')
             | Some c \<Rightarrow> returnS c)))))"

section \<open>Prices\<close>

text \<open>
  \<open>persistTrail\<close>: a trailing order's new extreme goes to the database only while the row waits and only
  when it is ahead of what the database has.
\<close>

definition persistTrail :: "waiting_row \<Rightarrow> db \<Rightarrow> db" where
  "persistTrail row d =
     (case (wr_watermark row, findRow (db_conditionals d) (wr_id row)) of
        (Some watermark, Some c) \<Rightarrow>
          if cd_status c = WAITING \<and>
             (case cd_watermark c of None \<Rightarrow> True
              | Some old \<Rightarrow> if wr_side row = SELL then old < watermark else old > watermark)
          then d\<lparr>db_conditionals := putRow (wr_id row)
                  (c\<lparr>cd_triggerPrice := wr_triggerPrice row, cd_watermark := Some watermark\<rparr>) (db_conditionals d)\<rparr>
          else d
      | _ \<Rightarrow> d)"

text \<open>One waiting row at one price: followed, left, or fired.\<close>

datatype tick_effect = Follows waiting_row | Stays | Fires

definition tickRow :: "int \<Rightarrow> waiting_row \<Rightarrow> tick_effect" where
  "tickRow price row =
     (case (wr_trailBps row, wr_watermark row) of
        (Some bps, Some watermark) \<Rightarrow>
          if advancesWatermark (wr_side row) watermark price
          then Follows (row\<lparr>wr_watermark := Some price, wr_triggerPrice := trailingTrigger (wr_side row) price bps\<rparr>)
          else if conditionMet (wr_direction row) (wr_triggerPrice row) price then Fires else Stays
      | _ \<Rightarrow> if conditionMet (wr_direction row) (wr_triggerPrice row) price then Fires else Stays)"

fun tickRows ::
  "int \<Rightarrow> (string, waiting_row) rows \<Rightarrow> (string, waiting_row) rows \<times> db \<Rightarrow> waiting_row list \<times> (string, waiting_row) rows \<times> db" where
  "tickRows price [] (bucket, d) = ([], bucket, d)"
| "tickRows price ((i, row) # rest) (bucket, d) =
     (case tickRow price row of
        Follows row' \<Rightarrow> tickRows price rest (putRow i row' bucket, persistTrail row' d)
      | Stays \<Rightarrow> tickRows price rest (bucket, d)
      | Fires \<Rightarrow> (case tickRows price rest (dropRow i bucket, d) of (fired, st) \<Rightarrow> (row # fired, st)))"

definition onTick :: "string \<Rightarrow> int \<Rightarrow> watch \<Rightarrow> waiting_row list \<times> watch" where
  "onTick symbol price w =
     (if pw_active (maintenanceWindow (ap_manual (wt_api w)) (ap_now (wt_api w))) then ([], w)
      else case findRow (wt_waiting w) symbol of
        None \<Rightarrow> ([], w)
      | Some bucket \<Rightarrow>
          (case tickRows price bucket (bucket, watchDb w) of
             (fired, bucket', d) \<Rightarrow>
               (fired, w\<lparr>wt_waiting := putRow symbol bucket' (wt_waiting w), wt_api := (wt_api w)\<lparr>ap_db := d\<rparr>\<rparr>)))"

definition symbolFromTradeChannel :: "string \<Rightarrow> string option" where
  "symbolFromTradeChannel channel =
     (let pre = CHANNELS (ChTrades [])
      in if \<not> startsWith channel pre then None
         else let symbol = drop (length pre) channel in if activeSymbol symbol then Some symbol else None)"

section \<open>Firing\<close>

text \<open>The reason kept for a refused order: the message of an HTTP error, or a fixed text.\<close>

definition failText :: "error \<Rightarrow> string" where
  "failText e = (case e of
     BadRequest m \<Rightarrow> m | Forbidden m \<Rightarrow> m | NotFoundError m \<Rightarrow> m | Unprocessable m \<Rightarrow> m | _ \<Rightarrow> ''order failed'')"

definition triggerDto :: "waiting_row \<Rightarrow> int \<Rightarrow> place_dto" where
  "triggerDto row qty =
     \<lparr>pd_symbol = wr_symbol row, pd_side = wr_side row, pd_type = wr_orderType row,
      pd_price = (if wr_orderType row = LIMIT then wr_limitPrice row else None), pd_qty = qty,
      pd_positionSide = wr_positionSide row\<rparr>"

text \<open>After the claim: what the order becomes. The result is the id of the order placed, if any.\<close>

definition fire :: "(string \<Rightarrow> int option) \<Rightarrow> waiting_row \<Rightarrow> string option watching" where
  "fire theo row =
     bindS (onApi (readDb (\<lambda>d. futuresClosable d (wr_accountId row) (wr_symbol row) (wr_side row) (wr_positionSide row)))) (\<lambda>room.
     if (case room of Some (held, closable) \<Rightarrow> closable = 0 | None \<Rightarrow> False)
     then bindS (updateConditional (wr_id row) (\<lambda>c. c\<lparr>cd_status := COND_CANCELED, cd_failReason :=
                   Some (if (case room of Some (held, closable) \<Rightarrow> held = 0 | None \<Rightarrow> False)
                         then ''no position'' else ''position reserved'')\<rparr>)) (\<lambda>_. returnS None)
     else
       let qty = (case room of Some (held, closable) \<Rightarrow> min (wr_qty row) closable | None \<Rightarrow> wr_qty row) in
       bindS (catchS (bindS (onApi (place theo (wr_accountId row) (triggerDto row qty))) (\<lambda>p. returnS (Inr (fst p))))
                (\<lambda>e. returnS (Inl (failText e)))) (\<lambda>outcome.
       bindS (updateConditional (wr_id row) (\<lambda>c. case outcome of
                Inr orderId \<Rightarrow> c\<lparr>cd_triggeredOrderId := Some orderId\<rparr>
              | Inl reason \<Rightarrow> c\<lparr>cd_status := FAILED, cd_failReason := Some reason\<rparr>)) (\<lambda>_.
       returnS (case outcome of Inr orderId \<Rightarrow> Some orderId | Inl reason \<Rightarrow> None))))"

definition triggerClaim :: "waiting_row \<Rightarrow> int \<Rightarrow> bool watching" where
  "triggerClaim row price = claimS (wr_id row) (\<lambda>c. c\<lparr>cd_status := TRIGGERED, cd_triggerTradePrice := Some price\<rparr>)"

definition triggerSiblings :: "waiting_row \<Rightarrow> unit watching" where
  "triggerSiblings row = (case wr_ocoGroupId row of
     None \<Rightarrow> returnS () | Some g \<Rightarrow> cancelOcoSiblings g (wr_id row) ''OCO sibling triggered'')"

definition trigger :: "(string \<Rightarrow> int option) \<Rightarrow> waiting_row \<Rightarrow> int \<Rightarrow> string option watching" where
  "trigger theo row price w =
     (if pw_active (maintenanceWindow (ap_manual (wt_api w)) (ap_now (wt_api w))) then (Inr None, w)
      else catchS
        (bindS (triggerClaim row price) (\<lambda>claimed.
         if \<not> claimed then returnS None
         else bindS (triggerSiblings row) (\<lambda>_. fire theo row)))
        (\<lambda>e. returnS None) w)"

section \<open>The index\<close>

text \<open>Waiting futures orders whose position is gone: cancelled; the rest go on.\<close>

definition isOrphan :: "db \<Rightarrow> conditional_row \<Rightarrow> bool" where
  "isOrphan d c \<longleftrightarrow> futureDef (cd_symbol c) \<noteq> None \<and>
     (let side = rowSideOf (cd_positionSide c); qty = heldQty d (cd_accountId c) (cd_symbol c) side
      in if side \<noteq> NET then qty = 0 else if cd_side c = SELL then qty \<le> 0 else qty \<ge> 0)"

definition sweepOrphanFutures :: "(string \<times> conditional_row) list \<Rightarrow> (string \<times> conditional_row) list watching" where
  "sweepOrphanFutures rows =
     bindS (onApi (readDb (\<lambda>d. filter (\<lambda>(i, c). isOrphan d c) rows))) (\<lambda>orphans.
     if orphans = [] then returnS rows
     else bindS (onApi (writeDb (cancelWaiting (map fst orphans) ''no position''))) (\<lambda>_.
          returnS (filter (\<lambda>(i, c). i \<notin> set (map fst orphans)) rows)))"

text \<open>A trailing order in memory that is ahead of its row keeps its extreme.\<close>

definition refreshed :: "waiting_row option \<Rightarrow> waiting_row \<Rightarrow> waiting_row" where
  "refreshed known fresh =
     (case known of
        None \<Rightarrow> fresh
      | Some k \<Rightarrow>
          (case (wr_trailBps k, wr_watermark k) of
             (Some bps, Some watermark) \<Rightarrow>
               if (case wr_watermark fresh of None \<Rightarrow> True | Some old \<Rightarrow> advancesWatermark (wr_side k) old watermark)
               then fresh\<lparr>wr_watermark := Some watermark, wr_triggerPrice := wr_triggerPrice k\<rparr> else fresh
           | _ \<Rightarrow> fresh))"

definition indexRows ::
  "(string, (string, waiting_row) rows) rows \<Rightarrow> (string \<times> conditional_row) list \<Rightarrow> (string, (string, waiting_row) rows) rows" where
  "indexRows waiting rows = fold (\<lambda>(i, c) next'.
     putRow (cd_symbol c)
       (putRow i (refreshed (findRow (bucketFor (cd_symbol c) waiting) i) (toWaiting i c)) (bucketFor (cd_symbol c) next'))
       next') rows []"

definition reloadIndex :: "unit watching" where
  "reloadIndex =
     bindS (onApi (readDb (\<lambda>d. filter (\<lambda>(i, c). cd_status c = WAITING) (db_conditionals d)))) (\<lambda>waitingRows.
     bindS (sweepOrphanFutures waitingRows) (\<lambda>rows.
     (\<lambda>w. (Inr (), w\<lparr>wt_waiting := indexRows (wt_waiting w) rows\<rparr>))))"

text \<open>Every symbol with waiting orders at its last price; what fires is collected.\<close>

definition evaluateAgainstLastPrices :: "watch \<Rightarrow> (waiting_row \<times> int) list \<times> watch" where
  "evaluateAgainstLastPrices w =
     (let symbols = map fst (filter (\<lambda>(x, b). b \<noteq> []) (wt_waiting w));
          prices = filter (\<lambda>(x, m). x \<in> set symbols) (db_symbols (watchDb w))
      in fold (\<lambda>(x, m) (fired, w). case onTick x (sy_lastPrice m) w of
            (rows, w') \<Rightarrow> (fired @ map (\<lambda>r. (r, sy_lastPrice m)) rows, w')) prices ([], w))"

definition listConditionals :: "db \<Rightarrow> string \<Rightarrow> string option \<Rightarrow> conditional_status option \<Rightarrow> int option \<Rightarrow> (string \<times> conditional_row) list" where
  "listConditionals d accountId symbol status limit =
     take (nat (min (max 1 (case limit of None \<Rightarrow> 100 | Some l \<Rightarrow> l)) 200))
       (sort_key (\<lambda>(i, c). - cd_createdAt c)
          (filter (\<lambda>(i, c). cd_accountId c = accountId \<and>
             (case symbol of None \<Rightarrow> True | Some x \<Rightarrow> cd_symbol c = x) \<and>
             (case status of None \<Rightarrow> True | Some x \<Rightarrow> cd_status c = x)) (db_conditionals d)))"

end
