(* ===== verification/Conditional_Props.thy ===== *)
theory Conditional_Props
  imports Conditional_Service Order_Props
begin

text \<open>
  Properties of reserved orders: each places at most one order whatever runs in between, one leg of a
  pair excludes the other when a trigger runs undisturbed, trailing extremes are monotone.
\<close>

section \<open>What no operation undoes\<close>

text \<open>
  Between two databases: no reserved order disappears, changes its group or its account, or waits again
  once it is done; with \<open>news\<close> the rows that may be new.
\<close>

definition condKept :: "db \<Rightarrow> db \<Rightarrow> bool" where
  "condKept d d' \<longleftrightarrow> (\<forall>i c. findRow (db_conditionals d) i = Some c \<longrightarrow>
     (\<exists>c'. findRow (db_conditionals d') i = Some c' \<and> cd_ocoGroupId c' = cd_ocoGroupId c \<and>
        (cd_status c \<noteq> WAITING \<longrightarrow> cd_status c' \<noteq> WAITING)))"

definition sameRows :: "db \<Rightarrow> db \<Rightarrow> bool" where
  "sameRows d d' \<longleftrightarrow> (\<forall>i. findRow (db_conditionals d') i = None \<longleftrightarrow> findRow (db_conditionals d) i = None)"

text \<open>Between two states of a process: the rows are kept, none is added, and the id supply only advances.\<close>

definition apiKept :: "api \<Rightarrow> api \<Rightarrow> bool" where
  "apiKept a a' \<longleftrightarrow> condKept (ap_db a) (ap_db a') \<and> sameRows (ap_db a) (ap_db a') \<and>
     ap_ids a' = ap_ids a \<and> ap_next a \<le> ap_next a'"

definition watchKept :: "watch \<Rightarrow> watch \<Rightarrow> bool" where
  "watchKept w w' \<longleftrightarrow> apiKept (wt_api w) (wt_api w')"

lemma condKept_refl [simp]: "condKept d d" by (simp add: condKept_def)

lemma condKept_trans: "condKept a b \<Longrightarrow> condKept b c \<Longrightarrow> condKept a c"
  unfolding condKept_def by (metis (no_types, lifting))

lemma condKept_same: "db_conditionals d' = db_conditionals d \<Longrightarrow> condKept d d' \<and> sameRows d d'"
  by (simp add: condKept_def sameRows_def)

interpretation api_kept: step_relation apiKept
  by unfold_locales (auto simp: apiKept_def sameRows_def intro: condKept_trans)

interpretation watch_kept: step_relation watchKept
  unfolding watchKept_def
  by unfold_locales (use api_kept.rel_refl api_kept.rel_trans in blast)+

lemma keeps_onApi: "keeps apiKept m \<Longrightarrow> keeps watchKept (onApi m)"
  unfolding keeps_def watchKept_def onApi_def by (auto split: prod.split) (metis snd_conv)

lemma keeps_steps:
  "keeps apiKept (readDb f)" "keeps apiKept freshId" "keeps apiKept clockS"
  by (simp_all add: keeps_def apiKept_def sameRows_def freshId_def)

lemma keeps_txS:
  assumes "\<And>d x d'. f d = Inr (x, d') \<Longrightarrow> condKept d d' \<and> sameRows d d'"
  shows "keeps apiKept (txS f)"
  using assms unfolding keeps_def txS_def
  by (auto simp: apiKept_def sameRows_def split: sum.split prod.split)

lemma keeps_writeDb:
  assumes "\<And>d. condKept d (f d) \<and> sameRows d (f d)"
  shows "keeps apiKept (writeDb f)"
  using assms by (simp add: keeps_def apiKept_def)

lemma place_kept: "keeps apiKept (place theo i dto)"
  unfolding keeps_def
proof
  fix s
  obtain r s' where p: "place theo i dto s = (r, s')" by (cases "place theo i dto s")
  from p have "apiKept s s'"
  proof (cases rule: place_cases)
    case (refused e)
    then show ?thesis by (simp add: apiKept_def sameRows_def)
  next
    case (accepted m hold)
    from accepted(6) have "db_conditionals (ap_db s') = db_conditionals (ap_db s)"
      by (auto simp: placedDb_def reserved_def split: if_splits)
    moreover have "ap_ids s' = ap_ids s" "ap_next s' = Suc (Suc (ap_next s))"
      by (subst accepted(5), simp)+
    ultimately show ?thesis by (simp add: apiKept_def condKept_same)
  qed
  then show "apiKept s (snd (place theo i dto s))" by (simp add: p)
qed

lemma put_kept:
  assumes "findRow (db_conditionals d) i = Some c" "cd_ocoGroupId c' = cd_ocoGroupId c"
    and "cd_status c \<noteq> WAITING \<longrightarrow> cd_status c' \<noteq> WAITING"
  shows "condKept d (d\<lparr>db_conditionals := putRow i c' (db_conditionals d)\<rparr>) \<and>
    sameRows d (d\<lparr>db_conditionals := putRow i c' (db_conditionals d)\<rparr>)"
  using assms by (auto simp: condKept_def sameRows_def rows.look_put)

lemmas put_kept_conj = put_kept [THEN conjunct1] put_kept [THEN conjunct2]

lemma claimS_kept:
  assumes "\<And>c. cd_ocoGroupId (f c) = cd_ocoGroupId c"
  shows "keeps watchKept (claimS i f)"
  unfolding claimS_def
  by (intro keeps_onApi keeps_txS)
    (auto simp: claimConditional_def condKept_same assms intro!: put_kept_conj split: option.splits if_splits)

lemma updateConditional_kept:
  assumes "\<And>c. cd_ocoGroupId (f c) = cd_ocoGroupId c" "\<And>c. cd_status c \<noteq> WAITING \<Longrightarrow> cd_status (f c) \<noteq> WAITING"
  shows "keeps watchKept (updateConditional i f)"
  unfolding updateConditional_def
  by (intro keeps_onApi keeps_txS) (use assms in \<open>auto intro!: put_kept_conj split: option.splits\<close>)

lemma findRow_map_rows: "findRow (map (\<lambda>(i, c). (i, f i c)) t) i = map_option (f i) (findRow t i)"
  by (induction t) (auto simp: findRow_Cons)

lemma cancelWaiting_find:
  "findRow (db_conditionals (cancelWaiting is note d)) i =
     map_option (\<lambda>c. if i \<in> set is \<and> cd_status c = WAITING
       then c\<lparr>cd_status := COND_CANCELED, cd_failReason := Some note\<rparr> else c) (findRow (db_conditionals d) i)"
  by (simp add: cancelWaiting_def findRow_map_rows)

lemma cancelWaiting_kept: "condKept d (cancelWaiting is note d) \<and> sameRows d (cancelWaiting is note d)"
  by (auto simp: condKept_def sameRows_def cancelWaiting_find)

lemma unindex_kept: "keeps watchKept (unindex symbol i)"
  by (auto simp: keeps_def unindex_def watchKept_def api_kept.rel_refl split: option.split)

lemma siblings_kept: "keeps watchKept (cancelOcoSiblings g i note)"
  unfolding cancelOcoSiblings_def
  by (auto intro!: watch_kept.keeps_rules keeps_onApi keeps_steps keeps_writeDb cancelWaiting_kept
      unindex_kept split: prod.split)

lemma fire_kept: "keeps watchKept (fire theo row)"
  unfolding fire_def Let_def
  by (auto intro!: watch_kept.keeps_rules keeps_onApi keeps_steps place_kept updateConditional_kept
      split: sum.splits)

section \<open>One trigger\<close>

definition setWatchDb :: "db \<Rightarrow> watch \<Rightarrow> watch" where
  "setWatchDb d w = w\<lparr>wt_api := (wt_api w)\<lparr>ap_db := d\<rparr>\<rparr>"

lemma setWatchDb_simps [simp]:
  "watchDb (setWatchDb d w) = d" "setWatchDb (watchDb w) w = w"
  "ap_now (wt_api (setWatchDb d w)) = ap_now (wt_api w)" "wt_waiting (setWatchDb d w) = wt_waiting w"
  by (simp_all add: setWatchDb_def watchDb_def)

lemma onApi_steps [simp]:
  "onApi (readDb f) w = (Inr (f (watchDb w)), w)"
  "onApi (writeDb g) w = (Inr (), setWatchDb (g (watchDb w)) w)"
  by (simp_all add: onApi_def watchDb_def setWatchDb_def)

lemma onApi_txS: "onApi (txS f) w = (case f (watchDb w) of Inl e \<Rightarrow> (Inl e, w) | Inr (x, d) \<Rightarrow> (Inr x, setWatchDb d w))"
  by (simp add: onApi_def txS_def watchDb_def setWatchDb_def split: sum.split prod.split)

lemma claimS_eq: "claimS i f w = (case claimConditional i f (watchDb w) of (b, d) \<Rightarrow> (Inr b, setWatchDb d w))"
  by (simp add: claimS_def onApi_txS split: prod.split)

lemma eachS_unindex:
  "\<exists>w'. eachS (\<lambda>(i, c) _. unindex (cd_symbol c) i) rows () w = (Inr (), w') \<and> wt_api w' = wt_api w"
proof (induction rows arbitrary: w)
  case (Cons x rows)
  obtain i c where x: "x = (i, c)" by (cases x)
  obtain w1 where w1: "unindex (cd_symbol c) i w = (Inr (), w1)" "wt_api w1 = wt_api w"
    by (auto simp: unindex_def split: option.split)
  from Cons.IH [of w1] show ?case using w1 by (auto simp: x bindS_def)
qed simp

text \<open>Cancelling the siblings: it never fails, and no other order of the group waits afterwards.\<close>

definition waitingIn :: "db \<Rightarrow> string \<Rightarrow> string set" where
  "waitingIn d g = {i. \<exists>c. findRow (db_conditionals d) i = Some c \<and> cd_ocoGroupId c = Some g \<and> cd_status c = WAITING}"

lemma cancelOcoSiblings_spec:
  assumes "cancelOcoSiblings g i note w = (r, w')"
  shows "r = Inr () \<and> db_orders (watchDb w') = db_orders (watchDb w) \<and> waitingIn (watchDb w') g \<subseteq> {i} \<and>
    findRow (db_conditionals (watchDb w')) i = findRow (db_conditionals (watchDb w)) i"
proof -
  let ?sib = "ocoSiblings (watchDb w) g i"
  have sib: "j \<in> fst ` set ?sib" if "findRow (db_conditionals (watchDb w)) j = Some c" "cd_ocoGroupId c = Some g"
    "cd_status c = WAITING" "j \<noteq> i" for j c
    using that by (force simp: ocoSiblings_def dest!: findRow_in_set)
  show ?thesis
  proof (cases "?sib = []")
    case True
    then have "r = Inr ()" "w' = w" using assms by (simp_all add: cancelOcoSiblings_def bindS_def)
    then show ?thesis using sib True by (auto simp: waitingIn_def)
  next
    case False
    let ?w = "setWatchDb (cancelWaiting (map fst ?sib) note (watchDb w)) w"
    from eachS_unindex [of ?sib ?w] obtain v where
      v: "eachS (\<lambda>(i, c) _. unindex (cd_symbol c) i) ?sib () ?w = (Inr (), v)" "wt_api v = wt_api ?w" by blast
    then have "r = Inr ()" "w' = v" using assms False by (simp_all add: cancelOcoSiblings_def bindS_def)
    moreover have d: "watchDb v = cancelWaiting (map fst ?sib) note (watchDb w)"
      using v(2) by (simp add: watchDb_def setWatchDb_def)
    moreover have "db_orders (watchDb v) = db_orders (watchDb w)" unfolding d by (simp add: cancelWaiting_def)
    moreover have "i \<notin> fst ` set ?sib" by (auto simp: ocoSiblings_def)
    then have "findRow (db_conditionals (watchDb v)) i = findRow (db_conditionals (watchDb w)) i"
      unfolding d by (simp add: cancelWaiting_find option.map_ident)
    moreover have "waitingIn (watchDb v) g \<subseteq> {i}"
    proof
      fix j assume "j \<in> waitingIn (watchDb v) g"
      then obtain c where c: "findRow (db_conditionals (watchDb w)) j = Some c" "j \<notin> fst ` set ?sib \<or> cd_status c \<noteq> WAITING"
        "cd_ocoGroupId c = Some g" "cd_status c = WAITING"
        unfolding waitingIn_def d cancelWaiting_find
        by (auto split: if_splits dest: arg_cong [where f = cd_status])
      then show "j \<in> {i}" using sib by blast
    qed
    ultimately show ?thesis by simp
  qed
qed

text \<open>What the claimed order becomes: cancelled, failed, or one order on the book.\<close>

lemma fire_cases:
  assumes "fire theo row w = (r, w')" and "findRow (db_conditionals (watchDb w)) (wr_id row) = Some c"
  obtains (dropped) c' where "r = Inr None" "db_orders (watchDb w') = db_orders (watchDb w)"
      "findRow (db_conditionals (watchDb w')) (wr_id row) = Some c'" "cd_status c' \<in> {COND_CANCELED, FAILED}"
    | (placed) orderId o' c' where "r = Inr (Some orderId)"
      "db_orders (watchDb w') = db_orders (watchDb w) @ [(orderId, o')]"
      "or_accountId o' = wr_accountId row" "or_symbol o' = wr_symbol row" "or_side o' = wr_side row"
      "or_qty o' \<le> wr_qty row"
      "findRow (db_conditionals (watchDb w')) (wr_id row) = Some c'" "cd_status c' = cd_status c"
      "cd_triggeredOrderId c' = Some orderId"
proof -
  define room where "room = futuresClosable (watchDb w) (wr_accountId row) (wr_symbol row) (wr_side row) (wr_positionSide row)"
  show ?thesis
  proof (cases "case room of Some (held, closable) \<Rightarrow> closable = 0 | None \<Rightarrow> False")
    case True
    then have "r = Inr None \<and> (\<exists>note. w' = setWatchDb ((watchDb w)\<lparr>db_conditionals := putRow (wr_id row)
      (c\<lparr>cd_status := COND_CANCELED, cd_failReason := Some note\<rparr>) (db_conditionals (watchDb w))\<rparr>) w)"
      using assms by (auto simp: fire_def bindS_def room_def updateConditional_def onApi_txS Let_def)
    then show ?thesis using dropped by auto
  next
    case False
    define qty where "qty = (case room of Some (held, closable) \<Rightarrow> min (wr_qty row) closable | None \<Rightarrow> wr_qty row)"
    have qle: "qty \<le> wr_qty row" by (auto simp: qty_def split: option.split)
    obtain p a where pl: "place theo (wr_accountId row) (triggerDto row qty) (wt_api w) = (p, a)"
      by (cases "place theo (wr_accountId row) (triggerDto row qty) (wt_api w)")
    define c' where "c' = (case p of Inr x \<Rightarrow> c\<lparr>cd_triggeredOrderId := Some (fst x)\<rparr>
      | Inl e \<Rightarrow> c\<lparr>cd_status := FAILED, cd_failReason := Some (failText e)\<rparr>)"
    let ?w = "w\<lparr>wt_api := a\<rparr>"
    have keptRow: "db_conditionals (ap_db a) = db_conditionals (watchDb w)"
      using pl
    proof (cases rule: place_cases)
      case (accepted m hold)
      then show ?thesis by (auto simp: placedDb_def reserved_def watchDb_def split: if_splits)
    qed (simp add: watchDb_def)
    then have found: "findRow (db_conditionals (watchDb ?w)) (wr_id row) = Some c" using assms(2) by (simp add: watchDb_def)
    have run: "r = Inr (case p of Inr x \<Rightarrow> Some (fst x) | Inl e \<Rightarrow> None) \<and>
      w' = setWatchDb ((watchDb ?w)\<lparr>db_conditionals := putRow (wr_id row) c' (db_conditionals (watchDb ?w))\<rparr>) ?w"
      using assms(1) False found
      by (cases p) (auto simp: fire_def bindS_def catchS_def room_def [symmetric] qty_def [symmetric] Let_def pl onApi_def [of "place _ _ _"]
          updateConditional_def onApi_txS c'_def)
    from pl show ?thesis
    proof (cases rule: place_cases)
      case (refused e)
      then show ?thesis using run dropped [of c'] by (simp add: c'_def watchDb_def setWatchDb_def)
    next
      case (accepted m hold)
      let ?i = "ap_ids (wt_api w) (ap_next (wt_api w))" and ?o = "newOrder (ap_now (wt_api w)) (wr_accountId row) (triggerDto row qty) hold"
      have "db_orders (ap_db a) = db_orders (watchDb w) @ [(?i, ?o)]"
        using accepted(6) by (auto simp: placedDb_def watchDb_def)
      moreover have r: "r = Inr (Some ?i)" "c' = c\<lparr>cd_triggeredOrderId := Some ?i\<rparr>"
        using run accepted(4) by (simp_all add: c'_def)
      moreover have "watchDb w' = (ap_db a)\<lparr>db_conditionals := putRow (wr_id row) c' (db_conditionals (ap_db a))\<rparr>"
        using run by (simp add: watchDb_def setWatchDb_def)
      ultimately show ?thesis using qle
        by (intro placed [of ?i ?o c']) (simp_all add: newOrder_def triggerDto_def)
    qed
  qed
qed

lemma sameRows_some:
  "sameRows d d' \<Longrightarrow> findRow (db_conditionals d') i = Some c' \<Longrightarrow> \<exists>c. findRow (db_conditionals d) i = Some c"
  unfolding sameRows_def by (metis option.exhaust option.simps(3))

lemma waitingIn_kept:
  assumes "condKept d d'" "sameRows d d'" shows "waitingIn d' g \<subseteq> waitingIn d g"
proof
  fix j assume "j \<in> waitingIn d' g"
  then obtain c' where j: "findRow (db_conditionals d') j = Some c'" "cd_ocoGroupId c' = Some g" "cd_status c' = WAITING"
    by (auto simp: waitingIn_def)
  then obtain c where c: "findRow (db_conditionals d) j = Some c" using sameRows_some [OF assms(2)] by blast
  from assms(1) [unfolded condKept_def, rule_format, OF c] j have "cd_ocoGroupId c = Some g" "cd_status c = WAITING" by auto
  then show "j \<in> waitingIn d g" using c by (simp add: waitingIn_def)
qed

text \<open>A whole trigger.\<close>

definition paused :: "watch \<Rightarrow> bool" where
  "paused w \<longleftrightarrow> pw_active (maintenanceWindow (ap_manual (wt_api w)) (ap_now (wt_api w)))"

lemma siblings_ok:
  "\<exists>v. triggerSiblings row w = (Inr (), v) \<and> db_orders (watchDb v) = db_orders (watchDb w) \<and> watchKept w v \<and>
     findRow (db_conditionals (watchDb v)) (wr_id row) = findRow (db_conditionals (watchDb w)) (wr_id row) \<and>
     (\<forall>g. wr_ocoGroupId row = Some g \<longrightarrow> waitingIn (watchDb v) g \<subseteq> {wr_id row})"
proof (cases "wr_ocoGroupId row")
  case None
  then show ?thesis by (simp add: triggerSiblings_def watch_kept.rel_refl)
next
  case (Some g)
  obtain r v where v: "cancelOcoSiblings g (wr_id row) ''OCO sibling triggered'' w = (r, v)"
    by (cases "cancelOcoSiblings g (wr_id row) ''OCO sibling triggered'' w")
  from cancelOcoSiblings_spec [OF v] keepsD [OF siblings_kept v] show ?thesis
    using Some v by (auto simp: triggerSiblings_def)
qed

lemma trigger_cases:
  assumes "trigger theo row price w = (r, w')"
  obtains (idle) "r = Inr None" "w' = w" "paused w \<or> \<not> (\<exists>c. findRow (db_conditionals (watchDb w)) (wr_id row) = Some c \<and> cd_status c = WAITING)"
    | (dropped) c c' where "r = Inr None" "watchKept w w'" "db_orders (watchDb w') = db_orders (watchDb w)"
        "findRow (db_conditionals (watchDb w)) (wr_id row) = Some c" "cd_status c = WAITING"
        "findRow (db_conditionals (watchDb w')) (wr_id row) = Some c'" "cd_status c' \<in> {COND_CANCELED, FAILED}"
    | (placed) orderId o' c c' where "r = Inr (Some orderId)" "watchKept w w'"
        "db_orders (watchDb w') = db_orders (watchDb w) @ [(orderId, o')]"
        "or_accountId o' = wr_accountId row" "or_symbol o' = wr_symbol row" "or_side o' = wr_side row" "or_qty o' \<le> wr_qty row"
        "findRow (db_conditionals (watchDb w)) (wr_id row) = Some c" "cd_status c = WAITING"
        "findRow (db_conditionals (watchDb w')) (wr_id row) = Some c'" "cd_status c' = TRIGGERED"
        "cd_triggeredOrderId c' = Some orderId"
        "\<forall>g. wr_ocoGroupId row = Some g \<longrightarrow> waitingIn (watchDb w') g \<subseteq> {wr_id row}"
proof -
  consider "paused w" | "\<not> paused w" "\<not> (\<exists>c. findRow (db_conditionals (watchDb w)) (wr_id row) = Some c \<and> cd_status c = WAITING)"
    | c where "\<not> paused w" "findRow (db_conditionals (watchDb w)) (wr_id row) = Some c" "cd_status c = WAITING" by blast
  then show ?thesis
  proof cases
    case 1
    then show ?thesis using assms idle by (simp add: trigger_def paused_def)
  next
    case 2
    then have "claimConditional (wr_id row) f (watchDb w) = (False, watchDb w)" for f
      by (auto simp: claimConditional_def split: option.split)
    then have "r = Inr None" "w' = w"
      using assms 2(1) by (simp_all add: trigger_def paused_def triggerClaim_def claimS_eq catchS_def bindS_def)
    then show ?thesis using idle 2 by blast
  next
    case 3
    let ?c1 = "c\<lparr>cd_status := TRIGGERED, cd_triggerTradePrice := Some price\<rparr>"
    let ?w1 = "setWatchDb ((watchDb w)\<lparr>db_conditionals := putRow (wr_id row) ?c1 (db_conditionals (watchDb w))\<rparr>) w"
    have claim: "triggerClaim row price w = (Inr True, ?w1)"
      using 3 by (simp add: triggerClaim_def claimS_eq claimConditional_def)
    have kept1: "watchKept w ?w1"
      using keepsD [OF claimS_kept claim [unfolded triggerClaim_def]] by simp
    from siblings_ok [of row ?w1] obtain v where v: "triggerSiblings row ?w1 = (Inr (), v)"
      "db_orders (watchDb v) = db_orders (watchDb w)" "watchKept ?w1 v"
      "findRow (db_conditionals (watchDb v)) (wr_id row) = Some ?c1"
      "\<forall>g. wr_ocoGroupId row = Some g \<longrightarrow> waitingIn (watchDb v) g \<subseteq> {wr_id row}" by auto
    obtain r' v' where f: "fire theo row v = (r', v')" by (cases "fire theo row v")
    have kept: "watchKept w v'"
      using kept1 v(3) keepsD [OF fire_kept f] watch_kept.rel_trans by blast
    have kept2: "watchKept v v'" by (rule keepsD [OF fire_kept f])
    have run: "trigger theo row price w = (case r' of Inr x \<Rightarrow> (Inr x, v') | Inl e \<Rightarrow> (Inr None, v'))"
      using 3(1) claim v(1) f by (simp add: trigger_def paused_def catchS_def bindS_def split: sum.split)
    from f v(4) show ?thesis
    proof (cases rule: fire_cases)
      case (dropped c')
      then show ?thesis using that(2) [of c c'] run assms kept v(2) 3 by simp
    next
      case (placed orderId o' c')
      have "condKept (watchDb v) (watchDb v')" "sameRows (watchDb v) (watchDb v')"
        using kept2 by (simp_all add: watchKept_def apiKept_def watchDb_def)
      from waitingIn_kept [OF this] v(5)
      have "\<forall>g. wr_ocoGroupId row = Some g \<longrightarrow> waitingIn (watchDb v') g \<subseteq> {wr_id row}" by blast
      then show ?thesis using that(3) [of orderId o' c c'] run assms kept v(2) 3 placed by simp
    qed
  qed
qed

section \<open>The other operations\<close>

lemma persistTrail_kept: "condKept d (persistTrail row d) \<and> sameRows d (persistTrail row d) \<and>
  db_orders (persistTrail row d) = db_orders d"
proof (cases "persistTrail row d = d")
  case False
  then obtain m c where "wr_watermark row = Some m" "findRow (db_conditionals d) (wr_id row) = Some c" "cd_status c = WAITING"
    "persistTrail row d = d\<lparr>db_conditionals := putRow (wr_id row)
       (c\<lparr>cd_triggerPrice := wr_triggerPrice row, cd_watermark := Some m\<rparr>) (db_conditionals d)\<rparr>"
    by (auto simp: persistTrail_def split: option.splits if_splits)
  then show ?thesis by (auto intro!: put_kept_conj)
qed (simp add: sameRows_def)

lemma tickRows_kept:
  "tickRows price rows (bucket, d) = (fired, bucket', d') \<Longrightarrow>
    condKept d d' \<and> sameRows d d' \<and> db_orders d' = db_orders d"
proof (induction rows arbitrary: bucket d fired)
  case (Cons x rows)
  obtain i row where x: "x = (i, row)" by (cases x)
  show ?case
  proof (cases "tickRow price row")
    case (Follows row')
    then have "tickRows price rows (putRow i row' bucket, persistTrail row' d) = (fired, bucket', d')"
      using Cons.prems x by simp
    from Cons.IH [OF this] persistTrail_kept [of d row'] show ?thesis
      by (auto simp: sameRows_def intro: condKept_trans)
  next
    case Stays
    then show ?thesis using Cons.prems x Cons.IH by simp
  next
    case Fires
    then obtain f where "tickRows price rows (dropRow i bucket, d) = (f, bucket', d')"
      using Cons.prems x by (auto split: prod.splits)
    from Cons.IH [OF this] show ?thesis .
  qed
qed (simp add: sameRows_def)

lemma onTick_kept:
  assumes "onTick symbol price w = (fired, w')"
  shows "watchKept w w' \<and> db_orders (watchDb w') = db_orders (watchDb w)"
proof (cases "pw_active (maintenanceWindow (ap_manual (wt_api w)) (ap_now (wt_api w))) \<or> findRow (wt_waiting w) symbol = None")
  case True
  then show ?thesis using assms by (auto simp: onTick_def watch_kept.rel_refl split: option.splits)
next
  case False
  then obtain bucket where b: "findRow (wt_waiting w) symbol = Some bucket" by blast
  obtain f b' d where t: "tickRows price bucket (bucket, watchDb w) = (f, b', d)"
    by (cases "tickRows price bucket (bucket, watchDb w)")
  from tickRows_kept [OF t] show ?thesis
    using assms False b t by (auto simp: onTick_def watchKept_def apiKept_def watchDb_def split: option.splits)
qed

lemma evaluate_kept:
  assumes "evaluateAgainstLastPrices w = (fired, w')"
  shows "watchKept w w' \<and> db_orders (watchDb w') = db_orders (watchDb w)"
proof -
  have "fold (\<lambda>(x, m) (fired, w). case onTick x (sy_lastPrice m) w of
      (rows, w') \<Rightarrow> (fired @ map (\<lambda>r. (r, sy_lastPrice m)) rows, w')) prices (acc, w) = (fired, w') \<Longrightarrow>
    watchKept w w' \<and> db_orders (watchDb w') = db_orders (watchDb w)" for prices acc w
  proof (induction prices arbitrary: acc w)
    case (Cons x prices)
    obtain y m where x: "x = (y, m)" by (cases x)
    obtain rows v where v: "onTick y (sy_lastPrice m) w = (rows, v)" by (cases "onTick y (sy_lastPrice m) w")
    from onTick_kept [OF v] Cons x v show ?case by (auto intro: watch_kept.rel_trans)
  qed (simp add: watch_kept.rel_refl)
  then show ?thesis using assms by (simp add: evaluateAgainstLastPrices_def Let_def)
qed

lemma sweep_kept: "keeps watchKept (sweepOrphanFutures rows)"
  unfolding sweepOrphanFutures_def
  by (auto intro!: watch_kept.keeps_rules keeps_onApi keeps_steps keeps_writeDb cancelWaiting_kept)

lemma setIndex_kept: "keeps watchKept (\<lambda>w. (Inr (), w\<lparr>wt_waiting := f (wt_waiting w)\<rparr>))"
  by (simp add: keeps_def watchKept_def api_kept.rel_refl)

lemma reload_kept: "keeps watchKept reloadIndex"
  unfolding reloadIndex_def
  by (intro watch_kept.keeps_rules keeps_onApi keeps_steps sweep_kept setIndex_kept)

lemma cancelConditional_kept: "keeps watchKept (cancelConditional accountId i)"
  unfolding cancelConditional_def
  by (auto intro!: watch_kept.keeps_rules keeps_onApi keeps_steps claimS_kept unindex_kept siblings_kept
      split: option.split)

text \<open>Creation: rows are appended under new ids, and a pair gets a group id never used before.\<close>

definition watchGrown :: "watch \<Rightarrow> watch \<Rightarrow> bool" where
  "watchGrown w w' \<longleftrightarrow>
     (\<exists>rows. db_conditionals (watchDb w') = db_conditionals (watchDb w) @ rows \<and>
        (\<forall>(i, c) \<in> set rows. findRow (db_conditionals (watchDb w)) i = None \<and>
           (\<forall>g. cd_ocoGroupId c = Some g \<longrightarrow> g \<in> ap_ids (wt_api w) ` {ap_next (wt_api w)..<ap_next (wt_api w')}))) \<and>
     ap_ids (wt_api w') = ap_ids (wt_api w) \<and> ap_next (wt_api w) \<le> ap_next (wt_api w')"

lemma bindS_liftS: "bindS (liftS r) f s = (case r of Inl e \<Rightarrow> (Inl e, s) | Inr x \<Rightarrow> f x s)"
  by (cases r) simp_all

lemma bindS_onApi:
  "bindS (onApi (readDb f)) k w = k (f (watchDb w)) w"
  "bindS (onApi freshId) l w = l (ap_ids (wt_api w) (ap_next (wt_api w))) (w\<lparr>wt_api := (wt_api w)\<lparr>ap_next := Suc (ap_next (wt_api w))\<rparr>\<rparr>)"
  "bindS (onApi clockS) m w = m (ap_now (wt_api w)) w"
  "bindS (indexRow i c) n w = n () (snd (indexRow i c w))"
  by (simp_all add: bindS_def onApi_def freshId_def watchDb_def indexRow_def)

lemma indexRow_api [simp]: "wt_api (snd (indexRow i c w)) = wt_api w"
  by (simp add: indexRow_def)

lemma watchGrown_same:
  assumes "ap_db (wt_api w') = ap_db (wt_api w)" "ap_ids (wt_api w') = ap_ids (wt_api w)" "ap_next (wt_api w) \<le> ap_next (wt_api w')"
  shows "watchGrown w w'"
  using assms by (auto simp: watchGrown_def watchDb_def)

lemma createConditional_Inr:
  "createConditional i c d = Inr d' \<longleftrightarrow>
     findRow (db_conditionals d) i = None \<and> d' = d\<lparr>db_conditionals := db_conditionals d @ [(i, c)]\<rparr>"
  by (auto simp: createConditional_def)

lemma placeConditional_grown:
  assumes "placeConditional accountId dto w = (r, w')" shows "watchGrown w w'"
  using assms
  by (auto simp: placeConditional_def bindS_liftS bindS_onApi Let_def bindS_def [of "onApi (txS _)"] onApi_txS
      createConditional_Inr watchDb_def setWatchDb_def newConditional_def watchGrown_def
      intro!: watchGrown_same split: sum.splits prod.splits elim!: bindE_InrE)

lemma findRow_append:
  "findRow (xs @ ys) i = (case findRow xs i of None \<Rightarrow> findRow ys i | Some x \<Rightarrow> Some x)"
  by (simp add: findRow_def map_add_def split: option.split)

lemma placeOco_grown:
  assumes "placeOco accountId symbol side qty lower upper w = (r, w')" shows "watchGrown w w'"
  using assms
  by (auto simp: placeOco_def bindS_liftS bindS_onApi Let_def bindS_def [of "onApi (txS _)"] onApi_txS
      createConditional_Inr watchDb_def setWatchDb_def ocoLeg_def watchGrown_def findRow_append
      intro!: watchGrown_same split: sum.splits prod.splits option.splits elim!: bindE_InrE)

lemma grown_condKept:
  assumes "watchGrown w w'" shows "condKept (watchDb w) (watchDb w')"
  using assms by (auto simp: watchGrown_def condKept_def findRow_append split: option.split)

section \<open>Runs\<close>

text \<open>
  One step of a process that watches prices, among others that use the same database: its operations,
  or anything elsewhere that leaves the reserved orders alone (orders, fills, settlements). The memory
  index may change at any moment, which covers other processes with an index of their own. A trigger
  may come late and from any index, but its row is that of a database row, so it knows its group. A step
  lists the orders its trigger placed.
\<close>

definition newOrders :: "db \<Rightarrow> db \<Rightarrow> (string \<times> order_row) list" where
  "newOrders d d' = drop (length (db_orders d)) (db_orders d')"

inductive watch_step :: "(string \<Rightarrow> int option) \<Rightarrow> watch \<Rightarrow> (string \<times> order_row) list \<Rightarrow> watch \<Rightarrow> bool" for theo where
  price: "onTick symbol price w = (fired, w') \<Longrightarrow> watch_step theo w [] w'"
| prices: "evaluateAgainstLastPrices w = (fired, w') \<Longrightarrow> watch_step theo w [] w'"
| fires: "trigger theo row price w = (r, w') \<Longrightarrow>
    (\<And>c. findRow (db_conditionals (watchDb w)) (wr_id row) = Some c \<Longrightarrow> wr_ocoGroupId row = cd_ocoGroupId c) \<Longrightarrow>
    watch_step theo w (map (\<lambda>(i, o'). (wr_id row, o')) (newOrders (watchDb w) (watchDb w'))) w'"
| cancels: "cancelConditional accountId i w = (r1, w') \<Longrightarrow> watch_step theo w [] w'"
| places: "placeConditional accountId dto w = (r2, w') \<Longrightarrow> watch_step theo w [] w'"
| places_pair: "placeOco accountId symbol side qty lower upper w = (r3, w') \<Longrightarrow> watch_step theo w [] w'"
| reloads: "reloadIndex w = (r4, w') \<Longrightarrow> watch_step theo w [] w'"
| elsewhere: "db_conditionals (ap_db a) = db_conditionals (watchDb w) \<Longrightarrow> ap_ids a = ap_ids (wt_api w) \<Longrightarrow>
    ap_next (wt_api w) \<le> ap_next a \<Longrightarrow> watch_step theo w [] (w\<lparr>wt_api := a, wt_waiting := index\<rparr>)"

inductive watch_run :: "(string \<Rightarrow> int option) \<Rightarrow> watch \<Rightarrow> (string \<times> order_row) list \<Rightarrow> watch \<Rightarrow> bool" for theo where
  start: "watch_run theo w [] w"
| step: "watch_run theo w placed w' \<Longrightarrow> watch_step theo w' extra w'' \<Longrightarrow> watch_run theo w (placed @ extra) w''"

text \<open>Every step keeps or grows the reserved orders; only a trigger places, and then at most once.\<close>

definition groupOf :: "db \<Rightarrow> string \<Rightarrow> string option" where
  "groupOf d i = (case findRow (db_conditionals d) i of None \<Rightarrow> None | Some c \<Rightarrow> cd_ocoGroupId c)"

definition isDone :: "db \<Rightarrow> string \<Rightarrow> bool" where
  "isDone d i \<longleftrightarrow> (\<exists>c. findRow (db_conditionals d) i = Some c \<and> cd_status c \<noteq> WAITING)"

lemma condKept_facts:
  assumes "condKept d d'"
  shows "isDone d i \<Longrightarrow> isDone d' i \<and> groupOf d' i = groupOf d i"
  using assms unfolding condKept_def isDone_def groupOf_def by fastforce

lemma groupOf_kept:
  assumes "condKept d d'" "findRow (db_conditionals d) i = Some c" shows "groupOf d' i = groupOf d i"
  using assms(1) [unfolded condKept_def, rule_format, OF assms(2)] assms(2) by (auto simp: groupOf_def)

lemma watch_step_cases:
  assumes "watch_step theo w extra w'"
  obtains (quiet) "extra = []" "watchKept w w' \<or> watchGrown w w'"
    | (one) i o' where "extra = [(i, o')]" "watchKept w w'" "\<not> isDone (watchDb w) i" "isDone (watchDb w') i"
        "\<forall>g. groupOf (watchDb w) i = Some g \<longrightarrow> i \<in> waitingIn (watchDb w) g \<and> waitingIn (watchDb w') g = {}"
  using assms
proof cases
  case (fires row price r)
  from fires(2) show ?thesis
  proof (cases rule: trigger_cases)
    case idle
    then show ?thesis using quiet fires by (simp add: newOrders_def watch_kept.rel_refl)
  next
    case (dropped c c')
    then show ?thesis using quiet fires by (simp add: newOrders_def)
  next
    case (placed orderId o' c c')
    have extra: "extra = [(wr_id row, o')]" using fires(1) placed(3) by (simp add: newOrders_def)
    show ?thesis
    proof (rule one [OF extra placed(2)])
      show "\<not> isDone (watchDb w) (wr_id row)" "isDone (watchDb w') (wr_id row)" using placed by (auto simp: isDone_def)
      show "\<forall>g. groupOf (watchDb w) (wr_id row) = Some g \<longrightarrow>
        wr_id row \<in> waitingIn (watchDb w) g \<and> waitingIn (watchDb w') g = {}"
      proof (intro allI impI)
        fix g assume g: "groupOf (watchDb w) (wr_id row) = Some g"
        then have "wr_ocoGroupId row = Some g" using fires(3) placed(8) by (simp add: groupOf_def)
        then have "waitingIn (watchDb w') g \<subseteq> {wr_id row}" using placed(13) by simp
        moreover have "wr_id row \<notin> waitingIn (watchDb w') g" using placed(10,11) by (simp add: waitingIn_def)
        ultimately show "wr_id row \<in> waitingIn (watchDb w) g \<and> waitingIn (watchDb w') g = {}"
          using g placed(8,9) by (auto simp: groupOf_def waitingIn_def)
      qed
    qed
  qed
next
  case (elsewhere a index)
  then have "watchKept w w'"
    by (simp add: watchKept_def apiKept_def watchDb_def condKept_same)
  then show ?thesis using quiet elsewhere(1) by blast
next
  case (price symbol price fired)
  then show ?thesis using quiet onTick_kept by blast
next
  case (prices fired)
  then show ?thesis using quiet evaluate_kept by blast
next
  case (cancels accountId i r1)
  then show ?thesis using quiet keepsD [OF cancelConditional_kept] by blast
next
  case (reloads r4)
  then show ?thesis using quiet keepsD [OF reload_kept] by blast
next
  case (places accountId dto r2)
  then show ?thesis using quiet placeConditional_grown by blast
next
  case (places_pair accountId symbol side qty lower upper r3)
  then show ?thesis using quiet placeOco_grown by blast
qed

text \<open>Ids are never reused, and every group id in the database came from the supply.\<close>

definition groupsUsed :: "watch \<Rightarrow> bool" where
  "groupsUsed w \<longleftrightarrow> inj (ap_ids (wt_api w)) \<and>
     (\<forall>i c g. findRow (db_conditionals (watchDb w)) i = Some c \<and> cd_ocoGroupId c = Some g \<longrightarrow>
        g \<in> ap_ids (wt_api w) ` {..<ap_next (wt_api w)})"

lemma kept_groups:
  assumes "watchKept w w'" "groupsUsed w" shows "groupsUsed w'"
proof -
  have k: "condKept (watchDb w) (watchDb w')" "sameRows (watchDb w) (watchDb w')"
    "ap_ids (wt_api w') = ap_ids (wt_api w)" "ap_next (wt_api w) \<le> ap_next (wt_api w')"
    using assms(1) by (simp_all add: watchKept_def apiKept_def watchDb_def)
  have claim: "g \<in> ap_ids (wt_api w) ` {..<ap_next (wt_api w)}"
    if f: "findRow (db_conditionals (watchDb w')) i = Some c'" and g: "cd_ocoGroupId c' = Some g" for i c' g
  proof -
    obtain c where c: "findRow (db_conditionals (watchDb w)) i = Some c" using sameRows_some [OF k(2) f] by blast
    have "cd_ocoGroupId c = Some g" using k(1) [unfolded condKept_def, rule_format, OF c] f g by auto
    then show ?thesis using assms(2) c by (auto simp: groupsUsed_def)
  qed
  have sub: "ap_ids (wt_api w) ` {..<ap_next (wt_api w)} \<subseteq> ap_ids (wt_api w') ` {..<ap_next (wt_api w')}"
    using k(3,4) by auto
  show ?thesis
    unfolding groupsUsed_def
  proof (intro conjI allI impI)
    show "inj (ap_ids (wt_api w'))" using assms(2) k(3) by (simp add: groupsUsed_def)
    fix i c g assume "findRow (db_conditionals (watchDb w')) i = Some c \<and> cd_ocoGroupId c = Some g"
    then show "g \<in> ap_ids (wt_api w') ` {..<ap_next (wt_api w')}" using claim [of i c g] sub by blast
  qed
qed

lemma grown_groups:
  assumes "watchGrown w w'" "groupsUsed w"
  shows "groupsUsed w'" and "g \<in> ap_ids (wt_api w) ` {..<ap_next (wt_api w)} \<Longrightarrow> waitingIn (watchDb w') g = waitingIn (watchDb w) g"
proof -
  from assms(1) obtain rows where g: "db_conditionals (watchDb w') = db_conditionals (watchDb w) @ rows"
    "ap_ids (wt_api w') = ap_ids (wt_api w)" "ap_next (wt_api w) \<le> ap_next (wt_api w')"
    and rows: "\<forall>(i, c) \<in> set rows. findRow (db_conditionals (watchDb w)) i = None \<and>
      (\<forall>g. cd_ocoGroupId c = Some g \<longrightarrow> g \<in> ap_ids (wt_api w) ` {ap_next (wt_api w)..<ap_next (wt_api w')})"
    unfolding watchGrown_def by blast
  then have new: "\<And>i c g. (i, c) \<in> set rows \<Longrightarrow> cd_ocoGroupId c = Some g \<Longrightarrow>
      g \<in> ap_ids (wt_api w) ` {ap_next (wt_api w)..<ap_next (wt_api w')}" by blast
  have find': "findRow (db_conditionals (watchDb w')) i = Some c \<Longrightarrow>
    findRow (db_conditionals (watchDb w)) i = Some c \<or> (i, c) \<in> set rows" for i c
    by (auto simp: g(1) findRow_append dest: findRow_in_set split: option.splits)
  show "groupsUsed w'"
    using assms(2) g(2,3) find' new unfolding groupsUsed_def
    by (fastforce dest!: find')
  assume used: "g \<in> ap_ids (wt_api w) ` {..<ap_next (wt_api w)}"
  have "cd_ocoGroupId c \<noteq> Some g" if "(i, c) \<in> set rows" for i c
    using new [OF that, of g] used assms(2) by (auto simp: groupsUsed_def inj_eq)
  then show "waitingIn (watchDb w') g = waitingIn (watchDb w) g"
    by (auto simp: waitingIn_def g(1) findRow_append dest: findRow_in_set split: option.splits)
qed

lemma watch_step_facts:
  assumes "watch_step theo w extra w'" "groupsUsed w"
  shows "groupsUsed w'" "condKept (watchDb w) (watchDb w')"
    and "g \<in> ap_ids (wt_api w) ` {..<ap_next (wt_api w)} \<Longrightarrow> waitingIn (watchDb w') g \<subseteq> waitingIn (watchDb w) g"
    and "ap_ids (wt_api w') = ap_ids (wt_api w)" "ap_next (wt_api w) \<le> ap_next (wt_api w')"
proof -
  have "watchKept w w' \<or> watchGrown w w'" using assms(1) by (cases rule: watch_step_cases) auto
  then have "groupsUsed w' \<and> condKept (watchDb w) (watchDb w') \<and>
    (g \<in> ap_ids (wt_api w) ` {..<ap_next (wt_api w)} \<longrightarrow> waitingIn (watchDb w') g \<subseteq> waitingIn (watchDb w) g) \<and>
    ap_ids (wt_api w') = ap_ids (wt_api w) \<and> ap_next (wt_api w) \<le> ap_next (wt_api w')"
  proof
    assume k: "watchKept w w'"
    then have "condKept (watchDb w) (watchDb w')" "sameRows (watchDb w) (watchDb w')"
      "ap_ids (wt_api w') = ap_ids (wt_api w)" "ap_next (wt_api w) \<le> ap_next (wt_api w')"
      by (simp_all add: watchKept_def apiKept_def watchDb_def)
    then show ?thesis using kept_groups [OF k assms(2)] waitingIn_kept by blast
  next
    assume k: "watchGrown w w'"
    then show ?thesis using grown_groups [OF k assms(2)] grown_condKept [OF k] by (auto simp: watchGrown_def)
  qed
  then show "groupsUsed w'" "condKept (watchDb w) (watchDb w')"
    "g \<in> ap_ids (wt_api w) ` {..<ap_next (wt_api w)} \<Longrightarrow> waitingIn (watchDb w') g \<subseteq> waitingIn (watchDb w) g"
    "ap_ids (wt_api w') = ap_ids (wt_api w)" "ap_next (wt_api w) \<le> ap_next (wt_api w')" by blast+
qed

text \<open>The groups of the orders placed.\<close>

definition groupsOf :: "db \<Rightarrow> string list \<Rightarrow> string list" where
  "groupsOf d is = concat (map (\<lambda>i. case groupOf d i of None \<Rightarrow> [] | Some g \<Rightarrow> [g]) is)"

lemma groupsOf_simps [simp]: "groupsOf d [] = []" "groupsOf d (xs @ ys) = groupsOf d xs @ groupsOf d ys"
  by (simp_all add: groupsOf_def)

lemma groupsOf_cong:
  "(\<And>i. i \<in> set is \<Longrightarrow> groupOf d' i = groupOf d i) \<Longrightarrow> groupsOf d' is = groupsOf d is"
  unfolding groupsOf_def by (intro arg_cong [where f = concat] map_cong) auto

lemma groupsOf_mem: "g \<in> set (groupsOf d is) \<longleftrightarrow> (\<exists>i\<in>set is. groupOf d i = Some g)"
  by (induction "is") (auto simp: groupsOf_def split: option.splits)

definition placedOnce :: "watch \<Rightarrow> string list \<Rightarrow> bool" where
  "placedOnce w is \<longleftrightarrow> distinct is \<and> (\<forall>i \<in> set is. isDone (watchDb w) i) \<and> distinct (groupsOf (watchDb w) is) \<and>
     (\<forall>g \<in> set (groupsOf (watchDb w) is). waitingIn (watchDb w) g = {})"

lemma placedOnce_step:
  assumes "placedOnce w is" "groupsUsed w" "watch_step theo w extra w'"
  shows "placedOnce w' (is @ map fst extra)"
proof -
  note f = watch_step_facts [OF assms(3,2)]
  have kept: "isDone (watchDb w') i \<and> groupOf (watchDb w') i = groupOf (watchDb w) i" if "isDone (watchDb w) i" for i
    using condKept_facts [OF f(2) that] .
  have old: "\<forall>i \<in> set is. isDone (watchDb w) i" using assms(1) by (simp add: placedOnce_def)
  have gs: "groupsOf (watchDb w') is = groupsOf (watchDb w) is" using kept old by (intro groupsOf_cong) blast
  have used: "g \<in> ap_ids (wt_api w) ` {..<ap_next (wt_api w)}" if "groupOf (watchDb w) i = Some g" for i g
    using assms(2) that by (auto simp: groupsUsed_def groupOf_def split: option.splits)
  have empty: "waitingIn (watchDb w') g = {}" if "g \<in> set (groupsOf (watchDb w) is)" for g
    using that assms(1) f(3) [OF used] by (fastforce simp: placedOnce_def groupsOf_mem)
  have base: "placedOnce w' is"
    using assms(1) kept old empty by (auto simp: placedOnce_def gs)
  from assms(3) show ?thesis
  proof (cases rule: watch_step_cases)
    case quiet
    then show ?thesis using base by simp
  next
    case (one i o')
    have i: "i \<notin> set is" using one(3) old by blast
    have gi: "groupOf (watchDb w') i = groupOf (watchDb w) i"
    proof -
      have "sameRows (watchDb w) (watchDb w')" using one(2) by (simp add: watchKept_def apiKept_def watchDb_def)
      then have "\<exists>c. findRow (db_conditionals (watchDb w)) i = Some c"
        using one(4) sameRows_some by (auto simp: isDone_def)
      then show ?thesis using groupOf_kept [OF f(2)] by blast
    qed
    have fresh: "g \<notin> set (groupsOf (watchDb w) is)" if "groupOf (watchDb w) i = Some g" for g
      using one(5) that assms(1) by (auto simp: placedOnce_def)
    show ?thesis
    proof (cases "groupOf (watchDb w) i")
      case None
      then show ?thesis using base i one(1,4) gi by (simp add: placedOnce_def groupsOf_def)
    next
      case (Some g)
      then have "groupsOf (watchDb w') [i] = [g]" by (simp add: groupsOf_def gi)
      then show ?thesis using base i one(1,4,5) fresh [OF Some] Some gs by (auto simp: placedOnce_def)
    qed
  qed
qed

lemma watch_run_facts:
  "watch_run theo w placed w' \<Longrightarrow> groupsUsed w \<Longrightarrow>
    groupsUsed w' \<and> condKept (watchDb w) (watchDb w') \<and> placedOnce w' (map fst placed) \<and>
    (\<forall>i \<in> set (map fst placed). \<not> isDone (watchDb w) i)"
proof (induction rule: watch_run.induct)
  case (start w)
  then show ?case by (simp add: placedOnce_def)
next
  case (step w placed w' extra w'')
  note f = watch_step_facts [OF step(2)]
  from step have ih: "groupsUsed w'" "condKept (watchDb w) (watchDb w')" "placedOnce w' (map fst placed)"
    "\<forall>i \<in> set (map fst placed). \<not> isDone (watchDb w) i" by blast+
  have "\<not> isDone (watchDb w) i" if "i \<in> set (map fst extra)" for i
    using step(2)
  proof (cases rule: watch_step_cases)
    case (one j o')
    then show ?thesis using that condKept_facts [OF ih(2)] by auto
  qed (use that in simp)
  then show ?case
    using ih f [OF ih(1)] placedOnce_step [OF ih(3,1) step(2)] condKept_trans [OF ih(2)] by auto
qed


section \<open>Ticks and trailing orders\<close>

definition afterTick :: "int \<Rightarrow> waiting_row option \<Rightarrow> waiting_row option" where
  "afterTick price row = (case row of None \<Rightarrow> None | Some r \<Rightarrow>
     (case tickRow price r of Follows r' \<Rightarrow> Some r' | Stays \<Rightarrow> Some r | Fires \<Rightarrow> None))"

lemma tickRows_spec:
  "tickRows price rows (bucket, d) = (fired, bucket', d') \<Longrightarrow> uniqueKeys rows \<Longrightarrow>
    fired = map snd (filter (\<lambda>(i, r). tickRow price r = Fires) rows) \<and>
    (\<forall>i. findRow bucket' i = (case findRow rows i of
       None \<Rightarrow> findRow bucket i
     | Some r \<Rightarrow> (case tickRow price r of Follows r' \<Rightarrow> Some r' | Stays \<Rightarrow> findRow bucket i | Fires \<Rightarrow> None)))"
proof (induction rows arbitrary: bucket d fired)
  case (Cons x rows)
  obtain i row where x: "x = (i, row)" by (cases x)
  have u: "uniqueKeys rows" and ni: "findRow rows i = None"
    using Cons.prems(2) by (auto simp: uniqueKeys_def x findRow_def map_of_eq_None_iff)
  show ?case
  proof (cases "tickRow price row")
    case (Follows row')
    then have "tickRows price rows (putRow i row' bucket, persistTrail row' d) = (fired, bucket', d')"
      using Cons.prems x by simp
    from Cons.IH [OF this u] show ?thesis
      using Follows ni by (auto simp: x findRow_Cons rows.look_put split: option.split tick_effect.split)
  next
    case Stays
    then have "tickRows price rows (bucket, d) = (fired, bucket', d')" using Cons.prems x by simp
    from Cons.IH [OF this u] show ?thesis
      using Stays ni by (auto simp: x findRow_Cons split: option.split tick_effect.split)
  next
    case Fires
    then obtain f where f: "tickRows price rows (dropRow i bucket, d) = (f, bucket', d')" "fired = row # f"
      using Cons.prems x by (auto split: prod.splits)
    from Cons.IH [OF f(1) u] show ?thesis
      using Fires ni f(2) by (auto simp: x findRow_Cons rows.look_drop split: option.split tick_effect.split)
  qed
qed simp

lemma tickRow_fires: "tickRow price r = Fires \<Longrightarrow> conditionMet (wr_direction r) (wr_triggerPrice r) price"
  by (auto simp: tickRow_def split: option.splits if_splits)

text \<open>
  A price fires exactly the waiting orders whose condition it meets and that do not follow it: while
  trading is open, \<open>onTick\<close> hands over those rows in index order and takes them out of the index, moves
  a trailing order's extreme and trigger when the price is a new extreme, and leaves the rest.
\<close>

theorem tick_fires_exactly:
  assumes "onTick symbol price w = (fired, w')" and "\<not> paused w"
    and "findRow (wt_waiting w) symbol = Some bucket" and "uniqueKeys bucket"
  shows "fired = map snd (filter (\<lambda>(i, r). tickRow price r = Fires) bucket) \<and>
    (\<forall>r \<in> set fired. conditionMet (wr_direction r) (wr_triggerPrice r) price) \<and>
    (\<forall>i. findRow (bucketFor symbol (wt_waiting w')) i = afterTick price (findRow bucket i)) \<and>
    (\<forall>other. other \<noteq> symbol \<longrightarrow> findRow (wt_waiting w') other = findRow (wt_waiting w) other)"
proof -
  obtain f b' d where t: "tickRows price bucket (bucket, watchDb w) = (f, b', d)"
    by (cases "tickRows price bucket (bucket, watchDb w)")
  note s = tickRows_spec [OF t assms(4)]
  have r: "fired = f" "wt_waiting w' = putRow symbol b' (wt_waiting w)"
    using assms(1-3) t by (auto simp: onTick_def paused_def)
  have "findRow b' i = afterTick price (findRow bucket i)" for i
    using s by (auto simp: afterTick_def split: option.split tick_effect.split)
  then show ?thesis using s r tickRow_fires by (auto simp: bucketFor_def rows.look_put)
qed

text \<open>The extreme a trailing order follows: the highest price for a sale, the lowest for a purchase.\<close>

definition extreme :: "order_side \<Rightarrow> int \<Rightarrow> int list \<Rightarrow> int" where
  "extreme side m ps = (if side = SELL then Max (set (m # ps)) else Min (set (m # ps)))"

lemma extreme_Cons: "extreme side m (p # ps) = extreme side (if side = SELL then max m p else min m p) ps"
proof (cases "ps = []")
  case True
  then show ?thesis by (simp add: extreme_def max.commute min.commute)
next
  case False
  then show ?thesis by (simp add: extreme_def Max.insert Min.insert max.assoc min.assoc max.commute min.commute
      max.left_commute min.left_commute)
qed

text \<open>
  C22. The updates of a trailing order's extreme may reach the database in any order: while the order
  waits, after any sequence of them the row holds the extreme of what it held and all of them, with the
  trigger price that belongs to it, and no other reserved order has changed.
\<close>

theorem trail_persists_in_any_order:
  assumes "\<forall>r \<in> set rows. wr_id r = i \<and> wr_side r = side \<and>
      wr_watermark r = Some (mark r) \<and> wr_triggerPrice r = trailingTrigger side (mark r) bps"
    and "findRow (db_conditionals d) i = Some c" "cd_status c = WAITING" "cd_watermark c = Some m"
    and "cd_triggerPrice c = trailingTrigger side m bps"
  shows "(\<exists>c'. findRow (db_conditionals (fold persistTrail rows d)) i = Some c' \<and> cd_status c' = WAITING \<and>
      cd_watermark c' = Some (extreme side m (map mark rows)) \<and>
      cd_triggerPrice c' = trailingTrigger side (extreme side m (map mark rows)) bps) \<and>
    (\<forall>j. j \<noteq> i \<longrightarrow> findRow (db_conditionals (fold persistTrail rows d)) j = findRow (db_conditionals d) j)"
  using assms
proof (induction rows arbitrary: d c m)
  case Nil
  then show ?case by (simp add: extreme_def)
next
  case (Cons r rows)
  let ?p = "mark r"
  let ?m = "if side = SELL then max m ?p else min m ?p"
  from Cons.prems(1) have r: "wr_id r = i" "wr_side r = side" "wr_watermark r = Some ?p"
    "wr_triggerPrice r = trailingTrigger side ?p bps" by auto
  let ?ahead = "if side = SELL then m < ?p else m > ?p"
  have one: "persistTrail r d = (if ?ahead then d\<lparr>db_conditionals := putRow i
      (c\<lparr>cd_triggerPrice := trailingTrigger side ?p bps, cd_watermark := Some ?p\<rparr>) (db_conditionals d)\<rparr> else d)"
    using r Cons.prems(2-4) by (simp add: persistTrail_def)
  obtain c' where c': "findRow (db_conditionals (persistTrail r d)) i = Some c'" "cd_status c' = WAITING"
    "cd_watermark c' = Some ?m" "cd_triggerPrice c' = trailingTrigger side ?m bps"
    using Cons.prems(2-5) unfolding one by (cases ?ahead) (auto simp: max_def min_def split: if_splits)
  have other: "\<forall>j. j \<noteq> i \<longrightarrow> findRow (db_conditionals (persistTrail r d)) j = findRow (db_conditionals d) j"
    unfolding one by (simp add: rows.look_put)
  have "\<forall>r \<in> set rows. wr_id r = i \<and> wr_side r = side \<and>
      wr_watermark r = Some (mark r) \<and> wr_triggerPrice r = trailingTrigger side (mark r) bps"
    using Cons.prems(1) by simp
  from Cons.IH [OF this c'] other show ?case by (simp add: extreme_Cons)
qed

section \<open>Examples\<close>

text \<open>B holds 12 shares of KABU at a last price of 1000 and protects 5 of them on both sides.\<close>

definition demoFloor :: api where
  "demoFloor = demoApi\<lparr>ap_db := demoDesk\<lparr>
     db_accounts := [(''B'', \<lparr>ac_userId = ''ub'', ac_balance = 200, ac_holdAmount = 0, ac_version = 1, ac_fencingToken = 0\<rparr>)],
     db_holdings := [((''B'', ''KABU''), \<lparr>ho_qty = 12, ho_holdQty = 0, ho_costBasis = 1100\<rparr>)],
     db_symbols := [(''KABU'', \<lparr>sy_initialPrice = 100, sy_lastPrice = 1000, sy_listedAt = None, sy_listedShares = 1000, sy_kind = STOCK\<rparr>)],
     db_positions := []\<rparr>\<rparr>"

definition demoLegs :: "(string \<times> conditional_row) list" where
  "demoLegs =
     [(''lo'', ocoLeg 1 ''B'' ''KABU'' SELL 5 None ''id'' AT_OR_BELOW 900),
      (''hi'', ocoLeg 1 ''B'' ''KABU'' SELL 5 None ''id'' AT_OR_ABOVE 1100)]"

text \<open>The pair in the database and in the index, its group id taken from the supply.\<close>

definition demoWatch :: watch where
  "demoWatch = \<lparr>wt_api = demoFloor\<lparr>ap_db := (ap_db demoFloor)\<lparr>db_conditionals := demoLegs\<rparr>, ap_next := 1\<rparr>,
     wt_waiting = indexRows [] demoLegs\<rparr>"

definition demoRow :: "string \<Rightarrow> waiting_row" where
  "demoRow i = toWaiting i (the (findRow demoLegs i))"

lemma demo_used: "groupsUsed demoWatch"
proof -
  have "inj (ap_ids (wt_api demoWatch))"
    by (rule injI) (simp add: demoWatch_def demoFloor_def demoApi_def replicate_eq_replicate)
  moreover have "ap_ids (wt_api demoWatch) 0 = ''id''" "ap_next (wt_api demoWatch) = 1"
    by (simp_all add: demoWatch_def demoFloor_def demoApi_def)
  moreover have "\<forall>(i, c) \<in> set (db_conditionals (watchDb demoWatch)). cd_ocoGroupId c = Some ''id''" by code_simp
  ultimately show ?thesis
    unfolding groupsUsed_def by (fastforce dest!: findRow_in_set)
qed

lemma demo_fires: "length (newOrders (watchDb demoWatch) (watchDb (snd (trigger (\<lambda>_. None) (demoRow ''hi'') 1100 demoWatch)))) = 1"
  by code_simp

lemma demo_group: "map_option cd_ocoGroupId (findRow (db_conditionals (watchDb demoWatch)) ''hi'') =
  Some (wr_ocoGroupId (demoRow ''hi''))"
  by code_simp


text \<open>
  A trigger is several statements. When the triggers of both legs have made their claims before either
  has cancelled its sibling, both place an order.
\<close>

definition demoRace :: "(error + string option) \<times> (error + string option)" where
  "demoRace =
     (let w1 = snd (triggerClaim (demoRow ''hi'') 1100 demoWatch);
          w2 = snd (triggerClaim (demoRow ''lo'') 900 w1);
          w3 = snd (triggerSiblings (demoRow ''hi'') w2);
          w4 = snd (triggerSiblings (demoRow ''lo'') w3);
          (hi, w5) = fire (\<lambda>_. None) (demoRow ''hi'') w4;
          (lo, w6) = fire (\<lambda>_. None) (demoRow ''lo'') w5
      in (hi, lo))"

lemma oco_race_places_both: "demoRace = (Inr (Some ''idx''), Inr (Some ''idxxx''))"
  by code_simp

lemma tick_fires_exactly_witness:
  "map wr_id (fst (onTick ''KABU'' 1100 demoWatch)) = [''hi''] \<and>
   list_all (\<lambda>r. conditionMet (wr_direction r) (wr_triggerPrice r) 1100) (fst (onTick ''KABU'' 1100 demoWatch))"
proof
  show "map wr_id (fst (onTick ''KABU'' 1100 demoWatch)) = [''hi'']" by code_simp
  obtain fired w' where t: "onTick ''KABU'' 1100 demoWatch = (fired, w')" by (cases "onTick ''KABU'' 1100 demoWatch")
  have np: "\<not> paused demoWatch" by code_simp
  have "findRow (wt_waiting demoWatch) ''KABU'' = Some [(''lo'', demoRow ''lo''), (''hi'', demoRow ''hi'')]" by code_simp
  from tick_fires_exactly [OF t np this] t
  show "list_all (\<lambda>r. conditionMet (wr_direction r) (wr_triggerPrice r) 1100) (fst (onTick ''KABU'' 1100 demoWatch))"
    by (simp add: uniqueKeys_def list_all_iff)
qed

lemma trail_persists_in_any_order_witness:
  "\<exists>c'. findRow (db_conditionals (fold persistTrail
       [(demoRow ''lo'')\<lparr>wr_watermark := Some 1500, wr_triggerPrice := trailingTrigger SELL 1500 1000\<rparr>,
        (demoRow ''lo'')\<lparr>wr_watermark := Some 1200, wr_triggerPrice := trailingTrigger SELL 1200 1000\<rparr>]
       ((watchDb demoWatch)\<lparr>db_conditionals :=
          [(''lo'', (the (findRow demoLegs ''lo''))\<lparr>cd_trailBps := Some 1000, cd_watermark := Some 1000,
             cd_triggerPrice := trailingTrigger SELL 1000 1000\<rparr>)]\<rparr>))) ''lo'' = Some c' \<and>
     cd_watermark c' = Some 1500"
proof -
  let ?r1 = "(demoRow ''lo'')\<lparr>wr_watermark := Some 1500, wr_triggerPrice := trailingTrigger SELL 1500 1000\<rparr>"
  let ?r2 = "(demoRow ''lo'')\<lparr>wr_watermark := Some 1200, wr_triggerPrice := trailingTrigger SELL 1200 1000\<rparr>"
  let ?c = "(the (findRow demoLegs ''lo''))\<lparr>cd_trailBps := Some 1000, cd_watermark := Some 1000,
    cd_triggerPrice := trailingTrigger SELL 1000 1000\<rparr>"
  let ?d = "(watchDb demoWatch)\<lparr>db_conditionals := [(''lo'', ?c)]\<rparr>"
  have lo: "wr_id (demoRow ''lo'') = ''lo''" "wr_side (demoRow ''lo'') = SELL"
    by (simp_all add: demoRow_def demoLegs_def toWaiting_def ocoLeg_def findRow_def)
  have rows: "\<forall>r \<in> set [?r1, ?r2]. wr_id r = ''lo'' \<and> wr_side r = SELL \<and>
      wr_watermark r = Some (the (wr_watermark r)) \<and> wr_triggerPrice r = trailingTrigger SELL (the (wr_watermark r)) 1000"
    using lo by simp
  have c: "findRow (db_conditionals ?d) ''lo'' = Some ?c" "cd_status ?c = WAITING" "cd_watermark ?c = Some 1000"
    "cd_triggerPrice ?c = trailingTrigger SELL 1000 1000"
    by (simp_all add: findRow_def demoLegs_def ocoLeg_def)
  from trail_persists_in_any_order [OF rows c] show ?thesis
    by (auto simp: extreme_def)
qed

end
