(* ===== verification/Bracket_Service.thy ===== *)
theory Bracket_Service
  imports Conditional_Service
begin

text \<open>
  \<open>apps/api/src/order/bracket.service.ts\<close>: the protection a buyer attaches to an order, registered as a
  stop and a target once the order is closed, and the \<open>place\<close> handler of \<open>order.controller.ts\<close> that
  attaches it. Notes keep the identifiers of the code's texts; notifications and counters are left out.
\<close>

section \<open>The intent\<close>

record bracket_spec =
  bs_stopBps :: "int option"
  bs_takeBps :: "int option"

definition TAKE_BPS_MAX :: int where "TAKE_BPS_MAX = 10000"

definition validateSpec :: "bracket_spec \<Rightarrow> error + unit" where
  "validateSpec spec =
     bindE (assertE (bs_stopBps spec \<noteq> None \<or> bs_takeBps spec \<noteq> None) (BadRequest ''stop or target'')) (\<lambda>_.
     bindE (assertE (case bs_stopBps spec of
              None \<Rightarrow> True | Some s \<Rightarrow> TRAIL_BPS_MIN \<le> s \<and> s \<le> TRAIL_BPS_MAX) (BadRequest ''stop'')) (\<lambda>_.
     assertE (case bs_takeBps spec of
              None \<Rightarrow> True | Some t \<Rightarrow> TRAIL_BPS_MIN \<le> t \<and> t \<le> TAKE_BPS_MAX) (BadRequest ''target'')))"

text \<open>One intent per order: \<open>order_id\<close> is unique.\<close>

definition createBracket :: "string \<Rightarrow> bracket_row \<Rightarrow> db \<Rightarrow> error + db" where
  "createBracket i b d =
     (if findRow (db_brackets d) i \<noteq> None \<or> br_orderId b \<in> set (map (br_orderId \<circ> snd) (db_brackets d))
      then Inl (UniqueViolation ''bracket_intents'')
      else Inr (d\<lparr>db_brackets := db_brackets d @ [(i, b)]\<rparr>))"

definition newBracket :: "int \<Rightarrow> string \<Rightarrow> string \<Rightarrow> string \<Rightarrow> bracket_spec \<Rightarrow> bracket_row" where
  "newBracket now accountId orderId symbol spec =
     \<lparr>br_accountId = accountId, br_orderId = orderId, br_symbol = symbol, br_stopBps = bs_stopBps spec,
      br_takeBps = bs_takeBps spec, br_status = PENDING, br_armedQty = 0, br_avgFillPrice = None,
      br_note = None, br_createdAt = now\<rparr>"

definition attach :: "string \<Rightarrow> string \<Rightarrow> string \<Rightarrow> bracket_spec \<Rightarrow> (string \<times> bracket_row) service" where
  "attach accountId orderId symbol spec =
     bindS (liftS (validateSpec spec)) (\<lambda>_.
     bindS freshId (\<lambda>i. bindS clockS (\<lambda>now.
     txS (\<lambda>d. bindE (createBracket i (newBracket now accountId orderId symbol spec) d) (\<lambda>d.
                Inr ((i, newBracket now accountId orderId symbol spec), d))))))"

text \<open>
  The handler of a new order. The intent is saved after the order has been committed, so the handler
  checks it first; the replay of an idempotent request attaches nothing.
\<close>

definition placeHandler ::
  "(nat \<Rightarrow> api \<Rightarrow> api) \<Rightarrow> (string \<Rightarrow> int option) \<Rightarrow> string \<Rightarrow> place_dto \<Rightarrow> bracket_spec option \<Rightarrow> string option \<Rightarrow>
     ((string \<times> order_row) \<times> (string \<times> bracket_row) option) service" where
  "placeHandler others theo accountId dto bracket idempotencyKey s =
     (if \<not> assertTradingOpen (ap_manual s) (ap_now s) then (Inl (Thrown ''maintenance''), s)
      else bindS (liftS (case bracket of None \<Rightarrow> Inr () | Some spec \<Rightarrow> validateSpec spec)) (\<lambda>_.
        bindS (liftS (assertE (bracket \<noteq> None \<longrightarrow> pd_side dto = BUY) (BadRequest ''bracket on a sale''))) (\<lambda>_.
        bindS (liftS (assertE (bracket \<noteq> None \<longrightarrow> pd_positionSide dto \<noteq> Some SHORT) (BadRequest ''bracket on a short''))) (\<lambda>_.
        bindS (liftS (assertE (case idempotencyKey of None \<Rightarrow> True | Some key \<Rightarrow> key \<noteq> [] \<and> length key \<le> 128)
                 (BadRequest ''idempotency key''))) (\<lambda>_.
        bindS (case idempotencyKey of
                 Some key \<Rightarrow> placeIdempotent others theo accountId dto key
               | None \<Rightarrow> bindS (place theo accountId dto) (\<lambda>o'. returnS (o', False))) (\<lambda>(o', replay).
        case bracket of
          None \<Rightarrow> returnS (o', None)
        | Some spec \<Rightarrow>
            if replay then returnS (o', None)
            else bindS (attach accountId (fst o') (or_symbol (snd o')) spec) (\<lambda>b. returnS (o', Some b))))))) s)"

definition listBrackets :: "db \<Rightarrow> string \<Rightarrow> string option \<Rightarrow> int \<Rightarrow> (string \<times> bracket_row) list" where
  "listBrackets d accountId symbol limit =
     take (nat (min (max 1 limit) 200))
       (sort_key (\<lambda>(i, b). - br_createdAt b)
          (filter (\<lambda>(i, b). br_accountId b = accountId \<and>
             (case symbol of None \<Rightarrow> True | Some x \<Rightarrow> x = [] \<or> br_symbol b = x)) (db_brackets d)))"

text \<open>\<open>updateMany\<close> of one intent while it is pending: whether it was.\<close>

definition claimBracket :: "string \<Rightarrow> (bracket_row \<Rightarrow> bracket_row) \<Rightarrow> bool service" where
  "claimBracket i f = txS (\<lambda>d. Inr (case findRow (db_brackets d) i of
     None \<Rightarrow> (False, d)
   | Some b \<Rightarrow> if br_status b = PENDING then (True, d\<lparr>db_brackets := putRow i (f b) (db_brackets d)\<rparr>) else (False, d)))"

text \<open>\<open>update\<close> of one intent; it must exist.\<close>

definition updateBracket :: "string \<Rightarrow> (bracket_row \<Rightarrow> bracket_row) \<Rightarrow> unit service" where
  "updateBracket i f = txS (\<lambda>d. case findRow (db_brackets d) i of
     None \<Rightarrow> Inl (RowNotFound ''bracket_intents'')
   | Some b \<Rightarrow> Inr ((), d\<lparr>db_brackets := putRow i (f b) (db_brackets d)\<rparr>))"

definition cancelBracket :: "string \<Rightarrow> string \<Rightarrow> bracket_row service" where
  "cancelBracket accountId i =
     bindS (readDb (\<lambda>d. findRow (db_brackets d) i)) (\<lambda>existing. case existing of
       None \<Rightarrow> throwS (NotFoundError ''bracket'')
     | Some b \<Rightarrow>
         if br_accountId b \<noteq> accountId then throwS (NotFoundError ''bracket'')
         else if br_status b \<noteq> PENDING then throwS (BadRequest ''already done'')
         else bindS (claimBracket i (\<lambda>b. b\<lparr>br_status := BRACKET_CANCELED, br_note := Some ''user canceled''\<rparr>)) (\<lambda>claimed.
           if \<not> claimed then throwS (BadRequest ''already handled'')
           else bindS (readDb (\<lambda>d. findRow (db_brackets d) i)) (\<lambda>row. case row of
             None \<Rightarrow> throwS (RowNotFound ''bracket_intents'')
           | Some b \<Rightarrow> returnS b)))"

section \<open>Prices of the protection\<close>

text \<open>\<open>SUM(qty)\<close> and \<open>SUM(price * qty)\<close> of the trades that bought for the order.\<close>

definition boughtQty :: "db \<Rightarrow> string \<Rightarrow> int" where
  "boughtQty d orderId = sum_list (map (\<lambda>(i, t). tr_qty t) (filter (\<lambda>(i, t). tr_buyOrderId t = orderId) (db_trades d)))"

definition boughtAmount :: "db \<Rightarrow> string \<Rightarrow> int" where
  "boughtAmount d orderId =
     sum_list (map (\<lambda>(i, t). tr_price t * tr_qty t) (filter (\<lambda>(i, t). tr_buyOrderId t = orderId) (db_trades d)))"

definition protectedQty :: "db \<Rightarrow> string \<Rightarrow> order_row \<Rightarrow> int" where
  "protectedQty d orderId o' = (if boughtQty d orderId \<noteq> 0 then boughtQty d orderId else or_filledQty o')"

definition avgFillPriceOf :: "db \<Rightarrow> string \<Rightarrow> order_row \<Rightarrow> int" where
  "avgFillPriceOf d orderId o' =
     (let filledQty = protectedQty d orderId o'
      in if filledQty > 0 then mathRound (jsDiv (fl (of_int (boughtAmount d orderId))) (of_int filledQty))
         else case or_price o' of None \<Rightarrow> 0 | Some p \<Rightarrow> p)"

definition lowerPriceOf :: "bracket_row \<Rightarrow> int \<Rightarrow> int option" where
  "lowerPriceOf b avg = map_option
     (\<lambda>bps. max 1 \<lfloor>jsMul (of_int avg) (jsSub 1 (jsDiv (of_int bps) 10000))\<rfloor>) (br_stopBps b)"

definition upperPriceOf :: "bracket_row \<Rightarrow> int \<Rightarrow> int option" where
  "upperPriceOf b avg = map_option
     (\<lambda>bps. max ((case lowerPriceOf b avg of None \<Rightarrow> 0 | Some l \<Rightarrow> l) + 1)
              \<lceil>jsMul (of_int avg) (jsAdd 1 (jsDiv (of_int bps) 10000))\<rceil>) (br_takeBps b)"

section \<open>Arming\<close>

definition immediateSale :: "bracket_row \<Rightarrow> order_row \<Rightarrow> int \<Rightarrow> place_dto" where
  "immediateSale b o' qty =
     \<lparr>pd_symbol = br_symbol b, pd_side = SELL, pd_type = MARKET, pd_price = None, pd_qty = qty,
      pd_positionSide = (if or_positionSide o' \<noteq> None then Some LONG else None)\<rparr>"

definition singleLeg :: "bracket_row \<Rightarrow> int \<Rightarrow> trigger_direction \<Rightarrow> int \<Rightarrow> conditional_dto" where
  "singleLeg b qty direction triggerPrice =
     \<lparr>cq_symbol = br_symbol b, cq_side = SELL, cq_direction = Some direction, cq_triggerPrice = Some triggerPrice,
      cq_qty = qty, cq_orderType = MARKET, cq_limitPrice = None, cq_trailBps = None\<rparr>"

text \<open>
  Registers the protection at the market's last price, and says what it did: an immediate sale when a
  line is already crossed (a refused sale is only noted), a pair, or a single reserved sale.
\<close>

definition protect ::
  "(string \<Rightarrow> int option) \<Rightarrow> bracket_row \<Rightarrow> order_row \<Rightarrow> int \<Rightarrow> int option \<Rightarrow> int option \<Rightarrow> int \<Rightarrow> string watching" where
  "protect theo b o' qty lower upper lastPrice =
     (let stopHit = (case lower of None \<Rightarrow> False | Some l \<Rightarrow> conditionMet AT_OR_BELOW l lastPrice);
          takeHit = (case upper of None \<Rightarrow> False | Some u \<Rightarrow> conditionMet AT_OR_ABOVE u lastPrice)
      in if stopHit \<or> takeHit then
           catchS (bindS (onApi (place theo (br_accountId b) (immediateSale b o' qty))) (\<lambda>sell.
                     returnS (''sold at once '' @ fst sell)))
             (\<lambda>e. returnS (''sale failed: '' @ failText e))
         else case (lower, upper) of
           (Some l, Some u) \<Rightarrow>
             bindS (placeOco (br_accountId b) (br_symbol b) SELL qty l u) (\<lambda>legs. returnS ''pair registered'')
         | (Some l, None) \<Rightarrow>
             bindS (placeConditional (br_accountId b) (singleLeg b qty AT_OR_BELOW l)) (\<lambda>row. returnS (''stop '' @ fst row))
         | (None, u) \<Rightarrow>
             bindS (placeConditional (br_accountId b) (singleLeg b qty AT_OR_ABOVE (case u of None \<Rightarrow> 0 | Some u \<Rightarrow> u)))
               (\<lambda>row. returnS (''target '' @ fst row)))"

definition arm :: "(string \<Rightarrow> int option) \<Rightarrow> string \<Rightarrow> bracket_row \<Rightarrow> order_row \<Rightarrow> unit watching" where
  "arm theo i b o' =
     (if or_filledQty o' \<le> 0
      then onApi (updateBracket i (\<lambda>b. b\<lparr>br_status := BRACKET_CANCELED, br_note := Some ''closed without a fill''\<rparr>))
      else bindS (onApi (readDb (\<lambda>d. d))) (\<lambda>d.
        let qty = protectedQty d (br_orderId b) o'; avg = avgFillPriceOf d (br_orderId b) o'
        in case findRow (db_symbols d) (br_symbol b) of
          None \<Rightarrow> throwS (RowNotFound ''market_symbols'')
        | Some m \<Rightarrow>
            bindS (protect theo b o' qty (lowerPriceOf b avg) (upperPriceOf b avg) (sy_lastPrice m)) (\<lambda>note.
            onApi (updateBracket i (\<lambda>b. b\<lparr>br_armedQty := qty, br_avgFillPrice := Some avg, br_note := Some note\<rparr>)))))"

text \<open>A failed registration goes back to pending, for the next sweep.\<close>

definition rearm :: "string \<Rightarrow> error \<Rightarrow> unit watching" where
  "rearm i e = catchS (onApi (updateBracket i (\<lambda>b. b\<lparr>br_status := PENDING, br_note := Some (''retry: '' @ failText e)\<rparr>)))
     (\<lambda>_. returnS ())"

definition settleBracket :: "(string \<Rightarrow> int option) \<Rightarrow> string \<Rightarrow> unit watching" where
  "settleBracket theo i =
     bindS (onApi (readDb (\<lambda>d. findRow (db_brackets d) i))) (\<lambda>intent. case intent of
       None \<Rightarrow> returnS ()
     | Some b \<Rightarrow>
         if br_status b \<noteq> PENDING then returnS ()
         else bindS (onApi (readDb (\<lambda>d. findRow (db_orders d) (br_orderId b)))) (\<lambda>order. case order of
           None \<Rightarrow> returnS ()
         | Some o' \<Rightarrow>
             if \<not> isTerminal (or_status o') then returnS ()
             else bindS (onApi (claimBracket i (\<lambda>b. b\<lparr>br_status := ARMED\<rparr>))) (\<lambda>claimed.
               if \<not> claimed then returnS ()
               else catchS (arm theo i b o') (rearm i))))"

text \<open>A sweep settles every intent that was pending when it began; an error ends it.\<close>

definition sweepBrackets :: "(string \<Rightarrow> int option) \<Rightarrow> unit watching" where
  "sweepBrackets theo w =
     (if pw_active (maintenanceWindow (ap_manual (wt_api w)) (ap_now (wt_api w))) then (Inr (), w)
      else catchS
        (bindS (onApi (readDb (\<lambda>d. map fst (filter (\<lambda>(i, b). br_status b = PENDING) (db_brackets d))))) (\<lambda>pending.
         eachS (\<lambda>i _. settleBracket theo i) pending ())) (\<lambda>e. returnS ()) w)"

end
