(* ===== verification/Bracket_Props.thy ===== *)
theory Bracket_Props
  imports Bracket_Service Conditional_Props
begin

text \<open>
  What a bracket does to a closed order: the prices of its two lines, and that arming registers exactly
  one protection for exactly the quantity bought, or leaves the intent for the next sweep with nothing
  registered.
\<close>

section \<open>The two lines\<close>

lemma rat_halves: "(0::rat) \<le> of_int bps / 10000 \<Longrightarrow> 10 \<le> bps \<Longrightarrow> (1 / 2048 :: rat) \<le> of_int bps / 10000"
proof -
  assume "10 \<le> bps"
  then have "(10::rat) \<le> of_int bps" by simp
  then show ?thesis by simp
qed

lemma fraction_at_least:
  assumes "10 \<le> bps" shows "1 / 2048 \<le> jsDiv (of_int bps) 10000"
proof -
  have e: "fl (1 / 2048) = 1 / 2048" using fl_dyadic [of 1 11] by simp
  have "fl (1 / 2048) \<le> fl (of_int bps / 10000)" by (rule fl_mono) (use assms rat_halves [of bps] in simp_all)
  then show ?thesis by (simp add: jsDiv_def e)
qed

lemma fraction_at_most:
  assumes "0 \<le> bps" "bps \<le> 10000" shows "jsDiv (of_int bps) 10000 \<le> 1"
proof -
  have "(of_int bps :: rat) \<le> 10000" using assms(2) by (metis of_int_le_iff of_int_numeral)
  then have "fl (of_int bps / 10000) \<le> fl 1" by (intro fl_mono) (use assms in simp_all)
  then show ?thesis by (simp add: jsDiv_def)
qed

lemma lower_factor:
  assumes "10 \<le> bps" "bps \<le> 10000"
  shows "0 \<le> jsSub 1 (jsDiv (of_int bps) 10000)" "jsSub 1 (jsDiv (of_int bps) 10000) \<le> 2047 / 2048"
proof -
  have d: "1 / 2048 \<le> jsDiv (of_int bps) 10000" "jsDiv (of_int bps) 10000 \<le> 1"
    using fraction_at_least fraction_at_most assms by simp_all
  show "0 \<le> jsSub 1 (jsDiv (of_int bps) 10000)" using d by (simp add: jsSub_def fl_nonneg)
  have "fl (1 - jsDiv (of_int bps) 10000) \<le> fl (2047 / 2048)" by (rule fl_mono) (use d in simp_all)
  moreover have "fl (2047 / 2048) = 2047 / 2048" using fl_dyadic [of 2047 11] by simp
  ultimately show "jsSub 1 (jsDiv (of_int bps) 10000) \<le> 2047 / 2048" by (simp add: jsSub_def)
qed

lemma upper_factor:
  assumes "10 \<le> bps"
  shows "2049 / 2048 \<le> jsAdd 1 (jsDiv (of_int bps) 10000)"
proof -
  have "fl (2049 / 2048) \<le> fl (1 + jsDiv (of_int bps) 10000)"
    by (rule fl_mono) (use fraction_at_least [OF assms] in simp_all)
  moreover have "fl (2049 / 2048) = 2049 / 2048" using fl_dyadic [of 2049 11] by simp
  ultimately show ?thesis by (simp add: jsAdd_def)
qed

lemma lower_below:
  assumes "10 \<le> bps" "bps \<le> 10000" "1 \<le> avg" "avg < 2 ^ 31"
  shows "\<lfloor>jsMul (of_int avg) (jsSub 1 (jsDiv (of_int bps) 10000))\<rfloor> < avg"
proof -
  have "fl (of_int avg * jsSub 1 (jsDiv (of_int bps) 10000)) \<le> fl (of_int avg * (2047 / 2048))"
    using lower_factor [OF assms(1,2)] assms(3) by (intro fl_mono mult_left_mono mult_nonneg_nonneg) simp_all
  also have "\<dots> = of_int (avg * 2047) / 2048"
    using fl_dyadic [of "avg * 2047" 11] assms(3,4) by simp
  also have "\<dots> < of_int avg" using assms(3) by simp
  finally show ?thesis by (simp add: jsMul_def floor_less_iff)
qed

lemma upper_above:
  assumes "10 \<le> bps" "1 \<le> avg" "avg < 2 ^ 31"
  shows "avg < \<lceil>jsMul (of_int avg) (jsAdd 1 (jsDiv (of_int bps) 10000))\<rceil>"
proof -
  have "(of_int avg :: rat) < of_int (avg * 2049) / 2048" using assms(2) by simp
  also have "\<dots> = fl (of_int avg * (2049 / 2048))"
    using fl_dyadic [of "avg * 2049" 11] assms(2,3) by simp
  also have "\<dots> \<le> fl (of_int avg * jsAdd 1 (jsDiv (of_int bps) 10000))"
    using upper_factor [OF assms(1)] assms(2) by (intro fl_mono mult_left_mono mult_nonneg_nonneg) simp_all
  finally show ?thesis by (simp add: jsMul_def less_ceiling_iff)
qed

text \<open>
  The two lines of a checked bracket enclose the average fill price: the stop is a positive price
  below it (or the smallest price, 1), the target is above it, and the stop is below the target, so
  that the pair can be registered.
\<close>

theorem bracket_lines_enclose:
  assumes "validateSpec \<lparr>bs_stopBps = br_stopBps b, bs_takeBps = br_takeBps b\<rparr> = Inr ()"
    and "1 \<le> avg" "avg < 2 ^ 31"
  shows "(\<forall>l. lowerPriceOf b avg = Some l \<longrightarrow> 1 \<le> l \<and> l \<le> max 1 (avg - 1)) \<and>
    (\<forall>u. upperPriceOf b avg = Some u \<longrightarrow> avg < u) \<and>
    (\<forall>l u. lowerPriceOf b avg = Some l \<longrightarrow> upperPriceOf b avg = Some u \<longrightarrow> l < u) \<and>
    (lowerPriceOf b avg \<noteq> None \<or> upperPriceOf b avg \<noteq> None)"
proof -
  have s: "10 \<le> x \<and> x \<le> 10000" if "br_stopBps b = Some x" for x
    using assms(1) that by (auto simp: validateSpec_def TRAIL_BPS_MIN_def TRAIL_BPS_MAX_def assertE_eq_Inr_iff elim!: bindE_InrE)
  have t: "10 \<le> x" if "br_takeBps b = Some x" for x
    using assms(1) that by (auto simp: validateSpec_def TRAIL_BPS_MIN_def assertE_eq_Inr_iff elim!: bindE_InrE)
  have ex: "br_stopBps b \<noteq> None \<or> br_takeBps b \<noteq> None"
    using assms(1) by (auto simp: validateSpec_def assertE_eq_Inr_iff elim!: bindE_InrE)
  have lo: "1 \<le> l \<and> l \<le> max 1 (avg - 1)" if "lowerPriceOf b avg = Some l" for l
    using that s lower_below [OF _ _ assms(2,3)] by (fastforce simp: lowerPriceOf_def)
  moreover have "avg < u" if "upperPriceOf b avg = Some u" for u
    using that t upper_above [OF _ assms(2,3)] by (fastforce simp: upperPriceOf_def)
  moreover have "l < u" if "lowerPriceOf b avg = Some l" "upperPriceOf b avg = Some u" for l u
    using that by (auto simp: upperPriceOf_def)
  ultimately show ?thesis using ex by (auto simp: lowerPriceOf_def upperPriceOf_def)
qed

section \<open>Registering\<close>

text \<open>A reserved order is either created, and nothing else changes in the database, or refused.\<close>

lemma bindS_onApi_txS:
  "bindS (onApi (txS f)) k w =
     (case f (watchDb w) of Inl e \<Rightarrow> (Inl e, w) | Inr (x, d) \<Rightarrow> k x (setWatchDb d w))"
  by (simp add: bindS_def onApi_txS split: sum.split prod.split)

lemma watchDb_index [simp]: "watchDb (snd (indexRow i c w)) = watchDb w"
  by (simp add: watchDb_def)

lemma watchDb_next [simp]: "watchDb (w\<lparr>wt_api := (wt_api w)\<lparr>ap_next := n\<rparr>\<rparr>) = watchDb w"
  by (simp add: watchDb_def)

lemma placeConditional_outcome:
  assumes "placeConditional accountId dto w = (r, w')"
  shows "(\<exists>e. r = Inl e) \<and> watchDb w' = watchDb w \<or>
    (\<exists>i c cond side lastPrice. r = Inr (i, c) \<and> conditionOf dto lastPrice = Inr cond \<and>
       c = newConditional (ap_now (wt_api w)) accountId dto side cond \<and>
       watchDb w' = (watchDb w)\<lparr>db_conditionals := db_conditionals (watchDb w) @ [(i, c)]\<rparr>)"
proof -
  define i where "i = ap_ids (wt_api w) (ap_next (wt_api w))"
  define side where "side = hedgeSideFor (watchDb w) accountId (cq_symbol dto) (cq_side dto)"
  define w1 where "w1 = w\<lparr>wt_api := (wt_api w)\<lparr>ap_next := Suc (ap_next (wt_api w))\<rparr>\<rparr>"
  let ?run = "\<lambda>c. bindS (onApi (txS (\<lambda>d. bindE (createConditional i c d) (\<lambda>d. Inr ((), d))))) (\<lambda>_.
     bindS (indexRow i c) (\<lambda>_. returnS (i, c))) w1"
  have fin: "(\<exists>e. r = Inl e) \<and> watchDb w' = watchDb w1 \<or>
      r = Inr (i, c) \<and> watchDb w' = (watchDb w1)\<lparr>db_conditionals := db_conditionals (watchDb w1) @ [(i, c)]\<rparr>"
    if "?run c = (r, w')" for c
    using that
    by (cases "createConditional i c (watchDb w1)") (auto simp: bindS_onApi_txS bindS_onApi createConditional_Inr)
  have "(\<exists>e. r = Inl e) \<and> w' = w \<or> (\<exists>lastPrice cond. conditionOf dto lastPrice = Inr cond \<and>
      ?run (newConditional (ap_now (wt_api w)) accountId dto side cond) = (r, w'))"
    using assms by (auto simp: placeConditional_def bindS_liftS bindS_onApi Let_def i_def side_def w1_def split: sum.splits)
  then show ?thesis
  proof (elim disjE exE conjE)
    fix lastPrice cond
    assume c: "conditionOf dto lastPrice = Inr cond"
      and run: "?run (newConditional (ap_now (wt_api w)) accountId dto side cond) = (r, w')"
    have "watchDb w1 = watchDb w" by (simp add: w1_def)
    from fin [OF run] show ?thesis
    proof (elim disjE conjE)
      assume "r = Inr (i, newConditional (ap_now (wt_api w)) accountId dto side cond)"
        "watchDb w' = (watchDb w1)\<lparr>db_conditionals := db_conditionals (watchDb w1) @
           [(i, newConditional (ap_now (wt_api w)) accountId dto side cond)]\<rparr>"
      with c \<open>watchDb w1 = watchDb w\<close> show ?thesis by (intro disjI2 exI conjI) (assumption | simp)+
    qed (simp add: \<open>watchDb w1 = watchDb w\<close>)
  qed simp
qed

lemma placeOco_outcome:
  assumes "placeOco accountId symbol side qty lower upper w = (r, w')"
  shows "(\<exists>e. r = Inl e) \<and> watchDb w' = watchDb w \<or>
    (\<exists>i j g now ps. (\<exists>rows. r = Inr rows) \<and>
       watchDb w' = (watchDb w)\<lparr>db_conditionals := db_conditionals (watchDb w) @
         [(i, ocoLeg now accountId symbol side qty ps g AT_OR_BELOW lower),
          (j, ocoLeg now accountId symbol side qty ps g AT_OR_ABOVE upper)]\<rparr>)"
proof -
  define n where "n = ap_next (wt_api w)"
  define g where "g = ap_ids (wt_api w) n"
  define i where "i = ap_ids (wt_api w) (Suc n)"
  define j where "j = ap_ids (wt_api w) (Suc (Suc n))"
  define ps where "ps = hedgeSideFor (watchDb w) accountId symbol side"
  define lo where "lo = ocoLeg (ap_now (wt_api w)) accountId symbol side qty ps g AT_OR_BELOW lower"
  define up where "up = ocoLeg (ap_now (wt_api w)) accountId symbol side qty ps g AT_OR_ABOVE upper"
  define w1 where "w1 = w\<lparr>wt_api := (wt_api w)\<lparr>ap_next := Suc (Suc (Suc n))\<rparr>\<rparr>"
  let ?run = "bindS (onApi (txS (\<lambda>d. bindE (createConditional i lo d) (\<lambda>d.
        bindE (createConditional j up d) (\<lambda>d. Inr ((), d)))))) (\<lambda>_.
     bindS (indexRow i lo) (\<lambda>_. bindS (indexRow j up) (\<lambda>_. returnS [(i, lo), (j, up)]))) w1"
  have fin: "(\<exists>e. r = Inl e) \<and> watchDb w' = watchDb w1 \<or>
      (\<exists>rows. r = Inr rows) \<and> watchDb w' = (watchDb w1)\<lparr>db_conditionals := db_conditionals (watchDb w1) @ [(i, lo), (j, up)]\<rparr>"
    if run: "?run = (r, w')"
  proof (cases "createConditional i lo (watchDb w1)")
    case (Inl e)
    then show ?thesis using run by (auto simp: bindS_onApi_txS)
  next
    case (Inr d1)
    then have d1: "d1 = (watchDb w1)\<lparr>db_conditionals := db_conditionals (watchDb w1) @ [(i, lo)]\<rparr>"
      by (simp add: createConditional_Inr)
    show ?thesis
    proof (cases "createConditional j up d1")
      case second: (Inr d2)
      then have "d2 = (watchDb w1)\<lparr>db_conditionals := db_conditionals (watchDb w1) @ [(i, lo), (j, up)]\<rparr>"
        by (simp add: createConditional_Inr d1)
      then show ?thesis using run Inr second by (auto simp: bindS_onApi_txS bindS_onApi)
    qed (use run Inr in \<open>auto simp: bindS_onApi_txS\<close>)
  qed
  have "(\<exists>e. r = Inl e) \<and> w' = w \<or> ?run = (r, w')"
    using assms by (auto simp: placeOco_def bindS_liftS bindS_onApi Let_def n_def g_def i_def j_def ps_def lo_def up_def w1_def
        split: sum.splits)
  moreover have "watchDb w1 = watchDb w" by (simp add: w1_def)
  ultimately show ?thesis
  proof (elim disjE)
    assume "?run = (r, w')"
    from fin [OF this] show ?thesis
    proof (elim disjE conjE)
      assume "\<exists>rows. r = Inr rows"
        "watchDb w' = (watchDb w1)\<lparr>db_conditionals := db_conditionals (watchDb w1) @ [(i, lo), (j, up)]\<rparr>"
      with \<open>watchDb w1 = watchDb w\<close> show ?thesis unfolding lo_def up_def
        by - (rule disjI2, rule exI [of _ i], rule exI [of _ j], rule exI [of _ g], rule exI, rule exI [of _ ps],
          rule conjI, assumption, simp)
    qed (simp add: \<open>watchDb w1 = watchDb w\<close>)
  qed simp
qed

section \<open>Arming\<close>

text \<open>Everything but the intents is as before.\<close>

definition sameBut :: "db \<Rightarrow> db \<Rightarrow> bool" where
  "sameBut d d' \<longleftrightarrow> d'\<lparr>db_brackets := db_brackets d\<rparr> = d"

definition linesOf :: "int option \<Rightarrow> int option \<Rightarrow> (trigger_direction \<times> int) list" where
  "linesOf lower upper =
     (case lower of None \<Rightarrow> [] | Some l \<Rightarrow> [(AT_OR_BELOW, l)]) @ (case upper of None \<Rightarrow> [] | Some u \<Rightarrow> [(AT_OR_ABOVE, u)])"

definition crossed :: "int option \<Rightarrow> int option \<Rightarrow> int \<Rightarrow> bool" where
  "crossed lower upper lastPrice \<longleftrightarrow> (\<exists>(direction, p) \<in> set (linesOf lower upper). conditionMet direction p lastPrice)"

text \<open>The reserved sales of the whole quantity, one per line, and a pair shares its group.\<close>

definition registered :: "bracket_row \<Rightarrow> int \<Rightarrow> int option \<Rightarrow> int option \<Rightarrow> db \<Rightarrow> db \<Rightarrow> bool" where
  "registered b qty lower upper d d' \<longleftrightarrow>
     (\<exists>rows. sameBut (d\<lparr>db_conditionals := db_conditionals d @ rows\<rparr>) d' \<and>
        map (\<lambda>(i, c). (cd_direction c, cd_triggerPrice c)) rows = linesOf lower upper \<and>
        (\<forall>(i, c) \<in> set rows. cd_accountId c = br_accountId b \<and> cd_symbol c = br_symbol b \<and> cd_side c = SELL \<and>
           cd_qty c = qty \<and> cd_orderType c = MARKET \<and> cd_status c = WAITING) \<and>
        (\<forall>(i, c) \<in> set rows. \<forall>(j, c') \<in> set rows. cd_ocoGroupId c = cd_ocoGroupId c' \<and>
           (length rows = 2 \<longrightarrow> cd_ocoGroupId c \<noteq> None)))"

text \<open>One market sale of the whole quantity, with its reservation and its event.\<close>

definition soldAtOnce :: "bracket_row \<Rightarrow> int \<Rightarrow> db \<Rightarrow> db \<Rightarrow> bool" where
  "soldAtOnce b qty d d' \<longleftrightarrow>
     (\<exists>i sale. sameBut (d\<lparr>db_orders := db_orders d @ [(i, sale)], db_accounts := db_accounts d',
          db_holdings := db_holdings d', db_orderOutbox := db_orderOutbox d'\<rparr>) d' \<and>
        or_accountId sale = br_accountId b \<and> or_symbol sale = br_symbol b \<and> or_side sale = SELL \<and>
        or_type sale = MARKET \<and> or_qty sale = qty)"

definition protection ::
  "(string \<Rightarrow> int option) \<Rightarrow> bracket_row \<Rightarrow> order_row \<Rightarrow> int \<Rightarrow> int option \<Rightarrow> int option \<Rightarrow> api \<Rightarrow> db \<Rightarrow> bool" where
  "protection theo b o' qty lower upper a d' \<longleftrightarrow>
     (\<exists>m. findRow (db_symbols (ap_db a)) (br_symbol b) = Some m \<and>
        (if crossed lower upper (sy_lastPrice m)
         then soldAtOnce b qty (ap_db a) d' \<or>
              (\<exists>e. fst (place theo (br_accountId b) (immediateSale b o' qty) a) = Inl e) \<and> sameBut (ap_db a) d'
         else registered b qty lower upper (ap_db a) d'))"

lemma protect_registers:
  assumes "protect theo b o' qty lower upper lastPrice w = (r, w')" and "\<not> crossed lower upper lastPrice"
    and "lower \<noteq> None \<or> upper \<noteq> None"
  shows "(\<exists>e. r = Inl e) \<and> watchDb w' = watchDb w \<or>
    (\<exists>x. r = Inr x) \<and> db_brackets (watchDb w') = db_brackets (watchDb w) \<and>
      registered b qty lower upper (watchDb w) (watchDb w')"
proof (cases lower)
  case None
  then obtain u where u: "upper = Some u" using assms(3) by auto
  obtain r1 where p: "placeConditional (br_accountId b) (singleLeg b qty AT_OR_ABOVE u) w = (r1, w')"
    "(\<exists>e. r1 = Inl e) \<and> (\<exists>e. r = Inl e) \<or> (\<exists>x. r1 = Inr x) \<and> (\<exists>x. r = Inr x)"
    using assms(1,2) None u by (auto simp: protect_def crossed_def linesOf_def bindS_def split: prod.splits sum.splits)
  then show ?thesis using placeConditional_outcome [OF p(1)] None u
    by (auto simp: registered_def linesOf_def sameBut_def newConditional_def singleLeg_def conditionOf_def assertE_eq_Inr_iff
        split: if_splits elim!: bindE_InrE)
next
  case (Some l)
  show ?thesis
  proof (cases upper)
    case None
    obtain r1 where p: "placeConditional (br_accountId b) (singleLeg b qty AT_OR_BELOW l) w = (r1, w')"
      "(\<exists>e. r1 = Inl e) \<and> (\<exists>e. r = Inl e) \<or> (\<exists>x. r1 = Inr x) \<and> (\<exists>x. r = Inr x)"
      using assms(1,2) None Some by (auto simp: protect_def crossed_def linesOf_def bindS_def split: prod.splits sum.splits)
    then show ?thesis using placeConditional_outcome [OF p(1)] None Some
      by (auto simp: registered_def linesOf_def sameBut_def newConditional_def singleLeg_def conditionOf_def
          split: if_splits elim!: bindE_InrE)
  next
    fix u assume u: "upper = Some u"
    obtain r1 where p: "placeOco (br_accountId b) (br_symbol b) SELL qty l u w = (r1, w')"
      "(\<exists>e. r1 = Inl e) \<and> (\<exists>e. r = Inl e) \<or> (\<exists>x. r1 = Inr x) \<and> (\<exists>x. r = Inr x)"
      using assms(1,2) Some u by (auto simp: protect_def crossed_def linesOf_def bindS_def split: prod.splits sum.splits)
    from placeOco_outcome [OF p(1)] p(2) show ?thesis
    proof (elim disjE exE conjE)
      fix i j g now ps rows
      assume r: "r1 = Inr rows" "watchDb w' = (watchDb w)\<lparr>db_conditionals := db_conditionals (watchDb w) @
         [(i, ocoLeg now (br_accountId b) (br_symbol b) SELL qty ps g AT_OR_BELOW l),
          (j, ocoLeg now (br_accountId b) (br_symbol b) SELL qty ps g AT_OR_ABOVE u)]\<rparr>"
      have "registered b qty lower upper (watchDb w) (watchDb w')"
        unfolding registered_def r(2)
        by (rule exI [of _ "[(i, ocoLeg now (br_accountId b) (br_symbol b) SELL qty ps g AT_OR_BELOW l),
              (j, ocoLeg now (br_accountId b) (br_symbol b) SELL qty ps g AT_OR_ABOVE u)]"])
           (simp add: Some u linesOf_def sameBut_def ocoLeg_def)
      moreover have "db_brackets (watchDb w') = db_brackets (watchDb w)" by (simp add: r(2))
      ultimately show ?thesis if "r = Inr x" for x using that by simp
    qed auto
  qed
qed

lemma placedDb_sale:
  assumes "placedDb accountId dto hold (i, sale) event now d d'"
  shows "d' = d\<lparr>db_orders := db_orders d @ [(i, sale)], db_accounts := db_accounts d',
     db_holdings := db_holdings d', db_orderOutbox := db_orderOutbox d'\<rparr>"
  using assms by (auto simp: placedDb_def reserved_def split: if_splits)

lemma protect_sells:
  assumes "protect theo b o' qty lower upper lastPrice w = (r, w')" and "crossed lower upper lastPrice"
  shows "(\<exists>x. r = Inr x) \<and> db_brackets (watchDb w') = db_brackets (watchDb w) \<and>
    (soldAtOnce b qty (watchDb w) (watchDb w') \<or>
     (\<exists>e. fst (place theo (br_accountId b) (immediateSale b o' qty) (wt_api w)) = Inl e) \<and> watchDb w' = watchDb w)"
proof -
  obtain p a where pl: "place theo (br_accountId b) (immediateSale b o' qty) (wt_api w) = (p, a)"
    by (cases "place theo (br_accountId b) (immediateSale b o' qty) (wt_api w)")
  have hit: "(case lower of None \<Rightarrow> False | Some l \<Rightarrow> conditionMet AT_OR_BELOW l lastPrice) \<or>
      (case upper of None \<Rightarrow> False | Some u \<Rightarrow> conditionMet AT_OR_ABOVE u lastPrice)"
    using assms(2) by (auto simp: crossed_def linesOf_def split: option.splits)
  have run: "(\<exists>x. r = Inr x) \<and> w' = w\<lparr>wt_api := a\<rparr>"
    using assms(1) hit pl
    by (cases p) (auto simp: protect_def Let_def catchS_def bindS_def onApi_def)
  from pl show ?thesis
  proof (cases rule: place_cases)
    case (refused e)
    then show ?thesis using run pl by (simp add: watchDb_def)
  next
    case (accepted m hold)
    note a = placedDb_sale [OF accepted(6)]
    have "sameBut ((ap_db (wt_api w))\<lparr>db_orders := db_orders (ap_db (wt_api w)) @
        [(ap_ids (wt_api w) (ap_next (wt_api w)), newOrder (ap_now (wt_api w)) (br_accountId b) (immediateSale b o' qty) hold)],
        db_accounts := db_accounts (ap_db a), db_holdings := db_holdings (ap_db a), db_orderOutbox := db_orderOutbox (ap_db a)\<rparr>) (ap_db a)"
      unfolding a [symmetric] by (simp add: sameBut_def)
    then have "soldAtOnce b qty (ap_db (wt_api w)) (ap_db a)"
      unfolding soldAtOnce_def by - (rule exI, rule exI, rule conjI, assumption, simp add: newOrder_def immediateSale_def)
    moreover have "db_brackets (ap_db a) = db_brackets (ap_db (wt_api w))" by (subst a) simp
    ultimately show ?thesis using run by (simp add: watchDb_def)
  qed
qed

lemma onApi_bracket:
  "onApi (updateBracket i f) w = (case findRow (db_brackets (watchDb w)) i of
     None \<Rightarrow> (Inl (RowNotFound ''bracket_intents''), w)
   | Some b \<Rightarrow> (Inr (), setWatchDb ((watchDb w)\<lparr>db_brackets := putRow i (f b) (db_brackets (watchDb w))\<rparr>) w))"
  by (simp add: updateBracket_def onApi_txS split: option.split)

text \<open>What the protection is does not depend on the intents.\<close>

lemma sameBut_frame [simp]: "sameBut d (d'\<lparr>db_brackets := x\<rparr>) = sameBut d d'"
  by (simp add: sameBut_def)

lemma protection_frame [simp]:
  "protection theo b o' qty lower upper a (d'\<lparr>db_brackets := x\<rparr>) = protection theo b o' qty lower upper a d'"
  by (simp add: protection_def registered_def soldAtOnce_def)

lemma protect_outcome:
  assumes "protect theo b o' qty lower upper (sy_lastPrice m) w = (r, w')" and "lower \<noteq> None \<or> upper \<noteq> None"
    and "findRow (db_symbols (watchDb w)) (br_symbol b) = Some m"
  shows "db_brackets (watchDb w') = db_brackets (watchDb w) \<and>
    ((\<exists>e. r = Inl e) \<and> watchDb w' = watchDb w \<or>
     (\<exists>x. r = Inr x) \<and> protection theo b o' qty lower upper (wt_api w) (watchDb w'))"
proof (cases "crossed lower upper (sy_lastPrice m)")
  case True
  show ?thesis using protect_sells [OF assms(1) True] True assms(3)
    by (auto simp: protection_def watchDb_def sameBut_def)
next
  case False
  show ?thesis using protect_registers [OF assms(1) False assms(2)] False assms(3)
    by (auto simp: protection_def watchDb_def registered_def sameBut_def)
qed

text \<open>Arming a filled order fails and leaves no trace, or notes the protection it has registered.\<close>

lemma arm_outcome:
  assumes "0 < or_filledQty o'" "lowerPriceOf b avg \<noteq> None \<or> upperPriceOf b avg \<noteq> None"
    and "findRow (db_brackets (watchDb w)) i = Some x"
    and "protectedQty (watchDb w) (br_orderId b) o' = qty" "avgFillPriceOf (watchDb w) (br_orderId b) o' = avg"
  shows "(\<exists>e v. arm theo i b o' w = (Inl e, v) \<and> watchDb v = watchDb w) \<or>
    (\<exists>t v. protection theo b o' qty (lowerPriceOf b avg) (upperPriceOf b avg) (wt_api w) (watchDb v) \<and>
       arm theo i b o' w = (Inr (), setWatchDb ((watchDb v)\<lparr>db_brackets := putRow i
         (x\<lparr>br_armedQty := qty, br_avgFillPrice := Some avg, br_note := Some t\<rparr>) (db_brackets (watchDb w))\<rparr>) v))"
proof (cases "findRow (db_symbols (watchDb w)) (br_symbol b)")
  case None
  then show ?thesis using assms by (simp add: arm_def bindS_onApi Let_def)
next
  case (Some m)
  obtain p v where pr: "protect theo b o' qty (lowerPriceOf b avg) (upperPriceOf b avg) (sy_lastPrice m) w = (p, v)"
    by (cases "protect theo b o' qty (lowerPriceOf b avg) (upperPriceOf b avg) (sy_lastPrice m) w")
  note po = protect_outcome [OF pr assms(2) Some]
  show ?thesis
  proof (cases p)
    case (Inl e)
    then have "arm theo i b o' w = (Inl e, v)"
      using assms(1,4,5) Some pr by (simp add: arm_def bindS_onApi Let_def bindS_def)
    then show ?thesis using po Inl by blast
  next
    case (Inr t)
    then have "arm theo i b o' w = (Inr (), setWatchDb ((watchDb v)\<lparr>db_brackets := putRow i
         (x\<lparr>br_armedQty := qty, br_avgFillPrice := Some avg, br_note := Some t\<rparr>) (db_brackets (watchDb w))\<rparr>) v)"
      using assms(1,3-5) Some pr po by (simp add: arm_def bindS_onApi Let_def bindS_def onApi_bracket)
    then show ?thesis using po Inr by blast
  qed
qed

text \<open>
  C23. A sweep that meets a pending intent whose order has closed ends in one of three ways. Without a
  fill the intent is cancelled and nothing is placed. Otherwise the intent is armed for exactly the
  quantity bought, and that quantity is protected once: by the reserved sales at its lines (a pair shares
  its group), or, when the market is already across a line, by one market sale, unless the exchange
  refuses that sale. When the registration fails, nothing has been registered and the intent is pending
  again. An intent that is not pending is left alone, so what is armed is never armed again.
\<close>

theorem bracket_protects_once:
  assumes "settleBracket theo i w = (r, w')"
    and "findRow (db_brackets (watchDb w)) i = Some b" "br_status b = PENDING"
    and "br_stopBps b \<noteq> None \<or> br_takeBps b \<noteq> None"
    and "findRow (db_orders (watchDb w)) (br_orderId b) = Some o'" "isTerminal (or_status o')"
  shows "\<exists>b'. findRow (db_brackets (watchDb w')) i = Some b' \<and>
    (let d = watchDb w; qty = protectedQty d (br_orderId b) o'; avg = avgFillPriceOf d (br_orderId b) o';
         claimed = d\<lparr>db_brackets := putRow i (b\<lparr>br_status := ARMED\<rparr>) (db_brackets d)\<rparr>
     in (case br_status b' of
           BRACKET_CANCELED \<Rightarrow> or_filledQty o' \<le> 0 \<and> sameBut d (watchDb w')
         | PENDING \<Rightarrow> 0 < or_filledQty o' \<and> sameBut d (watchDb w')
         | ARMED \<Rightarrow> 0 < or_filledQty o' \<and> br_armedQty b' = qty \<and> br_avgFillPrice b' = Some avg \<and>
             protection theo b o' qty (lowerPriceOf b avg) (upperPriceOf b avg) ((wt_api w)\<lparr>ap_db := claimed\<rparr>) (watchDb w')) \<and>
        (br_status b' \<noteq> PENDING \<longrightarrow> settleBracket theo i w' = (Inr (), w')))"
proof -
  let ?d = "watchDb w" and ?b = "b\<lparr>br_status := ARMED\<rparr>"
  define d1 where "d1 = ?d\<lparr>db_brackets := putRow i ?b (db_brackets ?d)\<rparr>"
  define w1 where "w1 = setWatchDb d1 w"
  define qty where "qty = protectedQty ?d (br_orderId b) o'"
  define avg where "avg = avgFillPriceOf ?d (br_orderId b) o'"
  have d1: "watchDb w1 = d1" by (simp add: w1_def)
  have api: "wt_api w1 = (wt_api w)\<lparr>ap_db := d1\<rparr>" by (simp add: w1_def setWatchDb_def)
  have same: "protectedQty d1 (br_orderId b) o' = qty" "avgFillPriceOf d1 (br_orderId b) o' = avg" "db_symbols d1 = db_symbols ?d"
    by (simp_all add: d1_def qty_def avg_def protectedQty_def avgFillPriceOf_def boughtQty_def boughtAmount_def Let_def)
  have row: "findRow (db_brackets d1) i = Some ?b" by (simp add: d1_def)
  have sb: "sameBut ?d d1" by (simp add: d1_def sameBut_def)
  have run: "catchS (arm theo i b o') (rearm i) w1 = (r, w')"
    using assms by (simp add: settleBracket_def bindS_onApi bindS_onApi_txS claimBracket_def w1_def d1_def split: if_splits)
  have lines: "lowerPriceOf b avg \<noteq> None \<or> upperPriceOf b avg \<noteq> None"
    using assms(4) by (auto simp: lowerPriceOf_def upperPriceOf_def)
  have again: "settleBracket theo i w' = (Inr (), w')"
    if "findRow (db_brackets (watchDb w')) i = Some x" "br_status x \<noteq> PENDING" for x
    using that by (simp add: settleBracket_def bindS_onApi)
  have pending: "\<exists>b'. findRow (db_brackets (watchDb w')) i = Some b' \<and> br_status b' = PENDING \<and> sameBut ?d (watchDb w')"
    if "arm theo i b o' w1 = (Inl e, v)" "watchDb v = d1" for e v
    using run that row sb by (auto simp: catchS_def rearm_def onApi_bracket)
  show ?thesis
  proof (cases "or_filledQty o' \<le> 0")
    case True
    then have "w' = setWatchDb (d1\<lparr>db_brackets := putRow i (?b\<lparr>br_status := BRACKET_CANCELED, br_note := Some ''closed without a fill''\<rparr>)
        (db_brackets d1)\<rparr>) w1"
      using run row d1 by (simp add: catchS_def arm_def onApi_bracket)
    then show ?thesis using True sb again by (simp add: Let_def)
  next
    case False
    from arm_outcome [of o' b avg w1 i ?b qty theo, unfolded d1] False lines row same
    consider (fails) e v where "arm theo i b o' w1 = (Inl e, v)" "watchDb v = d1"
      | (arms) t v where "protection theo b o' qty (lowerPriceOf b avg) (upperPriceOf b avg) (wt_api w1) (watchDb v)"
          "arm theo i b o' w1 = (Inr (), setWatchDb ((watchDb v)\<lparr>db_brackets := putRow i
            (?b\<lparr>br_armedQty := qty, br_avgFillPrice := Some avg, br_note := Some t\<rparr>) (db_brackets d1)\<rparr>) v)"
      by fastforce
    then show ?thesis
    proof cases
      case fails
      from pending [OF this] False show ?thesis by (auto simp: Let_def)
    next
      case arms
      then have "w' = setWatchDb ((watchDb v)\<lparr>db_brackets := putRow i
          (?b\<lparr>br_armedQty := qty, br_avgFillPrice := Some avg, br_note := Some t\<rparr>) (db_brackets d1)\<rparr>) v"
        using run by (simp add: catchS_def)
      then show ?thesis using arms(1) False again api
        by (simp add: Let_def qty_def [symmetric] avg_def [symmetric] d1_def [symmetric])
    qed
  qed
qed

section \<open>Examples\<close>

text \<open>B bought 4 shares of KABU at 1000 and protects them ten per cent away on both sides.\<close>

definition demoIntent :: bracket_row where
  "demoIntent = newBracket 1 ''B'' ''o9'' ''KABU'' \<lparr>bs_stopBps = Some 1000, bs_takeBps = Some 1000\<rparr>"

definition demoBought :: order_row where
  "demoBought = (demoOrderRow ''B'' BUY 0)\<lparr>or_status := FILLED, or_qty := 4, or_filledQty := 4\<rparr>"

definition demoArming :: watch where
  "demoArming = \<lparr>wt_api = demoFloor\<lparr>ap_db := (ap_db demoFloor)\<lparr>
       db_orders := [(''o9'', demoBought)],
       db_trades := [(''t9'', \<lparr>tr_symbol = ''KABU'', tr_price = 1000, tr_qty = 4, tr_buyOrderId = ''o9'', tr_sellOrderId = ''o2'',
         tr_buyerAccountId = ''B'', tr_sellerAccountId = ''A'', tr_takerSide = BUY, tr_createdAt = 1800000000123\<rparr>)],
       db_brackets := [(''b9'', demoIntent)]\<rparr>\<rparr>, wt_waiting = []\<rparr>"

lemma bracket_lines_enclose_witness:
  "\<exists>l u. lowerPriceOf demoIntent 1000 = Some l \<and> upperPriceOf demoIntent 1000 = Some u \<and> 1 \<le> l \<and> l \<le> 999 \<and> 1000 < u"
proof -
  have "validateSpec \<lparr>bs_stopBps = br_stopBps demoIntent, bs_takeBps = br_takeBps demoIntent\<rparr> = Inr ()" by code_simp
  from bracket_lines_enclose [OF this, of 1000] show ?thesis
    by (auto simp: lowerPriceOf_def upperPriceOf_def demoIntent_def newBracket_def)
qed

lemma bracket_protects_once_witness:
  "\<exists>b'. findRow (db_brackets (watchDb (snd (settleBracket (\<lambda>_. None) ''b9'' demoArming)))) ''b9'' = Some b' \<and>
     br_status b' \<noteq> BRACKET_CANCELED \<and> (br_status b' = ARMED \<longrightarrow> br_armedQty b' = 4)"
proof -
  have row: "findRow (db_brackets (watchDb demoArming)) ''b9'' = Some demoIntent"
    by (simp add: demoArming_def watchDb_def findRow_def)
  have order: "findRow (db_orders (watchDb demoArming)) (br_orderId demoIntent) = Some demoBought"
    by (simp add: demoArming_def watchDb_def findRow_def demoIntent_def newBracket_def)
  have qty: "protectedQty (watchDb demoArming) (br_orderId demoIntent) demoBought = 4" by code_simp
  have hyps: "br_status demoIntent = PENDING" "br_stopBps demoIntent \<noteq> None \<or> br_takeBps demoIntent \<noteq> None"
    "isTerminal (or_status demoBought)" "0 < or_filledQty demoBought"
    by (simp_all add: demoIntent_def newBracket_def demoBought_def isActive_def)
  obtain r w' where run: "settleBracket (\<lambda>_. None) ''b9'' demoArming = (r, w')"
    by (cases "settleBracket (\<lambda>_. None) ''b9'' demoArming")
  from bracket_protects_once [OF run row hyps(1,2) order hyps(3)] show ?thesis
  proof (elim exE conjE)
    fix b'
    assume b': "findRow (db_brackets (watchDb w')) ''b9'' = Some b'"
      and "let d = watchDb demoArming; qty = protectedQty d (br_orderId demoIntent) demoBought;
             avg = avgFillPriceOf d (br_orderId demoIntent) demoBought;
             claimed = d\<lparr>db_brackets := putRow ''b9'' (demoIntent\<lparr>br_status := ARMED\<rparr>) (db_brackets d)\<rparr>
         in (case br_status b' of
               BRACKET_CANCELED \<Rightarrow> or_filledQty demoBought \<le> 0 \<and> sameBut d (watchDb w')
             | PENDING \<Rightarrow> 0 < or_filledQty demoBought \<and> sameBut d (watchDb w')
             | ARMED \<Rightarrow> 0 < or_filledQty demoBought \<and> br_armedQty b' = qty \<and> br_avgFillPrice b' = Some avg \<and>
                 protection (\<lambda>_. None) demoIntent demoBought qty (lowerPriceOf demoIntent avg) (upperPriceOf demoIntent avg)
                   ((wt_api demoArming)\<lparr>ap_db := claimed\<rparr>) (watchDb w')) \<and>
            (br_status b' \<noteq> PENDING \<longrightarrow> settleBracket (\<lambda>_. None) ''b9'' w' = (Inr (), w'))"
    then show ?thesis using hyps(4) b' unfolding run by (cases "br_status b'") (simp_all add: Let_def qty)
  qed
qed

end
