(* ===== verification/Futures_Settlement.thy ===== *)
theory Futures_Settlement
  imports Api_Service
begin

text \<open>
  \<open>apps/api/src/futures/futures-settlement.service.ts\<close>: the daily settlement of futures and options
  inside the trading pause. Every position is closed in a transaction of its own that claims an event
  id, so a run that stopped half way is continued by the next one. Notifications, timers and the wake-up
  of the relay are left out.
\<close>

section \<open>Identifiers and results\<close>

definition futuresSettleId :: "string \<Rightarrow> string \<Rightarrow> string \<Rightarrow> row_side \<Rightarrow> string" where
  "futuresSettleId symbol tradingDay accountId positionSide =
     ''futures-settle:'' @ symbol @ '':'' @ tradingDay @ '':'' @ accountId @
     (case positionSide of NET \<Rightarrow> [] | LONG_ROW \<Rightarrow> '':LONG'' | SHORT_ROW \<Rightarrow> '':SHORT'')"

definition optionSettleId :: "string \<Rightarrow> string \<Rightarrow> string \<Rightarrow> string" where
  "optionSettleId symbol tradingDay accountId = ''option-settle:'' @ symbol @ '':'' @ tradingDay @ '':'' @ accountId"

record day_symbol =
  ds_symbol :: string
  ds_price :: "int option"
  ds_positions :: int
  ds_realizedTotal :: int

record day_result =
  dr_tradingDay :: string
  dr_canceledOrders :: nat
  dr_symbols :: "day_symbol list"

section \<open>One position\<close>

text \<open>What a closed position pays or owes, on the account's cash; what the cash cannot cover is debt.\<close>

definition payOut :: "lock_ctx \<Rightarrow> string \<Rightarrow> string \<Rightarrow> int \<Rightarrow> string \<Rightarrow> db \<Rightarrow> error + db" where
  "payOut ctx eventId accountId amount reason d =
     (let account = snapshotOf ctx accountId;
          debt = debtOf d accountId;
          cash = applyFuturesCash \<lparr>fc_balance = as_balance account, fc_holdAmount = as_holdAmount account, fc_debt = debt\<rparr> amount
      in bindE (cx_update ctx accountId (fr_balance cash) (as_holdAmount account) d) (\<lambda>d1.
         let d2 = (if fr_ledgerDelta cash \<noteq> 0
                   then createLedger (ledgerRow accountId (fr_ledgerDelta cash) (fr_balance cash) reason eventId) d1
                   else d1)
         in if fr_debt cash \<noteq> debt then writeDebt accountId (fr_debt cash) d2 else Inr d2))"

text \<open>
  The transaction that closes one row at a price: claimed once per event id; \<open>payoff\<close> says what the
  closed row pays. The result is the realised profit, or nothing when there was nothing to close.
\<close>

definition closingFill :: "int \<Rightarrow> int \<Rightarrow> position_row \<Rightarrow> future_fill" where
  "closingFill unitValue price p =
     applyFutureFill unitValue \<lparr>fp_qty = po_qty p, fp_entryValue = po_entryValue p\<rparr>
       (if po_qty p > 0 then SELL else BUY) price \<bar>po_qty p\<bar>"

definition emptied :: "position_row \<Rightarrow> position_row" where
  "emptied p = p\<lparr>po_qty := 0, po_entryValue := 0, po_marginHeld := 0\<rparr>"

definition closePosition ::
  "string \<Rightarrow> string \<times> string \<times> row_side \<Rightarrow> int \<Rightarrow> int \<Rightarrow> (position_row \<Rightarrow> int) \<Rightarrow> string \<Rightarrow> int option body" where
  "closePosition eventId key unitValue price payoff reason ctx d =
     (if eventId \<in> set (db_processed d) then Inr (None, d)
      else bindE (createProcessed eventId d) (\<lambda>d.
        case findRow (db_positions d) key of
          None \<Rightarrow> Inr (None, d)
        | Some p \<Rightarrow>
            if po_qty p = 0 then Inr (None, d)
            else let fill = closingFill unitValue price p in
              bindE (writePosition key (emptied p) d) (\<lambda>d.
              bindE (createRealized (eventId, SETTLE)
                       \<lparr>fz_accountId = fst key, fz_symbol = fst (snd key), fz_closedQty = ff_closedQty fill,
                        fz_price = price, fz_realized = ff_realized fill\<rparr> d) (\<lambda>d.
              bindE (payOut ctx eventId (fst key) (payoff p) reason d) (\<lambda>d.
              Inr (Some (ff_realized fill), d))))))"

definition settlePosition :: "future_def \<Rightarrow> string \<Rightarrow> int \<Rightarrow> string \<Rightarrow> row_side \<Rightarrow> int option service" where
  "settlePosition def' tradingDay price accountId positionSide =
     txS (pessimisticLock [accountId]
       (closePosition (futuresSettleId (fd_symbol def') tradingDay accountId positionSide)
          (accountId, fd_symbol def', positionSide) (fd_unitValue def') price
          (\<lambda>p. ff_realized (closingFill (fd_unitValue def') price p)) ''FUTURES_SETTLE''))"

text \<open>An option pays its intrinsic value; the premium went over at the trade.\<close>

definition settleOptionPosition :: "option_def \<Rightarrow> string \<Rightarrow> int \<Rightarrow> string \<Rightarrow> int option service" where
  "settleOptionPosition def' tradingDay intrinsic accountId =
     txS (pessimisticLock [accountId]
       (closePosition (optionSettleId (od_symbol def') tradingDay accountId)
          (accountId, od_symbol def', NET) (od_unitValue def') intrinsic
          (\<lambda>p. po_qty p * intrinsic * od_unitValue def') ''OPTION_EXPIRY''))"

section \<open>Prices\<close>

definition latestEpoch :: "db \<Rightarrow> index_epoch option" where
  "latestEpoch d = (case sort_key (\<lambda>e. - ie_startsAt e) (db_epochs d) of [] \<Rightarrow> None | e # _ \<Rightarrow> Some e)"

text \<open>\<open>DISTINCT ON (code) ... ORDER BY code, ts DESC\<close>: the last minute close of a reference asset.\<close>

definition referenceClose :: "db \<Rightarrow> string \<Rightarrow> int option" where
  "referenceClose d code =
     (case sort_key (\<lambda>((c, interval, ts), x). - ts)
             (filter (\<lambda>((c, interval, ts), x). c = code \<and> interval = ''1m'') (db_references d)) of
        [] \<Rightarrow> None
      | (k, x) # _ \<Rightarrow> Some (cn_close x))"

definition stockValue :: "(symbol_row \<Rightarrow> int) \<Rightarrow> db \<Rightarrow> string \<Rightarrow> rat" where
  "stockValue f d symbol =
     (case findRow (filter (\<lambda>(x, m). sy_kind m = STOCK) (db_symbols d)) symbol of
        None \<Rightarrow> 0 | Some m \<Rightarrow> fl (of_int (f m)))"

definition settlementPrice :: "db \<Rightarrow> future_def \<Rightarrow> int option" where
  "settlementPrice d def' =
     (if fd_underlying def' = ''KABU_INDEX'' then
        (case latestEpoch d of
           None \<Rightarrow> None
         | Some epoch \<Rightarrow>
             if ie_divisor epoch \<le> 0 then None
             else let level = indexLevel epoch (stockValue sy_lastPrice d) (stockValue sy_listedShares d)
                  in if level > 0 then Some (mathRound (jsMul level (of_int (fd_priceScale def')))) else None)
      else case referenceClose d (fd_underlying def') of
             None \<Rightarrow> None | Some close \<Rightarrow> if close > 0 then Some close else None)"

definition settlementPrices :: "db \<Rightarrow> string \<Rightarrow> int option" where
  "settlementPrices d symbol =
     (case futureDef symbol of None \<Rightarrow> None | Some f \<Rightarrow> settlementPrice d f)"

section \<open>The day\<close>

text \<open>A cancel request for every live order of the symbols; one statement writes them all.\<close>

definition freshIds :: "nat \<Rightarrow> string list service" where
  "freshIds n s = (Inr (map (ap_ids s) [ap_next s..<ap_next s + n]), s\<lparr>ap_next := ap_next s + n\<rparr>)"

definition cancelRow :: "int \<Rightarrow> string \<times> string \<times> string \<Rightarrow> db \<Rightarrow> error + db" where
  "cancelRow now row d = (case row of (eventId, orderId, symbol) \<Rightarrow>
     createOrderOutbox eventId (OrderCancelRequested
       \<lparr>cr_eventId = eventId, cr_orderId = orderId, cr_symbol = symbol, cr_ts = now\<rparr>) now d)"

definition cancelOpenFuturesOrders :: "string list \<Rightarrow> nat service" where
  "cancelOpenFuturesOrders symbols =
     bindS (readDb (\<lambda>d. filter (\<lambda>(i, o'). or_symbol o' \<in> set symbols \<and> isActive (or_status o')) (db_orders d))) (\<lambda>orders.
     if orders = [] then returnS 0
     else bindS (freshIds (length orders)) (\<lambda>ids. bindS clockS (\<lambda>now.
          bindS (txS (\<lambda>d. bindE (foldE (cancelRow now) (zip ids (map (\<lambda>(i, o'). (i, or_symbol o')) orders)) d) (\<lambda>d. Inr ((), d)))) (\<lambda>_.
          returnS (length orders)))))"

definition openPositions :: "db \<Rightarrow> string \<Rightarrow> ((string \<times> string \<times> row_side) \<times> position_row) list" where
  "openPositions d symbol = filter (\<lambda>(k, p). fst (snd k) = symbol \<and> po_qty p \<noteq> 0) (db_positions d)"

text \<open>The loop over the open positions of a symbol: how many closed, and the profit realised.\<close>

definition closeNext ::
  "(string \<times> string \<times> row_side \<Rightarrow> int option service) \<Rightarrow> (string \<times> string \<times> row_side) \<times> position_row \<Rightarrow>
     int \<times> int \<Rightarrow> (int \<times> int) service" where
  "closeNext close position totals =
     bindS (close (fst position)) (\<lambda>realized. case realized of
       None \<Rightarrow> returnS totals
     | Some x \<Rightarrow> returnS (fst totals + 1, snd totals + x))"

definition closeAll ::
  "(string \<times> string \<times> row_side \<Rightarrow> int option service) \<Rightarrow> ((string \<times> string \<times> row_side) \<times> position_row) list \<Rightarrow> (int \<times> int) service" where
  "closeAll close open' = eachS (closeNext close) open' (0, 0)"

definition recordSettlement :: "string \<Rightarrow> string \<Rightarrow> int \<Rightarrow> int \<times> int \<Rightarrow> unit service" where
  "recordSettlement symbol tradingDay price totals = txS (\<lambda>d.
     if findRow (db_settlements d) (symbol, tradingDay) \<noteq> None then Inl (UniqueViolation ''futures_settlements'')
     else Inr ((), d\<lparr>db_settlements := db_settlements d @
       [((symbol, tradingDay), \<lparr>fs_price = price, fs_positions = fst totals, fs_realizedTotal = snd totals\<rparr>)]\<rparr>))"

text \<open>
  One symbol of the day. A recorded symbol is skipped; one without a price fails when it has positions
  and is recorded at price 0 when it has none; otherwise its positions are closed and it is recorded.
\<close>

definition settleSymbol ::
  "(string \<times> string, settlement_row) rows \<Rightarrow> string \<Rightarrow> string \<Rightarrow> int option \<Rightarrow>
     (int \<Rightarrow> string \<times> string \<times> row_side \<Rightarrow> int option service) \<Rightarrow> day_symbol service" where
  "settleSymbol done' tradingDay symbol price close =
     (case findRow done' (symbol, tradingDay) of
        Some row \<Rightarrow> returnS \<lparr>ds_symbol = symbol, ds_price = Some (fs_price row), ds_positions = 0, ds_realizedTotal = 0\<rparr>
      | None \<Rightarrow>
          bindS (readDb (\<lambda>d. openPositions d symbol)) (\<lambda>open'.
          case price of
            None \<Rightarrow>
              if open' \<noteq> [] then throwS (Thrown ''no settlement price'')
              else bindS (recordSettlement symbol tradingDay 0 (0, 0)) (\<lambda>_.
                   returnS \<lparr>ds_symbol = symbol, ds_price = None, ds_positions = 0, ds_realizedTotal = 0\<rparr>)
          | Some x \<Rightarrow>
              bindS (closeAll (close x) open') (\<lambda>totals.
              bindS (recordSettlement symbol tradingDay x totals) (\<lambda>_.
              returnS \<lparr>ds_symbol = symbol, ds_price = Some x, ds_positions = fst totals, ds_realizedTotal = snd totals\<rparr>))))"

definition settleFuture ::
  "(string \<times> string, settlement_row) rows \<Rightarrow> string \<Rightarrow> (string \<Rightarrow> int option) \<Rightarrow> future_def \<Rightarrow> day_symbol list \<Rightarrow> day_symbol list service" where
  "settleFuture done' tradingDay prices def' acc =
     bindS (settleSymbol done' tradingDay (fd_symbol def') (prices (fd_symbol def'))
              (\<lambda>price k. settlePosition def' tradingDay price (fst k) (snd (snd k)))) (\<lambda>x. returnS (acc @ [x]))"

text \<open>An option is worth its intrinsic value at the settlement price of its underlying.\<close>

definition optionPrice :: "(string \<Rightarrow> int option) \<Rightarrow> (string, series_row) rows \<Rightarrow> option_def \<Rightarrow> int option" where
  "optionPrice prices series def' =
     (case (optionUnderlyingUnits (od_family def') prices, findRow series (od_symbol def')) of
        (Some underlying, Some s) \<Rightarrow> Some (optionIntrinsic (od_type def') underlying (se_strike s))
      | _ \<Rightarrow> None)"

definition settleOption ::
  "(string \<times> string, settlement_row) rows \<Rightarrow> string \<Rightarrow> (string \<Rightarrow> int option) \<Rightarrow> (string, series_row) rows \<Rightarrow> option_def \<Rightarrow>
     day_symbol list \<Rightarrow> day_symbol list service" where
  "settleOption done' tradingDay prices series def' acc =
     bindS (settleSymbol done' tradingDay (od_symbol def') (optionPrice prices series def')
              (\<lambda>intrinsic k. settleOptionPosition def' tradingDay intrinsic (fst k))) (\<lambda>x. returnS (acc @ [x]))"

definition resolveMarginCalls :: "int \<Rightarrow> db \<Rightarrow> db" where
  "resolveMarginCalls now d = d\<lparr>db_marginCalls := map (\<lambda>(i, c).
     (i, if mc_resolvedAt c = None then c\<lparr>mc_resolvedAt := Some now, mc_outcome := Some ''SETTLED''\<rparr> else c)) (db_marginCalls d)\<rparr>"

definition settleDay :: "string \<Rightarrow> day_result service" where
  "settleDay tradingDay =
     bindS (readDb (\<lambda>d. filter (\<lambda>((x, day), row). day = tradingDay) (db_settlements d))) (\<lambda>done'.
     let pending = filter (\<lambda>x. findRow done' (x, tradingDay) = None) (map fd_symbol FUTURES @ map od_symbol ALL_OPTIONS) in
     bindS (if pending \<noteq> [] then cancelOpenFuturesOrders pending else returnS 0) (\<lambda>canceledOrders.
     bindS (readDb (\<lambda>d. if pending \<noteq> [] then settlementPrices d else (\<lambda>_. None))) (\<lambda>prices.
     bindS (eachS (settleFuture done' tradingDay prices) FUTURES []) (\<lambda>futures.
     bindS (readDb db_series) (\<lambda>series.
     bindS (eachS (settleOption done' tradingDay prices series) ALL_OPTIONS futures) (\<lambda>symbols.
     bindS clockS (\<lambda>now.
     bindS (if \<exists>x \<in> set symbols. ds_positions x > 0 then writeDb (resolveMarginCalls now) else returnS ()) (\<lambda>_.
     returnS \<lparr>dr_tradingDay = tradingDay, dr_canceledOrders = canceledOrders, dr_symbols = symbols\<rparr>))))))))"

text \<open>The scheduled run: one process a day takes the lock, and gives it back when the run failed.\<close>

definition runScheduled :: "day_result option service" where
  "runScheduled =
     bindS clockS (\<lambda>now.
     let tradingDay = futuresTradingDay now; lockKey = ''mock-kabu2:lock:futures-settle:'' @ tradingDay in
     bindS freshId (\<lambda>token.
     bindS (catchS (redisSetNx lockKey token) (\<lambda>_. returnS False)) (\<lambda>locked.
     if \<not> locked then returnS None
     else catchS (bindS (settleDay tradingDay) (\<lambda>r. returnS (Some r)))
            (\<lambda>e. bindS (catchS (redisDel lockKey) (\<lambda>_. returnS ())) (\<lambda>_. returnS None)))))"

end
