(* ===== verification/Futures_Settlement_Props.thy ===== *)
theory Futures_Settlement_Props
  imports Futures_Settlement Settlement_Props Market_Props
begin

text \<open>
  What a run of the daily settlement does: every position due is closed and paid at most once, whatever
  stops the run, and a later run of the same day does exactly what is left.
\<close>

section \<open>What is due\<close>

type_synonym position_key = "string \<times> string \<times> row_side"

text \<open>
  The symbols of the day in the order of the code, with what a row of the symbol pays at its final
  price, when it has one.
\<close>

definition settleItems :: "db \<Rightarrow> (string \<times> (position_row \<Rightarrow> int) option) list" where
  "settleItems d =
     map (\<lambda>f. (fd_symbol f, map_option (\<lambda>price p. ff_realized (closingFill (fd_unitValue f) price p))
                              (settlementPrices d (fd_symbol f)))) FUTURES @
     map (\<lambda>o'. (od_symbol o', map_option (\<lambda>intrinsic p. po_qty p * intrinsic * od_unitValue o')
                              (optionPrice (settlementPrices d) (db_series d) o'))) ALL_OPTIONS"

definition recorded :: "db \<Rightarrow> string \<Rightarrow> string \<Rightarrow> bool" where
  "recorded d day symbol \<longleftrightarrow> findRow (db_settlements d) (symbol, day) \<noteq> None"

text \<open>The rows still to be closed for a day, with their amounts.\<close>

definition rowsOf :: "string \<Rightarrow> db \<Rightarrow> string \<times> (position_row \<Rightarrow> int) option \<Rightarrow> (position_key \<times> int) list" where
  "rowsOf day d it = (case snd it of
     None \<Rightarrow> []
   | Some f \<Rightarrow> if recorded d day (fst it) then [] else map (\<lambda>(k, p). (k, f p)) (openPositions d (fst it)))"

definition dueOf :: "string \<Rightarrow> db \<Rightarrow> (position_key \<times> int) list" where
  "dueOf day d = concat (map (rowsOf day d) (settleItems d))"

definition settleIdOf :: "string \<Rightarrow> position_key \<Rightarrow> string" where
  "settleIdOf day k =
     (if isFuture (fst (snd k)) then futuresSettleId (fst (snd k)) day (fst k) (snd (snd k))
      else optionSettleId (fst (snd k)) day (fst k))"

definition equityOf :: "db \<Rightarrow> string \<Rightarrow> int" where
  "equityOf d i = balanceOf d i - getOr0 (db_debts d) i"

text \<open>Only the money, the positions and the records of the settlement change.\<close>

definition settleFrame :: "db \<Rightarrow> db \<Rightarrow> bool" where
  "settleFrame d d' \<longleftrightarrow> d' = d\<lparr>db_accounts := db_accounts d', db_ledger := db_ledger d', db_debts := db_debts d',
     db_positions := db_positions d', db_realized := db_realized d', db_processed := db_processed d',
     db_settlements := db_settlements d', db_marginCalls := db_marginCalls d', db_orderOutbox := db_orderOutbox d'\<rparr>"

lemma settleFrame_field:
  assumes "settleFrame d d'"
    and "\<And>a b c e f g h i j. sel (d\<lparr>db_accounts := a, db_ledger := b, db_debts := c, db_positions := e, db_realized := f,
      db_processed := g, db_settlements := h, db_marginCalls := i, db_orderOutbox := j\<rparr>) = sel d"
  shows "sel d' = sel d"
  using assms unfolding settleFrame_def by metis

lemma settleFrame_fields:
  assumes "settleFrame d d'"
  shows "db_series d' = db_series d" "db_symbols d' = db_symbols d" "db_epochs d' = db_epochs d"
    "db_references d' = db_references d" "db_orders d' = db_orders d" "db_holdings d' = db_holdings d" "db_users d' = db_users d"
  by (rule settleFrame_field [OF assms], simp)+

lemma settleFrame_refl [simp]: "settleFrame d d"
  by (simp add: settleFrame_def)

lemma settleFrame_trans: "settleFrame d d' \<Longrightarrow> settleFrame d' d'' \<Longrightarrow> settleFrame d d''"
proof -
  assume a: "settleFrame d d'" and b: "settleFrame d' d''"
  have "d'' = d'\<lparr>db_accounts := db_accounts d'', db_ledger := db_ledger d'', db_debts := db_debts d'',
     db_positions := db_positions d'', db_realized := db_realized d'', db_processed := db_processed d'',
     db_settlements := db_settlements d'', db_marginCalls := db_marginCalls d'', db_orderOutbox := db_orderOutbox d''\<rparr>"
    using b by (simp only: settleFrame_def)
  also have "\<dots> = d\<lparr>db_accounts := db_accounts d'', db_ledger := db_ledger d'', db_debts := db_debts d'',
     db_positions := db_positions d'', db_realized := db_realized d'', db_processed := db_processed d'',
     db_settlements := db_settlements d'', db_marginCalls := db_marginCalls d'', db_orderOutbox := db_orderOutbox d''\<rparr>"
    using a [unfolded settleFrame_def] by (rule ssubst) simp
  finally show "settleFrame d d''" by (simp only: settleFrame_def)
qed

text \<open>The final prices depend on nothing a run changes.\<close>

lemma settleItems_frame:
  assumes "settleFrame d d'" shows "settleItems d' = settleItems d" "settlementPrices d' = settlementPrices d"
proof -
  note f = settleFrame_fields [OF assms]
  have e: "latestEpoch d' = latestEpoch d" "referenceClose d' = referenceClose d" "stockValue g d' = stockValue g d" for g
    by (simp_all add: latestEpoch_def referenceClose_def stockValue_def f fun_eq_iff)
  show p: "settlementPrices d' = settlementPrices d"
    by (rule ext) (simp only: settlementPrices_def settlementPrice_def e)
  show "settleItems d' = settleItems d" unfolding settleItems_def p f ..
qed

section \<open>Closing one row\<close>

text \<open>
  The rows \<open>K\<close> of what was due have been closed and paid: they are empty, their accounts' equity moved by
  their amounts and their ledgers say so, holds stayed, their event ids are claimed, and what is still due
  is the rest.
\<close>

definition duePaid :: "string \<Rightarrow> position_key set \<Rightarrow> db \<Rightarrow> db \<Rightarrow> bool" where
  "duePaid day K d d' \<longleftrightarrow>
     K \<subseteq> fst ` set (dueOf day d) \<and>
     db_positions d' = map (\<lambda>(k, p). (k, if k \<in> K then emptied p else p)) (db_positions d) \<and>
     (\<forall>i. equityOf d' i = equityOf d i + (\<Sum>(k, a) \<leftarrow> dueOf day d. if k \<in> K \<and> fst k = i then a else 0)) \<and>
     (\<forall>i. holdOf d' i = holdOf d i) \<and>
     (\<exists>rows. db_ledger d' = db_ledger d @ rows \<and>
        (\<forall>i. ledgerChain (balanceOf d i) (ledgerOf i rows) = Some (balanceOf d' i))) \<and>
     set (db_processed d') = set (db_processed d) \<union> settleIdOf day ` K \<and>
     dueOf day d' = filter (\<lambda>(k, a). k \<notin> K) (dueOf day d) \<and>
     settleFrame d d'"

lemma sum_list_zeros: "(\<Sum>(k, a) \<leftarrow> xs. 0) = (0::int)"
  by (induction xs) auto

lemma duePaid_same:
  assumes "settleFrame d d'" "db_accounts d' = db_accounts d" "db_debts d' = db_debts d" "db_positions d' = db_positions d"
    "db_processed d' = db_processed d" "db_ledger d' = db_ledger d" "dueOf day d' = dueOf day d"
  shows "duePaid day {} d d'"
  using assms by (auto simp: duePaid_def equityOf_def balanceOf_def holdOf_def ledgerOf_def sum_list_zeros
      intro!: exI [of _ "[]"])

lemma sum_disjoint:
  "(\<Sum>(k, a) \<leftarrow> xs. if k \<in> K1 \<and> fst k = i then a else (0::int)) +
     (\<Sum>(k, a) \<leftarrow> filter (\<lambda>(k, a). k \<notin> K1) xs. if k \<in> K2 \<and> fst k = i then a else 0) =
   (\<Sum>(k, a) \<leftarrow> xs. if k \<in> K1 \<union> (K2 - K1) \<and> fst k = i then a else 0)"
  by (induction xs) auto

lemma duePaidD:
  assumes "duePaid day K d d'"
  shows "K \<subseteq> fst ` set (dueOf day d)"
    "db_positions d' = map (\<lambda>(k, p). (k, if k \<in> K then emptied p else p)) (db_positions d)"
    "equityOf d' i = equityOf d i + (\<Sum>(k, a) \<leftarrow> dueOf day d. if k \<in> K \<and> fst k = i then a else 0)"
    "holdOf d' i = holdOf d i"
    "set (db_processed d') = set (db_processed d) \<union> settleIdOf day ` K"
    "dueOf day d' = filter (\<lambda>(k, a). k \<notin> K) (dueOf day d)" "settleFrame d d'"
  using assms unfolding duePaid_def by blast+

lemma duePaid_trans:
  assumes "duePaid day K1 d d'" "duePaid day K2 d' d''"
  shows "duePaid day (K1 \<union> K2) d d''"
proof -
  note a = duePaidD [OF assms(1)] and b = duePaidD [OF assms(2)]
  have k2: "K2 \<subseteq> fst ` set (dueOf day d)" "K1 \<union> (K2 - K1) = K1 \<union> K2" using b(1) a(6) by auto
  obtain rows1 where rows1: "db_ledger d' = db_ledger d @ rows1"
    and chain1: "\<And>i. ledgerChain (balanceOf d i) (ledgerOf i rows1) = Some (balanceOf d' i)"
    using assms(1) unfolding duePaid_def by blast
  obtain rows2 where rows2: "db_ledger d'' = db_ledger d' @ rows2"
    and chain2: "\<And>i. ledgerChain (balanceOf d' i) (ledgerOf i rows2) = Some (balanceOf d'' i)"
    using assms(2) unfolding duePaid_def by blast
  have equity: "equityOf d'' i = equityOf d i + (\<Sum>(k, a) \<leftarrow> dueOf day d. if k \<in> K1 \<union> K2 \<and> fst k = i then a else 0)" for i
    using a(3) [of i] b(3) [of i] sum_disjoint [of K1 i "dueOf day d" K2] unfolding k2(2) a(6) by linarith
  have positions: "db_positions d'' = map (\<lambda>(k, p). (k, if k \<in> K1 \<union> K2 then emptied p else p)) (db_positions d)"
    unfolding b(2) a(2) by (auto simp: emptied_def)
  have chain: "ledgerChain (balanceOf d i) (ledgerOf i (rows1 @ rows2)) = Some (balanceOf d'' i)" for i
    using chain1 chain2 ledgerChain_append by simp
  have due: "dueOf day d'' = filter (\<lambda>(k, a). k \<notin> K1 \<union> K2) (dueOf day d)"
    unfolding b(6) a(6) by (auto intro: filter_cong)
  have ledger: "\<exists>rows. db_ledger d'' = db_ledger d @ rows \<and>
      (\<forall>i. ledgerChain (balanceOf d i) (ledgerOf i rows) = Some (balanceOf d'' i))"
    using rows1 rows2 chain by (intro exI [of _ "rows1 @ rows2"]) simp
  have "K1 \<union> K2 \<subseteq> fst ` set (dueOf day d)" using a(1) k2(1) by blast
  moreover have "\<forall>i. holdOf d'' i = holdOf d i" using a(4) b(4) by metis
  moreover have "set (db_processed d'') = set (db_processed d) \<union> settleIdOf day ` (K1 \<union> K2)"
    unfolding b(5) a(5) by blast
  ultimately show ?thesis
    unfolding duePaid_def using equity positions due ledger settleFrame_trans [OF a(7) b(7)] by blast
qed

text \<open>The cash a closed row pays.\<close>

lemma payOut_moved:
  assumes "lockedCtx [i] d0 ctx" "findRow (db_accounts s) i = Some a" "db_accounts s = db_accounts d0"
    and "payOut ctx eventId i amount reason s = Inr s'"
  shows "moved i (ac_balance a) amount (ac_holdAmount a) s s'"
proof -
  have snap: "snapshotOf ctx i = stateOf a"
    using lockedCtx_snapshot [OF assms(1), of i] assms(2,3) by auto
  define cash where "cash = applyFuturesCash \<lparr>fc_balance = ac_balance a, fc_holdAmount = ac_holdAmount a, fc_debt = debtOf s i\<rparr> amount"
  have eq: "fr_balance cash = ac_balance a + fr_ledgerDelta cash"
    "fr_balance cash - fr_debt cash = ac_balance a - debtOf s i + amount"
    unfolding cash_def
    using applyFuturesCash_equity [of "\<lparr>fc_balance = ac_balance a, fc_holdAmount = ac_holdAmount a, fc_debt = debtOf s i\<rparr>" amount]
    by simp_all
  from assms(4) obtain d1 where u: "cx_update ctx i (fr_balance cash) (ac_holdAmount a) s = Inr d1"
    and rest: "(let d2 = (if fr_ledgerDelta cash \<noteq> 0
                   then createLedger (ledgerRow i (fr_ledgerDelta cash) (fr_balance cash) reason eventId) d1 else d1)
         in if fr_debt cash \<noteq> debtOf s i then writeDebt i (fr_debt cash) d2 else Inr d2) = Inr s'"
    unfolding payOut_def Let_def snap stateOf_simps cash_def [symmetric] by (rule bindE_InrE)
  from u assms(1) have "updatePessimistic (cx_accounts ctx) i (fr_balance cash) (ac_holdAmount a) s = Inr d1"
    by (simp add: lockedCtx_def)
  from pessimistic.upd_stores [OF this] assms(2) have "storedAccount i (fr_balance cash) (ac_holdAmount a) s d1" by simp
  then obtain a' where a': "ac_balance a' = fr_balance cash" "ac_holdAmount a' = ac_holdAmount a" "ac_userId a' = ac_userId a"
    "d1 = s\<lparr>db_accounts := putRow i a' (db_accounts s)\<rparr>"
    using assms(2) by (auto simp: storedAccount_def)
  let ?rows = "if fr_ledgerDelta cash \<noteq> 0 then [ledgerRow i (fr_ledgerDelta cash) (fr_balance cash) reason eventId] else []"
  let ?debts = "if fr_debt cash \<noteq> debtOf s i then putRow i (fr_debt cash) (db_debts s) else db_debts s"
  have "s' = s\<lparr>db_accounts := putRow i a' (db_accounts s), db_ledger := db_ledger s @ ?rows, db_debts := ?debts\<rparr>"
    using rest by (auto simp: Let_def a'(4) createLedger_def writeDebt_Inr split: if_splits)
  moreover have "getOr0 ?debts i = fr_debt cash" by (auto simp: debtOf_getOr0)
  ultimately show ?thesis
    unfolding moved_def using a' assms(2) eq
    by (intro exI [of _ ?rows] exI [of _ ?debts] exI [of _ a] exI [of _ a']) (auto simp: debtOf_getOr0)
qed

text \<open>One account's equity moves, its ledger follows, every hold stays.\<close>

definition equityMoved :: "string \<Rightarrow> int \<Rightarrow> db \<Rightarrow> db \<Rightarrow> bool" where
  "equityMoved i x d d' \<longleftrightarrow>
     (\<forall>j. equityOf d' j = equityOf d j + (if j = i then x else 0)) \<and> (\<forall>j. holdOf d' j = holdOf d j) \<and>
     (\<exists>rows. db_ledger d' = db_ledger d @ rows \<and>
        (\<forall>j. ledgerChain (balanceOf d j) (ledgerOf j rows) = Some (balanceOf d' j)))"

lemma moved_equity:
  assumes "moved i (ac_balance a) x (ac_holdAmount a) s s'" "findRow (db_accounts s) i = Some a"
    and "db_accounts s = db_accounts d" "db_debts s = db_debts d" "db_ledger s = db_ledger d"
  shows "equityMoved i x d s'"
proof -
  from assms(1) obtain rows debts a0 a' where
    m: "s' = s\<lparr>db_accounts := putRow i a' (db_accounts s), db_ledger := db_ledger s @ rows, db_debts := debts\<rparr>"
      "findRow (db_accounts s) i = Some a0" "ac_holdAmount a' = ac_holdAmount a" "\<forall>l\<in>set rows. le_accountId l = i"
      "ledgerChain (ac_balance a) rows = Some (ac_balance a')" "\<forall>j. j \<noteq> i \<longrightarrow> findRow debts j = findRow (db_debts s) j"
      "ac_balance a' - getOr0 debts i = ac_balance a + x - getOr0 (db_debts s) i"
    unfolding moved_def by (elim exE conjE) (rule that)
  have bal: "balanceOf s' j = (if j = i then ac_balance a' else balanceOf d j)" for j
    by (simp add: m(1) balanceOf_def assms(3))
  have bi: "balanceOf d i = ac_balance a" using assms(2,3) by (simp add: balanceOf_def)
  have "equityOf s' j = equityOf d j + (if j = i then x else 0)" for j
  proof (cases "j = i")
    case True
    then show ?thesis using m(7) bal [of i] bi assms(4) by (simp add: equityOf_def m(1))
  next
    case False
    then have "getOr0 (db_debts s') j = getOr0 (db_debts d) j"
      using m(6) assms(4) by (simp add: m(1) getOr0_def)
    then show ?thesis using False bal [of j] by (simp add: equityOf_def)
  qed
  moreover have "holdOf s' j = holdOf d j" for j
    using m(3) assms(2,3) by (cases "j = i") (simp_all add: holdOf_def m(1))
  moreover have "ledgerChain (balanceOf d j) (ledgerOf j rows) = Some (balanceOf s' j)" for j
  proof (cases "j = i")
    case True
    have "ledgerOf i rows = rows" using m(4) by (simp add: ledgerOf_def)
    then show ?thesis using True m(5) bal [of i] bi by simp
  next
    case False
    then have "ledgerOf j rows = []" using m(4) by (auto simp: ledgerOf_def filter_empty_conv)
    then show ?thesis using False bal [of j] by simp
  qed
  moreover have "db_ledger s' = db_ledger d @ rows" by (simp add: m(1) assms(5))
  ultimately show ?thesis unfolding equityMoved_def by blast
qed

lemma closePosition_closes:
  assumes "pessimisticLock [fst k] (closePosition eventId k unitValue price payoff reason) d = Inr (r, d')"
    and "findRow (db_positions d) k = Some p" "po_qty p \<noteq> 0" "eventId \<notin> set (db_processed d)"
  shows "r = Some (ff_realized (closingFill unitValue price p)) \<and> settleFrame d d' \<and>
    db_positions d' = putRow k (emptied p) (db_positions d) \<and> db_settlements d' = db_settlements d \<and>
    db_processed d' = db_processed d @ [eventId] \<and> equityMoved (fst k) (payoff p) d d'"
proof -
  from assms(1) obtain ctx where c: "lockedCtx [fst k] d ctx"
    and body: "closePosition eventId k unitValue price payoff reason ctx d = Inr (r, d')"
    by (auto simp: pessimisticLock_Inr)
  let ?fill = "closingFill unitValue price p"
  let ?row = "\<lparr>fz_accountId = fst k, fz_symbol = fst (snd k), fz_closedQty = ff_closedQty ?fill,
     fz_price = price, fz_realized = ff_realized ?fill\<rparr>"
  let ?s = "d\<lparr>db_processed := db_processed d @ [eventId], db_positions := putRow k (emptied p) (db_positions d),
     db_realized := putRow (eventId, SETTLE) ?row (db_realized d)\<rparr>"
  from body assms(2-4) have pay: "payOut ctx eventId (fst k) (payoff p) reason ?s = Inr d'"
    and r: "r = Some (ff_realized ?fill)"
    by (auto simp: closePosition_def createProcessed_Inr writePosition_Inr createRealized_Inr Let_def bindE_eq_Inr_iff)
  from lockedCtx_snapshot [OF c, of "fst k"] obtain a where a: "findRow (db_accounts d) (fst k) = Some a" by auto
  have mv: "moved (fst k) (ac_balance a) (payoff p) (ac_holdAmount a) ?s d'"
    by (rule payOut_moved [OF c _ _ pay]) (simp_all add: a)
  then have "equityMoved (fst k) (payoff p) d d'" by (rule moved_equity) (simp_all add: a)
  moreover from mv obtain accounts ledger debts where
    "d' = ?s\<lparr>db_accounts := accounts, db_ledger := ledger, db_debts := debts\<rparr>" unfolding moved_def by blast
  ultimately show ?thesis using r by (simp add: settleFrame_def)
qed

section \<open>Runs\<close>

text \<open>
  What a run relies on: one row per key, options held in one row, event ids of what is due not yet claimed,
  and account ids without the separator of the event ids.
\<close>

definition settleReady :: "string \<Rightarrow> db \<Rightarrow> bool" where
  "settleReady day d \<longleftrightarrow>
     uniqueKeys (db_positions d) \<and>
     (\<forall>(k, p) \<in> set (db_positions d). CHR '':'' \<notin> set (fst k) \<and>
        (\<not> isFuture (fst (snd k)) \<longrightarrow> snd (snd k) = NET)) \<and>
     (\<forall>(k, a) \<in> set (dueOf day d). settleIdOf day k \<notin> set (db_processed d))"

lemma dueOf_mem:
  assumes "(k, a) \<in> set (dueOf day d)"
  obtains symbol f p where "(symbol, Some f) \<in> set (settleItems d)" "\<not> recorded d day symbol"
    "(k, p) \<in> set (db_positions d)" "fst (snd k) = symbol" "po_qty p \<noteq> 0" "a = f p"
  using assms by (fastforce simp: dueOf_def rowsOf_def openPositions_def split: option.splits if_splits)

lemma settle_symbols: "distinct (map fd_symbol FUTURES @ map od_symbol ALL_OPTIONS)"
  "\<forall>x \<in> set (map fd_symbol FUTURES @ map od_symbol ALL_OPTIONS). CHR '':'' \<notin> set x"
  by code_simp+

lemma fst_settleItems: "map fst (settleItems d) = map fd_symbol FUTURES @ map od_symbol ALL_OPTIONS"
  by (simp add: settleItems_def comp_def)

lemma separated:
  "c \<notin> set a \<Longrightarrow> c \<notin> set b \<Longrightarrow> a @ c # x = b @ c # y \<Longrightarrow> a = b \<and> x = y"
proof (induction a arbitrary: b)
  case Nil
  then show ?case by (cases b) auto
next
  case (Cons u a)
  then show ?case by (cases b) auto
qed

lemma side_suffix:
  assumes "CHR '':'' \<notin> set a" "CHR '':'' \<notin> set b"
    and "a @ (case v of NET \<Rightarrow> [] | LONG_ROW \<Rightarrow> '':LONG'' | SHORT_ROW \<Rightarrow> '':SHORT'') =
         b @ (case w of NET \<Rightarrow> [] | LONG_ROW \<Rightarrow> '':LONG'' | SHORT_ROW \<Rightarrow> '':SHORT'')"
  shows "a = b \<and> v = w"
proof -
  have cut: "takeWhile (\<lambda>c. c \<noteq> CHR '':'') (u @ (case x of NET \<Rightarrow> [] | LONG_ROW \<Rightarrow> '':LONG'' | SHORT_ROW \<Rightarrow> '':SHORT'')) = u"
    if "CHR '':'' \<notin> set u" for u x
    using that by (induction u) (auto split: row_side.split)
  have "a = b" using cut [OF assms(1), of v] cut [OF assms(2), of w] unfolding assms(3) by simp
  then show ?thesis using assms(3) by (cases v; cases w) auto
qed

text \<open>Different rows have different event ids.\<close>

lemma settleId_inj:
  assumes "settleReady day d" "k \<in> fst ` set (dueOf day d)" "k' \<in> fst ` set (dueOf day d)" "settleIdOf day k = settleIdOf day k'"
  shows "k = k'"
proof -
  have ok: "CHR '':'' \<notin> set (fst j) \<and> CHR '':'' \<notin> set (fst (snd j)) \<and> (\<not> isFuture (fst (snd j)) \<longrightarrow> snd (snd j) = NET)"
    if "j \<in> fst ` set (dueOf day d)" for j
  proof -
    from that obtain a where "(j, a) \<in> set (dueOf day d)" by auto
    then obtain symbol f p where m: "(symbol, Some f) \<in> set (settleItems d)" "(j, p) \<in> set (db_positions d)" "fst (snd j) = symbol"
      by (rule dueOf_mem)
    have "symbol \<in> set (map fst (settleItems d))" using m(1) by force
    then have "CHR '':'' \<notin> set symbol" using settle_symbols(2) unfolding fst_settleItems by blast
    then show ?thesis using assms(1) m(2,3) by (fastforce simp: settleReady_def)
  qed
  note o1 = ok [OF assms(2)] and o2 = ok [OF assms(3)]
  obtain i x v where k: "k = (i, x, v)" by (cases k) auto
  obtain j y w where k': "k' = (j, y, w)" by (cases k') auto
  show ?thesis
  proof (cases "isFuture x")
    case True
    then have "isFuture y" using assms(4) k k' by (auto simp: settleIdOf_def futuresSettleId_def optionSettleId_def split: if_splits)
    then have e: "x @ CHR '':'' # day @ CHR '':'' # i @ (case v of NET \<Rightarrow> [] | LONG_ROW \<Rightarrow> '':LONG'' | SHORT_ROW \<Rightarrow> '':SHORT'') =
        y @ CHR '':'' # day @ CHR '':'' # j @ (case w of NET \<Rightarrow> [] | LONG_ROW \<Rightarrow> '':LONG'' | SHORT_ROW \<Rightarrow> '':SHORT'')"
      using assms(4) k k' True by (simp add: settleIdOf_def futuresSettleId_def)
    from separated [OF _ _ e] o1 o2 k k' have xy: "x = y" by simp
    then show ?thesis using side_suffix [of i j v w] e o1 o2 k k' by simp
  next
    case False
    then have "\<not> isFuture y" using assms(4) k k' by (auto simp: settleIdOf_def futuresSettleId_def optionSettleId_def split: if_splits)
    then have e: "x @ CHR '':'' # day @ CHR '':'' # i = y @ CHR '':'' # day @ CHR '':'' # j"
      using assms(4) k k' False by (simp add: settleIdOf_def optionSettleId_def)
    from separated [OF _ _ e] o1 o2 k k' have "x = y" by simp
    then show ?thesis using e o1 o2 k k' False by simp
  qed
qed

lemma duePaid_ready:
  assumes "duePaid day K d d'" "settleReady day d" shows "settleReady day d'"
proof -
  note p = duePaidD [OF assms(1)]
  have "map fst (db_positions d') = map fst (db_positions d)" unfolding p(2) by (simp add: comp_def case_prod_beta)
  then have "uniqueKeys (db_positions d')" using assms(2) by (simp add: settleReady_def uniqueKeys_def)
  moreover have "\<forall>(k, p) \<in> set (db_positions d'). CHR '':'' \<notin> set (fst k) \<and> (\<not> isFuture (fst (snd k)) \<longrightarrow> snd (snd k) = NET)"
    using assms(2) unfolding p(2) by (fastforce simp: settleReady_def)
  moreover have "settleIdOf day k \<notin> set (db_processed d')" if "(k, a) \<in> set (dueOf day d')" for k a
  proof -
    have k: "(k, a) \<in> set (dueOf day d)" "k \<notin> K" using that unfolding p(6) by auto
    have "settleIdOf day k \<notin> settleIdOf day ` K"
    proof
      assume "settleIdOf day k \<in> settleIdOf day ` K"
      then obtain j where j: "j \<in> K" "settleIdOf day k = settleIdOf day j" by auto
      have "j \<in> fst ` set (dueOf day d)" using p(1) j(1) by blast
      moreover have "k \<in> fst ` set (dueOf day d)" using k(1) by force
      ultimately have "k = j" using settleId_inj [OF assms(2)] j(2) by blast
      then show False using k(2) j(1) by simp
    qed
    moreover have "settleIdOf day k \<notin> set (db_processed d)" using assms(2) k(1) by (fastforce simp: settleReady_def)
    ultimately show ?thesis unfolding p(5) by blast
  qed
  ultimately show ?thesis unfolding settleReady_def by blast
qed

text \<open>Closing rows takes exactly them out of what is due.\<close>

lemma open_closed:
  "filter (\<lambda>(k, p). fst (snd k) = x \<and> po_qty p \<noteq> 0) (map (\<lambda>(k, p). (k, if k \<in> K then emptied p else p)) t) =
   filter (\<lambda>(k, p). k \<notin> K) (filter (\<lambda>(k, p). fst (snd k) = x \<and> po_qty p \<noteq> 0) t)"
  by (induction t) (auto simp: emptied_def)

lemma map_filter_keys: "map (\<lambda>(k, p). (k, f p)) (filter (\<lambda>(k, p). k \<notin> K) t) = filter (\<lambda>(k, a). k \<notin> K) (map (\<lambda>(k, p). (k, f p)) t)"
  by (induction t) auto

lemma dueOf_closed:
  assumes "settleFrame d d'" "db_settlements d' = db_settlements d"
    and "db_positions d' = map (\<lambda>(k, p). (k, if k \<in> K then emptied p else p)) (db_positions d)"
  shows "dueOf day d' = filter (\<lambda>(k, a). k \<notin> K) (dueOf day d)"
proof -
  have o: "openPositions d' x = filter (\<lambda>(k, p). k \<notin> K) (openPositions d x)" for x
    unfolding openPositions_def assms(3) by (rule open_closed)
  have r: "rowsOf day d' = (\<lambda>it. filter (\<lambda>(k, a). k \<notin> K) (rowsOf day d it))"
    by (rule ext) (simp add: rowsOf_def recorded_def assms(2) o map_filter_keys split: option.split)
  show ?thesis
    unfolding dueOf_def settleItems_frame(1) [OF assms(1)] r filter_concat map_map comp_def ..
qed

lemma distinct_segments:
  assumes "distinct (map fst items)" "\<And>it. distinct (map fst (seg it))" "\<And>it k. k \<in> fst ` set (seg it) \<Longrightarrow> g k = fst it"
  shows "distinct (map fst (concat (map seg items)))"
  using assms(1)
proof (induction items)
  case (Cons it items)
  have "fst ` set (seg it) \<inter> fst ` set (concat (map seg items)) = {}"
  proof (rule equals0I)
    fix k assume k: "k \<in> fst ` set (seg it) \<inter> fst ` set (concat (map seg items))"
    then obtain it' where "it' \<in> set items" "k \<in> fst ` set (seg it')" by auto
    then show False using k assms(3) Cons.prems by (metis IntE distinct.simps(2) image_eqI list.simps(9) set_map)
  qed
  then show ?case using Cons assms(2) by simp
qed simp

lemma distinct_due: "uniqueKeys (db_positions d) \<Longrightarrow> distinct (map fst (dueOf day d))"
  unfolding dueOf_def
proof (rule distinct_segments [where g = "\<lambda>k. fst (snd k)"])
  show "distinct (map fst (settleItems d))" unfolding fst_settleItems by (rule settle_symbols)
next
  fix it assume u: "uniqueKeys (db_positions d)"
  then have o: "distinct (map fst (openPositions d x))" for x
    unfolding openPositions_def uniqueKeys_def by (rule distinct_map_filter)
  have "map fst (map (\<lambda>(k, p). (k, f p)) t) = map fst t" for f :: "position_row \<Rightarrow> int" and t :: "(position_key \<times> position_row) list"
    by (induction t) auto
  then show "distinct (map fst (rowsOf day d it))"
    using o [of "fst it"] unfolding rowsOf_def by (cases "snd it") (simp_all del: map_map)
next
  fix it k assume "k \<in> fst ` set (rowsOf day d it)"
  then show "fst (snd k) = fst it" by (auto simp: rowsOf_def openPositions_def split: option.splits if_splits)
qed

lemma sum_single:
  "distinct (map fst xs) \<Longrightarrow> (k, a) \<in> set xs \<Longrightarrow>
     (\<Sum>(j, b) \<leftarrow> xs. if j \<in> {k} \<and> fst j = i then b else (0::int)) = (if i = fst k then a else 0)"
proof (induction xs)
  case (Cons x xs)
  have "(\<Sum>(j, b) \<leftarrow> xs. if j \<in> {k} \<and> fst j = i then b else (0::int)) = 0" if "k \<notin> fst ` set xs"
    using that by (induction xs) auto
  then show ?case using Cons by (cases x) (auto simp: image_iff)
qed simp

lemma putRow_unique:
  "uniqueKeys t \<Longrightarrow> findRow t k = Some p \<Longrightarrow> putRow k (g p) t = map (\<lambda>(j, q). (j, if j \<in> {k} then g q else q)) t"
proof (induction t)
  case (Cons x t)
  have "map (\<lambda>(j, q). (j, if j = k then g q else q)) t = t" if "k \<notin> fst ` set t"
    using that by (induction t) auto
  then show ?case using Cons by (cases x) (auto simp: putRow_def uniqueKeys_def findRow_def split: if_splits)
qed simp

section \<open>Running a symbol\<close>

lemma isInr_simps [simp]: "isInr (Inr x)" "\<not> isInr (Inl e)"
  by (simp_all add: isInr_def)

text \<open>One transaction of the loop: nothing, or its row closed.\<close>

lemma close_step:
  assumes "settleReady day d" "(x, Some f) \<in> set (settleItems d)" "\<not> recorded d day x" "(k, p) \<in> set (openPositions d x)"
    and "pessimisticLock [fst k] (closePosition (settleIdOf day k) k unitValue price f reason) d = Inr (r, d')"
  shows "duePaid day {k} d d' \<and> db_settlements d' = db_settlements d \<and> r \<noteq> None"
proof -
  have u: "uniqueKeys (db_positions d)" using assms(1) by (simp add: settleReady_def)
  have mem: "(k, p) \<in> set (db_positions d)" "po_qty p \<noteq> 0" using assms(4) by (auto simp: openPositions_def)
  have find: "findRow (db_positions d) k = Some p" using u mem(1) by (simp add: findRow_unique)
  have "(k, f p) \<in> set (rowsOf day d (x, Some f))" using assms(3,4) by (force simp: rowsOf_def)
  then have due: "(k, f p) \<in> set (dueOf day d)" using assms(2) by (auto simp: dueOf_def)
  then have new: "settleIdOf day k \<notin> set (db_processed d)" using assms(1) by (fastforce simp: settleReady_def)
  note c = closePosition_closes [OF assms(5) find mem(2) new]
  have pos: "db_positions d' = map (\<lambda>(j, q). (j, if j \<in> {k} then emptied q else q)) (db_positions d)"
    using c putRow_unique [OF u find, of emptied] by simp
  have frame: "settleFrame d d'" "db_settlements d' = db_settlements d" using c by auto
  have "equityOf d' i = equityOf d i + (\<Sum>(j, a) \<leftarrow> dueOf day d. if j \<in> {k} \<and> fst j = i then a else 0)" for i
    unfolding sum_single [OF distinct_due [OF u] due] using c by (simp add: equityMoved_def)
  moreover have "{k} \<subseteq> fst ` set (dueOf day d)" using due by force
  moreover have "set (db_processed d') = set (db_processed d) \<union> settleIdOf day ` {k}" using c by simp
  moreover have "\<forall>i. holdOf d' i = holdOf d i" "\<exists>rows. db_ledger d' = db_ledger d @ rows \<and>
        (\<forall>i. ledgerChain (balanceOf d i) (ledgerOf i rows) = Some (balanceOf d' i))"
    using c unfolding equityMoved_def by blast+
  ultimately have "duePaid day {k} d d'"
    unfolding duePaid_def using pos frame(1) dueOf_closed [OF frame pos] by blast
  then show ?thesis using c by simp
qed

text \<open>How the transactions of a symbol come from its definition.\<close>

definition itemOk :: "string \<Rightarrow> db \<Rightarrow> string \<Rightarrow> int option \<Rightarrow> (int \<Rightarrow> position_key \<Rightarrow> int option service) \<Rightarrow> bool" where
  "itemOk day d x price close \<longleftrightarrow> (\<exists>pf. (x, map_option pf price) \<in> set (settleItems d) \<and>
     (\<forall>q k. fst (snd k) = x \<longrightarrow> isFuture x \<or> snd (snd k) = NET \<longrightarrow>
        (\<exists>u c reason. close q k = txS (pessimisticLock [fst k] (closePosition (settleIdOf day k) k u c (pf q) reason)))))"

lemma openPositions_key:
  assumes "settleReady day d" "(k, p) \<in> set (openPositions d x)"
  shows "fst (snd k) = x \<and> (isFuture x \<or> snd (snd k) = NET)"
  using assms by (fastforce simp: settleReady_def openPositions_def)

lemma open_remains:
  assumes "duePaid day K d d'" "j \<notin> K" "(j, q) \<in> set (openPositions d x)"
  shows "(j, q) \<in> set (openPositions d' x)"
  using assms(2,3) unfolding openPositions_def duePaidD(2) [OF assms(1)] by force

lemma closeAll_run:
  assumes "(x, Some f) \<in> set (settleItems (ap_db s))"
    and "\<And>k. fst (snd k) = x \<Longrightarrow> isFuture x \<or> snd (snd k) = NET \<Longrightarrow>
        \<exists>u c reason. close k = txS (pessimisticLock [fst k] (closePosition (settleIdOf day k) k u c f reason))"
    and "settleReady day (ap_db s)" "\<not> recorded (ap_db s) day x" "set rest \<subseteq> set (openPositions (ap_db s) x)" "distinct (map fst rest)"
    and "eachS (closeNext close) rest acc s = (r, s')"
  shows "\<exists>K. duePaid day K (ap_db s) (ap_db s') \<and> db_settlements (ap_db s') = db_settlements (ap_db s) \<and>
    (isInr r \<longrightarrow> K = fst ` set rest)"
  using assms
proof (induction rest arbitrary: acc s)
  case Nil
  then have "r = Inr acc" "s' = s" by simp_all
  moreover have "duePaid day {} (ap_db s) (ap_db s)" by (rule duePaid_same) simp_all
  ultimately show ?case by auto
next
  case (Cons kp rest)
  obtain k p where kp: "kp = (k, p)" by (cases kp)
  have open': "(k, p) \<in> set (openPositions (ap_db s) x)" using Cons.prems(5) kp by simp
  from openPositions_key [OF Cons.prems(3) this] obtain u c reason where
    close: "close k = txS (pessimisticLock [fst k] (closePosition (settleIdOf day k) k u c f reason))"
    using Cons.prems(2) by blast
  obtain r1 s1 where s1: "close k s = (r1, s1)" by (cases "close k s")
  show ?case
    using s1 [unfolded close]
  proof (cases rule: txS_cases)
    case (rolled_back e)
    then have "r = Inl e" "s' = s" using Cons.prems(7) s1 kp by (simp_all add: closeNext_def bindS_def)
    moreover have "duePaid day {} (ap_db s) (ap_db s)" by (rule duePaid_same) simp_all
    ultimately show ?thesis by auto
  next
    case (committed o' d1)
    note step = close_step [OF Cons.prems(3,1,4) open' committed(1)]
    then obtain y where y: "o' = Some y" by auto
    have d1: "duePaid day {k} (ap_db s) (ap_db s1)" "db_settlements (ap_db s1) = db_settlements (ap_db s)"
      using step committed(3) by auto
    have k: "k \<notin> fst ` set rest" using Cons.prems(6) kp by (simp add: image_iff)
    have rest: "set rest \<subseteq> set (openPositions (ap_db s1) x)"
    proof
      fix z assume z: "z \<in> set rest"
      then have "fst z \<notin> {k}" using k by (auto simp: image_iff)
      then show "z \<in> set (openPositions (ap_db s1) x)"
        using open_remains [OF d1(1), of "fst z" "snd z"] z Cons.prems(5) by auto
    qed
    have "closeNext close (k, p) acc s = (Inr (fst acc + 1, snd acc + y), s1)"
      using s1 committed(2) y by (simp add: closeNext_def bindS_def)
    then have loop: "eachS (closeNext close) rest (fst acc + 1, snd acc + y) s1 = (r, s')"
      using Cons.prems(7) kp by (simp add: bindS_simps)
    have ready: "settleReady day (ap_db s1)" by (rule duePaid_ready [OF d1(1) Cons.prems(3)])
    have rec: "\<not> recorded (ap_db s1) day x" using Cons.prems(4) d1(2) by (simp add: recorded_def)
    have items: "(x, Some f) \<in> set (settleItems (ap_db s1))"
      using Cons.prems(1) settleItems_frame(1) [OF duePaidD(7) [OF d1(1)]] by simp
    from Cons.IH [OF items Cons.prems(2) ready rec rest _ loop] Cons.prems(6) obtain K where
      K: "duePaid day K (ap_db s1) (ap_db s')" "db_settlements (ap_db s') = db_settlements (ap_db s1)"
      "isInr r \<longrightarrow> K = fst ` set rest" by auto
    have "duePaid day ({k} \<union> K) (ap_db s) (ap_db s')" by (rule duePaid_trans [OF d1(1) K(1)])
    then show ?thesis using K(2,3) d1(2) kp by (intro exI [of _ "{k} \<union> K"]) auto
  qed
qed

text \<open>A step of the run: rows closed, what was recorded stays recorded, and at most these symbols are recorded.\<close>

definition ranOn :: "string \<Rightarrow> string set \<Rightarrow> db \<Rightarrow> db \<Rightarrow> bool" where
  "ranOn day X d d' \<longleftrightarrow> (\<exists>K. duePaid day K d d') \<and>
     (\<forall>y. recorded d day y \<longrightarrow> recorded d' day y) \<and> (\<forall>y. recorded d' day y \<longrightarrow> recorded d day y \<or> y \<in> X)"

lemma ranOn_trans: "ranOn day X d d' \<Longrightarrow> ranOn day Y d' d'' \<Longrightarrow> ranOn day (X \<union> Y) d d''"
  unfolding ranOn_def using duePaid_trans by blast

lemma ranOn_closed:
  "duePaid day K d d' \<Longrightarrow> db_settlements d' = db_settlements d \<Longrightarrow> ranOn day X d d'"
  unfolding ranOn_def recorded_def by auto

lemma ranOn_refl [simp]: "ranOn day X d d"
  by (rule ranOn_closed [OF duePaid_same]) simp_all

lemma ranOn_frame: "ranOn day X d d' \<Longrightarrow> settleFrame d d'"
  unfolding ranOn_def using duePaidD(7) by blast

lemma ranOn_ready: "ranOn day X d d' \<Longrightarrow> settleReady day d \<Longrightarrow> settleReady day d'"
  unfolding ranOn_def using duePaid_ready by blast

text \<open>A symbol nothing is due of any more may be recorded.\<close>

lemma recordSettlement_cases:
  assumes "recordSettlement x day price totals s = (r, s')"
    and "\<And>pf. (x, pf) \<in> set (settleItems (ap_db s)) \<Longrightarrow> rowsOf day (ap_db s) (x, pf) = []"
  shows "ranOn day {x} (ap_db s) (ap_db s') \<and> (isInr r \<longrightarrow> recorded (ap_db s') day x)"
  using assms(1) [unfolded recordSettlement_def]
proof (cases rule: txS_cases)
  case (rolled_back e)
  then show ?thesis by simp
next
  case (committed u d)
  let ?d = "ap_db s"
  obtain row where d: "d = ?d\<lparr>db_settlements := db_settlements ?d @ [((x, day), row)]\<rparr>"
    and new: "findRow (db_settlements ?d) (x, day) = None"
    using committed(1) by (auto split: if_splits)
  have rec: "recorded d day y \<longleftrightarrow> recorded ?d day y \<or> y = x" for y
    using new by (auto simp: recorded_def d findRow_def map_add_def split: option.split)
  have frame: "settleFrame ?d d" by (simp add: settleFrame_def d)
  have "rowsOf day d it = rowsOf day ?d it" if "it \<in> set (settleItems ?d)" for it
  proof (cases "fst it = x")
    case True
    then have "rowsOf day ?d it = []" using assms(2) [of "snd it"] that by (cases it) auto
    moreover have "rowsOf day d it = []" using True rec by (simp add: rowsOf_def split: option.split)
    ultimately show ?thesis by simp
  next
    case False
    then show ?thesis using rec by (simp add: rowsOf_def openPositions_def d split: option.split)
  qed
  then have "dueOf day d = dueOf day ?d"
    unfolding dueOf_def settleItems_frame(1) [OF frame] by (metis (no_types, lifting) map_cong)
  then have "duePaid day {} ?d d" by (intro duePaid_same [OF frame]) (simp_all add: d)
  then show ?thesis using rec committed(3) unfolding ranOn_def by auto
qed

lemma settleSymbol_run:
  assumes "settleSymbol done' day x price close s = (r, s')" "settleReady day (ap_db s)"
    and "findRow done' (x, day) \<noteq> None \<Longrightarrow> recorded (ap_db s) day x"
    and "findRow done' (x, day) = None \<Longrightarrow> \<not> recorded (ap_db s) day x \<and> itemOk day (ap_db s) x price close"
  shows "ranOn day {x} (ap_db s) (ap_db s') \<and> (isInr r \<longrightarrow> recorded (ap_db s') day x)"
proof (cases "findRow done' (x, day)")
  case (Some row)
  then show ?thesis using assms(1,3) by (simp add: settleSymbol_def)
next
  case None
  let ?d = "ap_db s"
  from assms(4) [OF None] obtain pf where new: "\<not> recorded ?d day x" and item: "(x, map_option pf price) \<in> set (settleItems ?d)"
    and close: "\<And>q k. fst (snd k) = x \<Longrightarrow> isFuture x \<or> snd (snd k) = NET \<Longrightarrow>
        \<exists>u c reason. close q k = txS (pessimisticLock [fst k] (closePosition (settleIdOf day k) k u c (pf q) reason))"
    unfolding itemOk_def by blast
  have d: "distinct (map fst (settleItems ?d))" unfolding fst_settleItems by (rule settle_symbols)
  have only: "pf' = map_option pf price" if "(x, pf') \<in> set (settleItems ?d)" for pf'
    using that item d by (metis eq_key_imp_eq_value)
  show ?thesis
  proof (cases price)
    case no_price: None
    then have empty: "\<And>pf'. (x, pf') \<in> set (settleItems ?d) \<Longrightarrow> rowsOf day ?d (x, pf') = []"
      using only by (fastforce simp: rowsOf_def)
    show ?thesis
    proof (cases "openPositions ?d x = []")
      case False
      then show ?thesis using assms(1) None no_price by (auto simp: settleSymbol_def)
    next
      case True
      obtain r1 s1 where rec: "recordSettlement x day 0 (0, 0) s = (r1, s1)" by (cases "recordSettlement x day 0 (0, 0) s")
      then have "s' = s1 \<and> (isInr r \<longrightarrow> isInr r1)"
        using assms(1) None no_price True by (auto simp: settleSymbol_def bindS_def isInr_def split: sum.splits)
      then show ?thesis using recordSettlement_cases [OF rec empty] by auto
    qed
  next
    case (Some q)
    let ?open = "openPositions ?d x"
    obtain r1 s1 where loop: "closeAll (close q) ?open s = (r1, s1)" by (cases "closeAll (close q) ?open s")
    have "distinct (map fst ?open)"
      using assms(2) unfolding openPositions_def settleReady_def uniqueKeys_def by (blast intro: distinct_map_filter)
    from closeAll_run [where x = x and f = "pf q", OF _ close assms(2) new _ this loop [unfolded closeAll_def]] item Some obtain K where
      K: "duePaid day K ?d (ap_db s1)" "db_settlements (ap_db s1) = db_settlements ?d" "isInr r1 \<longrightarrow> K = fst ` set ?open"
      by auto
    have closed: "ranOn day {x} ?d (ap_db s1)" by (rule ranOn_closed [OF K(1,2)])
    show ?thesis
    proof (cases r1)
      case (Inl e)
      then show ?thesis using assms(1) None Some loop closed by (auto simp: settleSymbol_def bindS_def)
    next
      case (Inr totals)
      have "openPositions (ap_db s1) x = filter (\<lambda>(k, p). k \<notin> K) ?open"
        unfolding openPositions_def duePaidD(2) [OF K(1)] by (rule open_closed)
      also have "\<dots> = []" using K(3) Inr by (force simp: isInr_def filter_empty_conv)
      finally have empty: "\<And>pf'. (x, pf') \<in> set (settleItems (ap_db s1)) \<Longrightarrow> rowsOf day (ap_db s1) (x, pf') = []"
        by (simp add: rowsOf_def split: option.split)
      obtain r2 s2 where rec: "recordSettlement x day q totals s1 = (r2, s2)" by (cases "recordSettlement x day q totals s1")
      then have "s' = s2 \<and> (isInr r \<longrightarrow> isInr r2)"
        using assms(1) None Some loop Inr by (auto simp: settleSymbol_def bindS_def isInr_def split: sum.splits)
      then show ?thesis using recordSettlement_cases [OF rec empty] ranOn_trans [OF closed, of "{x}"] by auto
    qed
  qed
qed

section \<open>Running a day\<close>

text \<open>The rows the run read at its start stand for what was recorded, and every symbol still to do is set up right.\<close>

definition loopReady :: "(string \<times> string, settlement_row) rows \<Rightarrow> string \<Rightarrow> db \<Rightarrow> (string \<times> int option \<times> (int \<Rightarrow> position_key \<Rightarrow> int option service)) list \<Rightarrow> bool" where
  "loopReady done' day d items \<longleftrightarrow> distinct (map fst items) \<and> (\<forall>(x, price, close) \<in> set items.
     (findRow done' (x, day) \<noteq> None \<longrightarrow> recorded d day x) \<and>
     (findRow done' (x, day) = None \<longrightarrow> \<not> recorded d day x \<and> itemOk day d x price close))"

lemma itemOk_frame: "settleFrame d d' \<Longrightarrow> itemOk day d' x price close = itemOk day d x price close"
  by (simp add: itemOk_def settleItems_frame)

lemma loopReady_step:
  assumes "loopReady done' day d ((x, price, close) # items)" "ranOn day {x} d d'"
  shows "loopReady done' day d' items"
proof -
  have x: "x \<notin> fst ` set items" and d: "distinct (map fst items)" using assms(1) by (auto simp: loopReady_def)
  have "recorded d' day y = recorded d day y" if "y \<noteq> x" for y
    using assms(2) that unfolding ranOn_def by blast
  then have same: "recorded d' day y = recorded d day y" if "(y, z) \<in> set items" for y z
    using that x by (metis fst_conv image_eqI)
  have ok: "itemOk day d' = itemOk day d"
    by (intro ext) (rule itemOk_frame [OF ranOn_frame [OF assms(2)]])
  show ?thesis
    unfolding loopReady_def ok
  proof (intro conjI d ballI, clarify)
    fix y p c assume i: "(y, p, c) \<in> set items"
    then show "(findRow done' (y, day) \<noteq> None \<longrightarrow> recorded d' day y) \<and>
        (findRow done' (y, day) = None \<longrightarrow> \<not> recorded d' day y \<and> itemOk day d y p c)"
      using assms(1) unfolding same [OF i] loopReady_def by fastforce
  qed
qed

lemma items_run:
  assumes "eachS step xs acc s = (r, s')" "settleReady day (ap_db s)" "loopReady done' day (ap_db s) (map g xs)"
    and "\<And>y acc. y \<in> set xs \<Longrightarrow> step y acc = bindS (case g y of (x, price, close) \<Rightarrow> settleSymbol done' day x price close) (\<lambda>z. returnS (acc @ [z]))"
  shows "ranOn day (fst ` g ` set xs) (ap_db s) (ap_db s') \<and>
    (isInr r \<longrightarrow> (\<forall>y \<in> set xs. recorded (ap_db s') day (fst (g y))))"
  using assms
proof (induction xs arbitrary: acc s)
  case (Cons y xs)
  obtain x price close where g: "g y = (x, price, close)" by (cases "g y")
  obtain r1 s1 where s1: "settleSymbol done' day x price close s = (r1, s1)" by (cases "settleSymbol done' day x price close s")
  have "findRow done' (x, day) \<noteq> None \<Longrightarrow> recorded (ap_db s) day x"
    "findRow done' (x, day) = None \<Longrightarrow> \<not> recorded (ap_db s) day x \<and> itemOk day (ap_db s) x price close"
    using Cons.prems(3) g by (auto simp: loopReady_def)
  note one = settleSymbol_run [OF s1 Cons.prems(2) this]
  then have ran: "ranOn day {x} (ap_db s) (ap_db s1)" by blast
  show ?case
  proof (cases r1)
    case (Inl e)
    then have "r = Inl e" "s' = s1" using Cons.prems(1,4) s1 g by (simp_all add: bindS_def)
    moreover have "ranOn day (fst ` g ` set (y # xs)) (ap_db s) (ap_db s1)"
      using ran g unfolding ranOn_def by auto
    ultimately show ?thesis by simp
  next
    case (Inr z)
    then have loop: "eachS step xs (acc @ [z]) s1 = (r, s')" using Cons.prems(1,4) s1 g by (simp add: bindS_def)
    have ready: "loopReady done' day (ap_db s1) (map g xs)"
      using loopReady_step [OF _ ran] Cons.prems(3) g by simp
    have "ranOn day (fst ` g ` set xs) (ap_db s1) (ap_db s') \<and>
      (isInr r \<longrightarrow> (\<forall>y \<in> set xs. recorded (ap_db s') day (fst (g y))))"
      by (rule Cons.IH [OF loop ranOn_ready [OF ran Cons.prems(2)] ready]) (simp add: Cons.prems(4))
    then have ran': "ranOn day (fst ` g ` set xs) (ap_db s1) (ap_db s')"
      and rec: "isInr r \<longrightarrow> (\<forall>y \<in> set xs. recorded (ap_db s') day (fst (g y)))" by blast+
    have "recorded (ap_db s1) day x" using one Inr by simp
    then have "recorded (ap_db s') day (fst (g y))" using ran' g unfolding ranOn_def by simp
    moreover have "ranOn day (fst ` g ` set (y # xs)) (ap_db s) (ap_db s')"
      using ranOn_trans [OF ran ran'] g by simp
    ultimately show ?thesis using rec by simp
  qed
qed simp

lemma future_symbols: "list_all (\<lambda>f. isFuture (fd_symbol f)) FUTURES" "list_all (\<lambda>o'. \<not> isFuture (od_symbol o')) ALL_OPTIONS"
  by code_simp+

lemma findRow_day:
  "findRow (filter (\<lambda>((x, d), row). d = day) t) (x, day) = findRow t (x, day)"
  by (induction t) (auto simp: findRow_def)

lemma future_itemOk:
  assumes "f \<in> set FUTURES"
  shows "itemOk day d (fd_symbol f) (settlementPrices d (fd_symbol f)) (\<lambda>price k. settlePosition f day price (fst k) (snd (snd k)))"
proof -
  have "isFuture (fd_symbol f)" using future_symbols(1) assms by (simp add: list_all_iff)
  then show ?thesis unfolding itemOk_def
    using assms by (intro exI [of _ "\<lambda>price p. ff_realized (closingFill (fd_unitValue f) price p)"])
      (auto simp: settleItems_def settlePosition_def settleIdOf_def)
qed

lemma option_itemOk:
  assumes "o' \<in> set ALL_OPTIONS"
  shows "itemOk day d (od_symbol o') (optionPrice (settlementPrices d) (db_series d) o') (\<lambda>intrinsic k. settleOptionPosition o' day intrinsic (fst k))"
proof -
  have "\<not> isFuture (od_symbol o')" using future_symbols(2) assms by (simp add: list_all_iff)
  then show ?thesis unfolding itemOk_def
    using assms by (intro exI [of _ "\<lambda>intrinsic p. po_qty p * intrinsic * od_unitValue o'"])
      (auto simp: settleItems_def settleOptionPosition_def settleIdOf_def)
qed

text \<open>Steps that touch neither money nor positions nor records.\<close>

lemma ranOn_aside:
  assumes "d' = d\<lparr>db_marginCalls := calls, db_orderOutbox := box\<rparr>" shows "ranOn day X d d'"
proof (rule ranOn_closed [OF duePaid_same])
  show frame: "settleFrame d d'" using assms by (simp add: settleFrame_def)
  have "openPositions d' x = openPositions d x" for x using assms by (simp add: openPositions_def)
  then have "rowsOf day d' = rowsOf day d"
    using assms by (intro ext) (simp add: rowsOf_def recorded_def split: option.split)
  then show "dueOf day d' = dueOf day d" by (simp add: dueOf_def settleItems_frame(1) [OF frame])
qed (use assms in simp_all)

lemma cancel_rows:
  "foldE (cancelRow now) rows d = Inr d' \<Longrightarrow> \<exists>box. d' = d\<lparr>db_orderOutbox := box\<rparr>"
proof (induction rows arbitrary: d)
  case Nil
  then show ?case by (intro exI [of _ "db_orderOutbox d"]) simp
next
  case (Cons row rows)
  then obtain d1 where d1: "cancelRow now row d = Inr d1" "foldE (cancelRow now) rows d1 = Inr d'"
    by (auto simp: bindE_eq_Inr_iff)
  from d1(1) obtain box where "d1 = d\<lparr>db_orderOutbox := box\<rparr>"
    by (auto simp: cancelRow_def createOrderOutbox_def split: prod.splits if_splits)
  then show ?case using Cons.IH [OF d1(2)] by auto
qed

interpretation aside: step_relation "\<lambda>s t. ranOn day {} (ap_db s) (ap_db t)" for day
proof
  show "ranOn day {} (ap_db s) (ap_db s)" for s by simp
  show "ranOn day {} (ap_db s) (ap_db u)" if "ranOn day {} (ap_db s) (ap_db t)" "ranOn day {} (ap_db t) (ap_db u)" for s t u
    using ranOn_trans [OF that] by simp
qed

lemma cancel_keeps: "keeps (\<lambda>s t. ranOn day {} (ap_db s) (ap_db t)) (cancelOpenFuturesOrders symbols)"
proof -
  let ?rel = "\<lambda>s t. ranOn day {} (ap_db s) (ap_db t)"
  have reads: "keeps ?rel (readDb f)" "keeps ?rel (freshIds n)" "keeps ?rel clockS" for f n
    by (simp_all add: keeps_def freshIds_def)
  have "keeps ?rel (txS (\<lambda>d. bindE (foldE (cancelRow now) rows d) (\<lambda>d. Inr ((), d))))" for now rows
    unfolding keeps_def
  proof
    fix s :: api
    obtain r s' where t: "txS (\<lambda>d. bindE (foldE (cancelRow now) rows d) (\<lambda>d. Inr ((), d))) s = (r, s')"
      by (cases "txS (\<lambda>d. bindE (foldE (cancelRow now) rows d) (\<lambda>d. Inr ((), d))) s")
    then show "?rel s (snd (txS (\<lambda>d. bindE (foldE (cancelRow now) rows d) (\<lambda>d. Inr ((), d))) s))"
    proof (cases rule: txS_cases)
      case (rolled_back e)
      then show ?thesis using t by simp
    next
      case (committed u d)
      from committed(1) obtain box where "d = (ap_db s)\<lparr>db_orderOutbox := box\<rparr>"
        using cancel_rows by (fastforce simp: bindE_eq_Inr_iff)
      then show ?thesis unfolding t committed(3)
        by (intro ranOn_aside [where calls = "db_marginCalls (ap_db s)" and box = box]) simp
    qed
  qed
  then show ?thesis
    unfolding cancelOpenFuturesOrders_def by (auto intro!: aside.keeps_rules reads)
qed

text \<open>The symbols of a day, with their prices and transactions, as the two loops meet them.\<close>

lemma day_loops:
  assumes "done' = filter (\<lambda>((x, day'), row). day' = day) (db_settlements d)" "ranOn day {} d d'"
    and "(\<exists>x \<in> set (map fd_symbol FUTURES @ map od_symbol ALL_OPTIONS). findRow done' (x, day) = None) \<longrightarrow>
      prices = settlementPrices d'"
  shows "loopReady done' day d' (map (\<lambda>f. (fd_symbol f, prices (fd_symbol f),
      \<lambda>price k. settlePosition f day price (fst k) (snd (snd k)))) FUTURES)"
    and "ranOn day (fd_symbol ` set FUTURES) d' d'' \<Longrightarrow>
      loopReady done' day d'' (map (\<lambda>o'. (od_symbol o', optionPrice prices (db_series d'') o',
        \<lambda>intrinsic k. settleOptionPosition o' day intrinsic (fst k))) ALL_OPTIONS)"
proof -
  have start: "recorded d' day x \<longleftrightarrow> findRow done' (x, day) \<noteq> None" for x
    using assms(2) unfolding assms(1) findRow_day ranOn_def recorded_def by blast
  have distinct: "distinct (map fd_symbol FUTURES)" "distinct (map od_symbol ALL_OPTIONS)"
    "\<And>o'. o' \<in> set ALL_OPTIONS \<Longrightarrow> od_symbol o' \<notin> fd_symbol ` set FUTURES"
    using settle_symbols(1) by auto
  show "loopReady done' day d' (map (\<lambda>f. (fd_symbol f, prices (fd_symbol f),
      \<lambda>price k. settlePosition f day price (fst k) (snd (snd k)))) FUTURES)"
    unfolding loopReady_def
  proof (intro conjI ballI, goal_cases)
    case 1
    show ?case using distinct(1) by (simp add: comp_def)
  next
    case (2 it)
    then obtain f where f: "f \<in> set FUTURES" "it = (fd_symbol f, prices (fd_symbol f),
      \<lambda>price k. settlePosition f day price (fst k) (snd (snd k)))" by auto
    then show ?case using start assms(3) future_itemOk [OF f(1), of day d'] by auto
  qed
  assume ran: "ranOn day (fd_symbol ` set FUTURES) d' d''"
  have prices: "settlementPrices d'' = settlementPrices d'" by (rule settleItems_frame [OF ranOn_frame [OF ran]])
  show "loopReady done' day d'' (map (\<lambda>o'. (od_symbol o', optionPrice prices (db_series d'') o',
        \<lambda>intrinsic k. settleOptionPosition o' day intrinsic (fst k))) ALL_OPTIONS)"
    unfolding loopReady_def
  proof (intro conjI ballI, goal_cases)
    case 1
    show ?case using distinct(2) by (simp add: comp_def)
  next
    case (2 it)
    then obtain o' where o': "o' \<in> set ALL_OPTIONS" "it = (od_symbol o', optionPrice prices (db_series d'') o',
        \<lambda>intrinsic k. settleOptionPosition o' day intrinsic (fst k))" by auto
    have "recorded d'' day (od_symbol o') \<longleftrightarrow> recorded d' day (od_symbol o')"
      using ran distinct(3) [OF o'(1)] unfolding ranOn_def by blast
    then show ?case using o' start assms(3) option_itemOk [OF o'(1), of day d''] prices by auto
  qed
qed

lemma ranOn_weaken: "ranOn day X d d' \<Longrightarrow> X \<subseteq> Y \<Longrightarrow> ranOn day Y d d'"
  unfolding ranOn_def by blast

lemma day_run:
  assumes "settleDay day s = (r, s')" "settleReady day (ap_db s)"
  shows "(\<exists>X. ranOn day X (ap_db s) (ap_db s')) \<and>
    (isInr r \<longrightarrow> (\<forall>x \<in> set (map fd_symbol FUTURES @ map od_symbol ALL_OPTIONS). recorded (ap_db s') day x))"
proof -
  let ?done = "filter (\<lambda>((x, day'), row). day' = day) (db_settlements (ap_db s))"
  define pending where "pending = filter (\<lambda>x. findRow ?done (x, day) = None) (map fd_symbol FUTURES @ map od_symbol ALL_OPTIONS)"
  note run = assms(1) [unfolded settleDay_def Let_def bindS_pure, folded pending_def]
  have keep: "keeps (\<lambda>s t. ranOn day {} (ap_db s) (ap_db t)) (if pending \<noteq> [] then cancelOpenFuturesOrders pending else returnS 0)"
    by (auto intro: cancel_keeps aside.keeps_pure)
  from run show ?thesis
  proof (cases rule: bindS_cases)
    case (failed e)
    then show ?thesis using keepsD [OF keep] by auto
  next
    case (went_on canceled s1)
    have r1: "ranOn day {} (ap_db s) (ap_db s1)" using keepsD [OF keep went_on(1)] .
    define prices where "prices = (if pending \<noteq> [] then settlementPrices (ap_db s1) else (\<lambda>_. None))"
    have p: "(\<exists>x \<in> set (map fd_symbol FUTURES @ map od_symbol ALL_OPTIONS). findRow ?done (x, day) = None) \<longrightarrow>
        prices = settlementPrices (ap_db s1)"
    proof
      assume "\<exists>x \<in> set (map fd_symbol FUTURES @ map od_symbol ALL_OPTIONS). findRow ?done (x, day) = None"
      then have "pending \<noteq> []" unfolding pending_def filter_empty_conv by blast
      then show "prices = settlementPrices (ap_db s1)" by (simp add: prices_def)
    qed
    note loops = day_loops [OF refl r1 p]
    from went_on(2) [unfolded bindS_pure, folded prices_def] show ?thesis
    proof (cases rule: bindS_cases)
      case (failed e)
      have "ranOn day (fd_symbol ` set FUTURES) (ap_db s1) (ap_db s')"
        using items_run [OF failed(1) ranOn_ready [OF r1 assms(2)] loops(1)]
        by (auto simp: settleFuture_def image_image)
      then show ?thesis using failed(2) ranOn_trans [OF r1] by auto
    next
      case futures: (went_on acc s2)
      have r2: "ranOn day (fd_symbol ` set FUTURES) (ap_db s1) (ap_db s2)"
        and rec2: "\<And>f. f \<in> set FUTURES \<Longrightarrow> recorded (ap_db s2) day (fd_symbol f)"
        using items_run [OF futures(1) ranOn_ready [OF r1 assms(2)] loops(1)]
        by (auto simp: settleFuture_def image_image)
      note r02 = ranOn_trans [OF r1 r2]
      from futures(2) [unfolded bindS_pure] show ?thesis
      proof (cases rule: bindS_cases)
        case (failed e)
        have "ranOn day (od_symbol ` set ALL_OPTIONS) (ap_db s2) (ap_db s')"
          using items_run [OF failed(1) ranOn_ready [OF r02 assms(2)] loops(2) [OF r2]]
          by (auto simp: settleOption_def image_image)
        then show ?thesis using failed(2) ranOn_trans [OF r02] by auto
      next
        case options: (went_on symbols s3)
        have r3: "ranOn day (od_symbol ` set ALL_OPTIONS) (ap_db s2) (ap_db s3)"
          and rec3: "\<And>o'. o' \<in> set ALL_OPTIONS \<Longrightarrow> recorded (ap_db s3) day (od_symbol o')"
          using items_run [OF options(1) ranOn_ready [OF r02 assms(2)] loops(2) [OF r2]]
          by (auto simp: settleOption_def image_image)
        have "ranOn day {} (ap_db s3) (ap_db s')"
        proof (cases "\<exists>x \<in> set symbols. ds_positions x > 0")
          case True
          then have "s' = s3\<lparr>ap_db := resolveMarginCalls (ap_now s3) (ap_db s3)\<rparr>"
            using options(2) by simp
          then show ?thesis unfolding resolveMarginCalls_def
            by (intro ranOn_aside [where box = "db_orderOutbox (ap_db s3)"]) simp
        next
          case False
          then have "s' = s3" using options(2) by simp
          then show ?thesis by simp
        qed
        note r4 = this
        have "recorded (ap_db s') day x" if "x \<in> set (map fd_symbol FUTURES @ map od_symbol ALL_OPTIONS)" for x
          using that rec2 rec3 r3 r4 unfolding ranOn_def by auto
        then show ?thesis using ranOn_trans [OF r02 ranOn_trans [OF r3 r4]] by blast
      qed
    qed
  qed
qed

text \<open>
  C24. A run of the daily settlement, however it ends, has closed and paid some of the rows that were due,
  each exactly once; a run that returns has closed them all; and the state it leaves is one the next run
  can go on from.
\<close>

theorem settlement_pays_once:
  assumes "settleDay day s = (r, s')" "settleReady day (ap_db s)"
  shows "\<exists>K. duePaid day K (ap_db s) (ap_db s') \<and> settleReady day (ap_db s') \<and>
    (isInr r \<longrightarrow> K = fst ` set (dueOf day (ap_db s)) \<and> dueOf day (ap_db s') = [])"
proof -
  from day_run [OF assms] obtain K where K: "duePaid day K (ap_db s) (ap_db s')"
    and rec: "isInr r \<longrightarrow> (\<forall>x \<in> set (map fst (settleItems (ap_db s'))). recorded (ap_db s') day x)"
    unfolding ranOn_def fst_settleItems by blast
  have none: "isInr r \<longrightarrow> dueOf day (ap_db s') = []"
    using rec by (auto simp: dueOf_def rowsOf_def split: option.split)
  then have "isInr r \<longrightarrow> K = fst ` set (dueOf day (ap_db s))"
    using duePaidD(1,6) [OF K] by (auto simp: filter_empty_conv)
  then show ?thesis using K none duePaid_ready [OF K assms(2)] by blast
qed

text \<open>A day all of whose symbols are recorded is done.\<close>

lemma settled_loop:
  assumes "\<And>x. x \<in> set xs \<Longrightarrow> findRow done' (g x, day) \<noteq> None"
    and "\<And>x acc. x \<in> set xs \<Longrightarrow> step x acc = bindS (settleSymbol done' day (g x) (price x) (close x)) (\<lambda>z. returnS (acc @ [z]))"
    and "\<forall>z \<in> set acc. ds_positions z = 0"
  shows "\<exists>acc'. eachS step xs acc s = (Inr acc', s) \<and> (\<forall>z \<in> set acc'. ds_positions z = 0)"
  using assms
proof (induction xs arbitrary: acc)
  case (Cons x xs)
  obtain row where "findRow done' (g x, day) = Some row" using Cons.prems(1) [of x] by auto
  then have "step x acc s = (Inr (acc @ [\<lparr>ds_symbol = g x, ds_price = Some (fs_price row), ds_positions = 0, ds_realizedTotal = 0\<rparr>]), s)"
    using Cons.prems(2) [of x acc] by (simp add: settleSymbol_def bindS_def)
  then show ?case using Cons.IH Cons.prems by (simp add: bindS_simps)
qed simp

lemma settled_day:
  assumes "\<forall>x \<in> set (map fd_symbol FUTURES @ map od_symbol ALL_OPTIONS). recorded (ap_db t) day x"
  shows "isInr (fst (settleDay day t)) \<and> snd (settleDay day t) = t"
proof -
  let ?done = "filter (\<lambda>((x, day'), row). day' = day) (db_settlements (ap_db t))"
  have rec: "findRow ?done (x, day) \<noteq> None" if "x \<in> set (map fd_symbol FUTURES @ map od_symbol ALL_OPTIONS)" for x
    using assms that unfolding findRow_day recorded_def by blast
  then have pending: "filter (\<lambda>x. findRow ?done (x, day) = None) (map fd_symbol FUTURES @ map od_symbol ALL_OPTIONS) = []"
    by (simp only: filter_empty_conv) blast
  obtain acc where futures: "eachS (settleFuture ?done day (\<lambda>_. None)) FUTURES [] t = (Inr acc, t)" "\<forall>z \<in> set acc. ds_positions z = 0"
    using settled_loop [of FUTURES ?done fd_symbol day "settleFuture ?done day (\<lambda>_. None)"
        "\<lambda>_. None" "\<lambda>f price k. settlePosition f day price (fst k) (snd (snd k))" "[]" t] rec
    by (auto simp: settleFuture_def)
  obtain acc' where options: "eachS (settleOption ?done day (\<lambda>_. None) (db_series (ap_db t))) ALL_OPTIONS acc t = (Inr acc', t)"
    "\<forall>z \<in> set acc'. ds_positions z = 0"
    using settled_loop [of ALL_OPTIONS ?done od_symbol day "settleOption ?done day (\<lambda>_. None) (db_series (ap_db t))"
        "\<lambda>o'. optionPrice (\<lambda>_. None) (db_series (ap_db t)) o'" "\<lambda>o' intrinsic k. settleOptionPosition o' day intrinsic (fst k)" acc t]
      rec futures(2) by (auto simp: settleOption_def)
  have "\<not> (\<exists>x \<in> set acc'. ds_positions x > 0)" using options(2) by auto
  then show ?thesis
    unfolding settleDay_def Let_def bindS_pure pending
    by (simp add: bindS_def futures(1) options(1))
qed

text \<open>
  The settlement of a day happens once: after a run that returned, another run of the day changes
  nothing in any state that kept the records, whatever positions and orders were opened since.
\<close>

theorem settlement_once_a_day:
  assumes "isInr (fst (settleDay day s))" "settleReady day (ap_db s)"
    and "set (db_settlements (ap_db (snd (settleDay day s)))) \<subseteq> set (db_settlements (ap_db t))"
  shows "isInr (fst (settleDay day t)) \<and> snd (settleDay day t) = t"
proof (rule settled_day, intro ballI)
  fix x assume x: "x \<in> set (map fd_symbol FUTURES @ map od_symbol ALL_OPTIONS)"
  have "settleDay day s = (fst (settleDay day s), snd (settleDay day s))" by simp
  from day_run [OF this assms(2)] assms(1) x have "recorded (ap_db (snd (settleDay day s))) day x" by blast
  then show "recorded (ap_db t) day x"
    using assms(3) unfolding recorded_def findRow_def map_of_eq_None_iff by (force simp: image_iff)
qed

section \<open>A settlement\<close>

definition demoFloorDb :: db where
  "demoFloorDb = demoBank\<lparr>
     db_positions := [((''A'', ''USDF'', NET), \<lparr>po_qty = 2, po_entryValue = 28000, po_marginHeld = 0, po_leverage = None\<rparr>)],
     db_references := [((''USDKRW'', ''1m'', 60), \<lparr>cn_open = 14000, cn_high = 14100, cn_low = 14000, cn_close = 14100, cn_volume = 0\<rparr>)]\<rparr>"

definition demoSettlement :: api where
  "demoSettlement = \<lparr>ap_db = demoFloorDb, ap_redis = [], ap_redisUp = True, ap_ids = (\<lambda>n. replicate n (CHR ''x'')),
     ap_next = 0, ap_now = 1800000000000, ap_manual = None\<rparr>"

lemma demo_due: "dueOf ''d'' demoFloorDb = [((''A'', ''USDF'', NET), 200000)]"
  by code_simp

lemma demo_settle_ready: "settleReady ''d'' demoFloorDb"
  unfolding settleReady_def demo_due by code_simp

lemma demo_settle_runs: "isInr (fst (settleDay ''d'' demoSettlement))"
  by code_simp

theorem settlement_pays_once_witness:
  "\<exists>r s'. settleDay ''d'' demoSettlement = (Inr r, s') \<and> duePaid ''d'' {(''A'', ''USDF'', NET)} demoFloorDb (ap_db s')"
proof -
  obtain r s' where run: "settleDay ''d'' demoSettlement = (Inr r, s')"
    using demo_settle_runs by (cases "settleDay ''d'' demoSettlement") (auto simp: isInr_iff)
  have db: "ap_db demoSettlement = demoFloorDb" by (simp add: demoSettlement_def)
  from settlement_pays_once [OF run] demo_settle_ready show ?thesis
    using run unfolding db demo_due by (auto simp: isInr_def)
qed

theorem settlement_once_a_day_witness:
  "snd (settleDay ''d'' (snd (settleDay ''d'' demoSettlement))) = snd (settleDay ''d'' demoSettlement)"
  using settlement_once_a_day [of "''d''" demoSettlement "snd (settleDay ''d'' demoSettlement)"]
    demo_settle_runs demo_settle_ready by (simp add: demoSettlement_def)

end
