(* ===== verification/Reference_Assets.thy ===== *)
theory Reference_Assets
  imports Futures_Rules
begin

text \<open>
  \<open>packages/shared/src/reference.ts\<close>: the virtual indices futures settle against, stored as integers
  (the value times the scale of the asset). Display names and the table from the commodities of news
  articles to assets are left out.
\<close>

record reference_asset =
  rf_code :: string
  rf_unit :: price_unit
  rf_scale :: int
  rf_decimals :: int
  rf_anchor :: int
  rf_dailyVol :: rat

definition REFERENCE_ASSETS :: "reference_asset list" where
  "REFERENCE_ASSETS =
    [\<lparr>rf_code = ''USDKRW'', rf_unit = Won, rf_scale = 10, rf_decimals = 1, rf_anchor = 1400, rf_dailyVol = fl (5 / 1000)\<rparr>,
     \<lparr>rf_code = ''OIL'', rf_unit = Pt, rf_scale = 100, rf_decimals = 2, rf_anchor = 100, rf_dailyVol = fl (20 / 1000)\<rparr>,
     \<lparr>rf_code = ''GAS'', rf_unit = Pt, rf_scale = 100, rf_decimals = 2, rf_anchor = 100, rf_dailyVol = fl (35 / 1000)\<rparr>,
     \<lparr>rf_code = ''COPPER'', rf_unit = Pt, rf_scale = 100, rf_decimals = 2, rf_anchor = 100, rf_dailyVol = fl (15 / 1000)\<rparr>,
     \<lparr>rf_code = ''GOLD'', rf_unit = Pt, rf_scale = 100, rf_decimals = 2, rf_anchor = 100, rf_dailyVol = fl (10 / 1000)\<rparr>,
     \<lparr>rf_code = ''CORN'', rf_unit = Pt, rf_scale = 100, rf_decimals = 2, rf_anchor = 100, rf_dailyVol = fl (18 / 1000)\<rparr>]"

definition referenceAsset :: "string \<Rightarrow> reference_asset option" where
  "referenceAsset code = find (\<lambda>a. rf_code a = code) REFERENCE_ASSETS"

definition toReferenceUnits :: "rat \<Rightarrow> reference_asset \<Rightarrow> int" where
  "toReferenceUnits value' def' = mathRound (jsMul value' (of_int (rf_scale def')))"

definition fromReferenceUnits :: "int \<Rightarrow> reference_asset \<Rightarrow> rat" where
  "fromReferenceUnits units def' = jsDiv (of_int units) (of_int (rf_scale def'))"

definition REFERENCE_NEWS_MOVE_MULTIPLE :: rat where "REFERENCE_NEWS_MOVE_MULTIPLE = 2"

definition referenceNewsMove :: "string \<Rightarrow> rat \<Rightarrow> rat \<Rightarrow> rat \<Rightarrow> rat" where
  "referenceNewsMove code weight direction strength =
     (case referenceAsset code of
        None \<Rightarrow> 0
      | Some def' \<Rightarrow>
          if \<not> strength > 0 \<or> weight = 0 then 0
          else jsMul (jsMul (jsMul (jsMul direction weight) strength) (rf_dailyVol def')) REFERENCE_NEWS_MOVE_MULTIPLE)"

section \<open>Exactness\<close>

lemma mathRound_near: "\<bar>x - of_int u\<bar> < 1 / 2 \<Longrightarrow> mathRound x = u"
  unfolding mathRound_def by linarith

lemma fl_quotient_times:
  assumes "\<bar>u\<bar> \<le> 2 ^ 50" "0 < (s::int)"
  shows "\<bar>jsMul (jsDiv (of_int u) (of_int s)) (of_int s) - of_int u\<bar> < 1 / 2"
proof -
  let ?q = "of_int u / of_int s :: rat"
  let ?p = "fl ?q * of_int s"
  have s: "0 < (of_int s :: rat)" using assms(2) by simp
  have u: "\<bar>of_int u :: rat\<bar> \<le> 2 ^ 50" using assms(1) by (metis of_int_abs of_int_le_iff of_int_numeral of_int_power)
  have "?p - of_int u = (fl ?q - ?q) * of_int s" using s by (simp add: left_diff_distrib)
  then have "\<bar>?p - of_int u\<bar> = \<bar>fl ?q - ?q\<bar> * of_int s" using s by (simp only: abs_mult abs_of_pos)
  also have "\<dots> \<le> \<bar>?q\<bar> / 2 ^ 53 * of_int s" using fl_error [of ?q] s by (intro mult_right_mono) simp_all
  also have "\<dots> = \<bar>of_int u\<bar> / 2 ^ 53" using s by (simp add: abs_divide)
  also have "\<dots> \<le> 1 / 8" using u by simp
  finally have p: "\<bar>?p - of_int u\<bar> \<le> 1 / 8" .
  then have "\<bar>?p\<bar> \<le> 2 ^ 50 + 1 / 8" using u by linarith
  then have "\<bar>?p\<bar> / 2 ^ 53 \<le> 1 / 4" by (simp add: field_simps)
  then have "\<bar>fl ?p - ?p\<bar> \<le> 1 / 4" using fl_error [of ?p] by linarith
  with p show ?thesis unfolding jsMul_def jsDiv_def by linarith
qed

text \<open>
  C40. A stored integer survives the round trip through the real value, although the quotient and the
  product are rounded to binary64.
\<close>

theorem reference_units_roundtrip:
  assumes "a \<in> set REFERENCE_ASSETS" "\<bar>u\<bar> \<le> 2 ^ 50"
  shows "toReferenceUnits (fromReferenceUnits u a) a = u"
proof -
  have "list_all (\<lambda>a. 0 < rf_scale a) REFERENCE_ASSETS" by (simp add: REFERENCE_ASSETS_def)
  then have "0 < rf_scale a" using assms(1) by (simp add: list_all_iff)
  from mathRound_near [OF fl_quotient_times [OF assms(2) this]] show ?thesis
    by (simp add: toReferenceUnits_def fromReferenceUnits_def)
qed

lemma reference_units_roundtrip_witness:
  "toReferenceUnits (fromReferenceUnits 14005 (hd REFERENCE_ASSETS)) (hd REFERENCE_ASSETS) = 14005"
  by (rule reference_units_roundtrip) (simp_all add: REFERENCE_ASSETS_def)

end
