(* ===== verification/Futures_Service.thy ===== *)
theory Futures_Service
  imports Reference_Assets Futures_Settlement Order_Margin
begin

text \<open>
  \<open>apps/api/src/futures/futures.service.ts\<close>: the values futures are marked to, the overview of the
  contracts, an account's positions and the leverage setting. The short-lived cache and the list of the
  last liquidations beside the positions are left out; the
  latest reference values (\<open>latest\<close>: the finite value of the tick kept under a code) are taken as parsed.
\<close>

section \<open>Underlyings and marks\<close>

definition refByCode :: "(string \<Rightarrow> rat option) \<Rightarrow> string \<Rightarrow> rat option" where
  "refByCode latest code = (case referenceAsset code of
     None \<Rightarrow> None
   | Some asset \<Rightarrow> (case latest code of None \<Rightarrow> None | Some value' \<Rightarrow> Some (jsDiv value' (of_int (rf_scale asset)))))"

definition kabuIndex :: "db \<Rightarrow> rat option" where
  "kabuIndex d = (case latestEpoch d of
     None \<Rightarrow> None
   | Some epoch \<Rightarrow>
       if ie_divisor epoch > 0
       then Some (indexLevel epoch (stockValue sy_lastPrice d) (stockValue sy_listedShares d)) else None)"

definition underlyingUnits :: "(string \<Rightarrow> rat option) \<Rightarrow> db \<Rightarrow> string \<Rightarrow> int option" where
  "underlyingUnits latest d symbol = (case futureDef symbol of
     None \<Rightarrow> None
   | Some future \<Rightarrow>
       map_option (\<lambda>value'. mathRound (jsMul value' (of_int (fd_priceScale future))))
         (if fd_underlying future = ''KABU_INDEX'' then kabuIndex d else refByCode latest (fd_underlying future)))"

definition MARK_RECENT_WINDOW_MS :: int where "MARK_RECENT_WINDOW_MS = 5 * 60000"

definition MARK_RECENT_TRADES :: nat where "MARK_RECENT_TRADES = 10"

text \<open>The latest trades of a symbol within the window, newest first.\<close>

definition recentPrices :: "int \<Rightarrow> db \<Rightarrow> string \<Rightarrow> int list" where
  "recentPrices now d symbol =
     map (\<lambda>(i, t). tr_price t) (take MARK_RECENT_TRADES (rev (sort_key (\<lambda>(i, t). (tr_createdAt t, i))
       (filter (\<lambda>(i, t). tr_symbol t = symbol \<and> tr_createdAt t > now - MARK_RECENT_WINDOW_MS) (db_trades d)))))"

definition futureLast :: "db \<Rightarrow> future_def \<Rightarrow> int" where
  "futureLast d future =
     (case findRow (filter (\<lambda>(x, m). sy_kind m = FUTURE) (db_symbols d)) (fd_symbol future) of
        None \<Rightarrow> fd_initialPrice future | Some m \<Rightarrow> sy_lastPrice m)"

definition marks :: "(string \<Rightarrow> rat option) \<Rightarrow> int \<Rightarrow> db \<Rightarrow> string \<Rightarrow> int option" where
  "marks latest now d symbol = (case futureDef symbol of
     None \<Rightarrow> None
   | Some future \<Rightarrow> Some \<lfloor>futureMarkPrice (map_option of_int (underlyingUnits latest d symbol))
       (map of_int (recentPrices now d symbol)) (of_int (futureLast d future))\<rfloor>)"

section \<open>Overview\<close>

record future_overview =
  fo_def :: future_def
  fo_lastPrice :: int
  fo_base :: int
  fo_settlementPrice :: "int option"
  fo_settlesAt :: int
  fo_underlying :: "int option"
  fo_volume :: int

definition orElse :: "'a option \<Rightarrow> 'a option \<Rightarrow> 'a option" where
  "orElse a b = (case a of None \<Rightarrow> b | Some x \<Rightarrow> Some x)"

text \<open>The first trade of the current contract, and the last one before it.\<close>

definition tradesInOrder :: "db \<Rightarrow> string \<Rightarrow> trade_row list" where
  "tradesInOrder d symbol =
     map snd (sort_key (\<lambda>(i, t). (tr_createdAt t, i)) (filter (\<lambda>(i, t). tr_symbol t = symbol) (db_trades d)))"

definition openingOf :: "db \<Rightarrow> int \<Rightarrow> string \<Rightarrow> int option" where
  "openingOf d session symbol =
     map_option tr_price (find (\<lambda>t. tr_createdAt t \<ge> session) (tradesInOrder d symbol))"

definition previousOf :: "db \<Rightarrow> int \<Rightarrow> string \<Rightarrow> int option" where
  "previousOf d session symbol =
     map_option tr_price (find (\<lambda>t. tr_createdAt t < session) (rev (tradesInOrder d symbol)))"

definition volumeOf :: "db \<Rightarrow> int \<Rightarrow> string \<Rightarrow> int" where
  "volumeOf d session symbol =
     sum_list (map tr_qty (filter (\<lambda>t. tr_createdAt t \<ge> session) (tradesInOrder d symbol)))"

text \<open>\<open>DISTINCT ON (symbol) ... ORDER BY symbol, trading_day DESC\<close>; a price of 0 is a day without one.\<close>

definition lastSettlement :: "db \<Rightarrow> string \<Rightarrow> int option" where
  "lastSettlement d symbol =
     map_option (\<lambda>(k, row). fs_price row) (find (\<lambda>_. True)
       (rev (sort_key (\<lambda>((x, day), row). day) (filter (\<lambda>((x, day), row). x = symbol \<and> fs_price row > 0) (db_settlements d)))))"

definition overview :: "(string \<Rightarrow> rat option) \<Rightarrow> int \<Rightarrow> db \<Rightarrow> future_overview list" where
  "overview latest now d =
     (let settlesAt = nextFuturesSettlementAt now; session = settlesAt - DAY_MS in
      map (\<lambda>future.
        let symbol = fd_symbol future; row = findRow (db_symbols d) symbol;
            settled = lastSettlement d symbol
        in \<lparr>fo_def = future,
            fo_lastPrice = (case row of None \<Rightarrow> fd_initialPrice future | Some m \<Rightarrow> sy_lastPrice m),
            fo_base = (case orElse settled (orElse (openingOf d session symbol) (orElse (previousOf d session symbol)
                         (map_option sy_initialPrice row))) of None \<Rightarrow> fd_initialPrice future | Some x \<Rightarrow> x),
            fo_settlementPrice = settled, fo_settlesAt = settlesAt,
            fo_underlying = underlyingUnits latest d symbol,
            fo_volume = volumeOf d session symbol\<rparr>) FUTURES)"

section \<open>Positions\<close>

record position_view =
  pv_symbol :: string
  pv_positionSide :: row_side
  pv_qty :: int
  pv_closableQty :: int
  pv_avgPrice :: rat
  pv_markPrice :: int
  pv_unrealized :: int
  pv_marginHeld :: int
  pv_maintenanceMargin :: int
  pv_leverage :: "int option"

record positions_view =
  vw_positions :: "position_view list"
  vw_marginHeld :: int
  vw_debt :: int
  vw_unrealized :: int
  vw_maintenanceMargin :: int
  vw_initialMargin :: int
  vw_equity :: int
  vw_leverage :: "(string \<times> int option) list"
  vw_marginCall :: "(margin_call_row \<times> int) option"

definition closeSideOf :: "row_side \<Rightarrow> int \<Rightarrow> order_side" where
  "closeSideOf positionSide qty =
     (case positionSide of NET \<Rightarrow> if qty > 0 then SELL else BUY
      | LONG_ROW \<Rightarrow> hedgeCloseSide LONG | SHORT_ROW \<Rightarrow> hedgeCloseSide SHORT)"

text \<open>Live orders without a hold are closing orders; they are taken off what can be closed.\<close>

definition closingOrders :: "db \<Rightarrow> string \<Rightarrow> order_row list" where
  "closingOrders d accountId =
     filter (\<lambda>o'. or_accountId o' = accountId \<and> isFuture (or_symbol o') \<and> isActive (or_status o') \<and> or_holdPerUnit o' = 0)
       (map snd (db_orders d))"

definition promisedQty :: "order_row list \<Rightarrow> string \<Rightarrow> row_side \<Rightarrow> order_side \<Rightarrow> int" where
  "promisedQty orders symbol positionSide closeSide =
     sum_list (map (\<lambda>o'. or_qty o' - or_filledQty o')
       (filter (\<lambda>o'. or_symbol o' = symbol \<and> or_side o' = closeSide \<and> rowSideOf (or_positionSide o') = positionSide) orders))"

definition markOf :: "(string \<Rightarrow> int option) \<Rightarrow> future_def \<Rightarrow> int" where
  "markOf markBySymbol def' = (case markBySymbol (fd_symbol def') of None \<Rightarrow> fd_initialPrice def' | Some m \<Rightarrow> m)"

definition positionView ::
  "(string \<Rightarrow> int option) \<Rightarrow> order_row list \<Rightarrow> future_def \<Rightarrow> row_side \<Rightarrow> position_row \<Rightarrow> position_view" where
  "positionView markBySymbol liveOrders def' positionSide p =
     (let mark = markOf markBySymbol def';
          reserved = promisedQty liveOrders (fd_symbol def') positionSide (closeSideOf positionSide (po_qty p))
      in \<lparr>pv_symbol = fd_symbol def', pv_positionSide = positionSide, pv_qty = po_qty p,
          pv_closableQty = max 0 (\<bar>po_qty p\<bar> - reserved),
          pv_avgPrice = jsDiv (of_int (po_entryValue p)) (of_int \<bar>po_qty p\<bar>), pv_markPrice = mark,
          pv_unrealized = futureUnrealized def' (po_qty p) (po_entryValue p) mark, pv_marginHeld = po_marginHeld p,
          pv_maintenanceMargin = futureMaintenanceMargin def' (po_qty p) mark (po_leverage p),
          pv_leverage = po_leverage p\<rparr>)"

definition futureRows :: "db \<Rightarrow> string \<Rightarrow> (future_def \<times> row_side \<times> position_row) list" where
  "futureRows d accountId =
     List.map_filter (\<lambda>(k, p). case futureDef (fst (snd k)) of None \<Rightarrow> None | Some def' \<Rightarrow> Some (def', snd (snd k), p))
       (positionsOf accountId d)"

definition futuresPositions :: "(string \<Rightarrow> rat option) \<Rightarrow> int \<Rightarrow> db \<Rightarrow> string \<Rightarrow> positions_view" where
  "futuresPositions latest now d accountId =
     (let markBySymbol = marks latest now d; enc = futuresEncumbrance d accountId;
          balance = (case findRow (db_accounts d) accountId of None \<Rightarrow> 0 | Some a \<Rightarrow> ac_balance a);
          open' = filter (\<lambda>(def', side, p). po_qty p \<noteq> 0) (futureRows d accountId);
          rows = map (\<lambda>(def', side, p). positionView markBySymbol (closingOrders d accountId) def' side p) open';
          unrealizedTotal = sum_list (map pv_unrealized rows);
          initialTotal = sum_list (map (\<lambda>(def', side, p).
            futureMarginPerContract def' (markOf markBySymbol def') (po_leverage p) * \<bar>po_qty p\<bar>) open');
          equity = balance + unrealizedTotal - en_debt enc
      in \<lparr>vw_positions = rows, vw_marginHeld = en_margin enc, vw_debt = en_debt enc, vw_unrealized = unrealizedTotal,
          vw_maintenanceMargin = sum_list (map pv_maintenanceMargin rows), vw_initialMargin = initialTotal, vw_equity = equity,
          vw_leverage = map (\<lambda>f. (fd_symbol f, fold (\<lambda>(def', side, p) l. if def' = f then po_leverage p else l)
             (futureRows d accountId) None)) FUTURES,
          vw_marginCall = map_option (\<lambda>c. (c, if initialTotal > equity then initialTotal - equity else 0))
             (find (\<lambda>c. mc_accountId c = accountId \<and> mc_resolvedAt c = None) (map snd (db_marginCalls d)))\<rparr>)"

section \<open>Leverage\<close>

definition setRowLeverage :: "string \<Rightarrow> string \<Rightarrow> int option \<Rightarrow> row_side \<Rightarrow> db \<Rightarrow> error + db" where
  "setRowLeverage accountId symbol leverage positionSide d =
     writePosition (accountId, symbol, positionSide)
       (case findRow (db_positions d) (accountId, symbol, positionSide) of
          None \<Rightarrow> \<lparr>po_qty = 0, po_entryValue = 0, po_marginHeld = 0, po_leverage = leverage\<rparr>
        | Some p \<Rightarrow> p\<lparr>po_leverage := leverage\<rparr>) d"

definition applyLeverage :: "string \<Rightarrow> string \<Rightarrow> int option \<Rightarrow> unit body" where
  "applyLeverage accountId symbol leverage ctx d =
     (if \<exists>(k, p) \<in> set (db_positions d). fst k = accountId \<and> fst (snd k) = symbol \<and> po_qty p \<noteq> 0
      then Inl (Unprocessable ''position open'')
      else if \<exists>(i, o') \<in> set (db_orders d). or_accountId o' = accountId \<and> or_symbol o' = symbol \<and> isActive (or_status o')
      then Inl (Unprocessable ''order open'')
      else bindE (foldE (setRowLeverage accountId symbol leverage)
             (if isBotAccount d accountId then [NET] else [LONG_ROW, SHORT_ROW]) d) (\<lambda>d. Inr ((), d)))"

text \<open>
  The leverage a request asks for: \<open>None\<close> is \<open>null\<close>, \<open>Some None\<close> a value that is no number.
\<close>

definition setLeverage :: "string \<Rightarrow> string \<Rightarrow> rat option option \<Rightarrow> (string \<times> int option) service" where
  "setLeverage accountId symbol raw =
     (case futureDef symbol of
        None \<Rightarrow> throwS (NotFoundError ''future'')
      | Some def' \<Rightarrow>
          (case raw of
             Some None \<Rightarrow> throwS (BadRequest ''leverage'')
           | _ \<Rightarrow>
               let leverage = (case raw of Some (Some l) \<Rightarrow> Some l | _ \<Rightarrow> None) in
               if \<not> isValidLeverage leverage then throwS (BadRequest ''leverage'')
               else bindS (txS (pessimisticLock [accountId] (applyLeverage accountId symbol (map_option floor leverage)))) (\<lambda>_.
                    returnS (symbol, map_option floor leverage))))"

end
