(* ===== verification/Futures_Risk.thy ===== *)
theory Futures_Risk
  imports Futures_Service Order_Service
begin

text \<open>
  \<open>apps/api/src/futures/futures-risk.service.ts\<close>: the watch over the accounts with futures positions,
  which opens margin calls, resolves them, and places liquidation orders. The marks are those of
  \<open>Futures_Service\<close>; notifications, timers and log lines are left out.
\<close>

datatype liquidation_reason = DEADLINE | EMERGENCY

fun reasonText :: "liquidation_reason \<Rightarrow> string" where
  "reasonText DEADLINE = ''DEADLINE''"
| "reasonText EMERGENCY = ''EMERGENCY''"

record risk_tick =
  rk_accounts :: nat
  rk_calls :: nat
  rk_resolved :: nat
  rk_liquidations :: nat

record target =
  tg_symbol :: string
  tg_qty :: int
  tg_mark :: int
  tg_positionSide :: row_side

section \<open>Margin calls\<close>

definition CALL_OUTCOMES :: "string list" where
  "CALL_OUTCOMES = [''RESOLVED'', ''LIQUIDATED'', ''EMERGENCY'', ''SETTLED'']"

text \<open>One open call per account (a partial unique index), and a known outcome (a check).\<close>

definition createMarginCall :: "string \<Rightarrow> margin_call_row \<Rightarrow> db \<Rightarrow> error + db" where
  "createMarginCall i c d =
     (if findRow (db_marginCalls d) i \<noteq> None \<or>
         (mc_resolvedAt c = None \<and>
          (\<exists>(j, c') \<in> set (db_marginCalls d). mc_accountId c' = mc_accountId c \<and> mc_resolvedAt c' = None))
      then Inl (UniqueViolation ''futures_margin_calls'')
      else if (case mc_outcome c of None \<Rightarrow> False | Some x \<Rightarrow> x \<notin> set CALL_OUTCOMES)
      then Inl (CheckViolation ''futures_margin_calls'')
      else Inr (d\<lparr>db_marginCalls := db_marginCalls d @ [(i, c)]\<rparr>))"

definition newCall :: "string \<Rightarrow> int \<Rightarrow> int \<Rightarrow> string option \<Rightarrow> margin_call_row" where
  "newCall accountId required now outcome =
     \<lparr>mc_accountId = accountId, mc_startedAt = now,
      mc_deadline = (if outcome \<noteq> None then now else now + FUTURES_MARGIN_CALL_GRACE_MS),
      mc_required = required, mc_resolvedAt = (if outcome \<noteq> None then Some now else None), mc_outcome = outcome\<rparr>"

definition openCall :: "string \<Rightarrow> int \<Rightarrow> int \<Rightarrow> string option \<Rightarrow> string service" where
  "openCall accountId required now outcome =
     bindS freshId (\<lambda>i. txS (\<lambda>d.
       bindE (createMarginCall i (newCall accountId required now outcome) d) (\<lambda>d. Inr (i, d))))"

definition closeCall :: "string \<Rightarrow> string \<Rightarrow> int \<Rightarrow> unit service" where
  "closeCall i outcome now = writeDb (\<lambda>d. d\<lparr>db_marginCalls := map (\<lambda>(j, c).
     (j, if j = i \<and> mc_resolvedAt c = None then c\<lparr>mc_resolvedAt := Some now, mc_outcome := Some outcome\<rparr> else c))
     (db_marginCalls d)\<rparr>)"

section \<open>Liquidation\<close>

definition pendingLiquidationAccounts :: "db \<Rightarrow> string list" where
  "pendingLiquidationAccounts d =
     (let live = map fst (filter (\<lambda>(i, o'). isFuture (or_symbol o') \<and> isActive (or_status o') \<and> or_holdPerUnit o' = 0) (db_orders d))
      in map (\<lambda>(i, l). lq_accountId l) (filter (\<lambda>(i, l). i \<in> set live) (db_liquidations d)))"

definition createLiquidation :: "string \<Rightarrow> liquidation_row \<Rightarrow> db \<Rightarrow> error + db" where
  "createLiquidation i l d =
     (if findRow (db_liquidations d) i \<noteq> None then Inl (UniqueViolation ''futures_liquidations'')
      else Inr (d\<lparr>db_liquidations := db_liquidations d @ [(i, l)]\<rparr>))"

text \<open>The protective limit of a liquidation, ten per cent off the mark.\<close>

definition liquidationBound :: "order_side \<Rightarrow> int \<Rightarrow> int" where
  "liquidationBound side mark =
     (if side = BUY then \<lceil>jsMul (of_int mark) MARKET_BUY_HOLD_FACTOR\<rceil>
      else max 1 \<lfloor>jsDiv (of_int mark) MARKET_BUY_HOLD_FACTOR\<rfloor>)"

definition positionSideOf :: "row_side \<Rightarrow> position_side option" where
  "positionSideOf s = (case s of NET \<Rightarrow> None | LONG_ROW \<Rightarrow> Some LONG | SHORT_ROW \<Rightarrow> Some SHORT)"

definition liquidationSide :: "target \<Rightarrow> order_side" where
  "liquidationSide t = (if tg_qty t > 0 then SELL else BUY)"

definition liquidationOrder :: "int \<Rightarrow> string \<Rightarrow> target \<Rightarrow> order_row" where
  "liquidationOrder now accountId t =
     \<lparr>or_accountId = accountId, or_symbol = tg_symbol t, or_side = liquidationSide t, or_type = MARKET, or_price = None,
      or_qty = \<bar>tg_qty t\<bar>, or_filledQty = 0, or_status = OPEN, or_holdPerUnit = 0,
      or_positionSide = positionSideOf (tg_positionSide t), or_createdAt = now\<rparr>"

definition liquidationEvent :: "int \<Rightarrow> string \<Rightarrow> string \<Rightarrow> string \<Rightarrow> target \<Rightarrow> order_placed" where
  "liquidationEvent now eventId orderId accountId t =
     \<lparr>pl_eventId = eventId, pl_orderId = orderId, pl_accountId = accountId, pl_symbol = tg_symbol t,
      pl_side = liquidationSide t, pl_type = MARKET, pl_price = Some (liquidationBound (liquidationSide t) (tg_mark t)),
      pl_qty = \<bar>tg_qty t\<bar>, pl_ts = now\<rparr>"

definition placeLiquidation ::
  "int \<Rightarrow> string \<Rightarrow> liquidation_reason \<Rightarrow> string \<Rightarrow> (string \<times> string) \<times> target \<Rightarrow> db \<Rightarrow> error + db" where
  "placeLiquidation now accountId reason marginCallId x d = (case x of ((orderId, eventId), t) \<Rightarrow>
     bindE (createOrder orderId (liquidationOrder now accountId t) d) (\<lambda>d.
     bindE (createLiquidation orderId
       \<lparr>lq_accountId = accountId, lq_symbol = tg_symbol t, lq_side = liquidationSide t, lq_qty = \<bar>tg_qty t\<bar>,
        lq_reason = reasonText reason, lq_marginCallId = Some marginCallId\<rparr> d) (\<lambda>d.
     createOrderOutbox eventId (OrderPlaced (liquidationEvent now eventId orderId accountId t)) now d)))"

definition liquidate :: "string \<Rightarrow> target list \<Rightarrow> liquidation_reason \<Rightarrow> string \<Rightarrow> nat service" where
  "liquidate accountId targets reason marginCallId =
     (let orders = filter (\<lambda>t. tg_qty t \<noteq> 0) targets in
      if orders = [] then returnS 0
      else bindS (readDb (\<lambda>d. filter (\<lambda>(i, o'). or_accountId o' = accountId \<and> isFuture (or_symbol o') \<and> isActive (or_status o')) (db_orders d))) (\<lambda>open'.
           bindS (freshIds (length open')) (\<lambda>cancelIds. bindS (freshIds (length orders)) (\<lambda>orderIds.
           bindS (freshIds (length orders)) (\<lambda>eventIds. bindS clockS (\<lambda>now.
           bindS (txS (\<lambda>d.
             bindE (foldE (cancelRow now) (zip cancelIds (map (\<lambda>(i, o'). (i, or_symbol o')) open')) d) (\<lambda>d.
             bindE (foldE (placeLiquidation now accountId reason marginCallId) (zip (zip orderIds eventIds) orders) d) (\<lambda>d.
             Inr ((), d))))) (\<lambda>_.
           returnS (length orders))))))))"

section \<open>One account\<close>

definition riskPositionsOf :: "(string \<Rightarrow> int option) \<Rightarrow> ((string \<times> string \<times> row_side) \<times> position_row) list \<Rightarrow> string \<Rightarrow> risk_position list" where
  "riskPositionsOf markBySymbol positions accountId =
     List.map_filter (\<lambda>(k, p). case futureDef (fst (snd k)) of
         None \<Rightarrow> None
       | Some def' \<Rightarrow>
           let mark = markOf markBySymbol def' in
           if mark = 0 then None
           else Some \<lparr>rp_def = def', rp_qty = po_qty p, rp_entryValue = po_entryValue p, rp_marginHeld = po_marginHeld p,
                      rp_mark = mark, rp_leverage = po_leverage p, rp_positionSide = snd (snd k)\<rparr>)
       (filter (\<lambda>(k, p). fst k = accountId) positions)"

definition emergencyTargets :: "risk_position list \<Rightarrow> string list \<Rightarrow> target list" where
  "emergencyTargets ps emergency =
     map (\<lambda>p. \<lparr>tg_symbol = fd_symbol (rp_def p), tg_qty = rp_qty p, tg_mark = rp_mark p, tg_positionSide = rp_positionSide p\<rparr>)
       (filter (\<lambda>p. futuresPositionKey (fd_symbol (rp_def p)) (rp_positionSide p) \<in> set emergency) ps)"

definition deadlineTargets :: "risk_position list \<Rightarrow> int \<Rightarrow> int \<Rightarrow> target list" where
  "deadlineTargets ps shortfall initial =
     map (\<lambda>(p, close). \<lparr>tg_symbol = fd_symbol (rp_def p), tg_qty = sgn (rp_qty p) * close, tg_mark = rp_mark p,
                        tg_positionSide = rp_positionSide p\<rparr>)
       (filter (\<lambda>(p, close). close > 0) (map (\<lambda>p. (p, marginCallLiquidationQty (rp_qty p) shortfall initial)) ps))"

text \<open>The decision for one account: what its positions, cash and open call ask for.\<close>

definition watchAccount ::
  "int \<Rightarrow> risk_position list \<Rightarrow> int \<Rightarrow> int \<Rightarrow> (string \<times> margin_call_row) option \<Rightarrow> string \<Rightarrow> risk_tick \<Rightarrow> risk_tick service" where
  "watchAccount now ps balance debt call accountId r =
     (if ps = [] then
        (case call of
           None \<Rightarrow> returnS r
         | Some (i, c) \<Rightarrow> bindS (closeCall i ''RESOLVED'' now) (\<lambda>_. returnS (r\<lparr>rk_resolved := rk_resolved r + 1\<rparr>)))
      else let risk = assessFuturesRisk ps balance debt in
        if ra_emergency risk \<noteq> [] then
          bindS (case call of Some (i, c) \<Rightarrow> returnS i
                 | None \<Rightarrow> openCall accountId (ra_shortfall risk) now (Some ''EMERGENCY'')) (\<lambda>callId.
          bindS (case call of Some (i, c) \<Rightarrow> closeCall i ''EMERGENCY'' now | None \<Rightarrow> returnS ()) (\<lambda>_.
          bindS (liquidate accountId (emergencyTargets ps (ra_emergency risk)) EMERGENCY callId) (\<lambda>n.
          returnS (r\<lparr>rk_liquidations := rk_liquidations r + n\<rparr>))))
        else case call of
          Some (i, c) \<Rightarrow>
            if ra_shortfall risk = 0 then
              bindS (closeCall i ''RESOLVED'' now) (\<lambda>_. returnS (r\<lparr>rk_resolved := rk_resolved r + 1\<rparr>))
            else if now \<ge> mc_deadline c then
              bindS (closeCall i ''LIQUIDATED'' now) (\<lambda>_.
              bindS (liquidate accountId (deadlineTargets ps (ra_shortfall risk) (ra_initial risk)) DEADLINE i) (\<lambda>n.
              returnS (r\<lparr>rk_liquidations := rk_liquidations r + n\<rparr>)))
            else returnS r
        | None \<Rightarrow>
            if ra_belowMaintenance risk then
              bindS (openCall accountId (ra_shortfall risk) now None) (\<lambda>_. returnS (r\<lparr>rk_calls := rk_calls r + 1\<rparr>))
            else returnS r)"

section \<open>A tick\<close>

definition activeCalls :: "db \<Rightarrow> (string \<times> margin_call_row) list" where
  "activeCalls d = filter (\<lambda>(i, c). mc_resolvedAt c = None) (db_marginCalls d)"

definition watchedAccounts :: "db \<Rightarrow> string list" where
  "watchedAccounts d =
     uniq (map (\<lambda>(k, p). fst k) (filter (\<lambda>(k, p). po_qty p \<noteq> 0) (db_positions d)) @
           map (\<lambda>(i, c). mc_accountId c) (activeCalls d))"

definition callOf :: "db \<Rightarrow> string \<Rightarrow> (string \<times> margin_call_row) option" where
  "callOf d accountId = find (\<lambda>(i, c). mc_accountId c = accountId) (rev (activeCalls d))"

definition watchStep :: "(string \<Rightarrow> int option) \<Rightarrow> int \<Rightarrow> db \<Rightarrow> string \<Rightarrow> risk_tick \<Rightarrow> risk_tick service" where
  "watchStep markBySymbol now d0 accountId r0 =
     (let r = r0\<lparr>rk_accounts := rk_accounts r0 + 1\<rparr> in
      if accountId \<in> set (pendingLiquidationAccounts d0) then returnS r
      else watchAccount now
             (riskPositionsOf markBySymbol (filter (\<lambda>(k, p). po_qty p \<noteq> 0) (db_positions d0)) accountId)
             (case findRow (db_accounts d0) accountId of None \<Rightarrow> 0 | Some a \<Rightarrow> ac_balance a) (debtOf d0 accountId)
             (callOf d0 accountId) accountId r)"

definition tickRisk :: "(string \<Rightarrow> rat option) \<Rightarrow> int \<Rightarrow> risk_tick service" where
  "tickRisk latest now s =
     (let zero = \<lparr>rk_accounts = 0, rk_calls = 0, rk_resolved = 0, rk_liquidations = 0\<rparr> in
      if pw_active (maintenanceWindow (ap_manual s) now) then (Inr zero, s)
      else eachS (watchStep (marks latest now (ap_db s)) now (ap_db s)) (watchedAccounts (ap_db s)) zero s)"

text \<open>The scheduled run: one process at a time ticks; a failure ends only this tick.\<close>

definition runRisk :: "(string \<Rightarrow> rat option) \<Rightarrow> risk_tick option service" where
  "runRisk latest =
     bindS freshId (\<lambda>token.
     catchS (bindS (catchS (redisSetNx ''mock-kabu2:lock:futures-risk'' token) (\<lambda>_. returnS False)) (\<lambda>locked.
       if \<not> locked then returnS None
       else bindS clockS (\<lambda>now. bindS (tickRisk latest now) (\<lambda>r. returnS (Some r)))))
     (\<lambda>e. returnS None))"

end
