(* ===== verification/Risk_Watch_Props.thy ===== *)
theory Risk_Watch_Props
  imports Futures_Risk Futures_Risk_Props Futures_Settlement_Props
begin

text \<open>
  What a tick of the risk watch does: liquidation orders only reduce positions, only for accounts that
  earned them, and margin calls follow the assessment.
\<close>

section \<open>What a tick may change\<close>

definition watchFrame :: "db \<Rightarrow> db \<Rightarrow> bool" where
  "watchFrame d d' \<longleftrightarrow> d' = d\<lparr>db_orders := db_orders d', db_liquidations := db_liquidations d',
     db_marginCalls := db_marginCalls d', db_orderOutbox := db_orderOutbox d'\<rparr>"

lemma watchFrame_refl [simp]: "watchFrame d d"
  by (simp add: watchFrame_def)

lemma watchFrame_trans: "watchFrame d d' \<Longrightarrow> watchFrame d' d'' \<Longrightarrow> watchFrame d d''"
proof -
  assume a: "watchFrame d d'" and b: "watchFrame d' d''"
  have "d'' = d'\<lparr>db_orders := db_orders d'', db_liquidations := db_liquidations d'',
     db_marginCalls := db_marginCalls d'', db_orderOutbox := db_orderOutbox d''\<rparr>"
    using b by (simp only: watchFrame_def)
  also have "\<dots> = d\<lparr>db_orders := db_orders d'', db_liquidations := db_liquidations d'',
     db_marginCalls := db_marginCalls d'', db_orderOutbox := db_orderOutbox d''\<rparr>"
    using a [unfolded watchFrame_def] by (rule ssubst) simp
  finally show ?thesis by (simp only: watchFrame_def)
qed

text \<open>New orders at the end of the table, nothing else of the orders touched.\<close>

definition ordered :: "db \<Rightarrow> db \<Rightarrow> (string \<times> order_row) list \<Rightarrow> bool" where
  "ordered d d' new \<longleftrightarrow> db_orders d' = db_orders d @ new \<and> watchFrame d d'"

lemma ordered_trans: "ordered d d' new \<Longrightarrow> ordered d' d'' new' \<Longrightarrow> ordered d d'' (new @ new')"
  by (auto simp: ordered_def intro: watchFrame_trans)

lemma ordered_refl [simp]: "ordered d d []"
  by (simp add: ordered_def)

lemma ordered_calls [simp]: "ordered d (d\<lparr>db_marginCalls := calls\<rparr>) []"
  by (simp add: ordered_def watchFrame_def)

section \<open>Placing liquidations\<close>

lemma bindS_freshIds:
  "bindS (freshIds n) f s = f (map (ap_ids s) [ap_next s..<ap_next s + n]) (s\<lparr>ap_next := ap_next s + n\<rparr>)"
  by (simp add: bindS_def freshIds_def)

lemma placeLiquidation_run:
  assumes "placeLiquidation now a reason c ((orderId, eventId), t) d = Inr d'"
  shows "ordered d d' [(orderId, liquidationOrder now a t)] \<and> db_marginCalls d' = db_marginCalls d"
  using assms
  by (auto simp: placeLiquidation_def createOrder_Inr createLiquidation_def createOrderOutbox_Inr bindE_eq_Inr_iff
      ordered_def watchFrame_def split: if_splits)

lemma place_liquidations:
  "foldE (placeLiquidation now a reason c) xs d = Inr d' \<Longrightarrow>
     ordered d d' (map (\<lambda>((i, e), t). (i, liquidationOrder now a t)) xs) \<and> db_marginCalls d' = db_marginCalls d"
proof (induction xs arbitrary: d)
  case (Cons x xs)
  obtain i e t where x: "x = ((i, e), t)" by (cases x) auto
  from Cons.prems obtain d1 where d1: "placeLiquidation now a reason c ((i, e), t) d = Inr d1"
    "foldE (placeLiquidation now a reason c) xs d1 = Inr d'" by (auto simp: x bindE_eq_Inr_iff)
  from placeLiquidation_run [OF d1(1)] Cons.IH [OF d1(2)] show ?case
    using ordered_trans by (fastforce simp: x)
qed simp

text \<open>A liquidation places its orders or none.\<close>

lemma liquidate_run:
  assumes "liquidate a targets reason c s = (r, s')"
  shows "\<exists>new n. ordered (ap_db s) (ap_db s') new \<and> db_marginCalls (ap_db s') = db_marginCalls (ap_db s) \<and>
    (new = [] \<or> map snd new = map (liquidationOrder n a) (filter (\<lambda>t. tg_qty t \<noteq> 0) targets))"
proof -
  let ?orders = "filter (\<lambda>t. tg_qty t \<noteq> 0) targets"
  show ?thesis
  proof (cases "?orders = []")
    case True
    then have "s' = s" using assms by (simp add: liquidate_def)
    then show ?thesis by (intro exI [of _ "[]"]) simp
  next
    case False
    define cancels where "cancels = filter (\<lambda>(i, o'). or_accountId o' = a \<and> isFuture (or_symbol o') \<and> isActive (or_status o')) (db_orders (ap_db s))"
    define cancelIds where "cancelIds = map (ap_ids s) [ap_next s..<ap_next s + length cancels]"
    define s1 where "s1 = s\<lparr>ap_next := ap_next s + length cancels\<rparr>"
    define orderIds where "orderIds = map (ap_ids s1) [ap_next s1..<ap_next s1 + length ?orders]"
    define s2 where "s2 = s1\<lparr>ap_next := ap_next s1 + length ?orders\<rparr>"
    define eventIds where "eventIds = map (ap_ids s2) [ap_next s2..<ap_next s2 + length ?orders]"
    define s3 where "s3 = s2\<lparr>ap_next := ap_next s2 + length ?orders\<rparr>"
    let ?tx = "\<lambda>d. bindE (foldE (cancelRow (ap_now s3)) (zip cancelIds (map (\<lambda>(i, o'). (i, or_symbol o')) cancels)) d) (\<lambda>d.
             bindE (foldE (placeLiquidation (ap_now s3) a reason c) (zip (zip orderIds eventIds) ?orders) d) (\<lambda>d.
             Inr ((), d)))"
    have db: "ap_db s3 = ap_db s" by (simp add: s3_def s2_def s1_def)
    have "liquidate a targets reason c s = bindS (txS ?tx) (\<lambda>_. returnS (length ?orders)) s3"
      using False
      by (simp only: liquidate_def Let_def if_False bindS_pure bindS_freshIds cancels_def cancelIds_def s1_def
          orderIds_def s2_def eventIds_def s3_def)
    then have run: "bindS (txS ?tx) (\<lambda>_. returnS (length ?orders)) s3 = (r, s')" using assms by simp
    obtain r1 t where tx: "txS ?tx s3 = (r1, t)" by (cases "txS ?tx s3")
    have s': "s' = t" using run tx by (cases r1) (auto simp: bindS_def)
    from tx show ?thesis
    proof (cases rule: txS_cases)
      case (rolled_back e)
      then show ?thesis using s' db by (intro exI [of _ "[]"]) simp
    next
      case (committed u d)
      from committed(1) obtain d1 where d1: "foldE (cancelRow (ap_now s3)) (zip cancelIds (map (\<lambda>(i, o'). (i, or_symbol o')) cancels)) (ap_db s) = Inr d1"
        "foldE (placeLiquidation (ap_now s3) a reason c) (zip (zip orderIds eventIds) ?orders) d1 = Inr d"
        by (auto simp: bindE_eq_Inr_iff db)
      from cancel_rows [OF d1(1)] obtain box where "d1 = (ap_db s)\<lparr>db_orderOutbox := box\<rparr>" by blast
      then have d1': "ordered (ap_db s) d1 []" "db_marginCalls d1 = db_marginCalls (ap_db s)"
        by (simp_all add: ordered_def watchFrame_def)
      let ?new = "map (\<lambda>((i, e), t). (i, liquidationOrder (ap_now s3) a t)) (zip (zip orderIds eventIds) ?orders)"
      note d2 = place_liquidations [OF d1(2)]
      have "length (zip orderIds eventIds) = length ?orders" by (simp add: orderIds_def eventIds_def)
      then have "map snd (zip (zip orderIds eventIds) ?orders) = ?orders" by (rule map_snd_zip)
      moreover have "map snd (map (\<lambda>((i, e), t). (i, liquidationOrder n a t)) xs) = map (liquidationOrder n a) (map snd xs)"
        for n and xs :: "((string \<times> string) \<times> target) list" by (induction xs) auto
      ultimately have "map snd ?new = map (liquidationOrder (ap_now s3) a) ?orders" by (simp only:)
      moreover have "ordered (ap_db s) d ?new" using ordered_trans [OF d1'(1)] d2 by fastforce
      moreover have "ap_db s' = d" by (simp add: s' committed(3))
      ultimately show ?thesis using d2 d1'(2) by (intro exI [of _ ?new] exI [of _ "ap_now s3"]) simp
    qed
  qed
qed

section \<open>Targets\<close>

definition riskKey :: "risk_position \<Rightarrow> string \<times> row_side" where
  "riskKey p = (fd_symbol (rp_def p), rp_positionSide p)"

definition targetKey :: "target \<Rightarrow> string \<times> row_side" where
  "targetKey t = (tg_symbol t, tg_positionSide t)"

text \<open>A target takes a part of one position off, in its direction.\<close>

definition reduces :: "risk_position list \<Rightarrow> target \<Rightarrow> bool" where
  "reduces ps t \<longleftrightarrow> (\<exists>p \<in> set ps. targetKey t = riskKey p \<and> (tg_qty t > 0 \<longleftrightarrow> rp_qty p > 0) \<and>
     0 < \<bar>tg_qty t\<bar> \<and> \<bar>tg_qty t\<bar> \<le> \<bar>rp_qty p\<bar>)"

lemma emergency_reduces:
  assumes "t \<in> set (emergencyTargets ps e)" "tg_qty t \<noteq> 0" shows "reduces ps t"
  using assms by (fastforce simp: emergencyTargets_def reduces_def targetKey_def riskKey_def)

lemma deadline_reduces:
  assumes "t \<in> set (deadlineTargets ps shortfall initial)" shows "reduces ps t"
proof -
  from assms obtain p where p: "p \<in> set ps" "0 < marginCallLiquidationQty (rp_qty p) shortfall initial"
    "t = \<lparr>tg_symbol = fd_symbol (rp_def p), tg_qty = sgn (rp_qty p) * marginCallLiquidationQty (rp_qty p) shortfall initial,
      tg_mark = rp_mark p, tg_positionSide = rp_positionSide p\<rparr>"
    by (auto simp: deadlineTargets_def)
  then have q: "rp_qty p \<noteq> 0" "marginCallLiquidationQty (rp_qty p) shortfall initial \<le> \<bar>rp_qty p\<bar>"
    by (auto simp: marginCallLiquidationQty_def Let_def split: if_splits)
  then show ?thesis
    unfolding reduces_def using p
    by (intro bexI [of _ p]) (auto simp: targetKey_def riskKey_def abs_mult sgn_if zero_less_mult_iff)
qed

lemma target_keys:
  assumes "distinct (map riskKey ps)"
  shows "distinct (map targetKey (emergencyTargets ps e))" "distinct (map targetKey (deadlineTargets ps shortfall initial))"
proof -
  have e: "map targetKey (emergencyTargets ps e) =
      map riskKey (filter (\<lambda>p. futuresPositionKey (fd_symbol (rp_def p)) (rp_positionSide p) \<in> set e) ps)"
    by (simp add: emergencyTargets_def comp_def targetKey_def riskKey_def)
  have d: "map targetKey (deadlineTargets ps shortfall initial) =
      map riskKey (filter (\<lambda>p. marginCallLiquidationQty (rp_qty p) shortfall initial > 0) ps)"
    by (induction ps) (simp_all add: deadlineTargets_def targetKey_def riskKey_def)
  show "distinct (map targetKey (emergencyTargets ps e))" "distinct (map targetKey (deadlineTargets ps shortfall initial))"
    unfolding e d using assms by (rule distinct_map_filter)+
qed

text \<open>The risk positions of an account are its rows in futures.\<close>

lemma risk_position_row:
  assumes "p \<in> set (riskPositionsOf m rows a)"
  obtains q where "((a, riskKey p), q) \<in> set rows" "rp_qty p = po_qty q"
  using assms
  by (fastforce simp: riskPositionsOf_def riskKey_def List.map_filter_def Let_def futureDef_def find_Some_iff
      split: option.splits if_splits)

lemma risk_position_keys:
  assumes "distinct (map fst rows)" shows "distinct (map riskKey (riskPositionsOf m rows a))"
  using assms
proof (induction rows)
  case Nil
  then show ?case by (simp add: riskPositionsOf_def)
next
  case (Cons x rows)
  obtain b sym' side q where x: "x = ((b, sym', side), q)" by (cases x) auto
  have new: "(sym', side) \<notin> set (map riskKey (riskPositionsOf m rows b))"
  proof
    assume "(sym', side) \<in> set (map riskKey (riskPositionsOf m rows b))"
    then obtain p where p: "p \<in> set (riskPositionsOf m rows b)" "riskKey p = (sym', side)" by auto
    from risk_position_row [OF p(1)] p(2) obtain q' where "((b, sym', side), q') \<in> set rows" by metis
    then have "(b, sym', side) \<in> set (map fst rows)" by force
    then show False using Cons.prems x by simp
  qed
  have "fd_symbol def' = sym'" if "futureDef sym' = Some def'" for def'
    using that by (auto simp: futureDef_def find_Some_iff)
  then obtain front where "riskPositionsOf m (x # rows) a = front @ riskPositionsOf m rows a"
    "front = [] \<or> b = a \<and> (\<exists>p. front = [p] \<and> riskKey p = (sym', side))"
    by (cases "b = a"; cases "futureDef sym'")
      (fastforce simp: riskPositionsOf_def x List.map_filter_def Let_def riskKey_def split: if_splits)+
  then show ?case using Cons.IH Cons.prems new by (auto simp: image_iff)
qed

section \<open>One account\<close>

definition openCalls :: "db \<Rightarrow> string \<Rightarrow> (string \<times> margin_call_row) list" where
  "openCalls d a = filter (\<lambda>(i, c). mc_accountId c = a \<and> mc_resolvedAt c = None) (db_marginCalls d)"

text \<open>What the policy leaves open for an account.\<close>

definition expectedCalls :: "int \<Rightarrow> risk_position list \<Rightarrow> int \<Rightarrow> int \<Rightarrow> margin_call_row option \<Rightarrow> string \<Rightarrow> margin_call_row list" where
  "expectedCalls now ps balance debt call a =
     (let risk = assessFuturesRisk ps balance debt in
      if ps = [] \<or> ra_emergency risk \<noteq> [] then []
      else case call of
        Some c \<Rightarrow> if ra_shortfall risk = 0 \<or> mc_deadline c \<le> now then [] else [c]
      | None \<Rightarrow> if ra_belowMaintenance risk then [newCall a (ra_shortfall risk) now None] else [])"

text \<open>What earns an account a liquidation, and of which targets.\<close>

definition earned :: "int \<Rightarrow> risk_position list \<Rightarrow> int \<Rightarrow> int \<Rightarrow> margin_call_row option \<Rightarrow> target list \<Rightarrow> bool" where
  "earned now ps balance debt call targets \<longleftrightarrow>
     (let risk = assessFuturesRisk ps balance debt in
      ra_emergency risk \<noteq> [] \<and> targets = emergencyTargets ps (ra_emergency risk) \<or>
      ra_emergency risk = [] \<and> (\<exists>c. call = Some c \<and> mc_deadline c \<le> now \<and> ra_shortfall risk \<noteq> 0 \<and>
         targets = deadlineTargets ps (ra_shortfall risk) (ra_initial risk)))"

lemma closeCall_run:
  "closeCall i outcome now s = (r, s') \<Longrightarrow>
     r = Inr () \<and> ordered (ap_db s) (ap_db s') [] \<and> map fst (db_marginCalls (ap_db s')) = map fst (db_marginCalls (ap_db s)) \<and>
     openCalls (ap_db s') b = filter (\<lambda>(j, c). j \<noteq> i) (openCalls (ap_db s) b)"
proof -
  assume "closeCall i outcome now s = (r, s')"
  then have s': "r = Inr ()" "s' = s\<lparr>ap_db := (ap_db s)\<lparr>db_marginCalls := map (\<lambda>(j, c).
     (j, if j = i \<and> mc_resolvedAt c = None then c\<lparr>mc_resolvedAt := Some now, mc_outcome := Some outcome\<rparr> else c))
     (db_marginCalls (ap_db s))\<rparr>\<rparr>"
    by (simp_all add: closeCall_def)
  have "filter (\<lambda>(i, c). mc_accountId c = b \<and> mc_resolvedAt c = None) (map (\<lambda>(j, c).
     (j, if j = i \<and> mc_resolvedAt c = None then c\<lparr>mc_resolvedAt := Some now, mc_outcome := Some outcome\<rparr> else c)) t) =
     filter (\<lambda>(j, c). j \<noteq> i) (filter (\<lambda>(i, c). mc_accountId c = b \<and> mc_resolvedAt c = None) t)" for t
    by (induction t) (auto split: if_splits)
  then show ?thesis by (simp add: s' openCalls_def comp_def case_prod_beta)
qed

lemma openCall_run:
  assumes "openCall a required now outcome s = (r, s')"
  shows "ordered (ap_db s) (ap_db s') [] \<and> (uniqueKeys (db_marginCalls (ap_db s)) \<longrightarrow> uniqueKeys (db_marginCalls (ap_db s'))) \<and>
    (\<forall>b. openCalls (ap_db s') b = openCalls (ap_db s) b \<or>
       outcome = None \<and> b = a \<and> (\<exists>i. openCalls (ap_db s') b = openCalls (ap_db s) b @ [(i, newCall a required now None)])) \<and>
    (isInr r \<and> outcome = None \<longrightarrow> (\<exists>i. openCalls (ap_db s') a = openCalls (ap_db s) a @ [(i, newCall a required now None)]))"
proof -
  let ?i = "ap_ids s (ap_next s)"
  let ?s = "s\<lparr>ap_next := Suc (ap_next s)\<rparr>"
  let ?tx = "\<lambda>d. bindE (createMarginCall ?i (newCall a required now outcome) d) (\<lambda>d. Inr (?i, d))"
  have "txS ?tx ?s = (r, s')" using assms by (simp add: openCall_def)
  then show ?thesis
  proof (cases rule: txS_cases)
    case (rolled_back e)
    then show ?thesis by simp
  next
    case (committed x d)
    from committed(1) have new: "findRow (db_marginCalls (ap_db s)) ?i = None"
      and d: "d = (ap_db s)\<lparr>db_marginCalls := db_marginCalls (ap_db s) @ [(?i, newCall a required now outcome)]\<rparr>"
      by (auto simp: bindE_eq_Inr_iff createMarginCall_def split: if_splits)
    have "uniqueKeys (db_marginCalls (ap_db s)) \<longrightarrow> uniqueKeys (db_marginCalls d)"
      using new by (auto simp: d uniqueKeys_def findRow_def map_of_eq_None_iff)
    then show ?thesis
      using committed(3) by (auto simp: d openCalls_def newCall_def isInr_def split: option.splits)
  qed
qed

text \<open>The step of one account: its orders and its call; the calls of the others stay.\<close>

definition accountRan :: "string \<Rightarrow> margin_call_row list \<Rightarrow> (target list \<Rightarrow> bool) \<Rightarrow> bool \<Rightarrow> db \<Rightarrow> db \<Rightarrow> bool" where
  "accountRan a calls due ok d d' \<longleftrightarrow>
     (\<exists>new. ordered d d' new \<and>
        (new = [] \<or> (\<exists>n targets. due targets \<and> map snd new = map (liquidationOrder n a) (filter (\<lambda>t. tg_qty t \<noteq> 0) targets)))) \<and>
     uniqueKeys (db_marginCalls d') \<and> length (openCalls d' a) \<le> 1 \<and> (\<forall>b. b \<noteq> a \<longrightarrow> openCalls d' b = openCalls d b) \<and>
     (ok \<longrightarrow> map snd (openCalls d' a) = calls)"

lemma accountRanI:
  assumes "ordered d d' new" "new = [] \<or> (\<exists>n targets. due targets \<and> map snd new = map (liquidationOrder n a) (filter (\<lambda>t. tg_qty t \<noteq> 0) targets))"
    and "uniqueKeys (db_marginCalls d')" "length (openCalls d' a) \<le> 1" "\<forall>b. b \<noteq> a \<longrightarrow> openCalls d' b = openCalls d b"
    and "ok \<Longrightarrow> map snd (openCalls d' a) = calls"
  shows "accountRan a calls due ok d d'"
  using assms unfolding accountRan_def by blast

lemma openCalls_marginCalls: "db_marginCalls d' = db_marginCalls d \<Longrightarrow> openCalls d' = openCalls d"
  by (simp add: openCalls_def fun_eq_iff)

text \<open>Closing the open call of an account leaves the others' alone, ids being unique.\<close>

lemma close_own_call:
  assumes "closeCall i outcome now s = (r, s')" "uniqueKeys (db_marginCalls (ap_db s))" "openCalls (ap_db s) a = [(i, c)]"
  shows "r = Inr () \<and> ordered (ap_db s) (ap_db s') [] \<and> uniqueKeys (db_marginCalls (ap_db s')) \<and> openCalls (ap_db s') a = [] \<and>
    (\<forall>b. b \<noteq> a \<longrightarrow> openCalls (ap_db s') b = openCalls (ap_db s) b)"
proof -
  note run = closeCall_run [OF assms(1)]
  have mine: "(i, c) \<in> set (db_marginCalls (ap_db s))" "mc_accountId c = a"
  proof -
    have "(i, c) \<in> set (openCalls (ap_db s) a)" using assms(3) by simp
    then show "(i, c) \<in> set (db_marginCalls (ap_db s))" "mc_accountId c = a" by (auto simp: openCalls_def)
  qed
  have "openCalls (ap_db s') b = openCalls (ap_db s) b" if "b \<noteq> a" for b
  proof -
    have "j \<noteq> i" if "(j, c') \<in> set (openCalls (ap_db s) b)" for j c'
    proof
      assume "j = i"
      then have "(i, c') \<in> set (db_marginCalls (ap_db s))" "mc_accountId c' = b" using that by (auto simp: openCalls_def)
      moreover have "c' = c" using calculation(1) mine(1) assms(2) by (metis eq_key_imp_eq_value uniqueKeys_def)
      ultimately show False using mine(2) \<open>b \<noteq> a\<close> by simp
    qed
    then have "filter (\<lambda>(j, c). j \<noteq> i) (openCalls (ap_db s) b) = openCalls (ap_db s) b"
      by (auto simp: filter_id_conv)
    then show ?thesis using run by simp
  qed
  moreover have "uniqueKeys (db_marginCalls (ap_db s'))" using run assms(2) by (simp add: uniqueKeys_def)
  moreover have "openCalls (ap_db s') a = []" using run [of a] assms(3) by simp
  ultimately show ?thesis using run by blast
qed

lemma open_own_call:
  assumes "openCall a required now outcome s = (r, s')" "uniqueKeys (db_marginCalls (ap_db s))" "openCalls (ap_db s) a = []"
  shows "ordered (ap_db s) (ap_db s') [] \<and> uniqueKeys (db_marginCalls (ap_db s')) \<and> length (openCalls (ap_db s') a) \<le> 1 \<and>
    (\<forall>b. b \<noteq> a \<longrightarrow> openCalls (ap_db s') b = openCalls (ap_db s) b) \<and>
    (outcome \<noteq> None \<longrightarrow> openCalls (ap_db s') a = []) \<and>
    (isInr r \<and> outcome = None \<longrightarrow> map snd (openCalls (ap_db s') a) = [newCall a required now None])"
proof -
  note run = openCall_run [OF assms(1)]
  have "length (openCalls (ap_db s') a) \<le> 1" using run assms(3) by (metis append_Nil le_numeral_extra(4) length_0_conv
        length_Cons list.size(3) One_nat_def less_imp_le_nat less_one)
  moreover have "\<forall>b. b \<noteq> a \<longrightarrow> openCalls (ap_db s') b = openCalls (ap_db s) b" using run by blast
  moreover have "outcome \<noteq> None \<longrightarrow> openCalls (ap_db s') a = []" using run assms(3) by metis
  moreover have "isInr r \<and> outcome = None \<longrightarrow> map snd (openCalls (ap_db s') a) = [newCall a required now None]"
    using run assms(3) by auto
  ultimately show ?thesis using run assms(2) by blast
qed

lemma liquidate_ran:
  assumes "liquidate a targets reason i s1 = (r, s')" "due targets"
    and "ordered d (ap_db s1) []" "uniqueKeys (db_marginCalls (ap_db s1))" "openCalls (ap_db s1) a = []"
      "\<forall>b. b \<noteq> a \<longrightarrow> openCalls (ap_db s1) b = openCalls d b"
  shows "accountRan a [] due ok d (ap_db s')"
proof -
  from liquidate_run [OF assms(1)] obtain new n where l: "ordered (ap_db s1) (ap_db s') new"
    "db_marginCalls (ap_db s') = db_marginCalls (ap_db s1)"
    "new = [] \<or> map snd new = map (liquidationOrder n a) (filter (\<lambda>t. tg_qty t \<noteq> 0) targets)" by blast
  have "ordered d (ap_db s') new" using ordered_trans [OF assms(3) l(1)] by simp
  then show ?thesis
    using assms(2,4-6) l(2,3) openCalls_marginCalls [OF l(2)] by (intro accountRanI [where new = new]) auto
qed

text \<open>The branches of the decision.\<close>

lemma returnS_bind: "bindS (returnS x) f = f x"
  by (simp add: fun_eq_iff)

lemma watch_close:
  assumes "bindS (closeCall i outcome now) (\<lambda>_. returnS x) s = (r, s')" "uniqueKeys (db_marginCalls (ap_db s))"
    and "openCalls (ap_db s) a = [(i, c)]"
  shows "accountRan a [] due ok (ap_db s) (ap_db s')"
proof -
  obtain r1 s1 where c1: "closeCall i outcome now s = (r1, s1)" by (cases "closeCall i outcome now s")
  have "s' = s1" using assms(1) c1 by (simp add: bindS_def split: sum.splits)
  then show ?thesis using close_own_call [OF c1 assms(2,3)] by (intro accountRanI [where new = "[]"]) auto
qed

lemma watch_close_liquidate:
  assumes "bindS (closeCall i outcome now) (\<lambda>_. bindS (liquidate a targets reason i) (\<lambda>n. returnS (x n))) s = (r, s')"
    and "uniqueKeys (db_marginCalls (ap_db s))" "openCalls (ap_db s) a = [(i, c)]" "due targets"
  shows "accountRan a [] due ok (ap_db s) (ap_db s')"
proof -
  obtain r1 s1 where c1: "closeCall i outcome now s = (r1, s1)" by (cases "closeCall i outcome now s")
  note s1 = close_own_call [OF c1 assms(2,3)]
  obtain r2 s2 where l: "liquidate a targets reason i s1 = (r2, s2)" by (cases "liquidate a targets reason i s1")
  have "s' = s2" using assms(1) c1 s1 l by (cases r2) (simp_all add: bindS_def)
  then show ?thesis using liquidate_ran [where due = due, OF l assms(4)] s1 by auto
qed

lemma watch_open_liquidate:
  assumes "bindS (openCall a required now (Some outcome)) (\<lambda>i. bindS (liquidate a targets reason i) (\<lambda>n. returnS (x n))) s = (r, s')"
    and "uniqueKeys (db_marginCalls (ap_db s))" "openCalls (ap_db s) a = []" "due targets"
  shows "accountRan a [] due ok (ap_db s) (ap_db s')"
proof -
  obtain r1 s1 where o1: "openCall a required now (Some outcome) s = (r1, s1)" by (cases "openCall a required now (Some outcome) s")
  note s1 = open_own_call [OF o1 assms(2,3)]
  show ?thesis
  proof (cases r1)
    case (Inl e)
    then have "s' = s1" using assms(1) o1 by (simp add: bindS_def)
    then show ?thesis using s1 by (intro accountRanI [where new = "[]"]) auto
  next
    case (Inr i)
    obtain r2 s2 where l: "liquidate a targets reason i s1 = (r2, s2)" by (cases "liquidate a targets reason i s1")
    have "s' = s2" using assms(1) o1 Inr l by (cases r2) (simp_all add: bindS_def)
    then show ?thesis using liquidate_ran [where due = due, OF l assms(4)] s1 by auto
  qed
qed

lemma watch_open:
  assumes "bindS (openCall a required now None) (\<lambda>_. returnS x) s = (r, s')"
    and "uniqueKeys (db_marginCalls (ap_db s))" "openCalls (ap_db s) a = []"
  shows "accountRan a [newCall a required now None] due (isInr r) (ap_db s) (ap_db s')"
proof -
  obtain r1 s1 where o1: "openCall a required now None s = (r1, s1)" by (cases "openCall a required now None s")
  have "s' = s1 \<and> (isInr r \<longrightarrow> isInr r1)" using assms(1) o1 by (cases r1) (auto simp: bindS_def)
  then show ?thesis using open_own_call [OF o1 assms(2,3)] by (intro accountRanI [where new = "[]"]) auto
qed

lemma watch_stay:
  assumes "uniqueKeys (db_marginCalls d)" "length (openCalls d a) \<le> 1" "map snd (openCalls d a) = calls"
  shows "accountRan a calls due ok d d"
  using assms by (intro accountRanI [where new = "[]"]) simp_all

lemma watchAccount_run:
  assumes "watchAccount now ps balance debt call a r0 s = (r, s')" "uniqueKeys (db_marginCalls (ap_db s))"
    and "openCalls (ap_db s) a = (case call of None \<Rightarrow> [] | Some x \<Rightarrow> [x])"
  shows "accountRan a (expectedCalls now ps balance debt (map_option snd call) a)
    (earned now ps balance debt (map_option snd call)) (isInr r) (ap_db s) (ap_db s')"
    (is "accountRan a ?calls ?due _ _ _")
proof -
  define risk where "risk = assessFuturesRisk ps balance debt"
  note run = assms(1) [unfolded watchAccount_def Let_def, folded risk_def]
  have one: "length (openCalls (ap_db s) a) \<le> 1" using assms(3) by (simp split: option.split)
  have due: "?due (emergencyTargets ps (ra_emergency risk))" if "ra_emergency risk \<noteq> []"
    using that by (simp add: earned_def risk_def Let_def)
  have calls: "?calls = (if ps = [] \<or> ra_emergency risk \<noteq> [] then []
      else case call of
        Some (i, c) \<Rightarrow> if ra_shortfall risk = 0 \<or> mc_deadline c \<le> now then [] else [c]
      | None \<Rightarrow> if ra_belowMaintenance risk then [newCall a (ra_shortfall risk) now None] else [])"
    by (simp add: expectedCalls_def risk_def Let_def split: option.split)
  have stay: ?thesis if "s' = s" "?calls = map snd (openCalls (ap_db s) a)"
    unfolding that(1) by (rule watch_stay [OF assms(2) one that(2) [symmetric]])
  show ?thesis
  proof (cases call)
    case None
    then have none: "openCalls (ap_db s) a = []" using assms(3) by simp
    consider (flat) "ps = []" | (emergency) "ps \<noteq> []" "ra_emergency risk \<noteq> []"
      | (below) "ps \<noteq> []" "ra_emergency risk = []" "ra_belowMaintenance risk"
      | (fine) "ps \<noteq> []" "ra_emergency risk = []" "\<not> ra_belowMaintenance risk" by blast
    then show ?thesis
    proof cases
      case flat
      then show ?thesis using run calls None none by (intro stay) simp_all
    next
      case emergency
      with run None have e: "bindS (openCall a (ra_shortfall risk) now (Some ''EMERGENCY'')) (\<lambda>i.
          bindS (liquidate a (emergencyTargets ps (ra_emergency risk)) EMERGENCY i) (\<lambda>n. returnS (r0\<lparr>rk_liquidations := rk_liquidations r0 + n\<rparr>))) s = (r, s')"
        by (simp add: returnS_bind)
      show ?thesis using watch_open_liquidate [where due = "?due", OF e assms(2) none due [OF emergency(2)]] calls emergency by simp
    next
      case below
      then show ?thesis using run calls None watch_open [OF _ assms(2) none] by simp
    next
      case fine
      then show ?thesis using run calls None none by (intro stay) simp_all
    qed
  next
    case (Some x)
    obtain i c where x: "call = Some (i, c)" using Some by (cases x) auto
    have own: "openCalls (ap_db s) a = [(i, c)]" using assms(3) x by simp
    consider (flat) "ps = []" | (emergency) "ps \<noteq> []" "ra_emergency risk \<noteq> []"
      | (resolved) "ps \<noteq> []" "ra_emergency risk = []" "ra_shortfall risk = 0"
      | (late) "ps \<noteq> []" "ra_emergency risk = []" "ra_shortfall risk \<noteq> 0" "mc_deadline c \<le> now"
      | (waits) "ps \<noteq> []" "ra_emergency risk = []" "ra_shortfall risk \<noteq> 0" "\<not> mc_deadline c \<le> now" by blast
    then show ?thesis
    proof cases
      case flat
      then show ?thesis using run calls x watch_close [OF _ assms(2) own] by simp
    next
      case emergency
      with run x have e: "bindS (closeCall i ''EMERGENCY'' now) (\<lambda>_.
          bindS (liquidate a (emergencyTargets ps (ra_emergency risk)) EMERGENCY i) (\<lambda>n. returnS (r0\<lparr>rk_liquidations := rk_liquidations r0 + n\<rparr>))) s = (r, s')"
        by simp
      show ?thesis using watch_close_liquidate [where due = "?due", OF e assms(2) own due [OF emergency(2)]] calls emergency by simp
    next
      case resolved
      then show ?thesis using run calls x watch_close [OF _ assms(2) own] by simp
    next
      case late
      with run x have e: "bindS (closeCall i ''LIQUIDATED'' now) (\<lambda>_.
          bindS (liquidate a (deadlineTargets ps (ra_shortfall risk) (ra_initial risk)) DEADLINE i) (\<lambda>n. returnS (r0\<lparr>rk_liquidations := rk_liquidations r0 + n\<rparr>))) s = (r, s')"
        by simp
      have "?due (deadlineTargets ps (ra_shortfall risk) (ra_initial risk))"
        using late x by (simp add: earned_def risk_def Let_def)
      then show ?thesis using watch_close_liquidate [where due = "?due", OF e assms(2) own] calls late x by simp
    next
      case waits
      then show ?thesis using run calls x own by (intro stay) simp_all
    qed
  qed
qed

section \<open>A tick\<close>

definition risksOf :: "(string \<Rightarrow> int option) \<Rightarrow> db \<Rightarrow> string \<Rightarrow> risk_position list" where
  "risksOf m d a = riskPositionsOf m (filter (\<lambda>(k, p). po_qty p \<noteq> 0) (db_positions d)) a"

definition riskOf :: "(string \<Rightarrow> int option) \<Rightarrow> db \<Rightarrow> string \<Rightarrow> risk_assessment" where
  "riskOf m d a = assessFuturesRisk (risksOf m d a) (balanceOf d a) (debtOf d a)"

text \<open>
  An account earns a liquidation when no earlier one is under way and a position lost most of its margin,
  or the deadline of its margin call passed with money still missing.
\<close>

definition liquidationEarned :: "(string \<Rightarrow> int option) \<Rightarrow> int \<Rightarrow> db \<Rightarrow> string \<Rightarrow> bool" where
  "liquidationEarned m now d a \<longleftrightarrow> a \<notin> set (pendingLiquidationAccounts d) \<and>
     (ra_emergency (riskOf m d a) \<noteq> [] \<or>
      (\<exists>i c. callOf d a = Some (i, c) \<and> mc_deadline c \<le> now \<and> ra_shortfall (riskOf m d a) \<noteq> 0))"

text \<open>The calls an account has after a tick.\<close>

definition callsAfter :: "(string \<Rightarrow> int option) \<Rightarrow> int \<Rightarrow> db \<Rightarrow> string \<Rightarrow> margin_call_row list" where
  "callsAfter m now d a =
     (if a \<notin> set (watchedAccounts d) \<or> a \<in> set (pendingLiquidationAccounts d) then map snd (openCalls d a)
      else expectedCalls now (risksOf m d a) (balanceOf d a) (debtOf d a) (map_option snd (callOf d a)) a)"

definition rowKeyOf :: "order_row \<Rightarrow> position_key" where
  "rowKeyOf o' = (or_accountId o', or_symbol o', rowSideOf (or_positionSide o'))"

text \<open>A liquidation order closes a part of one open position, ties up nothing, and was earned.\<close>

definition liquidates :: "(string \<Rightarrow> int option) \<Rightarrow> int \<Rightarrow> db \<Rightarrow> order_row \<Rightarrow> bool" where
  "liquidates m now d o' \<longleftrightarrow>
     (\<exists>p. findRow (db_positions d) (rowKeyOf o') = Some p \<and> or_side o' = (if po_qty p > 0 then SELL else BUY) \<and>
        0 < or_qty o' \<and> or_qty o' \<le> \<bar>po_qty p\<bar>) \<and>
     or_type o' = MARKET \<and> or_holdPerUnit o' = 0 \<and> or_filledQty o' = 0 \<and> or_status o' = OPEN \<and>
     liquidationEarned m now d (or_accountId o')"

lemma rowSide_positionSide [simp]: "rowSideOf (positionSideOf s) = s"
  by (cases s) (simp_all add: positionSideOf_def rowSideOf_def)

lemma callOf_openCalls:
  assumes "length (openCalls d a) \<le> 1"
  shows "openCalls d a = (case callOf d a of None \<Rightarrow> [] | Some x \<Rightarrow> [x])"
proof -
  have eq: "openCalls d a = filter (\<lambda>(i, c). mc_accountId c = a) (activeCalls d)"
    by (auto simp: openCalls_def activeCalls_def intro: filter_cong)
  show ?thesis
  proof (cases "callOf d a")
    case None
    then have "openCalls d a = []" unfolding eq by (auto simp: callOf_def find_None_iff filter_empty_conv)
    then show ?thesis using None by simp
  next
    case (Some x)
    have hit: "find P xs = Some x \<Longrightarrow> x \<in> set xs \<and> P x" for P :: "string \<times> margin_call_row \<Rightarrow> bool" and xs
      by (induction xs) (auto split: if_splits)
    from Some have "x \<in> set (openCalls d a)" unfolding eq callOf_def by (auto dest!: hit)
    then show ?thesis using assms Some by (cases "openCalls d a") auto
  qed
qed

lemma earned_orders:
  assumes "earned now (risksOf m d a) (balanceOf d a) (debtOf d a) (map_option snd (callOf d a)) targets"
    and "a \<notin> set (pendingLiquidationAccounts d)" "uniqueKeys (db_positions d)"
    and "map snd new = map (liquidationOrder n a) (filter (\<lambda>t. tg_qty t \<noteq> 0) targets)"
  shows "distinct (map (rowKeyOf \<circ> snd) new) \<and> (\<forall>o' \<in> snd ` set new. or_accountId o' = a \<and> liquidates m now d o')"
proof -
  let ?rows = "filter (\<lambda>(k, p). po_qty p \<noteq> 0) (db_positions d)"
  have keys: "distinct (map riskKey (risksOf m d a))"
    unfolding risksOf_def using assms(3) by (intro risk_position_keys distinct_map_filter) (simp add: uniqueKeys_def)
  have tk: "distinct (map targetKey targets)" and red: "\<And>t. t \<in> set targets \<Longrightarrow> tg_qty t \<noteq> 0 \<Longrightarrow> reduces (risksOf m d a) t"
    using assms(1) target_keys [OF keys] emergency_reduces deadline_reduces unfolding earned_def Let_def by blast+
  have due: "liquidationEarned m now d a"
    using assms(1,2) unfolding earned_def Let_def liquidationEarned_def riskOf_def by auto
  have key: "rowKeyOf (liquidationOrder n a t) = (a, targetKey t)" for t
    by (simp add: rowKeyOf_def liquidationOrder_def targetKey_def)
  have "map (rowKeyOf \<circ> snd) new = map (\<lambda>t. (a, targetKey t)) (filter (\<lambda>t. tg_qty t \<noteq> 0) targets)"
    using arg_cong [OF assms(4), of "map rowKeyOf"] by (simp add: comp_def key)
  moreover have "distinct (map (\<lambda>t. (a, targetKey t)) (filter (\<lambda>t. tg_qty t \<noteq> 0) targets))"
    using distinct_map_filter [OF tk, of "\<lambda>t. tg_qty t \<noteq> 0"] by (simp add: distinct_map inj_on_def)
  moreover have "or_accountId o' = a \<and> liquidates m now d o'" if "o' \<in> snd ` set new" for o'
  proof -
    have "o' \<in> set (map snd new)" using that by simp
    then obtain t where t: "o' = liquidationOrder n a t" "t \<in> set targets" "tg_qty t \<noteq> 0" unfolding assms(4) by auto
    from red [OF t(2,3)] obtain p where p: "p \<in> set (risksOf m d a)" "targetKey t = riskKey p"
      "tg_qty t > 0 \<longleftrightarrow> rp_qty p > 0" "0 < \<bar>tg_qty t\<bar>" "\<bar>tg_qty t\<bar> \<le> \<bar>rp_qty p\<bar>" unfolding reduces_def by blast
    obtain q where q: "((a, riskKey p), q) \<in> set ?rows" "rp_qty p = po_qty q"
      using risk_position_row [OF p(1) [unfolded risksOf_def]] by blast
    then have "findRow (db_positions d) (rowKeyOf o') = Some q"
      using assms(3) p(2) by (simp add: findRow_unique t(1) key)
    then show ?thesis
      unfolding liquidates_def using due p q by (auto simp: t(1) liquidationOrder_def liquidationSide_def)
  qed
  ultimately show ?thesis by simp
qed

text \<open>One account after another.\<close>

lemma watchStep_run:
  assumes "watchStep m now d a r0 s = (r, s')" "uniqueKeys (db_positions d)" "a \<in> set (watchedAccounts d)"
    and "uniqueKeys (db_marginCalls (ap_db s))" "openCalls (ap_db s) a = openCalls d a" "length (openCalls d a) \<le> 1"
  shows "\<exists>new. ordered (ap_db s) (ap_db s') new \<and> distinct (map (rowKeyOf \<circ> snd) new) \<and>
    (\<forall>o' \<in> snd ` set new. or_accountId o' = a \<and> liquidates m now d o') \<and>
    uniqueKeys (db_marginCalls (ap_db s')) \<and> length (openCalls (ap_db s') a) \<le> 1 \<and>
    (\<forall>b. b \<noteq> a \<longrightarrow> openCalls (ap_db s') b = openCalls (ap_db s) b) \<and>
    (isInr r \<longrightarrow> map snd (openCalls (ap_db s') a) = callsAfter m now d a)"
proof (cases "a \<in> set (pendingLiquidationAccounts d)")
  case True
  then have "s' = s" using assms(1) by (simp add: watchStep_def Let_def)
  then show ?thesis using True assms(4-6) by (intro exI [of _ "[]"]) (simp add: callsAfter_def)
next
  case False
  have "watchAccount now (risksOf m d a) (balanceOf d a) (debtOf d a) (callOf d a) a (r0\<lparr>rk_accounts := rk_accounts r0 + 1\<rparr>) s = (r, s')"
    using assms(1) False by (simp add: watchStep_def Let_def risksOf_def balanceOf_def cong: option.case_cong)
  from watchAccount_run [OF this assms(4)] have ran: "accountRan a (callsAfter m now d a)
      (earned now (risksOf m d a) (balanceOf d a) (debtOf d a) (map_option snd (callOf d a))) (isInr r) (ap_db s) (ap_db s')"
    using assms(3,5) callOf_openCalls [OF assms(6)] False by (simp add: callsAfter_def)
  then obtain new where o': "ordered (ap_db s) (ap_db s') new" and new: "new = [] \<or> (\<exists>n targets.
      earned now (risksOf m d a) (balanceOf d a) (debtOf d a) (map_option snd (callOf d a)) targets \<and>
      map snd new = map (liquidationOrder n a) (filter (\<lambda>t. tg_qty t \<noteq> 0) targets))"
    unfolding accountRan_def by blast
  have "distinct (map (rowKeyOf \<circ> snd) new) \<and> (\<forall>o' \<in> snd ` set new. or_accountId o' = a \<and> liquidates m now d o')"
  proof (cases "new = []")
    case False
    then obtain n targets where "earned now (risksOf m d a) (balanceOf d a) (debtOf d a) (map_option snd (callOf d a)) targets"
      "map snd new = map (liquidationOrder n a) (filter (\<lambda>t. tg_qty t \<noteq> 0) targets)" using new by blast
    then show ?thesis by (intro earned_orders [OF _ \<open>a \<notin> set (pendingLiquidationAccounts d)\<close> assms(2)])
  qed simp
  then show ?thesis using o' ran unfolding accountRan_def by blast
qed

lemma watch_loop:
  assumes "eachS (watchStep m now d) as r0 s = (r, s')" "uniqueKeys (db_positions d)" "distinct as" "set as \<subseteq> set (watchedAccounts d)"
    and "uniqueKeys (db_marginCalls (ap_db s))" "\<forall>a \<in> set as. openCalls (ap_db s) a = openCalls d a"
    and "\<forall>a. length (openCalls (ap_db s) a) \<le> 1" "\<forall>a. length (openCalls d a) \<le> 1"
  shows "\<exists>new. ordered (ap_db s) (ap_db s') new \<and> distinct (map (rowKeyOf \<circ> snd) new) \<and>
    (\<forall>o' \<in> snd ` set new. or_accountId o' \<in> set as \<and> liquidates m now d o') \<and>
    uniqueKeys (db_marginCalls (ap_db s')) \<and> (\<forall>a. length (openCalls (ap_db s') a) \<le> 1) \<and>
    (\<forall>b. b \<notin> set as \<longrightarrow> openCalls (ap_db s') b = openCalls (ap_db s) b) \<and>
    (isInr r \<longrightarrow> (\<forall>a \<in> set as. map snd (openCalls (ap_db s') a) = callsAfter m now d a))"
  using assms
proof (induction as arbitrary: r0 s)
  case Nil
  then show ?case by (intro exI [of _ "[]"]) auto
next
  case (Cons a as)
  obtain r1 s1 where s1: "watchStep m now d a r0 s = (r1, s1)" by (cases "watchStep m now d a r0 s")
  have a: "a \<in> set (watchedAccounts d)" "openCalls (ap_db s) a = openCalls d a" "length (openCalls d a) \<le> 1" "a \<notin> set as"
    using Cons.prems by auto
  from watchStep_run [OF s1 Cons.prems(2) a(1) Cons.prems(5) a(2,3)] obtain new where
    one: "ordered (ap_db s) (ap_db s1) new" "distinct (map (rowKeyOf \<circ> snd) new)"
      "\<forall>o' \<in> snd ` set new. or_accountId o' = a \<and> liquidates m now d o'"
      "uniqueKeys (db_marginCalls (ap_db s1))" "length (openCalls (ap_db s1) a) \<le> 1"
      "\<forall>b. b \<noteq> a \<longrightarrow> openCalls (ap_db s1) b = openCalls (ap_db s) b"
      "isInr r1 \<longrightarrow> map snd (openCalls (ap_db s1) a) = callsAfter m now d a" by blast
  have len: "\<forall>b. length (openCalls (ap_db s1) b) \<le> 1" using one(5,6) Cons.prems(7) by metis
  show ?case
  proof (cases r1)
    case (Inl e)
    then have r: "r = Inl e" "s' = s1" using Cons.prems(1) s1 by (simp_all add: bindS_def)
    have "\<forall>b. b \<notin> set (a # as) \<longrightarrow> openCalls (ap_db s1) b = openCalls (ap_db s) b" using one(6) by simp
    moreover have "\<forall>o' \<in> snd ` set new. or_accountId o' \<in> set (a # as) \<and> liquidates m now d o'" using one(3) by simp
    moreover have "\<not> isInr r" using r by simp
    ultimately show ?thesis using one(1,2,4) len unfolding r(2) by blast
  next
    case (Inr r0')
    have loop: "eachS (watchStep m now d) as r0' s1 = (r, s')" using Cons.prems(1) s1 Inr by (simp add: bindS_def)
    have same: "\<forall>b \<in> set as. openCalls (ap_db s1) b = openCalls d b" using Cons.prems(6) one(6) a(4) by auto
    have sub: "distinct as" "set as \<subseteq> set (watchedAccounts d)" using Cons.prems(3,4) by auto
    from Cons.IH [OF loop Cons.prems(2) sub one(4) same len Cons.prems(8)] obtain new' where
      rest: "ordered (ap_db s1) (ap_db s') new'" "distinct (map (rowKeyOf \<circ> snd) new')"
        "\<forall>o' \<in> snd ` set new'. or_accountId o' \<in> set as \<and> liquidates m now d o'"
        "uniqueKeys (db_marginCalls (ap_db s'))" "\<forall>a. length (openCalls (ap_db s') a) \<le> 1"
        "\<forall>b. b \<notin> set as \<longrightarrow> openCalls (ap_db s') b = openCalls (ap_db s1) b"
        "isInr r \<longrightarrow> (\<forall>a \<in> set as. map snd (openCalls (ap_db s') a) = callsAfter m now d a)" by blast
    have "(rowKeyOf \<circ> snd) ` set new \<inter> (rowKeyOf \<circ> snd) ` set new' = {}"
    proof (rule equals0I, elim IntE imageE)
      fix k x y assume "k = (rowKeyOf \<circ> snd) x" "x \<in> set new" "k = (rowKeyOf \<circ> snd) y" "y \<in> set new'"
      moreover have "or_accountId (snd x) = a" using one(3) calculation(2) by simp
      moreover have "or_accountId (snd y) \<in> set as" using rest(3) calculation(4) by simp
      ultimately show False using a(4) by (simp add: rowKeyOf_def)
    qed
    then have "distinct (map (rowKeyOf \<circ> snd) (new @ new'))" using one(2) rest(2) by simp
    moreover have "\<forall>o' \<in> snd ` set (new @ new'). or_accountId o' \<in> set (a # as) \<and> liquidates m now d o'"
      using one(3) rest(3) by auto
    moreover have "isInr r \<longrightarrow> (\<forall>b \<in> set (a # as). map snd (openCalls (ap_db s') b) = callsAfter m now d b)"
      using rest(6,7) one(7) a(4) Inr by simp
    moreover have "\<forall>b. b \<notin> set (a # as) \<longrightarrow> openCalls (ap_db s') b = openCalls (ap_db s) b"
      using rest(6) one(6) by simp
    ultimately show ?thesis using ordered_trans [OF one(1) rest(1)] rest(4,5) by blast
  qed
qed

text \<open>
  C25. A tick of the risk watch, however it ends, touches no money and no position. The orders it adds close
  positions: each a market order without a hold against one open position, not larger than it, at most
  one per position, only for an account that earned it and has no earlier liquidation under way; and
  none during the daily pause.
\<close>

theorem liquidations_only_reduce:
  assumes "tickRisk latest now s = (r, s')" "uniqueKeys (db_positions (ap_db s))" "uniqueKeys (db_marginCalls (ap_db s))"
    and "\<forall>a. length (openCalls (ap_db s) a) \<le> 1"
  shows "\<exists>new. db_orders (ap_db s') = db_orders (ap_db s) @ new \<and> watchFrame (ap_db s) (ap_db s') \<and>
    distinct (map (rowKeyOf \<circ> snd) new) \<and> (\<forall>o' \<in> snd ` set new. liquidates (marks latest now (ap_db s)) now (ap_db s) o') \<and>
    (pw_active (maintenanceWindow (ap_manual s) now) \<longrightarrow> new = [])"
proof (cases "pw_active (maintenanceWindow (ap_manual s) now)")
  case True
  then have "s' = s" using assms(1) by (simp add: tickRisk_def Let_def)
  then show ?thesis by (intro exI [of _ "[]"]) simp
next
  case False
  then have "eachS (watchStep (marks latest now (ap_db s)) now (ap_db s)) (watchedAccounts (ap_db s))
      \<lparr>rk_accounts = 0, rk_calls = 0, rk_resolved = 0, rk_liquidations = 0\<rparr> s = (r, s')"
    using assms(1) by (simp add: tickRisk_def)
  from watch_loop [OF this assms(2) _ _ assms(3) _ assms(4) assms(4)] obtain new where
    "ordered (ap_db s) (ap_db s') new" "distinct (map (rowKeyOf \<circ> snd) new)"
    "\<forall>o' \<in> snd ` set new. liquidates (marks latest now (ap_db s)) now (ap_db s) o'"
    by (auto simp: watchedAccounts_def)
  then show ?thesis using False by (auto simp: ordered_def)
qed

text \<open>
  C26. Margin calls follow the assessment: after a tick that returns, an account has an open call exactly
  when the policy says so (opened below the maintenance margin, for what is missing, with the grace
  period; kept until the money is there or the deadline passes; closed by an emergency), and never
  more than one.
\<close>

theorem margin_calls_follow_policy:
  assumes "isInr (fst (tickRisk latest now s))" "uniqueKeys (db_positions (ap_db s))" "uniqueKeys (db_marginCalls (ap_db s))"
    and "\<forall>a. length (openCalls (ap_db s) a) \<le> 1" "\<not> pw_active (maintenanceWindow (ap_manual s) now)"
  shows "map snd (openCalls (ap_db (snd (tickRisk latest now s))) a) = callsAfter (marks latest now (ap_db s)) now (ap_db s) a \<and>
    length (openCalls (ap_db (snd (tickRisk latest now s))) a) \<le> 1"
proof -
  obtain r s' where run: "tickRisk latest now s = (r, s')" by (cases "tickRisk latest now s")
  then have "eachS (watchStep (marks latest now (ap_db s)) now (ap_db s)) (watchedAccounts (ap_db s))
      \<lparr>rk_accounts = 0, rk_calls = 0, rk_resolved = 0, rk_liquidations = 0\<rparr> s = (r, s')"
    using assms(5) by (simp add: tickRisk_def)
  note loop = watch_loop [OF this assms(2) _ _ assms(3) _ assms(4) assms(4)]
  have "distinct (watchedAccounts (ap_db s))" by (simp add: watchedAccounts_def)
  with loop have "length (openCalls (ap_db s') a) \<le> 1" "a \<notin> set (watchedAccounts (ap_db s)) \<Longrightarrow> openCalls (ap_db s') a = openCalls (ap_db s) a"
    "a \<in> set (watchedAccounts (ap_db s)) \<Longrightarrow> map snd (openCalls (ap_db s') a) = callsAfter (marks latest now (ap_db s)) now (ap_db s) a"
    using assms(1) run by auto
  then show ?thesis using run by (cases "a \<in> set (watchedAccounts (ap_db s))") (auto simp: callsAfter_def)
qed

section \<open>Two ticks\<close>

definition watchedApi :: "int \<Rightarrow> int \<Rightarrow> api" where
  "watchedApi entryValue balance = \<lparr>ap_db = demoBank\<lparr>
       db_accounts := [(''A'', \<lparr>ac_userId = ''ua'', ac_balance = balance, ac_holdAmount = 0, ac_version = 1, ac_fencingToken = 0\<rparr>)],
       db_positions := [((''A'', ''USDF'', LONG_ROW), \<lparr>po_qty = 2, po_entryValue = entryValue, po_marginHeld = 1500000, po_leverage = None\<rparr>)]\<rparr>,
     ap_redis = [], ap_redisUp = True, ap_ids = (\<lambda>n. replicate n (CHR ''x'')), ap_next = 1, ap_now = 1800000000000, ap_manual = None\<rparr>"

lemma watched_ready:
  "uniqueKeys (db_positions (ap_db (watchedApi e b)))" "uniqueKeys (db_marginCalls (ap_db (watchedApi e b)))"
  "\<forall>a. length (openCalls (ap_db (watchedApi e b)) a) \<le> 1"
  by (simp_all add: watchedApi_def demoBank_def uniqueKeys_def openCalls_def)

theorem margin_calls_follow_policy_witness:
  "map snd (openCalls (ap_db (snd (tickRisk (\<lambda>_. None) 1800000000000 (watchedApi 28100 900000)))) ''A'') =
     [newCall ''A'' 600000 1800000000000 None]"
proof -
  have "isInr (fst (tickRisk (\<lambda>_. None) 1800000000000 (watchedApi 28100 900000)))"
    "\<not> pw_active (maintenanceWindow (ap_manual (watchedApi 28100 900000)) 1800000000000)" by code_simp+
  from margin_calls_follow_policy [OF this(1) watched_ready this(2), of "''A''"]
  have "map snd (openCalls (ap_db (snd (tickRisk (\<lambda>_. None) 1800000000000 (watchedApi 28100 900000)))) ''A'') =
    callsAfter (marks (\<lambda>_. None) 1800000000000 (ap_db (watchedApi 28100 900000))) 1800000000000 (ap_db (watchedApi 28100 900000)) ''A''"
    by simp
  also have "\<dots> = [newCall ''A'' 600000 1800000000000 None]" by code_simp
  finally show ?thesis .
qed

theorem liquidations_only_reduce_witness:
  "liquidationEarned (marks (\<lambda>_. None) 1800000000000 (ap_db (watchedApi 30000 900000))) 1800000000000 (ap_db (watchedApi 30000 900000)) ''A'' \<and>
   (\<exists>new. db_orders (ap_db (snd (tickRisk (\<lambda>_. None) 1800000000000 (watchedApi 30000 900000)))) =
       db_orders (ap_db (watchedApi 30000 900000)) @ new \<and> distinct (map (rowKeyOf \<circ> snd) new))"
proof
  show "liquidationEarned (marks (\<lambda>_. None) 1800000000000 (ap_db (watchedApi 30000 900000))) 1800000000000 (ap_db (watchedApi 30000 900000)) ''A''"
    unfolding liquidationEarned_def by (rule conjI, code_simp, rule disjI1, code_simp)
  show "\<exists>new. db_orders (ap_db (snd (tickRisk (\<lambda>_. None) 1800000000000 (watchedApi 30000 900000)))) =
       db_orders (ap_db (watchedApi 30000 900000)) @ new \<and> distinct (map (rowKeyOf \<circ> snd) new)"
    using liquidations_only_reduce [OF prod.collapse [symmetric] watched_ready, of "\<lambda>_. None" 1800000000000 30000 900000] by blast
qed

end
