(* ===== verification/Futures_Service_Props.thy ===== *)
theory Futures_Service_Props
  imports Futures_Service Settlement_Props
begin

text \<open>
  The leverage setting touches nothing but the setting and only while the account is flat; the closable
  quantity an account sees is the one the order service accepts.
\<close>

section \<open>Leverage\<close>

text \<open>A row as it was, or the empty row that stands for a missing one.\<close>

definition rowAt :: "db \<Rightarrow> string \<times> string \<times> row_side \<Rightarrow> position_row" where
  "rowAt d k = (case findRow (db_positions d) k of
     None \<Rightarrow> \<lparr>po_qty = 0, po_entryValue = 0, po_marginHeld = 0, po_leverage = None\<rparr> | Some p \<Rightarrow> p)"

definition leverageSides :: "db \<Rightarrow> string \<Rightarrow> row_side list" where
  "leverageSides d a = (if isBotAccount d a then [NET] else [LONG_ROW, SHORT_ROW])"

lemma setRow_run:
  assumes "setRowLeverage a x l side d = Inr d'"
  shows "\<exists>rows. d' = d\<lparr>db_positions := rows\<rparr> \<and>
    findRow rows = (findRow (db_positions d))((a, x, side) \<mapsto> (rowAt d (a, x, side))\<lparr>po_leverage := l\<rparr>)"
  using assms
  by (auto simp: setRowLeverage_def writePosition_Inr rowAt_def rows.look_put split: option.splits)

lemma set_rows:
  "foldE (setRowLeverage a x l) sides d = Inr d' \<Longrightarrow> distinct sides \<Longrightarrow>
     \<exists>rows. d' = d\<lparr>db_positions := rows\<rparr> \<and> (\<forall>k. findRow rows k =
       (if \<exists>side \<in> set sides. k = (a, x, side) then Some ((rowAt d k)\<lparr>po_leverage := l\<rparr>) else findRow (db_positions d) k))"
proof (induction sides arbitrary: d)
  case Nil
  then show ?case by (intro exI [of _ "db_positions d"]) simp
next
  case (Cons side sides)
  then obtain d1 where d1: "setRowLeverage a x l side d = Inr d1" "foldE (setRowLeverage a x l) sides d1 = Inr d'"
    by (auto simp: bindE_eq_Inr_iff)
  from setRow_run [OF d1(1)] obtain rows1 where r1: "d1 = d\<lparr>db_positions := rows1\<rparr>"
    "findRow rows1 = (findRow (db_positions d))((a, x, side) \<mapsto> (rowAt d (a, x, side))\<lparr>po_leverage := l\<rparr>)" by blast
  from Cons.IH [OF d1(2)] Cons.prems(2) obtain rows where r: "d' = d1\<lparr>db_positions := rows\<rparr>"
    "\<forall>k. findRow rows k = (if \<exists>side \<in> set sides. k = (a, x, side) then Some ((rowAt d1 k)\<lparr>po_leverage := l\<rparr>) else findRow (db_positions d1) k)"
    by auto
  have "side \<notin> set sides" using Cons.prems(2) by simp
  then have "rowAt d1 (a, x, s) = rowAt d (a, x, s)" if "s \<in> set sides" for s
    using that by (auto simp: rowAt_def r1)
  then show ?case using r r1 by (intro exI [of _ rows]) auto
qed


section \<open>Closable quantity\<close>

lemma sum_map_filter: "sum_list (map f (filter P (map snd t))) = sum_list (map (\<lambda>(i, x). f x) (filter (\<lambda>(i, x). P x) t))"
  by (induction t) auto

text \<open>
  C28. The closable quantity an account sees for a direction is exactly what the order service lets it
  close: a closing order of some quantity is accepted (without a hold) if and only if the quantity does
  not exceed it.
\<close>

theorem closable_is_accepted:
  assumes "findRow (db_positions d) (a, fd_symbol def', rowSideOf (Some ps)) = Some p" "isFuture (fd_symbol def')"
    and "po_qty p > 0 \<longleftrightarrow> ps = LONG" "0 < qty"
    and "\<forall>(i, o') \<in> set (db_orders d). or_accountId o' = a \<and> or_symbol o' = fd_symbol def' \<and> isActive (or_status o') \<and>
      or_side o' = hedgeCloseSide ps \<and> or_positionSide o' = Some ps \<longrightarrow> or_holdPerUnit o' = 0"
  shows "futuresOrderHoldPerUnit d a def' (hedgeCloseSide ps) qty price (Some ps) = Inr 0 \<longleftrightarrow>
    qty \<le> pv_closableQty (positionView m (closingOrders d a) def' (rowSideOf (Some ps)) p)"
proof -
  have side: "closeSideOf (rowSideOf (Some ps)) (po_qty p) = hedgeCloseSide ps"
    by (cases ps) (simp_all add: closeSideOf_def rowSideOf_def)
  have row: "rowSideOf v = rowSideOf (Some ps) \<longleftrightarrow> v = Some ps" for v
    by (cases ps; cases v) (auto simp: rowSideOf_def split: position_side.splits)
  have same: "promisedQty (closingOrders d a) (fd_symbol def') (rowSideOf (Some ps)) (hedgeCloseSide ps) =
      reservedQty d a (fd_symbol def') (hedgeCloseSide ps) (\<lambda>o'. or_positionSide o' = Some ps)"
    unfolding promisedQty_def closingOrders_def reservedQty_def filter_filter sum_map_filter
    using assms(2,5) by (intro arg_cong [where f = sum_list] map_cong filter_cong) (auto simp: row)
  have "\<not> isOpeningHedgeOrder (hedgeCloseSide ps) ps" by (cases ps) (simp_all add: isOpeningHedgeOrder_def hedgeCloseSide_def)
  then show ?thesis
    using assms(1,4) by (auto simp: futuresOrderHoldPerUnit_def positionView_def Let_def heldQty_def side same)
qed

section \<open>Examples\<close>

definition demoFlat :: api where
  "demoFlat = \<lparr>ap_db = demoBank, ap_redis = [], ap_redisUp = True, ap_ids = (\<lambda>n. replicate n (CHR ''x'')),
     ap_next = 1, ap_now = 1800000000000, ap_manual = None\<rparr>"


definition demoHeld :: db where
  "demoHeld = demoBank\<lparr>db_orders := [(''o9'', (demoOrderRow ''A'' SELL 0)\<lparr>or_symbol := ''USDF'', or_positionSide := Some LONG, or_qty := 2, or_filledQty := 0\<rparr>)],
     db_positions := [((''A'', ''USDF'', LONG_ROW), \<lparr>po_qty = 5, po_entryValue = 70000, po_marginHeld = 0, po_leverage = None\<rparr>)]\<rparr>"

theorem closable_is_accepted_witness:
  "futuresOrderHoldPerUnit demoHeld ''A'' (FUTURES ! 1) SELL 3 14000 (Some LONG) = Inr 0 \<and>
   futuresOrderHoldPerUnit demoHeld ''A'' (FUTURES ! 1) SELL 4 14000 (Some LONG) \<noteq> Inr 0"
proof -
  define row where "row = \<lparr>po_qty = 5, po_entryValue = 70000, po_marginHeld = 0, po_leverage = None :: int option\<rparr>"
  have view: "pv_closableQty (positionView (\<lambda>_. Some 14000) (closingOrders demoHeld ''A'') (FUTURES ! 1) (rowSideOf (Some LONG)) row) = 3"
    unfolding row_def by code_simp
  have ok: "findRow (db_positions demoHeld) (''A'', fd_symbol (FUTURES ! 1), rowSideOf (Some LONG)) = Some row"
    unfolding row_def by code_simp
  have fut: "isFuture (fd_symbol (FUTURES ! 1))" by code_simp
  have held: "\<forall>(i, o') \<in> set (db_orders demoHeld). or_accountId o' = ''A'' \<and> or_symbol o' = fd_symbol (FUTURES ! 1) \<and> isActive (or_status o') \<and>
      or_side o' = hedgeCloseSide LONG \<and> or_positionSide o' = Some LONG \<longrightarrow> or_holdPerUnit o' = 0" by code_simp
  have "po_qty row > 0 \<longleftrightarrow> LONG = LONG" by (simp add: row_def)
  note accepted = closable_is_accepted [OF ok fut this _ held, of _ 14000 "\<lambda>_. Some 14000"]
  show ?thesis using accepted [of 3] accepted [of 4] view by (simp add: hedgeCloseSide_def)
qed

end
