(* ===== verification/Options_Service.thy ===== *)
theory Options_Service
  imports Futures_Service
begin

text \<open>
  \<open>apps/api/src/futures/options.service.ts\<close>: the strikes of the one-day options, laid out after each
  settlement and extended during the day, the overview and an account's option positions. The
  theoretical price (\<open>theoretical\<close> def underlying strike days: \<open>optionTheoretical\<close> with the volatility of
  the family) rests on \<open>Math.exp\<close> and \<open>Math.log\<close> and is a parameter; caches, timers, log lines and the
  background retry that the overview starts are left out.
\<close>

type_synonym theoretical_price = "option_def \<Rightarrow> int \<Rightarrow> int \<Rightarrow> rat \<Rightarrow> rat"

definition daysToExpiry :: "int \<Rightarrow> rat" where
  "daysToExpiry now = max 0 (jsDiv (of_int (nextFuturesSettlementAt now - now)) (of_int DAY_MS))"

definition familySeries :: "option_family \<Rightarrow> option_def list" where
  "familySeries family = filter (\<lambda>o'. of_code (od_family o') = of_code family) OPTIONS"

section \<open>The ladder of a family\<close>

text \<open>The strike of each slot, or nothing when a row is of another day or a call and its put differ.\<close>

fun ladderSlots :: "(string \<Rightarrow> series_row option) \<Rightarrow> string \<Rightarrow> option_def list \<Rightarrow> (int, int) rows \<Rightarrow> (int, int) rows option" where
  "ladderSlots bySymbol tradingDay [] slots = Some slots"
| "ladderSlots bySymbol tradingDay (option # rest) slots =
     (case bySymbol (od_symbol option) of
        None \<Rightarrow> ladderSlots bySymbol tradingDay rest slots
      | Some row \<Rightarrow>
          if se_tradingDay row \<noteq> tradingDay then None
          else (case findRow slots (od_slot option) of
            Some other \<Rightarrow>
              if other \<noteq> se_strike row then None
              else ladderSlots bySymbol tradingDay rest (putRow (od_slot option) (se_strike row) slots)
          | None \<Rightarrow> ladderSlots bySymbol tradingDay rest (putRow (od_slot option) (se_strike row) slots)))"

fun evenlySpaced :: "int \<Rightarrow> int list \<Rightarrow> bool" where
  "evenlySpaced step (a # b # rest) \<longleftrightarrow> b - a = step \<and> evenlySpaced step (b # rest)"
| "evenlySpaced step _ \<longleftrightarrow> True"

definition isContiguousLadder :: "option_family \<Rightarrow> option_def list \<Rightarrow> (string \<Rightarrow> series_row option) \<Rightarrow> string \<Rightarrow> bool" where
  "isContiguousLadder family series bySymbol tradingDay =
     (case ladderSlots bySymbol tradingDay series [] of
        None \<Rightarrow> False
      | Some slots \<Rightarrow> evenlySpaced (of_strikeStepUnits family) (sort (map snd slots)))"

section \<open>Laying out strikes\<close>

definition premiumOf :: "theoretical_price \<Rightarrow> int \<Rightarrow> option_def \<Rightarrow> int \<Rightarrow> int \<Rightarrow> int" where
  "premiumOf theoretical now option underlying strike =
     roundPremium (od_tickUnits option) (theoretical option underlying strike (daysToExpiry now))"

definition setLastPrice :: "string \<Rightarrow> int \<Rightarrow> db \<Rightarrow> db" where
  "setLastPrice symbol price d = d\<lparr>db_symbols := map (\<lambda>(x, m). (x, if x = symbol then m\<lparr>sy_lastPrice := price\<rparr> else m)) (db_symbols d)\<rparr>"

definition setStrike :: "option_def \<Rightarrow> int \<Rightarrow> string \<Rightarrow> int \<Rightarrow> db \<Rightarrow> db" where
  "setStrike option strike tradingDay theo d =
     setLastPrice (od_symbol option) theo
       (d\<lparr>db_series := putRow (od_symbol option) \<lparr>se_strike = strike, se_tradingDay = tradingDay\<rparr> (db_series d)\<rparr>)"

definition restrikeFamily :: "theoretical_price \<Rightarrow> (string \<Rightarrow> int option) \<Rightarrow> int \<Rightarrow> option_family \<Rightarrow> db \<Rightarrow> db" where
  "restrikeFamily theoretical prices now family d =
     (if of_retired family then d
      else case optionUnderlyingUnits family prices of
        None \<Rightarrow> d
      | Some underlying \<Rightarrow>
          let atm = atmStrike family underlying in
          fold (\<lambda>option. let strike = strikeForSlot family atm (od_slot option) in
             setStrike option strike (futuresTradingDay (nextFuturesSettlementAt now)) (premiumOf theoretical now option underlying strike))
            (familySeries family) d)"

definition restrike :: "theoretical_price \<Rightarrow> (string \<Rightarrow> int option) \<Rightarrow> int \<Rightarrow> option_family list \<Rightarrow> unit service" where
  "restrike theoretical prices now families = writeDb (fold (restrikeFamily theoretical prices now) families)"

definition familyIsIdle :: "string list \<Rightarrow> db \<Rightarrow> bool" where
  "familyIsIdle symbols d \<longleftrightarrow>
     \<not> (\<exists>(k, p) \<in> set (db_positions d). fst (snd k) \<in> set symbols \<and> po_qty p \<noteq> 0) \<and>
     \<not> (\<exists>(i, o') \<in> set (db_orders d). or_symbol o' \<in> set symbols \<and> isActive (or_status o'))"

text \<open>A new symbol of a live ladder gets its row, and its price; the market row must exist.\<close>

definition createSeries :: "string \<Rightarrow> int \<Rightarrow> string \<Rightarrow> db \<Rightarrow> error + unit \<times> db" where
  "createSeries symbol strike tradingDay d =
     (if findRow (db_series d) symbol \<noteq> None then Inl (UniqueViolation ''option_series'')
      else Inr ((), d\<lparr>db_series := db_series d @ [(symbol, \<lparr>se_strike = strike, se_tradingDay = tradingDay\<rparr>)]\<rparr>))"

definition updateLastPrice :: "string \<Rightarrow> int \<Rightarrow> db \<Rightarrow> error + unit \<times> db" where
  "updateLastPrice symbol price d =
     (if findRow (db_symbols d) symbol = None then Inl (RowNotFound ''symbols'') else Inr ((), setLastPrice symbol price d))"

definition addOption :: "theoretical_price \<Rightarrow> int \<Rightarrow> int \<Rightarrow> int \<Rightarrow> option_def \<Rightarrow> unit \<Rightarrow> unit service" where
  "addOption theoretical now underlying strike option u =
     bindS (txS (createSeries (od_symbol option) strike (futuresTradingDay (nextFuturesSettlementAt now)))) (\<lambda>_.
     txS (updateLastPrice (od_symbol option) (premiumOf theoretical now option underlying strike)))"

definition addSlot :: "theoretical_price \<Rightarrow> int \<Rightarrow> int \<Rightarrow> option_def list \<Rightarrow> int \<times> int \<Rightarrow> unit \<Rightarrow> unit service" where
  "addSlot theoretical now underlying missing x u = (case x of (slot, strike) \<Rightarrow>
     eachS (addOption theoretical now underlying strike) (filter (\<lambda>o'. od_slot o' = slot) missing) ())"

definition liveRows :: "(string, series_row) rows \<Rightarrow> option_def list \<Rightarrow> string \<Rightarrow> series_row list" where
  "liveRows rows series tradingDay =
     filter (\<lambda>row. se_tradingDay row = tradingDay) (List.map_filter (\<lambda>o'. findRow rows (od_symbol o')) series)"

text \<open>
  One family: expired or broken and idle, it is to be laid out anew; broken and in use, it is left; short
  of symbols, they get the strikes outside the ladder. The loop of \<open>extendStrikeLadder\<close> returns for every
  family (\<open>extend_ladder_total\<close>); the other case is an error here.
\<close>

definition ensureFamily ::
  "theoretical_price \<Rightarrow> (string \<Rightarrow> rat option) \<Rightarrow> int \<Rightarrow> (string, series_row) rows \<Rightarrow> option_family \<Rightarrow>
     option_family list \<times> (string \<Rightarrow> int option) option \<Rightarrow> (option_family list \<times> (string \<Rightarrow> int option) option) service" where
  "ensureFamily theoretical latest now rows family acc =
     (let tradingDay = futuresTradingDay (nextFuturesSettlementAt now);
          series = familySeries family;
          missing = filter (\<lambda>o'. findRow rows (od_symbol o') = None) series;
          current = liveRows rows series tradingDay
      in if current = [] then returnS (fst acc @ [family], snd acc)
         else if \<not> isContiguousLadder family series (findRow rows) tradingDay then
           bindS (readDb (familyIsIdle (map od_symbol series))) (\<lambda>idle.
             returnS (if idle then (fst acc @ [family], snd acc) else acc))
         else if missing = [] then returnS acc
         else bindS (case snd acc of Some u \<Rightarrow> returnS u | None \<Rightarrow> readDb (underlyingUnits latest)) (\<lambda>underlying.
           case optionUnderlyingUnits family underlying of
             None \<Rightarrow> returnS (fst acc, Some underlying)
           | Some s \<Rightarrow>
               let missingSlots = sort (uniq (map od_slot missing)) in
               (case extendStrikeLadder family (uniq (map se_strike current)) (int (length missingSlots)) of
                  None \<Rightarrow> throwS (Thrown ''no ladder'')
                | Some added \<Rightarrow>
                    bindS (eachS (addSlot theoretical now s missing) (zip missingSlots added) ()) (\<lambda>_.
                    returnS (fst acc, Some underlying)))))"

definition ensureSeries :: "theoretical_price \<Rightarrow> (string \<Rightarrow> rat option) \<Rightarrow> int \<Rightarrow> unit service" where
  "ensureSeries theoretical latest now =
     (if inOptionsRestrikeGap now then returnS ()
      else bindS (readDb db_series) (\<lambda>rows.
        bindS (eachS (ensureFamily theoretical latest now rows) OPTION_FAMILIES ([], None)) (\<lambda>(restrikeAll, underlying).
        if restrikeAll = [] then returnS ()
        else bindS (case underlying of Some u \<Rightarrow> returnS u | None \<Rightarrow> readDb (underlyingUnits latest)) (\<lambda>prices.
             restrike theoretical prices now restrikeAll))))"

section \<open>Overview and positions\<close>

record option_view =
  ov_def :: option_def
  ov_expired :: bool
  ov_strike :: "int option"
  ov_underlying :: "int option"
  ov_theo :: "int option"
  ov_lastPrice :: int
  ov_expiresAt :: int

definition optionOverview :: "theoretical_price \<Rightarrow> (string \<Rightarrow> rat option) \<Rightarrow> int \<Rightarrow> db \<Rightarrow> option_view list" where
  "optionOverview theoretical latest now d =
     (let currentDay = futuresTradingDay (nextFuturesSettlementAt now); underlying = underlyingUnits latest d in
      map (\<lambda>option.
        let row = findRow (db_series d) (od_symbol option); s = optionUnderlyingUnits (od_family option) underlying in
        \<lparr>ov_def = option,
         ov_expired = (of_retired (od_family option) \<and> (case row of None \<Rightarrow> [] | Some r \<Rightarrow> se_tradingDay r) < currentDay),
         ov_strike = map_option se_strike row, ov_underlying = s,
         ov_theo = (case (row, s) of (Some r, Some u) \<Rightarrow> Some (premiumOf theoretical now option u (se_strike r)) | _ \<Rightarrow> None),
         ov_lastPrice = (case findRow (filter (\<lambda>(x, m). sy_kind m = OPTION) (db_symbols d)) (od_symbol option) of
            None \<Rightarrow> od_tickUnits option | Some m \<Rightarrow> sy_lastPrice m),
         ov_expiresAt = nextFuturesSettlementAt now\<rparr>) ALL_OPTIONS)"

record option_position =
  op_symbol :: string
  op_strike :: "int option"
  op_qty :: int
  op_avgPrice :: rat
  op_lastPrice :: int
  op_theo :: "int option"
  op_value :: int
  op_unrealized :: int
  op_marginHeld :: int

definition optionPosition' :: "option_view list \<Rightarrow> option_def \<Rightarrow> position_row \<Rightarrow> option_position" where
  "optionPosition' rows def' p =
     (let row = find (\<lambda>v. od_symbol (ov_def v) = od_symbol def') rows;
          mark = (case row of None \<Rightarrow> od_tickUnits def' | Some v \<Rightarrow> ov_lastPrice v);
          positionValue = po_qty p * mark * od_unitValue def';
          cost = po_entryValue p * od_unitValue def' * (if po_qty p > 0 then 1 else - 1)
      in \<lparr>op_symbol = od_symbol def', op_strike = Option.bind row ov_strike, op_qty = po_qty p,
          op_avgPrice = jsDiv (of_int (po_entryValue p)) (of_int \<bar>po_qty p\<bar>), op_lastPrice = mark,
          op_theo = Option.bind row ov_theo, op_value = positionValue, op_unrealized = positionValue - cost,
          op_marginHeld = po_marginHeld p\<rparr>)"

definition optionPositions ::
  "theoretical_price \<Rightarrow> (string \<Rightarrow> rat option) \<Rightarrow> int \<Rightarrow> db \<Rightarrow> string \<Rightarrow> option_position list \<times> int" where
  "optionPositions theoretical latest now d accountId =
     (let rows = optionOverview theoretical latest now d;
          ps = List.map_filter (\<lambda>(k, p). if po_qty p = 0 then None else
                 (case optionDef (fst (snd k)) of None \<Rightarrow> None | Some def' \<Rightarrow> Some (optionPosition' rows def' p)))
               (positionsOf accountId d)
      in (ps, sum_list (map op_value ps)))"

end
