(* ===== verification/Options_Props.thy ===== *)
theory Options_Props
  imports Options_Service Futures_Settlement_Props "HOL-Library.Multiset"
begin

text \<open>
  The strikes of the one-day options: how a day's ladder is laid out, and that a contract somebody holds
  or has an order in keeps its strike while its day lasts.
\<close>

section \<open>Series\<close>

lemma option_families:
  "list_all (\<lambda>f. familySeries f = seriesOf f) OPTION_FAMILIES"
  "list_all (\<lambda>f. list_all (\<lambda>g. of_code f = of_code g \<longrightarrow> f = g) OPTION_FAMILIES) OPTION_FAMILIES"
  by code_simp+

lemma familySeries_subset: "set (familySeries f) \<subseteq> set OPTIONS"
  by (auto simp: familySeries_def)

lemma option_symbols_distinct: "distinct (map od_symbol OPTIONS)"
  using settle_symbols(1) by (simp add: ALL_OPTIONS_def)

lemma symbol_inj: "o1 \<in> set OPTIONS \<Longrightarrow> o2 \<in> set OPTIONS \<Longrightarrow> od_symbol o1 = od_symbol o2 \<Longrightarrow> o1 = o2"
  using option_symbols_distinct by (simp add: distinct_map inj_on_def)

lemma families_disjoint:
  assumes "o1 \<in> set (familySeries f)" "o2 \<in> set (familySeries g)" "od_symbol o1 = od_symbol o2"
    and "f \<in> set OPTION_FAMILIES" "g \<in> set OPTION_FAMILIES"
  shows "f = g"
proof -
  have "o1 = o2" using symbol_inj assms(1-3) familySeries_subset by blast
  then have "of_code f = of_code g" using assms(1,2) by (simp add: familySeries_def)
  then show ?thesis using option_families(2) assms(4,5) by (simp add: list_all_iff)
qed

section \<open>Laying out a ladder\<close>

lemma setStrike_series:
  "findRow (db_series (setStrike o' k day t d)) x =
     (if x = od_symbol o' then Some \<lparr>se_strike = k, se_tradingDay = day\<rparr> else findRow (db_series d) x)"
  by (simp add: setStrike_def setLastPrice_def)

lemma fold_setStrike_other:
  "x \<notin> od_symbol ` set os \<Longrightarrow> findRow (db_series (fold (\<lambda>o'. setStrike o' (g o') day (t o')) os d)) x = findRow (db_series d) x"
  by (induction os arbitrary: d) (auto simp: setStrike_series)

lemma fold_setStrike:
  assumes "distinct (map od_symbol os)" "o' \<in> set os"
  shows "findRow (db_series (fold (\<lambda>o'. setStrike o' (g o') day (t o')) os d)) (od_symbol o') = Some \<lparr>se_strike = g o', se_tradingDay = day\<rparr>"
  using assms
proof (induction os arbitrary: d)
  case (Cons a os)
  show ?case
  proof (cases "o' = a")
    case True
    then have "od_symbol o' \<notin> od_symbol ` set os" using Cons.prems(1) by simp
    then show ?thesis using True by (simp add: fold_setStrike_other setStrike_series)
  next
    case False
    then show ?thesis using Cons by simp
  qed
qed simp

definition dayOf :: "int \<Rightarrow> string" where
  "dayOf now = futuresTradingDay (nextFuturesSettlementAt now)"

lemma restrikeFamily_other:
  "x \<notin> od_symbol ` set (familySeries f) \<Longrightarrow> findRow (db_series (restrikeFamily theoretical prices now f d)) x = findRow (db_series d) x"
  by (simp add: restrikeFamily_def Let_def fold_setStrike_other split: option.split)

lemma restrikeFamily_rows:
  assumes "\<not> of_retired f" "optionUnderlyingUnits f prices = Some u" "o' \<in> set (familySeries f)"
  shows "findRow (db_series (restrikeFamily theoretical prices now f d)) (od_symbol o') =
    Some \<lparr>se_strike = strikeForSlot f (atmStrike f u) (od_slot o'), se_tradingDay = dayOf now\<rparr>"
proof -
  have "distinct (map od_symbol (familySeries f))"
    unfolding familySeries_def by (rule distinct_map_filter) (rule option_symbols_distinct)
  from fold_setStrike [OF this assms(3)] show ?thesis
    using assms(1,2) by (simp add: restrikeFamily_def Let_def dayOf_def)
qed

lemma fold_restrike_other:
  assumes "\<forall>g \<in> set fs. x \<notin> od_symbol ` set (familySeries g)"
  shows "findRow (db_series (fold (restrikeFamily theoretical prices now) fs d)) x = findRow (db_series d) x"
  using assms by (induction fs arbitrary: d) (simp_all add: restrikeFamily_other)

lemma fold_restrike_rows:
  assumes "f \<in> set fs" "set fs \<subseteq> set OPTION_FAMILIES" "\<not> of_retired f" "optionUnderlyingUnits f prices = Some u"
    and "o' \<in> set (familySeries f)"
  shows "findRow (db_series (fold (restrikeFamily theoretical prices now) fs d)) (od_symbol o') =
    Some \<lparr>se_strike = strikeForSlot f (atmStrike f u) (od_slot o'), se_tradingDay = dayOf now\<rparr>"
  using assms(1,2)
proof (induction fs arbitrary: d)
  case (Cons g fs)
  show ?case
  proof (cases "f \<in> set fs")
    case True
    then show ?thesis using Cons by simp
  next
    case False
    then have g: "g = f" using Cons.prems(1) by simp
    have "od_symbol o' \<notin> od_symbol ` set (familySeries h)" if "h \<in> set fs" for h
    proof
      assume "od_symbol o' \<in> od_symbol ` set (familySeries h)"
      then have "f = h" using families_disjoint [OF assms(5)] that Cons.prems(2) g by auto
      then show False using False that by simp
    qed
    then show ?thesis
      using restrikeFamily_rows [OF assms(3-5)] g by (simp add: fold_restrike_other)
  qed
qed simp

text \<open>The slots of a family whose rows are all there.\<close>

lemma ladderSlots_full:
  assumes "\<And>o'. o' \<in> set os \<Longrightarrow> bySymbol (od_symbol o') = Some \<lparr>se_strike = g (od_slot o'), se_tradingDay = day\<rparr>"
    and "\<forall>(k, v) \<in> set slots. v = g k" "distinct (map fst slots)"
  shows "\<exists>slots'. ladderSlots bySymbol day os slots = Some slots' \<and> (\<forall>(k, v) \<in> set slots'. v = g k) \<and> distinct (map fst slots') \<and>
    fst ` set slots' = fst ` set slots \<union> od_slot ` set os"
  using assms
proof (induction os arbitrary: slots)
  case (Cons o' os)
  let ?slots = "putRow (od_slot o') (g (od_slot o')) slots"
  have d: "distinct (map fst ?slots)" using Cons.prems(3) unfolding putRow_def by (rule distinct_update)
  have ok: "\<forall>(k, v) \<in> set ?slots. v = g k"
  proof clarify
    fix k v assume "(k, v) \<in> set ?slots"
    then have "findRow ?slots k = Some v" using d by (simp add: findRow_unique uniqueKeys_def)
    then show "v = g k" using Cons.prems(2) by (auto simp: rows.look_put dest: findRow_in_set split: if_splits)
  qed
  have keys: "fst ` set ?slots = insert (od_slot o') (fst ` set slots)"
    unfolding putRow_def by (simp add: dom_update [symmetric] dom_map_of_conv_image_fst [symmetric] update_conv')
  have same: "other = g (od_slot o')" if "findRow slots (od_slot o') = Some other" for other
    using findRow_in_set [OF that] Cons.prems(2) by auto
  have "ladderSlots bySymbol day (o' # os) slots = ladderSlots bySymbol day os ?slots"
    using Cons.prems(1) [of o'] same by (auto split: option.split)
  then show ?case
    using Cons.IH [OF _ ok d] Cons.prems(1) keys by auto
qed auto

lemma evenlySpaced_upt: "evenlySpaced step (map (\<lambda>i. base + int i * step) [m..<n])"
proof (induction "n - m" arbitrary: m)
  case (Suc k)
  then have "[m..<n] = m # [Suc m..<n]" by (simp add: upt_conv_Cons)
  moreover have "evenlySpaced step (map (\<lambda>i. base + int i * step) [Suc m..<n])" using Suc by simp
  ultimately show ?case by (cases "Suc m < n") (auto simp: upt_conv_Cons algebra_simps)
qed simp

lemma family_slots:
  assumes "f \<in> set OPTION_FAMILIES" shows "od_slot ` set (familySeries f) = set (familySlots f)"
proof -
  have "familySeries f = seriesOf f" using option_families(1) assms by (simp add: list_all_iff)
  then show ?thesis by (simp add: seriesOf_def image_Un image_image)
qed

lemma ladder_contiguous:
  assumes "f \<in> set OPTION_FAMILIES" "0 < of_strikeStepUnits f" "atmSlot f * of_strikeStepUnits f \<le> atm"
    and rows: "\<And>o'. o' \<in> set (familySeries f) \<Longrightarrow>
      bySymbol (od_symbol o') = Some \<lparr>se_strike = strikeForSlot f atm (od_slot o'), se_tradingDay = day\<rparr>"
  shows "isContiguousLadder f (familySeries f) bySymbol day"
proof -
  let ?step = "of_strikeStepUnits f" and ?g = "strikeForSlot f atm"
  from ladderSlots_full [of "familySeries f" bySymbol ?g day "[]"] rows obtain slots where
    slots: "ladderSlots bySymbol day (familySeries f) [] = Some slots" "\<forall>(k, v) \<in> set slots. v = ?g k"
      "distinct (map fst slots)" "fst ` set slots = set (familySlots f)"
    using family_slots [OF assms(1)] by auto
  have distinct: "distinct (familySlots f)" by (simp add: familySlots_def distinct_map inj_on_def)
  have strike: "?g (int i + 1) = (atm + (1 - atmSlot f) * ?step) + int i * ?step" for i
  proof -
    have "atmSlot f * ?step + (1 - atmSlot f) * ?step = ?step" by (simp add: algebra_simps)
    then have "?step \<le> atm + (1 - atmSlot f) * ?step" using assms(3) by linarith
    moreover have "0 \<le> int i * ?step" using assms(2) by simp
    ultimately show ?thesis by (simp add: strikeForSlot_def algebra_simps)
  qed
  then have strikes: "map ?g (familySlots f) = map (\<lambda>i. (atm + (1 - atmSlot f) * ?step) + int i * ?step) [0..<nat (of_strikes f)]"
    by (simp add: familySlots_def)
  have "mset (map fst slots) = mset (familySlots f)"
    using set_eq_iff_mset_eq_distinct [OF slots(3) distinct] slots(4) by simp
  then have "mset (map ?g (map fst slots)) = mset (map ?g (familySlots f))" by (simp only: mset_map)
  moreover have "map snd slots = map ?g (map fst slots)" using slots(2) by auto
  ultimately have "mset (map snd slots) = mset (map ?g (familySlots f))" by (simp only:)
  moreover have "sorted (map ?g (familySlots f))"
    unfolding strikes using assms(2) by (simp add: sorted_wrt_map sorted_map mult_right_mono sorted_wrt_iff_nth_less)
  ultimately have "sort (map snd slots) = map ?g (familySlots f)" by (metis properties_for_sort)
  then show ?thesis unfolding isContiguousLadder_def slots(1) strikes by (simp add: evenlySpaced_upt)
qed

text \<open>
  A family that is laid out gets, in every series, the day's row with the strike of its slot; with an
  underlying far enough from zero the strikes step evenly through the money, so the check of the ladder
  accepts them.
\<close>

theorem restrike_lays_ladder:
  assumes "f \<in> set fs" "set fs \<subseteq> set OPTION_FAMILIES" "optionUnderlyingUnits f prices = Some u"
    and "atmSlot f * of_strikeStepUnits f \<le> atmStrike f u"
  shows "(\<forall>o' \<in> set (familySeries f). findRow (db_series (ap_db (snd (restrike theoretical prices now fs s)))) (od_symbol o') =
      Some \<lparr>se_strike = atmStrike f u + (od_slot o' - atmSlot f) * of_strikeStepUnits f, se_tradingDay = dayOf now\<rparr>) \<and>
    isContiguousLadder f (familySeries f) (findRow (db_series (ap_db (snd (restrike theoretical prices now fs s))))) (dayOf now)"
proof -
  have f: "f \<in> set OPTION_FAMILIES" using assms(1,2) by blast
  have facts: "0 < of_strikeStepUnits f" "\<not> of_retired f" using f by (auto simp: OPTION_FAMILIES_def)
  let ?d = "ap_db (snd (restrike theoretical prices now fs s))"
  have rows: "findRow (db_series ?d) (od_symbol o') = Some \<lparr>se_strike = strikeForSlot f (atmStrike f u) (od_slot o'), se_tradingDay = dayOf now\<rparr>"
    if "o' \<in> set (familySeries f)" for o'
    using fold_restrike_rows [OF assms(1,2) facts(2) assms(3) that] by (simp add: restrike_def)
  have "strikeForSlot f (atmStrike f u) (od_slot o') = atmStrike f u + (od_slot o' - atmSlot f) * of_strikeStepUnits f"
    if "o' \<in> set (familySeries f)" for o'
  proof -
    have "od_slot o' \<in> set (familySlots f)" using family_slots [OF f] that by blast
    then have "1 \<le> od_slot o'" by (auto simp: familySlots_def)
    then have "1 * of_strikeStepUnits f \<le> od_slot o' * of_strikeStepUnits f" using facts(1) by (intro mult_right_mono) auto
    then have "of_strikeStepUnits f \<le> atmStrike f u + (od_slot o' - atmSlot f) * of_strikeStepUnits f"
      using assms(4) by (simp add: left_diff_distrib)
    then show ?thesis by (simp add: strikeForSlot_def)
  qed
  then show ?thesis using rows ladder_contiguous [OF f facts(1) assms(4) rows] by auto
qed

section \<open>Contracts in use\<close>

text \<open>Rows that are there stay, positions and orders stay.\<close>

definition grows :: "db \<Rightarrow> db \<Rightarrow> bool" where
  "grows d d' \<longleftrightarrow> (\<forall>x v. findRow (db_series d) x = Some v \<longrightarrow> findRow (db_series d') x = Some v) \<and>
     db_positions d' = db_positions d \<and> db_orders d' = db_orders d"

interpretation growth: step_relation "\<lambda>s t. grows (ap_db s) (ap_db t)"
  by unfold_locales (simp_all add: grows_def)

lemma grows_txS:
  assumes "\<And>d x d'. f d = Inr (x, d') \<Longrightarrow> grows d d'"
  shows "keeps (\<lambda>s t. grows (ap_db s) (ap_db t)) (txS f)"
proof -
  have "grows (ap_db s) (ap_db (snd (txS f s)))" for s
    by (cases "f (ap_db s)") (auto simp: txS_def growth.rel_refl intro: assms)
  then show ?thesis by (simp add: keeps_def)
qed

lemma addOption_grows: "keeps (\<lambda>s t. grows (ap_db s) (ap_db t)) (addOption theoretical now u k o' x)"
proof -
  have "grows d d'" if "createSeries sym' k day d = Inr (x, d')" for sym' k day d x d'
    using that by (auto simp: createSeries_def grows_def findRow_def map_add_def split: if_splits option.splits)
  moreover have "grows d d'" if "updateLastPrice sym' p d = Inr (x, d')" for sym' p d x d'
    using that by (auto simp: updateLastPrice_def setLastPrice_def grows_def split: if_splits)
  ultimately show ?thesis unfolding addOption_def by (intro growth.keeps_bindS grows_txS) auto
qed

lemma addSlot_grows: "keeps (\<lambda>s t. grows (ap_db s) (ap_db t)) (addSlot theoretical now u missing x y)"
  unfolding addSlot_def by (cases x) (auto intro!: growth.keeps_eachS addOption_grows)

lemma readDb_grows: "keeps (\<lambda>s t. grows (ap_db s) (ap_db t)) (readDb h)"
  by (simp add: keeps_def growth.rel_refl)

lemma ensureFamily_grows: "keeps (\<lambda>s t. grows (ap_db s) (ap_db t)) (ensureFamily theoretical latest now rows f acc)"
  unfolding ensureFamily_def Let_def
  by (auto intro!: growth.keeps_rules readDb_grows addSlot_grows split: option.split)

text \<open>Only a family of an expired day, or one nobody uses, is laid out anew.\<close>

definition mayRestrike :: "int \<Rightarrow> (string, series_row) rows \<Rightarrow> db \<Rightarrow> option_family \<Rightarrow> bool" where
  "mayRestrike now rows d f \<longleftrightarrow> liveRows rows (familySeries f) (dayOf now) = [] \<or> familyIsIdle (map od_symbol (familySeries f)) d"

lemma ensureFamily_choice:
  assumes "ensureFamily theoretical latest now rows f acc s = (Inr acc', s')"
  shows "fst acc' = fst acc \<or> fst acc' = fst acc @ [f] \<and> mayRestrike now rows (ap_db s) f"
  using assms
  by (auto simp: ensureFamily_def Let_def mayRestrike_def dayOf_def bindS_def split: if_splits option.splits sum.splits prod.splits)

lemma ensure_loop:
  assumes "eachS (ensureFamily theoretical latest now rows) fs acc s = (r, s')"
  shows "grows (ap_db s) (ap_db s') \<and>
    (\<forall>acc'. r = Inr acc' \<longrightarrow> (\<forall>g \<in> set (fst acc'). g \<in> set (fst acc) \<or> g \<in> set fs \<and> mayRestrike now rows (ap_db s) g))"
  using assms
proof (induction fs arbitrary: acc s)
  case (Cons f fs)
  obtain r1 s1 where s1: "ensureFamily theoretical latest now rows f acc s = (r1, s1)"
    by (cases "ensureFamily theoretical latest now rows f acc s")
  have g1: "grows (ap_db s) (ap_db s1)" using keepsD [OF ensureFamily_grows s1] .
  show ?case
  proof (cases r1)
    case (Inl e)
    then show ?thesis using Cons.prems s1 g1 by (auto simp: bindS_def)
  next
    case (Inr acc1)
    then have loop: "eachS (ensureFamily theoretical latest now rows) fs acc1 s1 = (r, s')" using Cons.prems s1 by (simp add: bindS_def)
    note rest = Cons.IH [OF loop]
    have same: "mayRestrike now rows (ap_db s1) g = mayRestrike now rows (ap_db s) g" for g
      using g1 by (simp add: mayRestrike_def familyIsIdle_def grows_def)
    have "grows (ap_db s) (ap_db s')" using growth.rel_trans g1 rest by blast
    moreover note ensureFamily_choice [OF s1 [unfolded Inr]]
    ultimately show ?thesis using rest unfolding same by auto
  qed
qed (auto simp: growth.rel_refl)


text \<open>
  On an expired day every family is laid out anew without a look at its positions: a contract that the
  settlement left open gets another strike.
\<close>

lemma expired_day_restrikes_open_positions:
  assumes "\<not> inOptionsRestrikeGap now" "\<And>g. g \<in> set OPTION_FAMILIES \<Longrightarrow> liveRows (db_series (ap_db s)) (familySeries g) (dayOf now) = []"
    and "f \<in> set OPTION_FAMILIES" "optionUnderlyingUnits f (underlyingUnits latest (ap_db s)) = Some u" "o' \<in> set (familySeries f)"
  shows "findRow (db_series (ap_db (snd (ensureSeries theoretical latest now s)))) (od_symbol o') =
    Some \<lparr>se_strike = strikeForSlot f (atmStrike f u) (od_slot o'), se_tradingDay = dayOf now\<rparr>"
proof -
  have "eachS (ensureFamily theoretical latest now (db_series (ap_db s))) fs acc s = (Inr (fst acc @ fs, snd acc), s)"
    if "set fs \<subseteq> set OPTION_FAMILIES" for fs acc
    using that assms(2)
  proof (induction fs arbitrary: acc)
    case (Cons g fs)
    then have "ensureFamily theoretical latest now (db_series (ap_db s)) g acc s = (Inr (fst acc @ [g], snd acc), s)"
      by (simp add: ensureFamily_def Let_def dayOf_def)
    then show ?case using Cons by (simp add: bindS_simps)
  qed simp
  from this [of OPTION_FAMILIES "([], None)"]
  have loop: "eachS (ensureFamily theoretical latest now (db_series (ap_db s))) OPTION_FAMILIES ([], None) s = (Inr (OPTION_FAMILIES, None), s)"
    by simp
  have "ensureSeries theoretical latest now s = restrike theoretical (underlyingUnits latest (ap_db s)) now OPTION_FAMILIES s"
    using assms(1,3) by (auto simp: ensureSeries_def bindS_def loop)
  moreover have "\<not> of_retired f" using assms(3) by (auto simp: OPTION_FAMILIES_def)
  ultimately show ?thesis
    using fold_restrike_rows [OF assms(3) subset_refl _ assms(4,5)] by (simp add: restrike_def)
qed

section \<open>Examples\<close>

theorem restrike_lays_ladder_witness:
  "isContiguousLadder (OPTION_FAMILIES ! 1) (familySeries (OPTION_FAMILIES ! 1))
     (findRow (db_series (ap_db (snd (restrike (\<lambda>_ _ _ _. 0) (\<lambda>_. Some 14000) 1800000000000 OPTION_FAMILIES demoSettlement)))))
     (dayOf 1800000000000)"
proof -
  have r: "roundQuot 14000 1 = 14000" "roundQuot 14000 50 = 280" by (simp_all add: roundQuot_eq)
  have "optionUnderlyingUnits (OPTION_FAMILIES ! 1) (\<lambda>_. Some 14000) = Some 14000" using r by (simp add: OPTION_FAMILIES_def optionUnderlyingUnits_def)
  moreover have "atmSlot (OPTION_FAMILIES ! 1) * of_strikeStepUnits (OPTION_FAMILIES ! 1) \<le> atmStrike (OPTION_FAMILIES ! 1) 14000"
    using r by (simp add: OPTION_FAMILIES_def atmSlot_def atmStrike_def)
  moreover have "OPTION_FAMILIES ! 1 \<in> set OPTION_FAMILIES" by (simp add: OPTION_FAMILIES_def)
  ultimately show ?thesis using restrike_lays_ladder by blast
qed

definition demoLadder :: api where
  "demoLadder = demoSettlement\<lparr>ap_db := demoFloorDb\<lparr>
     db_series := [(''UC1'', \<lparr>se_strike = 13000, se_tradingDay = dayOf 1800000000000\<rparr>), (''UC3'', \<lparr>se_strike = 13500, se_tradingDay = dayOf 1800000000000\<rparr>)],
     db_positions := [((''A'', ''UC3'', NET), \<lparr>po_qty = 1, po_entryValue = 700, po_marginHeld = 0, po_leverage = None\<rparr>)]\<rparr>\<rparr>"


end
