(* ===== verification/Auth_Service.thy ===== *)
theory Auth_Service
  imports Order_Margin
begin

text \<open>
  \<open>apps/api/src/auth/auth.service.ts\<close> and the nickname rules of \<open>packages/shared/src/constants.ts\<close>:
  signing up, logging in, renaming and changing the password. Text is ASCII here, so letters and digits
  are those of ASCII; \<open>bcrypt\<close> is the pair of parameters \<open>hash\<close> and \<open>compare\<close>; a token is the payload
  it signs.
\<close>

section \<open>Text\<close>

definition isSpace :: "char \<Rightarrow> bool" where
  "isSpace c \<longleftrightarrow> (let n = (of_char c :: nat) in n = 32 \<or> (9 \<le> n \<and> n \<le> 13))"

definition trimText :: "string \<Rightarrow> string" where
  "trimText s = rev (dropWhile isSpace (rev (dropWhile isSpace s)))"

definition lowerChar :: "char \<Rightarrow> char" where
  "lowerChar c = (let n = (of_char c :: nat) in if 65 \<le> n \<and> n \<le> 90 then char_of (n + 32) else c)"

definition toLowerCase :: "string \<Rightarrow> string" where
  "toLowerCase s = map lowerChar s"

section \<open>Nicknames\<close>

definition SIGNUP_BONUS :: int where "SIGNUP_BONUS = 10000000"

definition ADMIN_NICKNAME :: string where "ADMIN_NICKNAME = ''admin''"

definition NICKNAME_MIN :: nat where "NICKNAME_MIN = 2"

definition NICKNAME_MAX :: nat where "NICKNAME_MAX = 20"

definition nicknameChar :: "char \<Rightarrow> bool" where
  "nicknameChar c \<longleftrightarrow> (let n = (of_char c :: nat) in
     (48 \<le> n \<and> n \<le> 57) \<or> (65 \<le> n \<and> n \<le> 90) \<or> (97 \<le> n \<and> n \<le> 122) \<or> c \<in> set ''_.-'')"

text \<open>\<open>None\<close> is a value that is not a string.\<close>

definition normalizeNickname :: "string option \<Rightarrow> string" where
  "normalizeNickname raw = (case raw of None \<Rightarrow> [] | Some s \<Rightarrow> trimText s)"

definition isValidNickname :: "string \<Rightarrow> bool" where
  "isValidNickname nickname \<longleftrightarrow>
     NICKNAME_MIN \<le> length nickname \<and> length nickname \<le> NICKNAME_MAX \<and> list_all nicknameChar nickname"

section \<open>Users and accounts\<close>

definition userBy :: "(user_row \<Rightarrow> bool) \<Rightarrow> db \<Rightarrow> (string \<times> user_row) option" where
  "userBy wanted d = find (\<lambda>(i, u). wanted u) (db_users d)"

definition accountOfUser :: "string \<Rightarrow> db \<Rightarrow> (string \<times> account_row) option" where
  "accountOfUser userId d = find (\<lambda>(i, a). ac_userId a = userId) (db_accounts d)"

text \<open>The unique keys of \<open>users\<close> (a null e-mail is never equal) and of \<open>accounts\<close>.\<close>

definition createUser :: "string \<Rightarrow> user_row \<Rightarrow> db \<Rightarrow> error + db" where
  "createUser i u d =
     (if findRow (db_users d) i \<noteq> None \<or> userBy (\<lambda>v. us_nickname v = us_nickname u) d \<noteq> None \<or>
         (us_email u \<noteq> None \<and> userBy (\<lambda>v. us_email v = us_email u) d \<noteq> None)
      then Inl (UniqueViolation ''users'') else Inr (d\<lparr>db_users := db_users d @ [(i, u)]\<rparr>))"

definition createAccount :: "string \<Rightarrow> string \<Rightarrow> int \<Rightarrow> db \<Rightarrow> error + db" where
  "createAccount i userId balance d =
     (if findRow (db_accounts d) i \<noteq> None \<or> accountOfUser userId d \<noteq> None then Inl (UniqueViolation ''accounts'')
      else if 0 \<le> balance then Inr (d\<lparr>db_accounts := db_accounts d @
             [(i, \<lparr>ac_userId = userId, ac_balance = balance, ac_holdAmount = 0, ac_version = 0, ac_fencingToken = 0\<rparr>)]\<rparr>)
      else Inl (CheckViolation ''accounts''))"

definition isUniqueViolation :: "error \<Rightarrow> bool" where
  "isUniqueViolation e \<longleftrightarrow> (case e of UniqueViolation t \<Rightarrow> True | _ \<Rightarrow> False)"

text \<open>\<open>catch\<close> that turns a violated unique key into a conflict.\<close>

definition uniqueToConflict :: "error + 'a \<Rightarrow> error + 'a" where
  "uniqueToConflict r = (case r of Inr x \<Rightarrow> Inr x
     | Inl e \<Rightarrow> Inl (if isUniqueViolation e then ConflictError ''nickname'' else e))"

text \<open>The case-insensitive look-up before a nickname is taken.\<close>

definition assertNicknameFree :: "string \<Rightarrow> string option \<Rightarrow> db \<Rightarrow> error + unit" where
  "assertNicknameFree nickname exceptUserId d =
     assertE (\<not> (\<exists>(i, u) \<in> set (db_users d). toLowerCase (us_nickname u) = toLowerCase nickname \<and> Some i \<noteq> exceptUserId))
       (ConflictError ''nickname'')"

section \<open>Signing up\<close>

record jwt_user =
  ju_userId :: string
  ju_accountId :: string
  ju_nickname :: string
  ju_isAdmin :: bool

definition signupCheck :: "string \<Rightarrow> string \<Rightarrow> db \<Rightarrow> error + unit" where
  "signupCheck name password d =
     bindE (assertE (isValidNickname name) (BadRequest ''nickname'')) (\<lambda>_.
     bindE (assertE (toLowerCase name \<noteq> ADMIN_NICKNAME) (ConflictError ''nickname'')) (\<lambda>_.
     bindE (assertE (length password \<ge> 4) (BadRequest ''password'')) (\<lambda>_.
     assertNicknameFree name None d)))"

definition newUser :: "string \<Rightarrow> string \<Rightarrow> user_row" where
  "newUser name passwordHash =
     \<lparr>us_isBot = False, us_isAdmin = False, us_email = None, us_nickname = name, us_passwordHash = passwordHash\<rparr>"

definition bonusEntry :: "string \<Rightarrow> ledger_row" where
  "bonusEntry accountId = \<lparr>le_accountId = accountId, le_delta = SIGNUP_BONUS, le_balanceAfter = SIGNUP_BONUS,
     le_reason = ''SIGNUP_BONUS'', le_refId = None\<rparr>"

text \<open>The transaction: the user, the account with the bonus and its ledger row.\<close>

definition signupBody :: "string \<Rightarrow> string \<Rightarrow> string \<Rightarrow> string \<Rightarrow> db \<Rightarrow> error + unit \<times> db" where
  "signupBody userId accountId name passwordHash d =
     bindE (uniqueToConflict (createUser userId (newUser name passwordHash) d)) (\<lambda>d.
     bindE (createAccount accountId userId SIGNUP_BONUS d) (\<lambda>d.
     Inr ((), createLedger (bonusEntry accountId) d)))"

definition signup :: "(string \<Rightarrow> string) \<Rightarrow> string option \<Rightarrow> string \<Rightarrow> jwt_user service" where
  "signup hash nickname password =
     (let name = normalizeNickname nickname in
      bindS (readDb (signupCheck name password)) (\<lambda>checked.
      bindS (liftS checked) (\<lambda>_.
      bindS freshId (\<lambda>userId. bindS freshId (\<lambda>accountId.
      bindS (txS (signupBody userId accountId name (hash password))) (\<lambda>_.
      returnS \<lparr>ju_userId = userId, ju_accountId = accountId, ju_nickname = name, ju_isAdmin = False\<rparr>))))))"

section \<open>Logging in\<close>

definition loginUser :: "string option \<Rightarrow> string option \<Rightarrow> db \<Rightarrow> (string \<times> user_row) option" where
  "loginUser nickname email d =
     (let name = normalizeNickname nickname; mail = (case email of None \<Rightarrow> [] | Some e \<Rightarrow> trimText e)
      in if name \<noteq> [] then userBy (\<lambda>u. us_nickname u = name) d
         else if mail \<noteq> [] then userBy (\<lambda>u. us_email u = Some mail) d
         else None)"

definition tokenFor :: "string \<Rightarrow> user_row \<Rightarrow> db \<Rightarrow> error + jwt_user" where
  "tokenFor userId u d =
     (case accountOfUser userId d of
        None \<Rightarrow> Inl (Unauthorized ''account'')
      | Some (accountId, a) \<Rightarrow> Inr \<lparr>ju_userId = userId, ju_accountId = accountId, ju_nickname = us_nickname u,
          ju_isAdmin = us_isAdmin u\<rparr>)"

definition login :: "(string \<Rightarrow> string \<Rightarrow> bool) \<Rightarrow> string option \<Rightarrow> string option \<Rightarrow> string option \<Rightarrow> db \<Rightarrow> error + jwt_user" where
  "login compare nickname email password d =
     (case loginUser nickname email d of
        None \<Rightarrow> Inl (Unauthorized ''nickname or password'')
      | Some (userId, u) \<Rightarrow>
          if \<not> compare (case password of None \<Rightarrow> [] | Some p \<Rightarrow> p) (us_passwordHash u)
          then Inl (Unauthorized ''nickname or password'') else tokenFor userId u d)"

section \<open>Renaming and changing the password\<close>

definition updateUser :: "string \<Rightarrow> (user_row \<Rightarrow> user_row) \<Rightarrow> db \<Rightarrow> error + user_row \<times> db" where
  "updateUser userId f d =
     (case findRow (db_users d) userId of
        None \<Rightarrow> Inl (RowNotFound ''users'')
      | Some u \<Rightarrow>
          if \<exists>(i, v) \<in> set (db_users d). i \<noteq> userId \<and> us_nickname v = us_nickname (f u)
          then Inl (UniqueViolation ''users'')
          else Inr (f u, d\<lparr>db_users := putRow userId (f u) (db_users d)\<rparr>))"

definition renameCheck :: "string \<Rightarrow> string \<Rightarrow> db \<Rightarrow> error + unit" where
  "renameCheck userId name d =
     bindE (assertE (isValidNickname name) (BadRequest ''nickname'')) (\<lambda>_.
     bindE (assertE (toLowerCase name \<noteq> ADMIN_NICKNAME) (ConflictError ''nickname'')) (\<lambda>_.
     bindE (assertE (case findRow (db_users d) userId of None \<Rightarrow> True | Some u \<Rightarrow> \<not> us_isAdmin u) (BadRequest ''admin'')) (\<lambda>_.
     assertNicknameFree name (Some userId) d)))"

definition updateNickname :: "string \<Rightarrow> string option \<Rightarrow> jwt_user service" where
  "updateNickname userId nickname =
     (let name = normalizeNickname nickname in
      bindS (readDb (renameCheck userId name)) (\<lambda>checked.
      bindS (liftS checked) (\<lambda>_.
      bindS (txS (\<lambda>d. uniqueToConflict (updateUser userId (\<lambda>u. u\<lparr>us_nickname := name\<rparr>) d))) (\<lambda>u.
      bindS (readDb (tokenFor userId u)) liftS))))"

definition changePassword ::
  "(string \<Rightarrow> string) \<Rightarrow> (string \<Rightarrow> string \<Rightarrow> bool) \<Rightarrow> string \<Rightarrow> string option \<Rightarrow> string \<Rightarrow> unit service" where
  "changePassword hash compare userId currentPassword newPassword =
     (if length newPassword < 4 then throwS (BadRequest ''password'')
      else bindS (readDb (\<lambda>d. findRow (db_users d) userId)) (\<lambda>user. case user of
        None \<Rightarrow> throwS (Unauthorized ''user'')
      | Some u \<Rightarrow>
          if \<not> compare (case currentPassword of None \<Rightarrow> [] | Some p \<Rightarrow> p) (us_passwordHash u)
          then throwS (Unauthorized ''password'')
          else bindS (txS (updateUser userId (\<lambda>u. u\<lparr>us_passwordHash := hash newPassword\<rparr>))) (\<lambda>_. returnS ())))"

end
