(* ===== verification/Liquidity_Service.thy ===== *)
theory Liquidity_Service
  imports Auth_Service
begin

text \<open>
  \<open>apps/api/src/liquidity\<close>: the reserve accounts of the market makers. A reserve gets a bot user and an
  account of its own and is topped up to a floor of available cash (and, for a stock, of available
  shares). \<open>others\<close> is what other processes do between the look-up of an identity and its creation, per
  attempt; the environment variables and the password hash are arguments; the pauses between attempts
  are left out.
\<close>

section \<open>Reserves\<close>

definition LIQUIDITY_MIN_AVAILABLE_CASH :: int where "LIQUIDITY_MIN_AVAILABLE_CASH = 1000000000"

definition LIQUIDITY_MIN_AVAILABLE_QTY :: int where "LIQUIDITY_MIN_AVAILABLE_QTY = 50000"

definition FUTURES_LIQUIDITY_MIN_AVAILABLE_CASH :: int where "FUTURES_LIQUIDITY_MIN_AVAILABLE_CASH = 500000000"

definition LIQUIDITY_RESERVE_OVERLAP_MULTIPLIER :: int where "LIQUIDITY_RESERVE_OVERLAP_MULTIPLIER = 4"

definition liquidityMinimumAvailableQty :: "int \<Rightarrow> int" where
  "liquidityMinimumAvailableQty lastPrice =
     max LIQUIDITY_MIN_AVAILABLE_QTY
       (liquidityTotalQtyForPrice (Some (of_int lastPrice)) * LIQUIDITY_RESERVE_OVERLAP_MULTIPLIER)"

record liquidity_reserve =
  lr_symbol :: string
  lr_email :: string
  lr_nickname :: string

definition reserveBotNumber :: "string \<Rightarrow> error + int" where
  "reserveBotNumber symbol = someE (liquidityReserveBotNumber symbol) (Thrown ''no liquidity reserve slot'')"

definition reserveFor :: "string \<Rightarrow> error + liquidity_reserve" where
  "reserveFor name =
     bindE (reserveBotNumber name) (\<lambda>botNumber.
       Inr \<lparr>lr_symbol = name, lr_email = ''bot'' @ showNat (nat botNumber) @ ''@bots.local'',
            lr_nickname = ''Liquidity '' @ name\<rparr>)"

fun mapE :: "('a \<Rightarrow> 'e + 'b) \<Rightarrow> 'a list \<Rightarrow> 'e + 'b list" where
  "mapE f [] = Inr []"
| "mapE f (x # xs) = bindE (f x) (\<lambda>y. bindE (mapE f xs) (\<lambda>ys. Inr (y # ys)))"

definition liquidityReserves :: "error + liquidity_reserve list" where
  "liquidityReserves = mapE reserveFor (map sd_symbol SYMBOLS)"

definition futuresLiquidityReserves :: "error + liquidity_reserve list" where
  "futuresLiquidityReserves = mapE reserveFor (map fd_symbol FUTURES @ map of_reserve ALL_OPTION_FAMILIES)"

definition liquidityBootstrapToken :: "string option \<Rightarrow> string option \<Rightarrow> string" where
  "liquidityBootstrapToken LIQUIDITY_BOOTSTRAP_TOKEN JWT_SECRET =
     (case LIQUIDITY_BOOTSTRAP_TOKEN of Some t \<Rightarrow> t | None \<Rightarrow>
        (case JWT_SECRET of Some t \<Rightarrow> t | None \<Rightarrow> ''mock-kabu2-local-dev-secret''))"

section \<open>Identity\<close>

record reserve_identity =
  ri_accountId :: string
  ri_created :: bool

definition reserveUser :: "string \<Rightarrow> liquidity_reserve \<Rightarrow> user_row" where
  "reserveUser passwordHash reserve' =
     \<lparr>us_isBot = True, us_isAdmin = False, us_email = Some (lr_email reserve'), us_nickname = lr_nickname reserve',
      us_passwordHash = passwordHash\<rparr>"

definition ensureAccount :: "(api \<Rightarrow> api) \<Rightarrow> string \<Rightarrow> reserve_identity service" where
  "ensureAccount others userId =
     bindS (readDb (accountOfUser userId)) (\<lambda>existing. case existing of
       Some (i, a) \<Rightarrow> returnS \<lparr>ri_accountId = i, ri_created = False\<rparr>
     | None \<Rightarrow> \<lambda>s. bindS freshId (\<lambda>i.
         bindS (txS (\<lambda>d. bindE (createAccount i userId 0 d) (\<lambda>d. Inr ((), d)))) (\<lambda>_.
         returnS \<lparr>ri_accountId = i, ri_created = True\<rparr>)) (others s))"

definition ensureIdentity :: "(api \<Rightarrow> api) \<Rightarrow> string \<Rightarrow> liquidity_reserve \<Rightarrow> reserve_identity service" where
  "ensureIdentity others passwordHash reserve' =
     bindS (readDb (userBy (\<lambda>u. us_email u = Some (lr_email reserve')))) (\<lambda>user. case user of
       Some (i, u) \<Rightarrow>
         if \<not> us_isBot u then throwS (ConflictError ''reserve email of a user'') else ensureAccount others i
     | None \<Rightarrow> \<lambda>s. bindS freshId (\<lambda>i.
         bindS (txS (\<lambda>d. bindE (createUser i (reserveUser passwordHash reserve') d) (\<lambda>d. Inr ((), d)))) (\<lambda>_.
         ensureAccount others i)) (others s))"

text \<open>Up to four attempts; the counter is the number of attempts left.\<close>

fun identityAttempts ::
  "(nat \<Rightarrow> api \<Rightarrow> api) \<Rightarrow> string \<Rightarrow> liquidity_reserve \<Rightarrow> nat \<Rightarrow> reserve_identity service" where
  "identityAttempts others passwordHash reserve' 0 = throwS (Thrown ''unreachable liquidity identity retry'')"
| "identityAttempts others passwordHash reserve' (Suc n) =
     catchS (ensureIdentity (others n) passwordHash reserve')
       (\<lambda>e. if \<not> isUniqueViolation e \<or> n = 0 then throwS e else identityAttempts others passwordHash reserve' n)"

definition ensureIdentityWithRetry ::
  "(nat \<Rightarrow> api \<Rightarrow> api) \<Rightarrow> string \<Rightarrow> liquidity_reserve \<Rightarrow> reserve_identity service" where
  "ensureIdentityWithRetry others passwordHash reserve' = identityAttempts others passwordHash reserve' 4"

section \<open>Topping up\<close>

definition liquidityEntry :: "reserve_identity \<Rightarrow> int \<Rightarrow> int \<Rightarrow> ledger_row" where
  "liquidityEntry identity' added balanceAfter =
     \<lparr>le_accountId = ri_accountId identity', le_delta = added, le_balanceAfter = balanceAfter,
      le_reason = (if ri_created identity' then ''LIQUIDITY_BOOTSTRAP'' else ''LIQUIDITY_REBALANCE''), le_refId = None\<rparr>"

text \<open>Cash up to the floor, with its ledger row.\<close>

definition addCash :: "lock_ctx \<Rightarrow> reserve_identity \<Rightarrow> int \<Rightarrow> db \<Rightarrow> error + db" where
  "addCash ctx identity' added d =
     (if added > 0 then
        let account = snapshotOf ctx (ri_accountId identity'); balanceAfter = as_balance account + added
        in bindE (cx_update ctx (ri_accountId identity') balanceAfter (as_holdAmount account) d) (\<lambda>d.
           Inr (createLedger (liquidityEntry identity' added balanceAfter) d))
      else Inr d)"

definition futuresReserveBody :: "reserve_identity \<Rightarrow> int body" where
  "futuresReserveBody identity' ctx d =
     (let account = snapshotOf ctx (ri_accountId identity');
          available = as_balance account - as_holdAmount account - futuresMarginHeld d (ri_accountId identity');
          added = (if available < FUTURES_LIQUIDITY_MIN_AVAILABLE_CASH
                   then FUTURES_LIQUIDITY_MIN_AVAILABLE_CASH - available else 0)
      in bindE (addCash ctx identity' added d) (\<lambda>d. Inr (added, d)))"

text \<open>The upsert of the shares: both amounts are increments.\<close>

definition addHolding :: "string \<times> string \<Rightarrow> int \<Rightarrow> int \<Rightarrow> db \<Rightarrow> error + db" where
  "addHolding key qtyAdded costAdded d =
     writeHolding key (holdingAfterBuy (findRow (db_holdings d) key) qtyAdded costAdded) d"

definition reserveBody :: "liquidity_reserve \<Rightarrow> reserve_identity \<Rightarrow> (int \<times> int) body" where
  "reserveBody reserve' identity' ctx d =
     (let account = snapshotOf ctx (ri_accountId identity');
          availableCash = as_balance account - as_holdAmount account;
          cashAdded = (if availableCash < LIQUIDITY_MIN_AVAILABLE_CASH
                       then LIQUIDITY_MIN_AVAILABLE_CASH - availableCash else 0);
          key = (ri_accountId identity', lr_symbol reserve')
      in bindE (addCash ctx identity' cashAdded d) (\<lambda>d.
         case findRow (db_symbols d) (lr_symbol reserve') of
           None \<Rightarrow> Inl (Thrown ''liquidity reserve symbol is missing'')
         | Some symbol \<Rightarrow>
             let availableQty = (case findRow (db_holdings d) key of None \<Rightarrow> 0 | Some h \<Rightarrow> ho_qty h - ho_holdQty h);
                 qtyAdded = max 0 (liquidityMinimumAvailableQty (sy_lastPrice symbol) - availableQty)
             in bindE (if qtyAdded > 0 then addHolding key qtyAdded (max 1 (sy_lastPrice symbol) * qtyAdded) d
                       else Inr d) (\<lambda>d. Inr ((cashAdded, qtyAdded), d))))"

record reserve_result =
  rr_symbol :: string
  rr_email :: string
  rr_created :: bool
  rr_cashAdded :: int
  rr_qtyAdded :: int

definition ensureReserve :: "(nat \<Rightarrow> api \<Rightarrow> api) \<Rightarrow> string \<Rightarrow> liquidity_reserve \<Rightarrow> reserve_result service" where
  "ensureReserve others passwordHash reserve' =
     bindS (ensureIdentityWithRetry others passwordHash reserve') (\<lambda>identity'.
     bindS (txS (pessimisticLock [ri_accountId identity'] (reserveBody reserve' identity'))) (\<lambda>(cashAdded, qtyAdded).
     returnS \<lparr>rr_symbol = lr_symbol reserve', rr_email = lr_email reserve', rr_created = ri_created identity',
       rr_cashAdded = cashAdded, rr_qtyAdded = qtyAdded\<rparr>))"

definition ensureFuturesReserve :: "(nat \<Rightarrow> api \<Rightarrow> api) \<Rightarrow> string \<Rightarrow> liquidity_reserve \<Rightarrow> reserve_result service" where
  "ensureFuturesReserve others passwordHash reserve' =
     bindS (ensureIdentityWithRetry others passwordHash reserve') (\<lambda>identity'.
     bindS (txS (pessimisticLock [ri_accountId identity'] (futuresReserveBody identity'))) (\<lambda>cashAdded.
     returnS \<lparr>rr_symbol = lr_symbol reserve', rr_email = lr_email reserve', rr_created = ri_created identity',
       rr_cashAdded = cashAdded, rr_qtyAdded = 0\<rparr>))"

section \<open>All reserves\<close>

definition assertToken :: "string \<Rightarrow> string option \<Rightarrow> error + unit" where
  "assertToken expected presentedToken =
     assertE ((case presentedToken of None \<Rightarrow> [] | Some t \<Rightarrow> t) = expected) (Unauthorized ''liquidity bootstrap token'')"

definition ensureReserves ::
  "(nat \<Rightarrow> api \<Rightarrow> api) \<Rightarrow> string \<Rightarrow> string \<Rightarrow> string option \<Rightarrow> reserve_result list service" where
  "ensureReserves others passwordHash expected presentedToken =
     bindS (liftS (assertToken expected presentedToken)) (\<lambda>_.
     bindS (liftS liquidityReserves) (\<lambda>spots.
     bindS (eachS (\<lambda>r acc. bindS (ensureReserve others passwordHash r) (\<lambda>x. returnS (acc @ [x]))) spots []) (\<lambda>acc.
     bindS (liftS futuresLiquidityReserves) (\<lambda>derivatives.
     eachS (\<lambda>r acc. bindS (ensureFuturesReserve others passwordHash r) (\<lambda>x. returnS (acc @ [x]))) derivatives acc))))"

end
