(* ===== verification/Recovery_Plan.thy ===== *)
theory Recovery_Plan
  imports Settlement_Worker
begin

text \<open>
  \<open>packages/db/scripts/settlement-recovery-plan.ts\<close>: the plan that replays trades the settlement worker
  never settled. The planner works on plain rows, as the script that calls it has read them; statuses and
  sides are the stored text. A \<open>Map\<close> is an association list in insertion order; the composite key of a
  holding is the pair of account and symbol. The text of an issue is left out: an issue is its code, the
  ids it names and the numbers its text shows.
\<close>

section \<open>Input\<close>

record recovery_trade =
  rt_id :: string
  rt_symbol :: string
  rt_price :: int
  rt_qty :: int
  rt_buyOrderId :: string
  rt_sellOrderId :: string
  rt_buyerAccountId :: string
  rt_sellerAccountId :: string
  rt_createdAt :: int

record recovery_order =
  ro_id :: string
  ro_accountId :: string
  ro_symbol :: string
  ro_side :: string
  ro_qty :: int
  ro_filledQty :: int
  ro_status :: string
  ro_holdPerUnit :: int

record recovery_account =
  ra_balance :: int
  ra_holdAmount :: int
  ra_versionIncrement :: int

record recovery_holding =
  rh_qty :: int
  rh_holdQty :: int
  rh_costBasis :: int
  rh_existed :: bool

record recovery_input =
  in_trades :: "recovery_trade list"
  in_orders :: "recovery_order list"
  in_accounts :: "(string, recovery_account) rows"
  in_holdings :: "(string \<times> string, recovery_holding) rows"
  in_recorded :: "(string, int) rows"
  in_unsettled :: "(string, int) rows"
  in_knownSymbols :: "string list"

section \<open>Issues\<close>

datatype issue_code =
    ACCOUNT_MISSING
  | BUY_ORDER_INVALID
  | SELL_ORDER_INVALID
  | MARKET_SYMBOL_MISSING
  | ORDER_OVERFILLED
  | ORDER_FILLED_QTY_MISMATCH
  | TRADE_INVALID
  | FEE_AWARE_REPLAY_REQUIRED
  | INSUFFICIENT_RESERVED_CASH
  | INSUFFICIENT_CASH
  | INSUFFICIENT_HOLDING
  | INSUFFICIENT_RESERVED_HOLDING
  | INVALID_POST_STATE

text \<open>\<open>is_text\<close> tells the messages of one code apart, \<open>is_symbol\<close> and \<open>is_values\<close> are what they quote.\<close>

record recovery_issue =
  is_code :: issue_code
  is_tradeId :: "string option"
  is_orderId :: "string option"
  is_accountId :: "string option"
  is_text :: string
  is_symbol :: string
  is_values :: "int list"

definition orderIssue :: "issue_code \<Rightarrow> string \<Rightarrow> string \<Rightarrow> int list \<Rightarrow> recovery_issue" where
  "orderIssue code orderId label vs = \<lparr>is_code = code, is_tradeId = None, is_orderId = Some orderId,
     is_accountId = None, is_text = label, is_symbol = [], is_values = vs\<rparr>"

definition tradeIssue :: "issue_code \<Rightarrow> string \<Rightarrow> string \<Rightarrow> recovery_issue" where
  "tradeIssue code tradeId label = \<lparr>is_code = code, is_tradeId = Some tradeId, is_orderId = None,
     is_accountId = None, is_text = label, is_symbol = [], is_values = []\<rparr>"

definition accountIssue :: "issue_code \<Rightarrow> string \<Rightarrow> string \<Rightarrow> string \<Rightarrow> int list \<Rightarrow> recovery_issue" where
  "accountIssue code accountId label symbol vs = \<lparr>is_code = code, is_tradeId = None, is_orderId = None,
     is_accountId = Some accountId, is_text = label, is_symbol = symbol, is_values = vs\<rparr>"

definition whenIssue :: "bool \<Rightarrow> recovery_issue \<Rightarrow> recovery_issue list" where
  "whenIssue b i = (if b then [i] else [])"

section \<open>Orders\<close>

definition ACTIVE_ORDER_STATUSES :: "string list" where
  "ACTIVE_ORDER_STATUSES = [''OPEN'', ''PARTIAL'']"

definition TERMINAL_ORDER_STATUSES :: "string list" where
  "TERMINAL_ORDER_STATUSES = [''FILLED'', ''CANCELED'', ''REJECTED'']"

definition isSafeInteger :: "int \<Rightarrow> bool" where
  "isSafeInteger n \<longleftrightarrow> \<bar>n\<bar> < 2 ^ 53"

definition isPositiveInteger :: "int \<Rightarrow> bool" where
  "isPositiveInteger n \<longleftrightarrow> isSafeInteger n \<and> n > 0"

definition validOrderState :: "recovery_order \<Rightarrow> int \<Rightarrow> recovery_issue option" where
  "validOrderState order recordedQty =
     (let qty = ro_qty order; filled = ro_filledQty order; status = ro_status order; i = ro_id order
      in if \<not> isSafeInteger qty \<or> qty \<le> 0 \<or> \<not> isSafeInteger filled \<or> filled < 0
         then Some (orderIssue ORDER_FILLED_QTY_MISMATCH i ''quantities'' [])
         else if recordedQty > qty then Some (orderIssue ORDER_OVERFILLED i ''overfilled'' [recordedQty, qty])
         else if filled > recordedQty
         then Some (orderIssue ORDER_FILLED_QTY_MISMATCH i ''filled above recorded'' [filled, recordedQty])
         else if status \<notin> set ACTIVE_ORDER_STATUSES \<and> status \<notin> set TERMINAL_ORDER_STATUSES
         then Some (orderIssue ORDER_FILLED_QTY_MISMATCH i (''status '' @ status) [])
         else if status \<in> set TERMINAL_ORDER_STATUSES \<and> filled \<noteq> recordedQty
         then Some (orderIssue ORDER_FILLED_QTY_MISMATCH i ''terminal'' [filled, recordedQty])
         else if status = ''REJECTED'' \<and> recordedQty \<noteq> 0
         then Some (orderIssue ORDER_FILLED_QTY_MISMATCH i ''rejected'' [])
         else None)"

section \<open>Reservations before the replay\<close>

definition addQty :: "'k \<Rightarrow> int \<Rightarrow> ('k, int) rows \<Rightarrow> ('k, int) rows" where
  "addQty k x m = putRow k ((case findRow m k of None \<Rightarrow> 0 | Some y \<Rightarrow> y) + x) m"

definition qtyOr0 :: "('k, int) rows \<Rightarrow> 'k \<Rightarrow> int" where
  "qtyOr0 m k = (case findRow m k of None \<Rightarrow> 0 | Some y \<Rightarrow> y)"

text \<open>What the orders say should be reserved: before and after the replay, in cash and in shares.\<close>

record reservations =
  rs_issues :: "recovery_issue list"
  rs_preCash :: "(string, int) rows"
  rs_finalCash :: "(string, int) rows"
  rs_preQty :: "(string \<times> string, int) rows"
  rs_finalQty :: "(string \<times> string, int) rows"

definition activeRemainder :: "recovery_order \<Rightarrow> int \<Rightarrow> int" where
  "activeRemainder order recordedQty =
     (if ro_status order \<in> set ACTIVE_ORDER_STATUSES then max 0 (ro_qty order - recordedQty) else 0)"

definition reserveOrder :: "recovery_input \<Rightarrow> recovery_order \<Rightarrow> reservations \<Rightarrow> reservations" where
  "reserveOrder inp order st =
     (let recordedQty = qtyOr0 (in_recorded inp) (ro_id order);
          unsettledQty = qtyOr0 (in_unsettled inp) (ro_id order);
          i = ro_id order; a = ro_accountId order;
          issues = rs_issues st @ (case validOrderState order recordedQty of None \<Rightarrow> [] | Some x \<Rightarrow> [x]);
          fail = (\<lambda>x. st\<lparr>rs_issues := issues @ [x]\<rparr>)
      in if \<not> isSafeInteger unsettledQty \<or> unsettledQty < 0 \<or> unsettledQty > recordedQty
         then fail (orderIssue ORDER_FILLED_QTY_MISMATCH i ''unsettled'' [])
         else if findRow (in_accounts inp) a = None
         then fail ((orderIssue ACCOUNT_MISSING i ''account'' [])\<lparr>is_accountId := Some a\<rparr>)
         else if ro_side order \<noteq> ''BUY'' \<and> ro_side order \<noteq> ''SELL''
         then fail (orderIssue SELL_ORDER_INVALID i ''side'' [])
         else
           let rest = activeRemainder order recordedQty; pre = unsettledQty + rest
           in if ro_side order = ''BUY'' then
                if ro_holdPerUnit order < 0 then fail (orderIssue BUY_ORDER_INVALID i ''hold'' [])
                else st\<lparr>rs_issues := issues,
                        rs_preCash := addQty a (ro_holdPerUnit order * pre) (rs_preCash st),
                        rs_finalCash := addQty a (ro_holdPerUnit order * rest) (rs_finalCash st)\<rparr>
              else st\<lparr>rs_issues := issues,
                      rs_preQty := addQty (a, ro_symbol order) pre (rs_preQty st),
                      rs_finalQty := addQty (a, ro_symbol order) rest (rs_finalQty st)\<rparr>)"

text \<open>Accounts and holdings that no order mentions must have no reservation.\<close>

definition defaultZero :: "'k list \<Rightarrow> ('k, int) rows \<Rightarrow> ('k, int) rows" where
  "defaultZero ks m = fold (\<lambda>k m. if findRow m k = None then putRow k 0 m else m) ks m"

definition orderReservations :: "recovery_input \<Rightarrow> reservations" where
  "orderReservations inp =
     (let st = fold (reserveOrder inp) (in_orders inp)
            \<lparr>rs_issues = [], rs_preCash = [], rs_finalCash = [], rs_preQty = [], rs_finalQty = []\<rparr>;
          accounts = map fst (in_accounts inp); holdings = map fst (in_holdings inp)
      in st\<lparr>rs_preCash := defaultZero accounts (rs_preCash st), rs_finalCash := defaultZero accounts (rs_finalCash st),
            rs_preQty := defaultZero holdings (rs_preQty st), rs_finalQty := defaultZero holdings (rs_finalQty st)\<rparr>)"

record account_adjustment =
  aa_accountId :: string
  aa_fromHoldAmount :: int
  aa_toHoldAmount :: int

record holding_adjustment =
  ha_accountId :: string
  ha_symbol :: string
  ha_fromHoldQty :: int
  ha_toHoldQty :: int

record prestate =
  ps_issues :: "recovery_issue list"
  ps_accounts :: "(string, recovery_account) rows"
  ps_holdings :: "(string \<times> string, recovery_holding) rows"
  ps_accountAdjustments :: "account_adjustment list"
  ps_holdingAdjustments :: "holding_adjustment list"
  ps_finalCash :: "(string, int) rows"
  ps_finalQty :: "(string \<times> string, int) rows"

definition adjustAccount :: "string \<times> int \<Rightarrow> prestate \<Rightarrow> prestate" where
  "adjustAccount x st = (case x of (accountId, target) \<Rightarrow>
     (case findRow (ps_accounts st) accountId of
        None \<Rightarrow> st
      | Some account \<Rightarrow>
          if target < 0 \<or> target > ra_balance account
          then st\<lparr>ps_issues := ps_issues st @ [accountIssue
                 (if target > ra_balance account then INSUFFICIENT_CASH else INVALID_POST_STATE)
                 accountId ''reserved cash'' [] [target, ra_balance account]]\<rparr>
          else if ra_holdAmount account \<noteq> target
          then st\<lparr>ps_accountAdjustments := ps_accountAdjustments st @
                   [\<lparr>aa_accountId = accountId, aa_fromHoldAmount = ra_holdAmount account, aa_toHoldAmount = target\<rparr>],
                  ps_accounts := putRow accountId (account\<lparr>ra_holdAmount := target\<rparr>) (ps_accounts st)\<rparr>
          else st))"

definition adjustHolding :: "(string \<times> string) \<times> int \<Rightarrow> prestate \<Rightarrow> prestate" where
  "adjustHolding x st = (case x of (key, target) \<Rightarrow>
     (case findRow (ps_holdings st) key of
        None \<Rightarrow>
          st\<lparr>ps_issues := ps_issues st @ whenIssue (target > 0)
               (accountIssue INSUFFICIENT_HOLDING (fst key) ''no holding'' (snd key) [])\<rparr>
      | Some holding \<Rightarrow>
          if target < 0 \<or> target > rh_qty holding
          then st\<lparr>ps_issues := ps_issues st @ [accountIssue
                 (if target > rh_qty holding then INSUFFICIENT_HOLDING else INVALID_POST_STATE)
                 (fst key) ''reserved shares'' (snd key) [target, rh_qty holding]]\<rparr>
          else if rh_holdQty holding \<noteq> target
          then st\<lparr>ps_holdingAdjustments := ps_holdingAdjustments st @
                   [\<lparr>ha_accountId = fst key, ha_symbol = snd key, ha_fromHoldQty = rh_holdQty holding, ha_toHoldQty = target\<rparr>],
                  ps_holdings := putRow key (holding\<lparr>rh_holdQty := target\<rparr>) (ps_holdings st)\<rparr>
          else st))"

definition buildReservationPrestate :: "recovery_input \<Rightarrow> prestate" where
  "buildReservationPrestate inp =
     (let rs = orderReservations inp
      in fold adjustHolding (rs_preQty rs) (fold adjustAccount (rs_preCash rs)
           \<lparr>ps_issues = rs_issues rs, ps_accounts = in_accounts inp, ps_holdings = in_holdings inp,
            ps_accountAdjustments = [], ps_holdingAdjustments = [],
            ps_finalCash = rs_finalCash rs, ps_finalQty = rs_finalQty rs\<rparr>))"

section \<open>Replaying the trades\<close>

record replay_state =
  sp_issues :: "recovery_issue list"
  sp_accounts :: "(string, recovery_account) rows"
  sp_holdings :: "(string \<times> string, recovery_holding) rows"
  sp_ledger :: "ledger_row list"
  sp_pnl :: "(string \<times> pnl_row) list"
  sp_settled :: "string list"
  sp_buckets :: "(string \<times> int) list"

definition ordersById :: "recovery_input \<Rightarrow> (string, recovery_order) rows" where
  "ordersById inp = map (\<lambda>o'. (ro_id o', o')) (in_orders inp)"

text \<open>What speaks against one side of a trade: its order, in one of two ways.\<close>

definition sideIssues :: "issue_code \<Rightarrow> string \<Rightarrow> string \<Rightarrow> recovery_order option \<Rightarrow> bool \<Rightarrow> (recovery_order \<Rightarrow> bool) \<Rightarrow> recovery_issue list" where
  "sideIssues code tradeId orderId order invalid wrong =
     (case order of
        None \<Rightarrow> [(tradeIssue code tradeId ''order'')\<lparr>is_orderId := Some orderId\<rparr>]
      | Some o' \<Rightarrow>
          if invalid then [(tradeIssue code tradeId ''order'')\<lparr>is_orderId := Some orderId\<rparr>]
          else whenIssue (wrong o') ((tradeIssue code tradeId ''order fields'')\<lparr>is_orderId := Some orderId\<rparr>))"

definition tradeIssues :: "recovery_input \<Rightarrow> string list \<Rightarrow> (string, recovery_account) rows \<Rightarrow> recovery_trade \<Rightarrow> recovery_issue list" where
  "tradeIssues inp invalid accounts t =
     whenIssue (\<not> isPositiveInteger (rt_price t) \<or> \<not> isPositiveInteger (rt_qty t)) (tradeIssue TRADE_INVALID (rt_id t) ''amounts'') @
     whenIssue (rt_symbol t \<notin> set (in_knownSymbols inp)) (tradeIssue MARKET_SYMBOL_MISSING (rt_id t) ''symbol'') @
     sideIssues BUY_ORDER_INVALID (rt_id t) (rt_buyOrderId t) (findRow (ordersById inp) (rt_buyOrderId t))
       (rt_buyOrderId t \<in> set invalid)
       (\<lambda>o'. ro_side o' \<noteq> ''BUY'' \<or> ro_accountId o' \<noteq> rt_buyerAccountId t \<or> ro_symbol o' \<noteq> rt_symbol t \<or> ro_holdPerUnit o' < 0) @
     sideIssues SELL_ORDER_INVALID (rt_id t) (rt_sellOrderId t) (findRow (ordersById inp) (rt_sellOrderId t))
       (rt_sellOrderId t \<in> set invalid)
       (\<lambda>o'. ro_side o' \<noteq> ''SELL'' \<or> ro_accountId o' \<noteq> rt_sellerAccountId t \<or> ro_symbol o' \<noteq> rt_symbol t) @
     whenIssue (findRow accounts (rt_buyerAccountId t) = None)
       ((tradeIssue ACCOUNT_MISSING (rt_id t) ''buyer'')\<lparr>is_accountId := Some (rt_buyerAccountId t)\<rparr>) @
     whenIssue (findRow accounts (rt_sellerAccountId t) = None)
       ((tradeIssue ACCOUNT_MISSING (rt_id t) ''seller'')\<lparr>is_accountId := Some (rt_sellerAccountId t)\<rparr>)"

text \<open>The accounts after a trade: one when the buyer is the seller, otherwise both.\<close>

definition accountsAfter :: "recovery_trade \<Rightarrow> int \<Rightarrow> recovery_account \<Rightarrow> recovery_account \<Rightarrow> (string \<times> recovery_account) list" where
  "accountsAfter t holdPerUnit buyer seller =
     (let cost = rt_price t * rt_qty t;
          buyerAfter = buyer\<lparr>ra_balance := ra_balance buyer - cost, ra_holdAmount := ra_holdAmount buyer - holdPerUnit * rt_qty t\<rparr>
      in if rt_buyerAccountId t = rt_sellerAccountId t
         then [(rt_buyerAccountId t, buyerAfter\<lparr>ra_balance := ra_balance buyerAfter + cost\<rparr>)]
         else [(rt_buyerAccountId t, buyerAfter),
               (rt_sellerAccountId t, seller\<lparr>ra_balance := ra_balance seller + cost\<rparr>)])"

definition cashIssues :: "recovery_trade \<Rightarrow> string \<times> recovery_account \<Rightarrow> recovery_issue list" where
  "cashIssues t x = (case x of (i, a) \<Rightarrow>
     let issue = (\<lambda>code. (tradeIssue code (rt_id t) ''cash'')\<lparr>is_accountId := Some i\<rparr>)
     in whenIssue (ra_holdAmount a < 0) (issue INSUFFICIENT_RESERVED_CASH) @
        whenIssue (ra_balance a < 0) (issue INSUFFICIENT_CASH) @
        whenIssue (ra_holdAmount a > ra_balance a) (issue INVALID_POST_STATE))"

definition buyerHoldingAfter :: "recovery_trade \<Rightarrow> recovery_holding option \<Rightarrow> recovery_holding" where
  "buyerHoldingAfter t existing =
     (let h = (case existing of None \<Rightarrow> \<lparr>rh_qty = 0, rh_holdQty = 0, rh_costBasis = 0, rh_existed = False\<rparr> | Some h \<Rightarrow> h)
      in h\<lparr>rh_qty := rh_qty h + rt_qty t, rh_costBasis := rh_costBasis h + rt_price t * rt_qty t\<rparr>)"

definition sellerSource :: "recovery_trade \<Rightarrow> (string \<times> string, recovery_holding) rows \<Rightarrow> recovery_holding option" where
  "sellerSource t holdings =
     (if rt_buyerAccountId t = rt_sellerAccountId t
      then Some (buyerHoldingAfter t (findRow holdings (rt_buyerAccountId t, rt_symbol t)))
      else findRow holdings (rt_sellerAccountId t, rt_symbol t))"

definition shareIssues :: "recovery_trade \<Rightarrow> recovery_holding option \<Rightarrow> recovery_issue list" where
  "shareIssues t source =
     (let issue = (\<lambda>code label. (tradeIssue code (rt_id t) label)\<lparr>is_accountId := Some (rt_sellerAccountId t)\<rparr>)
      in case source of
           None \<Rightarrow> [issue INSUFFICIENT_HOLDING ''no holding'']
         | Some h \<Rightarrow>
             whenIssue (rh_qty h < rt_qty t) (issue INSUFFICIENT_HOLDING ''holding'') @
             whenIssue (rh_holdQty h < rt_qty t) (issue INSUFFICIENT_RESERVED_HOLDING ''reserved''))"

definition basisReductionOf :: "recovery_trade \<Rightarrow> recovery_holding \<Rightarrow> int" where
  "basisReductionOf t h = (if rh_qty h > 0 then bigdiv (rh_costBasis h * rt_qty t) (rh_qty h) else 0)"

definition sellerHoldingAfter :: "recovery_trade \<Rightarrow> recovery_holding \<Rightarrow> recovery_holding" where
  "sellerHoldingAfter t h = h\<lparr>rh_qty := rh_qty h - rt_qty t, rh_holdQty := rh_holdQty h - rt_qty t,
     rh_costBasis := rh_costBasis h - basisReductionOf t h\<rparr>"

definition plannedPnl :: "recovery_trade \<Rightarrow> recovery_holding \<Rightarrow> string \<times> pnl_row" where
  "plannedPnl t h = (rt_id t, \<lparr>pn_accountId = rt_sellerAccountId t, pn_symbol = rt_symbol t, pn_qty = rt_qty t,
     pn_price = rt_price t, pn_costBasis = basisReductionOf t h,
     pn_realized = rt_price t * rt_qty t - basisReductionOf t h, pn_tradedAt = rt_createdAt t\<rparr>)"

definition badHolding :: "recovery_holding \<Rightarrow> bool" where
  "badHolding h \<longleftrightarrow> rh_qty h < 0 \<or> rh_holdQty h < 0 \<or> rh_holdQty h > rh_qty h \<or> rh_costBasis h < 0"

text \<open>The holdings after a trade whose seller held \<open>h\<close>; a self-trade leaves one row.\<close>

definition holdingsAfter ::
  "recovery_trade \<Rightarrow> recovery_holding \<Rightarrow> (string \<times> string, recovery_holding) rows \<Rightarrow> (string \<times> string, recovery_holding) rows" where
  "holdingsAfter t h holdings =
     (let buyerKey = (rt_buyerAccountId t, rt_symbol t); sellerKey = (rt_sellerAccountId t, rt_symbol t)
      in if buyerKey = sellerKey then putRow buyerKey (sellerHoldingAfter t h) holdings
         else putRow sellerKey (sellerHoldingAfter t h)
                (putRow buyerKey (buyerHoldingAfter t (findRow holdings buyerKey)) holdings))"

definition plannedLedger :: "recovery_trade \<Rightarrow> recovery_account \<Rightarrow> recovery_account \<Rightarrow> ledger_row list" where
  "plannedLedger t buyer seller =
     (let cost = rt_price t * rt_qty t; buyerAfter = ra_balance buyer - cost;
          sellerAfter = (if rt_buyerAccountId t = rt_sellerAccountId t then buyerAfter + cost else ra_balance seller + cost)
      in [ledgerRow (rt_buyerAccountId t) (- cost) buyerAfter ''TRADE_BUY'' (rt_id t),
          ledgerRow (rt_sellerAccountId t) cost sellerAfter ''TRADE_SELL'' (rt_id t)])"

definition sameDateMinute :: "int \<Rightarrow> int" where
  "sameDateMinute date = floorQuot date 60000 * 60000"

definition addBucket :: "string \<times> int \<Rightarrow> (string \<times> int) list \<Rightarrow> (string \<times> int) list" where
  "addBucket b bs = (if b \<in> set bs then bs else bs @ [b])"

text \<open>One trade: it is replayed whole, or it only adds issues.\<close>

definition replayTrade :: "recovery_input \<Rightarrow> string list \<Rightarrow> recovery_trade \<Rightarrow> replay_state \<Rightarrow> replay_state" where
  "replayTrade inp invalid t st =
     (let bad = tradeIssues inp invalid (sp_accounts st) t in
      if bad \<noteq> [] then st\<lparr>sp_issues := sp_issues st @ bad\<rparr>
      else case (findRow (ordersById inp) (rt_buyOrderId t), findRow (sp_accounts st) (rt_buyerAccountId t),
                 findRow (sp_accounts st) (rt_sellerAccountId t)) of
        (Some buyOrder, Some buyer, Some seller) \<Rightarrow>
          let after = accountsAfter t (ro_holdPerUnit buyOrder) buyer seller;
              source = sellerSource t (sp_holdings st);
              bad2 = concat (map (cashIssues t) after) @ shareIssues t source
          in if bad2 \<noteq> [] then st\<lparr>sp_issues := sp_issues st @ bad2\<rparr>
             else (case source of
               None \<Rightarrow> st
             | Some h \<Rightarrow>
                 let st1 = st\<lparr>sp_pnl := sp_pnl st @ [plannedPnl t h]\<rparr> in
                 if badHolding (sellerHoldingAfter t h)
                 then st1\<lparr>sp_issues := sp_issues st1 @
                        [(tradeIssue INVALID_POST_STATE (rt_id t) ''holding'')\<lparr>is_accountId := Some (rt_sellerAccountId t)\<rparr>]\<rparr>
                 else st1\<lparr>sp_accounts := fold (\<lambda>(i, a). putRow i (a\<lparr>ra_versionIncrement := ra_versionIncrement a + 1\<rparr>)) after (sp_accounts st),
                          sp_holdings := holdingsAfter t h (sp_holdings st),
                          sp_ledger := sp_ledger st @ plannedLedger t buyer seller,
                          sp_settled := sp_settled st @ [rt_id t],
                          sp_buckets := addBucket (rt_symbol t, sameDateMinute (rt_createdAt t)) (sp_buckets st)\<rparr>)
      | _ \<Rightarrow> st)"

definition tradeOrder :: "recovery_trade list \<Rightarrow> recovery_trade list" where
  "tradeOrder ts = sort_key (\<lambda>t. (rt_createdAt t, rt_id t)) ts"

definition orderIssues :: "recovery_input \<Rightarrow> (string \<times> recovery_issue) list" where
  "orderIssues inp = List.map_filter (\<lambda>o'. map_option (Pair (ro_id o'))
     (validOrderState o' (qtyOr0 (in_recorded inp) (ro_id o')))) (in_orders inp)"

definition replayAll :: "recovery_input \<Rightarrow> replay_state" where
  "replayAll inp =
     fold (replayTrade inp (map fst (orderIssues inp))) (tradeOrder (in_trades inp))
       \<lparr>sp_issues = map snd (orderIssues inp), sp_accounts = in_accounts inp, sp_holdings = in_holdings inp,
        sp_ledger = [], sp_pnl = [], sp_settled = [], sp_buckets = []\<rparr>"

section \<open>The plan\<close>

record planned_order =
  pq_id :: string
  pq_filledQty :: int
  pq_status :: string

definition plannedOrder :: "recovery_input \<Rightarrow> recovery_order \<Rightarrow> planned_order option" where
  "plannedOrder inp order =
     (let recordedQty = qtyOr0 (in_recorded inp) (ro_id order);
          status = (if recordedQty \<ge> ro_qty order then ''FILLED'' else if recordedQty > 0 then ''PARTIAL'' else ''OPEN'')
      in if ro_id order \<in> set (map fst (orderIssues inp)) \<or> ro_status order \<notin> set ACTIVE_ORDER_STATUSES then None
         else if ro_filledQty order \<noteq> recordedQty \<or> ro_status order \<noteq> status
         then Some \<lparr>pq_id = ro_id order, pq_filledQty = recordedQty, pq_status = status\<rparr>
         else None)"

definition changedAccount :: "(string, recovery_account) rows \<Rightarrow> string \<times> recovery_account \<Rightarrow> bool" where
  "changedAccount initial x = (case x of (i, a) \<Rightarrow>
     (case findRow initial i of None \<Rightarrow> True
      | Some b \<Rightarrow> ra_balance b \<noteq> ra_balance a \<or> ra_holdAmount b \<noteq> ra_holdAmount a \<or> ra_versionIncrement a > 0))"

definition changedHolding :: "(string \<times> string, recovery_holding) rows \<Rightarrow> (string \<times> string) \<times> recovery_holding \<Rightarrow> bool" where
  "changedHolding initial x = (case x of (k, h) \<Rightarrow>
     (case findRow initial k of None \<Rightarrow> True
      | Some g \<Rightarrow> rh_qty g \<noteq> rh_qty h \<or> rh_holdQty g \<noteq> rh_holdQty h \<or> rh_costBasis g \<noteq> rh_costBasis h))"

record recovery_plan =
  rp_issues :: "recovery_issue list"
  rp_preAccounts :: "account_adjustment list"
  rp_preHoldings :: "holding_adjustment list"
  rp_processedEventIds :: "string list"
  rp_ledger :: "ledger_row list"
  rp_pnl :: "(string \<times> pnl_row) list"
  rp_accounts :: "(string, recovery_account) rows"
  rp_holdings :: "(string \<times> string, recovery_holding) rows"
  rp_orders :: "planned_order list"
  rp_buckets :: "(string \<times> int) list"

text \<open>The input of the replay: the reservations are those the orders call for.\<close>

definition replayInput :: "recovery_input \<Rightarrow> recovery_input" where
  "replayInput inp = inp\<lparr>in_accounts := ps_accounts (buildReservationPrestate inp),
     in_holdings := ps_holdings (buildReservationPrestate inp)\<rparr>"

definition feeIssues :: "recovery_input \<Rightarrow> recovery_issue list" where
  "feeIssues inp = map (\<lambda>t. tradeIssue FEE_AWARE_REPLAY_REQUIRED (rt_id t) ''fees'')
     (filter (\<lambda>t. rt_createdAt t \<ge> TRADING_FEES_EFFECTIVE_AT) (in_trades inp))"

definition cashTargetIssues :: "(string, int) rows \<Rightarrow> (string, recovery_account) rows \<Rightarrow> recovery_issue list" where
  "cashTargetIssues targets accounts = concat (map (\<lambda>(i, expected). case findRow accounts i of
     None \<Rightarrow> [] | Some a \<Rightarrow> whenIssue (ra_holdAmount a \<noteq> expected)
       (accountIssue INVALID_POST_STATE i ''final cash'' [] [ra_holdAmount a, expected])) targets)"

definition qtyTargetIssues :: "(string \<times> string, int) rows \<Rightarrow> (string \<times> string, recovery_holding) rows \<Rightarrow> recovery_issue list" where
  "qtyTargetIssues targets holdings = concat (map (\<lambda>(k, expected). case findRow holdings k of
     None \<Rightarrow> [] | Some h \<Rightarrow> whenIssue (rh_holdQty h \<noteq> expected)
       (accountIssue INVALID_POST_STATE (fst k) ''final shares'' (snd k) [rh_holdQty h, expected])) targets)"

definition buildRecoveryPlan :: "recovery_input \<Rightarrow> recovery_plan" where
  "buildRecoveryPlan inp =
     (let pre = buildReservationPrestate inp; inp' = replayInput inp; st = replayAll inp';
          accounts = filter (changedAccount (in_accounts inp')) (sp_accounts st);
          holdings = filter (changedHolding (in_holdings inp')) (sp_holdings st);
          finalAccounts = fold (\<lambda>(i, a). putRow i a) accounts (ps_accounts pre);
          finalHoldings = fold (\<lambda>(k, h). putRow k h) holdings (ps_holdings pre)
      in \<lparr>rp_issues = uniq (ps_issues pre @ sp_issues st @ feeIssues inp @
             cashTargetIssues (ps_finalCash pre) finalAccounts @ qtyTargetIssues (ps_finalQty pre) finalHoldings),
          rp_preAccounts = ps_accountAdjustments pre, rp_preHoldings = ps_holdingAdjustments pre,
          rp_processedEventIds = sp_settled st, rp_ledger = sp_ledger st, rp_pnl = sp_pnl st,
          rp_accounts = accounts, rp_holdings = holdings,
          rp_orders = List.map_filter (plannedOrder inp') (in_orders inp), rp_buckets = sp_buckets st\<rparr>)"

end
