(* ===== verification/Recovery_Tool.thy ===== *)
theory Recovery_Tool
  imports Recovery_Plan
begin

text \<open>
  \<open>packages/db/scripts/recover-unsettled-trades.ts\<close>: reading the input of the planner, comparing it with
  a second reading under the locks, and writing the plan in one transaction. The fingerprint is what the
  script hashes (\<open>SHA-256\<close> is taken as injective); the command line and the report are left out.
\<close>

section \<open>Reading\<close>

definition sideText :: "order_side \<Rightarrow> string" where
  "sideText s = (case s of BUY \<Rightarrow> ''BUY'' | SELL \<Rightarrow> ''SELL'')"

definition statusText :: "order_status \<Rightarrow> string" where
  "statusText s = (case s of OPEN \<Rightarrow> ''OPEN'' | PARTIAL \<Rightarrow> ''PARTIAL'' | FILLED \<Rightarrow> ''FILLED''
     | CANCELED \<Rightarrow> ''CANCELED'' | REJECTED \<Rightarrow> ''REJECTED'')"

definition recoveryTrade :: "string \<times> trade_row \<Rightarrow> recovery_trade" where
  "recoveryTrade x = (case x of (i, t) \<Rightarrow>
     \<lparr>rt_id = i, rt_symbol = tr_symbol t, rt_price = tr_price t, rt_qty = tr_qty t, rt_buyOrderId = tr_buyOrderId t,
      rt_sellOrderId = tr_sellOrderId t, rt_buyerAccountId = tr_buyerAccountId t,
      rt_sellerAccountId = tr_sellerAccountId t, rt_createdAt = tr_createdAt t\<rparr>)"

definition recoveryOrder :: "string \<times> order_row \<Rightarrow> recovery_order" where
  "recoveryOrder x = (case x of (i, o') \<Rightarrow>
     \<lparr>ro_id = i, ro_accountId = or_accountId o', ro_symbol = or_symbol o', ro_side = sideText (or_side o'),
      ro_qty = or_qty o', ro_filledQty = or_filledQty o', ro_status = statusText (or_status o'),
      ro_holdPerUnit = or_holdPerUnit o'\<rparr>)"

definition recoveryAccount :: "account_row \<Rightarrow> recovery_account" where
  "recoveryAccount a = \<lparr>ra_balance = ac_balance a, ra_holdAmount = ac_holdAmount a, ra_versionIncrement = 0\<rparr>"

definition recoveryHolding :: "holding_row \<Rightarrow> recovery_holding" where
  "recoveryHolding h = \<lparr>rh_qty = ho_qty h, rh_holdQty = ho_holdQty h, rh_costBasis = ho_costBasis h, rh_existed = True\<rparr>"

definition byId :: "('k::linorder, 'v) rows \<Rightarrow> ('k, 'v) rows" where
  "byId t = sort_key fst t"

text \<open>All trades in order, and those that no processed event stands for.\<close>

definition allTrades :: "db \<Rightarrow> recovery_trade list" where
  "allTrades d = tradeOrder (map recoveryTrade (db_trades d))"

definition unsettledTrades :: "db \<Rightarrow> recovery_trade list" where
  "unsettledTrades d = filter (\<lambda>t. rt_id t \<notin> set (db_processed d)) (allTrades d)"

definition addFill :: "recovery_trade \<Rightarrow> (string, int) rows \<Rightarrow> (string, int) rows" where
  "addFill t m = addQty (rt_sellOrderId t) (rt_qty t) (addQty (rt_buyOrderId t) (rt_qty t) m)"

definition loadRecoveryInput :: "db \<Rightarrow> recovery_input" where
  "loadRecoveryInput d =
     \<lparr>in_trades = unsettledTrades d, in_orders = map recoveryOrder (byId (db_orders d)),
      in_accounts = map (\<lambda>(i, a). (i, recoveryAccount a)) (byId (db_accounts d)),
      in_holdings = map (\<lambda>(k, h). (k, recoveryHolding h)) (byId (db_holdings d)),
      in_recorded = fold addFill (allTrades d) [], in_unsettled = fold addFill (unsettledTrades d) [],
      in_knownSymbols = map fst (byId (db_symbols d))\<rparr>"

type_synonym fingerprint = "recovery_input \<times> recovery_issue list \<times> account_adjustment list \<times> holding_adjustment list \<times>
  string list \<times> (string, recovery_account) rows \<times> (string \<times> string, recovery_holding) rows \<times> planned_order list"

definition fingerprint :: "recovery_input \<Rightarrow> recovery_plan \<Rightarrow> fingerprint" where
  "fingerprint inp plan =
     (inp\<lparr>in_recorded := byId (in_recorded inp), in_unsettled := byId (in_unsettled inp), in_knownSymbols := []\<rparr>,
      rp_issues plan, rp_preAccounts plan, rp_preHoldings plan, rp_processedEventIds plan, rp_accounts plan,
      rp_holdings plan, rp_orders plan)"

section \<open>Writing\<close>

definition applyAccountAdjustment :: "account_adjustment \<Rightarrow> db \<Rightarrow> error + db" where
  "applyAccountAdjustment x d =
     (case findRow (db_accounts d) (aa_accountId x) of
        None \<Rightarrow> Inl (RowNotFound ''accounts'')
      | Some a \<Rightarrow> writeAccount (aa_accountId x) (a\<lparr>ac_holdAmount := aa_toHoldAmount x, ac_version := ac_version a + 1\<rparr>) d)"

definition applyHoldingAdjustment :: "holding_adjustment \<Rightarrow> db \<Rightarrow> error + db" where
  "applyHoldingAdjustment x d =
     (case findRow (db_holdings d) (ha_accountId x, ha_symbol x) of
        None \<Rightarrow> Inl (RowNotFound ''holdings'')
      | Some h \<Rightarrow> writeHolding (ha_accountId x, ha_symbol x) (h\<lparr>ho_holdQty := ha_toHoldQty x\<rparr>) d)"

definition applyAccount :: "string \<times> recovery_account \<Rightarrow> db \<Rightarrow> error + db" where
  "applyAccount x d = (case x of (i, p) \<Rightarrow>
     (case findRow (db_accounts d) i of
        None \<Rightarrow> Inl (RowNotFound ''accounts'')
      | Some a \<Rightarrow> writeAccount i (a\<lparr>ac_balance := ra_balance p, ac_holdAmount := ra_holdAmount p,
          ac_version := ac_version a + ra_versionIncrement p\<rparr>) d))"

definition plannedHoldingRow :: "recovery_holding \<Rightarrow> holding_row" where
  "plannedHoldingRow p = \<lparr>ho_qty = rh_qty p, ho_holdQty = rh_holdQty p, ho_costBasis = rh_costBasis p\<rparr>"

definition applyHolding :: "(string \<times> string) \<times> recovery_holding \<Rightarrow> db \<Rightarrow> error + db" where
  "applyHolding x d = (case x of (k, p) \<Rightarrow>
     (case findRow (db_holdings d) k of
        None \<Rightarrow> if rh_existed p then Inl (RowNotFound ''holdings'') else writeHolding k (plannedHoldingRow p) d
      | Some h \<Rightarrow> if rh_existed p then writeHolding k (plannedHoldingRow p) d else Inl (UniqueViolation ''holdings'')))"

definition statusOfText :: "string \<Rightarrow> order_status \<Rightarrow> order_status" where
  "statusOfText s old = (case find (\<lambda>x. statusText x = s) [OPEN, PARTIAL, FILLED, CANCELED, REJECTED] of
     None \<Rightarrow> old | Some x \<Rightarrow> x)"

definition applyOrderUpdate :: "planned_order \<Rightarrow> db \<Rightarrow> error + db" where
  "applyOrderUpdate p d = updateOrder (pq_id p)
     (\<lambda>o'. o'\<lparr>or_filledQty := pq_filledQty p, or_status := statusOfText (pq_status p) (or_status o')\<rparr>) d"

text \<open>The minute candle and the last price, rebuilt from the recorded trades.\<close>

definition symbolTrades :: "string \<Rightarrow> db \<Rightarrow> trade_row list" where
  "symbolTrades symbol d = map snd (sort_key (\<lambda>(i, t). (tr_createdAt t, i)) (filter (\<lambda>(i, t). tr_symbol t = symbol) (db_trades d)))"

definition repairCandle :: "string \<times> int \<Rightarrow> db \<Rightarrow> db" where
  "repairCandle x d = (case x of (symbol, bucket) \<Rightarrow>
     let ts = filter (\<lambda>t. tr_createdAt t \<ge> bucket \<and> tr_createdAt t < bucket + 60000) (symbolTrades symbol d)
     in if ts = [] then d
        else d\<lparr>db_candles := putRow (symbol, BASE_CANDLE_INTERVAL, bucket)
               \<lparr>cn_open = tr_price (hd ts), cn_high = Max (set (map tr_price ts)), cn_low = Min (set (map tr_price ts)),
                cn_close = tr_price (last ts), cn_volume = sum_list (map tr_qty ts)\<rparr> (db_candles d)\<rparr>)"

definition refreshLastPrice :: "string \<Rightarrow> db \<Rightarrow> db" where
  "refreshLastPrice symbol d =
     (let ts = symbolTrades symbol d
      in if ts = [] then d
         else d\<lparr>db_symbols := map (\<lambda>(x, m). (x, if x = symbol then m\<lparr>sy_lastPrice := tr_price (last ts)\<rparr> else m)) (db_symbols d)\<rparr>)"

definition restoreReservations :: "recovery_plan \<Rightarrow> db \<Rightarrow> error + db" where
  "restoreReservations plan d =
     bindE (foldE applyAccountAdjustment (rp_preAccounts plan) d) (foldE applyHoldingAdjustment (rp_preHoldings plan))"

definition writeSettlement :: "recovery_plan \<Rightarrow> db \<Rightarrow> error + db" where
  "writeSettlement plan d =
     bindE (foldE createProcessed (rp_processedEventIds plan) d) (\<lambda>d.
     bindE (foldE (\<lambda>(i, p). createPnl i p) (rp_pnl plan) (fold createLedger (rp_ledger plan) d)) (\<lambda>d.
     bindE (foldE applyAccount (rp_accounts plan) d) (\<lambda>d.
     bindE (foldE applyHolding (rp_holdings plan) d) (foldE applyOrderUpdate (rp_orders plan)))))"

definition applyPlan :: "recovery_plan \<Rightarrow> db \<Rightarrow> error + db" where
  "applyPlan plan d =
     bindE (restoreReservations plan d) (\<lambda>d.
     bindE (writeSettlement plan d) (\<lambda>d.
     Inr (fold refreshLastPrice (uniq (map fst (rp_buckets plan))) (fold repairCandle (rp_buckets plan) d))))"

section \<open>The run with \<open>--apply\<close>\<close>

text \<open>\<open>others\<close> is what happens between the first reading and the transaction.\<close>

definition recover :: "(db \<Rightarrow> db) \<Rightarrow> db \<Rightarrow> (error + unit) \<times> db" where
  "recover others d =
     (let initial = loadRecoveryInput d; plan = buildRecoveryPlan initial in
      if rp_issues plan \<noteq> [] then (Inl (Thrown ''preflight has safety issues''), d)
      else let d' = others d; fresh = loadRecoveryInput d'; plan' = buildRecoveryPlan fresh in
        if length (in_trades fresh) \<noteq> length (in_trades initial) \<or> fingerprint fresh plan' \<noteq> fingerprint initial plan
        then (Inl (Thrown ''database changed after dry-run''), d')
        else if rp_issues plan' \<noteq> [] then (Inl (Thrown ''fresh preflight has safety issues''), d')
        else case applyPlan plan' d' of Inl e \<Rightarrow> (Inl e, d') | Inr d2 \<Rightarrow> (Inr (), d2))"

end
