(* ===== verification/Recovery_Sim.thy ===== *)
theory Recovery_Sim
  imports Recovery_Tool Settlement_Props
begin

text \<open>
  The planner against the settlement worker: replaying a trade in the planner is what the worker does when
  it settles the event of that trade. \<open>simulates\<close> relates the planner's state to the worker's database;
  one lemma says that a step without issues keeps it.
\<close>

section \<open>Events and fills\<close>

text \<open>The event of a recorded trade; the side of the taker plays no part in its settlement.\<close>

definition replayEvent :: "(string \<Rightarrow> order_side) \<Rightarrow> recovery_trade \<Rightarrow> trade_executed" where
  "replayEvent taker t = \<lparr>te_eventId = rt_id t, te_tradeId = rt_id t, te_symbol = rt_symbol t, te_price = rt_price t,
     te_qty = rt_qty t, te_buyOrderId = rt_buyOrderId t, te_sellOrderId = rt_sellOrderId t,
     te_buyerAccountId = rt_buyerAccountId t, te_sellerAccountId = rt_sellerAccountId t,
     te_takerSide = taker (rt_id t), te_ts = rt_createdAt t\<rparr>"

lemma replayEvent_simps [simp]:
  "te_eventId (replayEvent k t) = rt_id t" "te_tradeId (replayEvent k t) = rt_id t"
  "te_symbol (replayEvent k t) = rt_symbol t" "te_price (replayEvent k t) = rt_price t"
  "te_qty (replayEvent k t) = rt_qty t" "te_buyOrderId (replayEvent k t) = rt_buyOrderId t"
  "te_sellOrderId (replayEvent k t) = rt_sellOrderId t" "te_buyerAccountId (replayEvent k t) = rt_buyerAccountId t"
  "te_sellerAccountId (replayEvent k t) = rt_sellerAccountId t" "te_ts (replayEvent k t) = rt_createdAt t"
  by (simp_all add: replayEvent_def)

definition fillOfTrade :: "string \<Rightarrow> recovery_trade \<Rightarrow> int" where
  "fillOfTrade i t = (if rt_buyOrderId t = i then rt_qty t else 0) + (if rt_sellOrderId t = i then rt_qty t else 0)"

definition fills :: "string \<Rightarrow> recovery_trade list \<Rightarrow> int" where
  "fills i ts = sum_list (map (fillOfTrade i) ts)"

lemma fills_simps [simp]:
  "fills i [] = 0" "fills i (ts @ us) = fills i ts + fills i us" "fills i (t # ts) = fillOfTrade i t + fills i ts"
  by (simp_all add: fills_def)

text \<open>An order after fills of \<open>n\<close>.\<close>

definition advanced :: "order_row \<Rightarrow> int \<Rightarrow> order_row" where
  "advanced o' n = (if n = 0 then o' else o'\<lparr>or_filledQty := or_filledQty o' + n,
     or_status := (if or_filledQty o' + n \<ge> or_qty o' then FILLED else PARTIAL)\<rparr>)"

lemma advanced_simps [simp]:
  "or_qty (advanced o' n) = or_qty o'" "or_filledQty (advanced o' n) = or_filledQty o' + n" "advanced o' 0 = o'"
  "or_accountId (advanced o' n) = or_accountId o'" "or_holdPerUnit (advanced o' n) = or_holdPerUnit o'"
  "or_side (advanced o' n) = or_side o'" "or_symbol (advanced o' n) = or_symbol o'"
  by (simp_all add: advanced_def)

section \<open>What relates the two\<close>

definition carried :: "account_row \<Rightarrow> recovery_account \<Rightarrow> account_row" where
  "carried a p = a\<lparr>ac_balance := ra_balance p, ac_holdAmount := ra_holdAmount p,
     ac_version := ac_version a + ra_versionIncrement p\<rparr>"

definition accountsMatch :: "(string, account_row) rows \<Rightarrow> (string, recovery_account) rows \<Rightarrow> (string, account_row) rows \<Rightarrow> bool" where
  "accountsMatch as0 ps as \<longleftrightarrow>
     (\<forall>i. findRow as i = (case findRow as0 i of None \<Rightarrow> None | Some a \<Rightarrow> map_option (carried a) (findRow ps i))) \<and>
     (\<forall>i. findRow ps i = None \<longleftrightarrow> findRow as0 i = None)"

definition holdingsMatch :: "(string \<times> string, recovery_holding) rows \<Rightarrow> (string \<times> string, holding_row) rows \<Rightarrow> bool" where
  "holdingsMatch ps hs \<longleftrightarrow> (\<forall>k. findRow hs k = map_option plannedHoldingRow (findRow ps k))"

definition ordersMatch :: "(string, order_row) rows \<Rightarrow> recovery_trade list \<Rightarrow> (string, order_row) rows \<Rightarrow> bool" where
  "ordersMatch os0 ts os \<longleftrightarrow> (\<forall>i. findRow os i = map_option (\<lambda>o'. advanced o' (fills i ts)) (findRow os0 i))"

definition pnlMatch :: "(string, pnl_row) rows \<Rightarrow> (string \<times> pnl_row) list \<Rightarrow> (string, pnl_row) rows \<Rightarrow> bool" where
  "pnlMatch pn0 added pn \<longleftrightarrow> (\<forall>i. findRow pn i = (case map_of added i of Some p \<Rightarrow> Some p | None \<Rightarrow> findRow pn0 i))"

text \<open>The candle of a minute, from the recorded trades.\<close>

definition minuteCandle :: "db \<Rightarrow> string \<times> int \<Rightarrow> candle_row option" where
  "minuteCandle d x = (let ts = filter (\<lambda>t. tr_createdAt t \<ge> snd x \<and> tr_createdAt t < snd x + 60000) (symbolTrades (fst x) d)
     in if ts = [] then None else Some \<lparr>cn_open = tr_price (hd ts), cn_high = Max (set (map tr_price ts)),
          cn_low = Min (set (map tr_price ts)), cn_close = tr_price (last ts), cn_volume = sum_list (map tr_qty ts)\<rparr>)"

definition putCandle :: "db \<Rightarrow> string \<times> int \<Rightarrow> (string \<times> string \<times> int, candle_row) rows \<Rightarrow> (string \<times> string \<times> int, candle_row) rows" where
  "putCandle d x cs = (case minuteCandle d x of None \<Rightarrow> cs | Some c \<Rightarrow> putRow (fst x, BASE_CANDLE_INTERVAL, snd x) c cs)"

lemma repairCandle_eq: "repairCandle x d = d\<lparr>db_candles := putCandle d x (db_candles d)\<rparr>"
  by (simp add: repairCandle_def putCandle_def minuteCandle_def Let_def split: prod.split)

lemma updateMarket_eq:
  "updateMarket (replayEvent k t) d = d\<lparr>db_candles := putCandle d (rt_symbol t, sameDateMinute (rt_createdAt t)) (db_candles d)\<rparr>"
proof -
  let ?b = "sameDateMinute (rt_createdAt t)"
  have b: "bucketOf (replayEvent k t) = ?b" by (simp add: bucketOf_def sameDateMinute_def)
  have f: "filter (\<lambda>t. tr_createdAt t \<ge> ?b \<and> tr_createdAt t < ?b + 60000) (symbolTrades (rt_symbol t) d) =
    map snd (sort_key (\<lambda>(i, t). (tr_createdAt t, i)) (filter (\<lambda>(i, u). tr_symbol u = rt_symbol t \<and>
                 tr_createdAt u \<ge> ?b \<and> tr_createdAt u < ?b + 60000) (db_trades d)))"
    unfolding symbolTrades_def filter_map filter_sort filter_filter
    by (intro arg_cong [where f = "map snd"] arg_cong2 [where f = sort_key] refl filter_cong) (auto simp: comp_def)
  have "candleOf (replayEvent k t) (db_trades d) = minuteCandle d (rt_symbol t, ?b)"
    unfolding candleOf_def minuteCandle_def Let_def b fst_conv snd_conv f replayEvent_simps by simp
  then show ?thesis by (simp add: updateMarket_def putCandle_def b split: option.split)
qed

text \<open>The tables a settlement leaves alone.\<close>

definition otherTables :: "db \<Rightarrow> db" where
  "otherTables d = d\<lparr>db_accounts := [], db_holdings := [], db_ledger := [], db_pnl := [], db_processed := [],
     db_orders := [], db_candles := []\<rparr>"

lemma otherTables_upds [simp]:
  "otherTables (d\<lparr>db_accounts := x1\<rparr>) = otherTables d" "otherTables (d\<lparr>db_holdings := x2\<rparr>) = otherTables d"
  "otherTables (d\<lparr>db_ledger := x3\<rparr>) = otherTables d" "otherTables (d\<lparr>db_pnl := x4\<rparr>) = otherTables d"
  "otherTables (d\<lparr>db_processed := x5\<rparr>) = otherTables d" "otherTables (d\<lparr>db_orders := x6\<rparr>) = otherTables d"
  "otherTables (d\<lparr>db_candles := x7\<rparr>) = otherTables d"
  by (simp_all add: otherTables_def)

definition simulates :: "recovery_trade list \<Rightarrow> db \<Rightarrow> replay_state \<Rightarrow> db \<Rightarrow> bool" where
  "simulates ts d0 st d \<longleftrightarrow> dbOk d \<and> sp_settled st = map rt_id ts \<and> map fst (sp_pnl st) = map rt_id ts \<and>
     accountsMatch (db_accounts d0) (sp_accounts st) (db_accounts d) \<and> holdingsMatch (sp_holdings st) (db_holdings d) \<and>
     ordersMatch (db_orders d0) ts (db_orders d) \<and> pnlMatch (db_pnl d0) (sp_pnl st) (db_pnl d) \<and>
     db_ledger d = db_ledger d0 @ sp_ledger st \<and> db_processed d = db_processed d0 @ sp_settled st \<and>
     findRow (db_candles d) = findRow (fold (putCandle d0) (sp_buckets st) (db_candles d0)) \<and>
     otherTables d = otherTables d0"

section \<open>One account, one step\<close>

lemma fee_free:
  assumes "te_ts e < TRADING_FEES_EFFECTIVE_AT"
  shows "settleTradingFees e i b h d = Inr (b, d)"
  using assms by (simp add: settleTradingFees_def tradingFee_def)

lemma spotCash_run:
  assumes "cx_update ctx = updatePessimistic (cx_accounts ctx)" "findRow (cx_accounts ctx) i = Some acc"
    and "te_ts e < TRADING_FEES_EFFECTIVE_AT" "findRow (db_accounts d) i = Some a"
    and "b = as_balance acc + x" "h = as_holdAmount acc + getOr0 holds i" "0 \<le> b" "0 \<le> h" "h \<le> b"
  shows "spotCash ctx e holds (i, x) d = Inr (d\<lparr>db_accounts :=
    putRow i (a\<lparr>ac_balance := b, ac_holdAmount := h, ac_version := ac_version a + 1\<rparr>) (db_accounts d)\<rparr>)"
  using assms by (simp add: spotCash_def snapshotOf_def Let_def fee_free updatePessimistic_def writeAccount_def accountCheck_def)

lemma getOr0_addTo [simp]: "getOr0 (addTo k x m) j = (if j = k then getOr0 m k + x else getOr0 m j)"
  by (simp add: getOr0_def addTo_def)

lemma getOr0_Nil [simp]: "getOr0 [] k = 0"
  by (simp add: getOr0_def)

lemma lockedCtx_find:
  assumes "lockedCtx ids d ctx" "i \<in> set ids"
  obtains a where "findRow (db_accounts d) i = Some a" "findRow (cx_accounts ctx) i = Some (stateOf a)"
  using assms readAccounts_find [of "lockOrder ids" d "cx_accounts ctx" i] unfolding lockedCtx_def by auto

lemma addTo_lists:
  "addTo k x [] = [(k, x)]" "addTo k x [(k, y)] = [(k, y + x)]" "j \<noteq> k \<Longrightarrow> addTo k x [(j, y)] = [(j, y), (k, x)]"
  by (simp_all add: addTo_def putRow_def findRow_def)

definition accountsOk :: "(string, account_row) rows \<Rightarrow> bool" where
  "accountsOk as \<longleftrightarrow> (\<forall>i a. findRow as i = Some a \<longrightarrow> accountCheck a)"

lemma accountsOk_put: "accountsOk as \<Longrightarrow> accountCheck a \<Longrightarrow> accountsOk (putRow i a as)"
  by (auto simp: accountsOk_def rows.look_put_iff split: if_splits)

text \<open>A step on one account: the planner's row and the worker's row stay in step.\<close>

lemma accountsMatch_put:
  assumes "accountsMatch as0 ps as" "findRow as i = Some a" "findRow ps i = Some p"
  shows "accountsMatch as0 (putRow i (q\<lparr>ra_versionIncrement := ra_versionIncrement p + 1\<rparr>) ps)
    (putRow i (a\<lparr>ac_balance := ra_balance q, ac_holdAmount := ra_holdAmount q, ac_version := ac_version a + 1\<rparr>) as)"
proof -
  obtain a0 where a0: "findRow as0 i = Some a0" and a: "a = carried a0 p"
    using assms unfolding accountsMatch_def by (auto split: option.splits)
  show ?thesis
    unfolding accountsMatch_def
  proof (intro conjI allI)
    fix j
    show "findRow (putRow i (a\<lparr>ac_balance := ra_balance q, ac_holdAmount := ra_holdAmount q, ac_version := ac_version a + 1\<rparr>) as) j =
      (case findRow as0 j of None \<Rightarrow> None
       | Some a \<Rightarrow> map_option (carried a) (findRow (putRow i (q\<lparr>ra_versionIncrement := ra_versionIncrement p + 1\<rparr>) ps) j))"
      using assms(1) a0 a unfolding accountsMatch_def by (cases "j = i") (auto simp: carried_def split: option.split)
    show "(findRow (putRow i (q\<lparr>ra_versionIncrement := ra_versionIncrement p + 1\<rparr>) ps) j = None) = (findRow as0 j = None)"
      using assms(1) a0 unfolding accountsMatch_def by (cases "j = i") auto
  qed
qed

lemma accountsMatch_find:
  assumes "accountsMatch as0 ps as" "findRow ps i = Some p"
  obtains a where "findRow as i = Some a" "ac_balance a = ra_balance p" "ac_holdAmount a = ra_holdAmount p"
proof -
  from assms have "findRow as0 i \<noteq> None" unfolding accountsMatch_def by (metis option.distinct(1))
  then obtain a0 where "findRow as0 i = Some a0" by blast
  with assms have "findRow as i = Some (carried a0 p)" unfolding accountsMatch_def by simp
  then show thesis by (rule that) (simp_all add: carried_def)
qed

lemma cashIssues_none:
  "cashIssues t (i, a) = [] \<longleftrightarrow> 0 \<le> ra_holdAmount a \<and> 0 \<le> ra_balance a \<and> ra_holdAmount a \<le> ra_balance a"
  by (auto simp: cashIssues_def whenIssue_def Let_def)

definition bumped :: "string \<times> recovery_account \<Rightarrow> (string, recovery_account) rows \<Rightarrow> (string, recovery_account) rows" where
  "bumped x ps = (case x of (i, a) \<Rightarrow> putRow i (a\<lparr>ra_versionIncrement := ra_versionIncrement a + 1\<rparr>) ps)"

text \<open>The two cash updates of a trade, or the one of a self-trade.\<close>

lemma spot_cash_run:
  fixes t k
  defines "e \<equiv> replayEvent k t"
  defines "cost \<equiv> rt_price t * rt_qty t" and "b \<equiv> rt_buyerAccountId t" and "s \<equiv> rt_sellerAccountId t"
  assumes ctx: "lockedCtx ids d ctx" "b \<in> set ids" "s \<in> set ids" and fee: "rt_createdAt t < TRADING_FEES_EFFECTIVE_AT"
    and rows: "accountsMatch as0 ps (db_accounts d)" "accountsOk (db_accounts d)" and d': "db_accounts d' = db_accounts d"
    and buyer: "findRow ps b = Some buyer" and seller: "findRow ps s = Some seller"
    and ok: "\<forall>x \<in> set (accountsAfter t holdPerUnit buyer seller). cashIssues t x = []"
  shows "\<exists>as. foldE (spotCash ctx e (addTo s 0 (addTo b (- (holdPerUnit * rt_qty t)) [])))
      (addTo s cost (addTo b (- cost) [])) d' = Inr (d'\<lparr>db_accounts := as\<rparr>) \<and> accountsOk as \<and>
    accountsMatch as0 (fold bumped (accountsAfter t holdPerUnit buyer seller) ps) as"
proof -
  from accountsMatch_find [OF rows(1) buyer] obtain a where
    a: "findRow (db_accounts d) b = Some a" "ac_balance a = ra_balance buyer" "ac_holdAmount a = ra_holdAmount buyer" .
  from accountsMatch_find [OF rows(1) seller] obtain c where
    c: "findRow (db_accounts d) s = Some c" "ac_balance c = ra_balance seller" "ac_holdAmount c = ra_holdAmount seller" .
  from lockedCtx_find [OF ctx(1,2)] a(1) have sa: "findRow (cx_accounts ctx) b = Some (stateOf a)" by fastforce
  from lockedCtx_find [OF ctx(1,3)] c(1) have sc: "findRow (cx_accounts ctx) s = Some (stateOf c)" by fastforce
  from ctx have upd: "cx_update ctx = updatePessimistic (cx_accounts ctx)" by (simp add: lockedCtx_def)
  have fee': "te_ts e < TRADING_FEES_EFFECTIVE_AT" using fee by (simp add: e_def)
  let ?holds = "addTo s 0 (addTo b (- (holdPerUnit * rt_qty t)) [])"
  show ?thesis
  proof (cases "b = s")
    case True
    let ?q = "buyer\<lparr>ra_balance := ra_balance buyer - cost + cost, ra_holdAmount := ra_holdAmount buyer - holdPerUnit * rt_qty t\<rparr>"
    have after: "accountsAfter t holdPerUnit buyer seller = [(b, ?q)]"
      using True by (simp add: accountsAfter_def cost_def b_def s_def Let_def)
    with ok have check: "0 \<le> ra_holdAmount ?q" "0 \<le> ra_balance ?q" "ra_holdAmount ?q \<le> ra_balance ?q"
      by (simp_all add: cashIssues_none)
    let ?a = "a\<lparr>ac_balance := ra_balance ?q, ac_holdAmount := ra_holdAmount ?q, ac_version := ac_version a + 1\<rparr>"
    have "spotCash ctx e ?holds (b, 0) d' = Inr (d'\<lparr>db_accounts := putRow b ?a (db_accounts d')\<rparr>)"
      using check True a d' by (intro spotCash_run [OF upd sa fee']) (simp_all add: True)
    then have run: "foldE (spotCash ctx e ?holds) (addTo s cost (addTo b (- cost) [])) d' =
        Inr (d'\<lparr>db_accounts := putRow b ?a (db_accounts d)\<rparr>)"
      using True d' by (simp add: addTo_lists)
    have okA: "accountsOk (putRow b ?a (db_accounts d))"
      using check by (intro accountsOk_put rows) (simp add: accountCheck_def)
    have m: "accountsMatch as0 (fold bumped (accountsAfter t holdPerUnit buyer seller) ps) (putRow b ?a (db_accounts d))"
      using accountsMatch_put [OF rows(1) a(1) buyer, of ?q] by (simp add: after bumped_def)
    show ?thesis using run okA m by blast
  next
    case False
    let ?q = "buyer\<lparr>ra_balance := ra_balance buyer - cost, ra_holdAmount := ra_holdAmount buyer - holdPerUnit * rt_qty t\<rparr>"
    let ?r = "seller\<lparr>ra_balance := ra_balance seller + cost\<rparr>"
    have after: "accountsAfter t holdPerUnit buyer seller = [(b, ?q), (s, ?r)]"
      using False by (simp add: accountsAfter_def cost_def b_def s_def Let_def)
    with ok have check: "0 \<le> ra_holdAmount ?q" "0 \<le> ra_balance ?q" "ra_holdAmount ?q \<le> ra_balance ?q"
      "0 \<le> ra_holdAmount ?r" "0 \<le> ra_balance ?r" "ra_holdAmount ?r \<le> ra_balance ?r"
      by (simp_all add: cashIssues_none)
    let ?a = "a\<lparr>ac_balance := ra_balance ?q, ac_holdAmount := ra_holdAmount ?q, ac_version := ac_version a + 1\<rparr>"
    let ?c = "c\<lparr>ac_balance := ra_balance ?r, ac_holdAmount := ra_holdAmount ?r, ac_version := ac_version c + 1\<rparr>"
    let ?as1 = "putRow b ?a (db_accounts d)"
    let ?d1 = "d'\<lparr>db_accounts := ?as1\<rparr>"
    have r1: "spotCash ctx e ?holds (b, - cost) d' = Inr ?d1"
      using check False a d' spotCash_run [OF upd sa fee', of d' a "ra_balance ?q" "- cost" "ra_holdAmount ?q" ?holds] by simp
    have c1: "findRow (db_accounts ?d1) s = Some c" using c False by simp
    have r2: "spotCash ctx e ?holds (s, cost) ?d1 = Inr (d'\<lparr>db_accounts := putRow s ?c ?as1\<rparr>)"
      using check False c spotCash_run [OF upd sc fee' c1, of "ra_balance ?r" cost "ra_holdAmount ?r" ?holds] by simp
    have run: "foldE (spotCash ctx e ?holds) (addTo s cost (addTo b (- cost) [])) d' =
        Inr (d'\<lparr>db_accounts := putRow s ?c ?as1\<rparr>)"
      using False r1 r2 by (simp add: addTo_lists)
    have ok1: "accountsOk ?as1" using check by (intro accountsOk_put rows) (simp add: accountCheck_def)
    have ok2: "accountsOk (putRow s ?c ?as1)" using check c(3) by (intro accountsOk_put ok1) (simp add: accountCheck_def)
    have m1: "accountsMatch as0 (bumped (b, ?q) ps) ?as1"
      using accountsMatch_put [OF rows(1) a(1) buyer, of ?q] by (simp add: bumped_def)
    have s1: "findRow (bumped (b, ?q) ps) s = Some seller" using False seller by (simp add: bumped_def)
    have c2: "findRow ?as1 s = Some c" using c False by simp
    have m2: "accountsMatch as0 (bumped (s, ?r) (bumped (b, ?q) ps)) (putRow s ?c ?as1)"
      using accountsMatch_put [OF m1 c2 s1, of ?r] by (simp add: bumped_def [of "(s, ?r)"])
    show ?thesis using run ok2 m2 by (auto simp: after)
  qed
qed

section \<open>Holdings and orders\<close>

definition holdingsOk :: "(string \<times> string, holding_row) rows \<Rightarrow> bool" where
  "holdingsOk hs \<longleftrightarrow> (\<forall>k h. findRow hs k = Some h \<longrightarrow> holdingCheck h)"

lemma holdingsOk_put: "holdingsOk hs \<Longrightarrow> holdingCheck h \<Longrightarrow> holdingsOk (putRow k h hs)"
  by (auto simp: holdingsOk_def rows.look_put_iff split: if_splits)

lemma holdingsMatch_put:
  "holdingsMatch ps hs \<Longrightarrow> holdingsMatch (putRow k p ps) (putRow k (plannedHoldingRow p) hs)"
  by (auto simp: holdingsMatch_def rows.look_put)

lemma plannedHoldingRow_simps [simp]:
  "ho_qty (plannedHoldingRow p) = rh_qty p" "ho_holdQty (plannedHoldingRow p) = rh_holdQty p"
  "ho_costBasis (plannedHoldingRow p) = rh_costBasis p"
  by (simp_all add: plannedHoldingRow_def)

lemma buyer_row:
  "holdingAfterBuy (map_option plannedHoldingRow existing) (rt_qty t) (rt_price t * rt_qty t) =
   plannedHoldingRow (buyerHoldingAfter t existing)"
  by (cases existing) (simp_all add: holdingAfterBuy_def buyerHoldingAfter_def plannedHoldingRow_def Let_def)

lemma seller_row:
  "\<lparr>ho_qty = rh_qty h - rt_qty t, ho_holdQty = rh_holdQty h - rt_qty t,
    ho_costBasis = rh_costBasis h - sr_basisReduction (realizedPnlForSale (rh_qty h) (rh_costBasis h) (rt_qty t) (rt_price t))\<rparr> =
   plannedHoldingRow (sellerHoldingAfter t h)"
  by (simp add: plannedHoldingRow_def sellerHoldingAfter_def realizedPnlForSale_def basisReductionOf_def Let_def)

lemma seller_pnl:
  "\<lparr>pn_accountId = rt_sellerAccountId t, pn_symbol = rt_symbol t, pn_qty = rt_qty t, pn_price = rt_price t,
    pn_costBasis = sr_basisReduction (realizedPnlForSale (rh_qty h) (rh_costBasis h) (rt_qty t) (rt_price t)),
    pn_realized = sr_realized (realizedPnlForSale (rh_qty h) (rh_costBasis h) (rt_qty t) (rt_price t)),
    pn_tradedAt = rt_createdAt t\<rparr> = snd (plannedPnl t h)"
  by (simp add: plannedPnl_def realizedPnlForSale_def basisReductionOf_def Let_def)

lemma good_holding: "\<not> badHolding h \<Longrightarrow> holdingCheck (plannedHoldingRow h)"
  by (auto simp: badHolding_def holdingCheck_def)

lemma spot_holdings_run:
  assumes m: "holdingsMatch ps (db_holdings d)" "holdingsOk (db_holdings d)" and qty: "0 < rt_qty t"
    and source: "sellerSource t ps = Some h" and good: "\<not> badHolding (sellerHoldingAfter t h)"
    and new: "findRow (db_pnl d) (rt_id t) = None"
  shows "\<exists>hs. spotHoldings (replayEvent k t) (rt_price t * rt_qty t) d =
      Inr (d\<lparr>db_holdings := hs, db_pnl := putRow (rt_id t) (snd (plannedPnl t h)) (db_pnl d)\<rparr>) \<and>
    holdingsOk hs \<and> holdingsMatch (holdingsAfter t h ps) hs"
proof -
  let ?bk = "(rt_buyerAccountId t, rt_symbol t)" and ?sk = "(rt_sellerAccountId t, rt_symbol t)"
  let ?b = "buyerHoldingAfter t (findRow ps ?bk)" and ?s = "sellerHoldingAfter t h"
  let ?hs1 = "putRow ?bk (plannedHoldingRow ?b) (db_holdings d)"
  have row: "findRow (db_holdings d) k = map_option plannedHoldingRow (findRow ps k)" for k
    using m(1) unfolding holdingsMatch_def by (rule spec)
  have checkB: "holdingCheck (plannedHoldingRow ?b)"
  proof (cases "findRow ps ?bk")
    case None
    then show ?thesis using qty by (simp add: buyerHoldingAfter_def holdingCheck_def)
  next
    case (Some g)
    then have "holdingCheck (plannedHoldingRow g)" using m(2) row [of ?bk] by (auto simp: holdingsOk_def)
    then show ?thesis using Some qty by (simp add: buyerHoldingAfter_def holdingCheck_def)
  qed
  have b: "writeHolding ?bk (holdingAfterBuy (findRow (db_holdings d) ?bk) (rt_qty t) (rt_price t * rt_qty t)) d =
      Inr (d\<lparr>db_holdings := ?hs1\<rparr>)"
    unfolding row buyer_row using checkB by (simp add: writeHolding_def)
  have s: "findRow ?hs1 ?sk = Some (plannedHoldingRow h)"
    using source row [of ?sk] by (auto simp: sellerSource_def rows.look_put split: if_splits)
  have checkS: "holdingCheck (plannedHoldingRow ?s)" using good by (rule good_holding)
  let ?hs2 = "putRow ?sk (plannedHoldingRow ?s) ?hs1"
  have run: "spotHoldings (replayEvent k t) (rt_price t * rt_qty t) d =
      Inr (d\<lparr>db_holdings := ?hs2, db_pnl := putRow (rt_id t) (snd (plannedPnl t h)) (db_pnl d)\<rparr>)"
    unfolding spotHoldings_def Let_def replayEvent_simps b using s checkS new
    by (simp add: seller_row seller_pnl writeHolding_def createPnl_def)
  have ok: "holdingsOk ?hs2" by (intro holdingsOk_put checkB checkS m)
  have "holdingsMatch (putRow ?sk ?s (putRow ?bk ?b ps)) ?hs2" by (intro holdingsMatch_put m)
  then have "holdingsMatch (holdingsAfter t h ps) ?hs2"
    by (auto simp: holdingsMatch_def holdingsAfter_def Let_def rows.look_put split: if_splits)
  with run ok show ?thesis by blast
qed

lemma advanced_twice: "0 \<le> n \<Longrightarrow> 0 < q \<Longrightarrow> advanced (advanced o' n) q = advanced o' (n + q)"
  by (simp add: advanced_def)

lemma advanced_active:
  "isActive (or_status o') \<Longrightarrow> 0 \<le> n \<Longrightarrow> or_filledQty o' + n < or_qty o' \<Longrightarrow> isActive (or_status (advanced o' n))"
  by (auto simp: advanced_def isActive_def)

lemma advanceOrder_run:
  assumes "findRow (db_orders d) i = Some cur" "0 < q" "te_qty e = q" "isActive (or_status o')"
    and "or_filledQty o' + q \<le> or_qty o'" "cur = o'"
  shows "advanceOrder e (i, o') d = Inr (d\<lparr>db_orders := putRow i (advanced o' q) (db_orders d)\<rparr>)"
  using assms by (simp add: advanceOrder_def liftSettle_def stateAfterTrade_def Let_def updateOrder_def advanced_def)

definition roomFor :: "(string, order_row) rows \<Rightarrow> recovery_trade list \<Rightarrow> int \<Rightarrow> string \<Rightarrow> bool" where
  "roomFor os0 ts q i \<longleftrightarrow> (\<exists>o0. findRow os0 i = Some o0 \<and> isActive (or_status o0) \<and> 0 \<le> fills i ts \<and>
     or_filledQty o0 + fills i ts + q \<le> or_qty o0)"

lemma spot_orders_run:
  assumes m: "ordersMatch os0 ts (db_orders d)" and q: "0 < rt_qty t" and ne: "rt_buyOrderId t \<noteq> rt_sellOrderId t"
    and room: "roomFor os0 ts (rt_qty t) (rt_buyOrderId t)" "roomFor os0 ts (rt_qty t) (rt_sellOrderId t)"
    and rows: "findRow (db_orders d) (rt_buyOrderId t) = Some bo" "findRow (db_orders d) (rt_sellOrderId t) = Some so"
  shows "\<exists>os. foldE (advanceOrder (replayEvent k t)) [(rt_buyOrderId t, bo), (rt_sellOrderId t, so)] d =
      Inr (d\<lparr>db_orders := os\<rparr>) \<and> ordersMatch os0 (ts @ [t]) os"
proof -
  let ?b = "rt_buyOrderId t" and ?s = "rt_sellOrderId t" and ?q = "rt_qty t"
  obtain b0 where b0: "findRow os0 ?b = Some b0" "isActive (or_status b0)" "0 \<le> fills ?b ts" "or_filledQty b0 + fills ?b ts + ?q \<le> or_qty b0"
    using room(1) by (auto simp: roomFor_def)
  obtain s0 where s0: "findRow os0 ?s = Some s0" "isActive (or_status s0)" "0 \<le> fills ?s ts" "or_filledQty s0 + fills ?s ts + ?q \<le> or_qty s0"
    using room(2) by (auto simp: roomFor_def)
  have bo: "bo = advanced b0 (fills ?b ts)" and so: "so = advanced s0 (fills ?s ts)"
    using m rows b0 s0 by (simp_all add: ordersMatch_def)
  let ?os1 = "putRow ?b (advanced bo ?q) (db_orders d)"
  have r1: "advanceOrder (replayEvent k t) (?b, bo) d = Inr (d\<lparr>db_orders := ?os1\<rparr>)"
    using rows(1) q b0 by (intro advanceOrder_run) (simp_all add: bo advanced_active)
  have r2: "advanceOrder (replayEvent k t) (?s, so) (d\<lparr>db_orders := ?os1\<rparr>) =
      Inr (d\<lparr>db_orders := putRow ?s (advanced so ?q) ?os1\<rparr>)"
    using rows(2) q s0 ne advanceOrder_run [of "d\<lparr>db_orders := ?os1\<rparr>" ?s so ?q "replayEvent k t" so]
    by (simp add: so advanced_active)
  have "ordersMatch os0 (ts @ [t]) (putRow ?s (advanced so ?q) ?os1)"
    unfolding ordersMatch_def
  proof
    fix i
    show "findRow (putRow ?s (advanced so ?q) ?os1) i = map_option (\<lambda>o'. advanced o' (fills i (ts @ [t]))) (findRow os0 i)"
      using m b0 s0 q ne by (cases "i = ?b"; cases "i = ?s") (auto simp: ordersMatch_def fillOfTrade_def bo so advanced_twice rows.look_put)
  qed
  with r1 r2 show ?thesis by auto
qed

section \<open>A step of the replay\<close>

lemma whenIssue_Nil [simp]: "whenIssue b i = [] \<longleftrightarrow> \<not> b"
  by (simp add: whenIssue_def)

definition replayed :: "recovery_trade \<Rightarrow> recovery_account \<Rightarrow> recovery_account \<Rightarrow> int \<Rightarrow> recovery_holding \<Rightarrow> replay_state \<Rightarrow> replay_state" where
  "replayed t buyer seller holdPerUnit h st = st\<lparr>sp_pnl := sp_pnl st @ [plannedPnl t h],
     sp_accounts := fold bumped (accountsAfter t holdPerUnit buyer seller) (sp_accounts st),
     sp_holdings := holdingsAfter t h (sp_holdings st), sp_ledger := sp_ledger st @ plannedLedger t buyer seller,
     sp_settled := sp_settled st @ [rt_id t],
     sp_buckets := addBucket (rt_symbol t, sameDateMinute (rt_createdAt t)) (sp_buckets st)\<rparr>"

definition tradeFits :: "recovery_input \<Rightarrow> string list \<Rightarrow> recovery_trade \<Rightarrow> recovery_order \<Rightarrow> recovery_order \<Rightarrow> bool" where
  "tradeFits inp invalid t bo so \<longleftrightarrow> 0 < rt_price t \<and> 0 < rt_qty t \<and> rt_symbol t \<in> set (in_knownSymbols inp) \<and>
     findRow (ordersById inp) (rt_buyOrderId t) = Some bo \<and> rt_buyOrderId t \<notin> set invalid \<and> ro_side bo = ''BUY'' \<and>
     ro_accountId bo = rt_buyerAccountId t \<and> ro_symbol bo = rt_symbol t \<and> 0 \<le> ro_holdPerUnit bo \<and>
     findRow (ordersById inp) (rt_sellOrderId t) = Some so \<and> rt_sellOrderId t \<notin> set invalid \<and> ro_side so = ''SELL'' \<and>
     ro_accountId so = rt_sellerAccountId t \<and> ro_symbol so = rt_symbol t"

lemma sideIssues_Nil:
  "sideIssues c i k order invalid wrong = [] \<longleftrightarrow> (\<exists>o'. order = Some o' \<and> \<not> invalid \<and> \<not> wrong o')"
  by (auto simp: sideIssues_def split: option.split)

lemma tradeIssues_Nil:
  assumes "tradeIssues inp invalid accounts t = []"
  obtains bo so buyer seller where "tradeFits inp invalid t bo so"
    "findRow accounts (rt_buyerAccountId t) = Some buyer" "findRow accounts (rt_sellerAccountId t) = Some seller"
  using assms unfolding tradeIssues_def append_is_Nil_conv sideIssues_Nil whenIssue_Nil
  by (auto simp: tradeFits_def isPositiveInteger_def)

lemma shareIssues_Nil:
  "shareIssues t source = [] \<Longrightarrow> \<exists>h. source = Some h \<and> rt_qty t \<le> rh_qty h \<and> rt_qty t \<le> rh_holdQty h"
  by (auto simp: shareIssues_def Let_def split: option.splits)

lemma concat_cash: "concat (map (cashIssues t) xs) = [] \<longleftrightarrow> (\<forall>x \<in> set xs. cashIssues t x = [])"
  by (simp add: concat_eq_Nil_conv)

lemma bumped_eq: "(\<lambda>(i, a). putRow i (a\<lparr>ra_versionIncrement := ra_versionIncrement a + 1\<rparr>)) = bumped"
  by (auto simp: bumped_def fun_eq_iff)

lemma replay_cases:
  assumes "sp_issues (replayTrade inp invalid t st) = sp_issues st"
  obtains bo so buyer seller h where "tradeFits inp invalid t bo so"
    "findRow (sp_accounts st) (rt_buyerAccountId t) = Some buyer" "findRow (sp_accounts st) (rt_sellerAccountId t) = Some seller"
    "\<forall>x \<in> set (accountsAfter t (ro_holdPerUnit bo) buyer seller). cashIssues t x = []"
    "sellerSource t (sp_holdings st) = Some h" "\<not> badHolding (sellerHoldingAfter t h)"
    "replayTrade inp invalid t st = replayed t buyer seller (ro_holdPerUnit bo) h st"
proof -
  have ok: "tradeIssues inp invalid (sp_accounts st) t = []"
    using assms by (auto simp: replayTrade_def Let_def split: if_splits)
  from tradeIssues_Nil [OF ok] obtain bo so buyer seller where f: "tradeFits inp invalid t bo so"
    "findRow (sp_accounts st) (rt_buyerAccountId t) = Some buyer" "findRow (sp_accounts st) (rt_sellerAccountId t) = Some seller" .
  let ?bad = "concat (map (cashIssues t) (accountsAfter t (ro_holdPerUnit bo) buyer seller)) @ shareIssues t (sellerSource t (sp_holdings st))"
  have b: "findRow (ordersById inp) (rt_buyOrderId t) = Some bo" using f(1) by (simp add: tradeFits_def)
  have ok2: "?bad = []"
  proof (rule ccontr)
    assume "?bad \<noteq> []"
    then have "sp_issues (replayTrade inp invalid t st) = sp_issues st @ ?bad"
      using ok f b unfolding replayTrade_def Let_def by simp
    with assms \<open>?bad \<noteq> []\<close> show False by simp
  qed
  then obtain h where h: "sellerSource t (sp_holdings st) = Some h"
    using shareIssues_Nil [of t "sellerSource t (sp_holdings st)"] by auto
  have good: "\<not> badHolding (sellerHoldingAfter t h)"
  proof
    assume "badHolding (sellerHoldingAfter t h)"
    then have "sp_issues (replayTrade inp invalid t st) \<noteq> sp_issues st"
      using ok ok2 f b h unfolding replayTrade_def Let_def by simp
    with assms show False by simp
  qed
  have "replayTrade inp invalid t st = replayed t buyer seller (ro_holdPerUnit bo) h st"
    using ok ok2 f b h good unfolding replayTrade_def Let_def replayed_def bumped_eq by simp
  with that f h good ok2 show thesis by (auto simp: concat_cash)
qed

lemma spotLedger_eq:
  assumes "lockedCtx ids d ctx" "rt_buyerAccountId t \<in> set ids" "rt_sellerAccountId t \<in> set ids"
    and "accountsMatch as0 ps (db_accounts d)"
    and "findRow ps (rt_buyerAccountId t) = Some buyer" "findRow ps (rt_sellerAccountId t) = Some seller"
  shows "spotLedger ctx (replayEvent k t) (rt_price t * rt_qty t) d' = d'\<lparr>db_ledger := db_ledger d' @ plannedLedger t buyer seller\<rparr>"
proof -
  have snap: "as_balance (snapshotOf ctx i) = ra_balance p"
    if "i \<in> set ids" "findRow ps i = Some p" for i p
  proof -
    from accountsMatch_find [OF assms(4) that(2)] obtain a where "findRow (db_accounts d) i = Some a" "ac_balance a = ra_balance p" by blast
    with lockedCtx_snapshot [OF assms(1) that(1)] show ?thesis by fastforce
  qed
  have b: "as_balance (snapshotOf ctx (rt_buyerAccountId t)) = ra_balance buyer"
    and s: "as_balance (snapshotOf ctx (rt_sellerAccountId t)) = ra_balance seller"
    using snap assms by blast+
  have "rt_buyerAccountId t = rt_sellerAccountId t \<longrightarrow> buyer = seller" using assms(5,6) by auto
  then show ?thesis by (auto simp add: spotLedger_def plannedLedger_def createLedger_def Let_def b s)
qed

lemma dbOk_parts: "dbOk d \<Longrightarrow> accountsOk (db_accounts d) \<and> holdingsOk (db_holdings d)"
  by (simp add: dbOk_def accountsOk_def holdingsOk_def)

lemma dbOk_update:
  assumes "dbOk d" "accountsOk as" "holdingsOk hs" "db_accounts d' = as" "db_holdings d' = hs"
    "db_positions d' = db_positions d" "db_debts d' = db_debts d"
  shows "dbOk d'"
  using assms by (simp add: dbOk_def accountsOk_def holdingsOk_def)

text \<open>The orders the planner looks at are the rows the worker reads.\<close>

definition ordersRead :: "recovery_input \<Rightarrow> db \<Rightarrow> bool" where
  "ordersRead inp d0 \<longleftrightarrow>
     (\<forall>i. findRow (ordersById inp) i = map_option (\<lambda>o'. recoveryOrder (i, o')) (findRow (db_orders d0) i))"

lemma recoveryOrder_simps [simp]:
  "ro_id (recoveryOrder (i, o')) = i" "ro_accountId (recoveryOrder (i, o')) = or_accountId o'"
  "ro_symbol (recoveryOrder (i, o')) = or_symbol o'" "ro_side (recoveryOrder (i, o')) = sideText (or_side o')"
  "ro_qty (recoveryOrder (i, o')) = or_qty o'" "ro_filledQty (recoveryOrder (i, o')) = or_filledQty o'"
  "ro_status (recoveryOrder (i, o')) = statusText (or_status o')" "ro_holdPerUnit (recoveryOrder (i, o')) = or_holdPerUnit o'"
  by (simp_all add: recoveryOrder_def)

lemma putCandle_trades: "db_trades d = db_trades d' \<Longrightarrow> putCandle d x cs = putCandle d' x cs"
  by (simp add: putCandle_def minuteCandle_def symbolTrades_def)

lemma putCandle_find:
  "findRow (putCandle d x cs) = (case minuteCandle d x of None \<Rightarrow> findRow cs | Some c \<Rightarrow> (findRow cs)((fst x, BASE_CANDLE_INTERVAL, snd x) \<mapsto> c))"
  by (simp add: putCandle_def rows.look_put split: option.split)

lemma putCandle_cong: "findRow cs = findRow cs' \<Longrightarrow> findRow (putCandle d x cs) = findRow (putCandle d x cs')"
  by (simp add: putCandle_find split: option.split)

lemma putCandle_commute: "findRow (putCandle d x (putCandle d y cs)) = findRow (putCandle d y (putCandle d x cs))"
proof (cases "x = y")
  case False
  then show ?thesis by (auto simp: putCandle_find fun_eq_iff prod_eq_iff split: option.split)
qed simp

lemma putCandle_idem: "x \<in> set bs \<Longrightarrow> findRow (putCandle d x (fold (putCandle d) bs cs)) = findRow (fold (putCandle d) bs cs)"
proof (induction bs rule: rev_induct)
  case (snoc b bs)
  show ?case
  proof (cases "b = x")
    case True
    then show ?thesis by (auto simp: putCandle_find fun_eq_iff split: option.split)
  next
    case False
    with snoc have ih: "findRow (putCandle d x (fold (putCandle d) bs cs)) = findRow (fold (putCandle d) bs cs)" by auto
    have "findRow (putCandle d x (putCandle d b (fold (putCandle d) bs cs))) =
        findRow (putCandle d b (putCandle d x (fold (putCandle d) bs cs)))" by (rule putCandle_commute)
    also have "\<dots> = findRow (putCandle d b (fold (putCandle d) bs cs))" by (rule putCandle_cong [OF ih])
    finally show ?thesis by simp
  qed
qed simp

lemma putCandle_addBucket:
  "findRow (fold (putCandle d) (addBucket x bs) cs) = findRow (putCandle d x (fold (putCandle d) bs cs))"
  by (simp add: addBucket_def putCandle_idem)

lemma otherTables_eq:
  assumes "otherTables d = otherTables d0"
  shows "db_trades d = db_trades d0" "db_positions d = db_positions d0" "db_debts d = db_debts d0"
proof -
  have "db_trades (otherTables d) = db_trades (otherTables d0)" "db_positions (otherTables d) = db_positions (otherTables d0)"
    "db_debts (otherTables d) = db_debts (otherTables d0)" by (simp_all only: assms)
  then show "db_trades d = db_trades d0" "db_positions d = db_positions d0" "db_debts d = db_debts d0"
    by (simp_all add: otherTables_def)
qed

text \<open>
  A trade that the planner replays without an issue is settled by the worker, and the two states stay
  related.
\<close>

lemma replay_step:
  assumes sim: "simulates ts d0 st d" and noIssue: "sp_issues (replayTrade inp invalid t st) = sp_issues st"
    and read: "ordersRead inp d0"
    and new: "rt_id t \<notin> set (db_processed d0)" "rt_id t \<notin> set (map rt_id ts)" "findRow (db_pnl d0) (rt_id t) = None"
    and fee: "rt_createdAt t < TRADING_FEES_EFFECTIVE_AT"
    and spot: "futureDef (rt_symbol t) = None" "optionDef (rt_symbol t) = None"
    and room: "roomFor (db_orders d0) ts (rt_qty t) (rt_buyOrderId t)" "roomFor (db_orders d0) ts (rt_qty t) (rt_sellOrderId t)"
  shows "\<exists>d'. settleTrade (replayEvent k t) d = Inr d' \<and> simulates (ts @ [t]) d0 (replayTrade inp invalid t st) d'"
proof -
  let ?e = "replayEvent k t" and ?cost = "rt_price t * rt_qty t" and ?b = "rt_buyerAccountId t" and ?s = "rt_sellerAccountId t"
  from replay_cases [OF noIssue] obtain bo so buyer seller h where
    fits: "tradeFits inp invalid t bo so"
    and buyer: "findRow (sp_accounts st) ?b = Some buyer" and seller: "findRow (sp_accounts st) ?s = Some seller"
    and cash: "\<forall>x \<in> set (accountsAfter t (ro_holdPerUnit bo) buyer seller). cashIssues t x = []"
    and source: "sellerSource t (sp_holdings st) = Some h" and good: "\<not> badHolding (sellerHoldingAfter t h)"
    and st': "replayTrade inp invalid t st = replayed t buyer seller (ro_holdPerUnit bo) h st" by blast
  from sim have ok: "dbOk d" and am: "accountsMatch (db_accounts d0) (sp_accounts st) (db_accounts d)"
    and hm: "holdingsMatch (sp_holdings st) (db_holdings d)" and om: "ordersMatch (db_orders d0) ts (db_orders d)"
    and pm: "pnlMatch (db_pnl d0) (sp_pnl st) (db_pnl d)" and pr: "db_processed d = db_processed d0 @ sp_settled st"
    and ids: "sp_settled st = map rt_id ts" "map fst (sp_pnl st) = map rt_id ts" by (simp_all add: simulates_def)
  from fits have qty: "0 < rt_qty t" by (simp add: tradeFits_def)
  have ne: "rt_buyOrderId t \<noteq> rt_sellOrderId t" using fits by (auto simp: tradeFits_def)
  obtain b0 s0 where b0: "findRow (db_orders d0) (rt_buyOrderId t) = Some b0" "bo = recoveryOrder (rt_buyOrderId t, b0)"
    and s0: "findRow (db_orders d0) (rt_sellOrderId t) = Some s0" "so = recoveryOrder (rt_sellOrderId t, s0)"
    using fits read by (auto simp: tradeFits_def ordersRead_def)
  let ?bo = "advanced b0 (fills (rt_buyOrderId t) ts)" and ?so = "advanced s0 (fills (rt_sellOrderId t) ts)"
  have rows: "findRow (db_orders d) (rt_buyOrderId t) = Some ?bo" "findRow (db_orders d) (rt_sellOrderId t) = Some ?so"
    using om b0 s0 by (simp_all add: ordersMatch_def)
  have fresh: "rt_id t \<notin> set (db_processed d)" using new pr ids by simp
  have "map_of (sp_pnl st) (rt_id t) = None" using new(2) ids(2) by (simp add: map_of_eq_None_iff flip: set_map)
  then have freshPnl: "findRow (db_pnl d) (rt_id t) = None" using pm new(3) by (simp add: pnlMatch_def)
  obtain a1 a2 where "findRow (db_accounts d) ?b = Some a1" "findRow (db_accounts d) ?s = Some a2"
    using accountsMatch_find [OF am buyer] accountsMatch_find [OF am seller] by metis
  then have "\<forall>i \<in> set (uniq [?b, ?s]). findRow (db_accounts d) i \<noteq> None" by simp
  from lockedCtx_exists [OF this] obtain ctx where ctx: "lockedCtx (uniq [?b, ?s]) d ctx" .
  let ?d1 = "d\<lparr>db_processed := db_processed d @ [rt_id t]\<rparr>"
  let ?d2 = "?d1\<lparr>db_ledger := db_ledger d @ plannedLedger t buyer seller\<rparr>"
  have ledger: "spotLedger ctx ?e ?cost ?d1 = ?d2"
    using spotLedger_eq [OF ctx _ _ am buyer seller, of k ?d1] by simp
  have okA: "accountsOk (db_accounts d)" and okH: "holdingsOk (db_holdings d)" using dbOk_parts [OF ok] by simp_all
  have "\<exists>as. foldE (spotCash ctx ?e (addTo ?s 0 (addTo ?b (- (ro_holdPerUnit bo * rt_qty t)) [])))
      (addTo ?s ?cost (addTo ?b (- ?cost) [])) ?d2 = Inr (?d2\<lparr>db_accounts := as\<rparr>) \<and> accountsOk as \<and>
    accountsMatch (db_accounts d0) (fold bumped (accountsAfter t (ro_holdPerUnit bo) buyer seller) (sp_accounts st)) as"
    by (rule spot_cash_run [OF ctx _ _ fee am okA _ buyer seller cash]) simp_all
  then obtain as where a: "foldE (spotCash ctx ?e (addTo ?s 0 (addTo ?b (- (ro_holdPerUnit bo * rt_qty t)) [])))
      (addTo ?s ?cost (addTo ?b (- ?cost) [])) ?d2 = Inr (?d2\<lparr>db_accounts := as\<rparr>)" and okAs: "accountsOk as"
    and amAs: "accountsMatch (db_accounts d0) (fold bumped (accountsAfter t (ro_holdPerUnit bo) buyer seller) (sp_accounts st)) as"
    by blast
  let ?d3 = "?d2\<lparr>db_accounts := as\<rparr>"
  have "\<exists>hs. spotHoldings ?e ?cost ?d3 =
      Inr (?d3\<lparr>db_holdings := hs, db_pnl := putRow (rt_id t) (snd (plannedPnl t h)) (db_pnl ?d3)\<rparr>) \<and> holdingsOk hs \<and>
    holdingsMatch (holdingsAfter t h (sp_holdings st)) hs"
    by (rule spot_holdings_run) (use hm okH qty source good freshPnl in simp_all)
  then obtain hs where hs: "spotHoldings ?e ?cost ?d3 =
      Inr (?d3\<lparr>db_holdings := hs, db_pnl := putRow (rt_id t) (snd (plannedPnl t h)) (db_pnl ?d3)\<rparr>)" and okHs: "holdingsOk hs"
    and hmHs: "holdingsMatch (holdingsAfter t h (sp_holdings st)) hs" by blast
  let ?d4 = "?d3\<lparr>db_holdings := hs, db_pnl := putRow (rt_id t) (snd (plannedPnl t h)) (db_pnl ?d3)\<rparr>"
  have "\<exists>os. foldE (advanceOrder ?e) [(rt_buyOrderId t, ?bo), (rt_sellOrderId t, ?so)] ?d4 = Inr (?d4\<lparr>db_orders := os\<rparr>) \<and>
    ordersMatch (db_orders d0) (ts @ [t]) os"
    by (rule spot_orders_run) (use om qty ne room rows in simp_all)
  then obtain os where os: "foldE (advanceOrder ?e) [(rt_buyOrderId t, ?bo), (rt_sellOrderId t, ?so)] ?d4 = Inr (?d4\<lparr>db_orders := os\<rparr>)"
    and omOs: "ordersMatch (db_orders d0) (ts @ [t]) os" by blast
  let ?d5 = "?d4\<lparr>db_orders := os\<rparr>"
  have hold: "or_holdPerUnit ?bo = ro_holdPerUnit bo" using b0 by simp
  have "settleSpotTrade ctx ?e ?bo ?so ?d1 = Inr ?d5"
    unfolding settleSpotTrade_def Let_def replayEvent_simps hold ledger a bindE_Inr hs os ..
  then have body: "settleTradeBody ?e ctx d = Inr (True, ?d5)"
    using fresh rows spot by (simp add: settleTradeBody_def createProcessed_def)
  let ?x = "(rt_symbol t, sameDateMinute (rt_createdAt t))"
  let ?d6 = "?d5\<lparr>db_candles := putCandle ?d5 ?x (db_candles d)\<rparr>"
  have "pessimisticLock (uniq [?b, ?s]) (settleTradeBody ?e) d = Inr (True, ?d5)"
    using ctx body by (auto simp: pessimisticLock_Inr)
  then have run: "settleTrade ?e d = Inr ?d6"
    by (simp add: settleTrade_def updateMarket_eq)
  have ok6: "dbOk ?d6" by (rule dbOk_update [OF ok okAs okHs]) simp_all
  have other: "otherTables d = otherTables d0" using sim by (simp add: simulates_def)
  have trades: "db_trades ?d5 = db_trades d0" using otherTables_eq(1) [OF other] by simp
  have candles: "findRow (putCandle ?d5 ?x (db_candles d)) = findRow (fold (putCandle d0) (addBucket ?x (sp_buckets st)) (db_candles d0))"
    unfolding putCandle_addBucket putCandle_trades [OF trades]
    using sim by (intro putCandle_cong) (simp add: simulates_def)
  have pnl: "pnlMatch (db_pnl d0) (sp_pnl st @ [plannedPnl t h]) (putRow (rt_id t) (snd (plannedPnl t h)) (db_pnl d))"
    using pm freshPnl by (auto simp: pnlMatch_def rows.look_put map_add_def plannedPnl_def split: option.splits)
  have "simulates (ts @ [t]) d0 (replayTrade inp invalid t st) ?d6"
    unfolding simulates_def st'
  proof (intro conjI)
    show "dbOk ?d6" by (rule ok6)
    show "otherTables ?d6 = otherTables d0" using other by simp
    show "db_ledger ?d6 = db_ledger d0 @ sp_ledger (replayed t buyer seller (ro_holdPerUnit bo) h st)"
      using sim by (simp add: simulates_def replayed_def)
  qed (use ids pr amAs hmHs omOs pnl candles in \<open>simp_all add: replayed_def plannedPnl_def\<close>)
  with run show ?thesis by blast
qed

end
