(* ===== verification/Recovery_Props.thy ===== *)
theory Recovery_Props
  imports Recovery_Sim
begin

text \<open>
  Recovering unsettled trades is the same as settling them: a plan without issues writes what the
  settlement worker would have written, from the reservations the orders call for.
\<close>

section \<open>Issues only accumulate\<close>

lemma replayTrade_issues: "\<exists>xs. sp_issues (replayTrade inp invalid t st) = sp_issues st @ xs"
  unfolding replayTrade_def Let_def by (auto split: option.split)

lemma replay_issues: "\<exists>xs. sp_issues (fold (replayTrade inp invalid) us st) = sp_issues st @ xs"
proof (induction us arbitrary: st)
  case (Cons t us)
  from replayTrade_issues [of inp invalid t st] obtain xs where "sp_issues (replayTrade inp invalid t st) = sp_issues st @ xs" by blast
  moreover from Cons obtain ys where "sp_issues (fold (replayTrade inp invalid) us (replayTrade inp invalid t st)) =
    sp_issues (replayTrade inp invalid t st) @ ys" by blast
  ultimately show ?case by simp
qed simp

lemma replay_none:
  assumes "sp_issues (fold (replayTrade inp invalid) (t # us) st) = sp_issues st"
  shows "sp_issues (replayTrade inp invalid t st) = sp_issues st"
    and "sp_issues (fold (replayTrade inp invalid) us (replayTrade inp invalid t st)) = sp_issues (replayTrade inp invalid t st)"
proof -
  from replayTrade_issues [of inp invalid t st] obtain xs where x: "sp_issues (replayTrade inp invalid t st) = sp_issues st @ xs" by blast
  from replay_issues [of inp invalid us "replayTrade inp invalid t st"] obtain ys where
    "sp_issues (fold (replayTrade inp invalid) us (replayTrade inp invalid t st)) = sp_issues (replayTrade inp invalid t st) @ ys" by blast
  with x assms show "sp_issues (replayTrade inp invalid t st) = sp_issues st"
    and "sp_issues (fold (replayTrade inp invalid) us (replayTrade inp invalid t st)) = sp_issues (replayTrade inp invalid t st)" by simp_all
qed

lemma replay_fits:
  "sp_issues (fold (replayTrade inp invalid) us st) = sp_issues st \<Longrightarrow> \<forall>t \<in> set us. \<exists>bo so. tradeFits inp invalid t bo so"
proof (induction us arbitrary: st)
  case (Cons t us)
  have "\<exists>bo so. tradeFits inp invalid t bo so" using replay_cases [OF replay_none(1) [OF Cons.prems]] by blast
  moreover have "\<forall>t \<in> set us. \<exists>bo so. tradeFits inp invalid t bo so" using Cons.IH [OF replay_none(2) [OF Cons.prems]] .
  ultimately show ?case by simp
qed simp

section \<open>The whole replay\<close>

definition spotOnly :: "(string \<times> string, 'a) rows \<Rightarrow> bool" where
  "spotOnly hs \<longleftrightarrow> (\<forall>k h. findRow hs k = Some h \<longrightarrow> futureDef (snd k) = None \<and> optionDef (snd k) = None)"

lemma replay_spot:
  assumes "sp_issues (replayTrade inp invalid t st) = sp_issues st" "spotOnly (sp_holdings st)"
  shows "futureDef (rt_symbol t) = None \<and> optionDef (rt_symbol t) = None \<and> spotOnly (sp_holdings (replayTrade inp invalid t st))"
proof -
  obtain bo so buyer seller h where
    c: "tradeFits inp invalid t bo so" "sellerSource t (sp_holdings st) = Some h" "\<not> badHolding (sellerHoldingAfter t h)"
    "replayTrade inp invalid t st = replayed t buyer seller (ro_holdPerUnit bo) h st"
    by (rule replay_cases [OF assms(1)])
  from c(1) have q: "0 < rt_qty t" by (simp add: tradeFits_def)
  from c(3) have "rt_qty t \<le> rh_holdQty h" by (simp add: badHolding_def sellerHoldingAfter_def)
  then have "findRow (sp_holdings st) (rt_sellerAccountId t, rt_symbol t) \<noteq> None"
    using c(2) q by (auto simp: sellerSource_def buyerHoldingAfter_def Let_def split: if_splits option.splits)
  then have s: "futureDef (rt_symbol t) = None \<and> optionDef (rt_symbol t) = None"
    using assms(2) unfolding spotOnly_def by fastforce
  then have "spotOnly (holdingsAfter t h (sp_holdings st))"
    using assms(2) by (auto simp: spotOnly_def holdingsAfter_def Let_def rows.look_put split: if_splits)
  with s c(4) show ?thesis by (simp add: replayed_def)
qed

text \<open>What a trade needs to be settled: it is new, before fees, and its orders have room for all of it.\<close>

definition settleable :: "db \<Rightarrow> recovery_trade list \<Rightarrow> bool" where
  "settleable d0 ts \<longleftrightarrow> distinct (map rt_id ts) \<and>
     (\<forall>t \<in> set ts. rt_id t \<notin> set (db_processed d0) \<and> findRow (db_pnl d0) (rt_id t) = None \<and>
        rt_createdAt t < TRADING_FEES_EFFECTIVE_AT \<and> 0 < rt_qty t \<and>
        (\<forall>i \<in> {rt_buyOrderId t, rt_sellOrderId t}. \<exists>o0. findRow (db_orders d0) i = Some o0 \<and> isActive (or_status o0) \<and>
           or_filledQty o0 + fills i ts \<le> or_qty o0))"

lemma fills_nonneg: "\<forall>t \<in> set ts. 0 < rt_qty t \<Longrightarrow> 0 \<le> fills i ts"
  by (induction ts) (auto simp: fillOfTrade_def)

lemma settleable_room:
  assumes "settleable d0 (ts @ t # us)" "i \<in> {rt_buyOrderId t, rt_sellOrderId t}"
  shows "roomFor (db_orders d0) ts (rt_qty t) i"
proof -
  from assms obtain o0 where o0: "findRow (db_orders d0) i = Some o0" "isActive (or_status o0)"
    "or_filledQty o0 + fills i (ts @ t # us) \<le> or_qty o0" unfolding settleable_def by auto
  have "0 \<le> fills i ts" "0 \<le> fills i us" "0 < rt_qty t" using assms(1) by (auto simp: settleable_def intro!: fills_nonneg)
  moreover have "rt_qty t \<le> fillOfTrade i t" using assms(2) \<open>0 < rt_qty t\<close> by (auto simp: fillOfTrade_def)
  ultimately show ?thesis using o0 by (auto simp: roomFor_def)
qed

lemma replay_run:
  assumes "sp_issues (fold (replayTrade inp invalid) us st) = sp_issues st" and "simulates ts d0 st d"
    and "ordersRead inp d0" "spotOnly (sp_holdings st)" "settleable d0 (ts @ us)"
  shows "\<exists>d'. foldE (\<lambda>t. settleTrade (replayEvent k t)) us d = Inr d' \<and>
    simulates (ts @ us) d0 (fold (replayTrade inp invalid) us st) d'"
  using assms
proof (induction us arbitrary: ts st d)
  case (Cons t us)
  note one = replay_none(1) [OF Cons.prems(1)] and rest = replay_none(2) [OF Cons.prems(1)]
  from replay_spot [OF one Cons.prems(4)] have spot: "futureDef (rt_symbol t) = None" "optionDef (rt_symbol t) = None"
    and so: "spotOnly (sp_holdings (replayTrade inp invalid t st))" by simp_all
  have s: "settleable d0 ((ts @ [t]) @ us)" using Cons.prems(5) by simp
  have "\<exists>d'. settleTrade (replayEvent k t) d = Inr d' \<and> simulates (ts @ [t]) d0 (replayTrade inp invalid t st) d'"
    using Cons.prems(5) by (intro replay_step [OF Cons.prems(2) one Cons.prems(3)] spot settleable_room [OF Cons.prems(5)])
      (auto simp: settleable_def)
  then obtain d1 where d1: "settleTrade (replayEvent k t) d = Inr d1" "simulates (ts @ [t]) d0 (replayTrade inp invalid t st) d1" by blast
  from Cons.IH [OF rest d1(2) Cons.prems(3) so s] d1(1) show ?case by simp
qed simp

section \<open>Reading the database\<close>

lemma findRow_byId: "uniqueKeys t \<Longrightarrow> findRow (byId t) = findRow t"
proof
  fix k assume u: "uniqueKeys t"
  have "uniqueKeys (byId t)" using u by (simp add: uniqueKeys_def byId_def distinct_map)
  then have "findRow (byId t) k = Some v \<longleftrightarrow> findRow t k = Some v" for v
    using u by (simp add: findRow_unique) (simp add: byId_def)
  then show "findRow (byId t) k = findRow t k" by (metis not_None_eq)
qed

lemma uniqueKeys_byId: "uniqueKeys t \<Longrightarrow> uniqueKeys (map (\<lambda>(k, v). (k, f v)) (byId t))"
  by (simp add: uniqueKeys_def byId_def distinct_map comp_def case_prod_beta)

lemma qtyOr0_addQty [simp]: "qtyOr0 (addQty k x m) j = qtyOr0 m j + (if j = k then x else 0)"
  by (simp add: qtyOr0_def addQty_def)

lemma recorded_fills: "qtyOr0 (fold addFill ts m) i = qtyOr0 m i + fills i ts"
  by (induction ts arbitrary: m) (auto simp: addFill_def fillOfTrade_def)

lemma loaded [simp]:
  "in_trades (loadRecoveryInput d) = unsettledTrades d" "in_orders (loadRecoveryInput d) = map recoveryOrder (byId (db_orders d))"
  "qtyOr0 (in_recorded (loadRecoveryInput d)) i = fills i (allTrades d)"
  "qtyOr0 (in_unsettled (loadRecoveryInput d)) i = fills i (unsettledTrades d)"
  by (simp_all add: loadRecoveryInput_def recorded_fills) (simp_all add: qtyOr0_def)

lemma loaded_accounts:
  assumes "uniqueKeys (db_accounts d)"
  shows "findRow (in_accounts (loadRecoveryInput d)) i = map_option recoveryAccount (findRow (db_accounts d) i)"
    and "uniqueKeys (in_accounts (loadRecoveryInput d))"
  using assms by (simp_all add: loadRecoveryInput_def findRow_map findRow_byId uniqueKeys_byId)

lemma loaded_holdings:
  assumes "uniqueKeys (db_holdings d)"
  shows "findRow (in_holdings (loadRecoveryInput d)) k = map_option recoveryHolding (findRow (db_holdings d) k)"
    and "uniqueKeys (in_holdings (loadRecoveryInput d))"
  using assms by (simp_all add: loadRecoveryInput_def findRow_map findRow_byId uniqueKeys_byId)

lemma ordersRead_loaded:
  assumes "uniqueKeys (db_orders d)" "in_orders inp = map recoveryOrder (byId (db_orders d))" "db_orders d1 = db_orders d"
  shows "ordersRead inp d1"
proof -
  have "ordersById inp = map (\<lambda>(i, o'). (i, recoveryOrder (i, o'))) (byId (db_orders d))"
    unfolding ordersById_def assms(2) by (auto simp: recoveryOrder_def)
  moreover have "findRow (map (\<lambda>(i, o'). (i, recoveryOrder (i, o'))) t) i = map_option (\<lambda>o'. recoveryOrder (i, o')) (findRow t i)" for t i
    by (induction t) (auto simp: findRow_Cons)
  ultimately show ?thesis using assms by (simp add: ordersRead_def findRow_byId)
qed

section \<open>Restoring the reservations\<close>

lemma foldE_append: "foldE f (xs @ ys) s = bindE (foldE f xs s) (foldE f ys)"
  by (induction xs arbitrary: s) (auto simp: bindE_def split: sum.splits)

definition accountsAligned :: "(string, recovery_account) rows \<Rightarrow> (string, account_row) rows \<Rightarrow> bool" where
  "accountsAligned ps as \<longleftrightarrow> uniqueKeys ps \<and> (\<forall>i. findRow ps i = map_option recoveryAccount (findRow as i))"

definition holdingsAligned :: "(string \<times> string, recovery_holding) rows \<Rightarrow> (string \<times> string, holding_row) rows \<Rightarrow> bool" where
  "holdingsAligned ps hs \<longleftrightarrow> uniqueKeys ps \<and> (\<forall>k. findRow ps k = map_option recoveryHolding (findRow hs k))"

text \<open>The adjustments planned so far, applied to the database, give the rows the planner goes on with.\<close>

definition restored :: "db \<Rightarrow> prestate \<Rightarrow> (string, account_row) rows \<Rightarrow> (string \<times> string, holding_row) rows \<Rightarrow> bool" where
  "restored d st as hs \<longleftrightarrow> accountsOk as \<and> holdingsOk hs \<and> accountsAligned (ps_accounts st) as \<and> holdingsAligned (ps_holdings st) hs \<and>
     foldE applyAccountAdjustment (ps_accountAdjustments st) d = Inr (d\<lparr>db_accounts := as\<rparr>) \<and>
     (\<forall>as'. foldE applyHoldingAdjustment (ps_holdingAdjustments st) (d\<lparr>db_accounts := as'\<rparr>) =
        Inr (d\<lparr>db_accounts := as', db_holdings := hs\<rparr>))"

lemma restored_account:
  assumes "restored d st as hs"
  shows "\<exists>as'. restored d (adjustAccount x st) as' hs"
proof -
  obtain i target where x: "x = (i, target)" by (cases x)
  consider "adjustAccount x st = st" | xs where "adjustAccount x st = st\<lparr>ps_issues := xs\<rparr>"
    | p where "findRow (ps_accounts st) i = Some p" "0 \<le> target" "target \<le> ra_balance p"
      "adjustAccount x st = st\<lparr>ps_accountAdjustments := ps_accountAdjustments st @
         [\<lparr>aa_accountId = i, aa_fromHoldAmount = ra_holdAmount p, aa_toHoldAmount = target\<rparr>],
         ps_accounts := putRow i (p\<lparr>ra_holdAmount := target\<rparr>) (ps_accounts st)\<rparr>"
  proof (cases "findRow (ps_accounts st) i")
    case (Some p)
    then show ?thesis using that by (cases "target < 0 \<or> target > ra_balance p"; cases "ra_holdAmount p = target")
        (auto simp: adjustAccount_def x)
  qed (use that in \<open>simp add: adjustAccount_def x\<close>)
  then show ?thesis
  proof cases
    case (3 p)
    from assms 3(1) obtain a where a: "findRow as i = Some a" "p = recoveryAccount a"
      by (auto simp: restored_def accountsAligned_def)
    let ?a = "a\<lparr>ac_holdAmount := target, ac_version := ac_version a + 1\<rparr>"
    have c: "accountCheck ?a" using 3 a by (auto simp: accountCheck_def recoveryAccount_def)
    have "accountsAligned (putRow i (p\<lparr>ra_holdAmount := target\<rparr>) (ps_accounts st)) (putRow i ?a as)"
      using assms a unfolding restored_def accountsAligned_def
      by (auto simp: rows.wf_put rows.look_put recoveryAccount_def)
    then have "restored d (adjustAccount x st) (putRow i ?a as) hs"
      using assms a c unfolding restored_def 3(4)
      by (auto simp: foldE_append applyAccountAdjustment_def writeAccount_def intro: accountsOk_put)
    then show ?thesis ..
  qed (use assms in \<open>auto simp: restored_def\<close>)
qed

lemma restored_holding:
  assumes "restored d st as hs"
  shows "\<exists>hs'. restored d (adjustHolding x st) as hs'"
proof -
  obtain k target where x: "x = (k, target)" by (cases x)
  consider "adjustHolding x st = st" | xs where "adjustHolding x st = st\<lparr>ps_issues := xs\<rparr>"
    | p where "findRow (ps_holdings st) k = Some p" "0 \<le> target" "target \<le> rh_qty p"
      "adjustHolding x st = st\<lparr>ps_holdingAdjustments := ps_holdingAdjustments st @
         [\<lparr>ha_accountId = fst k, ha_symbol = snd k, ha_fromHoldQty = rh_holdQty p, ha_toHoldQty = target\<rparr>],
         ps_holdings := putRow k (p\<lparr>rh_holdQty := target\<rparr>) (ps_holdings st)\<rparr>"
  proof (cases "findRow (ps_holdings st) k")
    case (Some p)
    then show ?thesis using that by (cases "target < 0 \<or> target > rh_qty p"; cases "rh_holdQty p = target")
        (auto simp: adjustHolding_def x)
  qed (use that in \<open>simp add: adjustHolding_def x\<close>)
  then show ?thesis
  proof cases
    case (3 p)
    have "findRow (ps_holdings st) k = map_option recoveryHolding (findRow hs k)"
      using assms unfolding restored_def holdingsAligned_def by blast
    with 3(1) have "map_option recoveryHolding (findRow hs k) = Some p" by simp
    then obtain h where h: "findRow hs k = Some h" "p = recoveryHolding h" by (auto simp: map_option_eq_Some)
    let ?h = "h\<lparr>ho_holdQty := target\<rparr>"
    have c: "holdingCheck ?h" using 3 h by (auto simp: holdingCheck_def recoveryHolding_def)
    have "holdingsAligned (putRow k (p\<lparr>rh_holdQty := target\<rparr>) (ps_holdings st)) (putRow k ?h hs)"
      using assms h unfolding restored_def holdingsAligned_def
      by (auto simp: rows.wf_put rows.look_put recoveryHolding_def)
    then have "restored d (adjustHolding x st) as (putRow k ?h hs)"
      using assms h c unfolding restored_def 3(4)
      by (auto simp: foldE_append applyHoldingAdjustment_def writeHolding_def intro: holdingsOk_put)
    then show ?thesis ..
  qed (use assms in \<open>auto simp: restored_def\<close>)
qed

lemma restored_accounts: "restored d st as hs \<Longrightarrow> \<exists>as'. restored d (fold adjustAccount xs st) as' hs"
proof (induction xs arbitrary: st as)
  case (Cons x xs)
  from restored_account [OF Cons.prems, of x] Cons.IH show ?case by auto
qed auto

lemma restored_holdings: "restored d st as hs \<Longrightarrow> \<exists>hs'. restored d (fold adjustHolding xs st) as hs'"
proof (induction xs arbitrary: st hs)
  case (Cons x xs)
  from restored_holding [OF Cons.prems, of x] Cons.IH show ?case by auto
qed auto

lemma prestate_restores:
  assumes "uniqueKeys (db_accounts d)" "uniqueKeys (db_holdings d)" "dbOk d"
  shows "\<exists>as hs. restored d (buildReservationPrestate (loadRecoveryInput d)) as hs"
proof -
  let ?rs = "orderReservations (loadRecoveryInput d)"
  let ?st = "\<lparr>ps_issues = rs_issues ?rs, ps_accounts = in_accounts (loadRecoveryInput d), ps_holdings = in_holdings (loadRecoveryInput d),
    ps_accountAdjustments = [], ps_holdingAdjustments = [], ps_finalCash = rs_finalCash ?rs, ps_finalQty = rs_finalQty ?rs\<rparr>"
  have "restored d ?st (db_accounts d) (db_holdings d)"
    using assms dbOk_parts [OF assms(3)] loaded_accounts [OF assms(1)] loaded_holdings [OF assms(2)]
    by (simp add: restored_def accountsAligned_def holdingsAligned_def)
  from restored_accounts [OF this] restored_holdings show ?thesis
    unfolding buildReservationPrestate_def Let_def by meson
qed

section \<open>Writing the plan\<close>

lemma processed_run:
  "distinct ids \<Longrightarrow> set ids \<inter> set (db_processed d) = {} \<Longrightarrow>
    foldE createProcessed ids d = Inr (d\<lparr>db_processed := db_processed d @ ids\<rparr>)"
  by (induction ids arbitrary: d) (auto simp: createProcessed_def)

lemma ledger_run: "fold createLedger xs d = d\<lparr>db_ledger := db_ledger d @ xs\<rparr>"
  by (induction xs arbitrary: d) (auto simp: createLedger_def)

lemma pnl_run:
  assumes "distinct (map fst xs)" "\<forall>i \<in> fst ` set xs. findRow (db_pnl d) i = None"
  shows "\<exists>pn. foldE (\<lambda>(i, p). createPnl i p) xs d = Inr (d\<lparr>db_pnl := pn\<rparr>) \<and> pnlMatch (db_pnl d) xs pn"
  using assms
proof (induction xs arbitrary: d)
  case Nil
  then show ?case by (intro exI [of _ "db_pnl d"]) (simp add: pnlMatch_def)
next
  case (Cons x xs)
  obtain i p where x: "x = (i, p)" by (cases x)
  let ?d = "d\<lparr>db_pnl := putRow i p (db_pnl d)\<rparr>"
  have "\<forall>j \<in> fst ` set xs. findRow (db_pnl ?d) j = None" using Cons.prems x by (auto simp: rows.look_put)
  then obtain pn where pn: "foldE (\<lambda>(i, p). createPnl i p) xs ?d = Inr (?d\<lparr>db_pnl := pn\<rparr>)" "pnlMatch (db_pnl ?d) xs pn"
    using Cons.IH [of ?d] Cons.prems by auto
  have "map_of xs i = None" using Cons.prems(1) x by (simp add: map_of_eq_None_iff)
  then have "pnlMatch (db_pnl d) (x # xs) pn" using pn(2) x by (auto simp: pnlMatch_def rows.look_put split: option.splits)
  moreover have "foldE (\<lambda>(i, p). createPnl i p) (x # xs) d = Inr (d\<lparr>db_pnl := pn\<rparr>)"
    using pn(1) Cons.prems(2) x by (simp add: createPnl_def)
  ultimately show ?case by blast
qed

lemma map_of_filter_unique:
  "uniqueKeys xs \<Longrightarrow> map_of (filter P xs) k = (case findRow xs k of None \<Rightarrow> None | Some v \<Rightarrow> if P (k, v) then Some v else None)"
  by (induction xs) (auto simp: findRow_def uniqueKeys_def map_of_eq_None_iff image_iff split: option.splits)

lemma accounts_run:
  assumes "uniqueKeys xs" "\<forall>(i, p) \<in> set xs. \<exists>a. findRow (db_accounts d) i = Some a \<and> accountCheck (carried a p)"
  shows "\<exists>as. foldE applyAccount xs d = Inr (d\<lparr>db_accounts := as\<rparr>) \<and>
    (\<forall>i. findRow as i = (case map_of xs i of None \<Rightarrow> findRow (db_accounts d) i
       | Some p \<Rightarrow> map_option (\<lambda>a. carried a p) (findRow (db_accounts d) i)))"
  using assms
proof (induction xs arbitrary: d)
  case Nil
  then show ?case by (intro exI [of _ "db_accounts d"]) simp
next
  case (Cons x xs)
  obtain i p where x: "x = (i, p)" by (cases x)
  from Cons.prems x obtain a where a: "findRow (db_accounts d) i = Some a" "accountCheck (carried a p)" by auto
  let ?d = "d\<lparr>db_accounts := putRow i (carried a p) (db_accounts d)\<rparr>"
  have i: "i \<notin> fst ` set xs" and u: "uniqueKeys xs" using Cons.prems(1) x by (simp_all add: uniqueKeys_def)
  have "\<exists>a. findRow (db_accounts ?d) j = Some a \<and> accountCheck (carried a q)" if "(j, q) \<in> set xs" for j q
  proof -
    have "j \<noteq> i" using that i by (auto simp: image_iff)
    with Cons.prems(2) that show ?thesis by (auto simp: rows.look_put)
  qed
  then obtain as where as: "foldE applyAccount xs ?d = Inr (?d\<lparr>db_accounts := as\<rparr>)"
    "\<forall>j. findRow as j = (case map_of xs j of None \<Rightarrow> findRow (db_accounts ?d) j
       | Some p \<Rightarrow> map_option (\<lambda>a. carried a p) (findRow (db_accounts ?d) j))"
    using Cons.IH [OF u, of ?d] by blast
  have "applyAccount x d = Inr ?d" using a x by (simp add: applyAccount_def writeAccount_def carried_def)
  moreover have "map_of xs i = None" using i by (simp add: map_of_eq_None_iff)
  ultimately show ?case using as x a(1) by (intro exI [of _ as]) (auto split: option.splits)
qed

lemma holdings_run:
  assumes "uniqueKeys xs"
    "\<forall>(k, p) \<in> set xs. holdingCheck (plannedHoldingRow p) \<and> (rh_existed p \<longleftrightarrow> findRow (db_holdings d) k \<noteq> None)"
  shows "\<exists>hs. foldE applyHolding xs d = Inr (d\<lparr>db_holdings := hs\<rparr>) \<and>
    (\<forall>k. findRow hs k = (case map_of xs k of None \<Rightarrow> findRow (db_holdings d) k | Some p \<Rightarrow> Some (plannedHoldingRow p)))"
  using assms
proof (induction xs arbitrary: d)
  case Nil
  then show ?case by (intro exI [of _ "db_holdings d"]) simp
next
  case (Cons x xs)
  obtain k p where x: "x = (k, p)" by (cases x)
  let ?d = "d\<lparr>db_holdings := putRow k (plannedHoldingRow p) (db_holdings d)\<rparr>"
  have k: "k \<notin> fst ` set xs" and u: "uniqueKeys xs" using Cons.prems(1) x by (simp_all add: uniqueKeys_def)
  have "holdingCheck (plannedHoldingRow q) \<and> (rh_existed q \<longleftrightarrow> findRow (db_holdings ?d) j \<noteq> None)" if "(j, q) \<in> set xs" for j q
  proof -
    have "j \<noteq> k" using that k by (auto simp: image_iff)
    with Cons.prems(2) that show ?thesis by (auto simp: rows.look_put)
  qed
  then obtain hs where hs: "foldE applyHolding xs ?d = Inr (?d\<lparr>db_holdings := hs\<rparr>)"
    "\<forall>j. findRow hs j = (case map_of xs j of None \<Rightarrow> findRow (db_holdings ?d) j | Some p \<Rightarrow> Some (plannedHoldingRow p))"
    using Cons.IH [OF u, of ?d] by blast
  have "applyHolding x d = Inr ?d"
    using Cons.prems(2) x by (auto simp: applyHolding_def writeHolding_def split: option.split)
  moreover have "map_of xs k = None" using k by (simp add: map_of_eq_None_iff)
  ultimately show ?case using hs x
    by (intro exI [of _ hs]) (simp add: rows.look_put split: option.splits)
qed

definition plannedRow :: "planned_order \<Rightarrow> order_row \<Rightarrow> order_row" where
  "plannedRow p o' = o'\<lparr>or_filledQty := pq_filledQty p, or_status := statusOfText (pq_status p) (or_status o')\<rparr>"

lemma orders_run:
  assumes "distinct (map pq_id xs)" "\<forall>p \<in> set xs. findRow (db_orders d) (pq_id p) \<noteq> None"
  shows "\<exists>os. foldE applyOrderUpdate xs d = Inr (d\<lparr>db_orders := os\<rparr>) \<and>
    (\<forall>i. findRow os i = (case map_of (map (\<lambda>p. (pq_id p, p)) xs) i of None \<Rightarrow> findRow (db_orders d) i
       | Some p \<Rightarrow> map_option (plannedRow p) (findRow (db_orders d) i)))"
  using assms
proof (induction xs arbitrary: d)
  case Nil
  then show ?case by (intro exI [of _ "db_orders d"]) simp
next
  case (Cons p xs)
  from Cons.prems obtain o' where o': "findRow (db_orders d) (pq_id p) = Some o'" by auto
  let ?d = "d\<lparr>db_orders := putRow (pq_id p) (plannedRow p o') (db_orders d)\<rparr>"
  have "\<forall>q \<in> set xs. findRow (db_orders ?d) (pq_id q) \<noteq> None" using Cons.prems by (auto simp: rows.look_put)
  then obtain os where os: "foldE applyOrderUpdate xs ?d = Inr (?d\<lparr>db_orders := os\<rparr>)"
    "\<forall>i. findRow os i = (case map_of (map (\<lambda>p. (pq_id p, p)) xs) i of None \<Rightarrow> findRow (db_orders ?d) i
       | Some p \<Rightarrow> map_option (plannedRow p) (findRow (db_orders ?d) i))"
    using Cons.IH [of ?d] Cons.prems by auto
  have "applyOrderUpdate p d = Inr ?d" using o' by (simp add: applyOrderUpdate_def updateOrder_def plannedRow_def)
  moreover have "map_of (map (\<lambda>p. (pq_id p, p)) xs) (pq_id p) = None"
    using Cons.prems(1) by (auto simp: map_of_eq_None_iff)
  ultimately show ?case using os o' by (intro exI [of _ os]) (auto simp: rows.look_put split: option.splits)
qed

section \<open>What the replay keeps\<close>

definition wellKept :: "(string \<times> string, recovery_holding) rows \<Rightarrow> replay_state \<Rightarrow> bool" where
  "wellKept hs0 st \<longleftrightarrow> uniqueKeys (sp_accounts st) \<and> uniqueKeys (sp_holdings st) \<and>
     (\<forall>i p. findRow (sp_accounts st) i = Some p \<longrightarrow> 0 \<le> ra_versionIncrement p) \<and>
     (\<forall>k h. findRow (sp_holdings st) k = Some h \<longrightarrow> (rh_existed h \<longleftrightarrow> findRow hs0 k \<noteq> None)) \<and>
     (\<forall>k. findRow hs0 k \<noteq> None \<longrightarrow> findRow (sp_holdings st) k \<noteq> None)"

lemma wellKept_step:
  assumes "sp_issues (replayTrade inp invalid t st) = sp_issues st" "wellKept hs0 st"
  shows "wellKept hs0 (replayTrade inp invalid t st)"
proof -
  obtain bo so buyer seller h where f: "tradeFits inp invalid t bo so"
    and c: "findRow (sp_accounts st) (rt_buyerAccountId t) = Some buyer" "findRow (sp_accounts st) (rt_sellerAccountId t) = Some seller"
    "sellerSource t (sp_holdings st) = Some h" "replayTrade inp invalid t st = replayed t buyer seller (ro_holdPerUnit bo) h st"
    by (rule replay_cases [OF assms(1)])
  let ?bk = "(rt_buyerAccountId t, rt_symbol t)" and ?sk = "(rt_sellerAccountId t, rt_symbol t)"
  have b: "0 \<le> ra_versionIncrement buyer" and s: "0 \<le> ra_versionIncrement seller"
    using assms(2) c(1,2) by (auto simp: wellKept_def)
  have e: "rh_existed g \<longleftrightarrow> findRow hs0 k \<noteq> None" if "findRow (sp_holdings st) k = Some g" for k g
    using assms(2) that unfolding wellKept_def by blast
  have dom: "findRow hs0 k \<noteq> None \<Longrightarrow> findRow (sp_holdings st) k \<noteq> None" for k
    using assms(2) unfolding wellKept_def by blast
  have eb: "rh_existed (buyerHoldingAfter t (findRow (sp_holdings st) ?bk)) \<longleftrightarrow> findRow hs0 ?bk \<noteq> None"
    using e [of ?bk] dom [of ?bk]
    by (cases "findRow (sp_holdings st) ?bk"; cases "findRow hs0 ?bk") (auto simp: buyerHoldingAfter_def)
  have es: "rh_existed (sellerHoldingAfter t h) \<longleftrightarrow> findRow hs0 ?sk \<noteq> None"
    using c(3) eb e [of ?sk] by (auto simp: sellerSource_def sellerHoldingAfter_def split: if_splits)
  have acc: "\<forall>i p. findRow (fold bumped (accountsAfter t (ro_holdPerUnit bo) buyer seller) (sp_accounts st)) i = Some p \<longrightarrow> 0 \<le> ra_versionIncrement p"
    using assms(2) b s by (auto simp: wellKept_def accountsAfter_def bumped_def Let_def rows.look_put)
  have hold: "\<forall>k g. findRow (holdingsAfter t h (sp_holdings st)) k = Some g \<longrightarrow> (rh_existed g \<longleftrightarrow> findRow hs0 k \<noteq> None)"
    using e eb es by (auto simp: holdingsAfter_def Let_def rows.look_put split: if_splits)
  have keys: "uniqueKeys (fold bumped (accountsAfter t (ro_holdPerUnit bo) buyer seller) (sp_accounts st))"
    "uniqueKeys (holdingsAfter t h (sp_holdings st))"
    using assms(2) by (auto simp: wellKept_def accountsAfter_def holdingsAfter_def bumped_def Let_def rows.wf_put)
  have dom': "\<forall>k. findRow hs0 k \<noteq> None \<longrightarrow> findRow (holdingsAfter t h (sp_holdings st)) k \<noteq> None"
    using dom by (auto simp: holdingsAfter_def Let_def rows.look_put)
  show ?thesis unfolding wellKept_def c(4) replayed_def using acc hold keys dom' by simp
qed

lemma wellKept_run:
  "sp_issues (fold (replayTrade inp invalid) us st) = sp_issues st \<Longrightarrow> wellKept hs0 st \<Longrightarrow>
    wellKept hs0 (fold (replayTrade inp invalid) us st)"
proof (induction us arbitrary: st)
  case (Cons t us)
  have "wellKept hs0 (replayTrade inp invalid t st)" by (rule wellKept_step [OF replay_none(1) [OF Cons.prems(1)] Cons.prems(2)])
  from Cons.IH [OF replay_none(2) [OF Cons.prems(1)] this] show ?case by simp
qed simp

section \<open>Consistent databases\<close>

definition settledTrades :: "db \<Rightarrow> recovery_trade list" where
  "settledTrades d = filter (\<lambda>t. rt_id t \<in> set (db_processed d)) (allTrades d)"

text \<open>The order's fill is what its settled trades add up to, and its status says how full it is.\<close>

definition orderConsistent :: "db \<Rightarrow> string \<Rightarrow> order_row \<Rightarrow> bool" where
  "orderConsistent d i o' \<longleftrightarrow> or_filledQty o' = fills i (settledTrades d) \<and>
     (isActive (or_status o') \<longrightarrow> or_filledQty o' < or_qty o' \<and> or_status o' = (if or_filledQty o' > 0 then PARTIAL else OPEN))"

text \<open>
  What the tables keep as long as only the services write them: keys and CHECK constraints, fills and
  realised rows that are recorded with their event, and holdings of stocks only.
\<close>

definition recoverable :: "db \<Rightarrow> bool" where
  "recoverable d \<longleftrightarrow> uniqueKeys (db_accounts d) \<and> uniqueKeys (db_holdings d) \<and> uniqueKeys (db_orders d) \<and> uniqueKeys (db_trades d) \<and>
     dbOk d \<and> spotOnly (db_holdings d) \<and> (\<forall>i p. findRow (db_pnl d) i = Some p \<longrightarrow> i \<in> set (db_processed d)) \<and>
     (\<forall>i o'. findRow (db_orders d) i = Some o' \<longrightarrow> orderConsistent d i o')"

lemma fills_split: "fills i (allTrades d) = fills i (settledTrades d) + fills i (unsettledTrades d)"
proof -
  have "fills i ts = fills i (filter P ts) + fills i (filter (\<lambda>t. \<not> P t) ts)" for P ts
    by (induction ts) auto
  then show ?thesis by (simp add: settledTrades_def unsettledTrades_def)
qed

lemma allTrades_ids: "uniqueKeys (db_trades d) \<Longrightarrow> distinct (map rt_id (allTrades d))"
proof -
  assume "uniqueKeys (db_trades d)"
  moreover have "rt_id \<circ> recoveryTrade = fst" by (auto simp: recoveryTrade_def fun_eq_iff)
  ultimately have "distinct (map rt_id (map recoveryTrade (db_trades d)))" by (simp add: uniqueKeys_def)
  moreover have "distinct (map rt_id (tradeOrder ts)) \<longleftrightarrow> distinct (map rt_id ts)" for ts
    by (simp add: tradeOrder_def distinct_map)
  ultimately show "distinct (map rt_id (allTrades d))" unfolding allTrades_def by blast
qed

lemma unsettledTrades_ordered: "tradeOrder (unsettledTrades d) = unsettledTrades d"
proof -
  have "sorted (map (\<lambda>t. (rt_createdAt t, rt_id t)) (unsettledTrades d))"
    unfolding unsettledTrades_def allTrades_def tradeOrder_def by (intro sorted_filter sorted_sort_key)
  then show ?thesis unfolding tradeOrder_def by (rule sort_key_id_if_sorted)
qed

section \<open>A plan without issues\<close>

lemma uniq_Nil [simp]: "uniq xs = [] \<longleftrightarrow> xs = []"
  by (cases xs) auto

lemma clean_plan:
  assumes "rp_issues (buildRecoveryPlan inp) = []"
  shows "ps_issues (buildReservationPrestate inp) = []" "orderIssues (replayInput inp) = []"
    "sp_issues (replayAll (replayInput inp)) = []" "\<forall>t \<in> set (in_trades inp). rt_createdAt t < TRADING_FEES_EFFECTIVE_AT"
proof -
  from assms show "ps_issues (buildReservationPrestate inp) = []" and s: "sp_issues (replayAll (replayInput inp)) = []"
    and "\<forall>t \<in> set (in_trades inp). rt_createdAt t < TRADING_FEES_EFFECTIVE_AT"
    by (auto simp: buildRecoveryPlan_def Let_def feeIssues_def filter_empty_conv not_le)
  let ?inv = "map fst (orderIssues (replayInput inp))"
  let ?st = "\<lparr>sp_issues = map snd (orderIssues (replayInput inp)), sp_accounts = in_accounts (replayInput inp),
    sp_holdings = in_holdings (replayInput inp), sp_ledger = [], sp_pnl = [], sp_settled = [], sp_buckets = []\<rparr>"
  from replay_issues [of "replayInput inp" ?inv "tradeOrder (in_trades (replayInput inp))" ?st] s
  show "orderIssues (replayInput inp) = []" by (auto simp: replayAll_def)
qed

lemma orderIssues_Nil:
  "orderIssues inp = [] \<longleftrightarrow> (\<forall>o' \<in> set (in_orders inp). validOrderState o' (qtyOr0 (in_recorded inp) (ro_id o')) = None)"
  by (auto simp: orderIssues_def map_filter_def filter_empty_conv)

lemma statusText_active [simp]: "statusText s \<in> set ACTIVE_ORDER_STATUSES \<longleftrightarrow> isActive s"
  by (cases s) (auto simp: statusText_def ACTIVE_ORDER_STATUSES_def isActive_def)

lemma statusText_terminal [simp]: "statusText s \<in> set TERMINAL_ORDER_STATUSES \<longleftrightarrow> \<not> isActive s"
  by (cases s) (auto simp: statusText_def TERMINAL_ORDER_STATUSES_def isActive_def)

lemma validOrderState_None:
  "validOrderState o' n = None \<Longrightarrow> n \<le> ro_qty o' \<and> ro_filledQty o' \<le> n \<and> 0 \<le> ro_filledQty o' \<and>
    (ro_status o' \<in> set TERMINAL_ORDER_STATUSES \<longrightarrow> ro_filledQty o' = n)"
  by (auto simp: validOrderState_def Let_def split: if_splits)

text \<open>The state the replay begins with, and what a plan without issues says about it.\<close>

abbreviation startState :: "recovery_input \<Rightarrow> replay_state" where
  "startState inp \<equiv> \<lparr>sp_issues = [], sp_accounts = in_accounts inp, sp_holdings = in_holdings inp,
     sp_ledger = [], sp_pnl = [], sp_settled = [], sp_buckets = []\<rparr>"

lemma replayInput_simps [simp]:
  "in_trades (replayInput inp) = in_trades inp" "in_orders (replayInput inp) = in_orders inp"
  "in_recorded (replayInput inp) = in_recorded inp" "in_accounts (replayInput inp) = ps_accounts (buildReservationPrestate inp)"
  "in_holdings (replayInput inp) = ps_holdings (buildReservationPrestate inp)"
  by (simp_all add: replayInput_def)

lemma replayAll_clean:
  assumes "rp_issues (buildRecoveryPlan (loadRecoveryInput d)) = []"
  shows "replayAll (replayInput (loadRecoveryInput d)) =
    fold (replayTrade (replayInput (loadRecoveryInput d)) []) (unsettledTrades d) (startState (replayInput (loadRecoveryInput d)))"
  using clean_plan(2) [OF assms] by (simp add: replayAll_def unsettledTrades_ordered)

lemma order_facts:
  assumes "recoverable d" "rp_issues (buildRecoveryPlan (loadRecoveryInput d)) = []" "findRow (db_orders d) i = Some o'"
  shows "0 \<le> or_filledQty o'" "or_filledQty o' + fills i (unsettledTrades d) = fills i (allTrades d)"
    "fills i (allTrades d) \<le> or_qty o'" "\<not> isActive (or_status o') \<Longrightarrow> fills i (unsettledTrades d) = 0"
    "isActive (or_status o') \<Longrightarrow> or_filledQty o' < or_qty o' \<and> or_status o' = (if or_filledQty o' > 0 then PARTIAL else OPEN)"
proof -
  have u: "uniqueKeys (db_orders d)" and c: "orderConsistent d i o'" using assms(1,3) by (auto simp: recoverable_def)
  have "(i, o') \<in> set (db_orders d)" using findRow_in_set [OF assms(3)] .
  then have "recoveryOrder (i, o') \<in> set (in_orders (loadRecoveryInput d))" by (auto simp: byId_def)
  then have "validOrderState (recoveryOrder (i, o')) (fills i (allTrades d)) = None"
    using bspec [OF iffD1 [OF orderIssues_Nil clean_plan(2) [OF assms(2)]], of "recoveryOrder (i, o')"] by simp
  from validOrderState_None [OF this]
  have v: "fills i (allTrades d) \<le> or_qty o'" "or_filledQty o' \<le> fills i (allTrades d)" "0 \<le> or_filledQty o'"
    "\<not> isActive (or_status o') \<Longrightarrow> or_filledQty o' = fills i (allTrades d)" by simp_all
  then show "0 \<le> or_filledQty o'" "fills i (allTrades d) \<le> or_qty o'" by simp_all
  from c show s: "or_filledQty o' + fills i (unsettledTrades d) = fills i (allTrades d)"
    by (simp add: orderConsistent_def fills_split)
  show "fills i (unsettledTrades d) = 0" if "\<not> isActive (or_status o')" using v(4) [OF that] s by simp
  show "or_filledQty o' < or_qty o' \<and> or_status o' = (if or_filledQty o' > 0 then PARTIAL else OPEN)" if "isActive (or_status o')"
    using c that by (simp add: orderConsistent_def)
qed

lemma unsettled_settleable:
  assumes r: "recoverable d" and clean: "rp_issues (buildRecoveryPlan (loadRecoveryInput d)) = []"
    and d1: "db_orders d1 = db_orders d" "db_processed d1 = db_processed d" "db_pnl d1 = db_pnl d"
  shows "settleable d1 (unsettledTrades d)"
proof -
  let ?inp = "replayInput (loadRecoveryInput d)"
  have issues: "sp_issues (fold (replayTrade ?inp []) (unsettledTrades d) (startState ?inp)) = sp_issues (startState ?inp)"
    using clean_plan(3) [OF clean] by (simp add: replayAll_clean [OF clean])
  have read: "ordersRead ?inp d1" using r d1 by (intro ordersRead_loaded [of d]) (auto simp: recoverable_def)
  have dist: "distinct (map rt_id (unsettledTrades d))"
    using r allTrades_ids unfolding unsettledTrades_def recoverable_def by (intro distinct_map_filter) blast
  have pos: "0 < rt_qty t" if "t \<in> set (unsettledTrades d)" for t
    using replay_fits [OF issues] that by (auto simp: tradeFits_def)
  have one: "\<exists>o0. findRow (db_orders d1) i = Some o0 \<and> isActive (or_status o0) \<and> or_filledQty o0 + fills i (unsettledTrades d) \<le> or_qty o0"
    if t: "t \<in> set (unsettledTrades d)" and i: "i \<in> {rt_buyOrderId t, rt_sellOrderId t}" for t i
  proof -
    from replay_fits [OF issues] t obtain bo so where "tradeFits ?inp [] t bo so" by blast
    then have "findRow (ordersById ?inp) i \<noteq> None" using i by (auto simp: tradeFits_def)
    then obtain o0 where o0: "findRow (db_orders d) i = Some o0" using read d1 by (auto simp: ordersRead_def)
    have "0 < fills i (unsettledTrades d)"
    proof -
      obtain xs ys where xy: "unsettledTrades d = xs @ t # ys" using t by (meson split_list)
      have "0 \<le> fills i xs" "0 \<le> fills i ys" using pos xy by (auto intro!: fills_nonneg)
      moreover have "0 < fillOfTrade i t" using i pos [OF t] by (auto simp: fillOfTrade_def)
      ultimately show ?thesis by (simp add: xy)
    qed
    then have "isActive (or_status o0)" using order_facts(4) [OF r clean o0] by auto
    then show ?thesis using order_facts(2,3) [OF r clean o0] o0 d1 by auto
  qed
  have pnl: "findRow (db_pnl d) (rt_id t) = None" if "t \<in> set (unsettledTrades d)" for t
    using r that by (auto simp: recoverable_def unsettledTrades_def)
  show ?thesis
    unfolding settleable_def using dist pos one pnl clean_plan(4) [OF clean] d1
    by (auto simp: unsettledTrades_def)
qed

section \<open>The written tables are the settled tables\<close>

lemma carried_same: "carried a (recoveryAccount a) = a"
  by (simp add: carried_def recoveryAccount_def)

lemma carried_unchanged:
  "ra_balance p = ac_balance a \<Longrightarrow> ra_holdAmount p = ac_holdAmount a \<Longrightarrow> ra_versionIncrement p = 0 \<Longrightarrow> carried a p = a"
  by (simp add: carried_def)

lemma plannedHoldingRow_same:
  "rh_qty p = ho_qty h \<Longrightarrow> rh_holdQty p = ho_holdQty h \<Longrightarrow> rh_costBasis p = ho_costBasis h \<Longrightarrow> plannedHoldingRow p = h"
  by (cases h) (simp add: plannedHoldingRow_def)

lemma accounts_agree:
  assumes m: "accountsMatch (db_accounts d) (sp_accounts st) as2" "accountsOk as2" and w: "wellKept hs0 st"
    and al: "accountsAligned ps (db_accounts d)"
  shows "\<exists>as. foldE applyAccount (filter (changedAccount ps) (sp_accounts st)) d = Inr (d\<lparr>db_accounts := as\<rparr>) \<and> findRow as = findRow as2"
proof -
  let ?xs = "filter (changedAccount ps) (sp_accounts st)"
  have u: "uniqueKeys (sp_accounts st)" using w by (simp add: wellKept_def)
  have row: "\<exists>a. findRow (db_accounts d) i = Some a \<and> findRow as2 i = Some (carried a p)" if "findRow (sp_accounts st) i = Some p" for i p
  proof -
    have "findRow (db_accounts d) i \<noteq> None" using m(1) that unfolding accountsMatch_def by (metis option.distinct(1))
    then show ?thesis using m(1) that unfolding accountsMatch_def by (auto split: option.splits)
  qed
  have none: "findRow (db_accounts d) i = None \<and> findRow as2 i = None" if "findRow (sp_accounts st) i = None" for i
    using m(1) that unfolding accountsMatch_def by (simp split: option.splits)
  have ux: "uniqueKeys ?xs" using u by (simp add: uniqueKeys_def distinct_map_filter)
  have chk: "\<forall>(i, p) \<in> set ?xs. \<exists>a. findRow (db_accounts d) i = Some a \<and> accountCheck (carried a p)"
  proof clarify
    fix i p assume "(i, p) \<in> set ?xs"
    then have "findRow (sp_accounts st) i = Some p" using u by (simp add: findRow_unique)
    from row [OF this] show "\<exists>a. findRow (db_accounts d) i = Some a \<and> accountCheck (carried a p)"
      using m(2) by (auto simp: accountsOk_def)
  qed
  from accounts_run [OF ux chk] obtain as where as: "foldE applyAccount ?xs d = Inr (d\<lparr>db_accounts := as\<rparr>)"
    "\<forall>i. findRow as i = (case map_of ?xs i of None \<Rightarrow> findRow (db_accounts d) i
       | Some p \<Rightarrow> map_option (\<lambda>a. carried a p) (findRow (db_accounts d) i))" by blast
  have "findRow as i = findRow as2 i" for i
  proof (cases "findRow (sp_accounts st) i")
    case None
    with as(2) none [OF None] show ?thesis by (simp add: map_of_filter_unique [OF u])
  next
    case (Some p)
    from row [OF Some] obtain a where a: "findRow (db_accounts d) i = Some a" "findRow as2 i = Some (carried a p)" by blast
    show ?thesis
    proof (cases "changedAccount ps (i, p)")
      case True
      with as(2) a Some show ?thesis by (simp add: map_of_filter_unique [OF u])
    next
      case False
      have "0 \<le> ra_versionIncrement p" using w Some by (auto simp: wellKept_def)
      then have "carried a p = a" using False al a
        by (intro carried_unchanged) (auto simp: changedAccount_def accountsAligned_def recoveryAccount_def)
      with as(2) a Some False show ?thesis by (simp add: map_of_filter_unique [OF u])
    qed
  qed
  with as(1) show ?thesis by (auto simp: fun_eq_iff)
qed

lemma holdings_agree:
  assumes m: "holdingsMatch (sp_holdings st) hs2" "holdingsOk hs2" and w: "wellKept ps st"
    and al: "holdingsAligned ps (db_holdings d)"
  shows "\<exists>hs. foldE applyHolding (filter (changedHolding ps) (sp_holdings st)) d = Inr (d\<lparr>db_holdings := hs\<rparr>) \<and> findRow hs = findRow hs2"
proof -
  let ?xs = "filter (changedHolding ps) (sp_holdings st)"
  have u: "uniqueKeys (sp_holdings st)" using w by (simp add: wellKept_def)
  have row: "findRow hs2 k = map_option plannedHoldingRow (findRow (sp_holdings st) k)" for k
    using m(1) unfolding holdingsMatch_def by (rule spec)
  have al': "findRow ps k = map_option recoveryHolding (findRow (db_holdings d) k)" for k
    using al unfolding holdingsAligned_def by blast
  have ex: "rh_existed p \<longleftrightarrow> findRow (db_holdings d) k \<noteq> None" if "findRow (sp_holdings st) k = Some p" for k p
    using w that al' [of k] unfolding wellKept_def by (metis option.map_disc_iff)
  have dom: "findRow (db_holdings d) k = None" if "findRow (sp_holdings st) k = None" for k
    using w that al' [of k] unfolding wellKept_def by (metis option.map_disc_iff)
  have ux: "uniqueKeys ?xs" using u by (simp add: uniqueKeys_def distinct_map_filter)
  have chk: "\<forall>(k, p) \<in> set ?xs. holdingCheck (plannedHoldingRow p) \<and> (rh_existed p \<longleftrightarrow> findRow (db_holdings d) k \<noteq> None)"
  proof clarify
    fix a b p assume "((a, b), p) \<in> set ?xs"
    then have f: "findRow (sp_holdings st) (a, b) = Some p" using u by (simp add: findRow_unique)
    then show "holdingCheck (plannedHoldingRow p) \<and> (rh_existed p \<longleftrightarrow> findRow (db_holdings d) (a, b) \<noteq> None)"
      using m(2) row [of "(a, b)"] ex [OF f] by (auto simp: holdingsOk_def)
  qed
  from holdings_run [OF ux chk] obtain hs where hs: "foldE applyHolding ?xs d = Inr (d\<lparr>db_holdings := hs\<rparr>)"
    "\<forall>k. findRow hs k = (case map_of ?xs k of None \<Rightarrow> findRow (db_holdings d) k | Some p \<Rightarrow> Some (plannedHoldingRow p))" by blast
  have "findRow hs k = findRow hs2 k" for k
  proof (cases "findRow (sp_holdings st) k")
    case None
    have "map_of ?xs k = None" using None by (simp add: map_of_filter_unique [OF u])
    with spec [OF hs(2), of k] None dom [OF None] row [of k] show ?thesis by simp
  next
    case (Some p)
    show ?thesis
    proof (cases "changedHolding ps (k, p)")
      case True
      then have "map_of ?xs k = Some p" using Some by (simp add: map_of_filter_unique [OF u])
      with spec [OF hs(2), of k] Some row [of k] show ?thesis by simp
    next
      case False
      then obtain h where h: "findRow (db_holdings d) k = Some h" "rh_qty p = ho_qty h" "rh_holdQty p = ho_holdQty h" "rh_costBasis p = ho_costBasis h"
        using al' [of k] by (auto simp: changedHolding_def recoveryHolding_def split: option.splits)
      have "map_of ?xs k = None" using Some False by (simp add: map_of_filter_unique [OF u])
      with spec [OF hs(2), of k] Some row [of k] h plannedHoldingRow_same [OF h(2-4)] show ?thesis by simp
    qed
  qed
  with hs(1) show ?thesis by blast
qed

lemma plannedOrder_id: "plannedOrder inp o' = Some p \<Longrightarrow> pq_id p = ro_id o'"
  by (auto simp: plannedOrder_def Let_def split: if_splits)

lemma planned_ids: "set (map pq_id (List.map_filter (plannedOrder inp) (map recoveryOrder rows))) \<subseteq> fst ` set rows"
  by (induction rows) (auto simp: map_filter_simps dest: plannedOrder_id split: option.splits)

lemma planned_distinct:
  "uniqueKeys rows \<Longrightarrow> distinct (map pq_id (List.map_filter (plannedOrder inp) (map recoveryOrder rows)))"
proof (induction rows)
  case (Cons x rows)
  obtain i o' where x: "x = (i, o')" by (cases x)
  from Cons.prems x have i: "i \<notin> fst ` set rows" and u: "uniqueKeys rows" by (simp_all add: uniqueKeys_def)
  have "i \<notin> set (map pq_id (List.map_filter (plannedOrder inp) (map recoveryOrder rows)))" using i planned_ids by blast
  then show ?case using Cons.IH [OF u] x by (auto simp: map_filter_simps dest: plannedOrder_id split: option.splits)
qed (simp add: map_filter_simps)

lemma planned_map:
  "uniqueKeys rows \<Longrightarrow> map_of (map (\<lambda>p. (pq_id p, p)) (List.map_filter (plannedOrder inp) (map recoveryOrder rows))) i =
    (case findRow rows i of None \<Rightarrow> None | Some o' \<Rightarrow> plannedOrder inp (recoveryOrder (i, o')))"
proof (induction rows)
  case (Cons x rows)
  obtain j o' where x: "x = (j, o')" by (cases x)
  from Cons.prems x have j: "j \<notin> fst ` set rows" and u: "uniqueKeys rows" by (simp_all add: uniqueKeys_def)
  then have "findRow rows j = None" by (simp add: findRow_def map_of_eq_None_iff)
  show ?case
  proof (cases "plannedOrder inp (recoveryOrder (j, o'))")
    case None
    then show ?thesis using Cons.IH [OF u] x \<open>findRow rows j = None\<close> by (auto simp: map_filter_simps findRow_Cons)
  next
    case (Some p)
    from plannedOrder_id [OF Some] have "pq_id p = j" by simp
    with Some show ?thesis using Cons.IH [OF u] x by (simp add: map_filter_simps findRow_Cons)
  qed
qed (simp add: map_filter_simps)

lemma statusOfText_simps: "statusOfText ''FILLED'' x = FILLED" "statusOfText ''PARTIAL'' x = PARTIAL"
  by (simp_all add: statusOfText_def statusText_def)

lemma plannedRow_advanced:
  assumes "recoverable d" "rp_issues (buildRecoveryPlan (loadRecoveryInput d)) = []" "findRow (db_orders d) i = Some o'"
  shows "(case plannedOrder (replayInput (loadRecoveryInput d)) (recoveryOrder (i, o')) of None \<Rightarrow> o' | Some p \<Rightarrow> plannedRow p o') =
    advanced o' (fills i (unsettledTrades d))"
proof -
  note f = order_facts [OF assms]
  have none: "orderIssues (replayInput (loadRecoveryInput d)) = []" by (rule clean_plan(2) [OF assms(2)])
  show ?thesis
  proof (cases "isActive (or_status o')")
    case False
    then show ?thesis using f(4) by (simp add: plannedOrder_def Let_def)
  next
    case True
    note a = f(5) [OF True]
    let ?n = "fills i (unsettledTrades d)"
    have n: "fills i (allTrades d) = or_filledQty o' + ?n" using f(2) by simp
    show ?thesis
    proof (cases "?n = 0")
      case True
      then show ?thesis using a n f(1) \<open>isActive (or_status o')\<close> none
        by (auto simp: plannedOrder_def Let_def statusText_def)
    next
      case False
      have "0 < or_filledQty o' + ?n"
      proof -
        have "0 \<le> ?n" using unsettled_settleable [OF assms(1,2) refl refl refl] unfolding settleable_def by (intro fills_nonneg) blast
        with False f(1) show ?thesis by simp
      qed
      then have "plannedOrder (replayInput (loadRecoveryInput d)) (recoveryOrder (i, o')) =
          Some \<lparr>pq_id = i, pq_filledQty = or_filledQty o' + ?n,
            pq_status = (if or_qty o' \<le> or_filledQty o' + ?n then ''FILLED'' else ''PARTIAL'')\<rparr>"
        using n False \<open>isActive (or_status o')\<close> none by (simp add: plannedOrder_def Let_def)
      then show ?thesis using False by (simp add: advanced_def plannedRow_def statusOfText_simps)
    qed
  qed
qed

lemma orders_agree:
  assumes r: "recoverable d" and clean: "rp_issues (buildRecoveryPlan (loadRecoveryInput d)) = []"
    and d': "db_orders d' = db_orders d" and m: "ordersMatch (db_orders d) (unsettledTrades d) os2"
  shows "\<exists>os. foldE applyOrderUpdate (List.map_filter (plannedOrder (replayInput (loadRecoveryInput d))) (in_orders (loadRecoveryInput d))) d' =
    Inr (d'\<lparr>db_orders := os\<rparr>) \<and> findRow os = findRow os2"
proof -
  let ?rows = "byId (db_orders d)" and ?inp = "replayInput (loadRecoveryInput d)"
  let ?xs = "List.map_filter (plannedOrder ?inp) (map recoveryOrder ?rows)"
  have u: "uniqueKeys ?rows" using r by (auto simp: recoverable_def uniqueKeys_def byId_def distinct_map)
  have find: "findRow ?rows = findRow (db_orders d)" using r by (intro findRow_byId) (simp add: recoverable_def)
  have ids: "\<forall>p \<in> set ?xs. findRow (db_orders d') (pq_id p) \<noteq> None"
  proof
    fix p assume "p \<in> set ?xs"
    then have "pq_id p \<in> fst ` set ?rows" using planned_ids by fastforce
    then have "findRow ?rows (pq_id p) \<noteq> None" by (simp add: findRow_def map_of_eq_None_iff)
    then show "findRow (db_orders d') (pq_id p) \<noteq> None" using find d' by simp
  qed
  from orders_run [OF planned_distinct [OF u, of ?inp] ids] obtain os where os: "foldE applyOrderUpdate ?xs d' = Inr (d'\<lparr>db_orders := os\<rparr>)"
    "\<forall>i. findRow os i = (case map_of (map (\<lambda>p. (pq_id p, p)) ?xs) i of None \<Rightarrow> findRow (db_orders d') i
       | Some p \<Rightarrow> map_option (plannedRow p) (findRow (db_orders d') i))" by blast
  have "findRow os i = findRow os2 i" for i
  proof (cases "findRow (db_orders d) i")
    case None
    then show ?thesis using spec [OF os(2), of i] m d' by (simp add: planned_map [OF u] find ordersMatch_def)
  next
    case (Some o')
    then show ?thesis using spec [OF os(2), of i] m d' plannedRow_advanced [OF r clean Some]
      by (auto simp: planned_map [OF u] find ordersMatch_def split: option.splits)
  qed
  with os(1) show ?thesis by auto
qed

section \<open>Recovery settles\<close>

text \<open>The same content, up to the order of rows, but for the last prices of the listed symbols.\<close>

definition sameTables :: "db \<Rightarrow> db \<Rightarrow> bool" where
  "sameTables a b \<longleftrightarrow> findRow (db_accounts a) = findRow (db_accounts b) \<and> findRow (db_holdings a) = findRow (db_holdings b) \<and>
     findRow (db_orders a) = findRow (db_orders b) \<and> findRow (db_pnl a) = findRow (db_pnl b) \<and>
     findRow (db_candles a) = findRow (db_candles b) \<and> db_ledger a = db_ledger b \<and> db_processed a = db_processed b \<and>
     otherTables (a\<lparr>db_symbols := []\<rparr>) = otherTables (b\<lparr>db_symbols := []\<rparr>)"

lemma repairCandles: "fold repairCandle bs d = d\<lparr>db_candles := fold (putCandle d) bs (db_candles d)\<rparr>"
proof (induction bs arbitrary: d)
  case (Cons b bs)
  have "putCandle (d\<lparr>db_candles := c\<rparr>) = putCandle d" for c by (intro ext putCandle_trades) simp
  then show ?case using Cons by (simp add: repairCandle_eq)
qed simp

lemma refreshLastPrices: "\<exists>x. fold refreshLastPrice ss d = d\<lparr>db_symbols := x\<rparr>"
proof (induction ss arbitrary: d)
  case Nil
  show ?case by (rule exI [of _ "db_symbols d"]) simp
next
  case (Cons s ss)
  have "\<exists>x. refreshLastPrice s d = d\<lparr>db_symbols := x\<rparr>"
  proof (cases "symbolTrades s d = []")
    case True
    then show ?thesis by (intro exI [of _ "db_symbols d"]) (simp add: refreshLastPrice_def)
  next
    case False
    then show ?thesis by (auto simp: refreshLastPrice_def Let_def)
  qed
  then obtain x where x: "refreshLastPrice s d = d\<lparr>db_symbols := x\<rparr>" by blast
  from Cons [of "d\<lparr>db_symbols := x\<rparr>"] obtain y where "fold refreshLastPrice ss (d\<lparr>db_symbols := x\<rparr>) = d\<lparr>db_symbols := y\<rparr>" by auto
  with x show ?case by auto
qed

lemma otherTables_symbols: "otherTables (d\<lparr>db_symbols := x\<rparr>) = (otherTables d)\<lparr>db_symbols := x\<rparr>"
  by (simp add: otherTables_def)

lemma prestate_keys:
  "ps_holdings (adjustAccount x st) = ps_holdings st"
  "findRow (ps_holdings (adjustHolding y st)) k = None \<longleftrightarrow> findRow (ps_holdings st) k = None"
  by (auto simp: adjustAccount_def adjustHolding_def rows.look_put split: prod.split option.split)

lemma prestate_spot:
  assumes "uniqueKeys (db_holdings d)" "spotOnly (db_holdings d)"
  shows "spotOnly (ps_holdings (buildReservationPrestate (loadRecoveryInput d)))"
proof -
  have a: "ps_holdings (fold adjustAccount xs st) = ps_holdings st" for xs st
    by (induction xs arbitrary: st) (simp_all add: prestate_keys)
  have h: "findRow (ps_holdings (fold adjustHolding xs st)) k = None \<longleftrightarrow> findRow (ps_holdings st) k = None" for xs st k
    by (induction xs arbitrary: st) (simp_all add: prestate_keys)
  have "findRow (ps_holdings (buildReservationPrestate (loadRecoveryInput d))) k = None \<longleftrightarrow> findRow (db_holdings d) k = None" for k
    by (simp add: buildReservationPrestate_def Let_def a h loaded_holdings [OF assms(1)])
  with assms(2) show ?thesis unfolding spotOnly_def by (metis not_None_eq)
qed

lemma start_simulates:
  assumes "restored d st as hs" "dbOk d"
  shows "simulates [] (d\<lparr>db_accounts := as, db_holdings := hs\<rparr>)
    \<lparr>sp_issues = [], sp_accounts = ps_accounts st, sp_holdings = ps_holdings st, sp_ledger = [], sp_pnl = [], sp_settled = [], sp_buckets = []\<rparr>
    (d\<lparr>db_accounts := as, db_holdings := hs\<rparr>)"
proof -
  have "dbOk (d\<lparr>db_accounts := as, db_holdings := hs\<rparr>)"
    using assms by (intro dbOk_update [OF assms(2)]) (auto simp: restored_def)
  moreover have "accountsMatch as (ps_accounts st) as"
    using assms(1) by (auto simp: restored_def accountsMatch_def accountsAligned_def carried_same split: option.split)
  moreover have "holdingsMatch (ps_holdings st) hs"
    unfolding holdingsMatch_def
  proof
    fix k
    have "findRow (ps_holdings st) k = map_option recoveryHolding (findRow hs k)"
      using assms(1) unfolding restored_def holdingsAligned_def by blast
    moreover have "plannedHoldingRow (recoveryHolding h) = h" for h
      by (rule plannedHoldingRow_same) (simp_all add: recoveryHolding_def)
    ultimately show "findRow hs k = map_option plannedHoldingRow (findRow (ps_holdings st) k)"
      by (cases "findRow hs k") simp_all
  qed
  ultimately show ?thesis
    by (simp add: simulates_def ordersMatch_def pnlMatch_def option.map_ident)
qed

lemma plan_fields:
  "rp_preAccounts (buildRecoveryPlan inp) = ps_accountAdjustments (buildReservationPrestate inp)"
  "rp_preHoldings (buildRecoveryPlan inp) = ps_holdingAdjustments (buildReservationPrestate inp)"
  "rp_processedEventIds (buildRecoveryPlan inp) = sp_settled (replayAll (replayInput inp))"
  "rp_ledger (buildRecoveryPlan inp) = sp_ledger (replayAll (replayInput inp))"
  "rp_pnl (buildRecoveryPlan inp) = sp_pnl (replayAll (replayInput inp))"
  "rp_accounts (buildRecoveryPlan inp) = filter (changedAccount (ps_accounts (buildReservationPrestate inp))) (sp_accounts (replayAll (replayInput inp)))"
  "rp_holdings (buildRecoveryPlan inp) = filter (changedHolding (ps_holdings (buildReservationPrestate inp))) (sp_holdings (replayAll (replayInput inp)))"
  "rp_orders (buildRecoveryPlan inp) = List.map_filter (plannedOrder (replayInput inp)) (in_orders inp)"
  "rp_buckets (buildRecoveryPlan inp) = sp_buckets (replayAll (replayInput inp))"
  by (simp_all add: buildRecoveryPlan_def Let_def)

lemma pnlMatch_unique: "pnlMatch p0 xs a \<Longrightarrow> pnlMatch p0 xs b \<Longrightarrow> findRow a = findRow b"
  by (auto simp: pnlMatch_def fun_eq_iff)

text \<open>What is written after the reservations is what the worker wrote from there.\<close>

lemma writeSettlement_run:
  fixes d inp st
  defines "inp \<equiv> loadRecoveryInput d" and "st \<equiv> replayAll (replayInput (loadRecoveryInput d))"
  assumes r: "recoverable d" and clean: "rp_issues (buildRecoveryPlan inp) = []"
    and al: "accountsAligned (ps_accounts (buildReservationPrestate inp)) (db_accounts d1)"
      "holdingsAligned (ps_holdings (buildReservationPrestate inp)) (db_holdings d1)"
    and d1: "d1 = d\<lparr>db_accounts := as, db_holdings := hs\<rparr>"
    and sim: "simulates (unsettledTrades d) d1 st d2" and well: "wellKept (ps_holdings (buildReservationPrestate inp)) st"
  shows "\<exists>d'. writeSettlement (buildRecoveryPlan inp) d1 = Inr d' \<and> findRow (db_accounts d') = findRow (db_accounts d2) \<and>
    findRow (db_holdings d') = findRow (db_holdings d2) \<and> findRow (db_orders d') = findRow (db_orders d2) \<and>
    findRow (db_pnl d') = findRow (db_pnl d2) \<and> db_ledger d' = db_ledger d2 \<and> db_processed d' = db_processed d2 \<and>
    db_candles d' = db_candles d1 \<and> otherTables d' = otherTables d1"
proof -
  let ?ids = "map rt_id (unsettledTrades d)"
  have sets: "sp_settled st = ?ids" "map fst (sp_pnl st) = ?ids" using sim by (simp_all add: simulates_def)
  have s: "settleable d1 (unsettledTrades d)" using clean d1 by (intro unsettled_settleable [OF r]) (simp_all add: inp_def)
  have dist: "distinct ?ids" using s by (simp add: settleable_def)
  have "set ?ids \<inter> set (db_processed d1) = {}" using s by (auto simp: settleable_def)
  from processed_run [OF dist this] have p: "foldE createProcessed (sp_settled st) d1 = Inr (d1\<lparr>db_processed := db_processed d1 @ ?ids\<rparr>)"
    using sets by simp
  let ?da = "d1\<lparr>db_processed := db_processed d1 @ ?ids, db_ledger := db_ledger d1 @ sp_ledger st\<rparr>"
  have l: "fold createLedger (sp_ledger st) (d1\<lparr>db_processed := db_processed d1 @ ?ids\<rparr>) = ?da" by (simp add: ledger_run)
  have "findRow (db_pnl ?da) i = None" if "i \<in> fst ` set (sp_pnl st)" for i
  proof -
    have "i \<in> set (map fst (sp_pnl st))" using that by simp
    then have "i \<in> rt_id ` set (unsettledTrades d)" using sets(2) by simp
    then show ?thesis using s by (auto simp: settleable_def)
  qed
  then obtain pn where pn: "foldE (\<lambda>(i, p). createPnl i p) (sp_pnl st) ?da = Inr (?da\<lparr>db_pnl := pn\<rparr>)" "pnlMatch (db_pnl d1) (sp_pnl st) pn"
    using pnl_run [of "sp_pnl st" ?da] dist sets by auto
  let ?db = "?da\<lparr>db_pnl := pn\<rparr>"
  have ok: "accountsOk (db_accounts d2)" "holdingsOk (db_holdings d2)" using dbOk_parts sim by (simp_all add: simulates_def)
  have am: "accountsMatch (db_accounts ?db) (sp_accounts st) (db_accounts d2)" using sim by (simp add: simulates_def)
  have al1: "accountsAligned (ps_accounts (buildReservationPrestate inp)) (db_accounts ?db)" using al(1) by simp
  from accounts_agree [OF am ok(1) well al1] obtain as3 where as3: "foldE applyAccount (filter (changedAccount (ps_accounts (buildReservationPrestate inp))) (sp_accounts st)) ?db =
    Inr (?db\<lparr>db_accounts := as3\<rparr>)" "findRow as3 = findRow (db_accounts d2)" by blast
  let ?dc = "?db\<lparr>db_accounts := as3\<rparr>"
  have hm: "holdingsMatch (sp_holdings st) (db_holdings d2)" using sim by (simp add: simulates_def)
  have al2: "holdingsAligned (ps_holdings (buildReservationPrestate inp)) (db_holdings ?dc)" using al(2) by simp
  from holdings_agree [OF hm ok(2) well al2] obtain hs3 where hs3: "foldE applyHolding (filter (changedHolding (ps_holdings (buildReservationPrestate inp))) (sp_holdings st)) ?dc =
    Inr (?dc\<lparr>db_holdings := hs3\<rparr>)" "findRow hs3 = findRow (db_holdings d2)" by blast
  let ?dd = "?dc\<lparr>db_holdings := hs3\<rparr>"
  have om: "ordersMatch (db_orders d) (unsettledTrades d) (db_orders d2)" and do: "db_orders ?dd = db_orders d"
    using sim d1 by (simp_all add: simulates_def)
  from orders_agree [OF r clean [unfolded inp_def] do om] obtain os3 where os3:
    "foldE applyOrderUpdate (List.map_filter (plannedOrder (replayInput inp)) (in_orders inp)) ?dd = Inr (?dd\<lparr>db_orders := os3\<rparr>)"
    "findRow os3 = findRow (db_orders d2)" unfolding inp_def by blast
  have w: "writeSettlement (buildRecoveryPlan inp) d1 = Inr (?dd\<lparr>db_orders := os3\<rparr>)"
    unfolding writeSettlement_def plan_fields st_def [folded inp_def, symmetric] p l pn(1) as3(1) hs3(1) os3(1) bindE_Inr ..
  have "pnlMatch (db_pnl d1) (sp_pnl st) (db_pnl d2)" using sim by (simp add: simulates_def)
  then have "findRow pn = findRow (db_pnl d2)" by (rule pnlMatch_unique [OF pn(2)])
  with w as3(2) hs3(2) os3(2) sim sets show ?thesis by (intro exI [of _ "?dd\<lparr>db_orders := os3\<rparr>"]) (simp add: simulates_def)
qed

text \<open>
  C30. A recovery plan without issues is what the settlement worker would have done. The reservations are
  first set to what the orders call for; from there the worker settles every unsettled trade, in the order
  of their times, without an error; and the plan writes, also without an error, the same accounts (cash,
  holds and versions), holdings, orders, ledger, realised profits, processed events and candles as the
  worker does, and touches no other table but the last prices of symbols.
\<close>

theorem recovery_settles:
  assumes "recoverable d" and "rp_issues (buildRecoveryPlan (loadRecoveryInput d)) = []"
  shows "\<exists>d1 d2 d3. restoreReservations (buildRecoveryPlan (loadRecoveryInput d)) d = Inr d1 \<and>
    foldE (\<lambda>t. settleTrade (replayEvent taker t)) (unsettledTrades d) d1 = Inr d2 \<and>
    applyPlan (buildRecoveryPlan (loadRecoveryInput d)) d = Inr d3 \<and> sameTables d3 d2"
proof -
  let ?inp = "loadRecoveryInput d" and ?pre = "buildReservationPrestate (loadRecoveryInput d)"
  let ?in = "replayInput ?inp"
  let ?st = "replayAll ?in"
  from assms(1) have u: "uniqueKeys (db_accounts d)" "uniqueKeys (db_holdings d)" "dbOk d" "spotOnly (db_holdings d)"
    by (simp_all add: recoverable_def)
  from prestate_restores [OF u(1-3)] obtain as hs where res: "restored d ?pre as hs" by blast
  let ?d1 = "d\<lparr>db_accounts := as, db_holdings := hs\<rparr>"
  have r1: "restoreReservations (buildRecoveryPlan ?inp) d = Inr ?d1"
    using res by (simp add: restoreReservations_def plan_fields restored_def)
  have start: "simulates [] ?d1 (startState ?in) ?d1" using start_simulates [OF res u(3)] by simp
  have issues: "sp_issues (fold (replayTrade ?in []) (unsettledTrades d) (startState ?in)) = sp_issues (startState ?in)"
    using clean_plan(3) [OF assms(2)] by (simp add: replayAll_clean [OF assms(2)])
  have read: "ordersRead ?in ?d1" using assms(1) by (intro ordersRead_loaded [of d]) (auto simp: recoverable_def)
  have spot: "spotOnly (sp_holdings (startState ?in))" using prestate_spot [OF u(2,4)] by simp
  have s: "settleable ?d1 ([] @ unsettledTrades d)" using unsettled_settleable [OF assms, of ?d1] by simp
  from replay_run [OF issues start read spot s, of taker] obtain d2 where
    d2: "foldE (\<lambda>t. settleTrade (replayEvent taker t)) (unsettledTrades d) ?d1 = Inr d2" "simulates (unsettledTrades d) ?d1 ?st d2"
    by (auto simp: replayAll_clean [OF assms(2)])
  have "wellKept (ps_holdings ?pre) (startState ?in)"
    using res by (auto simp: wellKept_def restored_def accountsAligned_def holdingsAligned_def recoveryAccount_def recoveryHolding_def)
  from wellKept_run [OF issues this] have well: "wellKept (ps_holdings ?pre) ?st" by (simp add: replayAll_clean [OF assms(2)])
  have al: "accountsAligned (ps_accounts ?pre) (db_accounts ?d1)" "holdingsAligned (ps_holdings ?pre) (db_holdings ?d1)"
    using res by (simp_all add: restored_def)
  from writeSettlement_run [OF assms al refl d2(2) well] obtain d' where w: "writeSettlement (buildRecoveryPlan ?inp) ?d1 = Inr d'"
    and same: "findRow (db_accounts d') = findRow (db_accounts d2)" "findRow (db_holdings d') = findRow (db_holdings d2)"
      "findRow (db_orders d') = findRow (db_orders d2)" "findRow (db_pnl d') = findRow (db_pnl d2)" "db_ledger d' = db_ledger d2"
      "db_processed d' = db_processed d2" "db_candles d' = db_candles ?d1" "otherTables d' = otherTables ?d1" by blast
  obtain x where x: "applyPlan (buildRecoveryPlan ?inp) d =
      Inr (d'\<lparr>db_candles := fold (putCandle d') (sp_buckets ?st) (db_candles d'), db_symbols := x\<rparr>)"
    using refreshLastPrices [of "uniq (map fst (sp_buckets ?st))" "d'\<lparr>db_candles := fold (putCandle d') (sp_buckets ?st) (db_candles d')\<rparr>"]
    by (auto simp: applyPlan_def r1 w repairCandles plan_fields)
  have c: "putCandle d' = putCandle ?d1" using otherTables_eq(1) [OF same(8)] by (intro ext) (rule putCandle_trades)
  have other: "otherTables (d'\<lparr>db_symbols := []\<rparr>) = otherTables (d2\<lparr>db_symbols := []\<rparr>)"
    using same(8) d2(2) by (simp add: otherTables_symbols simulates_def)
  have "sameTables (d'\<lparr>db_candles := fold (putCandle d') (sp_buckets ?st) (db_candles d'), db_symbols := x\<rparr>) d2"
    using same other d2(2) c by (simp add: sameTables_def simulates_def otherTables_symbols)
  with r1 d2(1) x show ?thesis by blast
qed

text \<open>The worker never saw the trade of \<open>demoBank\<close>, and the hold of the buyer has gone astray.\<close>

definition demoLost :: db where
  "demoLost = demoBank\<lparr>
     db_accounts := [(''A'', \<lparr>ac_userId = ''ua'', ac_balance = 5000, ac_holdAmount = 900, ac_version = 1, ac_fencingToken = 0\<rparr>),
       (''B'', \<lparr>ac_userId = ''ub'', ac_balance = 200, ac_holdAmount = 0, ac_version = 1, ac_fencingToken = 0\<rparr>)],
     db_trades := [(''t1'', \<lparr>tr_symbol = ''KABU'', tr_price = 100, tr_qty = 4, tr_buyOrderId = ''o1'', tr_sellOrderId = ''o2'',
       tr_buyerAccountId = ''A'', tr_sellerAccountId = ''B'', tr_takerSide = BUY, tr_createdAt = 1700000000123\<rparr>)],
     db_symbols := [(''KABU'', \<lparr>sy_initialPrice = 100, sy_lastPrice = 90, sy_listedAt = None, sy_listedShares = 1000, sy_kind = STOCK\<rparr>)]\<rparr>"

lemma demoLost_clean: "rp_issues (buildRecoveryPlan (loadRecoveryInput demoLost)) = []"
  by code_simp

lemma demoLost_settled: "settledTrades demoLost = []"
  by code_simp

lemma demoLost_spot: "futureDef ''KABU'' = None" "optionDef ''KABU'' = None"
  by code_simp+

lemma demoLost_recoverable: "recoverable demoLost"
  unfolding recoverable_def dbOk_def spotOnly_def orderConsistent_def demoLost_settled
  by (auto simp: demoLost_def demoBank_def uniqueKeys_def findRow_Cons accountCheck_def holdingCheck_def demoOrderRow_def
      isActive_def demoLost_spot split: if_splits)

theorem recovery_settles_witness:
  "\<exists>d1 d2 d3. restoreReservations (buildRecoveryPlan (loadRecoveryInput demoLost)) demoLost = Inr d1 \<and>
    foldE (\<lambda>t. settleTrade (replayEvent (\<lambda>i. SELL) t)) (unsettledTrades demoLost) d1 = Inr d2 \<and>
    applyPlan (buildRecoveryPlan (loadRecoveryInput demoLost)) demoLost = Inr d3 \<and> sameTables d3 d2"
  by (rule recovery_settles [OF demoLost_recoverable demoLost_clean])

end
