(* ===== verification/Liquidity_Ladder.thy ===== *)
theory Liquidity_Ladder
  imports Database
begin

text \<open>
  \<open>apps/bots/src/liquidity.ts\<close>: the ladder of quotes a market maker keeps around a center price, and
  the ladder that makes room for orders it cannot cancel. A \<open>number\<close> that leaves the integers is
  rounded as in \<open>Js_Number\<close>. The loop that hands out what rounding left is a partial function: it need
  not return (\<open>None\<close>).
\<close>

section \<open>Constants\<close>

definition LIQUIDITY_DISTANCE_TICKS :: "int list" where
  "LIQUIDITY_DISTANCE_TICKS = [1, 2, 3, 4, 5, 6, 7, 8, 9, 10, 11, 12]"

definition LIQUIDITY_LEVEL_WEIGHTS :: "int list" where
  "LIQUIDITY_LEVEL_WEIGHTS = [100, 120, 140, 155, 150, 135, 115, 95, 80, 65, 55, 45]"

definition LIQUIDITY_MIN_BEST_QTY :: int where "LIQUIDITY_MIN_BEST_QTY = 80"

definition LIQUIDITY_BEST_REFILL_LOW_WATER_RATIO :: rat where
  "LIQUIDITY_BEST_REFILL_LOW_WATER_RATIO = fl (9 / 10)"

definition SAKU_MIN_BEST_QTY :: int where "SAKU_MIN_BEST_QTY = 20"

definition HIGH_PRICE_LISTING_MIN :: int where "HIGH_PRICE_LISTING_MIN = 200000"

definition isHighPriceListing :: "symbol_def \<Rightarrow> bool" where
  "isHighPriceListing def \<longleftrightarrow> sd_initialPrice def \<ge> HIGH_PRICE_LISTING_MIN"

definition SAKU_BEST_REFILL_LOW_WATER_RATIO :: rat where
  "SAKU_BEST_REFILL_LOW_WATER_RATIO = fl (9 / 10)"

definition LIQUIDITY_WEIGHT_TOTAL :: int where
  "LIQUIDITY_WEIGHT_TOTAL = sum_list LIQUIDITY_LEVEL_WEIGHTS"

definition VISIBLE_LIQUIDITY_LEVELS :: nat where "VISIBLE_LIQUIDITY_LEVELS = 10"

definition GUARD_AWARE_VISIBLE_TARGET_CAP_MULTIPLIER :: int where
  "GUARD_AWARE_VISIBLE_TARGET_CAP_MULTIPLIER = 2"

definition MAX_RECENTER_TICKS :: int where "MAX_RECENTER_TICKS = 1"

record liquidity_quote =
  lq_side :: order_side
  lq_level :: int
  lq_price :: int
  lq_qty :: int
  lq_refillLowWaterRatio :: "rat option"

text \<open>A row that stays in the book while fresh depth is added (\<open>PreservedLiquidityQuote\<close>).\<close>

record preserved_quote =
  pq_side :: order_side
  pq_price :: int
  pq_qty :: int

section \<open>Quantities per level\<close>

definition liquidityTotalQty :: "int \<Rightarrow> int" where
  "liquidityTotalQty centerPrice = liquidityTotalQtyForPrice (Some (of_int centerPrice))"

text \<open>The indices by falling fraction; \<open>sort_key\<close> keeps equal fractions in index order.\<close>

definition fractionalOrder :: "rat list \<Rightarrow> nat list" where
  "fractionalOrder raw =
     map fst (sort_key (\<lambda>(i, fraction). - fraction) (zip [0..<length raw] (map (\<lambda>v. jsSub v (of_int \<lfloor>v\<rfloor>)) raw)))"

text \<open>The level that gives a share to the best one: the farthest with a share to spare, or the fullest.\<close>

definition farthestDonor :: "int list \<Rightarrow> nat option" where
  "farthestDonor q = find (\<lambda>i. q ! i > 1) (rev [1..<length q])"

definition fullestDonor :: "int list \<Rightarrow> nat" where
  "fullestDonor q = fold (\<lambda>i donor. if q ! i > q ! donor then i else donor) [2..<length q] 1"

fun fillBest :: "bool \<Rightarrow> nat \<Rightarrow> int list \<Rightarrow> int list" where
  "fillBest preserveNearDepth 0 q = q"
| "fillBest preserveNearDepth (Suc shortfall) q =
     (case (if preserveNearDepth then farthestDonor q else Some (fullestDonor q)) of
        None \<Rightarrow> q
      | Some donor \<Rightarrow>
          if q ! donor \<le> 1 then q
          else fillBest preserveNearDepth shortfall (q[donor := q ! donor - 1, 0 := q ! 0 + 1]))"

definition rawShares :: "int \<Rightarrow> rat list" where
  "rawShares totalQty =
     map (\<lambda>weight. jsMul (jsDiv (of_int weight) (of_int LIQUIDITY_WEIGHT_TOTAL)) (of_int totalQty)) LIQUIDITY_LEVEL_WEIGHTS"

definition roundedShares :: "int \<Rightarrow> int list" where
  "roundedShares totalQty =
     (let raw = rawShares totalQty; quantities = map floor raw; remainder = totalQty - sum_list quantities
      in fold (\<lambda>i q. q[i := q ! i + 1]) (take (nat remainder) (fractionalOrder raw)) quantities)"

definition liquidityQtyByLevelForProfile :: "int \<Rightarrow> int \<Rightarrow> bool \<Rightarrow> int list" where
  "liquidityQtyByLevelForProfile totalQty minimumBestQty preserveNearDepth =
     (let quantities = roundedShares totalQty;
          bestFloor = min minimumBestQty (totalQty - (int (length LIQUIDITY_DISTANCE_TICKS) - 1))
      in fillBest preserveNearDepth (nat (max 0 (bestFloor - quantities ! 0))) quantities)"

definition liquidityQtyByLevel :: "int \<Rightarrow> int list" where
  "liquidityQtyByLevel centerPrice =
     liquidityQtyByLevelForProfile (liquidityTotalQty centerPrice) LIQUIDITY_MIN_BEST_QTY False"

definition liquidityMinimumBestQty :: "symbol_def \<Rightarrow> int" where
  "liquidityMinimumBestQty def = (if isHighPriceListing def then SAKU_MIN_BEST_QTY else LIQUIDITY_MIN_BEST_QTY)"

definition liquidityQtyByLevelForSymbol :: "symbol_def \<Rightarrow> int \<Rightarrow> int list" where
  "liquidityQtyByLevelForSymbol def centerPrice =
     (let highPrice = isHighPriceListing def
      in liquidityQtyByLevelForProfile (liquidityTotalQty centerPrice)
           (if highPrice then SAKU_MIN_BEST_QTY else LIQUIDITY_MIN_BEST_QTY) highPrice)"

section \<open>The center\<close>

definition alignToTick :: "rat \<Rightarrow> int \<Rightarrow> error + int" where
  "alignToTick price tickSize =
     (if tickSize \<le> 0 then Inl (Thrown ''price and tickSize must be positive finite values'')
      else Inr (max tickSize (mathRound (jsDiv price (of_int tickSize)) * tickSize)))"

definition liquidityBestWallQty :: "symbol_def \<Rightarrow> rat \<Rightarrow> error + int" where
  "liquidityBestWallQty def centerPrice =
     bindE (alignToTick centerPrice (sd_tickSize def)) (\<lambda>c. Inr (liquidityQtyByLevelForSymbol def c ! 0))"

definition moveQuoteCenter :: "rat \<Rightarrow> rat \<Rightarrow> int \<Rightarrow> int \<Rightarrow> error + int" where
  "moveQuoteCenter currentCenter targetCenter tickSize maxStepTicks =
     bindE (alignToTick currentCenter tickSize) (\<lambda>current.
     bindE (alignToTick targetCenter tickSize) (\<lambda>target.
     let maxStep = tickSize * max 1 maxStepTicks; delta = target - current
     in Inr (if \<bar>delta\<bar> \<le> maxStep then target else current + sgn delta * maxStep)))"

section \<open>The symmetric ladder\<close>

definition liquidityQuote :: "symbol_def \<Rightarrow> order_side \<Rightarrow> nat \<Rightarrow> int \<Rightarrow> int \<Rightarrow> liquidity_quote" where
  "liquidityQuote def side level price qty =
     \<lparr>lq_side = side, lq_level = int level, lq_price = price, lq_qty = qty,
      lq_refillLowWaterRatio =
        (if level = 0 then Some (if isHighPriceListing def then SAKU_BEST_REFILL_LOW_WATER_RATIO
                                 else LIQUIDITY_BEST_REFILL_LOW_WATER_RATIO)
         else None)\<rparr>"

definition sidePrice :: "symbol_def \<Rightarrow> int \<Rightarrow> order_side \<Rightarrow> nat \<Rightarrow> int" where
  "sidePrice def center side level =
     (let offset = LIQUIDITY_DISTANCE_TICKS ! level * sd_tickSize def
      in case side of BUY \<Rightarrow> center - offset | SELL \<Rightarrow> center + offset)"

text \<open>The two quotes of a level; a bid below one tick is left out.\<close>

definition levelQuotes :: "symbol_def \<Rightarrow> int \<Rightarrow> int list \<Rightarrow> int list \<Rightarrow> nat \<Rightarrow> liquidity_quote list" where
  "levelQuotes def center bidQty askQty level =
     (let bid = sidePrice def center BUY level; ask = sidePrice def center SELL level
      in (if bid \<ge> sd_tickSize def then [liquidityQuote def BUY level bid (bidQty ! level)] else []) @
         [liquidityQuote def SELL level ask (askQty ! level)])"

definition ladderLevels :: "nat list" where
  "ladderLevels = [0..<length LIQUIDITY_DISTANCE_TICKS]"

definition buildBaseLiquidityLadder :: "symbol_def \<Rightarrow> rat \<Rightarrow> error + liquidity_quote list" where
  "buildBaseLiquidityLadder def centerPrice =
     bindE (alignToTick centerPrice (sd_tickSize def)) (\<lambda>center.
     let quantities = liquidityQtyByLevelForSymbol def center
     in Inr (concat (map (levelQuotes def center quantities quantities) ladderLevels)))"

section \<open>What is visible\<close>

text \<open>Best price first: the highest bid, the lowest ask.\<close>

definition priceKey :: "order_side \<Rightarrow> int \<Rightarrow> int" where
  "priceKey side price = (case side of BUY \<Rightarrow> - price | SELL \<Rightarrow> price)"

definition visibleSideQuotes :: "liquidity_quote list \<Rightarrow> order_side \<Rightarrow> liquidity_quote list" where
  "visibleSideQuotes quotes side =
     take VISIBLE_LIQUIDITY_LEVELS
       (sort_key (\<lambda>q. priceKey side (lq_price q)) (filter (\<lambda>q. lq_side q = side) quotes))"

definition visibleLadderNotional :: "liquidity_quote list \<Rightarrow> order_side \<Rightarrow> int" where
  "visibleLadderNotional quotes side =
     sum_list (map (\<lambda>q. lq_price q * lq_qty q) (visibleSideQuotes quotes side))"

definition usableGuards :: "preserved_quote list \<Rightarrow> preserved_quote list" where
  "usableGuards preserved =
     filter (\<lambda>q. \<bar>pq_price q\<bar> < 2 ^ 53 \<and> pq_price q > 0 \<and> \<bar>pq_qty q\<bar> < 2 ^ 53 \<and> pq_qty q > 0) preserved"

definition preservedVisibleSide :: "symbol_def \<Rightarrow> int \<Rightarrow> preserved_quote list \<Rightarrow> order_side \<Rightarrow> int" where
  "preservedVisibleSide def center guards side =
     (let own = filter (\<lambda>q. pq_side q = side) guards;
          fresh = filter (\<lambda>price. side = SELL \<or> price \<ge> sd_tickSize def)
                    (map (sidePrice def center side) [0..<VISIBLE_LIQUIDITY_LEVELS]);
          prices = uniq (fresh @ map pq_price own);
          visible = take VISIBLE_LIQUIDITY_LEVELS (sort_key (priceKey side) prices)
      in sum_list (map (\<lambda>price. price * sum_list (map pq_qty (filter (\<lambda>q. pq_price q = price) own))) visible))"

definition preservedVisibleNotional ::
  "symbol_def \<Rightarrow> rat \<Rightarrow> preserved_quote list \<Rightarrow> error + (order_side \<Rightarrow> int)" where
  "preservedVisibleNotional def centerPrice preserved =
     bindE (alignToTick centerPrice (sd_tickSize def)) (\<lambda>center.
     Inr (preservedVisibleSide def center (usableGuards preserved)))"

section \<open>The ladder around orders that stay\<close>

text \<open>
  Hands the rest of the budget out one share at a time, in fractional order, while the cheapest visible
  price still fits.
\<close>

partial_function (option) allocateRest :: "int list \<Rightarrow> nat list \<Rightarrow> int \<Rightarrow> int list \<Rightarrow> int list option" where
  "allocateRest prices order unallocated q =
     (if unallocated < Min (set prices) then Some q
      else case find (\<lambda>level. prices ! level \<le> unallocated) order of
        None \<Rightarrow> Some q
      | Some level \<Rightarrow> allocateRest prices order (unallocated - prices ! level) (q[level := q ! level + 1]))"

declare allocateRest.simps [code]

definition visiblePrices :: "symbol_def \<Rightarrow> int \<Rightarrow> order_side \<Rightarrow> int list" where
  "visiblePrices def center side = map (sidePrice def center side) [0..<VISIBLE_LIQUIDITY_LEVELS]"

definition floorQuantities :: "int \<Rightarrow> int list" where
  "floorQuantities minimumBestQty =
     map (\<lambda>level. if level < VISIBLE_LIQUIDITY_LEVELS then if level = 0 then minimumBestQty else 1 else 1) ladderLevels"

definition guardAwareSideQuantities ::
  "symbol_def \<Rightarrow> int \<Rightarrow> order_side \<Rightarrow> int \<Rightarrow> int \<Rightarrow> int list option" where
  "guardAwareSideQuantities def center side freshVisibleBudget minimumBestQty =
     (let prices = visiblePrices def center side;
          levels = [0..<VISIBLE_LIQUIDITY_LEVELS];
          counted = (\<lambda>level. max (sd_tickSize def) (prices ! level));
          minimumVisibleNotional =
            sum_list (map (\<lambda>level. counted level * (if level = 0 then minimumBestQty else 1)) levels);
          remainingBudget = max 0 (freshVisibleBudget - minimumVisibleNotional);
          weightedNotional = sum_list (map (\<lambda>level. counted level * LIQUIDITY_LEVEL_WEIGHTS ! level) levels);
          rawExtras = map (\<lambda>level. if weightedNotional > 0
            then jsDiv (of_int (LIQUIDITY_LEVEL_WEIGHTS ! level * remainingBudget)) (of_int weightedNotional) else 0) levels;
          quantities = fold (\<lambda>level q. q[level := q ! level + \<lfloor>rawExtras ! level\<rfloor>]) levels (floorQuantities minimumBestQty);
          unallocated = max 0 (freshVisibleBudget - sum_list (map (\<lambda>level. prices ! level * quantities ! level) levels))
      in allocateRest prices (fractionalOrder rawExtras) unallocated quantities)"

record guard_aware_ladder =
  gl_quotes :: "liquidity_quote list"
  gl_defaultVisibleTargetNotional :: int
  gl_uncappedTargetVisibleNotional :: int
  gl_targetVisibleNotional :: int
  gl_preservedVisibleNotional :: "order_side \<Rightarrow> int"
  gl_freshVisibleBudget :: "order_side \<Rightarrow> int"
  gl_freshVisibleNotional :: "order_side \<Rightarrow> int"

definition minimumBestQtyFor :: "symbol_def \<Rightarrow> int \<Rightarrow> preserved_quote list \<Rightarrow> order_side \<Rightarrow> int" where
  "minimumBestQtyFor def center guards side =
     (let bestPrice = sidePrice def center side 0;
          preservedAtBest = sum_list (map pq_qty (filter (\<lambda>q. pq_side q = side \<and> pq_price q = bestPrice) guards))
      in if preservedAtBest \<ge> liquidityMinimumBestQty def then 1 else liquidityMinimumBestQty def)"

definition buildGuardAwareLiquidityLadder ::
  "symbol_def \<Rightarrow> rat \<Rightarrow> preserved_quote list \<Rightarrow> error + guard_aware_ladder option" where
  "buildGuardAwareLiquidityLadder def centerPrice preserved =
     bindE (alignToTick centerPrice (sd_tickSize def)) (\<lambda>center.
     let guards = usableGuards preserved in
     bindE (buildBaseLiquidityLadder def (of_int center)) (\<lambda>defaultQuotes.
     bindE (preservedVisibleNotional def (of_int center) guards) (\<lambda>preservedVisible.
     let defaultVisible = max (visibleLadderNotional defaultQuotes BUY) (visibleLadderNotional defaultQuotes SELL);
         uncapped = max defaultVisible (max (preservedVisible BUY) (preservedVisible SELL));
         target = min uncapped (defaultVisible * GUARD_AWARE_VISIBLE_TARGET_CAP_MULTIPLIER);
         budget = (\<lambda>side. max 0 (target - preservedVisible side));
         quantities = (\<lambda>side. guardAwareSideQuantities def center side (budget side) (minimumBestQtyFor def center guards side))
     in Inr (case quantities BUY of None \<Rightarrow> None | Some bidQty \<Rightarrow>
         (case quantities SELL of None \<Rightarrow> None | Some askQty \<Rightarrow>
            let quotes = concat (map (levelQuotes def center bidQty askQty) ladderLevels)
            in Some \<lparr>gl_quotes = quotes, gl_defaultVisibleTargetNotional = defaultVisible,
                 gl_uncappedTargetVisibleNotional = uncapped, gl_targetVisibleNotional = target,
                 gl_preservedVisibleNotional = preservedVisible, gl_freshVisibleBudget = budget,
                 gl_freshVisibleNotional = visibleLadderNotional quotes\<rparr>)))))"

definition buildLiquidityLadder ::
  "symbol_def \<Rightarrow> rat \<Rightarrow> preserved_quote list \<Rightarrow> error + liquidity_quote list option" where
  "buildLiquidityLadder def centerPrice preserved =
     (let kept = filter (\<lambda>q. pq_qty q > 0) preserved
      in if kept = [] then bindE (buildBaseLiquidityLadder def centerPrice) (\<lambda>quotes. Inr (Some quotes))
         else bindE (buildGuardAwareLiquidityLadder def centerPrice kept) (\<lambda>l. Inr (map_option gl_quotes l)))"

section \<open>Quotes that can share the book\<close>

definition canAddWithoutSelfTrade :: "order_side \<times> int \<Rightarrow> (order_side \<times> int) list \<Rightarrow> bool" where
  "canAddWithoutSelfTrade candidate existing \<longleftrightarrow>
     list_all (\<lambda>(side, price). side = fst candidate \<or>
       (case fst candidate of BUY \<Rightarrow> snd candidate < price | SELL \<Rightarrow> snd candidate > price)) existing"

definition placeOf :: "'a liquidity_quote_scheme \<Rightarrow> order_side \<times> int" where
  "placeOf q = (lq_side q, lq_price q)"

definition canLaddersCoexist :: "liquidity_quote list \<Rightarrow> liquidity_quote list \<Rightarrow> bool" where
  "canLaddersCoexist current next' \<longleftrightarrow>
     list_all (\<lambda>q. canAddWithoutSelfTrade (placeOf q) (map placeOf current)) next'"

end
