(* ===== verification/Market_Maker.thy ===== *)
theory Market_Maker
  imports Api_Service Liquidity_Ladder
begin

text \<open>
  \<open>apps/bots/src/market-maker.ts\<close>: the bot that keeps a two-sided ladder of orders for one symbol. It
  places an order before it cancels the one it replaces, and remembers every order of its own that may
  still be live: \<open>active\<close> (by side and level), \<open>retiring\<close> (cancel sent), \<open>preserved\<close> (cannot be cancelled)
  and \<open>retirable\<close> (to be cancelled once the new ladder stands).

  What the bot talks to is the record \<open>client\<close>, over a world it can only observe: the REST calls of
  \<open>client.ts\<close>, the clock, pauses and the reference price. A call returns a value or an error, and the
  world moves with every call and every pause. A \<open>Map\<close> of the source is a list of pairs in insertion
  order, and the \<open>id\<close> of a guard is its key. Logging is left out.
\<close>

section \<open>The world of the bot\<close>

record live_order =
  lo_id :: string
  lo_side :: order_side
  lo_type :: order_type
  lo_price :: "int option"
  lo_qty :: int
  lo_filledQty :: int
  lo_status :: order_status

record depth_view =
  dv_bids :: "orderbook_level list"
  dv_asks :: "orderbook_level list"
  dv_lastPrice :: "int option"

text \<open>
  \<open>cl_arrival\<close> is the order in which requests sent side by side are answered; \<open>cl_sleep\<close> lets time pass.
\<close>

record 'w client =
  cl_placeOrder :: "string \<Rightarrow> order_side \<Rightarrow> int \<Rightarrow> int \<Rightarrow> 'w \<Rightarrow> (error + string) \<times> 'w"
  cl_cancelOrder :: "string \<Rightarrow> 'w \<Rightarrow> (error + unit) \<times> 'w"
  cl_myLiveOrders :: "string \<Rightarrow> 'w \<Rightarrow> (error + live_order list) \<times> 'w"
  cl_quoteState :: "string \<Rightarrow> 'w \<Rightarrow> (error + live_order list \<times> depth_view) \<times> 'w"
  cl_arrival :: "'w \<Rightarrow> liquidity_quote list \<Rightarrow> liquidity_quote list"
  cl_now :: "'w \<Rightarrow> int"
  cl_sleep :: "int \<Rightarrow> 'w \<Rightarrow> 'w"
  cl_modelPrice :: "string \<Rightarrow> 'w \<Rightarrow> rat"
  cl_hasActiveEvent :: "string \<Rightarrow> 'w \<Rightarrow> bool"

text \<open>\<open>isRejection\<close> of \<open>client.ts\<close>: the API answered 400, 404, 409 or 422.\<close>

definition isRejection :: "error \<Rightarrow> bool" where
  "isRejection e \<longleftrightarrow> (case e of BadRequest t \<Rightarrow> True | NotFoundError t \<Rightarrow> True | ConflictError t \<Rightarrow> True
     | Unprocessable t \<Rightarrow> True | _ \<Rightarrow> False)"

definition startupBlocked :: error where "startupBlocked = Thrown ''MarketMakerStartupBlockedError''"

definition makerStalled :: error where "makerStalled = Thrown ''MarketMakerStalledError''"

text \<open>Not an exception: the computation does not return, and nothing catches it.\<close>

definition neverReturns :: error where "neverReturns = Thrown ''does not return''"

section \<open>State\<close>

record managed_quote = liquidity_quote +
  mq_id :: string
  mq_needsNormalization :: bool

type_synonym quote_key = "order_side \<times> int"

record staged_migration =
  sm_targetCenter :: int
  sm_firstSide :: order_side

datatype migration_progress =
  STAGING_FIRST_SIDE | WAITING_FOR_FIRST_SIDE_RETIREMENT | STAGING_SECOND_SIDE | COMPLETE

record maker_options =
  mo_allowUnretirableReserveFallback :: bool
  mo_quoteReconcileMs :: int
  mo_oneSidedRestartMs :: int
  mo_ordinaryRecenterMs :: int

record 'w maker =
  mm_world :: 'w
  mm_active :: "(quote_key, managed_quote) rows"
  mm_retiring :: "(string, managed_quote) rows"
  mm_preserved :: "(string, preserved_quote) rows"
  mm_budgeted :: "(string, preserved_quote) rows"
  mm_retirable :: "(string, preserved_quote) rows"
  mm_cancelAttempts :: "(string, int) rows"
  mm_emptySince :: "(order_side, int) rows"
  mm_initialized :: bool
  mm_quoteCenter :: int
  mm_lastReconcileAt :: int
  mm_lastPreservedDepthRefreshAt :: int
  mm_lastOrdinaryCenterMoveAt :: int
  mm_observedMarketLastPrice :: "int option"
  mm_staged :: "staged_migration option"
  mm_stagedStartedAt :: int

definition PRESERVED_DEPTH_REFRESH_MS :: int where "PRESERVED_DEPTH_REFRESH_MS = 500"
definition STARTUP_CANCEL_TIMEOUT_MS :: int where "STARTUP_CANCEL_TIMEOUT_MS = 5000"
definition RETIRING_CANCEL_RETRY_MS :: int where "RETIRING_CANCEL_RETRY_MS = 2000"
definition MIN_ADOPTABLE_LEVELS_PER_SIDE :: nat where "MIN_ADOPTABLE_LEVELS_PER_SIDE = 8"
definition REFILL_LOW_WATER_RATIO :: rat where "REFILL_LOW_WATER_RATIO = fl (45 / 100)"
definition FAST_REPRICE_MIN_TICKS :: int where "FAST_REPRICE_MIN_TICKS = 6"
definition REUSED_QUOTE_MAX_EXCESS_RATIO :: rat where "REUSED_QUOTE_MAX_EXCESS_RATIO = 5 / 4"
definition MAX_SAFE_INTEGER :: int where "MAX_SAFE_INTEGER = 2 ^ 53 - 1"

definition isSafePositive :: "int \<Rightarrow> bool" where
  "isSafePositive n \<longleftrightarrow> 0 < n \<and> n \<le> MAX_SAFE_INTEGER"

section \<open>Watching for an empty side\<close>

definition noteSide :: "order_side set \<Rightarrow> int \<Rightarrow> order_side \<Rightarrow> (order_side, int) rows \<Rightarrow> (order_side, int) rows" where
  "noteSide present now side since =
     (if side \<in> present then dropRow side since
      else if findRow since side = None then putRow side now since else since)"

definition observeSides ::
  "int \<Rightarrow> live_order list \<Rightarrow> int \<Rightarrow> (order_side, int) rows \<Rightarrow> order_side option \<times> (order_side, int) rows" where
  "observeSides limitMs orders now since =
     (let since' = fold (noteSide (lo_side ` set orders) now) [BUY, SELL] since
      in (find (\<lambda>side. case findRow since' side of None \<Rightarrow> False | Some t \<Rightarrow> now - t \<ge> limitMs) [BUY, SELL], since'))"

section \<open>Quotes\<close>

definition quoteKey :: "'a liquidity_quote_scheme \<Rightarrow> quote_key" where
  "quoteKey q = (lq_side q, lq_level q)"

definition guardPlace :: "preserved_quote \<Rightarrow> order_side \<times> int" where
  "guardPlace g = (pq_side g, pq_price g)"

definition guardOf :: "'a liquidity_quote_scheme \<Rightarrow> preserved_quote" where
  "guardOf q = \<lparr>pq_side = lq_side q, pq_price = lq_price q, pq_qty = lq_qty q\<rparr>"

definition managed :: "liquidity_quote \<Rightarrow> string \<Rightarrow> bool \<Rightarrow> managed_quote" where
  "managed q i needs =
     \<lparr>lq_side = lq_side q, lq_level = lq_level q, lq_price = lq_price q, lq_qty = lq_qty q,
      lq_refillLowWaterRatio = lq_refillLowWaterRatio q, mq_id = i, mq_needsNormalization = needs\<rparr>"

definition planFor :: "symbol_def \<Rightarrow> int \<Rightarrow> preserved_quote list \<Rightarrow> error + liquidity_quote list" where
  "planFor def center preserved =
     bindE (buildLiquidityLadder def (of_int center) preserved) (\<lambda>r. someE r neverReturns)"

definition buildMarketMakerPlan ::
  "symbol_def \<Rightarrow> int \<Rightarrow> (string, preserved_quote) rows \<Rightarrow> error + liquidity_quote list" where
  "buildMarketMakerPlan def center budgeted = planFor def center (map snd budgeted)"

definition qtyAt :: "(quote_key, int) rows \<Rightarrow> quote_key \<Rightarrow> int" where
  "qtyAt available key = (case findRow available key of None \<Rightarrow> 0 | Some n \<Rightarrow> n)"

definition addSnapshotLevel :: "order_side \<Rightarrow> orderbook_level \<Rightarrow> (quote_key, int) rows \<Rightarrow> (quote_key, int) rows" where
  "addSnapshotLevel side level available =
     (if \<not> isSafePositive (lv_price level) \<or> \<not> isSafePositive (lv_qty level) then available
      else putRow (side, lv_price level) (qtyAt available (side, lv_price level) + lv_qty level) available)"

definition subtractOwn :: "preserved_quote \<Rightarrow> (quote_key, int) rows \<Rightarrow> (quote_key, int) rows" where
  "subtractOwn q available =
     (if \<not> isSafePositive (pq_price q) \<or> \<not> isSafePositive (pq_qty q) then available
      else putRow (guardPlace q) (max 0 (qtyAt available (guardPlace q) - pq_qty q)) available)"

definition budgetGuard ::
  "string \<times> preserved_quote \<Rightarrow> (quote_key, int) rows \<times> (string, preserved_quote) rows
     \<Rightarrow> (quote_key, int) rows \<times> (string, preserved_quote) rows" where
  "budgetGuard row acc = (case (row, acc) of ((i, g), (available, budgeted)) \<Rightarrow>
     if \<not> isSafePositive (pq_price g) \<or> \<not> isSafePositive (pq_qty g) then (available, budgeted)
     else let visibleQty = min (pq_qty g) (qtyAt available (guardPlace g))
       in if visibleQty \<le> 0 then (available, budgeted)
          else (putRow (guardPlace g) (qtyAt available (guardPlace g) - visibleQty) available,
                putRow i (g\<lparr>pq_qty := visibleQty\<rparr>) budgeted))"

definition budgetPreservedGuardsFromSnapshot ::
  "(string, preserved_quote) rows \<Rightarrow> depth_view option \<Rightarrow> preserved_quote list \<Rightarrow> (string, preserved_quote) rows" where
  "budgetPreservedGuardsFromSnapshot preserved view ownQuotes =
     (case view of None \<Rightarrow> []
      | Some v \<Rightarrow>
          let available = fold subtractOwn ownQuotes
                (fold (addSnapshotLevel SELL) (dv_asks v) (fold (addSnapshotLevel BUY) (dv_bids v) []))
          in snd (fold budgetGuard preserved (available, [])))"

definition clampBudgeted ::
  "(string, preserved_quote) rows \<Rightarrow> (string, preserved_quote) rows \<Rightarrow> (string, preserved_quote) rows" where
  "clampBudgeted preserved budgeted =
     List.map_filter (\<lambda>(i, q). case findRow preserved i of
         None \<Rightarrow> None
       | Some raw \<Rightarrow>
           if pq_qty raw \<le> 0 then None
           else if pq_qty q > pq_qty raw \<or> pq_side q \<noteq> pq_side raw \<or> pq_price q \<noteq> pq_price raw
                then Some (i, raw\<lparr>pq_qty := min (pq_qty raw) (pq_qty q)\<rparr>)
           else Some (i, q)) budgeted"

text \<open>The quotes that count as the maker's own displayed depth.\<close>

definition ownBookQuotes :: "'w maker \<Rightarrow> preserved_quote list" where
  "ownBookQuotes s =
     map (guardOf \<circ> snd) (mm_active s) @ map (guardOf \<circ> snd) (mm_retiring s) @ map snd (mm_retirable s)"

definition refreshBudgetedPreservedGuards :: "depth_view option \<Rightarrow> 'w maker \<Rightarrow> 'w maker" where
  "refreshBudgetedPreservedGuards view s =
     s\<lparr>mm_budgeted := (if mm_preserved s = [] then []
         else budgetPreservedGuardsFromSnapshot (mm_preserved s) view (ownBookQuotes s))\<rparr>"

text \<open>Sides and prices of every order the maker still has to reckon with.\<close>

definition trackedQuotes :: "(string, preserved_quote) rows \<Rightarrow> 'w maker \<Rightarrow> (order_side \<times> int) list" where
  "trackedQuotes retirable s =
     map (placeOf \<circ> snd) (mm_active s) @ map (placeOf \<circ> snd) (mm_retiring s) @
     map (guardPlace \<circ> snd) (mm_preserved s) @ map (guardPlace \<circ> snd) retirable"

definition isQuoteSufficient :: "managed_quote option \<Rightarrow> liquidity_quote \<Rightarrow> bool" where
  "isQuoteSufficient current desired \<longleftrightarrow>
     (case current of None \<Rightarrow> False
      | Some c \<Rightarrow>
          lq_price c = lq_price desired \<and> \<not> mq_needsNormalization c \<and>
          (let refillRatio = (case lq_refillLowWaterRatio desired of Some r \<Rightarrow> min 1 (max 0 r)
                              | None \<Rightarrow> REFILL_LOW_WATER_RATIO)
           in lq_qty c \<ge> max 1 \<lceil>jsMul (of_int (lq_qty desired)) refillRatio\<rceil>))"

section \<open>Keeping rows when the plan slides\<close>

definition groupQuote ::
  "managed_quote \<Rightarrow> (quote_key, managed_quote list) rows \<Rightarrow> (quote_key, managed_quote list) rows" where
  "groupQuote q groups = putRow (placeOf q) ((case findRow groups (placeOf q) of None \<Rightarrow> [] | Some l \<Rightarrow> l) @ [q]) groups"

definition reused :: "order_side set \<Rightarrow> liquidity_quote \<Rightarrow> managed_quote \<Rightarrow> managed_quote" where
  "reused strictSides desired current =
     current\<lparr>lq_level := lq_level desired,
       mq_needsNormalization :=
         (mq_needsNormalization current \<and> lq_qty current > lq_qty desired) \<or>
         lq_qty current > \<lfloor>jsMul (of_int (lq_qty desired))
           (if lq_side desired \<in> strictSides then 1 else REUSED_QUOTE_MAX_EXCESS_RATIO)\<rfloor>\<rparr>"

definition remapQuote ::
  "order_side set \<Rightarrow> liquidity_quote \<Rightarrow> (quote_key, managed_quote list) rows \<times> (quote_key, managed_quote) rows
     \<Rightarrow> (quote_key, managed_quote list) rows \<times> (quote_key, managed_quote) rows" where
  "remapQuote strictSides desired acc = (case acc of (groups, remapped) \<Rightarrow>
     (case findRow groups (placeOf desired) of
        Some (current # rest) \<Rightarrow>
          (putRow (placeOf desired) rest groups, putRow (quoteKey desired) (reused strictSides desired current) remapped)
      | _ \<Rightarrow> (groups, remapped)))"

text \<open>The new \<open>active\<close>, and the rows no price of the plan reuses.\<close>

definition remapActiveQuotesForPlan ::
  "(quote_key, managed_quote) rows \<Rightarrow> liquidity_quote list \<Rightarrow> order_side set
     \<Rightarrow> (quote_key, managed_quote) rows \<times> managed_quote list" where
  "remapActiveQuotesForPlan active plan strictSides =
     (let groups = fold groupQuote (map snd active) [];
          (groups', remapped) = fold (remapQuote strictSides) plan (groups, [])
      in (remapped, concat (map snd groups')))"

definition remapS :: "liquidity_quote list \<Rightarrow> order_side set \<Rightarrow> 'w maker \<Rightarrow> 'w maker" where
  "remapS plan strictSides s =
     (case remapActiveQuotesForPlan (mm_active s) plan strictSides of (active, superseded) \<Rightarrow>
        s\<lparr>mm_active := active,
          mm_retirable := fold (\<lambda>q. putRow (mq_id q) (guardOf q)) superseded (mm_retirable s)\<rparr>)"

fun canPlanCoexist :: "liquidity_quote list \<Rightarrow> (order_side \<times> int) list \<Rightarrow> bool" where
  "canPlanCoexist [] boundaries = True"
| "canPlanCoexist (q # plan) boundaries =
     (canAddWithoutSelfTrade (placeOf q) boundaries \<and> canPlanCoexist plan (boundaries @ [placeOf q]))"

section \<open>Inherited orders\<close>

definition remainingQty :: "live_order \<Rightarrow> int" where
  "remainingQty o' = max 0 (lo_qty o' - lo_filledQty o')"

definition liveGuard :: "live_order \<Rightarrow> preserved_quote" where
  "liveGuard o' = \<lparr>pq_side = lo_side o', pq_price = the (lo_price o'), pq_qty = remainingQty o'\<rparr>"

definition unretirableReserveGuards :: "live_order list \<Rightarrow> (string, preserved_quote) rows" where
  "unretirableReserveGuards live =
     fold (\<lambda>o'. putRow (lo_id o') (liveGuard o'))
       (filter (\<lambda>o'. lo_type o' = LIMIT \<and> (case lo_price o' of None \<Rightarrow> False | Some p \<Rightarrow> isSafePositive p) \<and>
          remainingQty o' \<noteq> 0) live) []"

definition retirableOpenReserveRows :: "live_order list \<Rightarrow> (string, preserved_quote) rows" where
  "retirableOpenReserveRows live =
     fold (\<lambda>o'. putRow (lo_id o') (liveGuard o'))
       (filter (\<lambda>o'. lo_type o' = LIMIT \<and> lo_price o' \<noteq> None \<and> lo_status o' = OPEN \<and> lo_filledQty o' = 0 \<and>
          remainingQty o' \<noteq> 0) live) []"

section \<open>Choosing the center\<close>

text \<open>The highest bid and the lowest ask among the guards bound the center.\<close>

fun centerBounds :: "symbol_def \<Rightarrow> (order_side \<times> int) list \<Rightarrow> int \<times> int \<Rightarrow> error + int \<times> int" where
  "centerBounds def [] bounds = Inr bounds"
| "centerBounds def ((side, price) # guards) (lo, hi) =
     bindE (alignToTick (of_int price) (sd_tickSize def)) (\<lambda>guardPrice.
     centerBounds def guards (case side of BUY \<Rightarrow> (max lo guardPrice, hi) | SELL \<Rightarrow> (lo, min hi guardPrice)))"

definition canUseCenter :: "symbol_def \<Rightarrow> (order_side \<times> int) list \<Rightarrow> int \<Rightarrow> error + bool" where
  "canUseCenter def guards center =
     bindE (planFor def center []) (\<lambda>plan. Inr (list_all (\<lambda>q. canAddWithoutSelfTrade (placeOf q) guards) plan))"

text \<open>The search outwards: \<open>left\<close> steps remain, \<open>step\<close> is the next one.\<close>

fun searchCenter ::
  "symbol_def \<Rightarrow> (order_side \<times> int) list \<Rightarrow> int \<Rightarrow> int \<Rightarrow> int \<Rightarrow> nat \<Rightarrow> int \<Rightarrow> error + int option" where
  "searchCenter def guards clamped lo hi 0 step = Inr None"
| "searchCenter def guards clamped lo hi (Suc left) step =
     (let up = clamped + step * sd_tickSize def; down = clamped - step * sd_tickSize def in
      bindE (if up \<le> hi \<and> \<bar>up\<bar> \<le> MAX_SAFE_INTEGER then canUseCenter def guards up else Inr False) (\<lambda>b.
      if b then Inr (Some up)
      else bindE (if down \<ge> lo \<and> \<bar>down\<bar> \<le> MAX_SAFE_INTEGER then canUseCenter def guards down else Inr False) (\<lambda>b.
      if b then Inr (Some down)
      else searchCenter def guards clamped lo hi left (step + 1))))"

definition guardedQuoteCenter :: "symbol_def \<Rightarrow> int \<Rightarrow> (order_side \<times> int) list \<Rightarrow> error + int option" where
  "guardedQuoteCenter def requestedCenter guards =
     bindE (centerBounds def guards (sd_tickSize def, MAX_SAFE_INTEGER)) (\<lambda>(lo, hi).
     if lo > hi then Inr None
     else bindE (alignToTick (of_int requestedCenter) (sd_tickSize def)) (\<lambda>requested.
     bindE (alignToTick (of_int (min (max requested lo) hi)) (sd_tickSize def)) (\<lambda>clamped.
     bindE (canUseCenter def guards clamped) (\<lambda>b.
     if b then Inr (Some clamped)
     else searchCenter def guards clamped lo hi (length guards * length LIQUIDITY_DISTANCE_TICKS + 1) 1))))"

definition moveGuardedQuoteCenter ::
  "symbol_def \<Rightarrow> int \<Rightarrow> int \<Rightarrow> (order_side \<times> int) list \<Rightarrow> error + int" where
  "moveGuardedQuoteCenter def currentCenter targetCenter guards =
     bindE (moveQuoteCenter (of_int currentCenter) (of_int targetCenter) (sd_tickSize def) MAX_RECENTER_TICKS) (\<lambda>next'.
     bindE (guardedQuoteCenter def next' guards) (\<lambda>c. Inr (if c = Some next' then next' else currentCenter)))"

definition quoteCenterFromMarketPrice :: "symbol_def \<Rightarrow> rat \<Rightarrow> int option \<Rightarrow> bool \<Rightarrow> error + int" where
  "quoteCenterFromMarketPrice def modelPrice marketLastPrice eventActive =
     bindE (alignToTick modelPrice (sd_tickSize def)) (\<lambda>modelCenter.
     case marketLastPrice of None \<Rightarrow> Inr modelCenter
     | Some last' \<Rightarrow>
         if eventActive \<or> \<not> isSafePositive last' then Inr modelCenter
         else bindE (alignToTick (of_int last') (sd_tickSize def)) (\<lambda>marketCenter.
           Inr (if \<bar>marketCenter - modelCenter\<bar> \<ge> FAST_REPRICE_MIN_TICKS * sd_tickSize def then marketCenter else modelCenter)))"

definition beginStagedQuoteMigration :: "symbol_def \<Rightarrow> int \<Rightarrow> int \<Rightarrow> error + staged_migration option" where
  "beginStagedQuoteMigration def currentCenter targetCenter =
     bindE (alignToTick (of_int currentCenter) (sd_tickSize def)) (\<lambda>current.
     bindE (alignToTick (of_int targetCenter) (sd_tickSize def)) (\<lambda>target.
     let delta = target - current
     in Inr (if \<bar>delta\<bar> < FAST_REPRICE_MIN_TICKS * sd_tickSize def then None
             else Some \<lparr>sm_targetCenter = target, sm_firstSide = (if delta > 0 then SELL else BUY)\<rparr>)))"

end
