(* ===== verification/Maker_Loop.thy ===== *)
theory Maker_Loop
  imports Market_Maker
begin

text \<open>
  \<open>apps/bots/src/market-maker.ts\<close>, continued: what changes the orders of the maker, its start on
  inherited orders and the turn of its loop. A step is a program over \<open>maker\<close>; an exception keeps what
  the step has done so far.
\<close>

section \<open>Steps\<close>

type_synonym ('w, 'a) making = "('w maker, 'a) prog"

definition callS :: "('w \<Rightarrow> (error + 'a) \<times> 'w) \<Rightarrow> ('w, 'a) making" where
  "callS f s = (case f (mm_world s) of (r, w) \<Rightarrow> (r, s\<lparr>mm_world := w\<rparr>))"

definition readS :: "('w maker \<Rightarrow> 'a) \<Rightarrow> ('w, 'a) making" where
  "readS f s = (Inr (f s), s)"

definition changeS :: "('w maker \<Rightarrow> 'w maker) \<Rightarrow> ('w, unit) making" where
  "changeS f s = (Inr (), f s)"

definition sleepS :: "'w client \<Rightarrow> int \<Rightarrow> ('w, unit) making" where
  "sleepS client ms = changeS (\<lambda>s. s\<lparr>mm_world := cl_sleep client ms (mm_world s)\<rparr>)"

definition nowS :: "'w client \<Rightarrow> ('w, int) making" where
  "nowS client = readS (\<lambda>s. cl_now client (mm_world s))"

text \<open>A cancellation; that the API rejects it is no failure.\<close>

definition cancelS :: "'w client \<Rightarrow> string \<Rightarrow> ('w, unit) making" where
  "cancelS client i =
     catchS (callS (cl_cancelOrder client i)) (\<lambda>e. if isRejection e then returnS () else throwS e)"

section \<open>Adopting an inherited ladder\<close>

record adopted_ladder =
  al_center :: int
  al_active :: "(quote_key, managed_quote) rows"
  al_preserved :: "(string, preserved_quote) rows"
  al_retirable :: "(string, preserved_quote) rows"

definition adoptionCandidates :: "live_order list \<Rightarrow> symbol_def \<Rightarrow> int \<Rightarrow> error + int list" where
  "adoptionCandidates live def fallbackCenter =
     bindE (foldE (\<lambda>price centers. bindE (alignToTick (of_int price) (sd_tickSize def)) (\<lambda>c. Inr (centers @ [c])))
       (fallbackCenter # concat (map (\<lambda>o'. case (lo_type o', lo_price o') of
            (LIMIT, Some price) \<Rightarrow> map (\<lambda>distance. case lo_side o' of
                BUY \<Rightarrow> price + distance * sd_tickSize def | SELL \<Rightarrow> price - distance * sd_tickSize def) LIQUIDITY_DISTANCE_TICKS
          | _ \<Rightarrow> []) live)) []) (\<lambda>centers. Inr (uniq centers))"

definition matchingOrder :: "liquidity_quote \<Rightarrow> live_order \<Rightarrow> bool" where
  "matchingOrder quote o' \<longleftrightarrow>
     lo_type o' = LIMIT \<and> lo_side o' = lq_side quote \<and> lo_price o' = Some (lq_price quote) \<and>
     lo_status o' = OPEN \<and> lo_filledQty o' = 0 \<and> remainingQty o' > 0"

definition largerMatch :: "live_order list \<Rightarrow> liquidity_quote \<Rightarrow> nat \<Rightarrow> nat option \<Rightarrow> nat option" where
  "largerMatch remaining quote candidate index =
     (if \<not> matchingOrder quote (remaining ! candidate) then index
      else case index of None \<Rightarrow> Some candidate
      | Some i \<Rightarrow>
          if remainingQty (remaining ! candidate) > remainingQty (remaining ! i) \<or>
             remainingQty (remaining ! candidate) = remainingQty (remaining ! i) \<and>
             lo_status (remaining ! candidate) = OPEN \<and> lo_status (remaining ! i) \<noteq> OPEN
          then Some candidate else Some i)"

definition adoptableIndex :: "live_order list \<Rightarrow> liquidity_quote \<Rightarrow> nat option" where
  "adoptableIndex remaining quote =
     (case find (\<lambda>i. matchingOrder quote (remaining ! i) \<and> remainingQty (remaining ! i) = lq_qty quote)
             [0..<length remaining] of
        Some i \<Rightarrow> Some i
      | None \<Rightarrow> fold (largerMatch remaining quote) [0..<length remaining] None)"

definition adoptQuote ::
  "liquidity_quote \<Rightarrow> live_order list \<times> (quote_key, managed_quote) rows
     \<Rightarrow> live_order list \<times> (quote_key, managed_quote) rows" where
  "adoptQuote quote acc = (case acc of (remaining, active) \<Rightarrow>
     (case adoptableIndex remaining quote of
        None \<Rightarrow> (remaining, active)
      | Some i \<Rightarrow>
          let o' = remaining ! i; actualQty = remainingQty o'
          in (take i remaining @ drop (Suc i) remaining,
              putRow (quoteKey quote) (managed (quote\<lparr>lq_qty := actualQty\<rparr>) (lo_id o') (actualQty > lq_qty quote)) active)))"

definition adoptedOn :: "order_side \<Rightarrow> (quote_key, managed_quote) rows \<Rightarrow> nat" where
  "adoptedOn side active = length (filter (\<lambda>(k, q). lq_side q = side) active)"

fun residualsAreSafe :: "(order_side \<times> int) list \<Rightarrow> (order_side \<times> int) list \<Rightarrow> bool" where
  "residualsAreSafe [] boundary = True"
| "residualsAreSafe (g # gs) boundary =
     (canAddWithoutSelfTrade g boundary \<and> residualsAreSafe gs (boundary @ [g]))"

definition adoptAround :: "live_order list \<Rightarrow> symbol_def \<Rightarrow> int \<Rightarrow> error + adopted_ladder option" where
  "adoptAround live def center =
     bindE (planFor def center []) (\<lambda>plan.
     let (remaining, active) = fold adoptQuote plan (live, []) in
     if adoptedOn BUY active < MIN_ADOPTABLE_LEVELS_PER_SIDE \<or> adoptedOn SELL active < MIN_ADOPTABLE_LEVELS_PER_SIDE
     then Inr None
     else
       let executable = filter (\<lambda>o'. remainingQty o' > 0) remaining;
           retirable = retirableOpenReserveRows executable;
           permanent = filter (\<lambda>o'. findRow retirable (lo_id o') = None) executable;
           preserved = unretirableReserveGuards permanent
       in if length preserved \<noteq> length permanent \<or> length retirable + length preserved \<noteq> length executable
          then Inr None
          else if residualsAreSafe (map (guardPlace \<circ> snd) preserved @ map (guardPlace \<circ> snd) retirable) (map placeOf plan)
          then Inr (Some \<lparr>al_center = center, al_active = active, al_preserved = preserved, al_retirable = retirable\<rparr>)
          else Inr None)"

fun adoptFirst :: "live_order list \<Rightarrow> symbol_def \<Rightarrow> int list \<Rightarrow> error + adopted_ladder option" where
  "adoptFirst live def [] = Inr None"
| "adoptFirst live def (center # centers) =
     bindE (adoptAround live def center) (\<lambda>r. case r of
       Some a \<Rightarrow> Inr (Some a) | None \<Rightarrow> adoptFirst live def centers)"

definition adoptExistingLadder :: "live_order list \<Rightarrow> symbol_def \<Rightarrow> int \<Rightarrow> error + adopted_ladder option" where
  "adoptExistingLadder live def fallbackCenter =
     bindE (adoptionCandidates live def fallbackCenter) (adoptFirst live def)"

section \<open>What the API reports as live\<close>

definition liveById :: "live_order list \<Rightarrow> (string, live_order) rows" where
  "liveById orders = fold (\<lambda>o'. putRow (lo_id o') o') orders []"

text \<open>A row that is no longer reported goes, unless the report may be cut off; the others get their size.\<close>

definition keepManaged ::
  "live_order list \<Rightarrow> ('k \<times> managed_quote) \<Rightarrow> ('k \<times> managed_quote) option" where
  "keepManaged orders row = (case row of (k, q) \<Rightarrow>
     (case findRow (liveById orders) (mq_id q) of
        None \<Rightarrow> if length orders \<ge> 200 then Some (k, q) else None
      | Some o' \<Rightarrow> Some (k, q\<lparr>lq_qty := remainingQty o'\<rparr>)))"

definition keepGuard ::
  "live_order list \<Rightarrow> (string \<times> preserved_quote) \<Rightarrow> (string \<times> preserved_quote) option" where
  "keepGuard orders row = (case row of (i, g) \<Rightarrow>
     (case findRow (liveById orders) i of
        None \<Rightarrow> if length orders \<ge> 200 then Some (i, g) else None
      | Some o' \<Rightarrow> Some (i, g\<lparr>pq_qty := remainingQty o'\<rparr>)))"

definition reconcileQuotes :: "live_order list \<Rightarrow> 'w maker \<Rightarrow> 'w maker" where
  "reconcileQuotes orders s =
     (let preserved = List.map_filter (keepGuard orders) (mm_preserved s)
      in s\<lparr>mm_active := List.map_filter (keepManaged orders) (mm_active s),
           mm_retiring := List.map_filter (keepManaged orders) (mm_retiring s),
           mm_preserved := preserved,
           mm_budgeted := clampBudgeted preserved (mm_budgeted s),
           mm_retirable := List.map_filter (keepGuard orders) (mm_retirable s)\<rparr>)"

section \<open>Cancelling again\<close>

definition retryOne :: "'w client \<Rightarrow> int \<Rightarrow> string \<Rightarrow> nat \<Rightarrow> ('w, nat) making" where
  "retryOne client now i sent =
     bindS (readS (\<lambda>s. findRow (mm_cancelAttempts s) i)) (\<lambda>last'. case last' of
       None \<Rightarrow> bindS (changeS (\<lambda>s. s\<lparr>mm_cancelAttempts := putRow i now (mm_cancelAttempts s)\<rparr>)) (\<lambda>_. returnS sent)
     | Some t \<Rightarrow>
         if now - t < RETIRING_CANCEL_RETRY_MS then returnS sent
         else bindS (changeS (\<lambda>s. s\<lparr>mm_cancelAttempts := putRow i now (mm_cancelAttempts s)\<rparr>)) (\<lambda>_.
              bindS (catchS (callS (cl_cancelOrder client i)) (\<lambda>e. returnS ())) (\<lambda>_. returnS (Suc sent))))"

definition retryStaleRetiringCancels :: "'w client \<Rightarrow> int \<Rightarrow> ('w, nat) making" where
  "retryStaleRetiringCancels client now =
     bindS (changeS (\<lambda>s. s\<lparr>mm_cancelAttempts :=
       filter (\<lambda>(i, t). findRow (mm_retiring s) i \<noteq> None) (mm_cancelAttempts s)\<rparr>)) (\<lambda>_.
     bindS (readS (\<lambda>s. map fst (mm_retiring s))) (\<lambda>ids. eachS (retryOne client now) ids 0))"

section \<open>Replacing quotes\<close>

definition matchesPlan :: "(quote_key, managed_quote) rows \<Rightarrow> liquidity_quote list \<Rightarrow> bool" where
  "matchesPlan active plan \<longleftrightarrow>
     length active = length plan \<and> list_all (\<lambda>q. isQuoteSufficient (findRow active (quoteKey q)) q) plan"

definition sideMatchesPlan :: "(quote_key, managed_quote) rows \<Rightarrow> liquidity_quote list \<Rightarrow> order_side \<Rightarrow> bool" where
  "sideMatchesPlan active plan side \<longleftrightarrow>
     list_all (\<lambda>q. isQuoteSufficient (findRow active (quoteKey q)) q) (filter (\<lambda>q. lq_side q = side) plan)"

definition hasLiveSide :: "managed_quote list \<Rightarrow> order_side \<Rightarrow> bool" where
  "hasLiveSide quotes side \<longleftrightarrow> list_ex (\<lambda>q. lq_side q = side) quotes"

text \<open>
  The test that comes before a replacement is sent: it is needed, and no tracked order of the other side
  can trade with it. \<open>retirable\<close> is the map the caller passes.
\<close>

definition wantsQuote :: "(string, preserved_quote) rows \<Rightarrow> liquidity_quote \<Rightarrow> 'w maker \<Rightarrow> bool" where
  "wantsQuote retirable desired s \<longleftrightarrow>
     \<not> isQuoteSufficient (findRow (mm_active s) (quoteKey desired)) desired \<and>
     canAddWithoutSelfTrade (placeOf desired) (trackedQuotes retirable s)"

text \<open>Sending it: the new order becomes active, the old one retires and is cancelled.\<close>

definition postQuote :: "'w client \<Rightarrow> string \<Rightarrow> liquidity_quote \<Rightarrow> managed_quote option \<Rightarrow> ('w, unit) making" where
  "postQuote client symbol desired current =
     bindS (catchS (bindS (callS (cl_placeOrder client symbol (lq_side desired) (lq_price desired) (lq_qty desired)))
                     (\<lambda>i. returnS (Some i)))
              (\<lambda>e. if isRejection e then returnS None else throwS e)) (\<lambda>placed. case placed of
       None \<Rightarrow> returnS ()
     | Some i \<Rightarrow>
         bindS (changeS (\<lambda>s. s\<lparr>mm_active := putRow (quoteKey desired) (managed desired i False) (mm_active s)\<rparr>)) (\<lambda>_.
         case current of None \<Rightarrow> returnS ()
         | Some c \<Rightarrow>
             bindS (changeS (\<lambda>s. s\<lparr>mm_retiring := putRow (mq_id c) c (mm_retiring s)\<rparr>)) (\<lambda>_.
             cancelS client (mq_id c))))"

definition replaceQuote ::
  "'w client \<Rightarrow> string \<Rightarrow> (string, preserved_quote) rows \<Rightarrow> liquidity_quote \<Rightarrow> ('w, unit) making" where
  "replaceQuote client symbol retirable desired s =
     (if wantsQuote retirable desired s
      then postQuote client symbol desired (findRow (mm_active s) (quoteKey desired)) s
      else (Inr (), s))"

definition sideKey :: "order_side \<Rightarrow> liquidity_quote \<Rightarrow> nat" where
  "sideKey firstSide q = (if lq_side q = firstSide then 0 else 1)"

definition refreshLevel ::
  "'w client \<Rightarrow> string \<Rightarrow> liquidity_quote list \<Rightarrow> (string, preserved_quote) rows \<Rightarrow> int \<Rightarrow> bool \<Rightarrow> int \<Rightarrow> ('w, unit) making" where
  "refreshLevel client symbol plan retirable centerDirection continueOnError level =
     (let firstSide = (if centerDirection > 0 then SELL else BUY);
          quotes = sort_key (sideKey firstSide) (filter (\<lambda>q. lq_level q = level) plan)
      in eachS (\<lambda>q u. catchS (replaceQuote client symbol retirable q)
           (\<lambda>e. if continueOnError then returnS () else throwS e)) quotes ())"

definition refreshWholeLadder ::
  "'w client \<Rightarrow> string \<Rightarrow> liquidity_quote list \<Rightarrow> (string, preserved_quote) rows \<Rightarrow> int \<Rightarrow> bool \<Rightarrow> ('w, unit) making" where
  "refreshWholeLadder client symbol plan retirable centerDirection continueOnError =
     eachS (\<lambda>level u. refreshLevel client symbol plan retirable centerDirection continueOnError (int level)) ladderLevels ()"

text \<open>
  One side of a plan at once: every quote is tested before the first answer arrives, then the answers
  come in any order. All quotes are of one side and of different levels.
\<close>

definition refreshPlanSide ::
  "'w client \<Rightarrow> string \<Rightarrow> liquidity_quote list \<Rightarrow> order_side \<Rightarrow> ('w, unit) making" where
  "refreshPlanSide client symbol plan side s =
     (let quotes = sort_key lq_level (filter (\<lambda>q. lq_side q = side) plan);
          wanted = filter (\<lambda>q. wantsQuote (mm_retirable s) q s) quotes
      in eachS (\<lambda>q u. catchS (postQuote client symbol q (findRow (mm_active s) (quoteKey q))) (\<lambda>e. returnS ()))
           (cl_arrival client (mm_world s) wanted) () s)"

definition otherSide :: "order_side \<Rightarrow> order_side" where
  "otherSide side = (case side of BUY \<Rightarrow> SELL | SELL \<Rightarrow> BUY)"

definition advanceStagedQuoteMigration ::
  "'w client \<Rightarrow> string \<Rightarrow> liquidity_quote list \<Rightarrow> staged_migration \<Rightarrow> ('w, migration_progress) making" where
  "advanceStagedQuoteMigration client symbol plan migration s =
     (let firstSide = sm_firstSide migration; secondSide = otherSide firstSide in
      if \<not> sideMatchesPlan (mm_active s) plan firstSide
      then bindS (refreshPlanSide client symbol plan firstSide) (\<lambda>_. returnS STAGING_FIRST_SIDE) s
      else if hasLiveSide (map snd (mm_retiring s)) firstSide then (Inr WAITING_FOR_FIRST_SIDE_RETIREMENT, s)
      else if \<not> sideMatchesPlan (mm_active s) plan secondSide
      then bindS (refreshPlanSide client symbol plan secondSide) (\<lambda>_. returnS STAGING_SECOND_SIDE) s
      else (Inr COMPLETE, s))"

definition retiredQuote :: "string \<Rightarrow> preserved_quote \<Rightarrow> managed_quote" where
  "retiredQuote i g =
     \<lparr>lq_side = pq_side g, lq_level = -1, lq_price = pq_price g, lq_qty = pq_qty g, lq_refillLowWaterRatio = None,
      mq_id = i, mq_needsNormalization = False\<rparr>"

definition retireOne :: "'w client \<Rightarrow> string \<times> preserved_quote \<Rightarrow> unit \<Rightarrow> ('w, unit) making" where
  "retireOne client row u = (case row of (i, g) \<Rightarrow>
     bindS (changeS (\<lambda>s. s\<lparr>mm_retiring := putRow i (retiredQuote i g) (mm_retiring s),
                           mm_retirable := dropRow i (mm_retirable s)\<rparr>)) (\<lambda>_.
     cancelS client i))"

definition retireRetirableQuotes :: "'w client \<Rightarrow> ('w, unit) making" where
  "retireRetirableQuotes client = bindS (readS mm_retirable) (\<lambda>rows. eachS (retireOne client) rows ())"

definition retireRetirableQuotesWhenPlanIsSufficient ::
  "'w client \<Rightarrow> liquidity_quote list \<Rightarrow> ('w, bool) making" where
  "retireRetirableQuotesWhenPlanIsSufficient client plan =
     bindS (readS (\<lambda>s. matchesPlan (mm_active s) plan)) (\<lambda>complete.
       if \<not> complete then returnS False
       else bindS (retireRetirableQuotes client) (\<lambda>_. returnS True))"

section \<open>Starting\<close>

text \<open>
  Waits until the inherited orders are gone, at most about five seconds: \<open>left\<close> bounds the polls, and a
  bound of 26 is not reached when a pause of 200 ms takes that long.
\<close>

definition requestRetirement ::
  "'w client \<Rightarrow> int \<Rightarrow> live_order \<Rightarrow> (string, int) rows \<Rightarrow> ('w, (string, int) rows) making" where
  "requestRetirement client now o' lastCancelRequest =
     (if now - (case findRow lastCancelRequest (lo_id o') of None \<Rightarrow> 0 | Some t \<Rightarrow> t) < 1000 then returnS lastCancelRequest
      else bindS (cancelS client (lo_id o')) (\<lambda>_. returnS (putRow (lo_id o') now lastCancelRequest)))"

fun retirePolls ::
  "'w client \<Rightarrow> string \<Rightarrow> int \<Rightarrow> nat \<Rightarrow> live_order list option \<Rightarrow> (string, int) rows \<Rightarrow> ('w, unit) making" where
  "retirePolls client symbol deadline 0 live lastCancelRequest = throwS neverReturns"
| "retirePolls client symbol deadline (Suc left) live lastCancelRequest =
     bindS (case live of Some l \<Rightarrow> returnS l | None \<Rightarrow> callS (cl_myLiveOrders client symbol)) (\<lambda>live.
     if live = [] then returnS ()
     else bindS (nowS client) (\<lambda>now.
          bindS (eachS (requestRetirement client now) live lastCancelRequest) (\<lambda>lastCancelRequest.
          bindS (nowS client) (\<lambda>now.
          if now \<ge> deadline then throwS startupBlocked
          else bindS (sleepS client 200) (\<lambda>_. retirePolls client symbol deadline left None lastCancelRequest)))))"

definition retirePreviousQuotes :: "'w client \<Rightarrow> string \<Rightarrow> live_order list \<Rightarrow> ('w, unit) making" where
  "retirePreviousQuotes client symbol initialLive =
     bindS (nowS client) (\<lambda>now.
     retirePolls client symbol (now + STARTUP_CANCEL_TIMEOUT_MS) 26 (Some initialLive) [])"

definition putAll :: "('k \<times> 'v) list \<Rightarrow> ('k, 'v) rows \<Rightarrow> ('k, 'v) rows" where
  "putAll new' t = fold (\<lambda>(k, v). putRow k v) new' t"

definition initializeWithPreservedReserveGuards ::
  "'w client \<Rightarrow> symbol_def \<Rightarrow> int \<Rightarrow> live_order list \<Rightarrow> ('w, (int \<times> nat) option) making" where
  "initializeWithPreservedReserveGuards client def requestedCenter live =
     (let retirableRows = retirableOpenReserveRows live;
          permanentRows = filter (\<lambda>o'. findRow retirableRows (lo_id o') = None) live;
          guards = unretirableReserveGuards permanentRows
      in if guards = [] \<and> retirableRows = [] then returnS None
         else bindS (liftS (guardedQuoteCenter def requestedCenter
                (map (guardPlace \<circ> snd) guards @ map (guardPlace \<circ> snd) retirableRows))) (\<lambda>center. case center of
           None \<Rightarrow> throwS startupBlocked
         | Some center \<Rightarrow>
             bindS (changeS (\<lambda>s. s\<lparr>mm_preserved := putAll guards (mm_preserved s),
                                   mm_retirable := putAll retirableRows (mm_retirable s)\<rparr>)) (\<lambda>_.
             bindS (readS mm_budgeted) (\<lambda>budgeted.
             bindS (liftS (buildMarketMakerPlan def center budgeted)) (\<lambda>plan.
             bindS (readS mm_retirable) (\<lambda>retirable.
             bindS (refreshWholeLadder client (sd_symbol def) plan retirable 0 True) (\<lambda>_.
             returnS (Some (center, length guards)))))))))"

text \<open>Cancels what may go when the ladder around the current center stands.\<close>

definition retireForCenter :: "'w client \<Rightarrow> symbol_def \<Rightarrow> ('w, unit) making" where
  "retireForCenter client def =
     bindS (readS mm_retirable) (\<lambda>retirable.
       if retirable = [] then returnS ()
       else bindS (readS (\<lambda>s. buildMarketMakerPlan def (mm_quoteCenter s) (mm_budgeted s))) (\<lambda>plan.
            bindS (liftS plan) (\<lambda>plan.
            bindS (retireRetirableQuotesWhenPlanIsSufficient client plan) (\<lambda>_. returnS ()))))"

definition startedAt :: "'w client \<Rightarrow> ('w, unit) making" where
  "startedAt client = changeS (\<lambda>s. s\<lparr>mm_initialized := True, mm_lastReconcileAt := cl_now client (mm_world s)\<rparr>)"

text \<open>The ladder is adopted; its oversized rows are replaced, its doubles retire.\<close>

definition takeOver :: "maker_options \<Rightarrow> adopted_ladder \<Rightarrow> 'w maker \<Rightarrow> 'w maker" where
  "takeOver options a s =
     s\<lparr>mm_quoteCenter := al_center a,
       mm_active := putAll (al_active a) (mm_active s),
       mm_preserved := (if mo_allowUnretirableReserveFallback options then putAll (al_preserved a) (mm_preserved s)
                        else putAll (al_retirable a) (putAll (al_preserved a) (mm_preserved s))),
       mm_retirable := (if mo_allowUnretirableReserveFallback options then putAll (al_retirable a) (mm_retirable s)
                        else mm_retirable s)\<rparr>"

definition startAdopted :: "'w client \<Rightarrow> symbol_def \<Rightarrow> maker_options \<Rightarrow> adopted_ladder \<Rightarrow> ('w, unit) making" where
  "startAdopted client def options a =
     bindS (changeS (takeOver options a)) (\<lambda>_.
     bindS (readS mm_budgeted) (\<lambda>budgeted.
     bindS (liftS (buildMarketMakerPlan def (al_center a) budgeted)) (\<lambda>plan.
     bindS (changeS (remapS plan {})) (\<lambda>_.
     bindS (readS mm_retirable) (\<lambda>retirable.
     bindS (refreshWholeLadder client (sd_symbol def) plan retirable 0 True) (\<lambda>_.
     bindS (readS mm_retirable) (\<lambda>retirable.
     bindS (if mo_allowUnretirableReserveFallback options \<and> retirable \<noteq> []
            then bindS (retireRetirableQuotesWhenPlanIsSufficient client plan) (\<lambda>_. returnS ()) else returnS ()) (\<lambda>_.
     startedAt client))))))))"

text \<open>What follows a start on guards: the new center, the retirements, and the loop may begin.\<close>

definition startGuarded :: "'w client \<Rightarrow> symbol_def \<Rightarrow> int \<Rightarrow> ('w, unit) making" where
  "startGuarded client def center =
     bindS (changeS (\<lambda>s. s\<lparr>mm_quoteCenter := center\<rparr>)) (\<lambda>_.
     bindS (retireForCenter client def) (\<lambda>_. startedAt client))"

text \<open>The last resort: cancel what is there, wait, and post a new ladder; \<open>retirable\<close> is not passed here.\<close>

definition startAfresh :: "'w client \<Rightarrow> symbol_def \<Rightarrow> ('w, unit) making" where
  "startAfresh client def =
     bindS (readS (\<lambda>s. buildMarketMakerPlan def (mm_quoteCenter s) (mm_budgeted s))) (\<lambda>plan.
     bindS (liftS plan) (\<lambda>plan.
     bindS (refreshWholeLadder client (sd_symbol def) plan [] 0 True) (\<lambda>_.
     changeS (\<lambda>s. s\<lparr>mm_initialized := True\<rparr>))))"

definition startUnretirable :: "'w client \<Rightarrow> symbol_def \<Rightarrow> error \<Rightarrow> ('w, unit) making" where
  "startUnretirable client def e =
     bindS (callS (cl_myLiveOrders client (sd_symbol def))) (\<lambda>unretirable.
     bindS (readS mm_quoteCenter) (\<lambda>quoteCenter.
     bindS (initializeWithPreservedReserveGuards client def quoteCenter unretirable) (\<lambda>started. case started of
       None \<Rightarrow> throwS e
     | Some (center, n) \<Rightarrow> startGuarded client def center)))"

definition startByRetiring :: "'w client \<Rightarrow> symbol_def \<Rightarrow> maker_options \<Rightarrow> live_order list \<Rightarrow> ('w, unit) making" where
  "startByRetiring client def options inherited =
     bindS (catchS (bindS (retirePreviousQuotes client (sd_symbol def) inherited) (\<lambda>_. returnS None))
              (\<lambda>e. if \<not> mo_allowUnretirableReserveFallback options \<or> e \<noteq> startupBlocked then throwS e else returnS (Some e)))
       (\<lambda>r. case r of Some e \<Rightarrow> startUnretirable client def e | None \<Rightarrow> startAfresh client def)"

definition startMaker :: "'w client \<Rightarrow> symbol_def \<Rightarrow> maker_options \<Rightarrow> ('w, unit) making" where
  "startMaker client def options =
     bindS (callS (cl_myLiveOrders client (sd_symbol def))) (\<lambda>inherited.
     bindS (readS mm_quoteCenter) (\<lambda>quoteCenter.
     bindS (liftS (adoptExistingLadder inherited def quoteCenter)) (\<lambda>adopted. case adopted of
       Some a \<Rightarrow> startAdopted client def options a
     | None \<Rightarrow>
         bindS (if mo_allowUnretirableReserveFallback options \<and> inherited \<noteq> []
                then initializeWithPreservedReserveGuards client def quoteCenter inherited else returnS None) (\<lambda>started.
         case started of
           Some (center, n) \<Rightarrow> startGuarded client def center
         | None \<Rightarrow> startByRetiring client def options inherited))))"

section \<open>A turn of the loop\<close>

text \<open>Looks at the API again when the last look is old enough.\<close>

definition lookAgain :: "'w client \<Rightarrow> symbol_def \<Rightarrow> maker_options \<Rightarrow> int \<Rightarrow> ('w, unit) making" where
  "lookAgain client def options now =
     bindS (callS (cl_quoteState client (sd_symbol def))) (\<lambda>(orders, view).
     bindS (changeS (reconcileQuotes orders)) (\<lambda>_.
     bindS (readS (\<lambda>s. observeSides (mo_oneSidedRestartMs options) orders now (mm_emptySince s))) (\<lambda>(missingSide, since).
     bindS (changeS (\<lambda>s. s\<lparr>mm_emptySince := since\<rparr>)) (\<lambda>_.
     if missingSide \<noteq> None then throwS makerStalled
     else bindS (retryStaleRetiringCancels client now) (\<lambda>resent.
       bindS (changeS (\<lambda>s. case dv_lastPrice view of
           Some p \<Rightarrow> if isSafePositive p then s\<lparr>mm_observedMarketLastPrice := Some p\<rparr> else s
         | None \<Rightarrow> s)) (\<lambda>_.
       changeS (\<lambda>s.
         (if now - mm_lastPreservedDepthRefreshAt s \<ge> PRESERVED_DEPTH_REFRESH_MS
          then (refreshBudgetedPreservedGuards (Some view) s)\<lparr>mm_lastPreservedDepthRefreshAt := now\<rparr>
          else s)\<lparr>mm_lastReconcileAt := now\<rparr>)))))))"

definition reconcileStep :: "'w client \<Rightarrow> symbol_def \<Rightarrow> maker_options \<Rightarrow> int \<Rightarrow> ('w, unit) making" where
  "reconcileStep client def options now =
     bindS (readS mm_lastReconcileAt) (\<lambda>last'.
       if now - last' \<ge> mo_quoteReconcileMs options
       then catchS (lookAgain client def options now)
              (\<lambda>e. bindS (changeS (\<lambda>s. s\<lparr>mm_budgeted := []\<rparr>)) (\<lambda>_. throwS e))
       else returnS ())"

definition targetCenterS :: "'w client \<Rightarrow> symbol_def \<Rightarrow> ('w, int) making" where
  "targetCenterS client def =
     bindS (readS (\<lambda>s. quoteCenterFromMarketPrice def (cl_modelPrice client (sd_symbol def) (mm_world s))
       (mm_observedMarketLastPrice s) (cl_hasActiveEvent client (sd_symbol def) (mm_world s)))) (\<lambda>r.
     bindS (liftS r) (\<lambda>requestedCenter.
     bindS (readS (\<lambda>s. guardedQuoteCenter def requestedCenter (map (guardPlace \<circ> snd) (mm_preserved s)))) (\<lambda>r.
     bindS (liftS r) (\<lambda>center.
     bindS (readS mm_quoteCenter) (\<lambda>quoteCenter.
     returnS (case center of None \<Rightarrow> quoteCenter | Some c \<Rightarrow> c))))))"

definition beginMigrationS :: "symbol_def \<Rightarrow> int \<Rightarrow> int \<Rightarrow> ('w, unit) making" where
  "beginMigrationS def targetCenter now s =
     (if mm_staged s = None \<and> mm_retiring s = [] \<and> mm_retirable s = []
      then bindS (liftS (beginStagedQuoteMigration def (mm_quoteCenter s) targetCenter)) (\<lambda>m.
           changeS (\<lambda>s. s\<lparr>mm_staged := m, mm_stagedStartedAt := now\<rparr>)) s
      else (Inr (), s))"

definition migrateS :: "'w client \<Rightarrow> symbol_def \<Rightarrow> staged_migration \<Rightarrow> ('w, unit) making" where
  "migrateS client def migration =
     bindS (readS (\<lambda>s. buildMarketMakerPlan def (sm_targetCenter migration) (mm_budgeted s))) (\<lambda>r.
     bindS (liftS r) (\<lambda>stagedPlan.
     bindS (advanceStagedQuoteMigration client (sd_symbol def) stagedPlan migration) (\<lambda>progress.
     bindS (if progress = COMPLETE
            then changeS (\<lambda>s. s\<lparr>mm_quoteCenter := sm_targetCenter migration, mm_staged := None\<rparr>) else returnS ()) (\<lambda>_.
     sleepS client 80))))"

text \<open>One tick towards the target, when the ladder stands and the new one can share the book.\<close>

definition recenterS :: "symbol_def \<Rightarrow> maker_options \<Rightarrow> liquidity_quote list \<Rightarrow> int \<Rightarrow> int \<Rightarrow> ('w, unit) making" where
  "recenterS def options currentPlan targetCenter now s =
     (if mm_retirable s = [] \<and> matchesPlan (mm_active s) currentPlan
      then bindS (liftS (moveGuardedQuoteCenter def (mm_quoteCenter s) targetCenter
                   (map (guardPlace \<circ> snd) (mm_preserved s)))) (\<lambda>candidateCenter.
           bindS (liftS (buildMarketMakerPlan def candidateCenter (mm_budgeted s))) (\<lambda>candidatePlan.
           changeS (\<lambda>s.
             if (candidateCenter = mm_quoteCenter s \<or>
                 now - mm_lastOrdinaryCenterMoveAt s \<ge> mo_ordinaryRecenterMs options) \<and>
                (candidateCenter = mm_quoteCenter s \<or>
                 canPlanCoexist candidatePlan (trackedQuotes (mm_retirable s) s))
             then s\<lparr>mm_quoteCenter := candidateCenter,
                    mm_lastOrdinaryCenterMoveAt :=
                      (if candidateCenter \<noteq> mm_quoteCenter s then now else mm_lastOrdinaryCenterMoveAt s)\<rparr>
             else s))) s
      else (Inr (), s))"

definition quoteS :: "'w client \<Rightarrow> symbol_def \<Rightarrow> maker_options \<Rightarrow> int \<Rightarrow> int \<Rightarrow> ('w, unit) making" where
  "quoteS client def options targetCenter now =
     bindS (readS (\<lambda>s. buildMarketMakerPlan def (mm_quoteCenter s) (mm_budgeted s))) (\<lambda>r.
     bindS (liftS r) (\<lambda>currentPlan.
     bindS (readS (\<lambda>s. pq_side ` set (map snd (mm_budgeted s)))) (\<lambda>strictSides.
     bindS (changeS (remapS currentPlan strictSides)) (\<lambda>_.
     bindS (readS mm_quoteCenter) (\<lambda>previousCenter.
     bindS (recenterS def options currentPlan targetCenter now) (\<lambda>_.
     bindS (readS (\<lambda>s. buildMarketMakerPlan def (mm_quoteCenter s) (mm_budgeted s))) (\<lambda>r.
     bindS (liftS r) (\<lambda>desiredPlan.
     bindS (changeS (\<lambda>s. if mm_quoteCenter s \<noteq> previousCenter then remapS desiredPlan strictSides s else s)) (\<lambda>_.
     bindS (readS (\<lambda>s. (mm_quoteCenter s, mm_retirable s))) (\<lambda>(quoteCenter, retirable).
     bindS (refreshWholeLadder client (sd_symbol def) desiredPlan retirable (sgn (quoteCenter - previousCenter)) True) (\<lambda>_.
     bindS (readS mm_retirable) (\<lambda>retirable.
     if retirable = [] then returnS ()
     else bindS (retireRetirableQuotesWhenPlanIsSufficient client desiredPlan) (\<lambda>_. returnS ())))))))))))))"

text \<open>The body of the loop; the result tells whether the closing pause is skipped (\<open>continue\<close>).\<close>

definition makerBody :: "'w client \<Rightarrow> symbol_def \<Rightarrow> maker_options \<Rightarrow> ('w, bool) making" where
  "makerBody client def options s =
     (if \<not> mm_initialized s then bindS (startMaker client def options) (\<lambda>_. returnS True) s
      else bindS (nowS client) (\<lambda>now.
        bindS (reconcileStep client def options now) (\<lambda>_.
        bindS (targetCenterS client def) (\<lambda>targetCenter.
        bindS (beginMigrationS def targetCenter now) (\<lambda>_.
        bindS (readS mm_staged) (\<lambda>staged. case staged of
          Some migration \<Rightarrow> bindS (migrateS client def migration) (\<lambda>_. returnS True)
        | None \<Rightarrow> bindS (quoteS client def options targetCenter now) (\<lambda>_. returnS False)))))) s)"

text \<open>What ends the maker: a blocked start, a stall, or a computation that does not return.\<close>

definition makerTurn :: "'w client \<Rightarrow> symbol_def \<Rightarrow> maker_options \<Rightarrow> ('w, unit) making" where
  "makerTurn client def options =
     bindS (catchS (makerBody client def options) (\<lambda>e s.
       if \<not> mm_initialized s \<and> e = startupBlocked \<or> e = makerStalled \<or> e = neverReturns
       then (Inl e, s) else (Inr False, s))) (\<lambda>skip.
     if skip then returnS () else sleepS client 80)"

fun makerTurns :: "'w client \<Rightarrow> symbol_def \<Rightarrow> maker_options \<Rightarrow> nat \<Rightarrow> ('w, unit) making" where
  "makerTurns client def options 0 = returnS ()"
| "makerTurns client def options (Suc n) = bindS (makerTurn client def options) (\<lambda>_. makerTurns client def options n)"

definition initialMaker :: "'w client \<Rightarrow> symbol_def \<Rightarrow> 'w \<Rightarrow> error + 'w maker" where
  "initialMaker client def w =
     bindE (alignToTick (cl_modelPrice client (sd_symbol def) w) (sd_tickSize def)) (\<lambda>center.
     Inr \<lparr>mm_world = w, mm_active = [], mm_retiring = [], mm_preserved = [], mm_budgeted = [], mm_retirable = [],
          mm_cancelAttempts = [], mm_emptySince = [], mm_initialized = False, mm_quoteCenter = center,
          mm_lastReconcileAt = 0, mm_lastPreservedDepthRefreshAt = 0, mm_lastOrdinaryCenterMoveAt = 0,
          mm_observedMarketLastPrice = None, mm_staged = None, mm_stagedStartedAt = 0\<rparr>)"

end
