(* ===== verification/Maker_Props.thy ===== *)
theory Maker_Props
  imports Maker_Loop
begin

text \<open>
  What the market maker keeps: whatever the API answers, every order of its own that may be live is in
  one of its maps, and no two of its live orders can trade with each other. The API is the interface
  \<open>order_client\<close>; the steps of the maker are composed by Hoare triples with an exceptional
  postcondition.
\<close>

section \<open>Triples\<close>

definition triple :: "('s \<Rightarrow> bool) \<Rightarrow> ('s, 'a) prog \<Rightarrow> ('a \<Rightarrow> 's \<Rightarrow> bool) \<Rightarrow> ('s \<Rightarrow> bool) \<Rightarrow> bool" where
  "triple P m Q E \<longleftrightarrow> (\<forall>s. P s \<longrightarrow> (case m s of (Inr x, t) \<Rightarrow> Q x t | (Inl e, t) \<Rightarrow> E t))"

lemma tripleI:
  assumes "\<And>s x t. P s \<Longrightarrow> m s = (Inr x, t) \<Longrightarrow> Q x t" and "\<And>s e t. P s \<Longrightarrow> m s = (Inl e, t) \<Longrightarrow> E t"
  shows "triple P m Q E"
  using assms unfolding triple_def by (auto split: prod.splits sum.splits)

lemma tripleD:
  assumes "triple P m Q E" "P s" "m s = (r, t)"
  shows "case r of Inr x \<Rightarrow> Q x t | Inl e \<Rightarrow> E t"
  using assms unfolding triple_def by (cases r) fastforce+

lemma triple_weaken:
  assumes "triple P m Q E" "\<And>s. P' s \<Longrightarrow> P s" "\<And>x s. Q x s \<Longrightarrow> Q' x s" "\<And>s. E s \<Longrightarrow> E' s"
  shows "triple P' m Q' E'"
  using assms unfolding triple_def by (fastforce split: prod.splits sum.splits)

lemma triple_bindS:
  assumes "triple P m R E" and "\<And>x. triple (R x) (f x) Q E"
  shows "triple P (bindS m f) Q E"
proof (rule tripleI)
  fix s x t assume "P s" "bindS m f s = (Inr x, t)"
  then show "Q x t" using tripleD [OF assms(1)] tripleD [OF assms(2)] by (elim bindS_cases) fastforce+
next
  fix s e t assume "P s" "bindS m f s = (Inl e, t)"
  then show "E t" using tripleD [OF assms(1)] tripleD [OF assms(2)] by (elim bindS_cases) fastforce+
qed

lemma triple_catchS:
  assumes "triple P m Q R" and "\<And>e. triple R (h e) Q E"
  shows "triple P (catchS m h) Q E"
  unfolding triple_def
proof (intro allI impI)
  fix s assume P: "P s"
  obtain r t where m: "m s = (r, t)" by (cases "m s")
  from tripleD [OF assms(1) P m] show "case catchS m h s of (Inr x, t) \<Rightarrow> Q x t | (Inl e, t) \<Rightarrow> E t"
    using m assms(2) by (cases r) (auto simp: catchS_def triple_def)
qed

lemma triple_returnS: "(\<And>s. P s \<Longrightarrow> Q x s) \<Longrightarrow> triple P (returnS x) Q E"
  by (simp add: triple_def)

lemma triple_throwS: "(\<And>s. P s \<Longrightarrow> E s) \<Longrightarrow> triple P (throwS e) Q E"
  by (simp add: triple_def)

lemma triple_liftS: "(\<And>x s. r = Inr x \<Longrightarrow> P s \<Longrightarrow> Q x s) \<Longrightarrow> (\<And>s. P s \<Longrightarrow> E s) \<Longrightarrow> triple P (liftS r) Q E"
  by (cases r) (simp_all add: triple_def)

lemma triple_readS: "(\<And>s. P s \<Longrightarrow> Q (f s) s) \<Longrightarrow> triple P (readS f) Q E"
  by (simp add: triple_def readS_def)

lemma triple_changeS: "(\<And>s. P s \<Longrightarrow> Q () (f s)) \<Longrightarrow> triple P (changeS f) Q E"
  by (simp add: triple_def changeS_def)

lemma triple_eachS:
  assumes "\<And>x a. x \<in> set xs \<Longrightarrow> triple P (f x a) (\<lambda>_. P) E"
  shows "triple P (eachS f xs a) (\<lambda>_. P) E"
  using assms
proof (induction xs arbitrary: a)
  case (Cons x xs)
  have rest: "triple P (eachS f xs b) (\<lambda>_. P) E" for b
    by (rule Cons.IH) (rule Cons.prems, simp)
  have "triple P (f x a) (\<lambda>_. P) E" by (rule Cons.prems) simp
  then show ?case unfolding eachS.simps by (rule triple_bindS) (rule rest)
qed (simp add: triple_returnS)

lemma triple_if:
  "(b \<Longrightarrow> triple P m Q E) \<Longrightarrow> (\<not> b \<Longrightarrow> triple P n Q E) \<Longrightarrow> triple P (if b then m else n) Q E"
  by simp

lemma triple_state: "(\<And>s. P s \<Longrightarrow> triple (\<lambda>t. t = s) m Q E) \<Longrightarrow> triple P m Q E"
  by (simp add: triple_def)

section \<open>Rows\<close>

lemma putRow_set: "set (putRow k v t) \<subseteq> insert (k, v) (set t)"
  by (induction t) (auto simp: putRow_def)

lemma putRow_new: "(k, v) \<in> set (putRow k v t)"
  by (rule findRow_in_set) simp

lemma putRow_keeps: "(i, x) \<in> set t \<Longrightarrow> i \<noteq> k \<Longrightarrow> (i, x) \<in> set (putRow k v t)"
  by (induction t) (auto simp: putRow_def)

lemma putRow_keys: "fst ` set (putRow k v t) = insert k (fst ` set t)"
  by (simp add: putRow_def dom_update)

lemma dropRow_set: "set (dropRow k t) = {x \<in> set t. fst x \<noteq> k}"
  by (auto simp: dropRow_def AList.delete_eq)

lemma putAll_keys: "fst ` set (putAll new' t) = fst ` set new' \<union> fst ` set t"
  unfolding putAll_def
proof (induction new' arbitrary: t)
  case (Cons x xs)
  obtain k v where x: "x = (k, v)" by (cases x)
  show ?case by (simp add: x Cons.IH putRow_keys)
qed simp

lemma putAll_set: "set (putAll new' t) \<subseteq> set new' \<union> set t"
  unfolding putAll_def
proof (induction new' arbitrary: t)
  case (Cons x xs)
  obtain k v where x: "x = (k, v)" by (cases x)
  show ?case using Cons.IH [of "putRow k v t"] putRow_set [of k v t] x by auto
qed simp

lemma putAll_unique: "uniqueKeys t \<Longrightarrow> uniqueKeys (putAll new' t)"
  unfolding putAll_def by (induction new' arbitrary: t) (auto simp: rows.wf_put)

lemma putAll_new:
  assumes "uniqueKeys new'"
  shows "set new' \<subseteq> set (putAll new' t)"
  using assms unfolding putAll_def
proof (induction new' arbitrary: t)
  case (Cons x xs)
  obtain k v where x: "x = (k, v)" by (cases x)
  have k: "k \<notin> fst ` set xs" and u: "uniqueKeys xs" using Cons.prems x by (auto simp: uniqueKeys_def)
  have "(k, v) \<in> set (fold (\<lambda>(k, v). putRow k v) xs (putRow k v t))"
  proof -
    have "k \<notin> fst ` set ys \<Longrightarrow> (k, v) \<in> set t \<Longrightarrow> (k, v) \<in> set (fold (\<lambda>(k, v). putRow k v) ys t)"
      for ys :: "('a \<times> 'b) list" and t
    proof (induction ys arbitrary: t)
      case (Cons y ys)
      obtain j w where y: "y = (j, w)" by (cases y)
      from Cons.prems y have "(k, v) \<in> set (putRow j w t)" by (auto intro: putRow_keeps)
      then show ?case using Cons y by simp
    qed simp
    then show ?thesis using k by (blast intro: putRow_new)
  qed
  then show ?case using Cons.IH [OF u] x by simp
qed simp

section \<open>The maps of the maker\<close>

text \<open>An exchange knows the side and price of every order id it ever accepted.\<close>

type_synonym order_terms = "string \<Rightarrow> (order_side \<times> int) option"

definition activeOk :: "order_terms \<Rightarrow> (quote_key, managed_quote) rows \<Rightarrow> bool" where
  "activeOk trm t \<longleftrightarrow> uniqueKeys t \<and> (\<forall>(k, q) \<in> set t. trm (mq_id q) = Some (placeOf q))"

definition retiringOk :: "order_terms \<Rightarrow> (string, managed_quote) rows \<Rightarrow> bool" where
  "retiringOk trm t \<longleftrightarrow> (\<forall>(k, q) \<in> set t. mq_id q = k \<and> trm k = Some (placeOf q))"

definition guardsOk :: "order_terms \<Rightarrow> (string, preserved_quote) rows \<Rightarrow> bool" where
  "guardsOk trm t \<longleftrightarrow> (\<forall>(k, g) \<in> set t. trm k = Some (guardPlace g))"

definition activeIds :: "(quote_key, managed_quote) rows \<Rightarrow> string set" where
  "activeIds t = (mq_id \<circ> snd) ` set t"

definition mapsOk :: "order_terms \<Rightarrow> 'w maker \<Rightarrow> bool" where
  "mapsOk trm s \<longleftrightarrow> activeOk trm (mm_active s) \<and> retiringOk trm (mm_retiring s) \<and>
     guardsOk trm (mm_preserved s) \<and> guardsOk trm (mm_retirable s)"

text \<open>The ids the maker reckons with, when \<open>retirable\<close> is the map it was passed.\<close>

definition trackedIds :: "(string, preserved_quote) rows \<Rightarrow> 'w maker \<Rightarrow> string set" where
  "trackedIds retirable s =
     activeIds (mm_active s) \<union> fst ` set (mm_retiring s) \<union> fst ` set (mm_preserved s) \<union> fst ` set retirable"

definition uncrossed :: "order_terms \<Rightarrow> string set \<Rightarrow> bool" where
  "uncrossed trm ids \<longleftrightarrow>
     (\<forall>i \<in> ids. \<forall>j \<in> ids. \<forall>p q. trm i = Some (BUY, p) \<longrightarrow> trm j = Some (SELL, q) \<longrightarrow> p < q)"

lemma maps_mono:
  assumes "trm \<subseteq>\<^sub>m trm'"
  shows "activeOk trm a \<Longrightarrow> activeOk trm' a" and "retiringOk trm r \<Longrightarrow> retiringOk trm' r"
    and "guardsOk trm g \<Longrightarrow> guardsOk trm' g"
  using assms by (auto simp: activeOk_def retiringOk_def guardsOk_def map_le_def dom_def split_beta; metis)+

lemma mapsOk_mono: "trm \<subseteq>\<^sub>m trm' \<Longrightarrow> mapsOk trm s \<Longrightarrow> mapsOk trm' s"
  unfolding mapsOk_def by (blast intro: maps_mono)

lemma map_leD: "trm \<subseteq>\<^sub>m trm' \<Longrightarrow> trm i = Some x \<Longrightarrow> trm' i = Some x"
  by (auto simp: map_le_def dom_def)

lemma uncrossed_mono:
  assumes "uncrossed trm ids" "trm \<subseteq>\<^sub>m trm'" "ids' \<subseteq> ids" "ids \<subseteq> dom trm"
  shows "uncrossed trm' ids'"
proof -
  have eq: "trm' i = trm i" if "i \<in> ids'" for i
    using that assms(2-4) unfolding map_le_def by (metis subsetD)
  show ?thesis using assms(1,3) unfolding uncrossed_def by (auto simp: eq)
qed

lemma activeIds_put:
  assumes "uniqueKeys t" "findRow t k = c"
  shows "activeIds t \<subseteq> activeIds (putRow k q t) \<union> (case c of None \<Rightarrow> {} | Some x \<Rightarrow> {mq_id x})"
    and "mq_id q \<in> activeIds (putRow k q t)"
proof -
  show "mq_id q \<in> activeIds (putRow k q t)"
    using putRow_new [of k q t] unfolding activeIds_def by (metis comp_apply image_eqI snd_conv)
  show "activeIds t \<subseteq> activeIds (putRow k q t) \<union> (case c of None \<Rightarrow> {} | Some x \<Rightarrow> {mq_id x})"
  proof
    fix i assume "i \<in> activeIds t"
    then obtain j x where x: "(j, x) \<in> set t" "i = mq_id x" by (auto simp: activeIds_def)
    show "i \<in> activeIds (putRow k q t) \<union> (case c of None \<Rightarrow> {} | Some x \<Rightarrow> {mq_id x})"
    proof (cases "j = k")
      case True
      then have "c = Some x" using x assms findRow_unique by metis
      then show ?thesis using x by simp
    next
      case False
      then have "(j, x) \<in> set (putRow k q t)" using x by (blast intro: putRow_keeps)
      then show ?thesis using x unfolding activeIds_def by force
    qed
  qed
qed

lemma activeOk_put:
  "activeOk trm t \<Longrightarrow> trm (mq_id q) = Some (placeOf q) \<Longrightarrow> activeOk trm (putRow k q t)"
  using putRow_set [of k q t] unfolding activeOk_def by (auto intro: rows.wf_put)

lemma retiringOk_put:
  "retiringOk trm t \<Longrightarrow> mq_id q = k \<Longrightarrow> trm k = Some (placeOf q) \<Longrightarrow> retiringOk trm (putRow k q t)"
  using putRow_set [of k q t] unfolding retiringOk_def by auto

lemma guardsOk_put: "guardsOk trm t \<Longrightarrow> trm k = Some (guardPlace g) \<Longrightarrow> guardsOk trm (putRow k g t)"
  using putRow_set [of k g t] unfolding guardsOk_def by auto

lemma guardsOk_putAll: "guardsOk trm t \<Longrightarrow> guardsOk trm t' \<Longrightarrow> guardsOk trm (putAll t' t)"
  using putAll_set [of t' t] unfolding guardsOk_def by blast

lemma guardsOk_drop: "guardsOk trm t \<Longrightarrow> guardsOk trm (dropRow k t)"
  unfolding guardsOk_def by (auto simp: dropRow_set)

text \<open>A tracked id comes with its place.\<close>

lemma tracked_place:
  assumes "mapsOk trm s" "guardsOk trm retirable" "i \<in> trackedIds retirable s" "trm i = Some place"
  shows "place \<in> set (trackedQuotes retirable s)"
proof -
  from assms(3) consider (active) k q where "(k, q) \<in> set (mm_active s)" "i = mq_id q"
    | (retiring) q where "(i, q) \<in> set (mm_retiring s)"
    | (preserved) g where "(i, g) \<in> set (mm_preserved s)"
    | (retirable) g where "(i, g) \<in> set retirable"
    by (auto simp: trackedIds_def activeIds_def)
  then show ?thesis
  proof cases
    case active
    then have "place = placeOf q" using assms by (auto simp: mapsOk_def activeOk_def)
    then show ?thesis using active by (force simp: trackedQuotes_def)
  next
    case retiring
    then have "place = placeOf q" using assms by (auto simp: mapsOk_def retiringOk_def)
    then show ?thesis using retiring by (force simp: trackedQuotes_def)
  next
    case preserved
    then have "place = guardPlace g" using assms by (auto simp: mapsOk_def guardsOk_def)
    then show ?thesis using preserved by (force simp: trackedQuotes_def)
  next
    case retirable
    then have "place = guardPlace g" using assms by (auto simp: guardsOk_def)
    then show ?thesis using retirable by (force simp: trackedQuotes_def)
  qed
qed

section \<open>The interface to the exchange\<close>

text \<open>
  A world step that adds no live order; the terms of an order never change. \<open>ok\<close> is what the exchange
  keeps of its own data, \<open>load\<close> the number of orders it would report.
\<close>

definition quietly ::
  "('w \<Rightarrow> bool) \<Rightarrow> ('w \<Rightarrow> string set) \<Rightarrow> ('w \<Rightarrow> order_terms) \<Rightarrow> ('w \<Rightarrow> nat) \<Rightarrow> 'w \<Rightarrow> 'w \<Rightarrow> bool" where
  "quietly ok live trm load w w' \<longleftrightarrow> ok w' \<and> live w' \<subseteq> live w \<and> trm w \<subseteq>\<^sub>m trm w' \<and> load w' \<le> load w"

text \<open>An order that can trade: a limit order at a safe price with something left to fill.\<close>

definition resting :: "live_order \<Rightarrow> bool" where
  "resting o' \<longleftrightarrow> lo_type o' = LIMIT \<and> (\<exists>p. lo_price o' = Some p \<and> isSafePositive p) \<and> remainingQty o' > 0"

text \<open>A report is true, and complete unless it has 200 rows.\<close>

definition reported :: "order_terms \<Rightarrow> string set \<Rightarrow> live_order list \<Rightarrow> bool" where
  "reported trm ids l \<longleftrightarrow>
     (\<forall>o' \<in> set l. \<forall>p. lo_type o' = LIMIT \<longrightarrow> lo_price o' = Some p \<longrightarrow> trm (lo_id o') = Some (lo_side o', p)) \<and>
     (length l < 200 \<longrightarrow> (\<forall>i \<in> ids. \<exists>o' \<in> set l. lo_id o' = i \<and> resting o'))"

locale order_client =
  fixes client :: "'w client" and symbol :: string
    and ok :: "'w \<Rightarrow> bool" and live :: "'w \<Rightarrow> string set" and trm :: "'w \<Rightarrow> order_terms" and load :: "'w \<Rightarrow> nat"
  assumes known: "ok w \<Longrightarrow> live w \<subseteq> dom (trm w)"
    and place_ok: "ok w \<Longrightarrow> cl_placeOrder client symbol side price qty w = (Inr i, w') \<Longrightarrow>
      ok w' \<and> trm w' i = Some (side, price) \<and> trm w i = None \<and> trm w \<subseteq>\<^sub>m trm w' \<and> live w' \<subseteq> insert i (live w)"
    and place_failed: "ok w \<Longrightarrow> cl_placeOrder client symbol side price qty w = (Inl e, w') \<Longrightarrow> quietly ok live trm load w w'"
    and cancelled: "ok w \<Longrightarrow> cl_cancelOrder client i w = (r, w') \<Longrightarrow> quietly ok live trm load w w'"
    and looked: "ok w \<Longrightarrow> cl_myLiveOrders client symbol w = (l', w') \<Longrightarrow>
      quietly ok live trm load w w' \<and>
      (\<forall>l. l' = Inr l \<longrightarrow> length l \<le> load w' \<and> reported (trm w') (live w') l)"
    and viewed: "ok w \<Longrightarrow> cl_quoteState client symbol w = (view, w') \<Longrightarrow>
      quietly ok live trm load w w' \<and> (\<forall>l v. view = Inr (l, v) \<longrightarrow> reported (trm w') (live w') l)"
    and slept: "ok w \<Longrightarrow> quietly ok live trm load w (cl_sleep client ms w)"
    and answered: "set (cl_arrival client w qs) \<subseteq> set qs \<and> (distinct qs \<longrightarrow> distinct (cl_arrival client w qs))"
begin

definition base :: "'w maker \<Rightarrow> bool" where
  "base s \<longleftrightarrow> ok (mm_world s) \<and> mapsOk (trm (mm_world s)) s \<and> uncrossed (trm (mm_world s)) (live (mm_world s))"

definition covered :: "(string, preserved_quote) rows \<Rightarrow> 'w maker \<Rightarrow> bool" where
  "covered retirable s \<longleftrightarrow> base s \<and> guardsOk (trm (mm_world s)) retirable \<and>
     live (mm_world s) \<subseteq> trackedIds retirable s"

text \<open>When a quote may be sent: no live order of the other side can trade with it.\<close>

definition postable :: "liquidity_quote \<Rightarrow> managed_quote option \<Rightarrow> 'w maker \<Rightarrow> bool" where
  "postable desired current s \<longleftrightarrow> findRow (mm_active s) (quoteKey desired) = current \<and>
     (\<forall>i \<in> live (mm_world s). \<forall>place. trm (mm_world s) i = Some place \<longrightarrow>
        canAddWithoutSelfTrade (placeOf desired) [place])"

lemma postableD:
  "postable q c s \<Longrightarrow> i \<in> live (mm_world s) \<Longrightarrow> trm (mm_world s) i = Some place \<Longrightarrow>
     canAddWithoutSelfTrade (placeOf q) [place]"
  unfolding postable_def by blast

text \<open>The fields the requests leave alone, and the quotes \<open>P\<close> still to be sent with what they replace.\<close>

definition during ::
  "(string, preserved_quote) rows \<Rightarrow> (string, preserved_quote) rows \<times> bool \<Rightarrow>
     (liquidity_quote \<times> managed_quote option) set \<Rightarrow> 'w maker \<Rightarrow> bool" where
  "during retirable f P s \<longleftrightarrow> covered retirable s \<and> f = (mm_retirable s, mm_initialized s) \<and>
     (\<forall>(q, c) \<in> P. postable q c s)"

lemma quiet_base:
  assumes "base s" "quietly ok live trm load (mm_world s) w"
  shows "base (s\<lparr>mm_world := w\<rparr>)"
  using assms known [of "mm_world s"] uncrossed_mono mapsOk_mono [of _ _ s]
  unfolding base_def quietly_def by (auto simp: mapsOk_def intro: maps_mono)

lemma quiet_covered:
  assumes "covered retirable s" "quietly ok live trm load (mm_world s) w"
  shows "covered retirable (s\<lparr>mm_world := w\<rparr>)"
  using assms quiet_base [of s w] unfolding covered_def trackedIds_def
  by (auto simp: quietly_def intro: maps_mono(3))

lemma terms_kept: "ok w \<Longrightarrow> trm w \<subseteq>\<^sub>m trm w' \<Longrightarrow> i \<in> live w \<Longrightarrow> trm w' i = trm w i"
  using known unfolding map_le_def by (metis subsetD)

lemma quiet_postable:
  "ok (mm_world s) \<Longrightarrow> quietly ok live trm load (mm_world s) w \<Longrightarrow> postable q c s \<Longrightarrow> postable q c (s\<lparr>mm_world := w\<rparr>)"
proof -
  assume k: "ok (mm_world s)" and w: "quietly ok live trm load (mm_world s) w" and p: "postable q c s"
  have "canAddWithoutSelfTrade (placeOf q) [place]" if "i \<in> live w" "trm w i = Some place" for i place
  proof -
    have i: "i \<in> live (mm_world s)" using that w by (auto simp: quietly_def)
    have "trm (mm_world s) i = Some place" using terms_kept [OF k _ i, of w] w that by (simp add: quietly_def)
    then show ?thesis using postableD [OF p i] by blast
  qed
  moreover have "findRow (mm_active s) (quoteKey q) = c" using p by (simp add: postable_def)
  ultimately show ?thesis unfolding postable_def by simp
qed

lemma quiet_during:
  "during retirable f P s \<Longrightarrow> quietly ok live trm load (mm_world s) w \<Longrightarrow> during retirable f P (s\<lparr>mm_world := w\<rparr>)"
proof -
  assume D: "during retirable f P s" and w: "quietly ok live trm load (mm_world s) w"
  then have "ok (mm_world s)" by (simp add: during_def covered_def base_def)
  then have "\<forall>(q, c) \<in> P. postable q c (s\<lparr>mm_world := w\<rparr>)"
    using D w quiet_postable unfolding during_def by blast
  then show ?thesis using D w quiet_covered [of retirable s w] by (simp add: during_def)
qed

lemma during_ok: "during retirable f P s \<Longrightarrow> ok (mm_world s)"
  by (simp add: during_def covered_def base_def)

lemma during_call:
  assumes "\<And>w r w'. ok w \<Longrightarrow> f w = (r, w') \<Longrightarrow> quietly ok live trm load w w'"
  shows "triple (during retirable g P) (callS f) (\<lambda>_. during retirable g P) (during retirable g P)"
  by (rule tripleI)
    (auto simp: callS_def split: prod.splits intro!: quiet_during intro: assms during_ok)

lemma during_cancelS: "triple (during retirable g P) (cancelS client i) (\<lambda>_. during retirable g P) (during retirable g P)"
  unfolding cancelS_def
  by (intro triple_catchS [where R = "during retirable g P"] during_call triple_if triple_returnS triple_throwS)
    (auto intro: cancelled)

lemma during_sleepS: "triple (during retirable g P) (sleepS client ms) (\<lambda>_. during retirable g P) E"
  unfolding sleepS_def
  by (rule triple_changeS) (auto intro!: quiet_during slept intro: during_ok)

lemma canAdd_iff:
  "canAddWithoutSelfTrade c existing \<longleftrightarrow> (\<forall>x \<in> set existing. canAddWithoutSelfTrade c [x])"
  by (auto simp: canAddWithoutSelfTrade_def list_all_iff)

lemma wanted_postable:
  assumes "covered retirable s" "wantsQuote retirable desired s"
  shows "postable desired (findRow (mm_active s) (quoteKey desired)) s"
proof -
  have "place \<in> set (trackedQuotes retirable s)" if "i \<in> live (mm_world s)" "trm (mm_world s) i = Some place" for i place
    using assms(1) that by (intro tracked_place [of "trm (mm_world s)" s retirable i]) (auto simp: covered_def base_def)
  then show ?thesis using assms(2) canAdd_iff [of "placeOf desired"]
    unfolding postable_def wantsQuote_def by blast
qed

text \<open>After the API accepted a quote: the new id is not tracked yet.\<close>

definition accepted ::
  "(string, preserved_quote) rows \<Rightarrow> (string, preserved_quote) rows \<times> bool \<Rightarrow>
     (liquidity_quote \<times> managed_quote option) set \<Rightarrow> liquidity_quote \<Rightarrow> managed_quote option \<Rightarrow>
     string \<Rightarrow> 'w maker \<Rightarrow> bool" where
  "accepted retirable f P desired current i s \<longleftrightarrow> base s \<and> guardsOk (trm (mm_world s)) retirable \<and>
     live (mm_world s) \<subseteq> insert i (trackedIds retirable s) \<and> trm (mm_world s) i = Some (placeOf desired) \<and>
     findRow (mm_active s) (quoteKey desired) = current \<and> f = (mm_retirable s, mm_initialized s) \<and>
     (\<forall>(q, c) \<in> P. postable q c s)"

text \<open>Quotes of the same side and of other levels do not get in each other's way.\<close>

definition sideBySide :: "liquidity_quote \<Rightarrow> (liquidity_quote \<times> managed_quote option) set \<Rightarrow> bool" where
  "sideBySide desired P \<longleftrightarrow> (\<forall>(q, c) \<in> P. lq_side q = lq_side desired \<and> quoteKey q \<noteq> quoteKey desired)"

lemma place_accepted:
  assumes "during retirable f P s" "postable desired current s" "sideBySide desired P"
    and "cl_placeOrder client symbol (lq_side desired) (lq_price desired) qty (mm_world s) = (Inr i, w)"
  shows "accepted retirable f P desired current i (s\<lparr>mm_world := w\<rparr>)"
proof -
  let ?w = "mm_world s"
  from assms(1) have b: "base s" and g: "guardsOk (trm ?w) retirable" and t: "live ?w \<subseteq> trackedIds retirable s"
    and f: "f = (mm_retirable s, mm_initialized s)" by (auto simp: during_def covered_def)
  from b have "ok ?w" by (simp add: base_def)
  from place_ok [OF this assms(4)] have w: "ok w" "trm w i = Some (placeOf desired)" "trm ?w i = None"
    "trm ?w \<subseteq>\<^sub>m trm w" "live w \<subseteq> insert i (live ?w)" by (auto simp: placeOf_def)
  have same: "trm w j = trm ?w j" if "j \<in> live ?w" for j
    using terms_kept [OF \<open>ok ?w\<close> w(4) that] .
  have new: "canAddWithoutSelfTrade (placeOf desired) [place]" if "j \<in> live ?w" "trm w j = Some place" for j place
    using that assms(2) same [OF that(1)] unfolding postable_def by metis
  have "uncrossed (trm w) (live w)"
    unfolding uncrossed_def
  proof (intro ballI allI impI)
    fix j k p q assume jk: "j \<in> live w" "k \<in> live w" "trm w j = Some (BUY, p)" "trm w k = Some (SELL, q)"
    show "p < q"
    proof (cases "j = i")
      case True
      then have "k \<in> live ?w" using jk w by auto
      then show ?thesis using new jk w(2) True by (fastforce simp: canAddWithoutSelfTrade_def)
    next
      case False
      then have j: "j \<in> live ?w" using jk w(5) by auto
      show ?thesis
      proof (cases "k = i")
        case True
        then show ?thesis using new [OF j jk(3)] jk w(2) by (fastforce simp: canAddWithoutSelfTrade_def)
      next
        case False
        then have "k \<in> live ?w" using jk w(5) by auto
        then show ?thesis using j jk b unfolding base_def uncrossed_def by (auto simp: same)
      qed
    qed
  qed
  moreover have "mapsOk (trm w) (s\<lparr>mm_world := w\<rparr>)"
    using b mapsOk_mono [OF w(4), of s] by (simp add: base_def mapsOk_def)
  moreover have "postable q c (s\<lparr>mm_world := w\<rparr>)" if "(q, c) \<in> P" for q c
  proof -
    have old: "postable q c s" and side: "lq_side q = lq_side desired"
      using that assms(1,3) by (auto simp: during_def sideBySide_def)
    show ?thesis unfolding postable_def
    proof (intro conjI ballI allI impI)
      show "findRow (mm_active (s\<lparr>mm_world := w\<rparr>)) (quoteKey q) = c" using old by (simp add: postable_def)
      fix j place assume j: "j \<in> live (mm_world (s\<lparr>mm_world := w\<rparr>))" "trm (mm_world (s\<lparr>mm_world := w\<rparr>)) j = Some place"
      show "canAddWithoutSelfTrade (placeOf q) [place]"
      proof (cases "j = i")
        case True
        then show ?thesis using j w(2) side by (auto simp: placeOf_def canAddWithoutSelfTrade_def)
      next
        case False
        then have "j \<in> live ?w" using j w(5) by auto
        then show ?thesis using j postableD [OF old, of j place] same [of j] by simp
      qed
    qed
  qed
  ultimately show ?thesis
    using assms(2) w t f maps_mono(3) [OF w(4) g]
    by (auto simp: accepted_def base_def postable_def trackedIds_def)
qed

lemma post_triple:
  assumes "sideBySide desired P"
  shows "triple (\<lambda>s. during retirable f P s \<and> postable desired current s) (postQuote client symbol desired current)
     (\<lambda>_. during retirable f P) (during retirable f P)"
proof -
  let ?D = "during retirable f P"
  let ?A = "accepted retirable f P desired current"
  have place: "triple (\<lambda>s. ?D s \<and> postable desired current s)
      (callS (cl_placeOrder client symbol (lq_side desired) (lq_price desired) (lq_qty desired))) ?A ?D"
    by (rule tripleI)
      (auto simp: callS_def split: prod.splits intro: place_accepted quiet_during place_failed during_ok assms)
  define placed where "placed p s = (case p of None \<Rightarrow> ?D s | Some i \<Rightarrow> ?A i s)" for p s
  have sent: "triple (\<lambda>s. ?D s \<and> postable desired current s)
      (catchS (bindS (callS (cl_placeOrder client symbol (lq_side desired) (lq_price desired) (lq_qty desired)))
                     (\<lambda>i. returnS (Some i)))
              (\<lambda>e. if isRejection e then returnS None else throwS e)) placed ?D"
    by (rule triple_catchS [where R = ?D])
      (auto intro!: triple_bindS [OF place] triple_returnS triple_throwS triple_if simp: placed_def)
  define replaced where
    "replaced s \<longleftrightarrow> base s \<and> guardsOk (trm (mm_world s)) retirable \<and> f = (mm_retirable s, mm_initialized s) \<and>
       (\<forall>(q, c) \<in> P. postable q c s) \<and>
       (case current of None \<Rightarrow> live (mm_world s) \<subseteq> trackedIds retirable s
        | Some c \<Rightarrow> trm (mm_world s) (mq_id c) = Some (placeOf c) \<and>
            live (mm_world s) \<subseteq> insert (mq_id c) (trackedIds retirable s))" for s
  have active: "triple (?A i)
      (changeS (\<lambda>s. s\<lparr>mm_active := putRow (quoteKey desired) (managed desired i False) (mm_active s)\<rparr>)) (\<lambda>_. replaced) ?D" for i
  proof (rule triple_changeS)
    fix s assume A: "?A i s"
    let ?m = "managed desired i False"
    have u: "uniqueKeys (mm_active s)" and c: "findRow (mm_active s) (quoteKey desired) = current"
      using A by (auto simp: accepted_def base_def mapsOk_def activeOk_def)
    have m: "mq_id ?m = i" "placeOf ?m = placeOf desired" by (simp_all add: managed_def placeOf_def)
    have "activeOk (trm (mm_world s)) (putRow (quoteKey desired) ?m (mm_active s))"
      using A m by (intro activeOk_put) (auto simp: accepted_def base_def mapsOk_def)
    moreover have "trm (mm_world s) (mq_id x) = Some (placeOf x)" if "current = Some x" for x
      using A c that findRow_in_set [of "mm_active s" "quoteKey desired" x]
      by (auto simp: accepted_def base_def mapsOk_def activeOk_def)
    moreover have "postable q c (s\<lparr>mm_active := putRow (quoteKey desired) ?m (mm_active s)\<rparr>)" if "(q, c) \<in> P" for q c
    proof -
      have "postable q c s" "quoteKey desired \<noteq> quoteKey q"
        using A that assms by (auto simp: accepted_def sideBySide_def)
      then show ?thesis unfolding postable_def by simp
    qed
    ultimately show "replaced (s\<lparr>mm_active := putRow (quoteKey desired) ?m (mm_active s)\<rparr>)"
      using A activeIds_put [OF u c, of ?m] m
      by (auto simp: replaced_def accepted_def base_def mapsOk_def trackedIds_def split: option.splits)
  qed
  have retire: "triple (\<lambda>s. replaced s \<and> current = Some c)
      (changeS (\<lambda>s. s\<lparr>mm_retiring := putRow (mq_id c) c (mm_retiring s)\<rparr>)) (\<lambda>_. ?D) ?D" for c
    by (rule triple_changeS)
      (auto simp: replaced_def during_def covered_def base_def mapsOk_def trackedIds_def putRow_keys postable_def
        intro!: retiringOk_put)
  have rest: "triple (placed p) (case p of None \<Rightarrow> returnS ()
      | Some i \<Rightarrow> bindS (changeS (\<lambda>s. s\<lparr>mm_active := putRow (quoteKey desired) (managed desired i False) (mm_active s)\<rparr>)) (\<lambda>_.
         case current of None \<Rightarrow> returnS ()
         | Some c \<Rightarrow> bindS (changeS (\<lambda>s. s\<lparr>mm_retiring := putRow (mq_id c) c (mm_retiring s)\<rparr>)) (\<lambda>_.
             cancelS client (mq_id c)))) (\<lambda>_. ?D) ?D" for p
  proof (cases p)
    case (Some i)
    have "triple replaced (case current of None \<Rightarrow> returnS ()
         | Some c \<Rightarrow> bindS (changeS (\<lambda>s. s\<lparr>mm_retiring := putRow (mq_id c) c (mm_retiring s)\<rparr>)) (\<lambda>_.
             cancelS client (mq_id c))) (\<lambda>_. ?D) ?D"
    proof (cases current)
      case None
      then show ?thesis by (auto intro!: triple_returnS simp: replaced_def during_def covered_def)
    next
      case (Some c)
      have "triple (\<lambda>s. replaced s \<and> current = Some c)
          (bindS (changeS (\<lambda>s. s\<lparr>mm_retiring := putRow (mq_id c) c (mm_retiring s)\<rparr>)) (\<lambda>_. cancelS client (mq_id c)))
          (\<lambda>_. ?D) ?D"
        by (rule triple_bindS [OF retire during_cancelS])
      then show ?thesis using Some by (auto elim: triple_weaken)
    qed
    from triple_bindS [OF active this] show ?thesis by (simp add: Some placed_def [abs_def])
  qed (auto simp: placed_def intro!: triple_returnS)
  show ?thesis unfolding postQuote_def by (rule triple_bindS [OF sent rest])
qed

lemma replace_triple:
  "triple (during retirable f {}) (replaceQuote client symbol retirable desired)
     (\<lambda>_. during retirable f {}) (during retirable f {})"
proof (rule triple_state)
  fix s assume D: "during retirable f {} s"
  show "triple (\<lambda>t. t = s) (replaceQuote client symbol retirable desired) (\<lambda>_. during retirable f {}) (during retirable f {})"
  proof (cases "wantsQuote retirable desired s")
    case True
    then have "postable desired (findRow (mm_active s) (quoteKey desired)) s"
      using D by (auto simp: during_def intro: wanted_postable)
    then show ?thesis
      using post_triple [of desired "{}" retirable f "findRow (mm_active s) (quoteKey desired)"] D True
      by (auto simp: triple_def replaceQuote_def sideBySide_def)
  next
    case False
    then show ?thesis using D by (simp add: triple_def replaceQuote_def)
  qed
qed

lemma refreshLevel_triple:
  "triple (during retirable f {}) (refreshLevel client symbol plan retirable centerDirection c level)
     (\<lambda>_. during retirable f {}) (during retirable f {})"
  unfolding refreshLevel_def Let_def
  by (intro triple_eachS triple_catchS [where R = "during retirable f {}"] replace_triple triple_if triple_returnS triple_throwS)

lemma refresh_triple:
  "triple (during retirable f {}) (refreshWholeLadder client symbol plan retirable centerDirection c)
     (\<lambda>_. during retirable f {}) (during retirable f {})"
  unfolding refreshWholeLadder_def by (intro triple_eachS refreshLevel_triple)

text \<open>Requests sent side by side.\<close>

lemma posts_triple:
  assumes "distinct (map quoteKey qs)" and "\<forall>q \<in> set qs. lq_side q = side"
  shows "triple (during retirable f ((\<lambda>q. (q, current q)) ` set qs))
     (eachS (\<lambda>q u. catchS (postQuote client symbol q (current q)) (\<lambda>e. returnS ())) qs u)
     (\<lambda>_. during retirable f {}) (during retirable f {})"
  using assms
proof (induction qs arbitrary: u)
  case Nil
  then show ?case unfolding eachS.simps list.set image_empty by (intro triple_returnS)
next
  case (Cons q qs)
  let ?P = "(\<lambda>q. (q, current q)) ` set qs"
  have "sideBySide q ?P" using Cons.prems unfolding sideBySide_def by (auto simp: image_iff)
  from post_triple [OF this]
  have "triple (\<lambda>s. during retirable f ?P s \<and> postable q (current q) s) (postQuote client symbol q (current q))
      (\<lambda>_. during retirable f ?P) (during retirable f ?P)" .
  from triple_catchS [OF this, of "\<lambda>e. returnS ()" "during retirable f {}"]
  have "triple (\<lambda>s. during retirable f ?P s \<and> postable q (current q) s)
      (catchS (postQuote client symbol q (current q)) (\<lambda>e. returnS ()))
      (\<lambda>_. during retirable f ?P) (during retirable f {})" by (simp add: triple_returnS)
  then have "triple (during retirable f ((\<lambda>q. (q, current q)) ` set (q # qs)))
      (catchS (postQuote client symbol q (current q)) (\<lambda>e. returnS ()))
      (\<lambda>_. during retirable f ?P) (during retirable f {})"
    by (rule triple_weaken) (auto simp: during_def)
  then show ?case unfolding eachS.simps by (rule triple_bindS) (rule Cons.IH, use Cons.prems in simp_all)
qed

lemma sorted_keys: "distinct (map g xs) \<Longrightarrow> distinct (map g (sort_key f (filter p xs)))"
  by (simp add: distinct_map inj_on_def)

lemma planSide_triple:
  assumes "distinct (map quoteKey plan)"
  shows "triple (\<lambda>s. during (fst f) f {} s) (refreshPlanSide client symbol plan side)
    (\<lambda>_. during (fst f) f {}) (during (fst f) f {})"
proof (rule triple_state)
  fix s assume D: "during (fst f) f {} s"
  define wanted where
    "wanted = filter (\<lambda>q. wantsQuote (mm_retirable s) q s) (sort_key lq_level (filter (\<lambda>q. lq_side q = side) plan))"
  define qs where "qs = cl_arrival client (mm_world s) wanted"
  let ?c = "\<lambda>q. findRow (mm_active s) (quoteKey q)"
  have dw: "distinct (map quoteKey wanted)"
    using distinct_map_filter [OF sorted_keys [OF assms]] unfolding wanted_def by blast
  have qs: "set qs \<subseteq> set wanted" "distinct qs"
    using answered [of "mm_world s" wanted] dw unfolding qs_def by (auto simp: distinct_map)
  then have dq: "distinct (map quoteKey qs)" using dw by (auto simp: distinct_map intro: inj_on_subset)
  have sq: "\<forall>q \<in> set qs. lq_side q = side" using qs(1) by (auto simp: wanted_def)
  have r: "fst f = mm_retirable s" using D by (simp add: during_def)
  have "during (fst f) f ((\<lambda>q. (q, ?c q)) ` set qs) s"
    using D qs(1) wanted_postable [of "fst f" s] by (auto simp: during_def wanted_def r)
  then show "triple (\<lambda>t. t = s) (refreshPlanSide client symbol plan side) (\<lambda>_. during (fst f) f {}) (during (fst f) f {})"
    using posts_triple [OF dq sq, of "fst f" f ?c "()"]
    by (simp add: triple_def refreshPlanSide_def Let_def wanted_def qs_def)
qed

lemma advance_triple:
  assumes "distinct (map quoteKey plan)"
  shows "triple (during (fst f) f {}) (advanceStagedQuoteMigration client symbol plan migration)
    (\<lambda>_. during (fst f) f {}) (during (fst f) f {})"
proof (rule triple_state)
  fix s assume D: "during (fst f) f {} s"
  have side: "triple (\<lambda>t. t = s) (bindS (refreshPlanSide client symbol plan side) (\<lambda>_. returnS x))
      (\<lambda>_. during (fst f) f {}) (during (fst f) f {})" for side and x :: migration_progress
  proof -
    have "triple (\<lambda>t. t = s) (refreshPlanSide client symbol plan side) (\<lambda>_. during (fst f) f {}) (during (fst f) f {})"
      by (rule triple_weaken [OF planSide_triple [OF assms, of f side]]) (auto simp: D)
    then show ?thesis by (rule triple_bindS) (rule triple_returnS)
  qed
  show "triple (\<lambda>t. t = s) (advanceStagedQuoteMigration client symbol plan migration)
      (\<lambda>_. during (fst f) f {}) (during (fst f) f {})"
    using side D by (auto simp: triple_def advanceStagedQuoteMigration_def Let_def)
qed

end

end
