(* ===== verification/Maker_Safety.thy ===== *)
theory Maker_Safety
  imports Maker_Props
begin

text \<open>
  The market maker from its start on: adopting, remapping, reconciling and the turn of the loop keep
  every live order tracked.
\<close>

section \<open>Plans\<close>

lemma levelQuotes_keys:
  "distinct (map quoteKey (levelQuotes def center bidQty askQty level))"
  "quoteKey ` set (levelQuotes def center bidQty askQty level) \<subseteq> {(BUY, int level), (SELL, int level)}"
  by (auto simp: levelQuotes_def Let_def liquidityQuote_def quoteKey_def)

lemma ladder_keys:
  "distinct levels \<Longrightarrow> distinct (map quoteKey (concat (map (levelQuotes def center bidQty askQty) levels)))"
proof (induction levels)
  case (Cons l levels)
  let ?q = "levelQuotes def center bidQty askQty"
  have "quoteKey ` set (?q l) \<inter> quoteKey ` set (concat (map ?q levels)) = {}"
  proof (rule ccontr)
    assume "\<not> ?thesis"
    then obtain k m where k: "k \<in> quoteKey ` set (?q l)" and m: "m \<in> set levels" "k \<in> quoteKey ` set (?q m)" by auto
    have "k \<in> {(BUY, int l), (SELL, int l)}" "k \<in> {(BUY, int m), (SELL, int m)}"
      using subsetD [OF levelQuotes_keys(2) k] subsetD [OF levelQuotes_keys(2) m(2)] .
    then have "int l = int m" by auto
    then show False using m(1) Cons.prems by simp
  qed
  then show ?case using Cons levelQuotes_keys(1) by simp
qed simp

lemma ladderLevels_distinct: "distinct ladderLevels"
  by (simp add: ladderLevels_def)

lemma base_keys:
  assumes "buildBaseLiquidityLadder def c = Inr plan"
  shows "distinct (map quoteKey plan)"
proof -
  from assms obtain center where "plan = concat (map (levelQuotes def center (liquidityQtyByLevelForSymbol def center)
      (liquidityQtyByLevelForSymbol def center)) ladderLevels)"
    unfolding buildBaseLiquidityLadder_def Let_def by (auto elim!: bindE_InrE)
  then show ?thesis using ladder_keys [OF ladderLevels_distinct] by blast
qed

lemma guard_keys:
  assumes "buildGuardAwareLiquidityLadder def c preserved = Inr (Some l)"
  shows "distinct (map quoteKey (gl_quotes l))"
proof -
  from assms obtain center bidQty askQty where "gl_quotes l = concat (map (levelQuotes def center bidQty askQty) ladderLevels)"
    unfolding buildGuardAwareLiquidityLadder_def Let_def by (elim bindE_InrE) (auto split: option.splits)
  then show ?thesis using ladder_keys [OF ladderLevels_distinct] by simp
qed

lemma plan_keys:
  assumes "planFor def center preserved = Inr plan"
  shows "distinct (map quoteKey plan)"
proof -
  from assms have "buildLiquidityLadder def (of_int center) preserved = Inr (Some plan)"
    by (auto simp: planFor_def result_iffs)
  then show ?thesis
    unfolding buildLiquidityLadder_def Let_def by (auto split: if_splits elim!: bindE_InrE intro: base_keys guard_keys)
qed

lemma marketPlan_keys: "buildMarketMakerPlan def center budgeted = Inr plan \<Longrightarrow> distinct (map quoteKey plan)"
  unfolding buildMarketMakerPlan_def by (rule plan_keys)

section \<open>Remapping\<close>

lemma putRow_set_eq: "uniqueKeys t \<Longrightarrow> set (putRow k v t) = insert (k, v) {x \<in> set t. fst x \<noteq> k}"
proof (induction t)
  case (Cons x t)
  then show ?case by (cases x) (auto simp: putRow_def uniqueKeys_def image_iff)
qed (simp add: putRow_def)

text \<open>Id and place of the quotes in a list of groups.\<close>

definition marks :: "managed_quote set \<Rightarrow> (string \<times> order_side \<times> int) set" where
  "marks qs = (\<lambda>q. (mq_id q, placeOf q)) ` qs"

definition grouped :: "(quote_key, managed_quote list) rows \<Rightarrow> managed_quote set" where
  "grouped groups = \<Union> (set ` snd ` set groups)"

lemma grouped_put:
  "uniqueKeys groups \<Longrightarrow> grouped (putRow k l groups) = set l \<union> \<Union> (set ` snd ` {x \<in> set groups. fst x \<noteq> k})"
  by (auto simp: grouped_def putRow_set_eq)

lemma rows_split:
  assumes "uniqueKeys t"
  shows "set t = (case findRow t k of None \<Rightarrow> {} | Some v \<Rightarrow> {(k, v)}) \<union> {x \<in> set t. fst x \<noteq> k}"
proof (cases "findRow t k")
  case None
  then have "k \<notin> fst ` set t" by (simp add: findRow_def map_of_eq_None_iff)
  then have "\<forall>x \<in> set t. fst x \<noteq> k" by blast
  then show ?thesis using None by auto
next
  case (Some v)
  then have own: "(k, w) \<in> set t \<longleftrightarrow> w = v" for w using findRow_unique [OF assms, of k w] by auto
  have "x \<in> set t \<longleftrightarrow> x = (k, v) \<or> x \<in> set t \<and> fst x \<noteq> k" for x
    using own [of "snd x"] by (cases x) auto
  then have "set t = {(k, v)} \<union> {x \<in> set t. fst x \<noteq> k}" by blast
  then show ?thesis unfolding Some option.case .
qed

lemma grouped_split:
  assumes "uniqueKeys groups"
  shows "grouped groups = (case findRow groups k of None \<Rightarrow> {} | Some l \<Rightarrow> set l) \<union> \<Union> (set ` snd ` {x \<in> set groups. fst x \<noteq> k})"
proof -
  let ?rest = "{x \<in> set groups. fst x \<noteq> k}"
  have "grouped groups = \<Union> (set ` snd ` ((case findRow groups k of None \<Rightarrow> {} | Some v \<Rightarrow> {(k, v)}) \<union> ?rest))"
    unfolding grouped_def by (rule arg_cong [OF rows_split [OF assms]])
  then show ?thesis by (cases "findRow groups k") simp_all
qed

lemma group_fold:
  "uniqueKeys groups \<Longrightarrow> uniqueKeys (fold groupQuote qs groups) \<and> grouped (fold groupQuote qs groups) = set qs \<union> grouped groups"
proof (induction qs arbitrary: groups)
  case (Cons q qs)
  have u: "uniqueKeys (groupQuote q groups)" using Cons.prems by (simp add: groupQuote_def rows.wf_put)
  have "grouped (groupQuote q groups) = insert q (grouped groups)"
    using Cons.prems grouped_split [OF Cons.prems, of "placeOf q"]
    by (auto simp: groupQuote_def grouped_put split: option.splits)
  then show ?case using Cons.IH [OF u] by simp
qed simp

lemma reused_marks [simp]: "mq_id (reused st d c) = mq_id c" "placeOf (reused st d c) = placeOf c"
  by (simp_all add: reused_def placeOf_def)

lemma remap_fold:
  assumes "uniqueKeys groups" "uniqueKeys remapped" "distinct (map quoteKey plan)"
    and "fst ` set remapped \<inter> quoteKey ` set plan = {}"
    and "fold (remapQuote strict) plan (groups, remapped) = (groups', remapped')"
  shows "uniqueKeys groups' \<and> uniqueKeys remapped' \<and>
    marks (grouped groups' \<union> snd ` set remapped') = marks (grouped groups \<union> snd ` set remapped)"
  using assms
proof (induction plan arbitrary: groups remapped)
  case (Cons d plan)
  obtain g r where step: "remapQuote strict d (groups, remapped) = (g, r)" by (cases "remapQuote strict d (groups, remapped)")
  have IH: "uniqueKeys groups' \<and> uniqueKeys remapped' \<and>
      marks (grouped groups' \<union> snd ` set remapped') = marks (grouped g \<union> snd ` set r)"
    if "uniqueKeys g" "uniqueKeys r" "fst ` set r \<subseteq> insert (quoteKey d) (fst ` set remapped)"
  proof (rule Cons.IH [OF that(1,2)])
    show "distinct (map quoteKey plan)" using Cons.prems(3) by simp
    have "fst ` set r \<inter> quoteKey ` set plan \<subseteq> insert (quoteKey d) (fst ` set remapped) \<inter> quoteKey ` set plan"
      using that(3) by (rule Int_mono) simp
    also have "\<dots> \<subseteq> {}" using Cons.prems(3,4) by (simp add: Int_insert_left Int_insert_right split: if_splits)
    finally show "fst ` set r \<inter> quoteKey ` set plan = {}" by simp
    show "fold (remapQuote strict) plan (g, r) = (groups', remapped')" using Cons.prems(5) step by simp
  qed
  show ?case
  proof (cases "findRow groups (placeOf d)")
    case None
    then have "g = groups" "r = remapped" using step by (simp_all add: remapQuote_def)
    then show ?thesis using IH Cons.prems by blast
  next
    case (Some l)
    show ?thesis
    proof (cases l)
      case Nil
      then have "g = groups" "r = remapped" using step Some by (simp_all add: remapQuote_def)
      then show ?thesis using IH Cons.prems by blast
    next
      case (Cons c rest)
      then have g: "g = putRow (placeOf d) rest groups" and r: "r = putRow (quoteKey d) (reused strict d c) remapped"
        using step Some by (simp_all add: remapQuote_def)
      have new: "quoteKey d \<notin> fst ` set remapped" using Cons.prems by auto
      then have "\<forall>x \<in> set remapped. fst x \<noteq> quoteKey d" by (metis imageI)
      then have "{x \<in> set remapped. fst x \<noteq> quoteKey d} = set remapped" by blast
      then have "set r = insert (quoteKey d, reused strict d c) (set remapped)"
        using Cons.prems by (simp add: r putRow_set_eq)
      moreover have "insert c (grouped g) = grouped groups"
        using Cons.prems Some Cons grouped_split [OF Cons.prems(1), of "placeOf d"] by (auto simp: g grouped_put)
      ultimately have "marks (grouped g \<union> snd ` set r) = marks (grouped groups \<union> snd ` set remapped)"
      proof -
        assume g': "insert c (grouped g) = grouped groups"
          and r': "set r = insert (quoteKey d, reused strict d c) (set remapped)"
        have "marks (grouped g \<union> snd ` set r) = marks (insert c (grouped g)) \<union> marks (snd ` set remapped)"
          by (simp add: marks_def r' image_Un)
        then show ?thesis by (simp add: g' marks_def image_Un)
      qed
      moreover have "uniqueKeys g" "uniqueKeys r" "fst ` set r \<subseteq> insert (quoteKey d) (fst ` set remapped)"
        using Cons.prems(1,2) by (simp_all add: g r rows.wf_put putRow_keys)
      ultimately show ?thesis using IH by simp
    qed
  qed
qed simp

lemma remap_marks:
  assumes "distinct (map quoteKey plan)" "remapActiveQuotesForPlan active plan strict = (active', superseded)"
  shows "uniqueKeys active'" and "marks (set superseded \<union> snd ` set active') = marks (snd ` set active)"
proof -
  let ?g = "fold groupQuote (map snd active) []"
  obtain g r where f: "fold (remapQuote strict) plan (?g, []) = (g, r)" by (cases "fold (remapQuote strict) plan (?g, [])")
  have u: "uniqueKeys ?g" "grouped ?g = snd ` set active" using group_fold [of "[]" "map snd active"] by (auto simp: grouped_def)
  have a: "active' = r" "superseded = concat (map snd g)" using assms(2) f by (simp_all add: remapActiveQuotesForPlan_def Let_def)
  have s: "set superseded = grouped g" by (auto simp: a grouped_def)
  from remap_fold [OF u(1) _ assms(1) _ f] u(2)
  show "uniqueKeys active'" "marks (set superseded \<union> snd ` set active') = marks (snd ` set active)" by (simp_all add: a(1) s)
qed

lemma fold_putRow_keys: "fst ` set (fold (\<lambda>q. putRow (f q) (g q)) qs t) = f ` set qs \<union> fst ` set t"
  by (induction qs arbitrary: t) (auto simp: putRow_keys)

lemma fold_putRow_ok:
  "\<forall>q \<in> set qs. trm (f q) = Some (guardPlace (g q)) \<Longrightarrow> guardsOk trm t \<Longrightarrow>
     guardsOk trm (fold (\<lambda>q. putRow (f q) (g q)) qs t)"
  by (induction qs arbitrary: t) (auto intro: guardsOk_put)

lemma fold_putRow_unique: "uniqueKeys t \<Longrightarrow> uniqueKeys (fold (\<lambda>q. putRow (f q) (g q)) qs t)"
  by (induction qs arbitrary: t) (auto intro: rows.wf_put)

lemma fold_putRow_rows: "x \<in> set (fold (\<lambda>q. putRow (f q) (g q)) qs []) \<Longrightarrow> \<exists>q \<in> set qs. x = (f q, g q)"
proof -
  have "set (fold (\<lambda>q. putRow (f q) (g q)) qs t) \<subseteq> (\<lambda>q. (f q, g q)) ` set qs \<union> set t" for t
  proof (induction qs arbitrary: t)
    case (Cons q qs)
    show ?case using Cons.IH [of "putRow (f q) (g q) t"] putRow_set [of "f q" "g q" t] by auto
  qed simp
  from this [of "[]"] show "x \<in> set (fold (\<lambda>q. putRow (f q) (g q)) qs []) \<Longrightarrow> \<exists>q \<in> set qs. x = (f q, g q)" by auto
qed

section \<open>Reconciling\<close>

lemma liveById_known: "findRow (liveById orders) i \<noteq> None \<longleftrightarrow> i \<in> lo_id ` set orders"
  using fold_putRow_keys [of lo_id "\<lambda>o'. o'" orders "[]"]
  by (simp add: liveById_def findRow_def map_of_eq_None_iff)

lemma keepManaged_some: "keepManaged orders (k, q) = Some x \<Longrightarrow> \<exists>n. x = (k, q\<lparr>lq_qty := n\<rparr>)"
  by (auto simp: keepManaged_def split: option.splits if_splits intro: exI [of _ "lq_qty q"])

lemma keepGuard_some: "keepGuard orders (k, g) = Some x \<Longrightarrow> \<exists>n. x = (k, g\<lparr>pq_qty := n\<rparr>)"
  by (auto simp: keepGuard_def split: option.splits if_splits intro: exI [of _ "pq_qty g"])

lemma kept:
  assumes "length orders < 200 \<longrightarrow> i \<in> lo_id ` set orders"
  shows "mq_id q = i \<Longrightarrow> keepManaged orders (k, q) \<noteq> None" and "keepGuard orders (i, g) \<noteq> None"
  using assms liveById_known [of orders i] by (auto simp: keepManaged_def keepGuard_def split: option.splits)

lemma set_map_filter: "set (List.map_filter f xs) = {y. \<exists>x \<in> set xs. f x = Some y}"
  by (force simp: List.map_filter_def)

lemma keepManaged_rows:
  assumes "x \<in> set (List.map_filter (keepManaged orders) t)"
  obtains q n where "(fst x, q) \<in> set t" "snd x = q\<lparr>lq_qty := n\<rparr>"
proof -
  from assms obtain y where y: "y \<in> set t" "keepManaged orders y = Some x" unfolding set_map_filter by blast
  obtain k q where k: "y = (k, q)" by (cases y)
  obtain n where "x = (k, q\<lparr>lq_qty := n\<rparr>)" using keepManaged_some [OF y(2) [unfolded k]] by (elim exE)
  then show thesis using that y(1) k by simp
qed

lemma keepGuard_rows:
  assumes "x \<in> set (List.map_filter (keepGuard orders) t)"
  obtains g n where "(fst x, g) \<in> set t" "snd x = g\<lparr>pq_qty := n\<rparr>"
proof -
  from assms obtain y where y: "y \<in> set t" "keepGuard orders y = Some x" unfolding set_map_filter by blast
  obtain k g where k: "y = (k, g)" by (cases y)
  obtain n where "x = (k, g\<lparr>pq_qty := n\<rparr>)" using keepGuard_some [OF y(2) [unfolded k]] by (elim exE)
  then show thesis using that y(1) k by simp
qed

lemma kept_rows:
  assumes "length orders < 200 \<longrightarrow> i \<in> lo_id ` set orders"
  shows "(k, q) \<in> set t \<Longrightarrow> mq_id q = i \<Longrightarrow> \<exists>n. (k, q\<lparr>lq_qty := n\<rparr>) \<in> set (List.map_filter (keepManaged orders) t)"
    and "(i, g) \<in> set u \<Longrightarrow> \<exists>n. (i, g\<lparr>pq_qty := n\<rparr>) \<in> set (List.map_filter (keepGuard orders) u)"
proof -
  assume q: "(k, q) \<in> set t" "mq_id q = i"
  obtain x where x: "keepManaged orders (k, q) = Some x" using kept(1) [OF assms q(2), of k] by (auto simp only: not_None_eq)
  obtain n where n: "x = (k, q\<lparr>lq_qty := n\<rparr>)" using keepManaged_some [OF x] by (elim exE)
  have "x \<in> set (List.map_filter (keepManaged orders) t)" using x q(1) unfolding set_map_filter by blast
  then show "\<exists>n. (k, q\<lparr>lq_qty := n\<rparr>) \<in> set (List.map_filter (keepManaged orders) t)" unfolding n by (rule exI)
next
  assume g: "(i, g) \<in> set u"
  obtain x where x: "keepGuard orders (i, g) = Some x" using kept(2) [OF assms, of g] by (auto simp only: not_None_eq)
  obtain n where n: "x = (i, g\<lparr>pq_qty := n\<rparr>)" using keepGuard_some [OF x] by (elim exE)
  have "x \<in> set (List.map_filter (keepGuard orders) u)" using x g unfolding set_map_filter by blast
  then show "\<exists>n. (i, g\<lparr>pq_qty := n\<rparr>) \<in> set (List.map_filter (keepGuard orders) u)" unfolding n by (rule exI)
qed

lemma map_filter_unique:
  assumes "uniqueKeys t" "\<And>k v x. f (k, v) = Some x \<Longrightarrow> fst x = k"
  shows "uniqueKeys (List.map_filter f t)"
  using assms(1)
proof (induction t)
  case (Cons r t)
  obtain k v where r: "r = (k, v)" by (cases r)
  have u: "uniqueKeys (List.map_filter f t)" and k: "k \<notin> fst ` set t" using Cons r by (auto simp: uniqueKeys_def)
  have "fst ` set (List.map_filter f t) \<subseteq> fst ` set t" using assms(2) by (force simp: set_map_filter)
  then show ?case using u k assms(2) [of k v] r
    by (cases "f (k, v)") (auto simp: List.map_filter_simps uniqueKeys_def)
qed (simp add: List.map_filter_simps)

context order_client
begin

section \<open>Every live order is tracked\<close>

definition safe :: "bool \<Rightarrow> 'w maker \<Rightarrow> bool" where
  "safe b s \<longleftrightarrow> covered (mm_retirable s) s \<and> mm_initialized s = b"

lemma safe_iff:
  "safe b s \<longleftrightarrow> ok (mm_world s) \<and> activeOk (trm (mm_world s)) (mm_active s) \<and> retiringOk (trm (mm_world s)) (mm_retiring s) \<and>
     guardsOk (trm (mm_world s)) (mm_preserved s) \<and> guardsOk (trm (mm_world s)) (mm_retirable s) \<and>
     uncrossed (trm (mm_world s)) (live (mm_world s)) \<and> mm_initialized s = b \<and>
     live (mm_world s) \<subseteq> activeIds (mm_active s) \<union> fst ` set (mm_retiring s) \<union> fst ` set (mm_preserved s) \<union> fst ` set (mm_retirable s)"
  by (auto simp: safe_def covered_def base_def mapsOk_def trackedIds_def)

lemma safe_fields [simp]:
  "safe b (s\<lparr>mm_budgeted := x1\<rparr>) = safe b s" "safe b (s\<lparr>mm_cancelAttempts := x2\<rparr>) = safe b s"
  "safe b (s\<lparr>mm_emptySince := x3\<rparr>) = safe b s" "safe b (s\<lparr>mm_quoteCenter := x4\<rparr>) = safe b s"
  "safe b (s\<lparr>mm_lastReconcileAt := x5\<rparr>) = safe b s" "safe b (s\<lparr>mm_lastPreservedDepthRefreshAt := x6\<rparr>) = safe b s"
  "safe b (s\<lparr>mm_lastOrdinaryCenterMoveAt := x7\<rparr>) = safe b s" "safe b (s\<lparr>mm_observedMarketLastPrice := x8\<rparr>) = safe b s"
  "safe b (s\<lparr>mm_staged := x9\<rparr>) = safe b s" "safe b (s\<lparr>mm_stagedStartedAt := x10\<rparr>) = safe b s"
  by (simp_all add: safe_iff)

lemma quiet_safe: "safe b s \<Longrightarrow> quietly ok live trm load (mm_world s) w \<Longrightarrow> safe b (s\<lparr>mm_world := w\<rparr>)"
  using quiet_covered [of "mm_retirable s" s w] by (simp add: safe_def)

lemma safe_ok: "safe b s \<Longrightarrow> ok (mm_world s)"
  by (simp add: safe_iff)

lemma safe_call:
  assumes "\<And>w r w'. ok w \<Longrightarrow> f w = (r, w') \<Longrightarrow> quietly ok live trm load w w'"
  shows "triple (safe b) (callS f) (\<lambda>_. safe b) (safe b)"
  by (rule tripleI) (auto simp: callS_def split: prod.splits intro!: quiet_safe intro: assms safe_ok)

lemma safe_call_guards:
  assumes "\<And>w r w'. ok w \<Longrightarrow> f w = (r, w') \<Longrightarrow> quietly ok live trm load w w'"
  shows "triple (\<lambda>s. safe b s \<and> guardsOk (trm (mm_world s)) rows) (callS f)
    (\<lambda>_ s. safe b s \<and> guardsOk (trm (mm_world s)) rows) (\<lambda>s. safe b s \<and> guardsOk (trm (mm_world s)) rows)"
proof -
  have "safe b (s\<lparr>mm_world := w\<rparr>) \<and> guardsOk (trm w) rows"
    if s: "safe b s" "guardsOk (trm (mm_world s)) rows" and f: "f (mm_world s) = (r, w)" for s r w
  proof -
    have q: "quietly ok live trm load (mm_world s) w" using assms [OF safe_ok [OF s(1)] f] .
    then have "trm (mm_world s) \<subseteq>\<^sub>m trm w" by (simp add: quietly_def)
    then show ?thesis using quiet_safe [OF s(1) q] maps_mono(3) s(2) by blast
  qed
  then show ?thesis by (intro tripleI) (auto simp: callS_def split: prod.splits)
qed

lemma safe_cancel: "triple (safe b) (callS (cl_cancelOrder client i)) (\<lambda>_. safe b) (safe b)"
  by (rule safe_call) (rule cancelled)

lemma safe_cancelS: "triple (safe b) (cancelS client i) (\<lambda>_. safe b) (safe b)"
  unfolding cancelS_def
  by (intro triple_catchS [where R = "safe b"] safe_cancel triple_if triple_returnS triple_throwS)

lemma safe_sleepS: "triple (safe b) (sleepS client ms) (\<lambda>_. safe b) E"
  unfolding sleepS_def by (rule triple_changeS) (auto intro!: quiet_safe slept intro: safe_ok)

text \<open>Reading decides what follows.\<close>

lemma triple_read: "(\<And>x. triple (\<lambda>s. P s \<and> x = g s) (f x) Q E) \<Longrightarrow> triple P (bindS (readS g) f) Q E"
  by (rule triple_bindS [where R = "\<lambda>x s. P s \<and> x = g s"]) (auto intro: triple_readS)

lemma triple_lift: "(\<And>x. r = Inr x \<Longrightarrow> triple P (f x) Q E) \<Longrightarrow> (\<And>s. P s \<Longrightarrow> E s) \<Longrightarrow> triple P (bindS (liftS r) f) Q E"
  by (cases r) (auto simp: triple_def bindS_def)

lemma safe_during: "safe b s \<Longrightarrow> during (mm_retirable s) (mm_retirable s, b) {} s"
  by (simp add: safe_def during_def)

lemma during_safe: "during r (r, b) {} s \<Longrightarrow> safe b s"
  by (auto simp: safe_def during_def)

lemma safe_refresh:
  "triple (\<lambda>s. safe b s \<and> r = mm_retirable s) (refreshWholeLadder client symbol plan r d c) (\<lambda>_. safe b) (safe b)"
  by (rule triple_weaken [OF refresh_triple [of r "(r, b)"]]) (auto intro: safe_during during_safe)

lemma safe_advance:
  assumes "distinct (map quoteKey plan)"
  shows "triple (safe b) (advanceStagedQuoteMigration client symbol plan m) (\<lambda>_. safe b) (safe b)"
proof (rule triple_state)
  fix s assume "safe b s"
  then show "triple (\<lambda>t. t = s) (advanceStagedQuoteMigration client symbol plan m) (\<lambda>_. safe b) (safe b)"
    by (intro triple_weaken [OF advance_triple [OF assms, of "(mm_retirable s, b)"]]) (auto intro: safe_during during_safe)
qed

text \<open>A plan of the maker has no two quotes for one side and level.\<close>

lemma triple_plan:
  assumes "\<And>plan. distinct (map quoteKey plan) \<Longrightarrow> triple P (f plan) Q E" and "\<And>s. P s \<Longrightarrow> E s"
  shows "triple P (bindS (readS (\<lambda>s. buildMarketMakerPlan def (c s) (g s))) (\<lambda>r. bindS (liftS r) f)) Q E"
proof (rule triple_bindS [where R = "\<lambda>r s. P s \<and> (\<forall>plan. r = Inr plan \<longrightarrow> distinct (map quoteKey plan))"])
  show "triple P (readS (\<lambda>s. buildMarketMakerPlan def (c s) (g s)))
      (\<lambda>r s. P s \<and> (\<forall>plan. r = Inr plan \<longrightarrow> distinct (map quoteKey plan))) E"
    using marketPlan_keys by (intro triple_readS) blast
  fix r :: "error + liquidity_quote list"
  show "triple (\<lambda>s. P s \<and> (\<forall>plan. r = Inr plan \<longrightarrow> distinct (map quoteKey plan))) (bindS (liftS r) f) Q E"
  proof (cases r)
    case (Inl e)
    then show ?thesis using assms(2) by (simp add: triple_def)
  next
    case (Inr plan)
    show ?thesis
    proof (cases "distinct (map quoteKey plan)")
      case True
      then show ?thesis using triple_weaken [OF assms(1) [OF True]] by (simp add: Inr triple_def)
    qed (simp add: Inr triple_def)
  qed
qed

text \<open>Retiring moves a row from one map to the other.\<close>

lemma safe_retireOne:
  assumes "(i, g) \<in> set rows"
  shows "triple (\<lambda>s. safe b s \<and> guardsOk (trm (mm_world s)) rows) (retireOne client (i, g) u)
    (\<lambda>_ s. safe b s \<and> guardsOk (trm (mm_world s)) rows) (\<lambda>s. safe b s \<and> guardsOk (trm (mm_world s)) rows)"
proof -
  let ?S = "\<lambda>s. safe b s \<and> guardsOk (trm (mm_world s)) rows"
  have "triple ?S (changeS (\<lambda>s. s\<lparr>mm_retiring := putRow i (retiredQuote i g) (mm_retiring s),
      mm_retirable := dropRow i (mm_retirable s)\<rparr>)) (\<lambda>_. ?S) ?S"
  proof (rule triple_changeS)
    fix s assume s: "?S s"
    have "trm (mm_world s) i = Some (placeOf (retiredQuote i g))" "mq_id (retiredQuote i g) = i"
      using s assms by (auto simp: guardsOk_def retiredQuote_def placeOf_def guardPlace_def)
    then show "?S (s\<lparr>mm_retiring := putRow i (retiredQuote i g) (mm_retiring s), mm_retirable := dropRow i (mm_retirable s)\<rparr>)"
      using s by (auto simp: safe_iff putRow_keys dropRow_set image_iff intro!: retiringOk_put guardsOk_drop)
  qed
  moreover have "triple ?S (cancelS client i) (\<lambda>_. ?S) ?S"
    unfolding cancelS_def
    by (intro triple_catchS [where R = ?S] triple_if triple_returnS triple_throwS safe_call_guards cancelled)
  ultimately show ?thesis unfolding retireOne_def prod.case by (rule triple_bindS)
qed

lemma safe_retire: "triple (safe b) (retireRetirableQuotes client) (\<lambda>_. safe b) (safe b)"
proof -
  have "triple (\<lambda>s. safe b s \<and> rows = mm_retirable s) (eachS (retireOne client) rows ()) (\<lambda>_. safe b) (safe b)" for rows
  proof -
    have "triple (\<lambda>s. safe b s \<and> guardsOk (trm (mm_world s)) rows) (eachS (retireOne client) rows ())
        (\<lambda>_ s. safe b s \<and> guardsOk (trm (mm_world s)) rows) (\<lambda>s. safe b s \<and> guardsOk (trm (mm_world s)) rows)"
      by (rule triple_eachS) (auto intro: safe_retireOne)
    then show ?thesis by (rule triple_weaken) (auto simp: safe_iff)
  qed
  then show ?thesis unfolding retireRetirableQuotes_def by (rule triple_read)
qed

lemma safe_retireWhen: "triple (safe b) (retireRetirableQuotesWhenPlanIsSufficient client plan) (\<lambda>_. safe b) (safe b)"
proof -
  have retire: "triple (safe b) (bindS (retireRetirableQuotes client) (\<lambda>_. returnS True)) (\<lambda>_. safe b) (safe b)"
    by (rule triple_bindS [OF safe_retire]) (rule triple_returnS)
  show ?thesis unfolding retireRetirableQuotesWhenPlanIsSufficient_def
    by (intro triple_read triple_if triple_returnS triple_weaken [OF retire]) simp_all
qed

text \<open>A new plan re-keys rows or makes them retirable; it loses none.\<close>

lemma safe_remap:
  assumes "safe b s" "distinct (map quoteKey plan)"
  shows "safe b (remapS plan strict s)"
proof -
  obtain active superseded where r: "remapActiveQuotesForPlan (mm_active s) plan strict = (active, superseded)"
    by (cases "remapActiveQuotesForPlan (mm_active s) plan strict")
  note m = remap_marks [OF assms(2) r]
  let ?trm = "trm (mm_world s)"
  have ok: "?trm i = Some p" if "(i, p) \<in> marks (snd ` set (mm_active s))" for i p
    using that assms(1) by (auto simp: marks_def safe_iff activeOk_def)
  have g: "?trm (mq_id q) = Some (placeOf q)" if "q \<in> set superseded \<union> snd ` set active" for q
  proof -
    have "(mq_id q, placeOf q) \<in> marks (set superseded \<union> snd ` set active)"
      using that unfolding marks_def by (rule imageI)
    then show ?thesis unfolding m(2) by (rule ok)
  qed
  have "?trm (mq_id (snd x)) = Some (placeOf (snd x))" if "x \<in> set active" for x
    using g that by blast
  then have a: "activeOk ?trm active" using m(1) by (simp add: activeOk_def case_prod_beta)
  have p: "\<forall>q \<in> set superseded. ?trm (mq_id q) = Some (guardPlace (guardOf q))"
    using g by (simp add: guardOf_def guardPlace_def placeOf_def)
  have "fst ` marks (set superseded \<union> snd ` set active) = fst ` marks (snd ` set (mm_active s))" by (simp add: m(2))
  then have ids: "activeIds (mm_active s) = mq_id ` set superseded \<union> activeIds active"
    by (simp add: marks_def image_image image_Un activeIds_def)
  show ?thesis
    using assms(1) a p ids
    by (auto simp: remapS_def r safe_iff fold_putRow_keys intro!: fold_putRow_ok)
qed

text \<open>A report drops only rows that are not live.\<close>

lemma safe_reconcile:
  assumes "safe b s" "reported (trm (mm_world s)) (live (mm_world s)) orders"
  shows "safe b (reconcileQuotes orders s)"
proof -
  let ?trm = "trm (mm_world s)"
  have cover: "length orders < 200 \<longrightarrow> i \<in> lo_id ` set orders" if "i \<in> live (mm_world s)" for i
    using assms(2) that by (auto simp: reported_def)
  have guards: "guardsOk ?trm (List.map_filter (keepGuard orders) t)" if g: "guardsOk ?trm t" for t
  proof -
    have "?trm (fst x) = Some (guardPlace (snd x))" if x: "x \<in> set (List.map_filter (keepGuard orders) t)" for x
      using x by (rule keepGuard_rows) (use g in \<open>auto simp: guardsOk_def guardPlace_def\<close>)
    then show ?thesis by (simp add: guardsOk_def case_prod_beta)
  qed
  have active: "activeOk ?trm (List.map_filter (keepManaged orders) t)" if g: "activeOk ?trm t" for t
  proof -
    have "?trm (mq_id (snd x)) = Some (placeOf (snd x))" if x: "x \<in> set (List.map_filter (keepManaged orders) t)" for x
      using x by (rule keepManaged_rows) (use g in \<open>auto simp: activeOk_def placeOf_def\<close>)
    moreover have "uniqueKeys (List.map_filter (keepManaged orders) t)"
    proof (rule map_filter_unique)
      show "uniqueKeys t" using g by (simp add: activeOk_def)
      show "fst x = k" if "keepManaged orders (k, v) = Some x" for k v x using keepManaged_some [OF that] by auto
    qed
    ultimately show ?thesis by (simp add: activeOk_def case_prod_beta)
  qed
  have retiring: "retiringOk ?trm (List.map_filter (keepManaged orders) t)" if g: "retiringOk ?trm t" for t
  proof -
    have "mq_id (snd x) = fst x \<and> ?trm (fst x) = Some (placeOf (snd x))"
      if x: "x \<in> set (List.map_filter (keepManaged orders) t)" for x
      using x by (rule keepManaged_rows) (use g in \<open>auto simp: retiringOk_def placeOf_def\<close>)
    then show ?thesis by (simp add: retiringOk_def case_prod_beta)
  qed
  have gk: "i \<in> fst ` set (List.map_filter (keepGuard orders) t)"
    if t: "i \<in> fst ` set t" and l: "i \<in> live (mm_world s)" for i t
  proof -
    obtain g where "(i, g) \<in> set t" using t by auto
    from kept_rows(2) [OF cover [OF l] this] show ?thesis by (metis fst_conv imageI)
  qed
  have rk: "i \<in> fst ` set (List.map_filter (keepManaged orders) t)"
    if r: "retiringOk ?trm t" and t: "i \<in> fst ` set t" and l: "i \<in> live (mm_world s)" for i t
  proof -
    obtain q where q: "(i, q) \<in> set t" using t by auto
    then have "mq_id q = i" using r by (auto simp: retiringOk_def)
    from kept_rows(1) [OF cover [OF l] q this] show ?thesis by (metis fst_conv imageI)
  qed
  have ak: "i \<in> activeIds (List.map_filter (keepManaged orders) t)"
    if t: "i \<in> activeIds t" and l: "i \<in> live (mm_world s)" for i t
  proof -
    obtain k q where q: "(k, q) \<in> set t" "mq_id q = i" using t by (auto simp: activeIds_def)
    obtain n where n: "(k, q\<lparr>lq_qty := n\<rparr>) \<in> set (List.map_filter (keepManaged orders) t)"
      using kept_rows(1) [OF cover [OF l] q] by blast
    show ?thesis using imageI [OF n, of "mq_id \<circ> snd"] q(2) by (simp add: activeIds_def)
  qed
  have "live (mm_world s) \<subseteq> activeIds (List.map_filter (keepManaged orders) (mm_active s)) \<union>
      fst ` set (List.map_filter (keepManaged orders) (mm_retiring s)) \<union>
      fst ` set (List.map_filter (keepGuard orders) (mm_preserved s)) \<union>
      fst ` set (List.map_filter (keepGuard orders) (mm_retirable s))"
  proof
    fix i assume i: "i \<in> live (mm_world s)"
    then have "i \<in> activeIds (mm_active s) \<union> fst ` set (mm_retiring s) \<union> fst ` set (mm_preserved s) \<union> fst ` set (mm_retirable s)"
      using assms(1) by (auto simp: safe_iff)
    then show "i \<in> activeIds (List.map_filter (keepManaged orders) (mm_active s)) \<union>
      fst ` set (List.map_filter (keepManaged orders) (mm_retiring s)) \<union>
      fst ` set (List.map_filter (keepGuard orders) (mm_preserved s)) \<union>
      fst ` set (List.map_filter (keepGuard orders) (mm_retirable s))"
      using gk [OF _ i] rk [OF _ _ i] ak [OF _ i] assms(1) unfolding safe_iff by blast
  qed
  then show ?thesis
    using assms(1) guards active retiring by (simp add: reconcileQuotes_def Let_def safe_iff)
qed

text \<open>Looking at the API.\<close>

lemma safe_retryOne: "triple (safe b) (retryOne client now i n) (\<lambda>_. safe b) (safe b)"
proof -
  have note_it: "triple (safe b) (changeS (\<lambda>s. s\<lparr>mm_cancelAttempts := putRow i now (mm_cancelAttempts s)\<rparr>)) (\<lambda>_. safe b) (safe b)"
    by (rule triple_changeS) simp
  show ?thesis unfolding retryOne_def
    by (rule triple_bindS [where R = "\<lambda>_. safe b"], rule triple_readS, assumption, split option.split)
      (intro conjI allI impI triple_if triple_returnS triple_bindS [OF note_it] triple_bindS [where R = "\<lambda>_. safe b"]
        triple_catchS [where R = "safe b"] safe_cancel; assumption)
qed

lemma safe_retry: "triple (safe b) (retryStaleRetiringCancels client now) (\<lambda>_. safe b) (safe b)"
  unfolding retryStaleRetiringCancels_def
  by (intro triple_bindS [where R = "\<lambda>_. safe b"] triple_changeS triple_readS triple_eachS safe_retryOne) simp_all

lemma safe_budget: "safe b s \<Longrightarrow> safe b (refreshBudgetedPreservedGuards view s)"
  by (simp add: refreshBudgetedPreservedGuards_def)

lemma safe_view:
  "triple (safe b) (callS (cl_quoteState client symbol))
     (\<lambda>(orders, view) s. safe b s \<and> reported (trm (mm_world s)) (live (mm_world s)) orders) (safe b)"
proof -
  have "safe b (s\<lparr>mm_world := w\<rparr>) \<and> (\<forall>orders view. r = Inr (orders, view) \<longrightarrow> reported (trm w) (live w) orders)"
    if s: "safe b s" and f: "cl_quoteState client symbol (mm_world s) = (r, w)" for s r w
    using viewed [OF safe_ok [OF s] f] quiet_safe [OF s, of w] by blast
  then show ?thesis by (intro tripleI) (auto simp: callS_def split: prod.splits)
qed

lemma safe_lookAgain:
  assumes "sd_symbol def = symbol"
  shows "triple (safe b) (lookAgain client def options now) (\<lambda>_. safe b) (safe b)"
proof -
  have rest: "triple (\<lambda>s. safe b s \<and> reported (trm (mm_world s)) (live (mm_world s)) orders)
      (bindS (changeS (reconcileQuotes orders)) (\<lambda>_.
       bindS (readS (\<lambda>s. observeSides (mo_oneSidedRestartMs options) orders now (mm_emptySince s))) (\<lambda>(missingSide, since).
       bindS (changeS (\<lambda>s. s\<lparr>mm_emptySince := since\<rparr>)) (\<lambda>_.
       if missingSide \<noteq> None then throwS makerStalled
       else bindS (retryStaleRetiringCancels client now) (\<lambda>resent.
         bindS (changeS (\<lambda>s. case dv_lastPrice view of
             Some p \<Rightarrow> if isSafePositive p then s\<lparr>mm_observedMarketLastPrice := Some p\<rparr> else s
           | None \<Rightarrow> s)) (\<lambda>_.
         changeS (\<lambda>s.
           (if now - mm_lastPreservedDepthRefreshAt s \<ge> PRESERVED_DEPTH_REFRESH_MS
            then (refreshBudgetedPreservedGuards (Some view) s)\<lparr>mm_lastPreservedDepthRefreshAt := now\<rparr>
            else s)\<lparr>mm_lastReconcileAt := now\<rparr>)))))))
      (\<lambda>_. safe b) (safe b)" for orders view
    by (intro triple_bindS [where R = "\<lambda>_. safe b"] triple_changeS triple_readS safe_retry)
      (auto intro!: triple_bindS [where R = "\<lambda>_. safe b"] triple_if triple_throwS triple_changeS safe_retry safe_reconcile
        safe_budget split: option.splits)
  show ?thesis unfolding lookAgain_def assms
    by (rule triple_bindS [OF safe_view]) (use rest in \<open>auto split: prod.splits\<close>)
qed

lemma safe_reconcileStep:
  assumes "sd_symbol def = symbol"
  shows "triple (safe b) (reconcileStep client def options now) (\<lambda>_. safe b) (safe b)"
  unfolding reconcileStep_def
  by (intro triple_bindS [where R = "\<lambda>_. safe b"] triple_readS triple_if triple_catchS [where R = "safe b"]
      safe_lookAgain [OF assms] triple_changeS triple_throwS triple_returnS) simp_all

lemma safe_target: "triple (safe b) (targetCenterS client def) (\<lambda>_. safe b) (safe b)"
  unfolding targetCenterS_def
  by (intro triple_bindS [where R = "\<lambda>_. safe b"] triple_readS triple_liftS triple_returnS)

lemma safe_beginMigration: "triple (safe b) (beginMigrationS def target now) (\<lambda>_. safe b) (safe b)"
proof (rule triple_state)
  fix s assume s: "safe b s"
  have "triple (\<lambda>t. t = s) (bindS (liftS (beginStagedQuoteMigration def (mm_quoteCenter s) target)) (\<lambda>m.
      changeS (\<lambda>s. s\<lparr>mm_staged := m, mm_stagedStartedAt := now\<rparr>))) (\<lambda>_. safe b) (safe b)"
    by (intro triple_lift triple_changeS) (simp_all add: s)
  then show "triple (\<lambda>t. t = s) (beginMigrationS def target now) (\<lambda>_. safe b) (safe b)"
    using s by (auto simp: triple_def beginMigrationS_def)
qed

lemma safe_migrate:
  assumes "sd_symbol def = symbol"
  shows "triple (safe b) (migrateS client def m) (\<lambda>_. safe b) (safe b)"
  unfolding migrateS_def assms
proof (rule triple_plan)
  fix plan :: "liquidity_quote list" assume k: "distinct (map quoteKey plan)"
  show "triple (safe b) (bindS (advanceStagedQuoteMigration client symbol plan m) (\<lambda>progress.
     bindS (if progress = COMPLETE
            then changeS (\<lambda>s. s\<lparr>mm_quoteCenter := sm_targetCenter m, mm_staged := None\<rparr>) else returnS ()) (\<lambda>_.
     sleepS client 80))) (\<lambda>_. safe b) (safe b)"
    by (rule triple_bindS [OF safe_advance [OF k]])
      (intro triple_bindS [where R = "\<lambda>_. safe b"] triple_if triple_changeS triple_returnS safe_sleepS; simp)
qed

end

end
