(* ===== verification/Maker_Start.thy ===== *)
theory Maker_Start
  imports Maker_Safety
begin

text \<open>
  The start of the market maker: whichever way it takes, the orders it inherits are tracked before it
  posts anything. The theorem on the whole run closes the theory.
\<close>

section \<open>Inherited orders\<close>

definition reportTrue :: "order_terms \<Rightarrow> live_order list \<Rightarrow> bool" where
  "reportTrue trm l \<longleftrightarrow>
     (\<forall>o' \<in> set l. \<forall>p. lo_type o' = LIMIT \<longrightarrow> lo_price o' = Some p \<longrightarrow> trm (lo_id o') = Some (lo_side o', p))"

lemma reportTrue_subset: "reportTrue trm l \<Longrightarrow> set l' \<subseteq> set l \<Longrightarrow> reportTrue trm l'"
  by (auto simp: reportTrue_def)

lemma retirable_keys:
  "fst ` set (retirableOpenReserveRows l) = lo_id ` {o' \<in> set l. lo_type o' = LIMIT \<and> lo_price o' \<noteq> None \<and> lo_status o' = OPEN \<and>
     lo_filledQty o' = 0 \<and> remainingQty o' \<noteq> 0}"
  by (simp add: retirableOpenReserveRows_def fold_putRow_keys)

lemma guards_keys:
  "fst ` set (unretirableReserveGuards l) = lo_id ` {o' \<in> set l. lo_type o' = LIMIT \<and>
     (case lo_price o' of None \<Rightarrow> False | Some p \<Rightarrow> isSafePositive p) \<and> remainingQty o' \<noteq> 0}"
  by (simp add: unretirableReserveGuards_def fold_putRow_keys)

lemma retirable_ok: "reportTrue trm l \<Longrightarrow> guardsOk trm (retirableOpenReserveRows l)"
  unfolding retirableOpenReserveRows_def
  by (rule fold_putRow_ok) (auto simp: reportTrue_def liveGuard_def guardPlace_def guardsOk_def)

lemma guards_ok: "reportTrue trm l \<Longrightarrow> guardsOk trm (unretirableReserveGuards l)"
  unfolding unretirableReserveGuards_def
  by (rule fold_putRow_ok) (auto simp: reportTrue_def liveGuard_def guardPlace_def guardsOk_def split: option.splits)

text \<open>An order that can trade is among the guards or among the retirable rows.\<close>

lemma resting_kept:
  assumes "o' \<in> set l" "resting o'"
  shows "lo_id o' \<in> fst ` set (unretirableReserveGuards (filter (\<lambda>o'. findRow (retirableOpenReserveRows l) (lo_id o') = None) l)) \<union>
    fst ` set (retirableOpenReserveRows l)"
proof (cases "findRow (retirableOpenReserveRows l) (lo_id o') = None")
  case True
  then show ?thesis using assms by (auto simp: guards_keys resting_def intro!: imageI)
next
  case False
  then show ?thesis by (simp add: findRow_def map_of_eq_None_iff)
qed

section \<open>Adoption\<close>

lemma adoptable:
  assumes "adoptableIndex remaining quote = Some i"
  shows "i < length remaining \<and> matchingOrder quote (remaining ! i)"
proof -
  have larger: "fold (largerMatch remaining quote) is acc = Some i \<Longrightarrow>
      (\<forall>j \<in> set is. j < length remaining) \<Longrightarrow> (\<forall>j. acc = Some j \<longrightarrow> j < length remaining \<and> matchingOrder quote (remaining ! j)) \<Longrightarrow>
      i < length remaining \<and> matchingOrder quote (remaining ! i)" for "is" acc
  proof (induction "is" arbitrary: acc)
    case (Cons j js)
    show ?case
      by (rule Cons.IH [of "largerMatch remaining quote j acc"])
        (use Cons.prems in \<open>auto simp: largerMatch_def split: option.splits if_splits\<close>)
  qed simp
  show ?thesis
  proof (cases "find (\<lambda>i. matchingOrder quote (remaining ! i) \<and> remainingQty (remaining ! i) = lq_qty quote) [0..<length remaining]")
    case None
    then show ?thesis using assms larger [of "[0..<length remaining]" None] by (simp add: adoptableIndex_def)
  next
    case (Some j)
    then have "j = i" using assms by (simp add: adoptableIndex_def)
    then show ?thesis using Some by (auto simp: find_Some_iff)
  qed
qed

definition adoptedSoFar :: "order_terms \<Rightarrow> live_order list \<Rightarrow> live_order list \<times> (quote_key, managed_quote) rows \<Rightarrow> bool" where
  "adoptedSoFar trm l acc \<longleftrightarrow> set (fst acc) \<subseteq> set l \<and> activeOk trm (snd acc) \<and>
     (\<forall>o' \<in> set l. o' \<in> set (fst acc) \<or> lo_id o' \<in> activeIds (snd acc))"

lemma adoptQuote_keeps:
  assumes "adoptedSoFar trm l (remaining, active)" "reportTrue trm l" "quoteKey quote \<notin> fst ` set active"
  shows "adoptedSoFar trm l (adoptQuote quote (remaining, active)) \<and>
    fst ` set (snd (adoptQuote quote (remaining, active))) \<subseteq> insert (quoteKey quote) (fst ` set active)"
proof (cases "adoptableIndex remaining quote")
  case None
  then show ?thesis using assms by (simp add: adoptQuote_def) blast
next
  case (Some i)
  let ?o = "remaining ! i"
  let ?m = "managed (quote\<lparr>lq_qty := remainingQty ?o\<rparr>) (lo_id ?o) (remainingQty ?o > lq_qty quote)"
  from adoptable [OF Some] have i: "i < length remaining" and o': "matchingOrder quote ?o" by auto
  have step: "adoptQuote quote (remaining, active) =
      (take i remaining @ drop (Suc i) remaining, putRow (quoteKey quote) ?m active)"
    by (simp add: adoptQuote_def Some Let_def)
  have split: "set remaining = insert ?o (set (take i remaining @ drop (Suc i) remaining))"
  proof -
    have "set remaining = set (take i remaining @ ?o # drop (Suc i) remaining)"
      by (rule arg_cong [OF id_take_nth_drop [OF i]])
    then show ?thesis by simp
  qed
  have a: "activeOk trm active" using assms(1) by (simp add: adoptedSoFar_def)
  have m: "mq_id ?m = lo_id ?o" "placeOf ?m = (lq_side quote, lq_price quote)"
    by (simp_all add: managed_def placeOf_def)
  have o_in: "?o \<in> set l" using assms(1) i nth_mem by (fastforce simp: adoptedSoFar_def)
  have "trm (lo_id ?o) = Some (lq_side quote, lq_price quote)"
    using assms(2) o_in o' by (auto simp: reportTrue_def matchingOrder_def)
  then have "activeOk trm (putRow (quoteKey quote) ?m active)" using activeOk_put [OF a] m by simp
  moreover have "activeIds (putRow (quoteKey quote) ?m active) = insert (lo_id ?o) (activeIds active)"
  proof -
    have "\<forall>x \<in> set active. fst x \<noteq> quoteKey quote" using assms(3) by (metis imageI)
    then have "{x \<in> set active. fst x \<noteq> quoteKey quote} = set active" by blast
    then show ?thesis using a m(1) by (simp add: activeIds_def putRow_set_eq activeOk_def)
  qed
  moreover have "o' \<in> set (take i remaining @ drop (Suc i) remaining) \<or> lo_id o' \<in> insert (lo_id ?o) (activeIds active)"
    if "o' \<in> set l" for o'
    using assms(1) that split by (auto simp: adoptedSoFar_def)
  moreover have "set (take i remaining @ drop (Suc i) remaining) \<subseteq> set l"
    using assms(1) split by (auto simp: adoptedSoFar_def)
  ultimately show ?thesis by (simp add: step adoptedSoFar_def putRow_keys)
qed

lemma adoptFold_keeps:
  assumes "adoptedSoFar trm l acc" "reportTrue trm l" "distinct (map quoteKey plan)"
    and "fst ` set (snd acc) \<inter> quoteKey ` set plan = {}"
  shows "adoptedSoFar trm l (fold adoptQuote plan acc)"
  using assms
proof (induction plan arbitrary: acc)
  case (Cons q plan)
  obtain remaining active where acc: "acc = (remaining, active)" by (cases acc)
  have new: "quoteKey q \<notin> fst ` set active" using Cons.prems(4) acc by auto
  note step = adoptQuote_keeps [OF Cons.prems(1) [unfolded acc] Cons.prems(2) new]
  have "fst ` set (snd (adoptQuote q acc)) \<inter> quoteKey ` set plan \<subseteq> insert (quoteKey q) (fst ` set active) \<inter> quoteKey ` set plan"
    using step acc by (intro Int_mono) auto
  also have "\<dots> \<subseteq> {}" using Cons.prems(3,4) by (simp add: acc Int_insert_left Int_insert_right split: if_splits)
  finally have "adoptedSoFar trm l (fold adoptQuote plan (adoptQuote q acc))"
    using step Cons.prems(2,3) by (intro Cons.IH) (auto simp: acc)
  then show ?case by simp
qed simp

definition adoptionOk :: "order_terms \<Rightarrow> live_order list \<Rightarrow> adopted_ladder \<Rightarrow> bool" where
  "adoptionOk trm l a \<longleftrightarrow> activeOk trm (al_active a) \<and> guardsOk trm (al_preserved a) \<and> guardsOk trm (al_retirable a) \<and>
     (\<forall>o' \<in> set l. resting o' \<longrightarrow>
        lo_id o' \<in> activeIds (al_active a) \<union> fst ` set (al_preserved a) \<union> fst ` set (al_retirable a))"

lemma adoptAround_ok:
  assumes "adoptAround l def center = Inr (Some a)" "reportTrue trm l"
  shows "adoptionOk trm l a"
proof -
  obtain plan where plan: "planFor def center [] = Inr plan"
    using assms(1) by (auto simp: adoptAround_def elim: bindE_InrE)
  obtain remaining active where f: "fold adoptQuote plan (l, []) = (remaining, active)"
    by (cases "fold adoptQuote plan (l, [])")
  let ?e = "filter (\<lambda>o'. remainingQty o' > 0) remaining"
  have a: "al_active a = active" "al_retirable a = retirableOpenReserveRows ?e"
    "al_preserved a = unretirableReserveGuards (filter (\<lambda>o'. findRow (retirableOpenReserveRows ?e) (lo_id o') = None) ?e)"
    using assms(1) by (auto simp: adoptAround_def plan f Let_def split: if_splits)
  have "adoptedSoFar trm l (remaining, active)"
    using adoptFold_keeps [of trm l "(l, [])" plan] plan_keys [OF plan] assms(2) f
    by (simp add: adoptedSoFar_def activeOk_def)
  then have s: "set remaining \<subseteq> set l" "activeOk trm active"
    "\<forall>o' \<in> set l. o' \<in> set remaining \<or> lo_id o' \<in> activeIds active" by (simp_all add: adoptedSoFar_def)
  have t: "reportTrue trm ?e" by (rule reportTrue_subset [OF assms(2)]) (use s(1) in auto)
  have "lo_id o' \<in> activeIds active \<union> fst ` set (al_preserved a) \<union> fst ` set (al_retirable a)"
    if "o' \<in> set l" "resting o'" for o'
  proof (cases "o' \<in> set remaining")
    case True
    then have "o' \<in> set ?e" using that(2) by (simp add: resting_def)
    from resting_kept [OF this that(2)] show ?thesis unfolding a by blast
  qed (use s(3) that(1) in auto)
  moreover have "guardsOk trm (al_preserved a)"
    unfolding a(3) by (rule guards_ok, rule reportTrue_subset [OF t]) auto
  ultimately show ?thesis using s(2) retirable_ok [OF t] by (simp add: adoptionOk_def a(1,2))
qed

lemma adopt_ok:
  assumes "adoptExistingLadder l def center = Inr (Some a)" "reportTrue trm l"
  shows "adoptionOk trm l a"
proof -
  have "adoptFirst l def cs = Inr (Some a) \<Longrightarrow> adoptionOk trm l a" for cs
    by (induction cs) (auto elim!: bindE_InrE split: option.splits intro: adoptAround_ok [OF _ assms(2)])
  then show ?thesis using assms(1) by (auto simp: adoptExistingLadder_def elim: bindE_InrE)
qed

context order_client
begin

section \<open>Quoting\<close>

lemma safe_recenter: "triple (safe b) (recenterS def options plan target now) (\<lambda>_. safe b) (safe b)"
proof (rule triple_state)
  fix s assume s: "safe b s"
  show "triple (\<lambda>t. t = s) (recenterS def options plan target now) (\<lambda>_. safe b) (safe b)"
  proof (cases "mm_retirable s = [] \<and> matchesPlan (mm_active s) plan")
    case True
    have "triple (\<lambda>t. t = s) (bindS (liftS (moveGuardedQuoteCenter def (mm_quoteCenter s) target
                   (map (guardPlace \<circ> snd) (mm_preserved s)))) (\<lambda>candidateCenter.
           bindS (liftS (buildMarketMakerPlan def candidateCenter (mm_budgeted s))) (\<lambda>candidatePlan.
           changeS (\<lambda>s.
             if (candidateCenter = mm_quoteCenter s \<or>
                 now - mm_lastOrdinaryCenterMoveAt s \<ge> mo_ordinaryRecenterMs options) \<and>
                (candidateCenter = mm_quoteCenter s \<or>
                 canPlanCoexist candidatePlan (trackedQuotes (mm_retirable s) s))
             then s\<lparr>mm_quoteCenter := candidateCenter,
                    mm_lastOrdinaryCenterMoveAt :=
                      (if candidateCenter \<noteq> mm_quoteCenter s then now else mm_lastOrdinaryCenterMoveAt s)\<rparr>
             else s)))) (\<lambda>_. safe b) (safe b)"
      by (intro triple_lift triple_changeS) (simp_all add: s)
    then show ?thesis unfolding triple_def recenterS_def by (simp only: True if_True simp_thms)
  next
    case False
    then have "recenterS def options plan target now s = (Inr (), s)" unfolding recenterS_def by (rule if_not_P)
    then show ?thesis using s by (simp add: triple_def)
  qed
qed

lemma safe_quote:
  assumes "sd_symbol def = symbol"
  shows "triple (safe b) (quoteS client def options target now) (\<lambda>_. safe b) (safe b)"
proof -
  have remap: "triple (safe b) (changeS (remapS plan strict)) (\<lambda>_. safe b) (safe b)"
    if "distinct (map quoteKey plan)" for plan strict
    by (rule triple_changeS) (rule safe_remap [OF _ that])
  have remap_if: "triple (safe b) (changeS (\<lambda>s. if mm_quoteCenter s \<noteq> c then remapS plan strict s else s)) (\<lambda>_. safe b) (safe b)"
    if "distinct (map quoteKey plan)" for plan strict c
    by (rule triple_changeS) (simp add: safe_remap [OF _ that])
  have finish: "triple (safe b) (bindS (readS mm_retirable) (\<lambda>retirable. if retirable = [] then returnS ()
      else bindS (retireRetirableQuotesWhenPlanIsSufficient client plan) (\<lambda>_. returnS ()))) (\<lambda>_. safe b) (safe b)" for plan
    by (intro triple_bindS [where R = "\<lambda>_. safe b"] triple_readS triple_if triple_returnS safe_retireWhen)
  have refresh: "triple (safe b) (bindS (readS (\<lambda>s. (mm_quoteCenter s, mm_retirable s))) (\<lambda>(c, retirable).
      bindS (refreshWholeLadder client symbol plan retirable (sgn (c - p)) True) (\<lambda>_. f))) (\<lambda>_. safe b) (safe b)"
    if f: "triple (safe b) f (\<lambda>_. safe b) (safe b)" for plan p and f :: "('w, unit) making"
  proof (rule triple_bindS [where R = "\<lambda>(c, r) s. safe b s \<and> r = mm_retirable s"])
    show "triple (safe b) (readS (\<lambda>s. (mm_quoteCenter s, mm_retirable s))) (\<lambda>(c, r) s. safe b s \<and> r = mm_retirable s) (safe b)"
      by (rule triple_readS) simp
    fix x :: "int \<times> (string, preserved_quote) rows"
    show "triple (case x of (c, r) \<Rightarrow> \<lambda>s. safe b s \<and> r = mm_retirable s) (case x of (c, retirable) \<Rightarrow>
      bindS (refreshWholeLadder client symbol plan retirable (sgn (c - p)) True) (\<lambda>_. f)) (\<lambda>_. safe b) (safe b)"
      by (cases x) (simp add: triple_bindS [OF safe_refresh f])
  qed
  show ?thesis unfolding quoteS_def assms
    by (intro triple_plan triple_bindS [where R = "\<lambda>_. safe b"] refresh finish remap remap_if safe_recenter triple_readS;
        assumption?)
qed

section \<open>Starting\<close>

definition waiting :: "'w maker \<Rightarrow> bool" where
  "waiting s \<longleftrightarrow> base s \<and> \<not> mm_initialized s"

text \<open>A start whose looks are not cut off at 200 rows.\<close>

definition few :: "'w maker \<Rightarrow> bool" where
  "few s \<longleftrightarrow> waiting s \<and> load (mm_world s) < 200"

text \<open>The maker has not started, and \<open>l\<close> reports every live order.\<close>

definition inherits :: "live_order list \<Rightarrow> 'w maker \<Rightarrow> bool" where
  "inherits l s \<longleftrightarrow> few s \<and> reportTrue (trm (mm_world s)) l \<and>
     (\<forall>i \<in> live (mm_world s). \<exists>o' \<in> set l. lo_id o' = i \<and> resting o')"

lemma safe_waiting: "safe False s \<Longrightarrow> waiting s"
  by (auto simp: safe_def covered_def waiting_def)

lemma waiting_ok: "waiting s \<Longrightarrow> ok (mm_world s)"
  by (simp add: waiting_def base_def)

lemma quiet_waiting: "waiting s \<Longrightarrow> quietly ok live trm load (mm_world s) w \<Longrightarrow> waiting (s\<lparr>mm_world := w\<rparr>)"
  by (simp add: waiting_def quiet_base)

lemma quiet_few: "few s \<Longrightarrow> quietly ok live trm load (mm_world s) w \<Longrightarrow> few (s\<lparr>mm_world := w\<rparr>)"
  by (auto simp: few_def quietly_def intro: quiet_waiting [unfolded quietly_def])

lemma few_ok: "few s \<Longrightarrow> ok (mm_world s)"
  by (simp add: few_def waiting_ok)

lemma few_call:
  assumes "\<And>w r w'. ok w \<Longrightarrow> f w = (r, w') \<Longrightarrow> quietly ok live trm load w w'"
  shows "triple few (callS f) (\<lambda>_. few) few"
  by (rule tripleI) (auto simp: callS_def split: prod.splits intro!: quiet_few intro: assms few_ok)

lemma few_cancelS: "triple few (cancelS client i) (\<lambda>_. few) few"
  unfolding cancelS_def
  by (intro triple_catchS [where R = few] few_call cancelled triple_if triple_returnS triple_throwS)

lemma few_look: "triple few (callS (cl_myLiveOrders client symbol)) inherits few"
proof -
  have "few (s\<lparr>mm_world := w\<rparr>) \<and> (\<forall>l. r = Inr l \<longrightarrow> inherits l (s\<lparr>mm_world := w\<rparr>))"
    if s: "few s" and f: "cl_myLiveOrders client symbol (mm_world s) = (r, w)" for s r w
  proof -
    from looked [OF few_ok [OF s] f] have q: "quietly ok live trm load (mm_world s) w"
      and l: "\<forall>l. r = Inr l \<longrightarrow> length l \<le> load w \<and> reported (trm w) (live w) l" by auto
    have w: "few (s\<lparr>mm_world := w\<rparr>)" by (rule quiet_few [OF s q])
    then have "load w < 200" by (simp add: few_def)
    then show ?thesis using w l by (auto simp: inherits_def reported_def reportTrue_def)
  qed
  then show ?thesis by (intro tripleI) (auto simp: callS_def split: prod.splits)
qed

lemma inherits_few: "inherits l s \<Longrightarrow> few s"
  by (simp add: inherits_def)

lemma inherits_waiting: "inherits l s \<Longrightarrow> waiting s"
  by (simp add: inherits_def few_def)

text \<open>The rows of \<open>putAll\<close> join the maps; what they cover is covered.\<close>

lemma activeIds_putAll: "uniqueKeys new' \<Longrightarrow> activeIds new' \<subseteq> activeIds (putAll new' t)"
  using putAll_new [of new' t] by (auto simp: activeIds_def)

lemma activeOk_putAll: "activeOk f t \<Longrightarrow> activeOk f new' \<Longrightarrow> activeOk f (putAll new' t)"
  using putAll_set [of new' t] putAll_unique [of t new'] unfolding activeOk_def by blast

lemma takeOver_safe:
  assumes "inherits l s" "adoptionOk (trm (mm_world s)) l a"
  shows "safe False (takeOver options a s)"
proof -
  let ?trm = "trm (mm_world s)"
  have m: "activeOk ?trm (mm_active s)" "retiringOk ?trm (mm_retiring s)" "guardsOk ?trm (mm_preserved s)"
    "guardsOk ?trm (mm_retirable s)" "uncrossed ?trm (live (mm_world s))" "ok (mm_world s)" "\<not> mm_initialized s"
    using assms(1) by (auto simp: inherits_def few_def waiting_def base_def mapsOk_def)
  have n: "activeOk ?trm (al_active a)" "guardsOk ?trm (al_preserved a)" "guardsOk ?trm (al_retirable a)"
    using assms(2) by (auto simp: adoptionOk_def)
  have "live (mm_world s) \<subseteq> activeIds (al_active a) \<union> fst ` set (al_preserved a) \<union> fst ` set (al_retirable a)"
  proof
    fix i assume "i \<in> live (mm_world s)"
    then obtain o' where o': "o' \<in> set l" "lo_id o' = i" "resting o'" using assms(1) by (auto simp: inherits_def)
    from assms(2) have "\<forall>o' \<in> set l. resting o' \<longrightarrow>
        lo_id o' \<in> activeIds (al_active a) \<union> fst ` set (al_preserved a) \<union> fst ` set (al_retirable a)"
      by (simp add: adoptionOk_def)
    with o' show "i \<in> activeIds (al_active a) \<union> fst ` set (al_preserved a) \<union> fst ` set (al_retirable a)" by blast
  qed
  moreover have "activeIds (al_active a) \<subseteq> activeIds (putAll (al_active a) (mm_active s))"
    using n(1) by (intro activeIds_putAll) (simp add: activeOk_def)
  ultimately have "live (mm_world s) \<subseteq> activeIds (putAll (al_active a) (mm_active s)) \<union>
      fst ` set (al_preserved a) \<union> fst ` set (al_retirable a)" by blast
  then show ?thesis
    using m n by (auto simp: takeOver_def safe_iff putAll_keys intro!: activeOk_putAll guardsOk_putAll)
qed

lemma safe_retireIf:
  "triple (safe b) (if c then bindS (retireRetirableQuotesWhenPlanIsSufficient client plan) (\<lambda>_. returnS ()) else returnS ())
     (\<lambda>_. safe b) (safe b)"
  by (intro triple_if triple_bindS [where R = "\<lambda>_. safe b"] triple_returnS safe_retireWhen)

lemma started: "triple (safe False) (startedAt client) (\<lambda>_. safe True) E"
  unfolding startedAt_def by (rule triple_changeS) (simp add: safe_iff)

lemma start_adopted:
  assumes "sd_symbol def = symbol" and "\<And>f. reportTrue f l \<Longrightarrow> adoptionOk f l a"
  shows "triple (inherits l) (startAdopted client def options a) (\<lambda>_. safe True) waiting"
proof -
  have take: "triple (inherits l) (changeS (takeOver options a)) (\<lambda>_. safe False) (safe False)"
    by (rule triple_changeS) (auto intro!: takeOver_safe assms(2) simp: inherits_def)
  have remap: "triple (safe False) (changeS (remapS plan {})) (\<lambda>_. safe False) (safe False)"
    if "distinct (map quoteKey plan)" for plan
    by (rule triple_changeS) (rule safe_remap [OF _ that])
  have refresh: "triple (safe False) (bindS (readS mm_retirable) (\<lambda>retirable.
      bindS (refreshWholeLadder client symbol plan retirable 0 True) (\<lambda>_. f))) (\<lambda>_. safe True) (safe False)"
    if f: "triple (safe False) f (\<lambda>_. safe True) (safe False)" for plan and f :: "('w, unit) making"
    by (rule triple_read, rule triple_bindS [OF safe_refresh f])
  have plan: "triple (safe False) (bindS (liftS (buildMarketMakerPlan def (al_center a) budgeted)) f) (\<lambda>_. safe True) (safe False)"
    if "\<And>plan. distinct (map quoteKey plan) \<Longrightarrow> triple (safe False) (f plan) (\<lambda>_. safe True) (safe False)"
    for budgeted and f :: "liquidity_quote list \<Rightarrow> ('w, unit) making"
    by (rule triple_lift) (use that marketPlan_keys in blast)+
  have "triple (inherits l) (startAdopted client def options a) (\<lambda>_. safe True) (safe False)"
    unfolding startAdopted_def assms(1)
    by (rule triple_bindS [OF take], rule triple_bindS [where R = "\<lambda>_. safe False"], rule triple_readS, assumption,
        rule plan, rule triple_bindS [OF remap], assumption, rule refresh,
        rule triple_bindS [where R = "\<lambda>_. safe False"], rule triple_readS, assumption,
        rule triple_bindS [OF safe_retireIf started])
  then show ?thesis by (rule triple_weaken) (auto intro: safe_waiting)
qed

text \<open>Guards and retirable rows cover what the report covers.\<close>

lemma guard_rows_safe:
  assumes "inherits l s"
  defines "retirable \<equiv> retirableOpenReserveRows l"
  defines "guards \<equiv> unretirableReserveGuards (filter (\<lambda>o'. findRow retirable (lo_id o') = None) l)"
  shows "safe False (s\<lparr>mm_preserved := putAll guards (mm_preserved s), mm_retirable := putAll retirable (mm_retirable s)\<rparr>)"
proof -
  let ?trm = "trm (mm_world s)"
  have t: "reportTrue ?trm l" using assms(1) by (simp add: inherits_def)
  have "guardsOk ?trm retirable" unfolding retirable_def by (rule retirable_ok [OF t])
  moreover have "guardsOk ?trm guards"
    unfolding guards_def by (rule guards_ok, rule reportTrue_subset [OF t]) auto
  moreover have "live (mm_world s) \<subseteq> fst ` set guards \<union> fst ` set retirable"
  proof
    fix i assume "i \<in> live (mm_world s)"
    then obtain o' where "o' \<in> set l" "lo_id o' = i" "resting o'" using assms(1) unfolding inherits_def by blast
    then show "i \<in> fst ` set guards \<union> fst ` set retirable"
      using resting_kept unfolding guards_def retirable_def by blast
  qed
  ultimately show ?thesis
    using assms(1) by (auto simp: safe_iff inherits_def few_def waiting_def base_def mapsOk_def putAll_keys intro!: guardsOk_putAll)
qed

lemma start_guards:
  assumes "sd_symbol def = symbol"
  shows "triple (inherits l) (initializeWithPreservedReserveGuards client def c l)
    (\<lambda>r s. case r of None \<Rightarrow> inherits l s | Some x \<Rightarrow> safe False s) waiting"
proof -
  define retirable where "retirable = retirableOpenReserveRows l"
  define guards where "guards = unretirableReserveGuards (filter (\<lambda>o'. findRow retirable (lo_id o') = None) l)"
  let ?Q = "\<lambda>r s. case r of None \<Rightarrow> inherits l s | Some x \<Rightarrow> safe False s"
  have rows: "triple (inherits l) (changeS (\<lambda>s. s\<lparr>mm_preserved := putAll guards (mm_preserved s),
      mm_retirable := putAll retirable (mm_retirable s)\<rparr>)) (\<lambda>_. safe False) waiting"
    unfolding guards_def retirable_def by (rule triple_changeS) (rule guard_rows_safe)
  have refresh: "triple (safe False) (bindS (readS mm_budgeted) (\<lambda>budgeted.
      bindS (liftS (buildMarketMakerPlan def center budgeted)) (\<lambda>plan.
      bindS (readS mm_retirable) (\<lambda>r.
      bindS (refreshWholeLadder client symbol plan r 0 True) (\<lambda>_.
      returnS (Some (center, length guards))))))) ?Q waiting" for center
  proof -
    have go: "triple (safe False) (bindS (readS mm_retirable) (\<lambda>r.
        bindS (refreshWholeLadder client symbol plan r 0 True) (\<lambda>_. returnS (Some (center, length guards))))) ?Q (safe False)" for plan
      by (rule triple_read, rule triple_bindS [OF safe_refresh]) (rule triple_returnS, simp)
    have "triple (safe False) (bindS (readS mm_budgeted) (\<lambda>budgeted.
        bindS (liftS (buildMarketMakerPlan def center budgeted)) (\<lambda>plan.
        bindS (readS mm_retirable) (\<lambda>r.
        bindS (refreshWholeLadder client symbol plan r 0 True) (\<lambda>_.
        returnS (Some (center, length guards))))))) ?Q (safe False)"
      by (rule triple_bindS [where R = "\<lambda>_. safe False"], rule triple_readS, assumption, rule triple_lift, rule go, assumption)
    then show ?thesis by (rule triple_weaken) (auto intro: safe_waiting)
  qed
  have "triple (inherits l) (if guards = [] \<and> retirable = [] then returnS None
      else bindS (liftS (guardedQuoteCenter def c (map (guardPlace \<circ> snd) guards @ map (guardPlace \<circ> snd) retirable))) (\<lambda>center. case center of
           None \<Rightarrow> throwS startupBlocked
         | Some center \<Rightarrow> bindS (changeS (\<lambda>s. s\<lparr>mm_preserved := putAll guards (mm_preserved s),
                                   mm_retirable := putAll retirable (mm_retirable s)\<rparr>)) (\<lambda>_.
             bindS (readS mm_budgeted) (\<lambda>budgeted.
             bindS (liftS (buildMarketMakerPlan def center budgeted)) (\<lambda>plan.
             bindS (readS mm_retirable) (\<lambda>r.
             bindS (refreshWholeLadder client symbol plan r 0 True) (\<lambda>_.
             returnS (Some (center, length guards))))))))) ?Q waiting"
  proof (rule triple_if)
    show "triple (inherits l) (returnS None) ?Q waiting" by (rule triple_returnS) simp
    have fail: "triple (inherits l) (throwS startupBlocked) ?Q waiting" by (rule triple_throwS) (rule inherits_waiting)
    show "triple (inherits l) (bindS (liftS (guardedQuoteCenter def c (map (guardPlace \<circ> snd) guards @ map (guardPlace \<circ> snd) retirable)))
        (\<lambda>center. case center of
           None \<Rightarrow> throwS startupBlocked
         | Some center \<Rightarrow> bindS (changeS (\<lambda>s. s\<lparr>mm_preserved := putAll guards (mm_preserved s),
                                   mm_retirable := putAll retirable (mm_retirable s)\<rparr>)) (\<lambda>_.
             bindS (readS mm_budgeted) (\<lambda>budgeted.
             bindS (liftS (buildMarketMakerPlan def center budgeted)) (\<lambda>plan.
             bindS (readS mm_retirable) (\<lambda>r.
             bindS (refreshWholeLadder client symbol plan r 0 True) (\<lambda>_.
             returnS (Some (center, length guards))))))))) ?Q waiting"
      by (rule triple_lift, split option.split, intro conjI allI impI fail triple_bindS [OF rows refresh])
        (rule inherits_waiting)
  qed
  then show ?thesis
    unfolding initializeWithPreservedReserveGuards_def Let_def assms retirable_def [symmetric] guards_def [symmetric] .
qed


text \<open>Waiting until nothing is left.\<close>

lemma few_sleepS: "triple few (sleepS client ms) (\<lambda>_. few) E"
  unfolding sleepS_def by (rule triple_changeS) (auto intro!: quiet_few slept intro: few_ok)

lemma few_now: "(\<And>now. triple few (f now) Q E) \<Longrightarrow> triple few (bindS (nowS client) f) Q E"
  unfolding nowS_def by (rule triple_bindS [where R = "\<lambda>_. few"], rule triple_readS, assumption)

lemma few_request: "triple few (requestRetirement client now o' m) (\<lambda>_. few) few"
  unfolding requestRetirement_def
  by (intro triple_if triple_returnS triple_bindS [where R = "\<lambda>_. few"] few_cancelS)

lemma few_polls:
  "triple (\<lambda>s. few s \<and> (\<forall>l. reports = Some l \<longrightarrow> inherits l s))
    (retirePolls client symbol deadline left reports m) (\<lambda>_ s. few s \<and> live (mm_world s) = {}) few"
proof (induction left arbitrary: reports m)
  case 0
  show ?case unfolding retirePolls.simps by (rule triple_throwS) simp
next
  case (Suc left)
  let ?P = "\<lambda>s. few s \<and> (\<forall>l. reports = Some l \<longrightarrow> inherits l s)"
  let ?Q = "\<lambda>_ s. few s \<and> live (mm_world s) = {}"
  have look: "triple ?P (case reports of Some l \<Rightarrow> returnS l | None \<Rightarrow> callS (cl_myLiveOrders client symbol)) inherits few"
    by (cases reports) (auto intro: triple_weaken [OF few_look] triple_returnS)
  have again: "triple few (retirePolls client symbol deadline left None m) ?Q few" for m
    by (rule triple_weaken [OF Suc.IH]) simp_all
  have wait: "triple few (bindS (nowS client) (\<lambda>now. if now \<ge> deadline then throwS startupBlocked
      else bindS (sleepS client 200) (\<lambda>_. retirePolls client symbol deadline left None m))) ?Q few" for m
    by (rule few_now) (intro triple_if triple_throwS triple_bindS [OF few_sleepS again])
  have rest: "triple few (bindS (nowS client) (\<lambda>now.
      bindS (eachS (requestRetirement client now) l m) (\<lambda>m.
      bindS (nowS client) (\<lambda>now. if now \<ge> deadline then throwS startupBlocked
      else bindS (sleepS client 200) (\<lambda>_. retirePolls client symbol deadline left None m))))) ?Q few" for l
    by (rule few_now) (intro triple_bindS [OF _ wait] triple_eachS few_request)
  have empty: "triple (inherits []) (returnS ()) ?Q few"
    by (rule triple_returnS) (auto simp: inherits_def)
  show ?case unfolding retirePolls.simps
  proof (rule triple_bindS [OF look])
    fix l
    show "triple (inherits l) (if l = [] then returnS () else bindS (nowS client) (\<lambda>now.
      bindS (eachS (requestRetirement client now) l m) (\<lambda>m.
      bindS (nowS client) (\<lambda>now. if now \<ge> deadline then throwS startupBlocked
      else bindS (sleepS client 200) (\<lambda>_. retirePolls client symbol deadline left None m))))) ?Q few"
      by (rule triple_if) (use empty triple_weaken [OF rest, of "inherits l"] inherits_few in auto)
  qed
qed

text \<open>With nothing left, the new ladder covers what is live.\<close>

lemma start_afresh:
  assumes "sd_symbol def = symbol"
  shows "triple (\<lambda>s. few s \<and> live (mm_world s) = {}) (startAfresh client def) (\<lambda>_. safe True) waiting"
proof -
  let ?P = "\<lambda>s. few s \<and> live (mm_world s) = {}"
  have "triple ?P (refreshWholeLadder client symbol plan [] 0 True) (\<lambda>_. safe False) (safe False)" for plan
  proof (rule triple_state)
    fix s assume s: "?P s"
    then have "during [] (mm_retirable s, False) {} s"
      by (auto simp: during_def covered_def few_def waiting_def guardsOk_def)
    then show "triple (\<lambda>t. t = s) (refreshWholeLadder client symbol plan [] 0 True) (\<lambda>_. safe False) (safe False)"
      by (intro triple_weaken [OF refresh_triple [of "[]" "(mm_retirable s, False)"]])
        (auto simp: during_def covered_def trackedIds_def safe_def base_def mapsOk_def)
  qed
  then have "triple ?P (refreshWholeLadder client symbol plan [] 0 True) (\<lambda>_. safe False) waiting" for plan
    by (rule triple_weaken) (auto intro: safe_waiting)
  moreover have "triple (safe False) (changeS (\<lambda>s. s\<lparr>mm_initialized := True\<rparr>)) (\<lambda>_. safe True) waiting"
    by (rule triple_changeS) (simp add: safe_iff)
  ultimately show ?thesis unfolding startAfresh_def assms by (intro triple_plan triple_bindS) (auto simp: few_def)
qed

lemma start_guarded: "triple (safe False) (startGuarded client def center) (\<lambda>_. safe True) waiting"
proof -
  have center: "triple (safe False) (changeS (\<lambda>s. s\<lparr>mm_quoteCenter := center\<rparr>)) (\<lambda>_. safe False) (safe False)"
    by (rule triple_changeS) simp
  have retire: "triple (safe False) (bindS (retireRetirableQuotesWhenPlanIsSufficient client plan) (\<lambda>_. returnS ()))
      (\<lambda>_. safe False) (safe False)" for plan
    by (rule triple_bindS [OF safe_retireWhen]) (rule triple_returnS)
  have "triple (safe False) (retireForCenter client def) (\<lambda>_. safe False) (safe False)"
    unfolding retireForCenter_def
    by (rule triple_bindS [where R = "\<lambda>_. safe False"], rule triple_readS, assumption, rule triple_if, rule triple_returnS,
        assumption, rule triple_plan, rule retire)
  then have "triple (safe False) (startGuarded client def center) (\<lambda>_. safe True) (safe False)"
    unfolding startGuarded_def by (intro triple_bindS [OF center] triple_bindS [OF _ started])
  then show ?thesis by (rule triple_weaken) (auto intro: safe_waiting)
qed

lemma start_onGuards:
  assumes "sd_symbol def = symbol" "triple (inherits l) other (\<lambda>_. safe True) waiting"
  shows "triple (inherits l) (bindS (initializeWithPreservedReserveGuards client def c l) (\<lambda>r. case r of
      None \<Rightarrow> other | Some (center, n) \<Rightarrow> startGuarded client def center)) (\<lambda>_. safe True) waiting"
  by (rule triple_bindS [OF start_guards [OF assms(1)]])
    (auto split: option.splits intro: assms(2) start_guarded)

lemma start_maker:
  assumes "sd_symbol def = symbol"
  shows "triple few (startMaker client def options) (\<lambda>_. safe True) waiting"
proof -
  have look: "triple few (callS (cl_myLiveOrders client symbol)) inherits waiting"
    by (rule triple_weaken [OF few_look]) (simp_all add: few_def)
  have unretirable: "triple few (startUnretirable client def e) (\<lambda>_. safe True) waiting" for e
    unfolding startUnretirable_def assms(1)
    by (rule triple_bindS [OF look], rule triple_bindS, rule triple_readS, assumption,
        rule start_onGuards [OF assms(1)], rule triple_throwS, erule inherits_waiting)
  have retire: "triple (inherits l) (retirePreviousQuotes client symbol l) (\<lambda>_ s. few s \<and> live (mm_world s) = {}) few" for l
  proof (rule triple_state)
    fix s assume "inherits l s"
    then show "triple (\<lambda>t. t = s) (retirePreviousQuotes client symbol l) (\<lambda>_ s. few s \<and> live (mm_world s) = {}) few"
      unfolding retirePreviousQuotes_def nowS_def
      by (intro triple_bindS [where R = "\<lambda>_ t. t = s"] triple_readS triple_weaken [OF few_polls])
        (auto intro: inherits_few)
  qed
  let ?R = "\<lambda>r s. case r of Some (e :: error) \<Rightarrow> few s | None \<Rightarrow> few s \<and> live (mm_world s) = {}"
  have tried: "triple (inherits l) (catchS (bindS (retirePreviousQuotes client symbol l) (\<lambda>_. returnS None))
      (\<lambda>e. if \<not> mo_allowUnretirableReserveFallback options \<or> e \<noteq> startupBlocked then throwS e else returnS (Some e))) ?R waiting" for l
    by (rule triple_catchS [OF triple_bindS [OF retire]]) (auto intro!: triple_returnS triple_throwS triple_if simp: few_def)
  have byRetiring: "triple (inherits l) (startByRetiring client def options l) (\<lambda>_. safe True) waiting" for l
    unfolding startByRetiring_def assms(1)
    by (rule triple_bindS [OF tried])
      (use unretirable start_afresh [OF assms(1)] in \<open>auto split: option.splits\<close>)
  have onGuards: "triple (inherits l) (bindS (if mo_allowUnretirableReserveFallback options \<and> l \<noteq> []
        then initializeWithPreservedReserveGuards client def c l else returnS None) (\<lambda>started. case started of
           Some (center, n) \<Rightarrow> startGuarded client def center
         | None \<Rightarrow> startByRetiring client def options l)) (\<lambda>_. safe True) waiting" for l c
  proof (cases "mo_allowUnretirableReserveFallback options \<and> l \<noteq> []")
    case True
    show ?thesis using start_onGuards [OF assms(1) byRetiring, of l c] True by simp
  next
    case False
    have "triple (inherits l) (bindS (returnS None) (\<lambda>started. case started of
           Some (center, n) \<Rightarrow> startGuarded client def center
         | None \<Rightarrow> startByRetiring client def options l)) (\<lambda>_. safe True) waiting"
      using byRetiring [of l] by (simp add: triple_def)
    then show ?thesis unfolding if_not_P [OF False] .
  qed
  have adopted: "triple (inherits l) (startAdopted client def options a) (\<lambda>_. safe True) waiting"
    if "adoptExistingLadder l def c = Inr (Some a)" for l a c
    by (rule start_adopted [OF assms(1)]) (rule adopt_ok [OF that])
  show ?thesis unfolding startMaker_def assms(1)
  proof (rule triple_bindS [OF look], rule triple_bindS, rule triple_readS, assumption,
      rule triple_lift)
    fix l c adopted'
    assume "adoptExistingLadder l def c = Inr adopted'"
    then show "triple (inherits l) (case adopted' of Some a \<Rightarrow> startAdopted client def options a
      | None \<Rightarrow> bindS (if mo_allowUnretirableReserveFallback options \<and> l \<noteq> []
          then initializeWithPreservedReserveGuards client def c l else returnS None) (\<lambda>started. case started of
           Some (center, n) \<Rightarrow> startGuarded client def center
         | None \<Rightarrow> startByRetiring client def options l)) (\<lambda>_. safe True) waiting"
      using adopted onGuards by (cases adopted') simp_all
  qed (rule inherits_waiting)
qed

section \<open>Turns\<close>

definition sound :: "'w maker \<Rightarrow> bool" where
  "sound s \<longleftrightarrow> safe True s \<or> waiting s"

definition ready :: "'w maker \<Rightarrow> bool" where
  "ready s \<longleftrightarrow> sound s \<and> (\<not> mm_initialized s \<longrightarrow> load (mm_world s) < 200)"

lemma body_sound:
  assumes "sd_symbol def = symbol"
  shows "triple ready (makerBody client def options) (\<lambda>_. sound) sound"
proof (rule triple_state)
  fix s assume s: "ready s"
  have begun: "triple (safe True) (bindS (nowS client) (\<lambda>now.
        bindS (reconcileStep client def options now) (\<lambda>_.
        bindS (targetCenterS client def) (\<lambda>targetCenter.
        bindS (beginMigrationS def targetCenter now) (\<lambda>_.
        bindS (readS mm_staged) (\<lambda>staged. case staged of
          Some migration \<Rightarrow> bindS (migrateS client def migration) (\<lambda>_. returnS True)
        | None \<Rightarrow> bindS (quoteS client def options targetCenter now) (\<lambda>_. returnS False)))))))
      (\<lambda>_. safe True) (safe True)"
  proof -
    have m: "triple (safe True) (bindS (migrateS client def migration) (\<lambda>_. returnS True)) (\<lambda>_. safe True) (safe True)" for migration
      by (rule triple_bindS [OF safe_migrate [OF assms(1)]]) (rule triple_returnS)
    have q: "triple (safe True) (bindS (quoteS client def options c now) (\<lambda>_. returnS False)) (\<lambda>_. safe True) (safe True)" for c now
      by (rule triple_bindS [OF safe_quote [OF assms(1)]]) (rule triple_returnS)
    have k: "triple (safe True) (case staged of
          Some migration \<Rightarrow> bindS (migrateS client def migration) (\<lambda>_. returnS True)
        | None \<Rightarrow> bindS (quoteS client def options c now) (\<lambda>_. returnS False)) (\<lambda>_. safe True) (safe True)" for staged c now
      using m q by (cases staged) simp_all
    show ?thesis unfolding nowS_def
      by (rule triple_bindS [where R = "\<lambda>_. safe True"], rule triple_readS, assumption,
          rule triple_bindS [OF safe_reconcileStep [OF assms(1)]], rule triple_bindS [OF safe_target],
          rule triple_bindS [OF safe_beginMigration], rule triple_bindS [where R = "\<lambda>_. safe True"],
          rule triple_readS, assumption, rule k)
  qed
  have new': "triple few (bindS (startMaker client def options) (\<lambda>_. returnS True)) (\<lambda>_. sound) sound"
  proof -
    have "triple few (bindS (startMaker client def options) (\<lambda>_. returnS True)) (\<lambda>_. safe True) waiting"
      by (rule triple_bindS [OF start_maker [OF assms]]) (auto intro: triple_returnS)
    then show ?thesis by (rule triple_weaken) (simp_all add: sound_def)
  qed
  show "triple (\<lambda>t. t = s) (makerBody client def options) (\<lambda>_. sound) sound"
  proof (cases "mm_initialized s")
    case True
    then have "safe True s" using s by (auto simp: ready_def sound_def waiting_def)
    from triple_weaken [OF begun, of "\<lambda>t. t = s" "\<lambda>_. sound" sound] this
    have "triple (\<lambda>t. t = s) (bindS (nowS client) (\<lambda>now.
        bindS (reconcileStep client def options now) (\<lambda>_.
        bindS (targetCenterS client def) (\<lambda>targetCenter.
        bindS (beginMigrationS def targetCenter now) (\<lambda>_.
        bindS (readS mm_staged) (\<lambda>staged. case staged of
          Some migration \<Rightarrow> bindS (migrateS client def migration) (\<lambda>_. returnS True)
        | None \<Rightarrow> bindS (quoteS client def options targetCenter now) (\<lambda>_. returnS False))))))) (\<lambda>_. sound) sound"
      by (simp add: sound_def)
    then show ?thesis unfolding triple_def makerBody_def using True by simp
  next
    case False
    then have "few s" using s by (auto simp: ready_def sound_def safe_iff few_def)
    from triple_weaken [OF new', of "\<lambda>t. t = s" "\<lambda>_. sound" sound] this
    have "triple (\<lambda>t. t = s) (bindS (startMaker client def options) (\<lambda>_. returnS True)) (\<lambda>_. sound) sound" by simp
    then show ?thesis unfolding triple_def makerBody_def using False by simp
  qed
qed

lemma sound_sleepS: "triple sound (sleepS client ms) (\<lambda>_. sound) E"
  unfolding sleepS_def
  by (rule triple_changeS) (auto simp: sound_def intro: quiet_safe quiet_waiting slept safe_ok waiting_ok)

lemma turn_sound:
  assumes "sd_symbol def = symbol"
  shows "triple ready (makerTurn client def options) (\<lambda>_. sound) sound"
proof -
  have "triple sound (\<lambda>s. if \<not> mm_initialized s \<and> e = startupBlocked \<or> e = makerStalled \<or> e = neverReturns
       then (Inl e, s) else (Inr False, s)) (\<lambda>_. sound) sound" for e
    by (simp add: triple_def)
  with body_sound [OF assms] have "triple ready (catchS (makerBody client def options) (\<lambda>e s.
       if \<not> mm_initialized s \<and> e = startupBlocked \<or> e = makerStalled \<or> e = neverReturns
       then (Inl e, s) else (Inr False, s))) (\<lambda>_. sound) sound" by (rule triple_catchS)
  then show ?thesis
    unfolding makerTurn_def by (rule triple_bindS) (intro triple_if triple_returnS sound_sleepS)
qed

text \<open>A run whose starts are not cut off.\<close>

lemma turns_sound:
  assumes "sd_symbol def = symbol" "sound s" "makerTurns client def options n s = (r, s')"
    and "\<And>k t. k < n \<Longrightarrow> makerTurns client def options k s = (Inr (), t) \<Longrightarrow> \<not> mm_initialized t \<Longrightarrow> load (mm_world t) < 200"
  shows "sound s'"
  using assms(2-)
proof (induction n arbitrary: s)
  case 0
  then show ?case by simp
next
  case (Suc n)
  have "ready s" using Suc.prems(1) Suc.prems(3) [of 0 s] by (auto simp: ready_def)
  from Suc.prems(2) show ?case unfolding makerTurns.simps
  proof (cases rule: bindS_cases)
    case (failed e)
    from tripleD [OF turn_sound [OF assms(1)] \<open>ready s\<close> failed(1)] show ?thesis by simp
  next
    case (went_on u t)
    have "sound t" using tripleD [OF turn_sound [OF assms(1)] \<open>ready s\<close> went_on(1)] by simp
    then show ?thesis
    proof (rule Suc.IH)
      show "makerTurns client def options n t = (r, s')" by (rule went_on(2))
      show "load (mm_world t') < 200"
        if "k < n" "makerTurns client def options k t = (Inr (), t')" "\<not> mm_initialized t'" for k t'
        using Suc.prems(3) [of "Suc k" t'] that went_on(1) by (simp add: bindS_def)
    qed
  qed
qed

lemma initial_waiting:
  assumes "initialMaker client def w = Inr s" "ok w" "uncrossed (trm w) (live w)"
  shows "waiting s"
  using assms
  by (auto simp: initialMaker_def result_iffs waiting_def base_def mapsOk_def activeOk_def retiringOk_def guardsOk_def
      elim!: bindE_InrE)

lemma run_sound:
  assumes "sd_symbol def = symbol"
    and "initialMaker client def w = Inr s" "ok w" "uncrossed (trm w) (live w)"
    and "makerTurns client def options n s = (r, s')"
    and "\<forall>k < n. \<forall>t. makerTurns client def options k s = (Inr (), t) \<longrightarrow> \<not> mm_initialized t \<longrightarrow> load (mm_world t) < 200"
  shows "ok (mm_world s')" and "uncrossed (trm (mm_world s')) (live (mm_world s'))"
    and "mm_initialized s' \<Longrightarrow> live (mm_world s') \<subseteq> trackedIds (mm_retirable s') s'"
proof -
  have "waiting s" by (rule initial_waiting [OF assms(2-4)])
  then have "sound s" by (simp add: sound_def)
  then have "sound s'" by (rule turns_sound [OF assms(1) _ assms(5)]) (use assms(6) in blast)
  then show "ok (mm_world s')" and "uncrossed (trm (mm_world s')) (live (mm_world s'))"
    and "mm_initialized s' \<Longrightarrow> live (mm_world s') \<subseteq> trackedIds (mm_retirable s') s'"
    by (auto simp: sound_def safe_def covered_def waiting_def base_def)
qed

end

end
