(* ===== verification/Ladder_Props.thy ===== *)
theory Ladder_Props
  imports Liquidity_Ladder
begin

text \<open>
  The ladders of \<open>Liquidity_Ladder\<close>: the shares of a level add up to the total although every share is
  rounded, the quotes of a ladder stay on their side of the center, and the ladder around preserved
  orders is computed at all exactly when the center is more than ten ticks high.
\<close>

section \<open>Shares\<close>

text \<open>A weight is five times \<open>v\<close>, the weights add up to five times 251.\<close>

lemma weight_total: "LIQUIDITY_WEIGHT_TOTAL = 1255"
  by (simp add: LIQUIDITY_WEIGHT_TOTAL_def LIQUIDITY_LEVEL_WEIGHTS_def)

lemma share_near:
  fixes v t :: int
  assumes "0 \<le> v" "v \<le> 31" "0 \<le> t" "t \<le> 2 ^ 40"
  shows "\<bar>jsMul (jsDiv (of_int (5 * v)) 1255) (of_int t) - of_int (v * t) / 251\<bar> < 1 / 251"
proof -
  define a :: rat where "a = of_int v / 251"
  define z where "z = fl a * of_int t"
  have a: "0 \<le> a" "a \<le> 1" using assms by (simp_all add: a_def)
  have t: "(0::rat) \<le> of_int t" "(of_int t :: rat) \<le> 2 ^ 40"
    using assms(3,4) of_int_le_iff [of t "2 ^ 40", where ?'a = rat] by simp_all
  have fa: "\<bar>fl a - a\<bar> \<le> 1 / 2 ^ 53"
    using fl_error [of a] a by (simp add: field_simps)
  have "\<bar>z - a * of_int t\<bar> = \<bar>fl a - a\<bar> * of_int t"
    using t by (simp add: z_def abs_mult flip: left_diff_distrib)
  also have "\<dots> \<le> 1 / 2 ^ 53 * of_int t" using fa t(1) by (rule mult_right_mono)
  also have "\<dots> \<le> 1 / 2 ^ 53 * 2 ^ 40" using t(2) by (intro mult_left_mono) simp_all
  finally have z: "\<bar>z - a * of_int t\<bar> \<le> 1 / 8192" by simp
  have "a * of_int t \<le> 1 * 2 ^ 40" using a t by (intro mult_mono) simp_all
  moreover have "0 \<le> a * of_int t" using a t by simp
  ultimately have "\<bar>z\<bar> \<le> 2 ^ 41" using z by (simp add: abs_if split: if_splits)
  then have "\<bar>fl z - z\<bar> \<le> 1 / 4096" using fl_error [of z] by (simp add: field_simps)
  with z have "\<bar>fl z - a * of_int t\<bar> < 1 / 251" by linarith
  moreover have "of_int (5 * v) / 1255 = a" by (simp add: a_def)
  ultimately show ?thesis by (simp add: jsMul_def jsDiv_def z_def a_def)
qed

text \<open>The floor of a share, scaled back, lies at the exact share or at most one below.\<close>

lemma floor_share:
  fixes v t :: int
  assumes "0 \<le> v" "v \<le> 31" "0 \<le> t" "t \<le> 2 ^ 40"
  defines "q \<equiv> \<lfloor>jsMul (jsDiv (of_int (5 * v)) 1255) (of_int t)\<rfloor>"
  shows "251 * q \<le> v * t" and "v * t \<le> 251 * (q + 1)"
proof -
  let ?y = "jsMul (jsDiv (of_int (5 * v)) 1255) (of_int t)"
  have near: "?y < of_int (v * t) / 251 + 1 / 251" "of_int (v * t) / 251 - 1 / 251 < ?y"
    using share_near [OF assms(1-4)] unfolding abs_less_iff by linarith+
  have "of_int q \<le> ?y" "?y < of_int q + 1" using floor_correct [of ?y] by (simp_all add: q_def)
  with near have "of_int q * 251 < (of_int (v * t) + 1 :: rat)" "(of_int (v * t) - 1 :: rat) < (of_int q + 1) * 251"
    by (simp_all add: field_simps)
  then have "(of_int (q * 251) :: rat) < of_int (v * t + 1)" "(of_int (v * t - 1) :: rat) < of_int ((q + 1) * 251)"
    by simp_all
  then show "251 * q \<le> v * t" "v * t \<le> 251 * (q + 1)" unfolding of_int_less_iff by simp_all
qed

lemma sum_list_put:
  fixes q :: "int list"
  shows "i < length q \<Longrightarrow> sum_list (q[i := x]) = sum_list q + x - q ! i"
proof (induction q arbitrary: i)
  case (Cons y q)
  then show ?case by (cases i) simp_all
qed simp

lemma bump_fold:
  fixes q :: "int list"
  assumes "set is \<subseteq> {..<length q}"
  shows "length (fold (\<lambda>i q. q[i := q ! i + 1]) is q) = length q \<and>
    sum_list (fold (\<lambda>i q. q[i := q ! i + 1]) is q) = sum_list q + int (length is) \<and>
    (\<forall>j < length q. q ! j \<le> fold (\<lambda>i q. q[i := q ! i + 1]) is q ! j)"
  using assms
proof (induction "is" arbitrary: q)
  case (Cons i "is")
  have "set is \<subseteq> {..<length (q[i := q ! i + 1])}" using Cons.prems by simp
  note IH = Cons.IH [OF this]
  have "q ! j \<le> q[i := q ! i + 1] ! j" if "j < length q" for j
    using that by (cases "j = i") simp_all
  with IH show ?case using Cons.prems sum_list_put [of i q "q ! i + 1"] by (auto intro: order_trans)
qed simp

lemma fractionalOrder_set:
  "set (fractionalOrder raw) = {..<length raw}" "length (fractionalOrder raw) = length raw"
proof -
  let ?z = "zip [0..<length raw] (map (\<lambda>v. jsSub v (of_int \<lfloor>v\<rfloor>)) raw)"
  have m: "map fst ?z = [0..<length raw]" by simp
  have "fst ` set ?z = set (map fst ?z)" by (simp only: set_map)
  then show "set (fractionalOrder raw) = {..<length raw}" by (auto simp: fractionalOrder_def m)
  show "length (fractionalOrder raw) = length raw" by (simp add: fractionalOrder_def)
qed

lemma roundedShares_sum:
  assumes "120 \<le> t" "t \<le> 2 ^ 40"
  shows "length (roundedShares t) = 12 \<and> sum_list (roundedShares t) = t \<and> (\<forall>j < 12. 1 \<le> roundedShares t ! j)"
proof -
  let ?vs = "[20, 24, 28, 31, 30, 27, 23, 19, 16, 13, 11, 9] :: int list"
  let ?q = "map floor (rawShares t)"
  have q: "?q = map (\<lambda>v. \<lfloor>jsMul (jsDiv (of_int (5 * v)) 1255) (of_int t)\<rfloor>) ?vs"
    unfolding rawShares_def weight_total LIQUIDITY_LEVEL_WEIGHTS_def by simp
  have t: "0 \<le> t" using assms by simp
  have share: "251 * (?q ! j) \<le> ?vs ! j * t \<and> ?vs ! j * t \<le> 251 * (?q ! j + 1)" if "j < 12" for j
  proof -
    have "?vs ! j \<in> set ?vs" using that by (intro nth_mem) simp
    then have v: "9 \<le> ?vs ! j" "?vs ! j \<le> 31" by auto
    have "?q ! j = \<lfloor>jsMul (jsDiv (of_int (5 * ?vs ! j)) 1255) (of_int t)\<rfloor>"
      unfolding q using that by (subst nth_map) simp_all
    then show ?thesis using floor_share [of "?vs ! j" t] v t assms by simp
  qed
  have len: "length ?q = 12" by (simp add: q)
  have all: "(\<forall>j < (12::nat). P j) \<longleftrightarrow> P 0 \<and> P 1 \<and> P 2 \<and> P 3 \<and> P 4 \<and> P 5 \<and> P 6 \<and> P 7 \<and> P 8 \<and> P 9 \<and> P 10 \<and> P 11"
    for P :: "nat \<Rightarrow> bool"
    by (simp add: numeral_eq_Suc All_less_Suc) blast
  have sums: "sum_list ?q = (\<Sum>j<12. ?q ! j)" using len by (simp add: sum_list_sum_nth atLeast0LessThan)
  have vs: "(\<Sum>j<12. ?vs ! j) = 251" by (simp add: numeral_eq_Suc lessThan_Suc)
  have "(\<Sum>j<12. 251 * (?q ! j)) \<le> (\<Sum>j<12. ?vs ! j * t)" using share by (intro sum_mono) simp
  then have le: "251 * sum_list ?q \<le> 251 * t"
    by (simp only: sums vs flip: sum_distrib_left sum_distrib_right)
  have "(\<Sum>j<12. ?vs ! j * t) \<le> (\<Sum>j<12. 251 * (?q ! j + 1))" using share by (intro sum_mono) simp
  then have ge: "251 * t \<le> 251 * (sum_list ?q + 12)"
    by (simp add: sums vs sum.distrib flip: sum_distrib_left sum_distrib_right)
  have pos: "1 \<le> ?q ! j" if "j < 12" for j
  proof -
    have "?vs ! j \<in> set ?vs" using that by (intro nth_mem) simp
    then have "9 \<le> ?vs ! j" by auto
    then have "9 * 120 \<le> ?vs ! j * t" using assms by (intro mult_mono) simp_all
    moreover have "?vs ! j * t \<le> 251 * (?q ! j + 1)" using share [OF that] by (rule conjunct2)
    ultimately have "9 * 120 \<le> 251 * (?q ! j + 1)" by (rule order_trans)
    then show ?thesis by simp
  qed
  define n where "n = nat (t - sum_list ?q)"
  have n: "n \<le> 12" "int n = t - sum_list ?q" using le ge by (simp_all add: n_def)
  have raw: "length (rawShares t) = 12" using len by simp
  let ?is = "take n (fractionalOrder (rawShares t))"
  have "set ?is \<subseteq> {..<length ?q}" using set_take_subset [of n "fractionalOrder (rawShares t)"] by (auto simp: fractionalOrder_set)
  note bump = bump_fold [OF this]
  have r: "roundedShares t = fold (\<lambda>i q. q[i := q ! i + 1]) ?is ?q"
    by (simp add: roundedShares_def Let_def n_def)
  have "1 \<le> roundedShares t ! j" if "j < 12" for j
  proof -
    have "j < length ?q" using that by (simp only: len)
    then have "?q ! j \<le> roundedShares t ! j" using conjunct2 [OF conjunct2 [OF bump]] unfolding r by blast
    with pos [OF that] show ?thesis by (rule order_trans)
  qed
  moreover have "length ?is = n" using n raw by (simp add: fractionalOrder_set)
  ultimately show ?thesis using bump n len unfolding r by simp
qed

section \<open>The best level\<close>

lemma fullestDonor_max:
  assumes "2 \<le> length q"
  shows "1 \<le> fullestDonor q \<and> fullestDonor q < length q \<and> (\<forall>j. 1 \<le> j \<longrightarrow> j < length q \<longrightarrow> q ! j \<le> q ! fullestDonor q)"
proof -
  let ?f = "\<lambda>i donor. if q ! i > q ! donor then i else donor"
  have fold: "1 \<le> fold ?f [2..<2 + n] 1 \<and> fold ?f [2..<2 + n] 1 < 2 + n \<and>
      (\<forall>j. 1 \<le> j \<longrightarrow> j < 2 + n \<longrightarrow> q ! j \<le> q ! fold ?f [2..<2 + n] 1)" for n
  proof (induction n)
    case 0
    have "q ! j \<le> q ! 1" if "1 \<le> j" "j < 2" for j
    proof -
      have "j = 1" using that by simp
      then show ?thesis by simp
    qed
    then show ?case by simp
  next
    case (Suc n)
    define d where "d = fold ?f [2..<2 + n] 1"
    have e: "fold ?f [2..<2 + Suc n] 1 = ?f (2 + n) d" by (simp add: upt_Suc_append d_def)
    have d: "1 \<le> d" "d < 2 + n" "\<And>j. 1 \<le> j \<Longrightarrow> j < 2 + n \<Longrightarrow> q ! j \<le> q ! d"
      using Suc.IH unfolding d_def by blast+
    have "q ! j \<le> q ! ?f (2 + n) d" if "1 \<le> j" "j < 2 + Suc n" for j
    proof (cases "j = 2 + n")
      case False
      then have "q ! j \<le> q ! d" using that d(3) by simp
      then show ?thesis by simp
    qed simp
    moreover have "1 \<le> ?f (2 + n) d" "?f (2 + n) d < 2 + Suc n" using d(1,2) by simp_all
    ultimately show ?case unfolding e by blast
  qed
  obtain n where "length q = 2 + n" using assms le_Suc_ex by blast
  then show ?thesis using fold [of n] by (simp add: fullestDonor_def)
qed

lemma find_someD: "find P xs = Some x \<Longrightarrow> x \<in> set xs \<and> P x"
  by (induction xs) (auto split: if_splits)

lemma fillBest_keeps:
  assumes "2 \<le> length q" "\<forall>j < length q. 1 \<le> q ! j"
  shows "length (fillBest near n q) = length q \<and> sum_list (fillBest near n q) = sum_list q \<and>
    (\<forall>j < length q. 1 \<le> fillBest near n q ! j) \<and>
    (fillBest near n q ! 0 = q ! 0 + int n \<or> (\<forall>j. 1 \<le> j \<longrightarrow> j < length q \<longrightarrow> fillBest near n q ! j \<le> 1))"
  using assms
proof (induction near n q rule: fillBest.induct)
  case (2 near n q)
  let ?donor = "if near then farthestDonor q else Some (fullestDonor q)"
  have far: "(case farthestDonor q of None \<Rightarrow> \<forall>j. 1 \<le> j \<longrightarrow> j < length q \<longrightarrow> q ! j \<le> 1
      | Some d \<Rightarrow> 1 \<le> d \<and> d < length q \<and> q ! d > 1)"
  proof (cases "farthestDonor q")
    case None
    then have "\<forall>j. 1 \<le> j \<longrightarrow> j < length q \<longrightarrow> q ! j \<le> 1" by (auto simp: farthestDonor_def find_None_iff not_less)
    then show ?thesis using None by simp
  next
    case (Some d)
    then have "d \<in> set (rev [1..<length q])" "q ! d > 1" unfolding farthestDonor_def by (auto dest: find_someD)
    then show ?thesis using Some by simp
  qed
  note full = fullestDonor_max [OF 2(2)]
  show ?case
  proof (cases ?donor)
    case None
    then have "near" "farthestDonor q = None" by (simp_all split: if_splits)
    then show ?thesis using far 2(3) by simp
  next
    case (Some d)
    have d: "1 \<le> d" "d < length q" using Some far full by (auto split: if_splits)
    show ?thesis
    proof (cases "q ! d \<le> 1")
      case True
      then have "\<not> near" using Some far by (auto split: if_splits)
      then have "\<forall>j. 1 \<le> j \<longrightarrow> j < length q \<longrightarrow> q ! j \<le> 1" using Some full True by (auto intro: order_trans)
      then show ?thesis using Some True 2(3) by simp
    next
      case False
      let ?p = "q[d := q ! d - 1, 0 := q ! 0 + 1]"
      have p: "2 \<le> length ?p" "\<forall>j < length ?p. 1 \<le> ?p ! j"
      proof -
        have z: "0 < length q" using d(2) by linarith
        then have "1 \<le> q ! 0" using 2(3) by blast
        then have first: "0 \<le> q ! 0" by simp
        then have "1 \<le> ?p ! j" if "j < length q" for j
          using first that 2(3) z d False by (cases "j = 0"; cases "j = d") simp_all
        then show "\<forall>j < length ?p. 1 \<le> ?p ! j" by simp
      qed (use 2(2) in simp)
      have s: "sum_list ?p = sum_list q"
      proof -
        have "q \<noteq> []" using d by auto
        then have "sum_list ?p = sum_list (q[d := q ! d - 1]) + (q ! 0 + 1 - q ! 0)"
          using d 2(2) by (subst sum_list_put) (simp_all add: nth_list_update)
        also have "sum_list (q[d := q ! d - 1]) = sum_list q - 1"
          using d by (subst sum_list_put) simp_all
        finally show ?thesis by simp
      qed
      have z: "?p ! 0 = q ! 0 + 1"
      proof -
        have "q \<noteq> []" using d by auto
        then show ?thesis by simp
      qed
      from 2(1) [OF Some False p] show ?thesis using Some False s z by (simp add: add.assoc)
    qed
  qed
qed simp

lemma profile_quantities:
  assumes "120 \<le> t" "t \<le> 2 ^ 40" and q: "q = liquidityQtyByLevelForProfile t m near"
  shows "length q = 12" "sum_list q = t" "j < 12 \<Longrightarrow> 1 \<le> q ! j" "min m (t - 11) \<le> q ! 0"
proof -
  let ?s = "roundedShares t"
  let ?floor = "min m (t - 11)"
  have s: "length ?s = 12" "sum_list ?s = t" "\<forall>j < 12. 1 \<le> ?s ! j" using roundedShares_sum [OF assms(1,2)] by auto
  have f: "q = fillBest near (nat (max 0 (?floor - ?s ! 0))) ?s"
    by (simp add: q liquidityQtyByLevelForProfile_def Let_def LIQUIDITY_DISTANCE_TICKS_def)
  have k: "length q = 12" "sum_list q = t" "\<forall>j < 12. 1 \<le> q ! j"
    "q ! 0 = ?s ! 0 + max 0 (?floor - ?s ! 0) \<or> (\<forall>j. 1 \<le> j \<longrightarrow> j < 12 \<longrightarrow> q ! j \<le> 1)"
    using fillBest_keeps [of ?s near "nat (max 0 (?floor - ?s ! 0))"] s unfolding f by auto
  show "length q = 12" "sum_list q = t" by (fact k)+
  show "1 \<le> q ! j" if "j < 12" using k(3) that by blast
  show "?floor \<le> q ! 0"
    using k(4)
  proof
    assume "\<forall>j. 1 \<le> j \<longrightarrow> j < 12 \<longrightarrow> q ! j \<le> 1"
    then have "(\<Sum>j = 1..<12. q ! j) \<le> (\<Sum>j = (1::nat)..<12. 1)" by (intro sum_mono) auto
    moreover have "t = q ! 0 + (\<Sum>j = 1..<12. q ! j)"
      using k(1,2) by (simp add: sum_list_sum_nth sum.atLeast_Suc_lessThan)
    ultimately show ?thesis by simp
  qed simp
qed

section \<open>The symmetric ladder\<close>

lemma total_range: "120 \<le> liquidityTotalQty c" "liquidityTotalQty c \<le> 2 ^ 40"
  by (simp_all add: liquidityTotalQty_def liquidityTotalQtyForPrice_def Let_def LIQUIDITY_MIN_TOTAL_QTY_def
      LIQUIDITY_MAX_TOTAL_QTY_def)

lemma symbol_quantities:
  assumes "q = liquidityQtyByLevelForSymbol def c"
  shows "length q = 12" "sum_list q = liquidityTotalQty c" "j < 12 \<Longrightarrow> 1 \<le> q ! j" "liquidityMinimumBestQty def \<le> q ! 0"
proof -
  have q: "q = liquidityQtyByLevelForProfile (liquidityTotalQty c) (liquidityMinimumBestQty def) (isHighPriceListing def)"
    by (simp add: assms liquidityQtyByLevelForSymbol_def Let_def liquidityMinimumBestQty_def)
  note k = profile_quantities [OF total_range q]
  show "length q = 12" "sum_list q = liquidityTotalQty c" "j < 12 \<Longrightarrow> 1 \<le> q ! j" by (fact k)+
  have "liquidityMinimumBestQty def \<le> 80"
    by (simp add: liquidityMinimumBestQty_def SAKU_MIN_BEST_QTY_def LIQUIDITY_MIN_BEST_QTY_def)
  then show "liquidityMinimumBestQty def \<le> q ! 0" using k(4) total_range(1) [of c] by linarith
qed

lemma alignToTick_Inr:
  assumes "alignToTick price tick = Inr center"
  shows "0 < tick" "tick dvd center" "tick \<le> center"
  using assms by (auto simp: alignToTick_def max_def split: if_splits)

lemma alignToTick_total: "0 < tick \<Longrightarrow> \<exists>c. alignToTick price tick = Inr c"
  by (simp add: alignToTick_def)

lemma sidePrice_eq:
  assumes "level < 12"
  shows "sidePrice def center BUY level = center - (int level + 1) * sd_tickSize def"
    and "sidePrice def center SELL level = center + (int level + 1) * sd_tickSize def"
proof -
  have "LIQUIDITY_DISTANCE_TICKS = map (\<lambda>i. int i + 1) [0..<12]" by (simp add: LIQUIDITY_DISTANCE_TICKS_def numeral_eq_Suc upt_Suc_append)
  then have "LIQUIDITY_DISTANCE_TICKS ! level = map (\<lambda>i. int i + 1) [0..<12] ! level" by (rule arg_cong)
  also have "\<dots> = int ([0..<12] ! level) + 1" using assms by (intro nth_map) (simp only: length_upt)
  also have "[0..<12] ! level = level" using nth_upt [of 0 level 12] assms by (simp only: add_0)
  finally have "LIQUIDITY_DISTANCE_TICKS ! level = int level + 1" .
  then show "sidePrice def center BUY level = center - (int level + 1) * sd_tickSize def"
    and "sidePrice def center SELL level = center + (int level + 1) * sd_tickSize def"
    by (simp_all add: sidePrice_def Let_def)
qed

definition sideQty :: "order_side \<Rightarrow> liquidity_quote list \<Rightarrow> int" where
  "sideQty side quotes = sum_list (map lq_qty (filter (\<lambda>q. lq_side q = side) quotes))"

lemma sideQty_levels:
  "sideQty SELL (concat (map (levelQuotes def center bidQty askQty) levels)) = (\<Sum>l\<leftarrow>levels. askQty ! l)"
  "sideQty BUY (concat (map (levelQuotes def center bidQty askQty) levels)) =
     (\<Sum>l\<leftarrow>levels. if sidePrice def center BUY l \<ge> sd_tickSize def then bidQty ! l else 0)"
  by (induction levels) (simp_all add: sideQty_def levelQuotes_def Let_def liquidityQuote_def)

lemma ladderLevels_eq: "ladderLevels = [0..<12]"
proof -
  have "length LIQUIDITY_DISTANCE_TICKS = 12" by (simp add: LIQUIDITY_DISTANCE_TICKS_def)
  then show ?thesis by (simp only: ladderLevels_def)
qed

lemma levels_sum: "length q = 12 \<Longrightarrow> (\<Sum>l\<leftarrow>ladderLevels. q ! l) = sum_list (q :: int list)"
proof -
  assume "length q = 12"
  with map_nth [of q] have "map ((!) q) ladderLevels = q" by (simp only: ladderLevels_eq)
  then show ?thesis by (simp only: )
qed

lemma base_quotes:
  assumes "buildBaseLiquidityLadder def price = Inr quotes" "alignToTick price (sd_tickSize def) = Inr center"
  obtains q where "q = liquidityQtyByLevelForSymbol def center" "quotes = concat (map (levelQuotes def center q q) ladderLevels)"
  using assms by (simp add: buildBaseLiquidityLadder_def Let_def)

lemma ladder_level: "l \<in> set ladderLevels \<Longrightarrow> l < 12"
  by (simp only: ladderLevels_eq set_upt atLeastLessThan_iff)

text \<open>No bid is dropped when the center is more than twelve ticks above zero.\<close>

lemma bids_stand:
  assumes "0 < sd_tickSize def" "sd_tickSize def dvd center" "12 * sd_tickSize def < center" "l < 12"
  shows "sd_tickSize def \<le> sidePrice def center BUY l"
proof -
  let ?tick = "sd_tickSize def"
  obtain m where m: "center = ?tick * m" using assms(2) by blast
  then have "13 \<le> m" using assms(1,3) by (simp add: mult.commute)
  then have "(int l + 2) * ?tick \<le> m * ?tick" using assms(1,4) by (intro mult_right_mono) simp_all
  then show ?thesis using assms(4) by (simp add: sidePrice_eq m algebra_simps)
qed

lemma base_bids:
  fixes q :: "int list"
  assumes "0 < sd_tickSize def" "sd_tickSize def dvd center" and "\<And>l. l < 12 \<Longrightarrow> 1 \<le> q ! l"
  defines "bids \<equiv> (\<Sum>l\<leftarrow>ladderLevels. if sidePrice def center BUY l \<ge> sd_tickSize def then q ! l else 0)"
  shows "bids \<le> (\<Sum>l\<leftarrow>ladderLevels. q ! l)"
    and "12 * sd_tickSize def < center \<Longrightarrow> bids = (\<Sum>l\<leftarrow>ladderLevels. q ! l)"
proof -
  show "bids \<le> (\<Sum>l\<leftarrow>ladderLevels. q ! l)"
    unfolding bids_def
  proof (rule sum_list_mono)
    fix l assume "l \<in> set ladderLevels"
    then have "1 \<le> q ! l" using ladder_level assms(3) by blast
    then show "(if sidePrice def center BUY l \<ge> sd_tickSize def then q ! l else 0) \<le> q ! l" by simp
  qed
  show "bids = (\<Sum>l\<leftarrow>ladderLevels. q ! l)" if "12 * sd_tickSize def < center"
    unfolding bids_def using bids_stand [OF assms(1,2) that] ladder_level
    by (intro arg_cong [where f = sum_list] map_cong) simp_all
qed

lemma level_quote_ok:
  assumes "0 < sd_tickSize def" "sd_tickSize def dvd center" "l < 12" "x \<in> set (levelQuotes def center q q l)"
    and "1 \<le> q ! l" "liquidityMinimumBestQty def \<le> q ! 0" "0 < center"
  shows "1 \<le> lq_qty x \<and> 0 < lq_price x \<and> sd_tickSize def dvd lq_price x \<and>
    (case lq_side x of BUY \<Rightarrow> lq_price x < center | SELL \<Rightarrow> center < lq_price x) \<and>
    (lq_level x = 0 \<longrightarrow> liquidityMinimumBestQty def \<le> lq_qty x)"
proof -
  let ?tick = "sd_tickSize def"
  obtain d where d: "(int l + 1) * ?tick = d" "0 < d" "?tick dvd d" using assms(1) by simp
  note side = sidePrice_eq [OF assms(3), of def center, unfolded d(1)]
  from assms(4) consider
      (bid) "x = liquidityQuote def BUY l (sidePrice def center BUY l) (q ! l)" "?tick \<le> sidePrice def center BUY l"
    | (ask) "x = liquidityQuote def SELL l (sidePrice def center SELL l) (q ! l)"
    by (auto simp: levelQuotes_def Let_def split: if_splits)
  then show ?thesis using assms(1,2,5-7) d by cases (auto simp: liquidityQuote_def side)
qed

text \<open>
  C32. The ordinary ladder of a market maker: every share of the total that the center price calls for is
  quoted - the twelve asks add up to it exactly, and so do the bids unless the price is so low that
  some of them would fall below one tick - although each share is rounded on its own. Every quote has at
  least one share and a positive price on the tick grid, bids lie strictly below the center and asks
  strictly above it, and the best quotes keep the minimum size of the listing.
\<close>

theorem base_ladder_exact:
  assumes "buildBaseLiquidityLadder def price = Inr quotes"
  shows "\<exists>center. alignToTick price (sd_tickSize def) = Inr center \<and>
    sideQty SELL quotes = liquidityTotalQty center \<and> sideQty BUY quotes \<le> liquidityTotalQty center \<and>
    (12 * sd_tickSize def < center \<longrightarrow> sideQty BUY quotes = liquidityTotalQty center) \<and>
    (\<forall>q \<in> set quotes. 1 \<le> lq_qty q \<and> 0 < lq_price q \<and> sd_tickSize def dvd lq_price q \<and>
       (case lq_side q of BUY \<Rightarrow> lq_price q < center | SELL \<Rightarrow> center < lq_price q) \<and>
       (lq_level q = 0 \<longrightarrow> liquidityMinimumBestQty def \<le> lq_qty q))"
proof -
  from assms obtain center where c: "alignToTick price (sd_tickSize def) = Inr center"
    unfolding buildBaseLiquidityLadder_def by (rule bindE_InrE)
  obtain q where q: "q = liquidityQtyByLevelForSymbol def center"
    and quotes: "quotes = concat (map (levelQuotes def center q q) ladderLevels)" by (rule base_quotes [OF assms c])
  note t = alignToTick_Inr [OF c]
  note k = symbol_quantities [OF q]
  note qty = sideQty_levels levels_sum [OF k(1)]
  note bids = base_bids [OF t(1,2) k(3), unfolded levels_sum [OF k(1)] k(2)]
  have "sideQty SELL quotes = liquidityTotalQty center" unfolding quotes qty by (rule k(2))
  moreover have "sideQty BUY quotes \<le> liquidityTotalQty center" unfolding quotes qty by (rule bids(1))
  moreover have "12 * sd_tickSize def < center \<longrightarrow> sideQty BUY quotes = liquidityTotalQty center"
    unfolding quotes qty using bids(2) by blast
  moreover have "1 \<le> lq_qty x \<and> 0 < lq_price x \<and> sd_tickSize def dvd lq_price x \<and>
       (case lq_side x of BUY \<Rightarrow> lq_price x < center | SELL \<Rightarrow> center < lq_price x) \<and>
       (lq_level x = 0 \<longrightarrow> liquidityMinimumBestQty def \<le> lq_qty x)" if x: "x \<in> set quotes" for x
  proof -
    obtain l where l: "l < 12" "x \<in> set (levelQuotes def center q q l)" using x ladder_level unfolding quotes by auto
    have "0 < center" using t(1,3) by linarith
    with level_quote_ok [OF t(1,2) l k(3) [OF l(1)] k(4)] show ?thesis .
  qed
  ultimately show ?thesis using c by blast
qed

section \<open>When the guarded ladder is computed\<close>

lemma allocateRest_returns:
  assumes "\<forall>p \<in> set prices. 0 < p" "prices \<noteq> []" "set order \<subseteq> {..<length prices}"
  shows "\<exists>r. allocateRest prices order unallocated q = Some r"
proof (induction "nat unallocated" arbitrary: unallocated q rule: less_induct)
  case less
  show ?case
  proof (cases "unallocated < Min (set prices)")
    case True
    then show ?thesis by (subst allocateRest.simps) simp
  next
    case False
    have "0 < Min (set prices)" using assms(1,2) by simp
    with False have u: "0 < unallocated" by simp
    show ?thesis
    proof (cases "find (\<lambda>level. prices ! level \<le> unallocated) order")
      case None
      then show ?thesis by (subst allocateRest.simps) simp
    next
      case (Some level)
      have "level \<in> set order" using find_someD [OF Some] by blast
      then have "0 < prices ! level" using assms(1,3) by (auto intro: nth_mem)
      then have "nat (unallocated - prices ! level) < nat unallocated" using u by simp
      from less [OF this] show ?thesis using False Some by (subst allocateRest.simps) simp
    qed
  qed
qed

text \<open>A price that is not positive always fits, so the loop goes on for ever.\<close>

lemma allocateRest_endless:
  assumes "allocateRest prices order unallocated q = Some r"
  shows "\<not> (0 \<le> unallocated \<and> set order \<subseteq> {..<length prices} \<and> (\<exists>i \<in> set order. prices ! i \<le> 0))"
proof (rule allocateRest.raw_induct [where P = "\<lambda>prices order unallocated q r.
    \<not> (0 \<le> unallocated \<and> set order \<subseteq> {..<length prices} \<and> (\<exists>i \<in> set order. prices ! i \<le> 0))", OF _ assms])
  fix f :: "int list \<Rightarrow> nat list \<Rightarrow> int \<Rightarrow> int list \<Rightarrow> int list option" and prices order u q r
  assume IH: "\<And>prices order u q r. f prices order u q = Some r \<Longrightarrow>
      \<not> (0 \<le> u \<and> set order \<subseteq> {..<length prices} \<and> (\<exists>i \<in> set order. prices ! i \<le> 0))"
    and step: "(if u < Min (set prices) then Some q
      else case find (\<lambda>level. prices ! level \<le> u) order of None \<Rightarrow> Some q
        | Some level \<Rightarrow> f prices order (u - prices ! level) (q[level := q ! level + 1])) = Some r"
  show "\<not> (0 \<le> u \<and> set order \<subseteq> {..<length prices} \<and> (\<exists>i \<in> set order. prices ! i \<le> 0))"
  proof
    assume a: "0 \<le> u \<and> set order \<subseteq> {..<length prices} \<and> (\<exists>i \<in> set order. prices ! i \<le> 0)"
    then obtain i where i: "i \<in> set order" "prices ! i \<le> 0" by blast
    then have "prices ! i \<in> set prices" using a by auto
    then have "Min (set prices) \<le> prices ! i" by simp
    then have "\<not> u < Min (set prices)" using i(2) a by simp
    with step have find: "(case find (\<lambda>level. prices ! level \<le> u) order of None \<Rightarrow> Some q
        | Some level \<Rightarrow> f prices order (u - prices ! level) (q[level := q ! level + 1])) = Some r" by simp
    show False
    proof (cases "find (\<lambda>level. prices ! level \<le> u) order")
      case None
      then have "\<not> prices ! i \<le> u" using i(1) by (auto simp: find_None_iff)
      then show ?thesis using i(2) a by simp
    next
      case (Some level)
      then have "prices ! level \<le> u" using find_someD [OF Some] by blast
      moreover have "f prices order (u - prices ! level) (q[level := q ! level + 1]) = Some r" using find Some by simp
      from IH [OF this] have "\<not> 0 \<le> u - prices ! level" using a by blast
      ultimately show ?thesis by simp
    qed
  qed
qed

lemma visiblePrices_nth:
  "length (visiblePrices def center side) = 10"
  "i < 10 \<Longrightarrow> visiblePrices def center BUY ! i = center - (int i + 1) * sd_tickSize def"
  "i < 10 \<Longrightarrow> visiblePrices def center SELL ! i = center + (int i + 1) * sd_tickSize def"
proof -
  show "length (visiblePrices def center side) = 10" by (simp add: visiblePrices_def VISIBLE_LIQUIDITY_LEVELS_def)
  have nth: "visiblePrices def center s ! i = sidePrice def center s i" if "i < 10" for s
    using nth_map_upt [of i 10 0 "sidePrice def center s"] that by (simp only: visiblePrices_def VISIBLE_LIQUIDITY_LEVELS_def) simp
  show "i < 10 \<Longrightarrow> visiblePrices def center BUY ! i = center - (int i + 1) * sd_tickSize def"
    "i < 10 \<Longrightarrow> visiblePrices def center SELL ! i = center + (int i + 1) * sd_tickSize def"
    using sidePrice_eq [of i def center] by (simp_all only: nth)
qed

lemma both_some:
  "(\<exists>l. Inr (case x of None \<Rightarrow> None | Some a \<Rightarrow> (case y of None \<Rightarrow> None | Some b \<Rightarrow> Some (f a b))) = Inr (Some l)) \<longleftrightarrow>
     (\<exists>a. x = Some a) \<and> (\<exists>b. y = Some b)"
  by (auto split: option.splits)

lemma sideQuantities_returns:
  assumes "0 < sd_tickSize def" "0 < center"
  shows "(\<exists>q. guardAwareSideQuantities def center side budget best = Some q) \<longleftrightarrow>
    side = SELL \<or> 10 * sd_tickSize def < center"
proof -
  let ?p = "visiblePrices def center side"
  have "\<exists>order u q. guardAwareSideQuantities def center side budget best = allocateRest ?p order u q \<and>
      set order = {..<10} \<and> 0 \<le> u"
    unfolding guardAwareSideQuantities_def Let_def
    by (intro exI conjI, rule refl) (simp_all only: fractionalOrder_set length_map length_upt VISIBLE_LIQUIDITY_LEVELS_def diff_zero max.cobounded1)
  then obtain order u q where g: "guardAwareSideQuantities def center side budget best = allocateRest ?p order u q"
    and order: "set order = {..<10}" and u: "0 \<le> u" by blast
  have o': "set order \<subseteq> {..<length ?p}" by (simp add: order visiblePrices_nth)
  show ?thesis
  proof (cases "side = SELL \<or> 10 * sd_tickSize def < center")
    case True
    have "0 < p" if "p \<in> set ?p" for p
    proof -
      from that have "\<exists>i < length ?p. ?p ! i = p" by (simp only: in_set_conv_nth)
      then obtain i where "i < length ?p" "?p ! i = p" by (elim exE conjE)
      then have i: "i < 10" "p = ?p ! i" by (simp_all only: visiblePrices_nth(1))
      have "(int i + 1) * sd_tickSize def \<le> 10 * sd_tickSize def"
        using i(1) assms(1) by (intro mult_right_mono) simp_all
      then obtain d where d: "(int i + 1) * sd_tickSize def = d" "d \<le> 10 * sd_tickSize def" "0 < d"
        using assms(1) by simp
      show ?thesis
        using True assms(2) d(2,3) i(2) visiblePrices_nth(2,3) [OF i(1), of def center, unfolded d(1)]
        by (cases side) simp_all
    qed
    moreover have "?p \<noteq> []" using visiblePrices_nth(1) [of def center side] by auto
    ultimately have "\<exists>r. allocateRest ?p order u q = Some r" using allocateRest_returns o' by blast
    then show ?thesis using True by (simp add: g)
  next
    case False
    then have side: "side = BUY" by (cases side) simp_all
    have "9 \<in> set order" by (simp add: order)
    moreover have "?p ! 9 \<le> 0" using False by (simp add: side visiblePrices_nth)
    ultimately have "allocateRest ?p order u q \<noteq> Some r" for r using allocateRest_endless [of ?p order u q r] u o' by blast
    then show ?thesis using False by (simp add: g)
  qed
qed

text \<open>
  C31. When the ladder around orders that cannot be cancelled is computed at all: for a guard with shares
  left, \<open>buildLiquidityLadder\<close> returns exactly when the center is more than ten ticks above zero. At ten
  ticks or below one of the visible bid prices is not positive, and the loop that hands out what rounding
  has left never ends.
\<close>

theorem guarded_ladder_returns_iff:
  assumes "alignToTick price (sd_tickSize def) = Inr center" "\<exists>g \<in> set preserved. 0 < pq_qty g"
  shows "(\<exists>quotes. buildLiquidityLadder def price preserved = Inr (Some quotes)) \<longleftrightarrow> 10 * sd_tickSize def < center"
proof -
  let ?kept = "filter (\<lambda>q. pq_qty q > 0) preserved"
  have t: "0 < sd_tickSize def" "0 < center" using alignToTick_Inr [OF assms(1)] by simp_all
  have kept: "?kept \<noteq> []" using assms(2) by (auto simp: filter_empty_conv)
  obtain c where c: "alignToTick (of_int center) (sd_tickSize def) = Inr c" using alignToTick_total [OF t(1)] by blast
  obtain base where base: "buildBaseLiquidityLadder def (of_int center) = Inr base"
    by (simp add: buildBaseLiquidityLadder_def c Let_def)
  obtain f where f: "preservedVisibleNotional def (of_int center) (usableGuards ?kept) = Inr f"
    by (simp add: preservedVisibleNotional_def c)
  have "\<exists>b1 m1 b2 m2. (\<exists>l. buildGuardAwareLiquidityLadder def price ?kept = Inr (Some l)) \<longleftrightarrow>
      (\<exists>q. guardAwareSideQuantities def center BUY b1 m1 = Some q) \<and>
      (\<exists>q. guardAwareSideQuantities def center SELL b2 m2 = Some q)"
    unfolding buildGuardAwareLiquidityLadder_def assms(1) bindE_Inr base f Let_def
    by (intro exI, rule both_some)
  then obtain b1 m1 b2 m2 where
    g: "(\<exists>l. buildGuardAwareLiquidityLadder def price ?kept = Inr (Some l)) \<longleftrightarrow>
      (\<exists>q. guardAwareSideQuantities def center BUY b1 m1 = Some q) \<and>
      (\<exists>q. guardAwareSideQuantities def center SELL b2 m2 = Some q)" by blast
  have "(\<exists>quotes. buildLiquidityLadder def price preserved = Inr (Some quotes)) \<longleftrightarrow>
      (\<exists>l. buildGuardAwareLiquidityLadder def price ?kept = Inr (Some l))"
    using kept by (cases "buildGuardAwareLiquidityLadder def price ?kept") (simp_all add: buildLiquidityLadder_def)
  then show ?thesis unfolding g sideQuantities_returns [OF t] by simp
qed

section \<open>Examples\<close>

definition demoListed :: symbol_def where
  "demoListed = \<lparr>sd_symbol = ''KABU'', sd_initialPrice = 120000, sd_tickSize = 100, sd_listedShares = 10000000\<rparr>"

lemma demo_align: "alignToTick 120000 100 = Inr 120000" "alignToTick 1000 100 = Inr 1000"
  using roundQuot_eq [of 120000 100] roundQuot_eq [of 1000 100] by (simp_all add: alignToTick_def roundQuot_def)

lemma base_ladder_exact_witness:
  "\<exists>quotes. buildBaseLiquidityLadder demoListed 120000 = Inr quotes \<and>
     sideQty BUY quotes = liquidityTotalQty 120000 \<and> sideQty SELL quotes = liquidityTotalQty 120000"
proof -
  obtain quotes where q: "buildBaseLiquidityLadder demoListed 120000 = Inr quotes"
    by (simp add: buildBaseLiquidityLadder_def demoListed_def demo_align Let_def)
  from base_ladder_exact [OF q] q show ?thesis by (auto simp: demoListed_def demo_align)
qed

lemma guarded_ladder_returns_iff_witness:
  "\<nexists>quotes. buildLiquidityLadder demoListed 1000 [\<lparr>pq_side = SELL, pq_price = 1100, pq_qty = 5\<rparr>] = Inr (Some quotes)"
  using guarded_ladder_returns_iff [of 1000 demoListed 1000 "[\<lparr>pq_side = SELL, pq_price = 1100, pq_qty = 5\<rparr>]"]
  by (simp add: demoListed_def demo_align)

end
