(* ===== verification/Maker_Exchange.thy ===== *)
theory Maker_Exchange
  imports Maker_Start Order_Props Ladder_Props
begin

text \<open>
  The market maker on the order service: the client of \<open>client.ts\<close> whose requests are answered by
  \<open>order.service.ts\<close>. Between a request and the next, and while the maker pauses, others act on the
  API: \<open>su_settle\<close>. All that is asked of them is that they place no orders for the maker's account.
  Every request is answered, by a value or by an error of the service; an answer that is lost after the
  service has acted is outside this model, and the maker does not survive it: an order whose answer is
  lost is in none of its maps. The theorem on the whole run of the maker closes the theory.
\<close>

section \<open>The client\<close>

text \<open>
  What is around the maker and the order service: the other processes (during a number of
  milliseconds), the theoretical option prices, the parser of a cached snapshot, the order in which
  simultaneous requests are answered, the reference price and the active news events.
\<close>

record surroundings =
  su_settle :: "int \<Rightarrow> api \<Rightarrow> api"
  su_theo :: "string \<Rightarrow> int option"
  su_parse :: "string \<Rightarrow> depth_view"
  su_arrival :: "api \<Rightarrow> liquidity_quote list \<Rightarrow> liquidity_quote list"
  su_modelPrice :: "string \<Rightarrow> api \<Rightarrow> rat"
  su_hasActiveEvent :: "string \<Rightarrow> api \<Rightarrow> bool"

definition liveOrder :: "string \<times> order_row \<Rightarrow> live_order" where
  "liveOrder row = (case row of (i, o') \<Rightarrow>
     \<lparr>lo_id = i, lo_side = or_side o', lo_type = or_type o', lo_price = or_price o', lo_qty = or_qty o',
      lo_filledQty = or_filledQty o', lo_status = or_status o'\<rparr>)"

definition quoteDto :: "string \<Rightarrow> order_side \<Rightarrow> int \<Rightarrow> int \<Rightarrow> place_dto" where
  "quoteDto symbol side price qty =
     \<lparr>pd_symbol = symbol, pd_side = side, pd_type = LIMIT, pd_price = Some price, pd_qty = qty, pd_positionSide = None\<rparr>"

text \<open>A request: the others act, then the service answers.\<close>

definition request :: "surroundings \<Rightarrow> 'a service \<Rightarrow> 'a service" where
  "request env f w = f (su_settle env 0 w)"

definition apiPlace :: "surroundings \<Rightarrow> string \<Rightarrow> string \<Rightarrow> order_side \<Rightarrow> int \<Rightarrow> int \<Rightarrow> string service" where
  "apiPlace env account symbol side price qty =
     request env (bindS (place (su_theo env) account (quoteDto symbol side price qty)) (\<lambda>p. returnS (fst p)))"

definition apiCancel :: "surroundings \<Rightarrow> string \<Rightarrow> string \<Rightarrow> unit service" where
  "apiCancel env account orderId = request env (bindS (cancel account orderId) (\<lambda>_. returnS ()))"

definition apiLiveOrders :: "surroundings \<Rightarrow> string \<Rightarrow> string \<Rightarrow> live_order list service" where
  "apiLiveOrders env account symbol =
     request env (readDb (\<lambda>d. map liveOrder (myOrders d account 200 (Some symbol) True)))"

definition apiQuoteState :: "surroundings \<Rightarrow> string \<Rightarrow> string \<Rightarrow> (live_order list \<times> depth_view) service" where
  "apiQuoteState env account symbol =
     request env (bindS (liveQuoteState account symbol) (\<lambda>(orders, book).
       returnS (map liveOrder orders,
         (case book of Inl text' \<Rightarrow> su_parse env text' | Inr p \<Rightarrow> \<lparr>dv_bids = [], dv_asks = [], dv_lastPrice = Some p\<rparr>))))"

definition apiClient :: "surroundings \<Rightarrow> string \<Rightarrow> api client" where
  "apiClient env account =
     \<lparr>cl_placeOrder = apiPlace env account, cl_cancelOrder = apiCancel env account,
      cl_myLiveOrders = apiLiveOrders env account, cl_quoteState = apiQuoteState env account,
      cl_arrival = su_arrival env, cl_now = ap_now,
      cl_sleep = (\<lambda>ms w. su_settle env ms (w\<lparr>ap_now := ap_now w + ms\<rparr>)),
      cl_modelPrice = su_modelPrice env, cl_hasActiveEvent = su_hasActiveEvent env\<rparr>"

section \<open>The maker's orders in the database\<close>

definition ordersUnique :: "api \<Rightarrow> bool" where
  "ordersUnique w \<longleftrightarrow> uniqueKeys (db_orders (ap_db w))"

definition ownLive :: "string \<Rightarrow> string \<Rightarrow> order_row \<Rightarrow> bool" where
  "ownLive account symbol o' \<longleftrightarrow> or_accountId o' = account \<and> or_symbol o' = symbol \<and> isActive (or_status o')"

text \<open>An order of the account that can trade.\<close>

definition rests :: "string \<Rightarrow> string \<Rightarrow> order_row \<Rightarrow> bool" where
  "rests account symbol o' \<longleftrightarrow> ownLive account symbol o' \<and> or_type o' = LIMIT \<and>
     (case or_price o' of None \<Rightarrow> False | Some p \<Rightarrow> isSafePositive p) \<and> or_filledQty o' < or_qty o'"

definition restingIds :: "string \<Rightarrow> string \<Rightarrow> api \<Rightarrow> string set" where
  "restingIds account symbol w =
     {i. \<exists>o'. findRow (db_orders (ap_db w)) i = Some o' \<and> rests account symbol o'}"

definition termsOf :: "string \<Rightarrow> string \<Rightarrow> api \<Rightarrow> order_terms" where
  "termsOf account symbol w i =
     (case findRow (db_orders (ap_db w)) i of
        None \<Rightarrow> None
      | Some o' \<Rightarrow>
          if or_accountId o' = account \<and> or_symbol o' = symbol \<and> or_type o' = LIMIT
          then map_option (Pair (or_side o')) (or_price o') else None)"

definition liveCount :: "string \<Rightarrow> string \<Rightarrow> api \<Rightarrow> nat" where
  "liveCount account symbol w = length (filter (\<lambda>(i, o'). ownLive account symbol o') (db_orders (ap_db w)))"

text \<open>The others open no order of the account and leave the terms of its orders alone.\<close>

definition leavesAccount :: "string \<Rightarrow> string \<Rightarrow> api \<Rightarrow> api \<Rightarrow> bool" where
  "leavesAccount account symbol =
     quietly ordersUnique (restingIds account symbol) (termsOf account symbol) (liveCount account symbol)"

lemma same_orders:
  "ordersUnique w \<Longrightarrow> db_orders (ap_db w') = db_orders (ap_db w) \<Longrightarrow> leavesAccount account symbol w w'"
  by (simp add: leavesAccount_def quietly_def ordersUnique_def restingIds_def termsOf_def [abs_def] liveCount_def)

lemma leaves_trans:
  "leavesAccount a x w w1 \<Longrightarrow> leavesAccount a x w1 w2 \<Longrightarrow> leavesAccount a x w w2"
  by (auto simp: leavesAccount_def quietly_def intro: map_le_trans)

lemma leaves_unique: "leavesAccount a x w w1 \<Longrightarrow> ordersUnique w1"
  by (simp add: leavesAccount_def quietly_def)

lemma resting_termed: "restingIds account symbol w \<subseteq> dom (termsOf account symbol w)"
  by (auto simp: restingIds_def termsOf_def rests_def ownLive_def split: option.splits)

section \<open>What the service does to them\<close>

lemma cancel_orders:
  assumes "cancel account i w = (r, w')"
  shows "db_orders (ap_db w') = db_orders (ap_db w)"
proof -
  have tx: "db_orders (ap_db t) = db_orders (ap_db s)" if "requestCancel i x s = (q, t)" for x s q t
    using that
    by (auto simp: requestCancel_def freshId_def createOrderOutbox_Inr elim!: bindS_cases txS_cases bindE_InrE)
  have del: "db_orders (ap_db t) = db_orders (ap_db s)" if "redisDel k s = (q, t)" for k s q t
    using that by (auto simp: redisDel_def split: if_splits)
  have nx: "db_orders (ap_db t) = db_orders (ap_db s)" if "redisSetNx k v s = (q, t)" for k v s q t
    using that by (auto simp: redisSetNx_def split: if_splits option.splits)
  show ?thesis
    using assms tx del nx unfolding cancel_def
    by (auto simp: catchS_def elim!: bindS_cases split: if_splits sum.splits prod.splits)
qed

lemma quoteState_world:
  assumes "liveQuoteState account symbol w = (r, w')"
  shows "w' = w" and "r = Inr (orders, book) \<Longrightarrow> orders = myOrders (ap_db w) account 200 (Some symbol) True"
  using assms
  by (auto simp: liveQuoteState_def redisGet_def elim!: bindS_cases split: if_splits option.splits)

text \<open>A report of the service is true, and complete unless it is cut off.\<close>

lemma myOrders_reported:
  assumes "ordersUnique w" and "l = map liveOrder (myOrders (ap_db w) account 200 (Some symbol) True)"
  shows "length l \<le> liveCount account symbol w" and "reported (termsOf account symbol w) (restingIds account symbol w) l"
proof -
  let ?own = "filter (\<lambda>(i, o'). ownLive account symbol o') (db_orders (ap_db w))"
  let ?sorted = "sort_key (\<lambda>(i, o'). - or_createdAt o') ?own"
  have l: "l = map liveOrder (take 200 ?sorted)"
    by (simp add: assms(2) myOrders_def ownLive_def)
  show n: "length l \<le> liveCount account symbol w" by (simp add: l liveCount_def)
  have row: "findRow (db_orders (ap_db w)) i = Some o' \<and> ownLive account symbol o'"
    if "(i, o') \<in> set (take 200 ?sorted)" for i o'
  proof -
    from in_set_takeD [OF that] have "(i, o') \<in> set (db_orders (ap_db w))" "ownLive account symbol o'" by simp_all
    then show ?thesis using assms(1) findRow_unique [of "db_orders (ap_db w)" i o'] by (simp add: ordersUnique_def)
  qed
  have true: "termsOf account symbol w (lo_id x) = Some (lo_side x, p)"
    if "x \<in> set l" "lo_type x = LIMIT" "lo_price x = Some p" for x p
  proof -
    from that(1) obtain i o' where o': "(i, o') \<in> set (take 200 ?sorted)" "x = liveOrder (i, o')"
      unfolding l by auto
    show ?thesis using that(2,3) row [OF o'(1)] by (simp add: o'(2) liveOrder_def termsOf_def ownLive_def)
  qed
  have all: "\<exists>x \<in> set l. lo_id x = i \<and> resting x" if c: "length l < 200" and i: "i \<in> restingIds account symbol w" for i
  proof -
    obtain o' where o': "findRow (db_orders (ap_db w)) i = Some o'" "rests account symbol o'"
      using i by (auto simp: restingIds_def)
    have "take 200 ?sorted = ?sorted" using c by (simp add: l)
    then have "liveOrder (i, o') \<in> set l"
      using o' findRow_in_set [OF o'(1)] by (auto simp: l rests_def)
    then show ?thesis
      using o'(2) by (intro bexI [of _ "liveOrder (i, o')"])
        (auto simp: liveOrder_def resting_def rests_def remainingQty_def split: option.splits)
  qed
  show "reported (termsOf account symbol w) (restingIds account symbol w) l"
    using true all by (auto simp: reported_def)
qed

lemma place_effect:
  assumes "place theo account (quoteDto symbol side price qty) w = (r, w')" "ordersUnique w"
  shows "case r of
      Inl e \<Rightarrow> leavesAccount account symbol w w'
    | Inr (i, o') \<Rightarrow> ordersUnique w' \<and> termsOf account symbol w' i = Some (side, price) \<and>
        termsOf account symbol w i = None \<and> termsOf account symbol w \<subseteq>\<^sub>m termsOf account symbol w' \<and>
        restingIds account symbol w' \<subseteq> insert i (restingIds account symbol w)"
  using assms(1)
proof (cases rule: place_cases)
  case (refused e)
  then show ?thesis using same_orders [OF assms(2)] by simp
next
  case (accepted m hold)
  let ?i = "ap_ids w (ap_next w)" and ?o = "newOrder (ap_now w) account (quoteDto symbol side price qty) hold"
  from accepted(6) obtain d1 where
    "ap_db w' = d1\<lparr>db_orders := db_orders (ap_db w) @ [(?i, ?o)],
       db_orderOutbox := db_orderOutbox (ap_db w) @ [(ap_ids w (Suc (ap_next w)),
         \<lparr>oo_payload = OrderPlaced (placedEvent (ap_now w) (ap_ids w (Suc (ap_next w))) ?i account
            (quoteDto symbol side price qty) (eventPrice theo m (quoteDto symbol side price qty))),
          oo_createdAt = ap_now w, oo_published = False\<rparr>)]\<rparr>"
    and new': "findRow (db_orders (ap_db w)) ?i = None" by (auto simp: placedDb_def)
  then have rows: "db_orders (ap_db w') = db_orders (ap_db w) @ [(?i, ?o)]" by simp
  have look: "findRow (db_orders (ap_db w')) j =
      (if j = ?i then Some ?o else findRow (db_orders (ap_db w)) j)" for j
    using new' by (auto simp: rows findRow_def map_add_def split: option.splits)
  have "ordersUnique w'"
    using assms(2) new' by (auto simp: ordersUnique_def uniqueKeys_def rows findRow_def map_of_eq_None_iff)
  moreover have "termsOf account symbol w' ?i = Some (side, price)" "termsOf account symbol w ?i = None"
    by (simp_all add: termsOf_def look new' newOrder_def quoteDto_def)
  moreover have "termsOf account symbol w \<subseteq>\<^sub>m termsOf account symbol w'"
    using new' by (auto simp: map_le_def termsOf_def look split: option.splits)
  moreover have "restingIds account symbol w' \<subseteq> insert ?i (restingIds account symbol w)"
    by (auto simp: restingIds_def look split: if_splits)
  ultimately show ?thesis by (simp add: accepted(4))
qed

section \<open>The order service is an exchange for the maker\<close>

locale settled_exchange =
  fixes env :: surroundings and account :: string and symbol :: string
  assumes others: "ordersUnique w \<Longrightarrow> leavesAccount account symbol w (su_settle env ms w)"
    and arrives: "set (su_arrival env w qs) \<subseteq> set qs \<and> (distinct qs \<longrightarrow> distinct (su_arrival env w qs))"
begin

lemma request_leaves:
  assumes "ordersUnique w" "request env f w = (r, w')"
    and "\<And>v. ordersUnique v \<Longrightarrow> f v = (r, w') \<Longrightarrow> leavesAccount account symbol v w'"
  shows "leavesAccount account symbol w w'"
proof -
  have o': "leavesAccount account symbol w (su_settle env 0 w)" by (rule others [OF assms(1)])
  have "leavesAccount account symbol (su_settle env 0 w) w'"
    using assms(2) by (intro assms(3) leaves_unique [OF o']) (simp add: request_def)
  with o' show ?thesis by (rule leaves_trans)
qed

end

sublocale settled_exchange \<subseteq> exchange: order_client "apiClient env account" symbol ordersUnique
  "restingIds account symbol" "termsOf account symbol" "liveCount account symbol"
proof (unfold_locales, goal_cases)
  case (1 w)
  show ?case by (rule resting_termed)
next
  case (2 w side price qty i w')
  let ?v = "su_settle env 0 w"
  have o': "leavesAccount account symbol w ?v" by (rule others [OF 2(1)])
  obtain p where "place (su_theo env) account (quoteDto symbol side price qty) ?v = (Inr p, w')" "i = fst p"
    using 2(2) by (auto simp: apiClient_def apiPlace_def request_def elim!: bindS_InrE)
  with place_effect [OF _ leaves_unique [OF o']]
  have p: "ordersUnique w'" "termsOf account symbol w' i = Some (side, price)" "termsOf account symbol ?v i = None"
    "termsOf account symbol ?v \<subseteq>\<^sub>m termsOf account symbol w'"
    "restingIds account symbol w' \<subseteq> insert i (restingIds account symbol ?v)" by (cases p; fastforce)+
  have v: "restingIds account symbol ?v \<subseteq> restingIds account symbol w"
    "termsOf account symbol w \<subseteq>\<^sub>m termsOf account symbol ?v"
    using o' by (simp_all add: leavesAccount_def quietly_def)
  have "termsOf account symbol w i = None"
    using v(2) p(3) by (cases "termsOf account symbol w i") (auto dest: map_leD)
  then show ?case using p v by (auto intro: map_le_trans)
next
  case (3 w side price qty e w')
  have "leavesAccount account symbol w w'"
  proof (rule request_leaves [OF 3(1)])
    show "request env (bindS (place (su_theo env) account (quoteDto symbol side price qty)) (\<lambda>p. returnS (fst p))) w = (Inl e, w')"
      using 3(2) by (simp add: apiClient_def apiPlace_def)
    show "leavesAccount account symbol v w'"
      if "ordersUnique v" "bindS (place (su_theo env) account (quoteDto symbol side price qty)) (\<lambda>p. returnS (fst p)) v = (Inl e, w')" for v
      using that(2) by (cases rule: bindS_cases) (use place_effect [OF _ that(1)] in fastforce)+
  qed
  then show ?case by (simp only: leavesAccount_def)
next
  case (4 w i r w')
  have "leavesAccount account symbol w w'"
  proof (rule request_leaves [OF 4(1)])
    show "request env (bindS (cancel account i) (\<lambda>_. returnS ())) w = (r, w')"
      using 4(2) by (simp add: apiClient_def apiCancel_def)
    show "leavesAccount account symbol v w'"
      if v: "ordersUnique v" "bindS (cancel account i) (\<lambda>_. returnS ()) v = (r, w')" for v
    proof -
      obtain q where "cancel account i v = (q, w')" using v(2) by (auto elim!: bindS_cases)
      then show ?thesis by (rule same_orders [OF v(1) cancel_orders])
    qed
  qed
  then show ?case by (simp only: leavesAccount_def)
next
  case (5 w l' w')
  let ?v = "su_settle env 0 w"
  have o': "leavesAccount account symbol w ?v" by (rule others [OF 5(1)])
  have "w' = ?v" "l' = Inr (map liveOrder (myOrders (ap_db ?v) account 200 (Some symbol) True))"
    using 5(2) by (auto simp: apiClient_def apiLiveOrders_def request_def)
  then show ?case using o' myOrders_reported [OF leaves_unique [OF o'] refl] by (simp add: leavesAccount_def)
next
  case (6 w view w')
  let ?v = "su_settle env 0 w"
  have o': "leavesAccount account symbol w ?v" by (rule others [OF 6(1)])
  have f: "bindS (liveQuoteState account symbol) (\<lambda>(orders, book). returnS (map liveOrder orders,
         (case book of Inl text' \<Rightarrow> su_parse env text' | Inr p \<Rightarrow> \<lparr>dv_bids = [], dv_asks = [], dv_lastPrice = Some p\<rparr>))) ?v
       = (view, w')"
    using 6(2) by (simp add: apiClient_def apiQuoteState_def request_def)
  from f have "w' = ?v \<and> (\<forall>l v. view = Inr (l, v) \<longrightarrow> l = map liveOrder (myOrders (ap_db ?v) account 200 (Some symbol) True))"
  proof (cases rule: bindS_cases)
    case (failed e)
    then show ?thesis using quoteState_world(1) [OF failed(1)] by simp
  next
    case (went_on x s')
    obtain orders book where x: "x = (orders, book)" by (cases x)
    have "s' = ?v" "orders = myOrders (ap_db ?v) account 200 (Some symbol) True"
      using quoteState_world [OF went_on(1)] x by auto
    then show ?thesis using went_on(2) x by auto
  qed
  then show ?case using o' myOrders_reported(2) [OF leaves_unique [OF o'] refl] by (auto simp: leavesAccount_def)
next
  case (7 w ms)
  have "ordersUnique (w\<lparr>ap_now := ap_now w + ms\<rparr>)" using 7 by (simp add: ordersUnique_def)
  from others [OF this] have "leavesAccount account symbol w (su_settle env ms (w\<lparr>ap_now := ap_now w + ms\<rparr>))"
    by (rule leaves_trans [rotated]) (rule same_orders [OF 7], simp)
  then show ?case by (simp add: apiClient_def leavesAccount_def)
next
  case (8 w qs)
  show ?case using arrives by (simp add: apiClient_def)
qed

section \<open>The whole run\<close>

text \<open>No bid of the account that can trade reaches an ask of the account that can trade.\<close>

definition selfUncrossed :: "string \<Rightarrow> string \<Rightarrow> api \<Rightarrow> bool" where
  "selfUncrossed account symbol w \<longleftrightarrow>
     (\<forall>(i, b) \<in> set (db_orders (ap_db w)). \<forall>(j, a) \<in> set (db_orders (ap_db w)).
        rests account symbol b \<and> rests account symbol a \<and> or_side b = BUY \<and> or_side a = SELL \<longrightarrow>
        the (or_price b) < the (or_price a))"

text \<open>Every order of the account that can trade is in one of the maker's maps.\<close>

definition allTracked :: "string \<Rightarrow> string \<Rightarrow> api maker \<Rightarrow> bool" where
  "allTracked account symbol s \<longleftrightarrow>
     (\<forall>(i, o') \<in> set (db_orders (ap_db (mm_world s))). rests account symbol o' \<longrightarrow>
        i \<in> trackedIds (mm_retirable s) s)"

lemma resting_row: "ordersUnique w \<Longrightarrow> i \<in> restingIds account symbol w \<longleftrightarrow>
    (\<exists>o'. (i, o') \<in> set (db_orders (ap_db w)) \<and> rests account symbol o')"
  by (simp add: restingIds_def ordersUnique_def findRow_unique)

lemma resting_terms:
  assumes "ordersUnique w" "(i, o') \<in> set (db_orders (ap_db w))" "rests account symbol o'"
  shows "termsOf account symbol w i = Some (or_side o', the (or_price o'))"
proof -
  have "findRow (db_orders (ap_db w)) i = Some o'" using assms(1,2) by (simp add: ordersUnique_def findRow_unique)
  then show ?thesis using assms(3) by (auto simp: termsOf_def rests_def ownLive_def split: option.splits)
qed

lemma selfUncrossed_iff:
  assumes "ordersUnique w"
  shows "selfUncrossed account symbol w \<longleftrightarrow> uncrossed (termsOf account symbol w) (restingIds account symbol w)"
proof
  assume u: "selfUncrossed account symbol w"
  show "uncrossed (termsOf account symbol w) (restingIds account symbol w)"
    unfolding uncrossed_def
  proof (intro ballI allI impI)
    fix i j p q assume "i \<in> restingIds account symbol w" "j \<in> restingIds account symbol w"
      and t: "termsOf account symbol w i = Some (BUY, p)" "termsOf account symbol w j = Some (SELL, q)"
    then obtain b a where b: "(i, b) \<in> set (db_orders (ap_db w))" "rests account symbol b"
      and a: "(j, a) \<in> set (db_orders (ap_db w))" "rests account symbol a" by (auto simp: resting_row [OF assms])
    have "or_side b = BUY" "the (or_price b) = p" "or_side a = SELL" "the (or_price a) = q"
      using t resting_terms [OF assms b] resting_terms [OF assms a] by simp_all
    then show "p < q" using u a b unfolding selfUncrossed_def by fastforce
  qed
next
  assume u: "uncrossed (termsOf account symbol w) (restingIds account symbol w)"
  have "the (or_price b) < the (or_price a)"
    if b: "(i, b) \<in> set (db_orders (ap_db w))" "rests account symbol b" "or_side b = BUY"
      and a: "(j, a) \<in> set (db_orders (ap_db w))" "rests account symbol a" "or_side a = SELL" for i b j a
  proof -
    have "i \<in> restingIds account symbol w" "j \<in> restingIds account symbol w"
      using a b by (auto simp: resting_row [OF assms])
    with u show ?thesis
      using resting_terms [OF assms b(1,2)] resting_terms [OF assms a(1,2)] a(3) b(3) unfolding uncrossed_def by simp
  qed
  then show "selfUncrossed account symbol w" by (auto simp: selfUncrossed_def)
qed

context settled_exchange
begin

lemma run_orders:
  assumes "sd_symbol def = symbol" "ordersUnique w" "selfUncrossed account symbol w"
    and "initialMaker (apiClient env account) def w = Inr s"
    and "makerTurns (apiClient env account) def options n s = (r, s')"
    and "\<forall>k < n. \<forall>t. makerTurns (apiClient env account) def options k s = (Inr (), t) \<longrightarrow> \<not> mm_initialized t \<longrightarrow>
      liveCount account symbol (mm_world t) < 200"
  shows "selfUncrossed account symbol (mm_world s') \<and> (mm_initialized s' \<longrightarrow> allTracked account symbol s')"
proof -
  have u: "uncrossed (termsOf account symbol w) (restingIds account symbol w)"
    using assms(3) by (simp add: selfUncrossed_iff [OF assms(2)])
  note run = exchange.run_sound [OF assms(1,4,2) u assms(5,6)]
  have "allTracked account symbol s'" if "mm_initialized s'"
    unfolding allTracked_def using run(3) [OF that] resting_row [OF run(1), of _ account symbol] by blast
  then show ?thesis using run(2) by (simp add: selfUncrossed_iff [OF run(1)])
qed

end

text \<open>
  C20. The market maker never trades with itself and never loses an order: as long as nobody else opens
  orders for its account, after any number of turns of its loop - starts, adoptions, cancellations that
  are still in flight, refused requests and staged migrations included - no bid of the account that can
  trade is at or above an ask that can trade, and once it has started every order of the account that can
  trade is one it keeps track of. A start must see all its inherited orders (fewer than 200 are live), and
  every request is answered.
\<close>

theorem maker_never_crosses_itself:
  assumes "\<forall>ms v. ordersUnique v \<longrightarrow> leavesAccount account (sd_symbol def) v (su_settle env ms v)"
    and "\<forall>v qs. set (su_arrival env v qs) \<subseteq> set qs \<and> (distinct qs \<longrightarrow> distinct (su_arrival env v qs))"
    and "ordersUnique w" "selfUncrossed account (sd_symbol def) w"
    and "initialMaker (apiClient env account) def w = Inr s"
    and "makerTurns (apiClient env account) def options n s = (r, s')"
    and "\<forall>k < n. \<forall>t. makerTurns (apiClient env account) def options k s = (Inr (), t) \<longrightarrow> \<not> mm_initialized t \<longrightarrow>
      liveCount account (sd_symbol def) (mm_world t) < 200"
  shows "selfUncrossed account (sd_symbol def) (mm_world s') \<and>
    (mm_initialized s' \<longrightarrow> allTracked account (sd_symbol def) s')"
proof -
  have "settled_exchange env account (sd_symbol def)" using assms(1,2) by unfold_locales blast+
  from settled_exchange.run_orders [OF this refl assms(3-7)] show ?thesis .
qed

section \<open>An example\<close>

text \<open>Others that carry out every cancellation at once.\<close>

definition cancelRequested :: "db \<Rightarrow> string \<Rightarrow> bool" where
  "cancelRequested d i \<longleftrightarrow>
     list_ex (\<lambda>(e, r). case oo_payload r of OrderCancelRequested c \<Rightarrow> cr_orderId c = i | _ \<Rightarrow> False) (db_orderOutbox d)"

definition closeIf :: "bool \<Rightarrow> order_row \<Rightarrow> order_row" where
  "closeIf c o' = (if c \<and> isActive (or_status o') then o'\<lparr>or_status := CANCELED\<rparr> else o')"

definition carryOutCancels :: "api \<Rightarrow> api" where
  "carryOutCancels w = w\<lparr>ap_db := (ap_db w)\<lparr>db_orders :=
     map (\<lambda>(i, o'). (i, closeIf (cancelRequested (ap_db w) i) o')) (db_orders (ap_db w))\<rparr>\<rparr>"

definition demoAround :: surroundings where
  "demoAround = \<lparr>su_settle = (\<lambda>ms. carryOutCancels), su_theo = (\<lambda>_. None),
     su_parse = (\<lambda>_. \<lparr>dv_bids = [], dv_asks = [], dv_lastPrice = None\<rparr>), su_arrival = (\<lambda>w qs. rev qs),
     su_modelPrice = (\<lambda>_ _. 120000), su_hasActiveEvent = (\<lambda>_ _. False)\<rparr>"

lemma closeIf_rests: "rests account symbol (closeIf c o') \<Longrightarrow> rests account symbol o'"
  by (auto simp: closeIf_def rests_def ownLive_def isActive_def split: if_splits)

lemma closeIf_own: "ownLive account symbol (closeIf c o') \<Longrightarrow> ownLive account symbol o'"
  by (auto simp: closeIf_def ownLive_def isActive_def split: if_splits)

lemma carryOut_leaves: "ordersUnique w \<Longrightarrow> leavesAccount account symbol w (carryOutCancels w)"
proof -
  assume u: "ordersUnique w"
  let ?c = "cancelRequested (ap_db w)"
  have rows: "db_orders (ap_db (carryOutCancels w)) = map (\<lambda>(i, o'). (i, closeIf (?c i) o')) (db_orders (ap_db w))"
    by (simp add: carryOutCancels_def)
  have look: "findRow (db_orders (ap_db (carryOutCancels w))) i = map_option (closeIf (?c i)) (findRow (db_orders (ap_db w)) i)" for i
  proof -
    have "map_of (map (\<lambda>(i, o'). (i, closeIf (?c i) o')) t) i = map_option (closeIf (?c i)) (map_of t i)" for t
      by (induction t) auto
    then show ?thesis by (simp add: rows findRow_def)
  qed
  have "ordersUnique (carryOutCancels w)"
    using u by (simp add: ordersUnique_def uniqueKeys_def rows comp_def case_prod_beta)
  moreover have "restingIds account symbol (carryOutCancels w) \<subseteq> restingIds account symbol w"
    by (auto simp: restingIds_def look dest: closeIf_rests)
  moreover have "termsOf account symbol w \<subseteq>\<^sub>m termsOf account symbol (carryOutCancels w)"
    by (auto simp: map_le_def termsOf_def look closeIf_def split: option.splits if_splits)
  moreover have "liveCount account symbol (carryOutCancels w) \<le> liveCount account symbol w"
  proof -
    have "length (filter (\<lambda>(i, o'). ownLive account symbol o') (map (\<lambda>(i, o'). (i, closeIf (?c i) o')) t)) \<le>
        length (filter (\<lambda>(i, o'). ownLive account symbol o') t)" for t
      by (induction t) (auto dest: closeIf_own)
    then show ?thesis by (simp add: liveCount_def rows)
  qed
  ultimately show ?thesis by (simp add: leavesAccount_def quietly_def)
qed

interpretation demo: settled_exchange demoAround "''A''" "''KABU''"
  by unfold_locales (auto simp: demoAround_def carryOut_leaves)

definition demoMakerOptions :: maker_options where
  "demoMakerOptions = \<lparr>mo_allowUnretirableReserveFallback = True, mo_quoteReconcileMs = 1000,
     mo_oneSidedRestartMs = 30000, mo_ordinaryRecenterMs = 1000\<rparr>"

text \<open>A has a bid in the book when its maker starts.\<close>

lemma maker_never_crosses_itself_witness:
  "\<exists>s. initialMaker (apiClient demoAround ''A'') demoListed demoApi = Inr s \<and>
     selfUncrossed ''A'' ''KABU'' (mm_world (snd (makerTurns (apiClient demoAround ''A'') demoListed demoMakerOptions 1 s)))"
proof -
  obtain s where s: "initialMaker (apiClient demoAround ''A'') demoListed demoApi = Inr s" and w: "mm_world s = demoApi"
    by (simp add: demo_align initialMaker_def apiClient_def demoAround_def demoListed_def)
  let ?r = "makerTurns (apiClient demoAround ''A'') demoListed demoMakerOptions 1 s"
  have start: "ordersUnique demoApi" "selfUncrossed ''A'' ''KABU'' demoApi" "liveCount ''A'' ''KABU'' demoApi < 200"
    by code_simp+
  have x: "sd_symbol demoListed = ''KABU''" by (simp add: demoListed_def)
  have "selfUncrossed ''A'' (sd_symbol demoListed) (mm_world (snd ?r))"
    using maker_never_crosses_itself [of "''A''" demoListed demoAround demoApi s demoMakerOptions 1 "fst ?r" "snd ?r"]
      demo.others demo.arrives start s w by (simp add: x)
  then show ?thesis using s x by auto
qed

end
