(* ===== verification/Spec2Isabelle.thy ===== *)
theory Spec2Isabelle
  imports Orderbook_Props Futures_Props Futures_Risk_Props Market_Props Engine_Recovery_Props
    Engine_Bootstrap_Props Lock_Props Settlement_Flow_Props Order_Props Conditional_Props Bracket_Props Futures_Settlement_Props Risk_Watch_Props Futures_Service_Props
    Options_Props Auth_Service Liquidity_Service Recovery_Props Maker_Exchange
begin

text \<open>
  Verification of the virtual exchange, a monorepo of TypeScript packages (paths below are under
  \<open>src/\<close>). It trades stocks, futures and one-day options for play money.

  \<^bold>\<open>The program.\<close> Several processes share one PostgreSQL database and Redis streams. The API
  (\<open>apps/api\<close>) checks an order, reserves its money or shares, and stores it in one transaction with an
  event in an outbox; a relay moves the outbox to the order stream. The matching engine
  (\<open>apps/matching-engine\<close>) is the only writer of the order books: it claims an event, matches the order,
  and stores trades and an outbox of trade and close events in one transaction; its relay moves them to
  the trade stream. The settlement worker (\<open>apps/settlement\<close>) consumes that stream, moves cash, shares
  and positions, and releases what closed orders still hold. Inside the API, timers fire reserved orders
  (conditional orders, brackets), watch the margin of the futures accounts, settle futures and options
  every day and lay out new option strikes. Bots (\<open>apps/bots\<close>) trade through the API; the market maker
  among them keeps a ladder of orders on both sides of the book. Account rows are written under one of
  three lock strategies (\<open>packages/concurrency\<close>), and \<open>packages/shared\<close> holds the rules all processes use.

  \<^bold>\<open>How it is modelled.\<close> A \<open>number\<close> that stays a safe integer and a \<open>BigInt\<close> are \<open>int\<close>; where the code
  divides or multiplies fractions, \<open>Js_Number\<close> rounds each operation to binary64 (\<open>fl\<close>, \<open>jsMul\<close>, \<open>jsDiv\<close>).
  An interface is a \<open>record\<close>, a string union a \<open>datatype\<close>. A \<open>Map\<close> or a table is an association list in
  insertion order (\<open>rows\<close>, with the laws of the locale \<open>keyed_table\<close> in \<open>Prelude\<close>). A function that may
  throw returns \<open>error + 'a\<close>; one with effects takes and returns the state, and an exception keeps what
  was done before it unless the code runs in a transaction, which restores the database. What other
  processes do between two steps is an argument (\<open>others\<close>, \<open>su_settle\<close>). Redis, the clock and the
  identifiers of new rows are part of the state or arguments.

  \<^bold>\<open>Theories, from the ground up.\<close>
  \<^item> \<open>Prelude\<close>, \<open>Js_Number\<close>: results, tables, loops over lists; JavaScript arithmetic.
  \<^item> \<open>Exchange_Types\<close>, \<open>Market_Constants\<close>, \<open>Futures_Rules\<close>, \<open>Option_Rules\<close>, \<open>Conditional_Rules\<close>,
    \<open>Settlement_Rules\<close>, \<open>Reference_Assets\<close>: \<open>packages/shared/src\<close>. \<open>Market_Props\<close>, \<open>Futures_Props\<close> and
    \<open>Futures_Risk_Props\<close> show the consistency of the listings, the accounting of futures fills, the
    assessment of an account's margin and that a liquidation is as small as possible.
  \<^item> \<open>Orderbook\<close>: \<open>apps/matching-engine/src/orderbook.ts\<close>, with the locale \<open>price_priority\<close> for the two
    sides. \<open>Orderbook_Props\<close>: the book stays sorted, uncrossed and well formed, shares are conserved, fills
    respect limits and time priority, closes report exactly what was filled.
  \<^item> \<open>Database\<close>: the tables of \<open>packages/db/prisma/schema.prisma\<close> that are used, with keys and checks.
  \<^item> \<open>Engine\<close>: \<open>apps/matching-engine/src/engine.ts\<close>. \<open>Engine_Props\<close>, \<open>Engine_Outbox_Props\<close>,
    \<open>Engine_Recovery_Props\<close>, \<open>Engine_Bootstrap_Props\<close>: an event has its effect once, the outbox tells
    exactly the trades, the relay delivers in order, a restart restores the books.
  \<^item> \<open>Lock_Strategies\<close>: \<open>packages/concurrency/src\<close>, with the locale \<open>account_lock\<close> interpreted on the three
    strategies. \<open>Lock_Props\<close>: an optimistic commit is a serial execution; what the fence does not prevent.
  \<^item> \<open>Settlement_Worker\<close>: \<open>apps/settlement/src\<close>. \<open>Settlement_Props\<close>, \<open>Settlement_Flow_Props\<close>: cash, shares and
    positions move by exactly what the trade says, an event settles once, a close releases the rest, only
    settled events are acknowledged.
  \<^item> \<open>Recovery_Plan\<close>, \<open>Recovery_Tool\<close>: the two scripts of \<open>packages/db/scripts\<close>. \<open>Recovery_Sim\<close>,
    \<open>Recovery_Props\<close>: a plan without issues writes what the settlement worker would have written.
  \<^item> \<open>Maintenance\<close>, \<open>Api_Service\<close>: the trading pause and the setting of the API services (programs over
    \<open>api\<close>; the locale \<open>step_relation\<close> carries a relation between states through such programs).
  \<^item> \<open>Order_Margin\<close>, \<open>Order_Service\<close>: \<open>apps/api/src/order\<close>, placing, cancelling, amending and the relay.
    \<open>Order_Props\<close>: all or nothing, promises stay covered, a key places once, an amendment stays within what
    is unfilled, every event is relayed at least once.
  \<^item> \<open>Conditional_Service\<close>, \<open>Bracket_Service\<close> with \<open>Conditional_Props\<close>, \<open>Bracket_Props\<close>: a reserved order
    places at most one order, trailing extremes persist in any order, a bracket protects once.
  \<^item> \<open>Futures_Service\<close>, \<open>Futures_Risk\<close>, \<open>Futures_Settlement\<close>, \<open>Options_Service\<close> (\<open>apps/api/src/futures\<close>) with
    \<open>Futures_Service_Props\<close>, \<open>Risk_Watch_Props\<close>, \<open>Futures_Settlement_Props\<close>, \<open>Options_Props\<close>: a day is paid
    once, liquidations only reduce, margin calls follow the policy, held contracts keep their strikes.
  \<^item> \<open>Auth_Service\<close>, \<open>Liquidity_Service\<close>: \<open>apps/api/src/auth\<close> and \<open>apps/api/src/liquidity\<close>, the accounts and
    the reserve accounts of the market makers, with their properties.
  \<^item> \<open>Liquidity_Ladder\<close>: \<open>apps/bots/src/liquidity.ts\<close>. \<open>Ladder_Props\<close>: rounding loses no share, bids below
    and asks above the center, and exactly when the ladder around preserved orders is computed at all.
  \<^item> \<open>Market_Maker\<close> (data and pure functions) and \<open>Maker_Loop\<close> (everything that talks to the API, the start
    and the turn of the loop): \<open>apps/bots/src/market-maker.ts\<close>, over a record \<open>client\<close>. \<open>Maker_Props\<close> states
    the contract of the API as the locale \<open>order_client\<close> and composes the steps by triples with an
    exceptional postcondition; \<open>Maker_Safety\<close> and \<open>Maker_Start\<close> prove the run from that contract;
    \<open>Maker_Exchange\<close> builds the client of \<open>apps/bots/src/client.ts\<close> on \<open>Order_Service\<close>, discharges the
    contract, and concludes that the maker never trades with itself and never loses an order.

  \<^bold>\<open>Bounds.\<close> A loop with a bound in the code has it here: 20 reads of an idempotency key, 40 polls of an
  amendment, 5 optimistic attempts, 4 identities of a reserve account. The start of the market maker polls
  until a deadline of 5000 ms, pausing 200 ms: the fuel of 26 polls is not used up as long as a pause takes
  that long. Matching terminates by a measure; the extension of an option ladder and the allocation of
  the rest of a budget are partial functions, and theorems say when they return.

  \<^bold>\<open>Not modelled.\<close>
  \<^item> The other bots (\<open>main.ts\<close>, \<open>market-model.ts\<close>, \<open>market-cycle.ts\<close>, \<open>futures-bots.ts\<close>,
    \<open>options-bots.ts\<close>) and the news generator: random price simulation with \<open>Math.log\<close> and \<open>Math.exp\<close>.
  \<^item> The theoretical option price (\<open>Math.exp\<close>, \<open>Math.log\<close>) and bcrypt: arguments of the services.
  \<^item> The web client, the socket gateway and the controllers, except the handler of a new order.
  \<^item> Process supervision, timers, caches, notifications, counters, logging and message texts; JSON parsing.
  \<^item> The services call the account lock with its row-lock strategy; text is ASCII.
  \<^item> In the market maker: the random part of a pause and the stall warning; the answers to requests that
    were sent side by side arrive one after another in any order, each followed by its cancellation; every
    request is answered.
\<close>

end
